(* ===== verification/WP_Prelude.thy ===== *)
theory WP_Prelude
  imports Main "HOL-Library.Word"
begin

text \<open>
  The shared layer of the development: machine integers, C strings and the parts of the C
  library that the sources use on them.

  A C string is a \<^typ>\<open>string\<close> without its terminating NUL byte; a buffer that may hold
  NUL bytes is read as a C string through \<open>cstr\<close>. \<open>snprintf\<close> returns the text the
  buffer holds afterwards and the length C returns, so that truncation is visible; the
  idiom \<open>n > 0 && (size_t)n < out_len\<close>, which every formatting function of the program
  ends with, is \<open>fits\<close>. \<open>strtoul\<close> and \<open>strtol\<close> follow the C standard: white
  space, sign, digits, clamping of values out of range, and no conversion as \<^term>\<open>None\<close>.
  Out parameters are results: a function \<open>bool f(..., char *out, ...)\<close> returns an
  option.
\<close>

named_theorems wp_defs \<open>definitions unfolded when an operation is evaluated\<close>
named_theorems wp_inv \<open>an operation keeps an invariant\<close>
named_theorems wp_text \<open>facts on the text that the formatting functions produce\<close>

type_synonym u8 = "8 word"
type_synonym u16 = "16 word"
type_synonym u32 = "32 word"
type_synonym u64 = "64 word"
type_synonym i32 = "32 word"
type_synonym fd = int

abbreviation NUL :: char where "NUL \<equiv> CHR 0x00"
abbreviation TAB :: char where "TAB \<equiv> CHR 0x09"
abbreviation LF :: char where "LF \<equiv> CHR 0x0A"
abbreviation CR :: char where "CR \<equiv> CHR 0x0D"
abbreviation SP :: char where "SP \<equiv> CHR 0x20"
abbreviation DQ :: char where "DQ \<equiv> CHR 0x22"

section \<open>C strings\<close>

definition cstr :: "string \<Rightarrow> string" where
  "cstr buf = takeWhile (\<lambda>c. c \<noteq> NUL) buf"

definition snprintf :: "nat \<Rightarrow> string \<Rightarrow> string \<times> nat" where
  "snprintf sz s = (take (sz - 1) s, length s)"

definition fits :: "nat \<Rightarrow> string \<Rightarrow> string option" where
  "fits sz s = (case snprintf sz s of (out, n) \<Rightarrow> if 0 < n \<and> n < sz then Some out else None)"

definition starts_with :: "string \<Rightarrow> string \<Rightarrow> bool" where
  "starts_with p s \<longleftrightarrow> take (length p) s = p"

definition rtrim :: "(char \<Rightarrow> bool) \<Rightarrow> string \<Rightarrow> string" where
  "rtrim p s = rev (dropWhile p (rev s))"

definition strtok_r :: "(char \<Rightarrow> bool) \<Rightarrow> string \<Rightarrow> (string \<times> string) option" where
  "strtok_r d s =
     (let s' = dropWhile d s
      in if s' = [] then None
         else Some (takeWhile (\<lambda>c. \<not> d c) s', drop 1 (dropWhile (\<lambda>c. \<not> d c) s')))"

lemma strtok_r_shorter: "strtok_r d s = Some (t, r) \<Longrightarrow> length r < length s"
proof -
  assume a: "strtok_r d s = Some (t, r)"
  let ?s = "dropWhile d s"
  from a have ne: "?s \<noteq> []" and r: "r = drop 1 (dropWhile (\<lambda>c. \<not> d c) ?s)"
    by (auto simp: strtok_r_def Let_def split: if_splits)
  have l1: "length ?s \<le> length s" by (rule length_dropWhile_le)
  have l2: "length (dropWhile (\<lambda>c. \<not> d c) ?s) \<le> length ?s" by (rule length_dropWhile_le)
  show ?thesis
  proof (cases "dropWhile (\<lambda>c. \<not> d c) ?s")
    case Nil
    with r have "r = []" by simp
    with ne l1 show ?thesis by (cases ?s) auto
  next
    case (Cons a b)
    with r l1 l2 show ?thesis by simp
  qed
qed

function tokens :: "(char \<Rightarrow> bool) \<Rightarrow> string \<Rightarrow> string list" where
  "tokens d s = (case strtok_r d s of None \<Rightarrow> [] | Some (t, r) \<Rightarrow> t # tokens d r)"
  by pat_completeness auto
termination
  by (relation "measure (\<lambda>(d, s). length s)") (auto simp: strtok_r_shorter)

declare tokens.simps [simp del]

definition arg :: "string list \<Rightarrow> nat \<Rightarrow> string option" where
  "arg ts i = (if i < length ts then Some (ts ! i) else None)"

section \<open>Numbers as text\<close>

definition is_space :: "char \<Rightarrow> bool" where
  "is_space c \<longleftrightarrow> c = SP \<or> (9 \<le> (of_char c :: nat) \<and> (of_char c :: nat) \<le> 13)"

definition digit_of :: "nat \<Rightarrow> char \<Rightarrow> nat option" where
  "digit_of base c =
     (let n = (of_char c :: nat);
          v = (if 48 \<le> n \<and> n \<le> 57 then n - 48
               else if 97 \<le> n \<and> n \<le> 122 then n - 87
               else if 65 \<le> n \<and> n \<le> 90 then n - 55 else 99)
      in if v < base then Some v else None)"

definition is_digit :: "char \<Rightarrow> bool" where
  "is_digit c \<longleftrightarrow> 48 \<le> (of_char c :: nat) \<and> (of_char c :: nat) \<le> 57"

definition digit_in :: "nat \<Rightarrow> char \<Rightarrow> bool" where
  "digit_in base c \<longleftrightarrow> digit_of base c \<noteq> None"

definition digits_val :: "nat \<Rightarrow> string \<Rightarrow> nat" where
  "digits_val base ds = foldl (\<lambda>a c. base * a + (case digit_of base c of Some d \<Rightarrow> d | None \<Rightarrow> 0)) 0 ds"

definition strip_sign :: "string \<Rightarrow> bool \<times> string" where
  "strip_sign s =
     (case s of c # cs \<Rightarrow> if c = CHR ''-'' then (True, cs) else if c = CHR ''+'' then (False, cs) else (False, s)
      | [] \<Rightarrow> (False, []))"

definition strip_0x :: "nat \<Rightarrow> string \<Rightarrow> string" where
  "strip_0x base s =
     (if base = 16 \<and> (starts_with ''0x'' s \<or> starts_with ''0X'' s)
         \<and> (case drop 2 s of [] \<Rightarrow> False | c # _ \<Rightarrow> digit_in 16 c)
      then drop 2 s else s)"

definition strto :: "nat \<Rightarrow> string \<Rightarrow> (bool \<times> nat \<times> string) option" where
  "strto base s =
     (case strip_sign (dropWhile is_space s) of (neg, s1) \<Rightarrow>
        let s2 = strip_0x base s1;
            ds = takeWhile (digit_in base) s2
        in if ds = [] then None
           else Some (neg, digits_val base ds, dropWhile (digit_in base) s2))"

definition strtoul :: "nat \<Rightarrow> string \<Rightarrow> (u64 \<times> string) option" where
  "strtoul base s =
     (case strto base s of None \<Rightarrow> None
      | Some (neg, v, rest) \<Rightarrow>
          Some (if 2 ^ 64 \<le> v then - 1 else if neg then - of_nat v else of_nat v, rest))"

definition strtol :: "nat \<Rightarrow> string \<Rightarrow> (int \<times> string) option" where
  "strtol base s =
     (case strto base s of None \<Rightarrow> None
      | Some (neg, v, rest) \<Rightarrow>
          Some (let i = (if neg then - int v else int v)
                in if i < - (2 ^ 63) then - (2 ^ 63) else if 2 ^ 63 \<le> i then 2 ^ 63 - 1 else i, rest))"

definition atoul :: "string \<Rightarrow> u64" where
  "atoul s = (case strtoul 10 s of None \<Rightarrow> 0 | Some (v, _) \<Rightarrow> v)"

definition atol :: "string \<Rightarrow> int" where
  "atol s = (case strtol 10 s of None \<Rightarrow> 0 | Some (v, _) \<Rightarrow> v)"

fun show_nat :: "nat \<Rightarrow> string" where
  "show_nat n =
     (if n < 10 then [char_of (48 + n)] else show_nat (n div 10) @ [char_of (48 + n mod 10)])"

declare show_nat.simps [simp del]

definition show_int :: "int \<Rightarrow> string" where
  "show_int i = (if i < 0 then CHR ''-'' # show_nat (nat (- i)) else show_nat (nat i))"

abbreviation show_u32 :: "u32 \<Rightarrow> string" where "show_u32 w \<equiv> show_nat (unat w)"
abbreviation show_u64 :: "u64 \<Rightarrow> string" where "show_u64 w \<equiv> show_nat (unat w)"
abbreviation show_i32 :: "i32 \<Rightarrow> string" where "show_i32 w \<equiv> show_int (sint w)"

section \<open>Reading a line from a byte stream\<close>

text \<open>
  The loop \<open>while (total + 1 < out_len) { read 1 byte; ...; if (c == '\n') break; }\<close>:
  the stream is the list of the bytes that can be read before end of file or a timeout.
\<close>

fun read_line_loop :: "nat \<Rightarrow> string \<Rightarrow> string" where
  "read_line_loop 0 input = []"
| "read_line_loop (Suc room) [] = []"
| "read_line_loop (Suc room) (c # input) = (if c = LF then [c] else c # read_line_loop room input)"

section \<open>Linear searches\<close>

fun find_index :: "('a \<Rightarrow> bool) \<Rightarrow> 'a list \<Rightarrow> nat option" where
  "find_index p [] = None"
| "find_index p (x # xs) = (if p x then Some 0 else map_option Suc (find_index p xs))"

section \<open>Loops that may fail\<close>

text \<open>A \<open>for\<close> loop over a list of indices whose body may run into undefined behaviour (\<^term>\<open>None\<close>).\<close>

fun foldM :: "('s \<Rightarrow> 'a \<Rightarrow> 's option) \<Rightarrow> 's \<Rightarrow> 'a list \<Rightarrow> 's option" where
  "foldM f s [] = Some s"
| "foldM f s (x # xs) = (case f s x of None \<Rightarrow> None | Some s' \<Rightarrow> foldM f s' xs)"

section \<open>Facts on C strings\<close>

lemma fits_eq: "fits sz s = (if s \<noteq> [] \<and> length s < sz then Some s else None)"
  by (auto simp: fits_def snprintf_def)

lemma fits_SomeD: "fits sz s = Some t \<Longrightarrow> t = s \<and> s \<noteq> [] \<and> length s < sz"
  by (auto simp: fits_eq split: if_splits)

lemma fits_SomeI: "s \<noteq> [] \<Longrightarrow> length s < sz \<Longrightarrow> fits sz s = Some s"
  by (simp add: fits_eq)

lemma cstr_id: "NUL \<notin> set s \<Longrightarrow> cstr s = s"
  by (auto simp: cstr_def takeWhile_eq_all_conv)

lemma cstr_append: "NUL \<notin> set s \<Longrightarrow> cstr (s @ t) = s @ cstr t"
  unfolding cstr_def by (subst takeWhile_append2) auto

lemma length_cstr_le: "length (cstr s) \<le> length s"
  by (simp add: cstr_def length_takeWhile_le)

lemma set_cstr_subset: "set (cstr s) \<subseteq> set s"
  by (auto simp: cstr_def dest: set_takeWhileD)

lemma NUL_notin_cstr [simp]: "NUL \<notin> set (cstr s)"
  by (auto simp: cstr_def dest: set_takeWhileD)

lemma starts_with_append [simp]: "starts_with p (p @ s)"
  by (simp add: starts_with_def)

lemma starts_with_iff: "starts_with p s \<longleftrightarrow> (\<exists>t. s = p @ t)"
  by (auto simp: starts_with_def) (metis append_take_drop_id)

lemma rtrim_append: "\<forall>c \<in> set t. p c \<Longrightarrow> rtrim p (s @ t) = rtrim p s"
  by (induction t rule: rev_induct) (auto simp: rtrim_def)

lemma rtrim_snoc [simp]: "p c \<Longrightarrow> rtrim p (s @ [c]) = rtrim p s"
  by (simp add: rtrim_def)

lemma rtrim_id: "s = [] \<or> \<not> p (last s) \<Longrightarrow> rtrim p s = s"
  by (cases s rule: rev_cases) (auto simp: rtrim_def)

lemma rtrim_prefix: "\<exists>t. s = rtrim p s @ t \<and> (\<forall>c \<in> set t. p c)"
proof -
  have "s = rev (takeWhile p (rev s) @ dropWhile p (rev s))" by simp
  also have "\<dots> = rtrim p s @ rev (takeWhile p (rev s))"
    by (simp only: rev_append rtrim_def)
  finally show ?thesis
    by (intro exI [of _ "rev (takeWhile p (rev s))"]) (auto dest: set_takeWhileD)
qed

lemma length_rtrim_le: "length (rtrim p s) \<le> length s"
  using length_dropWhile_le [of p "rev s"] by (simp add: rtrim_def)

lemma rtrim_last: "rtrim p s \<noteq> [] \<Longrightarrow> \<not> p (last (rtrim p s))"
proof -
  assume "rtrim p s \<noteq> []"
  then have ne: "dropWhile p (rev s) \<noteq> []" by (simp add: rtrim_def)
  then show ?thesis using hd_dropWhile [OF ne] by (simp add: rtrim_def last_rev)
qed

lemma takeWhile_word: "\<forall>c \<in> set w. \<not> d c \<Longrightarrow> d x \<Longrightarrow> takeWhile (\<lambda>c. \<not> d c) (w @ x # r) = w"
  by (induction w) auto

lemma dropWhile_word: "\<forall>c \<in> set w. \<not> d c \<Longrightarrow> d x \<Longrightarrow> dropWhile (\<lambda>c. \<not> d c) (w @ x # r) = x # r"
  by (induction w) auto

lemma dropWhile_none: "\<forall>x \<in> set w. p x \<Longrightarrow> dropWhile p w = []"
  by simp

lemma dropWhile_hd: "w \<noteq> [] \<Longrightarrow> \<not> d (hd w) \<Longrightarrow> dropWhile d (w @ r) = w @ r"
  by (cases w) auto

lemma tokens_word:
  assumes "w \<noteq> []" and "\<forall>c \<in> set w. \<not> d c" and "d x"
  shows "tokens d (w @ x # r) = w # tokens d r"
proof -
  have "dropWhile d (w @ x # r) = w @ x # r"
    using assms by (intro dropWhile_hd) auto
  then have "strtok_r d (w @ x # r) = Some (w, r)"
    using assms by (simp add: strtok_r_def takeWhile_word dropWhile_word)
  then show ?thesis by (subst tokens.simps) simp
qed

lemma tokens_last_word:
  assumes "w \<noteq> []" and "\<forall>c \<in> set w. \<not> d c"
  shows "tokens d w = [w]"
proof -
  have "dropWhile d (w @ []) = w @ []"
    using assms by (intro dropWhile_hd) auto
  moreover have "takeWhile (\<lambda>c. \<not> d c) w = w" using assms(2) by (simp add: takeWhile_eq_all_conv)
  ultimately have "strtok_r d w = Some (w, [])"
    using assms by (simp add: strtok_r_def Let_def dropWhile_none)
  moreover have "tokens d [] = []" by (subst tokens.simps) (simp add: strtok_r_def)
  ultimately show ?thesis by (subst tokens.simps) simp
qed

lemma tokens_Nil [simp]: "tokens d [] = []"
  by (subst tokens.simps) (simp add: strtok_r_def)

lemma tokens_chars: "t \<in> set (tokens d s) \<Longrightarrow> t \<noteq> [] \<and> (\<forall>c \<in> set t. \<not> d c \<and> c \<in> set s)"
proof (induction d s rule: tokens.induct)
  case (1 d s)
  show ?case
  proof (cases "strtok_r d s")
    case None
    with "1.prems" show ?thesis by (simp add: tokens.simps [of d s])
  next
    case (Some p)
    obtain w r where p: "p = (w, r)" by force
    let ?s = "dropWhile d s"
    from Some p have ne: "?s \<noteq> []" and w: "w = takeWhile (\<lambda>c. \<not> d c) ?s"
      and r: "r = drop 1 (dropWhile (\<lambda>c. \<not> d c) ?s)"
      by (auto simp: strtok_r_def Let_def split: if_splits)
    have sub: "set ?s \<subseteq> set s" by (auto dest: set_dropWhileD)
    have rsub: "set r \<subseteq> set s" using r sub by (metis set_drop_subset set_dropWhileD subset_iff)
    have hd: "\<not> d (hd ?s)" by (rule hd_dropWhile [OF ne])
    from "1.prems" Some p have "t = w \<or> t \<in> set (tokens d r)"
      by (simp add: tokens.simps [of d s])
    then show ?thesis
    proof
      assume "t = w"
      with w ne hd sub show ?thesis
        by (cases ?s) (auto dest: set_takeWhileD)
    next
      assume "t \<in> set (tokens d r)"
      with "1.IH" Some p rsub show ?thesis by blast
    qed
  qed
qed

section \<open>Facts on numbers as text\<close>

lemma of_char_digit: "n < 10 \<Longrightarrow> (of_char (char_of (48 + n) :: char) :: nat) = 48 + n"
  by simp

lemma is_digit_show [simp]: "n < 10 \<Longrightarrow> is_digit (char_of (48 + n :: nat))"
  by (simp add: is_digit_def)

lemma digit_of_show [simp]: "n < 10 \<Longrightarrow> digit_of 10 (char_of (48 + n)) = Some n"
  by (simp add: digit_of_def Let_def)

lemma digit_of_10: "digit_of 10 c = (if is_digit c then Some (of_char c - 48) else None)"
  by (auto simp: digit_of_def is_digit_def Let_def)

lemma digit_in_10 [simp]: "digit_in 10 = is_digit"
  by (auto simp: fun_eq_iff digit_in_def digit_of_10)

lemma show_nat_digits [wp_text]: "\<forall>c \<in> set (show_nat n). is_digit c"
proof (induction n rule: show_nat.induct)
  case (1 n)
  show ?case
  proof (cases "n < 10")
    case True
    then show ?thesis by (simp add: show_nat.simps [of n])
  next
    case False
    then have "set (show_nat n) = set (show_nat (n div 10)) \<union> {char_of (48 + n mod 10)}"
      by (simp add: show_nat.simps [of n])
    with False "1.IH" show ?thesis by auto
  qed
qed

lemma show_nat_nonempty [simp]: "show_nat n \<noteq> []"
  by (subst show_nat.simps) simp

lemma digits_val_snoc:
  "digits_val b (ds @ [c]) = b * digits_val b ds + (case digit_of b c of Some d \<Rightarrow> d | None \<Rightarrow> 0)"
  by (simp add: digits_val_def)

lemma digits_val_show [simp]: "digits_val 10 (show_nat n) = n"
proof (induction n rule: show_nat.induct)
  case (1 n)
  show ?case
  proof (cases "n < 10")
    case True
    then show ?thesis
      by (simp add: show_nat.simps [of n] digits_val_def)
  next
    case False
    then have "digits_val 10 (show_nat n) = 10 * (n div 10) + n mod 10"
      using "1.IH" by (subst show_nat.simps) (simp add: digits_val_snoc)
    then show ?thesis by simp
  qed
qed

lemma length_show_nat: "n < 10 ^ k \<Longrightarrow> 0 < k \<Longrightarrow> length (show_nat n) \<le> k"
proof (induction k arbitrary: n)
  case 0
  then show ?case by simp
next
  case (Suc k)
  show ?case
  proof (cases "n < 10")
    case True
    then show ?thesis by (simp add: show_nat.simps [of n])
  next
    case False
    have k: "0 < k" using False Suc.prems(1) by (cases k) auto
    have "n div 10 < 10 ^ k" using Suc.prems(1) by (simp add: less_mult_imp_div_less)
    then have "length (show_nat (n div 10)) \<le> k" using k by (rule Suc.IH)
    with False show ?thesis by (simp add: show_nat.simps [of n])
  qed
qed

lemma length_show_u32 [wp_text]: "length (show_u32 w) \<le> 10"
  by (rule length_show_nat) (use unsigned_less [of w, where ?'a = nat] in \<open>simp_all\<close>)

lemma length_show_u64 [wp_text]: "length (show_u64 w) \<le> 20"
  by (rule length_show_nat) (use unsigned_less [of w, where ?'a = nat] in \<open>simp_all\<close>)

lemma length_show_i32 [wp_text]: "length (show_i32 w) \<le> 11"
proof -
  have lo: "- (2 ^ 31) \<le> sint w" using sint_greater_eq [of w] by simp
  have hi: "sint w < 2 ^ 31" using sint_less [of w] by simp
  show ?thesis
  proof (cases "sint w < 0")
    case True
    with lo have "nat (- sint w) < 10 ^ 10" by simp
    then have "length (show_nat (nat (- sint w))) \<le> 10" by (rule length_show_nat) simp
    with True show ?thesis by (simp add: show_int_def)
  next
    case False
    with hi have "nat (sint w) < 10 ^ 10" by simp
    then have "length (show_nat (nat (sint w))) \<le> 10" by (rule length_show_nat) simp
    with False show ?thesis by (simp add: show_int_def)
  qed
qed

lemma is_digit_not_special:
  assumes "is_digit c"
  shows "c \<noteq> SP" "c \<noteq> TAB" "c \<noteq> LF" "c \<noteq> CR" "c \<noteq> NUL" "c \<noteq> DQ" "c \<noteq> CHR ''-''" "c \<noteq> CHR ''+''"
    "c \<noteq> CHR '',''" "\<not> is_space c"
  using assms by (auto simp: is_digit_def is_space_def)

lemma show_int_chars: "c \<in> set (show_int i) \<Longrightarrow> is_digit c \<or> c = CHR ''-''"
  using show_nat_digits by (auto simp: show_int_def split: if_splits)

lemma not_is_digit [simp]:
  "\<not> is_digit SP" "\<not> is_digit TAB" "\<not> is_digit LF" "\<not> is_digit CR" "\<not> is_digit NUL" "\<not> is_digit DQ"
  "\<not> is_digit CHR ''-''" "\<not> is_digit CHR ''+''" "\<not> is_digit CHR '',''" "\<not> is_digit CHR '':''"
  "\<not> is_digit CHR ''}''"
  by (simp_all add: is_digit_def)

lemma show_nat_notin [simp]: "\<not> is_digit c \<Longrightarrow> c \<notin> set (show_nat n)"
  using show_nat_digits by blast

lemma show_int_notin [simp]: "\<not> is_digit c \<Longrightarrow> c \<noteq> CHR ''-'' \<Longrightarrow> c \<notin> set (show_int i)"
  using show_int_chars by blast

lemma last_show_nat: "\<not> is_digit c \<Longrightarrow> last (show_nat n) \<noteq> c"
  using last_in_set [OF show_nat_nonempty, of n] show_nat_digits [of n] by blast

lemma show_int_nonempty [simp]: "show_int i \<noteq> []"
  by (simp add: show_int_def)

lemma last_show_int: "\<not> is_digit c \<Longrightarrow> c \<noteq> CHR ''-'' \<Longrightarrow> last (show_int n) \<noteq> c"
  using last_in_set [OF show_int_nonempty, of n] show_int_chars [of "last (show_int n)" n] by blast

lemma strip_sign_show_nat: "strip_sign (show_nat n @ r) = (False, show_nat n @ r)"
proof -
  obtain c cs where s: "show_nat n = c # cs" by (cases "show_nat n") auto
  then have "is_digit c" using show_nat_digits [of n] by simp
  then show ?thesis by (simp add: s strip_sign_def is_digit_not_special)
qed

lemma dropWhile_space_show_nat: "dropWhile is_space (show_nat n @ r) = show_nat n @ r"
  by (rule dropWhile_hd) (use show_nat_digits [of n] in \<open>auto simp: is_digit_not_special hd_in_set\<close>)

lemma takeWhile_digits:
  "r = [] \<or> \<not> is_digit (hd r) \<Longrightarrow> takeWhile is_digit (show_nat n @ r) = show_nat n"
  using show_nat_digits [of n] by (cases r) (auto simp: takeWhile_tail)

lemma dropWhile_digits:
  "r = [] \<or> \<not> is_digit (hd r) \<Longrightarrow> dropWhile is_digit (show_nat n @ r) = r"
  using show_nat_digits [of n] by (cases r) (auto simp: dropWhile_append)

lemma strto_show_nat:
  "r = [] \<or> \<not> is_digit (hd r) \<Longrightarrow> strto 10 (show_nat n @ r) = Some (False, n, r)"
  by (simp add: strto_def dropWhile_space_show_nat strip_sign_show_nat strip_0x_def
      takeWhile_digits dropWhile_digits)

lemma strto_show_neg:
  "r = [] \<or> \<not> is_digit (hd r) \<Longrightarrow> strto 10 (CHR ''-'' # show_nat n @ r) = Some (True, n, r)"
  by (simp add: strto_def is_space_def strip_sign_def strip_0x_def
      takeWhile_digits dropWhile_digits)

lemma strtoul_show_nat:
  "n < 2 ^ 64 \<Longrightarrow> r = [] \<or> \<not> is_digit (hd r) \<Longrightarrow> strtoul 10 (show_nat n @ r) = Some (of_nat n, r)"
  by (simp add: strtoul_def strto_show_nat)

lemma atoul_show_u64 [simp]: "atoul (show_u64 w) = w"
  using strtoul_show_nat [of "unat w" "[]"] unsigned_less [of w, where ?'a = nat]
  by (simp add: atoul_def)

lemma atoul_show_u32 [simp]: "ucast (atoul (show_u32 w)) = w"
proof -
  have lt: "unat w < 2 ^ 64" using unsigned_less [of w, where ?'a = nat] by simp
  then have "atoul (show_u32 w) = of_nat (unat w)"
    using strtoul_show_nat [of "unat w" "[]"] by (simp add: atoul_def)
  then have "(ucast (atoul (show_u32 w)) :: u32) = ucast (of_nat (unat w) :: u64)" by simp
  also have "\<dots> = w" using lt by (simp add: ucast_up_ucast_id is_up)
  finally show ?thesis .
qed

lemma strtol_show_int:
  assumes "- (2 ^ 63) \<le> i" and "i < 2 ^ 63" and "r = [] \<or> \<not> is_digit (hd r)"
  shows "strtol 10 (show_int i @ r) = Some (i, r)"
  using assms by (auto simp: strtol_def show_int_def strto_show_nat strto_show_neg Let_def)

lemma atol_show_i32 [simp]: "word_of_int (atol (show_i32 w)) = w"
proof -
  have "- (2 ^ 63) \<le> sint w" using sint_greater_eq [of w] by simp
  moreover have "sint w < 2 ^ 63" using sint_less [of w] by simp
  ultimately have "atol (show_i32 w) = sint w"
    using strtol_show_int [of "sint w" "[]"] by (simp add: atol_def)
  then show ?thesis by simp
qed

section \<open>Facts on reading lines\<close>

lemma read_line_loop_line:
  "LF \<notin> set body \<Longrightarrow> length body < room \<Longrightarrow> read_line_loop room (body @ LF # rest) = body @ [LF]"
proof (induction body arbitrary: room)
  case Nil
  then show ?case by (cases room) auto
next
  case (Cons c body)
  then show ?case by (cases room) auto
qed

lemma length_read_line_loop: "length (read_line_loop room input) \<le> room"
  by (induction room input rule: read_line_loop.induct) auto

lemma read_line_loop_ne: "0 < room \<Longrightarrow> input \<noteq> [] \<Longrightarrow> read_line_loop room input \<noteq> []"
  by (cases room; cases input) auto

lemma read_line_loop_prefix: "\<exists>rest. input = read_line_loop room input @ rest"
  by (induction room input rule: read_line_loop.induct) auto

section \<open>Facts on linear searches\<close>

lemma find_index_Some:
  "find_index p xs = Some i \<Longrightarrow> i < length xs \<and> p (xs ! i) \<and> (\<forall>j < i. \<not> p (xs ! j))"
proof (induction xs arbitrary: i)
  case Nil
  then show ?case by simp
next
  case (Cons x xs)
  show ?case
  proof (cases "p x")
    case True
    with Cons.prems show ?thesis by simp
  next
    case False
    with Cons.prems obtain k where k: "find_index p xs = Some k" "i = Suc k" by auto
    from Cons.IH [OF k(1)] False k(2) show ?thesis
      by (auto simp: less_Suc_eq_0_disj)
  qed
qed

lemma find_index_None: "find_index p xs = None \<longleftrightarrow> (\<forall>x \<in> set xs. \<not> p x)"
  by (induction xs) auto

lemma find_index_exists: "x \<in> set xs \<Longrightarrow> p x \<Longrightarrow> \<exists>i. find_index p xs = Some i"
  by (metis find_index_None option.exhaust)

lemma find_index_unique:
  assumes "i < length xs" and "p (xs ! i)" and "\<And>j. j < length xs \<Longrightarrow> p (xs ! j) \<Longrightarrow> j = i"
  shows "find_index p xs = Some i"
  using assms find_index_exists [of "xs ! i" xs p] find_index_Some [of p xs] by (metis nth_mem)

section \<open>Facts on loops that may fail\<close>

text \<open>A step is safe for \<open>P\<close> if it succeeds and keeps \<open>P\<close>.\<close>

definition safe_for :: "('s \<Rightarrow> bool) \<Rightarrow> ('s \<Rightarrow> 's option) \<Rightarrow> bool" where
  "safe_for P f \<longleftrightarrow> (\<forall>s. P s \<longrightarrow> (\<exists>s'. f s = Some s' \<and> P s'))"

lemma safe_forI: "(\<And>s. P s \<Longrightarrow> \<exists>s'. f s = Some s' \<and> P s') \<Longrightarrow> safe_for P f"
  by (simp add: safe_for_def)

lemma safe_forD: "safe_for P f \<Longrightarrow> P s \<Longrightarrow> \<exists>s'. f s = Some s' \<and> P s'"
  by (simp add: safe_for_def)

lemma safe_for_Some [intro]: "safe_for P Some"
  by (simp add: safe_for_def)

lemma safe_for_if [intro]: "(b \<Longrightarrow> safe_for P f) \<Longrightarrow> (\<not> b \<Longrightarrow> safe_for P g) \<Longrightarrow> safe_for P (\<lambda>s. if b then f s else g s)"
  by (cases b) simp_all

lemma safe_for_bind [intro]:
  "safe_for P f \<Longrightarrow> safe_for P g \<Longrightarrow> safe_for P (\<lambda>s. Option.bind (f s) g)"
  by (fastforce simp: safe_for_def)

lemma safe_for_foldM [intro]:
  assumes "\<And>x. x \<in> set xs \<Longrightarrow> safe_for P (\<lambda>s. f s x)"
  shows "safe_for P (\<lambda>s. foldM f s xs)"
proof (rule safe_forI)
  fix s assume "P s"
  with assms show "\<exists>s'. foldM f s xs = Some s' \<and> P s'"
  proof (induction xs arbitrary: s)
    case Nil
    then show ?case by simp
  next
    case (Cons x xs)
    then obtain s1 where "f s x = Some s1" "P s1" using safe_forD [of P "\<lambda>s. f s x" s] by auto
    with Cons.IH [of s1] Cons.prems(1) show ?case by simp
  qed
qed

lemma foldM_append: "foldM f s (xs @ ys) = Option.bind (foldM f s xs) (\<lambda>s'. foldM f s' ys)"
  by (induction xs arbitrary: s) (auto split: option.splits)

lemma foldM_map: "foldM f s (map g xs) = foldM (\<lambda>s x. f s (g x)) s xs"
  by (induction xs arbitrary: s) (auto split: option.splits)

lemma sum_list_update_add:
  fixes g :: "'a \<Rightarrow> 'b :: comm_monoid_add"
  shows "i < length xs \<Longrightarrow> sum_list (map g (xs[i := y])) + g (xs ! i) = sum_list (map g xs) + g y"
proof (induction xs arbitrary: i)
  case (Cons a xs)
  show ?case
  proof (cases i)
    case (Suc j)
    with Cons have "sum_list (map g (xs[j := y])) + g (xs ! j) = sum_list (map g xs) + g y" by simp
    with Suc show ?thesis by (simp add: add.assoc)
  qed (simp add: ac_simps)
qed simp

lemma nth_upd: "k < length xs \<Longrightarrow> xs[j := x] ! k = (if j = k then x else xs ! k)"
  by (simp add: nth_list_update)

end
