(* ===== verification/WP_Capture_Socket.thy ===== *)
theory WP_Capture_Socket
  imports WP_Prelude
begin

text \<open>
  \<^verbatim>\<open>protocol/capture_socket.c\<close>: the datagram protocol that carries frames from the
  Vulkan layer to a portal. The receiving half is \<open>recv_msg\<close>, \<open>parse_event\<close> and
  \<open>wp_recv_capture_event\<close>; the sending half is the link (\<open>ensure_connected\<close>,
  \<open>reset_link\<close>, \<open>send_with_fds\<close>, \<open>wp_capture_link_send_buf\<close>,
  \<open>wp_capture_link_send_frame\<close>).

  A datagram is its bytes and the file descriptors of its \<open>SCM_RIGHTS\<close> control message.
  What the kernel answers (\<open>socket\<close>, \<open>connect\<close>, \<open>sendmsg\<close>) is an argument,
  \<open>link_env\<close>; the descriptors that get closed and the datagrams that get sent are
  recorded in \<open>link_world\<close>. The event's descriptor array is the list of its first
  \<open>nfds\<close> entries. The write of a NUL byte behind the received bytes is a branch of its
  own, \<open>Recv_oob\<close>, where it falls outside the 256-byte buffer.
\<close>

section \<open>Events\<close>

datatype wp_capture_event_tag =
    WP_CAPTURE_EVENT_BUF
  | WP_CAPTURE_EVENT_FRAME
  | WP_CAPTURE_EVENT_SHM

record wp_capture_event =
  ev_tag :: wp_capture_event_tag
  ev_slot :: u32
  ev_width :: u32
  ev_height :: u32
  ev_stride :: u32
  ev_modifier :: u64
  ev_has_geometry :: bool
  ev_geom_x :: i32
  ev_geom_y :: i32
  ev_fds :: "fd list"

definition zero_event :: wp_capture_event where
  "zero_event =
     \<lparr>ev_tag = WP_CAPTURE_EVENT_BUF, ev_slot = 0, ev_width = 0, ev_height = 0, ev_stride = 0,
      ev_modifier = 0, ev_has_geometry = False, ev_geom_x = 0, ev_geom_y = 0, ev_fds = []\<rparr>"

definition WP_CAPTURE_MAX_FDS :: nat where "WP_CAPTURE_MAX_FDS = 2"

record datagram =
  dg_bytes :: string
  dg_fds :: "fd list"

section \<open>Receiving\<close>

text \<open>
  The 64-byte control buffer holds a 16-byte header and 12 descriptors; the kernel installs
  no more than fit.
\<close>

definition installed_fds :: "datagram \<Rightarrow> fd list" where
  "installed_fds dg = take 12 (dg_fds dg)"

definition recv_msg :: "datagram option \<Rightarrow> nat \<Rightarrow> nat \<Rightarrow> (string \<times> fd list) option" where
  "recv_msg incoming header_buf_len max_fds =
     (case incoming of None \<Rightarrow> None
      | Some dg \<Rightarrow> Some (take header_buf_len (dg_bytes dg), take max_fds (installed_fds dg)))"

definition is_blank :: "char \<Rightarrow> bool" where
  "is_blank c \<longleftrightarrow> c = SP \<or> c = TAB"

definition to_u32 :: "string \<Rightarrow> u32" where
  "to_u32 s = ucast (atoul s)"

definition to_i32 :: "string \<Rightarrow> i32" where
  "to_i32 s = word_of_int (atol s)"

definition parse_event :: "string \<Rightarrow> fd list \<Rightarrow> wp_capture_event option" where
  "parse_event header fds =
     (case tokens is_blank (fst (snprintf 256 header)) of
        [] \<Rightarrow> None
      | tok # args \<Rightarrow>
         if tok = ''BUF'' then
           (if length args < 6 \<or> length fds < 1 then None
            else Some (zero_event\<lparr>
                   ev_tag := WP_CAPTURE_EVENT_BUF,
                   ev_slot := to_u32 (args ! 0),
                   ev_width := to_u32 (args ! 1),
                   ev_height := to_u32 (args ! 2),
                   ev_stride := to_u32 (args ! 4),
                   ev_modifier := atoul (args ! 5),
                   ev_has_geometry := 8 \<le> length args,
                   ev_geom_x := (if 8 \<le> length args then to_i32 (args ! 6) else 0),
                   ev_geom_y := (if 8 \<le> length args then to_i32 (args ! 7) else 0),
                   ev_fds := take 2 fds\<rparr>))
         else if tok = ''FRAME'' then
           (if length args < 1 then None
            else Some (zero_event\<lparr>
                   ev_tag := WP_CAPTURE_EVENT_FRAME,
                   ev_slot := to_u32 (args ! 0),
                   ev_fds := take 1 fds\<rparr>))
         else if tok = ''SHM'' then
           (if length args < 3 \<or> length fds < 1 then None
            else Some (zero_event\<lparr>
                   ev_tag := WP_CAPTURE_EVENT_SHM,
                   ev_width := to_u32 (args ! 0),
                   ev_height := to_u32 (args ! 1),
                   ev_stride := to_u32 (args ! 2),
                   ev_fds := take 1 fds\<rparr>))
         else None)"

datatype recv_result =
    Recv_none
  | Recv_oob
  | Recv_malformed "fd list"
  | Recv_event wp_capture_event

definition is_trailer :: "char \<Rightarrow> bool" where
  "is_trailer c \<longleftrightarrow> c = LF \<or> c = CR \<or> c = SP"

definition wp_recv_capture_event :: "datagram option \<Rightarrow> recv_result" where
  "wp_recv_capture_event incoming =
     (case recv_msg incoming 256 WP_CAPTURE_MAX_FDS of
        None \<Rightarrow> Recv_none
      | Some (buf, fds) \<Rightarrow>
         let header = rtrim is_trailer buf
         in if 256 \<le> length header then Recv_oob
            else (case parse_event (cstr header) fds of
                    None \<Rightarrow> Recv_malformed fds
                  | Some ev \<Rightarrow> Recv_event ev))"

section \<open>Sending\<close>

record wp_capture_link =
  lk_sock :: fd

record link_env =
  le_socket :: fd
  le_connect :: bool
  le_sendmsg :: bool

record link_world =
  lw_closed :: "fd list"
  lw_sent :: "datagram list"

definition close_fd :: "fd \<Rightarrow> link_world \<Rightarrow> link_world" where
  "close_fd d w = w\<lparr>lw_closed := lw_closed w @ [d]\<rparr>"

definition wp_capture_link_create :: wp_capture_link where
  "wp_capture_link_create = \<lparr>lk_sock = -1\<rparr>"

definition wp_capture_link_destroy :: "wp_capture_link \<Rightarrow> link_world \<Rightarrow> link_world" where
  "wp_capture_link_destroy link w = (if 0 \<le> lk_sock link then close_fd (lk_sock link) w else w)"

definition ensure_connected ::
  "link_env \<Rightarrow> wp_capture_link \<Rightarrow> link_world \<Rightarrow> bool \<times> wp_capture_link \<times> link_world" where
  "ensure_connected env link w =
     (if 0 \<le> lk_sock link then (True, link, w)
      else if le_socket env < 0 then (False, link, w)
      else if \<not> le_connect env then (False, link, close_fd (le_socket env) w)
      else (True, link\<lparr>lk_sock := le_socket env\<rparr>, w))"

definition reset_link :: "wp_capture_link \<Rightarrow> link_world \<Rightarrow> wp_capture_link \<times> link_world" where
  "reset_link link w =
     (if 0 \<le> lk_sock link then (link\<lparr>lk_sock := -1\<rparr>, close_fd (lk_sock link) w) else (link, w))"

definition send_with_fds ::
  "link_env \<Rightarrow> wp_capture_link \<Rightarrow> string \<Rightarrow> fd list \<Rightarrow> link_world \<Rightarrow> bool \<times> wp_capture_link \<times> link_world"
where
  "send_with_fds env link header fds w =
     (case ensure_connected env link w of (connected, link1, w1) \<Rightarrow>
        if \<not> connected then (False, link1, w1)
        else if le_sendmsg env
             then (True, link1, w1\<lparr>lw_sent := lw_sent w1 @ [\<lparr>dg_bytes = header, dg_fds = fds\<rparr>]\<rparr>)
             else (case reset_link link1 w1 of (link2, w2) \<Rightarrow> (False, link2, w2)))"

definition opt_fd :: "fd \<Rightarrow> fd list" where
  "opt_fd d = (if 0 \<le> d then [d] else [])"

definition close_opt :: "fd \<Rightarrow> link_world \<Rightarrow> link_world" where
  "close_opt d w = (if 0 \<le> d then close_fd d w else w)"

definition buf_header ::
  "u32 \<Rightarrow> u32 \<Rightarrow> u32 \<Rightarrow> u32 \<Rightarrow> u32 \<Rightarrow> u64 \<Rightarrow> bool \<Rightarrow> i32 \<Rightarrow> i32 \<Rightarrow> string" where
  "buf_header slot width height format_raw stride modifier has_geometry geom_x geom_y =
     ''BUF '' @ show_u32 slot @ SP # show_u32 width @ SP # show_u32 height @ SP #
     show_u32 format_raw @ SP # show_u32 stride @ SP # show_u64 modifier @
     (if has_geometry then SP # show_i32 geom_x @ SP # show_i32 geom_y @ [LF] else [LF])"

definition wp_capture_link_send_buf ::
  "link_env \<Rightarrow> wp_capture_link \<Rightarrow> u32 \<Rightarrow> u32 \<Rightarrow> u32 \<Rightarrow> u32 \<Rightarrow> u32 \<Rightarrow> u64 \<Rightarrow> bool \<Rightarrow> i32 \<Rightarrow> i32 \<Rightarrow>
   fd \<Rightarrow> fd \<Rightarrow> link_world \<Rightarrow> bool \<times> wp_capture_link \<times> link_world" where
  "wp_capture_link_send_buf env link slot width height format_raw stride modifier has_geometry
     geom_x geom_y image_fd sync_fd w =
     (let header = fst (snprintf 160 (buf_header slot width height format_raw stride modifier
                                        has_geometry geom_x geom_y));
          fds = opt_fd image_fd @ opt_fd sync_fd
      in case send_with_fds env link header fds w of (ok, link1, w1) \<Rightarrow>
           (ok, link1, close_opt sync_fd (close_opt image_fd w1)))"

definition frame_header :: "u32 \<Rightarrow> string" where
  "frame_header slot = ''FRAME '' @ show_u32 slot @ [LF]"

definition wp_capture_link_send_frame ::
  "link_env \<Rightarrow> wp_capture_link \<Rightarrow> u32 \<Rightarrow> fd \<Rightarrow> link_world \<Rightarrow> bool \<times> wp_capture_link \<times> link_world" where
  "wp_capture_link_send_frame env link slot sync_fd w =
     (let header = fst (snprintf 64 (frame_header slot))
      in case send_with_fds env link header (opt_fd sync_fd) w of (ok, link1, w1) \<Rightarrow>
           (ok, link1, close_opt sync_fd w1))"

section \<open>Facts on the headers\<close>

lemma snprintf_id: "length s < sz \<Longrightarrow> fst (snprintf sz s) = s"
  by (simp add: snprintf_def)

lemma length_buf_header: "length (buf_header a b c d e m g x y) \<le> 104"
proof -
  have "length (show_u32 a) + length (show_u32 b) + length (show_u32 c) + length (show_u32 d)
      + length (show_u32 e) + length (show_u64 m) \<le> 70"
    using length_show_u32 [of a] length_show_u32 [of b] length_show_u32 [of c]
      length_show_u32 [of d] length_show_u32 [of e] length_show_u64 [of m] by linarith
  moreover have "length (show_i32 x) + length (show_i32 y) \<le> 22"
    using length_show_i32 [of x] length_show_i32 [of y] by linarith
  ultimately show ?thesis by (simp add: buf_header_def)
qed

lemma length_frame_header: "length (frame_header s) \<le> 17"
  using length_show_u32 [of s] by (simp add: frame_header_def)

lemma show_nat_not_blank: "\<forall>c \<in> set (show_nat n). \<not> is_blank c"
  by (metis is_blank_def not_is_digit(1,2) show_nat_digits)

lemma show_int_not_blank: "\<forall>c \<in> set (show_int i). \<not> is_blank c"
  using show_int_notin [of SP i] show_int_notin [of TAB i] by (auto simp: is_blank_def)

lemma show_nat_no_trailer: "\<not> is_trailer (last (show_nat n))"
  by (simp add: is_trailer_def last_show_nat)

lemma show_int_no_trailer: "\<not> is_trailer (last (show_int i))"
  by (simp add: is_trailer_def last_show_int)

lemma is_blank_SP [simp]: "is_blank SP"
  by (simp add: is_blank_def)

lemma tokens_nat: "tokens is_blank (show_nat n @ SP # r) = show_nat n # tokens is_blank r"
  by (rule tokens_word) (simp_all add: show_nat_not_blank)

lemma tokens_int: "tokens is_blank (show_int i @ SP # r) = show_int i # tokens is_blank r"
  by (rule tokens_word) (simp_all add: show_int_not_blank)

lemma tokens_nat_last: "tokens is_blank (show_nat n) = [show_nat n]"
  by (rule tokens_last_word) (simp_all add: show_nat_not_blank)

lemma tokens_int_last: "tokens is_blank (show_int i) = [show_int i]"
  by (rule tokens_last_word) (simp_all add: show_int_not_blank)

lemma tokens_BUF: "tokens is_blank (''BUF'' @ SP # r) = ''BUF'' # tokens is_blank r"
  by (rule tokens_word) (auto simp: is_blank_def)

lemma tokens_FRAME: "tokens is_blank (''FRAME'' @ SP # r) = ''FRAME'' # tokens is_blank r"
  by (rule tokens_word) (auto simp: is_blank_def)

lemmas tokens_simps = tokens_BUF [simplified] tokens_FRAME [simplified] tokens_nat tokens_int tokens_nat_last tokens_int_last

definition buf_text :: "u32 \<Rightarrow> u32 \<Rightarrow> u32 \<Rightarrow> u32 \<Rightarrow> u32 \<Rightarrow> u64 \<Rightarrow> bool \<Rightarrow> i32 \<Rightarrow> i32 \<Rightarrow> string" where
  "buf_text a b c d e m g x y =
     ''BUF'' @ SP # show_u32 a @ SP # show_u32 b @ SP # show_u32 c @ SP # show_u32 d @ SP #
     show_u32 e @ SP # (if g then show_u64 m @ SP # show_i32 x @ SP # show_i32 y else show_u64 m)"

lemma buf_header_text: "buf_header a b c d e m g x y = buf_text a b c d e m g x y @ [LF]"
  by (simp add: buf_header_def buf_text_def)

lemma buf_text_plain:
  "rtrim is_trailer (buf_text a b c d e m g x y) = buf_text a b c d e m g x y"
  "NUL \<notin> set (buf_text a b c d e m g x y)"
  "length (buf_text a b c d e m g x y) < 104"
proof -
  show "rtrim is_trailer (buf_text a b c d e m g x y) = buf_text a b c d e m g x y"
    by (rule rtrim_id) (simp add: buf_text_def show_nat_no_trailer show_int_no_trailer)
  show "NUL \<notin> set (buf_text a b c d e m g x y)"
    by (simp add: buf_text_def show_nat_no_trailer show_int_no_trailer)
  show "length (buf_text a b c d e m g x y) < 104"
    using length_buf_header [of a b c d e m g x y] by (simp add: buf_header_text)
qed

lemma tokens_buf_text:
  "tokens is_blank (buf_text a b c d e m g x y) =
     [''BUF'', show_u32 a, show_u32 b, show_u32 c, show_u32 d, show_u32 e, show_u64 m] @
     (if g then [show_i32 x, show_i32 y] else [])"
  by (simp add: buf_text_def tokens_simps)

lemma parse_buf_text:
  assumes "fds \<noteq> []"
  shows "parse_event (buf_text a b c d e m g x y) fds =
     Some \<lparr>ev_tag = WP_CAPTURE_EVENT_BUF, ev_slot = a, ev_width = b, ev_height = c, ev_stride = e,
           ev_modifier = m, ev_has_geometry = g, ev_geom_x = (if g then x else 0),
           ev_geom_y = (if g then y else 0), ev_fds = take 2 fds\<rparr>"
proof -
  have "length (buf_text a b c d e m g x y) < 256" using buf_text_plain(3) [of a b c d e m g x y] by simp
  then have "fst (snprintf 256 (buf_text a b c d e m g x y)) = buf_text a b c d e m g x y"
    by (rule snprintf_id)
  with assms show ?thesis
    by (simp add: parse_event_def tokens_buf_text zero_event_def to_u32_def to_i32_def
        Suc_le_eq numeral_eq_Suc)
qed

lemma parse_frame_text:
  "parse_event (''FRAME'' @ SP # show_u32 a) fds =
     Some (zero_event\<lparr>ev_tag := WP_CAPTURE_EVENT_FRAME, ev_slot := a, ev_fds := take 1 fds\<rparr>)"
proof -
  have "fst (snprintf 256 (''FRAME'' @ SP # show_u32 a)) = ''FRAME'' @ SP # show_u32 a"
    by (rule snprintf_id) (use length_show_u32 [of a] in simp)
  then show ?thesis by (simp add: parse_event_def tokens_simps to_u32_def)
qed

section \<open>Facts on the receiver\<close>

lemma recv_text:
  assumes "dg_bytes dg = t @ [LF]" and "rtrim is_trailer t = t" and "NUL \<notin> set t" and "length t < 200"
  shows "wp_recv_capture_event (Some dg) =
    (case parse_event t (take 2 (dg_fds dg)) of
       None \<Rightarrow> Recv_malformed (take 2 (dg_fds dg)) | Some ev \<Rightarrow> Recv_event ev)"
proof -
  have "rtrim is_trailer (dg_bytes dg) = t"
    using assms(1,2) by (simp add: is_trailer_def)
  with assms show ?thesis
    by (simp add: wp_recv_capture_event_def recv_msg_def installed_fds_def WP_CAPTURE_MAX_FDS_def
        cstr_id min_def)
qed

lemma recv_buf:
  "fds \<noteq> [] \<Longrightarrow> length fds \<le> 2 \<Longrightarrow>
   wp_recv_capture_event (Some \<lparr>dg_bytes = buf_header a b c d e m g x y, dg_fds = fds\<rparr>) =
     Recv_event \<lparr>ev_tag = WP_CAPTURE_EVENT_BUF, ev_slot = a, ev_width = b, ev_height = c, ev_stride = e,
           ev_modifier = m, ev_has_geometry = g, ev_geom_x = (if g then x else 0),
           ev_geom_y = (if g then y else 0), ev_fds = fds\<rparr>"
  using buf_text_plain [of a b c d e m g x y]
  by (subst recv_text [of _ "buf_text a b c d e m g x y"]) (simp_all add: buf_header_text parse_buf_text)

lemma recv_frame:
  "length fds \<le> 1 \<Longrightarrow>
   wp_recv_capture_event (Some \<lparr>dg_bytes = frame_header a, dg_fds = fds\<rparr>) =
     Recv_event (zero_event\<lparr>ev_tag := WP_CAPTURE_EVENT_FRAME, ev_slot := a, ev_fds := fds\<rparr>)"
proof -
  assume l: "length fds \<le> 1"
  have h: "frame_header a = (''FRAME'' @ SP # show_u32 a) @ [LF]" by (simp add: frame_header_def)
  have "rtrim is_trailer (''FRAME'' @ SP # show_u32 a) = ''FRAME'' @ SP # show_u32 a"
    by (rule rtrim_id) (simp add: show_nat_no_trailer)
  moreover have "NUL \<notin> set (''FRAME'' @ SP # show_u32 a)" by simp
  moreover have "length (''FRAME'' @ SP # show_u32 a) < 200" using length_show_u32 [of a] by simp
  ultimately show ?thesis
    using l by (subst recv_text [OF _, of _ "''FRAME'' @ SP # show_u32 a"])
      (simp_all add: h parse_frame_text [simplified])
qed

section \<open>Facts on the link\<close>

lemmas link_defs = send_with_fds_def ensure_connected_def reset_link_def close_fd_def close_opt_def
  opt_fd_def

lemma send_with_fds_ok:
  "send_with_fds env link header fds w = (True, link', w') \<Longrightarrow>
     0 \<le> lk_sock link' \<and> lw_closed w' = lw_closed w \<and>
     lw_sent w' = lw_sent w @ [\<lparr>dg_bytes = header, dg_fds = fds\<rparr>]"
  by (auto simp: link_defs split: if_splits)

lemma send_with_fds_fail:
  "send_with_fds env link header fds w = (False, link', w') \<Longrightarrow>
     lk_sock link' < 0 \<and> lw_sent w' = lw_sent w \<and>
     lw_closed w' = lw_closed w @ opt_fd (if 0 \<le> lk_sock link then lk_sock link else le_socket env)"
  by (auto simp: link_defs split: if_splits)

lemma lw_close_opt [simp]:
  "lw_closed (close_opt d w) = lw_closed w @ opt_fd d" "lw_sent (close_opt d w) = lw_sent w"
  by (simp_all add: close_opt_def close_fd_def opt_fd_def)

section \<open>Properties\<close>

text \<open>
  A buffer that the Vulkan layer sends arrives as sent: for every slot, size, stride,
  modifier and position, the datagram of a successful \<open>wp_capture_link_send_buf\<close> is received
  as a BUF event with the same fields and with the image descriptor first, followed by the sync
  descriptor where there is one. The header is never truncated.
\<close>

theorem send_buf_received:
  assumes "wp_capture_link_send_buf env link slot width height fmt stride modifier g x y image_fd sync_fd w
             = (True, link', w')"
    and "0 \<le> image_fd"
  shows "\<exists>dg. lw_sent w' = lw_sent w @ [dg] \<and>
           wp_recv_capture_event (Some dg) =
             Recv_event \<lparr>ev_tag = WP_CAPTURE_EVENT_BUF, ev_slot = slot, ev_width = width,
               ev_height = height, ev_stride = stride, ev_modifier = modifier, ev_has_geometry = g,
               ev_geom_x = (if g then x else 0), ev_geom_y = (if g then y else 0),
               ev_fds = image_fd # opt_fd sync_fd\<rparr>"
proof -
  let ?h = "buf_header slot width height fmt stride modifier g x y"
  have "fst (snprintf 160 ?h) = ?h"
    using length_buf_header [of slot width height fmt stride modifier g x y] by (intro snprintf_id) simp
  with assms have "lw_sent w' = lw_sent w @ [\<lparr>dg_bytes = ?h, dg_fds = image_fd # opt_fd sync_fd\<rparr>]"
    by (auto simp: wp_capture_link_send_buf_def Let_def opt_fd_def [of image_fd]
        dest!: send_with_fds_ok split: prod.splits)
  moreover have "image_fd # opt_fd sync_fd \<noteq> []" "length (image_fd # opt_fd sync_fd) \<le> 2"
    by (simp_all add: opt_fd_def)
  ultimately show ?thesis by (simp add: recv_buf)
qed

theorem send_buf_received_witness:
  "\<exists>dg. wp_recv_capture_event (Some dg) =
     Recv_event \<lparr>ev_tag = WP_CAPTURE_EVENT_BUF, ev_slot = 4, ev_width = 1920, ev_height = 1080,
       ev_stride = 7680, ev_modifier = 0, ev_has_geometry = True, ev_geom_x = -1920, ev_geom_y = 0,
       ev_fds = [7, 8]\<rparr>"
  using send_buf_received [of "\<lparr>le_socket = 5, le_connect = True, le_sendmsg = True\<rparr>"
      wp_capture_link_create 4 1920 1080 44 7680 0 True "-1920" 0 7 8 "\<lparr>lw_closed = [], lw_sent = []\<rparr>"]
  by (auto simp: wp_capture_link_send_buf_def link_defs wp_capture_link_create_def Let_def opt_fd_def)

text \<open>
  A frame notification arrives as sent: the datagram of a successful
  \<open>wp_capture_link_send_frame\<close> is received as a FRAME event for the same slot with the sync
  descriptor, if there is one.
\<close>

theorem send_frame_received:
  assumes "wp_capture_link_send_frame env link slot sync_fd w = (True, link', w')"
  shows "\<exists>dg. lw_sent w' = lw_sent w @ [dg] \<and>
           wp_recv_capture_event (Some dg) =
             Recv_event (zero_event\<lparr>ev_tag := WP_CAPTURE_EVENT_FRAME, ev_slot := slot,
                                    ev_fds := opt_fd sync_fd\<rparr>)"
proof -
  have "fst (snprintf 64 (frame_header slot)) = frame_header slot"
    using length_frame_header [of slot] by (intro snprintf_id) simp
  with assms have "lw_sent w' = lw_sent w @ [\<lparr>dg_bytes = frame_header slot, dg_fds = opt_fd sync_fd\<rparr>]"
    by (auto simp: wp_capture_link_send_frame_def Let_def dest!: send_with_fds_ok split: prod.splits)
  moreover have "length (opt_fd sync_fd) \<le> 1" by (simp add: opt_fd_def)
  ultimately show ?thesis by (simp add: recv_frame)
qed

theorem send_frame_received_witness:
  "\<exists>dg. wp_recv_capture_event (Some dg) =
     Recv_event (zero_event\<lparr>ev_tag := WP_CAPTURE_EVENT_FRAME, ev_slot := 11, ev_fds := []\<rparr>)"
  using send_frame_received [of "\<lparr>le_socket = 5, le_connect = True, le_sendmsg = True\<rparr>"
      wp_capture_link_create 11 "-1" "\<lparr>lw_closed = [], lw_sent = []\<rparr>"]
  by (auto simp: wp_capture_link_send_frame_def link_defs wp_capture_link_create_def Let_def opt_fd_def)

text \<open>
  Sending a buffer consumes its descriptors whatever happens: each of the image and the
  sync descriptor that is valid is closed exactly once, on success and on every failure; a
  failed send also closes the socket and leaves the link disconnected, so that the next send
  reconnects, and a successful one leaves it connected.
\<close>

theorem send_buf_consumes_fds:
  assumes "wp_capture_link_send_buf env link slot width height fmt stride modifier g x y image_fd sync_fd w
             = (ok, link', w')"
  shows "lw_closed w' = lw_closed w @
           (if ok then [] else opt_fd (if 0 \<le> lk_sock link then lk_sock link else le_socket env)) @
           opt_fd image_fd @ opt_fd sync_fd
         \<and> (ok \<longleftrightarrow> 0 \<le> lk_sock link')"
proof (cases ok)
  case True
  with assms show ?thesis
    by (auto simp: wp_capture_link_send_buf_def Let_def dest!: send_with_fds_ok split: prod.splits)
next
  case False
  with assms show ?thesis
    by (auto simp: wp_capture_link_send_buf_def Let_def dest!: send_with_fds_fail split: prod.splits)
qed

theorem send_buf_consumes_fds_witness:
  "\<exists>link' w'. wp_capture_link_send_buf \<lparr>le_socket = 5, le_connect = True, le_sendmsg = False\<rparr>
      wp_capture_link_create 4 1920 1080 44 7680 0 False 0 0 7 8 \<lparr>lw_closed = [], lw_sent = []\<rparr>
      = (False, link', w') \<and> lw_closed w' = [5, 7, 8]"
  using send_buf_consumes_fds [of "\<lparr>le_socket = 5, le_connect = True, le_sendmsg = False\<rparr>"
      wp_capture_link_create 4 1920 1080 44 7680 0 False 0 0 7 8 "\<lparr>lw_closed = [], lw_sent = []\<rparr>" False]
  by (auto simp: wp_capture_link_send_buf_def link_defs wp_capture_link_create_def Let_def opt_fd_def)

text \<open>
  The receiver writes its terminating NUL outside the 256-byte header buffer exactly for
  datagrams of at least 256 bytes whose 256th byte is not one of the trimmed trailers; every
  shorter datagram, and so every message of the sending half, is safe.
\<close>

theorem recv_out_of_bounds:
  "wp_recv_capture_event (Some dg) = Recv_oob \<longleftrightarrow>
     256 \<le> length (dg_bytes dg) \<and> \<not> is_trailer (dg_bytes dg ! 255)"
proof -
  let ?b = "take 256 (dg_bytes dg)"
  have "wp_recv_capture_event (Some dg) = Recv_oob \<longleftrightarrow> 256 \<le> length (rtrim is_trailer ?b)"
    by (simp add: wp_recv_capture_event_def recv_msg_def Let_def split: option.splits)
  also have "\<dots> \<longleftrightarrow> 256 \<le> length (dg_bytes dg) \<and> \<not> is_trailer (dg_bytes dg ! 255)"
  proof (cases "256 \<le> length (dg_bytes dg)")
    case False
    then show ?thesis using length_rtrim_le [of is_trailer ?b] by simp
  next
    case True
    then have split: "?b = take 255 (dg_bytes dg) @ [dg_bytes dg ! 255]"
      using take_Suc_conv_app_nth [of 255 "dg_bytes dg"] by simp
    show ?thesis
    proof (cases "is_trailer (dg_bytes dg ! 255)")
      case True
      then have "rtrim is_trailer ?b = rtrim is_trailer (take 255 (dg_bytes dg))" by (simp add: split)
      then show ?thesis
        using True length_rtrim_le [of is_trailer "take 255 (dg_bytes dg)"] by simp
    next
      case False
      then have "rtrim is_trailer ?b = ?b" by (intro rtrim_id) (simp add: split)
      then show ?thesis using False \<open>256 \<le> length (dg_bytes dg)\<close> by simp
    qed
  qed
  finally show ?thesis .
qed

text \<open>
  Which descriptors the receiver loses: an accepted event carries every descriptor the
  kernel installed only if there were at most two of them for BUF and at most one for FRAME and
  SHM; the others stay open with no owner (a second descriptor on FRAME, for instance).
\<close>

theorem recv_event_fds:
  assumes "wp_recv_capture_event (Some dg) = Recv_event ev"
  shows "ev_fds ev = take (if ev_tag ev = WP_CAPTURE_EVENT_BUF then 2 else 1) (installed_fds dg)"
  using assms
  by (auto simp: wp_recv_capture_event_def recv_msg_def parse_event_def WP_CAPTURE_MAX_FDS_def
      Let_def split: option.splits list.splits if_splits)

theorem recv_event_fds_witness:
  "wp_recv_capture_event (Some \<lparr>dg_bytes = ''FRAME'' @ SP # show_u32 2 @ [LF], dg_fds = [7]\<rparr>) =
     Recv_event (zero_event\<lparr>ev_tag := WP_CAPTURE_EVENT_FRAME, ev_slot := 2, ev_fds := [7]\<rparr>)
   \<and> [7] = take 1 (installed_fds \<lparr>dg_bytes = ''FRAME'' @ SP # show_u32 2 @ [LF], dg_fds = [7]\<rparr>)"
  using recv_event_fds [of "\<lparr>dg_bytes = ''FRAME'' @ SP # show_u32 2 @ [LF], dg_fds = [7]\<rparr>"
      "zero_event\<lparr>ev_tag := WP_CAPTURE_EVENT_FRAME, ev_slot := 2, ev_fds := [7]\<rparr>"]
    recv_frame [of "[7]" 2]
  by (simp add: frame_header_def)

section \<open>Descriptors of an event\<close>

text \<open>An event as the receiver makes it: a BUF or SHM message has a descriptor.\<close>

definition event_ok :: "wp_capture_event \<Rightarrow> bool" where
  "event_ok ev \<longleftrightarrow> (ev_tag ev = WP_CAPTURE_EVENT_FRAME \<and> length (ev_fds ev) \<le> 1) \<or>
     (ev_tag ev = WP_CAPTURE_EVENT_BUF \<and> 1 \<le> length (ev_fds ev) \<and> length (ev_fds ev) \<le> 2) \<or>
     (ev_tag ev = WP_CAPTURE_EVENT_SHM \<and> length (ev_fds ev) = 1)"

lemma received_event_ok: "wp_recv_capture_event dg = Recv_event ev \<Longrightarrow> event_ok ev"
proof -
  have parse: "parse_event header fds = Some ev \<Longrightarrow> event_ok ev" for header fds
    by (cases fds) (auto simp: parse_event_def event_ok_def zero_event_def Let_def split: list.splits if_splits)
  assume "wp_recv_capture_event dg = Recv_event ev"
  then show ?thesis
    by (auto simp: wp_recv_capture_event_def Let_def intro: parse split: option.splits if_splits prod.splits)
qed

end
