(* ===== verification/WP_Debug_Overlay.thy ===== *)
theory WP_Debug_Overlay
  imports Complex_Main WP_Prelude "HOL-Library.Monad_Syntax"
begin

text \<open>
  \<^verbatim>\<open>protocol/debug_overlay.c\<close>: the frame statistics (a ring of time stamps), the redraw
  throttle and the software rendering of the statistics panel.

  Time stamps, and the values computed from them, are reals where the code has doubles: rounding is
  not modelled. What \<open>now_seconds\<close> returns is an argument of the operations that call it. A
  write to the pixel buffer outside its bounds is \<^term>\<open>None\<close>, so that a rendering that returns
  \<^term>\<open>Some\<close> has only written inside. \<open>ring_list\<close> reads a ring as the queue it stands for.
\<close>

section \<open>Frame statistics\<close>

definition WP_FRAME_STATS_CAPACITY :: nat where "WP_FRAME_STATS_CAPACITY = 4096"
definition WP_SPARKLINE_SAMPLES :: nat where "WP_SPARKLINE_SAMPLES = 40"
definition WP_STATS_WINDOW_SECONDS :: real where "WP_STATS_WINDOW_SECONDS = 3"

record frame_stat_ring =
  ring_times :: "real list"
  ring_head :: nat
  ring_count :: nat

record wp_frame_stats =
  fs_display :: frame_stat_ring
  fs_capture :: frame_stat_ring

definition zero_ring :: frame_stat_ring where
  "zero_ring = \<lparr>ring_times = replicate WP_FRAME_STATS_CAPACITY 0, ring_head = 0, ring_count = 0\<rparr>"

definition wp_frame_stats_create :: wp_frame_stats where
  "wp_frame_stats_create = \<lparr>fs_display = zero_ring, fs_capture = zero_ring\<rparr>"

definition ring_drop :: "frame_stat_ring \<Rightarrow> frame_stat_ring" where
  "ring_drop r = r\<lparr>ring_head := (ring_head r + 1) mod WP_FRAME_STATS_CAPACITY,
                   ring_count := ring_count r - 1\<rparr>"

function ring_expire :: "real \<Rightarrow> frame_stat_ring \<Rightarrow> frame_stat_ring" where
  "ring_expire now r =
     (if 0 < ring_count r \<and> now - ring_times r ! ring_head r > WP_STATS_WINDOW_SECONDS
      then ring_expire now (ring_drop r) else r)"
  by pat_completeness auto
termination
  by (relation "measure (\<lambda>(now, r). ring_count r)") (auto simp: ring_drop_def)

declare ring_expire.simps [simp del]

definition ring_push :: "real \<Rightarrow> frame_stat_ring \<Rightarrow> frame_stat_ring" where
  "ring_push now r =
     (let idx = (ring_head r + ring_count r) mod WP_FRAME_STATS_CAPACITY
      in r\<lparr>ring_times := (ring_times r)[idx := now], ring_count := ring_count r + 1\<rparr>)"

definition ring_record :: "real \<Rightarrow> frame_stat_ring \<Rightarrow> frame_stat_ring" where
  "ring_record now r =
     (let r1 = (if ring_count r = WP_FRAME_STATS_CAPACITY then ring_drop r else r)
      in ring_expire now (ring_push now r1))"

definition ring_at :: "frame_stat_ring \<Rightarrow> nat \<Rightarrow> real" where
  "ring_at r i = ring_times r ! ((ring_head r + i) mod WP_FRAME_STATS_CAPACITY)"

definition ring_fps_in_last_second :: "real \<Rightarrow> frame_stat_ring \<Rightarrow> nat" where
  "ring_fps_in_last_second now r =
     foldl (\<lambda>n i. if now - ring_at r i \<le> 1 then n + 1 else n) 0 [0..<ring_count r]"

definition wp_frame_stats_record_display :: "real \<Rightarrow> wp_frame_stats \<Rightarrow> wp_frame_stats" where
  "wp_frame_stats_record_display now s = s\<lparr>fs_display := ring_record now (fs_display s)\<rparr>"

definition wp_frame_stats_record_capture :: "real \<Rightarrow> wp_frame_stats \<Rightarrow> wp_frame_stats" where
  "wp_frame_stats_record_capture now s = s\<lparr>fs_capture := ring_record now (fs_capture s)\<rparr>"

section \<open>The redraw throttle\<close>

definition WP_DEBUG_OVERLAY_REDRAW_INTERVAL_MS :: real where
  "WP_DEBUG_OVERLAY_REDRAW_INTERVAL_MS = 250"

record wp_debug_throttle =
  th_has_last_draw :: bool
  th_last_draw_seconds :: real

definition wp_debug_throttle_init :: wp_debug_throttle where
  "wp_debug_throttle_init = \<lparr>th_has_last_draw = False, th_last_draw_seconds = 0\<rparr>"

definition wp_debug_throttle_reset :: "wp_debug_throttle \<Rightarrow> wp_debug_throttle" where
  "wp_debug_throttle_reset th = th\<lparr>th_has_last_draw := False\<rparr>"

definition wp_debug_throttle_should_redraw :: "real \<Rightarrow> wp_debug_throttle \<Rightarrow> bool \<times> wp_debug_throttle" where
  "wp_debug_throttle_should_redraw now th =
     (if th_has_last_draw th \<and>
         (now - th_last_draw_seconds th) * 1000 < WP_DEBUG_OVERLAY_REDRAW_INTERVAL_MS
      then (False, th)
      else (True, th\<lparr>th_has_last_draw := True, th_last_draw_seconds := now\<rparr>))"

section \<open>Rendering\<close>

definition WP_DEBUG_OVERLAY_WIDTH :: int where "WP_DEBUG_OVERLAY_WIDTH = 210"
definition WP_DEBUG_OVERLAY_HEIGHT :: int where "WP_DEBUG_OVERLAY_HEIGHT = 120"
definition WP_DEBUG_OVERLAY_STRIDE :: int where
  "WP_DEBUG_OVERLAY_STRIDE = WP_DEBUG_OVERLAY_WIDTH * 4"
definition WP_DEBUG_OVERLAY_BUFFER_SIZE :: nat where
  "WP_DEBUG_OVERLAY_BUFFER_SIZE = nat (WP_DEBUG_OVERLAY_STRIDE * WP_DEBUG_OVERLAY_HEIGHT)"

type_synonym color = "u8 \<times> u8 \<times> u8 \<times> u8"

definition COLOR_BG :: color where "COLOR_BG = (20, 20, 24, 200)"
definition COLOR_PRIMARY :: color where "COLOR_PRIMARY = (255, 255, 255, 255)"
definition COLOR_SECONDARY :: color where "COLOR_SECONDARY = (150, 150, 150, 255)"
definition COLOR_BAR_OK :: color where "COLOR_BAR_OK = (130, 190, 255, 255)"
definition COLOR_BAR_WARN :: color where "COLOR_BAR_WARN = (255, 90, 70, 255)"

text \<open>The four arguments \<open>stride\<close>, \<open>buf_w\<close>, \<open>buf_h\<close> that every routine passes on.\<close>

record canvas =
  cv_stride :: int
  cv_w :: int
  cv_h :: int

definition put_pixel :: "canvas \<Rightarrow> int \<Rightarrow> int \<Rightarrow> color \<Rightarrow> u8 list \<Rightarrow> u8 list option" where
  "put_pixel cv x y color pixels =
     (if x < 0 \<or> y < 0 \<or> cv_w cv \<le> x \<or> cv_h cv \<le> y then Some pixels
      else let offset = nat y * nat (cv_stride cv) + nat x * 4
           in if length pixels \<le> offset + 3 then None
              else case color of (c0, c1, c2, c3) \<Rightarrow>
                Some (pixels[offset := c2, offset + 1 := c1, offset + 2 := c0, offset + 3 := c3]))"

definition fill_rect :: "canvas \<Rightarrow> int \<Rightarrow> int \<Rightarrow> int \<Rightarrow> int \<Rightarrow> color \<Rightarrow> u8 list \<Rightarrow> u8 list option" where
  "fill_rect cv x y w h color pixels =
     foldM (\<lambda>px row. foldM (\<lambda>px col. put_pixel cv col row color px) px [x..x + w - 1])
       pixels [y..y + h - 1]"

definition fill_bg :: "canvas \<Rightarrow> u8 list \<Rightarrow> u8 list option" where
  "fill_bg cv pixels = fill_rect cv 0 0 (cv_w cv) (cv_h cv) COLOR_BG pixels"

definition SEGMENTS :: "u8 list" where
  "SEGMENTS = [0x3f, 0x06, 0x5b, 0x4f, 0x66, 0x6d, 0x7d, 0x07, 0x7f, 0x6f]"

definition fill_if :: "bool \<Rightarrow> canvas \<Rightarrow> int \<Rightarrow> int \<Rightarrow> int \<Rightarrow> int \<Rightarrow> color \<Rightarrow> u8 list \<Rightarrow> u8 list option" where
  "fill_if b cv x y w h color pixels = (if b then fill_rect cv x y w h color pixels else Some pixels)"

definition draw_digit ::
  "canvas \<Rightarrow> int \<Rightarrow> int \<Rightarrow> nat \<Rightarrow> int \<Rightarrow> int \<Rightarrow> int \<Rightarrow> color \<Rightarrow> u8 list \<Rightarrow> u8 list option" where
  "draw_digit cv x y digit cell_w cell_h thick color pixels =
     (let bits = SEGMENTS ! (digit mod 10); half = cell_h div 2 in
      do {
        p1 \<leftarrow> fill_if (bit bits 0) cv x y cell_w thick color pixels;
        p2 \<leftarrow> fill_if (bit bits 1) cv (x + cell_w - thick) y thick half color p1;
        p3 \<leftarrow> fill_if (bit bits 2) cv (x + cell_w - thick) (y + half) thick half color p2;
        p4 \<leftarrow> fill_if (bit bits 3) cv x (y + cell_h - thick) cell_w thick color p3;
        p5 \<leftarrow> fill_if (bit bits 4) cv x (y + half) thick half color p4;
        p6 \<leftarrow> fill_if (bit bits 5) cv x y thick half color p5;
        fill_if (bit bits 6) cv x (y + half - thick div 2) cell_w thick color p6
      })"

fun digits_low_first :: "nat \<Rightarrow> nat list" where
  "digits_low_first v = (if v = 0 then [] else v mod 10 # digits_low_first (v div 10))"

declare digits_low_first.simps [simp del]

definition number_digits :: "nat \<Rightarrow> nat list" where
  "number_digits value = (if value = 0 then [0] else rev (digits_low_first value))"

text \<open>
  \<open>draw_number\<close> returns the pixels and the width it used. The array \<open>digits[8]\<close> is
  written for each digit.
\<close>

definition draw_number ::
  "canvas \<Rightarrow> int \<Rightarrow> int \<Rightarrow> nat \<Rightarrow> int \<Rightarrow> int \<Rightarrow> int \<Rightarrow> color \<Rightarrow> u8 list \<Rightarrow> (u8 list \<times> int) option" where
  "draw_number cv x y value cell_w cell_h thick color pixels =
     (let v = (if 999 < value then 999 else value);
          digits = number_digits v;
          gap = thick
      in if 8 < length digits then None
         else do {
           p \<leftarrow> foldM (\<lambda>px i. draw_digit cv (x + int i * (cell_w + gap)) y (digits ! i)
                              cell_w cell_h thick color px)
                 pixels [0..<length digits];
           Some (p, int (length digits) * (cell_w + gap))
         })"

definition glyph_5x5 :: "char \<Rightarrow> u8 list option" where
  "glyph_5x5 ch =
     (if ch = CHR ''D'' then Some [0x1c, 0x12, 0x11, 0x12, 0x1c]
      else if ch = CHR ''C'' then Some [0x0f, 0x10, 0x10, 0x10, 0x0f]
      else if ch = CHR ''F'' then Some [0x1f, 0x10, 0x1e, 0x10, 0x10]
      else None)"

definition draw_letter ::
  "canvas \<Rightarrow> int \<Rightarrow> int \<Rightarrow> char \<Rightarrow> int \<Rightarrow> color \<Rightarrow> u8 list \<Rightarrow> u8 list option" where
  "draw_letter cv x y ch scale color pixels =
     (case glyph_5x5 ch of None \<Rightarrow> Some pixels
      | Some rows \<Rightarrow>
         foldM (\<lambda>px row_idx.
           foldM (\<lambda>px col_idx.
             fill_if (bit (rows ! row_idx) (4 - col_idx)) cv (x + int col_idx * scale)
               (y + int row_idx * scale) scale scale color px)
             px [0..<5])
           pixels [0..<5])"

definition draw_row ::
  "canvas \<Rightarrow> int \<Rightarrow> int \<Rightarrow> char \<Rightarrow> nat \<Rightarrow> bool \<Rightarrow> nat \<Rightarrow> u8 list \<Rightarrow> u8 list option" where
  "draw_row cv x y label primary_value has_secondary secondary_value pixels =
     do {
       p1 \<leftarrow> draw_letter cv x (y + 2) label 3 COLOR_PRIMARY pixels;
       let number_x = x + 22;
       (p2, consumed) \<leftarrow> draw_number cv number_x y primary_value 12 20 3 COLOR_PRIMARY p1;
       if has_secondary then
         do {
           (p3, _) \<leftarrow> draw_number cv (number_x + consumed + 10) (y + 7) secondary_value 8 13 2
                      COLOR_SECONDARY p2;
           Some p3
         }
       else Some p2
     }"

definition bar_height :: "real \<Rightarrow> int \<Rightarrow> int" where
  "bar_height delta_ms h =
     (let frac = delta_ms / 40;
          frac1 = (if frac < 2 / 100 then 2 / 100 else frac);
          frac2 = (if frac1 > 1 then 1 else frac1)
      in \<lfloor>frac2 * of_int h\<rfloor>)"

definition draw_sparkline ::
  "canvas \<Rightarrow> int \<Rightarrow> int \<Rightarrow> int \<Rightarrow> int \<Rightarrow> real list \<Rightarrow> real \<Rightarrow> u8 list \<Rightarrow> u8 list option" where
  "draw_sparkline cv x y w h values warn_threshold_ms pixels =
     (let slot_w0 = w div int WP_SPARKLINE_SAMPLES;
          slot_w = (if slot_w0 < 1 then 1 else slot_w0);
          bar_w = (if slot_w - 1 < 1 then 1 else slot_w - 1)
      in foldM (\<lambda>px i.
           let delta_ms = values ! i;
               bar_h = bar_height delta_ms h;
               color = (if delta_ms > warn_threshold_ms then COLOR_BAR_WARN else COLOR_BAR_OK)
           in fill_rect cv (x + int i * slot_w) (y + h - bar_h) bar_w bar_h color px)
         pixels [0..<length values])"

definition llround :: "real \<Rightarrow> int" where
  "llround v = (if 0 \<le> v then \<lfloor>v + 1 / 2\<rfloor> else - \<lfloor>- v + 1 / 2\<rfloor>)"

definition as_u32 :: "int \<Rightarrow> nat" where
  "as_u32 i = unat (word_of_int i :: u32)"

definition ring_deltas :: "frame_stat_ring \<Rightarrow> real list" where
  "ring_deltas r = map (\<lambda>i. (ring_at r i - ring_at r (i - 1)) * 1000) [1..<ring_count r]"

definition peak_of :: "real list \<Rightarrow> real" where
  "peak_of ds = foldl (\<lambda>p d. if d > p then d else p) 0 ds"

text \<open>
  \<open>now_d\<close> and \<open>now_c\<close> are the two readings of the clock. The array
  \<open>deltas_ms[WP_FRAME_STATS_CAPACITY]\<close> overflows (\<^term>\<open>None\<close>) if there are more deltas.
\<close>

definition wp_render_stats_panel :: "real \<Rightarrow> real \<Rightarrow> wp_frame_stats \<Rightarrow> u8 list option" where
  "wp_render_stats_panel now_d now_c stats =
     (let out = replicate WP_DEBUG_OVERLAY_BUFFER_SIZE 0;
          display_fps = ring_fps_in_last_second now_d (fs_display stats);
          capture_fps = ring_fps_in_last_second now_c (fs_capture stats);
          deltas_ms = ring_deltas (fs_display stats);
          delta_count = length deltas_ms;
          last_ms = (if 0 < delta_count then deltas_ms ! (delta_count - 1) else 0);
          peak_ms = peak_of deltas_ms;
          sparkline_count = (if delta_count < WP_SPARKLINE_SAMPLES then delta_count
                             else WP_SPARKLINE_SAMPLES);
          sparkline = drop (delta_count - sparkline_count) deltas_ms;
          bw = WP_DEBUG_OVERLAY_WIDTH;
          cv = \<lparr>cv_stride = WP_DEBUG_OVERLAY_STRIDE, cv_w = bw, cv_h = WP_DEBUG_OVERLAY_HEIGHT\<rparr>
      in if WP_FRAME_STATS_CAPACITY < delta_count then None
         else do {
           p1 \<leftarrow> fill_bg cv out;
           p2 \<leftarrow> draw_row cv 10 8 (CHR ''D'') display_fps False 0 p1;
           p3 \<leftarrow> draw_row cv 10 40 (CHR ''C'') capture_fps False 0 p2;
           p4 \<leftarrow> draw_row cv 10 72 (CHR ''F'') (as_u32 (llround last_ms)) True
                  (as_u32 (llround peak_ms)) p3;
           draw_sparkline cv 10 100 (bw - 20) 14 sparkline (333 / 10) p4
         })"

section \<open>The ring as a bounded queue\<close>

definition ring_inv :: "frame_stat_ring \<Rightarrow> bool" where
  "ring_inv r \<longleftrightarrow> length (ring_times r) = WP_FRAME_STATS_CAPACITY \<and>
     ring_head r < WP_FRAME_STATS_CAPACITY \<and> ring_count r \<le> WP_FRAME_STATS_CAPACITY"

definition ring_list :: "frame_stat_ring \<Rightarrow> real list" where
  "ring_list r = map (ring_at r) [0..<ring_count r]"

locale bounded_queue =
  fixes invar :: "'q \<Rightarrow> bool"
    and to_list :: "'q \<Rightarrow> 'a list"
    and push :: "'a \<Rightarrow> 'q \<Rightarrow> 'q"
    and pop :: "'q \<Rightarrow> 'q"
    and cap :: nat
  assumes bounded: "invar q \<Longrightarrow> length (to_list q) \<le> cap"
    and push_invar: "invar q \<Longrightarrow> length (to_list q) < cap \<Longrightarrow> invar (push x q)"
    and push_list: "invar q \<Longrightarrow> length (to_list q) < cap \<Longrightarrow> to_list (push x q) = to_list q @ [x]"
    and pop_invar: "invar q \<Longrightarrow> to_list q \<noteq> [] \<Longrightarrow> invar (pop q)"
    and pop_list: "invar q \<Longrightarrow> to_list q \<noteq> [] \<Longrightarrow> to_list (pop q) = tl (to_list q)"
    and cap_pos: "0 < cap"
begin

definition make_room :: "'q \<Rightarrow> 'q" where
  "make_room q = (if length (to_list q) = cap then pop q else q)"

lemma make_room:
  assumes "invar q"
  shows "invar (make_room q) \<and> length (to_list (make_room q)) < cap \<and>
    to_list (make_room q) = (if length (to_list q) = cap then tl (to_list q) else to_list q)"
proof (cases "length (to_list q) = cap")
  case True
  with cap_pos have ne: "to_list q \<noteq> []" by auto
  then show ?thesis
    using assms True pop_invar pop_list cap_pos by (auto simp: make_room_def)
next
  case False
  with bounded [OF assms] show ?thesis using assms by (simp add: make_room_def)
qed

lemma push_with_room:
  assumes "invar q"
  shows "invar (push x (make_room q)) \<and>
    to_list (push x (make_room q)) = (if length (to_list q) = cap then tl (to_list q) else to_list q) @ [x]"
  using make_room [OF assms] push_invar push_list by auto

end

lemma mod_add_inj:
  fixes i j h c :: nat
  assumes "i < c" and "j < c" and "(h + i) mod c = (h + j) mod c"
  shows "i = j"
proof -
  have "int c dvd int (h + i) - int (h + j)"
    using assms(3) by (metis mod_eq_dvd_iff of_nat_mod)
  then have "int c dvd int i - int j" by simp
  moreover have "\<bar>int i - int j\<bar> < int c" using assms(1,2) by linarith
  ultimately have "int i - int j = 0" using dvd_imp_le_int [of "int i - int j" "int c"] by linarith
  then show ?thesis by simp
qed

lemma ring_at_drop: "ring_at (ring_drop r) i = ring_at r (Suc i)"
  by (simp add: ring_at_def ring_drop_def mod_add_left_eq)

lemma ring_count_drop [simp]: "ring_count (ring_drop r) = ring_count r - 1"
  by (simp add: ring_drop_def)

lemma length_ring_list [simp]: "length (ring_list r) = ring_count r"
  by (simp add: ring_list_def)

lemma ring_list_drop: "ring_list (ring_drop r) = tl (ring_list r)"
proof -
  have "ring_list (ring_drop r) = map (\<lambda>i. ring_at r (Suc i)) [0..<ring_count r - 1]"
    by (simp add: ring_list_def ring_at_drop ring_count_drop)
  also have "\<dots> = map (ring_at r) (map Suc [0..<ring_count r - 1])" by simp
  also have "\<dots> = map (ring_at r) (tl [0..<ring_count r])"
    by (cases "ring_count r") (simp_all add: map_Suc_upt upt_conv_Cons del: upt_Suc)
  finally show ?thesis by (simp only: ring_list_def map_tl)
qed

lemma ring_list_push:
  assumes "ring_inv r" and "ring_count r < WP_FRAME_STATS_CAPACITY"
  shows "ring_list (ring_push x r) = ring_list r @ [x]"
proof -
  let ?c = WP_FRAME_STATS_CAPACITY
  have at: "ring_at (ring_push x r) i = (if i = ring_count r then x else ring_at r i)"
    if "i \<le> ring_count r" for i
  proof -
    have l: "(ring_head r + ring_count r) mod ?c < length (ring_times r)"
      using assms by (simp add: ring_inv_def)
    have "(ring_head r + i) mod ?c = (ring_head r + ring_count r) mod ?c \<longleftrightarrow> i = ring_count r"
      using that assms(2) mod_add_inj [of i ?c "ring_count r" "ring_head r"] by auto
    then show ?thesis using l by (auto simp: ring_at_def ring_push_def Let_def nth_list_update)
  qed
  have "ring_list (ring_push x r) = map (ring_at (ring_push x r)) [0..<Suc (ring_count r)]"
    by (simp add: ring_list_def) (simp add: ring_push_def Let_def)
  also have "\<dots> = map (ring_at r) [0..<ring_count r] @ [x]" by (simp add: at)
  finally show ?thesis by (simp add: ring_list_def)
qed

interpretation ring: bounded_queue ring_inv ring_list ring_push ring_drop WP_FRAME_STATS_CAPACITY
proof unfold_locales
  fix q x
  assume q: "ring_inv q"
  show "length (ring_list q) \<le> WP_FRAME_STATS_CAPACITY" using q by (simp add: ring_inv_def)
  show "ring_inv (ring_push x q)" if "length (ring_list q) < WP_FRAME_STATS_CAPACITY"
    using q that by (simp add: ring_inv_def ring_push_def Let_def)
  show "ring_list (ring_push x q) = ring_list q @ [x]" if "length (ring_list q) < WP_FRAME_STATS_CAPACITY"
    using q that by (simp add: ring_list_push)
  show "ring_inv (ring_drop q)" if "ring_list q \<noteq> []"
    using q by (auto simp: ring_inv_def ring_drop_def)
  show "ring_list (ring_drop q) = tl (ring_list q)" if "ring_list q \<noteq> []"
    by (rule ring_list_drop)
qed (simp add: WP_FRAME_STATS_CAPACITY_def)

lemma ring_inv_drop [wp_inv]: "ring_inv r \<Longrightarrow> ring_inv (ring_drop r)"
  by (auto simp: ring_inv_def ring_drop_def)

lemma ring_list_hd: "ring_inv r \<Longrightarrow> 0 < ring_count r \<Longrightarrow>
    ring_list r = ring_times r ! ring_head r # tl (ring_list r)"
  by (cases "ring_count r") (simp_all add: ring_list_def upt_conv_Cons ring_at_def ring_inv_def del: upt_Suc)

lemma ring_expire_spec:
  "ring_inv r \<Longrightarrow> ring_inv (ring_expire now r) \<and>
     ring_list (ring_expire now r) = dropWhile (\<lambda>t. now - t > WP_STATS_WINDOW_SECONDS) (ring_list r)"
proof (induction now r rule: ring_expire.induct)
  case (1 now r)
  show ?case
  proof (cases "0 < ring_count r")
    case False
    then show ?thesis using "1.prems" by (simp add: ring_expire.simps [of now r] ring_list_def)
  next
    case True
    note hd = ring_list_hd [OF "1.prems" True]
    show ?thesis
    proof (cases "now - ring_times r ! ring_head r > WP_STATS_WINDOW_SECONDS")
      case True
      with "1.IH" \<open>0 < ring_count r\<close> "1.prems" have
        "ring_inv (ring_expire now (ring_drop r)) \<and> ring_list (ring_expire now (ring_drop r)) =
           dropWhile (\<lambda>t. now - t > WP_STATS_WINDOW_SECONDS) (tl (ring_list r))"
        by (simp add: ring_inv_drop ring_list_drop)
      with True \<open>0 < ring_count r\<close> show ?thesis
        by (subst hd) (simp add: ring_expire.simps [of now r])
    next
      case False
      then have "dropWhile (\<lambda>t. now - t > WP_STATS_WINDOW_SECONDS) (ring_list r) = ring_list r"
        by (metis dropWhile.simps(2) hd)
      with False show ?thesis using "1.prems" by (simp add: ring_expire.simps [of now r])
    qed
  qed
qed

lemma ring_record_room:
  "ring_record now r = ring_expire now (ring_push now (ring.make_room r))"
  by (simp add: ring_record_def Let_def ring.make_room_def)

lemma ring_fps_filter:
  "ring_fps_in_last_second now r = length (filter (\<lambda>t. now - t \<le> 1) (ring_list r))"
proof -
  have "foldl (\<lambda>n i. if now - ring_at r i \<le> 1 then n + 1 else n) k is =
        k + length (filter (\<lambda>t. now - t \<le> 1) (map (ring_at r) is))" for k "is"
    by (induction "is" arbitrary: k) auto
  then show ?thesis by (simp add: ring_fps_in_last_second_def ring_list_def)
qed

lemma zero_ring_inv: "ring_inv zero_ring"
  by (simp add: ring_inv_def zero_ring_def WP_FRAME_STATS_CAPACITY_def)

lemma zero_ring_list: "ring_list zero_ring = []"
  by (simp add: ring_list_def zero_ring_def)

section \<open>Drawing stays inside the buffer\<close>

abbreviation sized :: "nat \<Rightarrow> u8 list \<Rightarrow> bool" where
  "sized n px \<equiv> length px = n"

definition cv_ok :: "canvas \<Rightarrow> nat \<Rightarrow> bool" where
  "cv_ok cv n \<longleftrightarrow> 0 \<le> cv_w cv \<and> 4 * cv_w cv \<le> cv_stride cv \<and> cv_stride cv * cv_h cv \<le> int n"

lemma pixel_offset_bound:
  fixes x y w h stride n :: int
  assumes "0 \<le> x" "0 \<le> y" "x < w" "y < h" "4 * w \<le> stride" "stride * h \<le> n"
  shows "y * stride + x * 4 + 3 < n"
proof -
  have "0 \<le> stride" using assms(1,3,5) by linarith
  then have "(y + 1) * stride \<le> h * stride" using assms(4) by (intro mult_right_mono) simp_all
  also have "\<dots> \<le> n" using assms(6) by (simp add: mult.commute)
  finally have "y * stride + stride \<le> n" by (simp add: algebra_simps)
  then show ?thesis using assms(3,5) by linarith
qed

lemma put_pixel_safe: "cv_ok cv n \<Longrightarrow> safe_for (sized n) (put_pixel cv x y c)"
proof (rule safe_forI)
  fix px :: "u8 list"
  assume ok: "cv_ok cv n" and px: "sized n px"
  show "\<exists>px'. put_pixel cv x y c px = Some px' \<and> sized n px'"
  proof (cases "x < 0 \<or> y < 0 \<or> cv_w cv \<le> x \<or> cv_h cv \<le> y")
    case True
    then show ?thesis using px by (simp add: put_pixel_def)
  next
    case False
    then have "y * cv_stride cv + x * 4 + 3 < int n"
      using ok by (intro pixel_offset_bound [of x y "cv_w cv" "cv_h cv"]) (auto simp: cv_ok_def)
    moreover have "int (nat y * nat (cv_stride cv) + nat x * 4) = y * cv_stride cv + x * 4"
      using False ok by (simp add: cv_ok_def)
    ultimately have "nat y * nat (cv_stride cv) + nat x * 4 + 3 < length px" using px by linarith
    then show ?thesis using False px
      by (cases c) (simp add: put_pixel_def Let_def not_le)
  qed
qed

lemma fill_rect_safe: "cv_ok cv n \<Longrightarrow> safe_for (sized n) (fill_rect cv x y w h c)"
  unfolding fill_rect_def by (intro safe_for_foldM put_pixel_safe)

lemma fill_if_safe: "cv_ok cv n \<Longrightarrow> safe_for (sized n) (fill_if b cv x y w h c)"
  unfolding fill_if_def by (intro safe_for_if fill_rect_safe safe_for_Some)

lemma draw_digit_safe: "cv_ok cv n \<Longrightarrow> safe_for (sized n) (draw_digit cv x y d cw ch t c)"
  unfolding draw_digit_def Let_def by (intro safe_for_bind fill_if_safe)

lemma length_digits_low_first: "v < 10 ^ k \<Longrightarrow> length (digits_low_first v) \<le> k"
proof (induction k arbitrary: v)
  case 0
  then show ?case by (simp add: digits_low_first.simps)
next
  case (Suc k)
  then have "v div 10 < 10 ^ k" by (simp add: less_mult_imp_div_less)
  with Suc.IH show ?case by (simp add: digits_low_first.simps [of v])
qed

lemma length_number_digits: "v \<le> 999 \<Longrightarrow> length (number_digits v) \<le> 3"
  using length_digits_low_first [of v 3] by (simp add: number_digits_def)

lemma draw_number_safe:
  assumes "cv_ok cv n" and "sized n px"
  shows "\<exists>px' k. draw_number cv x y v cw ch t c px = Some (px', k) \<and> sized n px'"
proof -
  let ?ds = "number_digits (if 999 < v then 999 else v)"
  have l: "length ?ds \<le> 3" by (rule length_number_digits) simp
  have "safe_for (sized n) (\<lambda>px. foldM (\<lambda>px i. draw_digit cv (x + int i * (cw + t)) y (?ds ! i) cw ch t c px)
          px [0..<length ?ds])"
    by (intro safe_for_foldM draw_digit_safe assms(1))
  from safe_forD [OF this assms(2)] l show ?thesis
    by (auto simp: draw_number_def Let_def)
qed

lemma draw_letter_safe: "cv_ok cv n \<Longrightarrow> safe_for (sized n) (draw_letter cv x y ch sc c)"
proof (cases "glyph_5x5 ch")
  case None
  then show ?thesis by (simp add: draw_letter_def safe_for_def)
next
  case (Some rows)
  assume ok: "cv_ok cv n"
  then show ?thesis unfolding draw_letter_def Some option.case
    by (intro safe_for_foldM fill_if_safe)
qed

lemma draw_row_safe: "cv_ok cv n \<Longrightarrow> safe_for (sized n) (draw_row cv x y l p b q)"
proof (rule safe_forI)
  fix px :: "u8 list"
  assume ok: "cv_ok cv n" and px: "sized n px"
  obtain p1 where p1: "draw_letter cv x (y + 2) l 3 COLOR_PRIMARY px = Some p1" "sized n p1"
    using safe_forD [OF draw_letter_safe [OF ok] px] by blast
  obtain p2 k where p2: "draw_number cv (x + 22) y p 12 20 3 COLOR_PRIMARY p1 = Some (p2, k)" "sized n p2"
    using draw_number_safe [OF ok p1(2)] by blast
  obtain p3 k' where p3: "draw_number cv (x + 22 + k + 10) (y + 7) q 8 13 2 COLOR_SECONDARY p2 = Some (p3, k')"
      "sized n p3"
    using draw_number_safe [OF ok p2(2)] by blast
  show "\<exists>px'. draw_row cv x y l p b q px = Some px' \<and> sized n px'"
    using p1 p2 p3 by (simp add: draw_row_def Let_def add.assoc)
qed

lemma draw_sparkline_safe: "cv_ok cv n \<Longrightarrow> safe_for (sized n) (draw_sparkline cv x y w h vs t)"
  unfolding draw_sparkline_def Let_def by (intro safe_for_foldM fill_rect_safe)

lemma overlay_canvas_ok:
  "cv_ok \<lparr>cv_stride = WP_DEBUG_OVERLAY_STRIDE, cv_w = WP_DEBUG_OVERLAY_WIDTH,
          cv_h = WP_DEBUG_OVERLAY_HEIGHT\<rparr> WP_DEBUG_OVERLAY_BUFFER_SIZE"
  by (simp add: cv_ok_def WP_DEBUG_OVERLAY_STRIDE_def WP_DEBUG_OVERLAY_WIDTH_def
      WP_DEBUG_OVERLAY_HEIGHT_def WP_DEBUG_OVERLAY_BUFFER_SIZE_def)

section \<open>Properties\<close>

text \<open>
  Recording a time stamp in the ring is a sliding window: the ring keeps its invariant,
  and as a queue it holds the old stamps (without the oldest if all 4096 places were taken) and
  the new one, less the leading stamps that are more than three seconds old.
\<close>

theorem ring_record_window:
  assumes "ring_inv r"
  shows "ring_inv (ring_record now r) \<and>
    ring_list (ring_record now r) =
      dropWhile (\<lambda>t. now - t > 3)
        ((if ring_count r = WP_FRAME_STATS_CAPACITY then tl (ring_list r) else ring_list r) @ [now])"
  using ring.push_with_room [OF assms, of now] ring_expire_spec [of "ring_push now (ring.make_room r)" now]
  by (simp add: ring_record_room WP_STATS_WINDOW_SECONDS_def)

theorem ring_record_window_witness:
  "ring_list (ring_record 10 (ring_record 5 (ring_record 4 zero_ring))) = [10]"
  using ring_record_window [of zero_ring 4] ring_record_window [of "ring_record 4 zero_ring" 5]
    ring_record_window [of "ring_record 5 (ring_record 4 zero_ring)" 10]
  by (simp add: zero_ring_inv zero_ring_list WP_FRAME_STATS_CAPACITY_def flip: length_ring_list)

text \<open>
  The frame rate counts every frame of the last second: as long as the ring has a free
  place, the rate read right after recording a frame is the number of recorded stamps, that
  frame included, that are at most one second old; expiry never removes one of them.
\<close>

theorem fps_counts_last_second:
  assumes "ring_inv r" and "ring_count r < WP_FRAME_STATS_CAPACITY"
  shows "ring_fps_in_last_second now (ring_record now r) =
     length (filter (\<lambda>t. now - t \<le> 1) (ring_list r)) + 1"
proof -
  have drop: "filter (\<lambda>t. now - t \<le> 1) (dropWhile (\<lambda>t. now - t > 3) ts) = filter (\<lambda>t. now - t \<le> 1) ts"
    for ts :: "real list"
    by (induction ts) auto
  have "ring_list (ring_record now r) = dropWhile (\<lambda>t. now - t > 3) (ring_list r @ [now])"
    using assms ring.push_with_room [OF assms(1), of now]
      ring_expire_spec [of "ring_push now (ring.make_room r)" now]
    by (simp add: ring_record_room WP_STATS_WINDOW_SECONDS_def)
  then show ?thesis by (simp add: ring_fps_filter drop)
qed

theorem fps_counts_last_second_witness: "ring_fps_in_last_second 4 (ring_record 4 zero_ring) = 1"
  using fps_counts_last_second [of zero_ring 4]
  by (simp add: zero_ring_inv zero_ring_list WP_FRAME_STATS_CAPACITY_def flip: length_ring_list)

text \<open>
  The throttle: after a redraw, the next one is granted exactly when at least 250 ms have
  passed, unless the throttle was reset in between, which grants it at once.
\<close>

theorem throttle_interval:
  assumes "wp_debug_throttle_should_redraw t0 th = (True, th1)"
  shows "(fst (wp_debug_throttle_should_redraw t1 th1) \<longleftrightarrow> t1 - t0 \<ge> 25 / 100) \<and>
         fst (wp_debug_throttle_should_redraw t1 (wp_debug_throttle_reset th1))"
  using assms
  by (auto simp: wp_debug_throttle_should_redraw_def wp_debug_throttle_reset_def
      WP_DEBUG_OVERLAY_REDRAW_INTERVAL_MS_def split: if_splits)

theorem throttle_interval_witness:
  "\<not> fst (wp_debug_throttle_should_redraw (11 / 10)
        (snd (wp_debug_throttle_should_redraw 1 wp_debug_throttle_init)))"
  using throttle_interval [of 1 wp_debug_throttle_init
      "snd (wp_debug_throttle_should_redraw 1 wp_debug_throttle_init)" "11 / 10"]
  by (simp add: wp_debug_throttle_should_redraw_def wp_debug_throttle_init_def)

text \<open>
  C40. Rendering the statistics panel never writes outside its buffer: for every state of the
  statistics that satisfies the ring invariant, whatever rates and frame times it shows, all pixel
  writes are inside the 210 x 120 x 4 bytes, the digit and delta arrays do not overflow, and the
  rendering returns a buffer of that size.
\<close>

theorem render_in_bounds:
  assumes "ring_inv (fs_display stats)"
  shows "\<exists>px. wp_render_stats_panel now_d now_c stats = Some px \<and> length px = 210 * 120 * 4"
proof -
  let ?n = WP_DEBUG_OVERLAY_BUFFER_SIZE
  let ?out = "replicate ?n 0 :: u8 list"
  have bound: "\<not> WP_FRAME_STATS_CAPACITY < length (ring_deltas (fs_display stats))"
    using assms by (auto simp: ring_deltas_def ring_inv_def)
  note ok = overlay_canvas_ok
  have "safe_for (sized ?n) (\<lambda>px. do {
        p1 \<leftarrow> fill_bg \<lparr>cv_stride = WP_DEBUG_OVERLAY_STRIDE, cv_w = WP_DEBUG_OVERLAY_WIDTH,
                    cv_h = WP_DEBUG_OVERLAY_HEIGHT\<rparr> px;
        p2 \<leftarrow> draw_row \<lparr>cv_stride = WP_DEBUG_OVERLAY_STRIDE, cv_w = WP_DEBUG_OVERLAY_WIDTH,
                    cv_h = WP_DEBUG_OVERLAY_HEIGHT\<rparr> 10 8 (CHR ''D'') d False 0 p1;
        p3 \<leftarrow> draw_row \<lparr>cv_stride = WP_DEBUG_OVERLAY_STRIDE, cv_w = WP_DEBUG_OVERLAY_WIDTH,
                    cv_h = WP_DEBUG_OVERLAY_HEIGHT\<rparr> 10 40 (CHR ''C'') c False 0 p2;
        p4 \<leftarrow> draw_row \<lparr>cv_stride = WP_DEBUG_OVERLAY_STRIDE, cv_w = WP_DEBUG_OVERLAY_WIDTH,
                    cv_h = WP_DEBUG_OVERLAY_HEIGHT\<rparr> 10 72 (CHR ''F'') f True g p3;
        draw_sparkline \<lparr>cv_stride = WP_DEBUG_OVERLAY_STRIDE, cv_w = WP_DEBUG_OVERLAY_WIDTH,
                    cv_h = WP_DEBUG_OVERLAY_HEIGHT\<rparr> 10 100 (WP_DEBUG_OVERLAY_WIDTH - 20) 14 vs (333 / 10) p4 })"
    for d c f g vs
    unfolding fill_bg_def
    by (intro safe_for_bind fill_rect_safe [OF ok] draw_row_safe [OF ok] draw_sparkline_safe [OF ok])
  from safe_forD [OF this, of ?out] bound show ?thesis
    by (simp add: wp_render_stats_panel_def Let_def)
      (simp add: WP_DEBUG_OVERLAY_BUFFER_SIZE_def WP_DEBUG_OVERLAY_STRIDE_def
        WP_DEBUG_OVERLAY_WIDTH_def WP_DEBUG_OVERLAY_HEIGHT_def)
qed

theorem render_in_bounds_witness:
  "\<exists>px. wp_render_stats_panel 1 2 wp_frame_stats_create = Some px \<and> length px = 210 * 120 * 4"
  using render_in_bounds [of wp_frame_stats_create 1 2]
  by (simp add: wp_frame_stats_create_def zero_ring_inv)

end
