(* ===== verification/WP_Wl_State.thy ===== *)
theory WP_Wl_State
  imports WP_Capture_Socket WP_Debug_Overlay "HOL-Library.Multiset"
begin

text \<open>
  The state of a wlroots portal (\<^verbatim>\<open>programs/wallpiper-portal-wl-common\<close>): outputs and their
  layer surfaces (\<^verbatim>\<open>layer_surface.c\<close>, \<^verbatim>\<open>registry.c\<close>), the binding of capture channels to
  outputs, the buffers of each channel's slots, the frame loop and the debug overlay
  (\<^verbatim>\<open>state.c\<close>, \<^verbatim>\<open>buffers.c\<close>).

  The Wayland client library is not part of the repository: the requests the portal makes of it are
  recorded in order in \<open>ws_reqs\<close>, the objects it creates are numbered from
  \<open>ws_next_id\<close>, and what it answers (whether a dma-buf import succeeds) is the argument
  \<open>wl_env\<close>, together with the clock. \<open>o_pending_callbacks\<close> counts the frame callbacks
  of an output that the compositor has not answered yet; the descriptors the portal closes are
  recorded in \<open>ws_closed\<close>. An output is addressed by its index in the array; the array's
  used part, \<open>outputs[0..output_count)\<close>, is the list \<open>ws_outputs\<close>.
\<close>

section \<open>State\<close>

definition WP_WL_CAPTURE_SLOT_COUNT :: u32 where "WP_WL_CAPTURE_SLOT_COUNT = 3"
definition WP_WL_MAX_CAPTURE_CHANNELS :: u32 where "WP_WL_MAX_CAPTURE_CHANNELS = 4"
definition WP_WL_MAX_OUTPUTS :: nat where "WP_WL_MAX_OUTPUTS = 4"
definition WP_WL_DMABUF_MIN_VERSION :: u32 where "WP_WL_DMABUF_MIN_VERSION = 2"

record wp_wl_slot =
  sl_in_use :: bool
  sl_slot :: u32
  sl_buffer :: nat
  sl_fd :: fd
  sl_width :: u32
  sl_height :: u32

datatype wp_wl_source =
    WP_WL_SOURCE_NONE
  | WP_WL_SOURCE_SLOT (src_slot: u32)
  | WP_WL_SOURCE_SHM (src_fd: fd) (src_width: u32) (src_height: u32) (src_stride: u32)

record wp_wl_output =
  o_known :: bool
  o_x :: i32
  o_y :: i32
  o_width :: u32
  o_height :: u32
  o_scale :: int
  o_has_bound_channel :: bool
  o_bound_channel :: u32
  o_surface :: bool
  o_layer_surface :: bool
  o_viewport :: bool
  o_configured_width :: u32
  o_configured_height :: u32
  o_slots :: "wp_wl_slot list"
  o_has_current_source :: bool
  o_current_source :: wp_wl_source
  o_current_shm_buffer :: "nat option"
  o_current_shm_pool :: "nat option"
  o_frame_loop_running :: bool
  o_pending_callbacks :: nat

datatype wl_request =
    Create_surface nat
  | Get_viewport nat
  | Get_layer_surface nat
  | Ack_configure nat u32
  | Surface_attach nat "nat option"
  | Surface_damage nat u32 u32
  | Viewport_set_destination nat u32 u32
  | Surface_frame nat
  | Surface_commit nat
  | Dmabuf_create_buffer nat fd u32 u32 u32 u32 u32
  | Shm_create_pool nat fd i32
  | Shm_create_buffer nat nat u32 u32 u32
  | Buffer_destroy nat
  | Shm_pool_destroy nat
  | Debug_create_subsurface int int
  | Debug_attach "nat option"
  | Debug_damage
  | Debug_commit

record wp_wl_state =
  ws_compositor :: bool
  ws_layer_shell :: bool
  ws_dmabuf :: bool
  ws_viewporter :: bool
  ws_shm :: bool
  ws_subcompositor :: bool
  ws_outputs :: "wp_wl_output list"
  ws_debug_enabled :: bool
  ws_debug_surface :: bool
  ws_debug_shm_pool :: "nat option"
  ws_debug_shm_buffer :: "nat option"
  ws_debug_shm_fd :: "fd option"
  ws_debug_throttle :: wp_debug_throttle
  ws_stats :: wp_frame_stats
  ws_next_id :: nat
  ws_reqs :: "wl_request list"
  ws_closed :: "fd list"

record wl_env =
  we_now :: real
  we_dmabuf_params :: bool
  we_dmabuf_buffer :: bool
  we_memfd :: fd
  we_memfd_written :: bool

definition zero_slot :: wp_wl_slot where
  "zero_slot = \<lparr>sl_in_use = False, sl_slot = 0, sl_buffer = 0, sl_fd = 0, sl_width = 0, sl_height = 0\<rparr>"

definition zero_output :: wp_wl_output where
  "zero_output =
     \<lparr>o_known = False, o_x = 0, o_y = 0, o_width = 0, o_height = 0, o_scale = 0,
      o_has_bound_channel = False, o_bound_channel = 0, o_surface = False, o_layer_surface = False,
      o_viewport = False, o_configured_width = 0, o_configured_height = 0,
      o_slots = [zero_slot, zero_slot, zero_slot], o_has_current_source = False,
      o_current_source = WP_WL_SOURCE_NONE, o_current_shm_buffer = None, o_current_shm_pool = None,
      o_frame_loop_running = False, o_pending_callbacks = 0\<rparr>"

text \<open>The state \<open>wp_wl_portal_run\<close> starts from.\<close>

definition initial_state :: wp_wl_state where
  "initial_state =
     \<lparr>ws_compositor = False, ws_layer_shell = False, ws_dmabuf = False, ws_viewporter = False,
      ws_shm = False, ws_subcompositor = False, ws_outputs = [], ws_debug_enabled = False,
      ws_debug_surface = False, ws_debug_shm_pool = None, ws_debug_shm_buffer = None,
      ws_debug_shm_fd = None, ws_debug_throttle = wp_debug_throttle_init,
      ws_stats = wp_frame_stats_create, ws_next_id = 0, ws_reqs = [], ws_closed = []\<rparr>"

section \<open>Access to outputs, requests and descriptors\<close>

definition upd_out :: "nat \<Rightarrow> (wp_wl_output \<Rightarrow> wp_wl_output) \<Rightarrow> wp_wl_state \<Rightarrow> wp_wl_state" where
  "upd_out i f st = st\<lparr>ws_outputs := (ws_outputs st)[i := f (ws_outputs st ! i)]\<rparr>"

definition req :: "wl_request \<Rightarrow> wp_wl_state \<Rightarrow> wp_wl_state" where
  "req r st = st\<lparr>ws_reqs := ws_reqs st @ [r]\<rparr>"

definition req_opt :: "(nat \<Rightarrow> wl_request) \<Rightarrow> nat option \<Rightarrow> wp_wl_state \<Rightarrow> wp_wl_state" where
  "req_opt r x st = (case x of None \<Rightarrow> st | Some n \<Rightarrow> req (r n) st)"

definition ws_close :: "fd \<Rightarrow> wp_wl_state \<Rightarrow> wp_wl_state" where
  "ws_close d st = st\<lparr>ws_closed := ws_closed st @ [d]\<rparr>"

definition fresh :: "wp_wl_state \<Rightarrow> nat \<times> wp_wl_state" where
  "fresh st = (ws_next_id st, st\<lparr>ws_next_id := Suc (ws_next_id st)\<rparr>)"

section \<open>Registry and outputs (registry.c, layer_surface.c)\<close>

datatype wl_interface =
    I_wl_compositor
  | I_zwlr_layer_shell_v1
  | I_zwp_linux_dmabuf_v1
  | I_wp_viewporter
  | I_wl_shm
  | I_wl_subcompositor
  | I_wl_output
  | I_other

definition wp_wl_add_output :: "wp_wl_state \<Rightarrow> nat option \<times> wp_wl_state" where
  "wp_wl_add_output st =
     (if WP_WL_MAX_OUTPUTS \<le> length (ws_outputs st) then (None, st)
      else (Some (length (ws_outputs st)),
            st\<lparr>ws_outputs := ws_outputs st @ [zero_output\<lparr>o_scale := 1\<rparr>]\<rparr>))"

definition registry_global :: "wl_interface \<Rightarrow> u32 \<Rightarrow> wp_wl_state \<Rightarrow> wp_wl_state" where
  "registry_global interface version st =
     (case interface of
        I_wl_compositor \<Rightarrow> st\<lparr>ws_compositor := True\<rparr>
      | I_zwlr_layer_shell_v1 \<Rightarrow> st\<lparr>ws_layer_shell := True\<rparr>
      | I_zwp_linux_dmabuf_v1 \<Rightarrow>
          if WP_WL_DMABUF_MIN_VERSION \<le> version then st\<lparr>ws_dmabuf := True\<rparr> else st
      | I_wp_viewporter \<Rightarrow> st\<lparr>ws_viewporter := True\<rparr>
      | I_wl_shm \<Rightarrow> st\<lparr>ws_shm := True\<rparr>
      | I_wl_subcompositor \<Rightarrow> st\<lparr>ws_subcompositor := True\<rparr>
      | I_wl_output \<Rightarrow> snd (wp_wl_add_output st)
      | I_other \<Rightarrow> st)"

text \<open>\<^term>\<open>None\<close> is the exit of the process when a required global is missing.\<close>

definition wp_wl_bind_globals :: "(wl_interface \<times> u32) list \<Rightarrow> wp_wl_state \<Rightarrow> wp_wl_state option" where
  "wp_wl_bind_globals globals st =
     (let st1 = foldl (\<lambda>s (i, v). registry_global i v s) st globals
      in if \<not> ws_compositor st1 \<or> \<not> ws_layer_shell st1 then None else Some st1)"

definition layer_surface_configure :: "nat \<Rightarrow> u32 \<Rightarrow> u32 \<Rightarrow> u32 \<Rightarrow> wp_wl_state \<Rightarrow> wp_wl_state" where
  "layer_surface_configure i serial width height st =
     upd_out i (\<lambda>out. out\<lparr>
         o_configured_width := (if 0 < width then width else o_configured_width out),
         o_configured_height := (if 0 < height then height else o_configured_height out)\<rparr>)
       (req (Ack_configure i serial) st)"

definition wp_wl_output_ready :: "nat \<Rightarrow> wp_wl_state \<Rightarrow> wp_wl_state" where
  "wp_wl_output_ready i st =
     (if o_surface (ws_outputs st ! i) then st
      else let st1 = upd_out i (\<lambda>out. out\<lparr>o_surface := True\<rparr>) (req (Create_surface i) st);
               st2 = (if ws_viewporter st1
                      then upd_out i (\<lambda>out. out\<lparr>o_viewport := True\<rparr>) (req (Get_viewport i) st1)
                      else st1);
               st3 = upd_out i (\<lambda>out. out\<lparr>o_layer_surface := True\<rparr>) (req (Get_layer_surface i) st2)
           in req (Surface_commit i) st3)"

definition output_geometry :: "nat \<Rightarrow> i32 \<Rightarrow> i32 \<Rightarrow> wp_wl_state \<Rightarrow> wp_wl_state" where
  "output_geometry i x y st = upd_out i (\<lambda>out. out\<lparr>o_x := x, o_y := y\<rparr>) st"

definition output_mode :: "nat \<Rightarrow> u32 \<Rightarrow> i32 \<Rightarrow> i32 \<Rightarrow> wp_wl_state \<Rightarrow> wp_wl_state" where
  "output_mode i flags width height st =
     (if \<not> bit flags 0 then st
      else upd_out i (\<lambda>out. out\<lparr>o_width := width, o_height := height\<rparr>) st)"

definition output_done :: "nat \<Rightarrow> wp_wl_state \<Rightarrow> wp_wl_state" where
  "output_done i st = wp_wl_output_ready i (upd_out i (\<lambda>out. out\<lparr>o_known := True\<rparr>) st)"

definition output_scale :: "nat \<Rightarrow> i32 \<Rightarrow> wp_wl_state \<Rightarrow> wp_wl_state" where
  "output_scale i factor st =
     upd_out i (\<lambda>out. out\<lparr>o_scale := (if 0 < sint factor then sint factor else 1)\<rparr>) st"

definition wp_wl_request_frame_callback :: "nat \<Rightarrow> wp_wl_state \<Rightarrow> wp_wl_state" where
  "wp_wl_request_frame_callback i st =
     upd_out i (\<lambda>out. out\<lparr>o_pending_callbacks := Suc (o_pending_callbacks out)\<rparr>)
       (req (Surface_frame i) st)"

section \<open>Buffers (buffers.c)\<close>

definition wp_wl_create_dmabuf_buffer ::
  "wl_env \<Rightarrow> fd \<Rightarrow> u32 \<Rightarrow> u32 \<Rightarrow> u32 \<Rightarrow> u64 \<Rightarrow> wp_wl_state \<Rightarrow> nat option \<times> wp_wl_state" where
  "wp_wl_create_dmabuf_buffer env d width height stride modifier st =
     (if \<not> ws_dmabuf st then (None, st)
      else if \<not> we_dmabuf_params env then (None, st)
      else if \<not> we_dmabuf_buffer env then (None, st)
      else case fresh st of (b, st1) \<Rightarrow>
        (Some b, req (Dmabuf_create_buffer b d width height stride
                        (ucast (drop_bit 32 modifier)) (ucast modifier)) st1))"

section \<open>Channels, slots and the frame loop (state.c)\<close>

definition find_output_for_channel :: "wp_wl_state \<Rightarrow> u32 \<Rightarrow> nat option" where
  "find_output_for_channel st channel =
     find_index (\<lambda>out. o_has_bound_channel out \<and> o_bound_channel out = channel) (ws_outputs st)"

definition bind_channel :: "u32 \<Rightarrow> wp_wl_output \<Rightarrow> wp_wl_output" where
  "bind_channel channel out = out\<lparr>o_has_bound_channel := True, o_bound_channel := channel\<rparr>"

definition claim_output_for_position ::
  "u32 \<Rightarrow> i32 \<Rightarrow> i32 \<Rightarrow> wp_wl_state \<Rightarrow> nat option \<times> wp_wl_state" where
  "claim_output_for_position channel geom_x geom_y st =
     (case find_index (\<lambda>out. o_known out \<and> \<not> o_has_bound_channel out \<and> o_x out = geom_x
                             \<and> o_y out = geom_y) (ws_outputs st) of
        None \<Rightarrow> (None, st)
      | Some i \<Rightarrow> (Some i, upd_out i (bind_channel channel) st))"

definition leftmost_free :: "wp_wl_output list \<Rightarrow> nat option" where
  "leftmost_free outs =
     foldl (\<lambda>best i.
        if \<not> o_known (outs ! i) \<or> o_has_bound_channel (outs ! i) then best
        else case best of None \<Rightarrow> Some i
             | Some b \<Rightarrow> if sint (o_x (outs ! i)) < sint (o_x (outs ! b)) then Some i else Some b)
       None [0..<length outs]"

definition claim_output_for_size ::
  "u32 \<Rightarrow> u32 \<Rightarrow> u32 \<Rightarrow> wp_wl_state \<Rightarrow> nat option \<times> wp_wl_state" where
  "claim_output_for_size channel width height st =
     (case find_index (\<lambda>out. o_known out \<and> \<not> o_has_bound_channel out \<and> o_width out = width
                             \<and> o_height out = height) (ws_outputs st) of
        Some i \<Rightarrow> (Some i, upd_out i (bind_channel channel) st)
      | None \<Rightarrow>
         (case leftmost_free (ws_outputs st) of
            Some i \<Rightarrow> (Some i, upd_out i (bind_channel channel) st)
          | None \<Rightarrow> (None, st)))"

text \<open>The end of \<open>wp_wl_refresh_buffer\<close>, from \<open>wl_surface_attach\<close> on.\<close>

definition present_buffer ::
  "wl_env \<Rightarrow> nat \<Rightarrow> nat \<Rightarrow> u32 \<Rightarrow> u32 \<Rightarrow> nat option \<Rightarrow> wp_wl_state \<Rightarrow> wp_wl_state" where
  "present_buffer env i buffer width height next_shm_buffer st =
     (let st1 = req (Surface_damage i width height) (req (Surface_attach i (Some buffer)) st);
          out = ws_outputs st1 ! i;
          st2 = (if o_viewport out
                 then req (Viewport_set_destination i (o_configured_width out) (o_configured_height out)) st1
                 else st1);
          st3 = req (Surface_commit i) (wp_wl_request_frame_callback i st2);
          st4 = req_opt Buffer_destroy (o_current_shm_buffer (ws_outputs st3 ! i)) st3;
          st5 = upd_out i (\<lambda>out. out\<lparr>o_current_shm_buffer := next_shm_buffer\<rparr>) st4
      in st5\<lparr>ws_stats := wp_frame_stats_record_display (we_now env) (ws_stats st5)\<rparr>)"

definition slot_of :: "wp_wl_output \<Rightarrow> u32 \<Rightarrow> wp_wl_slot" where
  "slot_of out s = o_slots out ! unat (s mod WP_WL_CAPTURE_SLOT_COUNT)"

definition wp_wl_refresh_buffer :: "wl_env \<Rightarrow> nat \<Rightarrow> wp_wl_state \<Rightarrow> wp_wl_state" where
  "wp_wl_refresh_buffer env i st =
     (let out = ws_outputs st ! i in
      if \<not> o_surface out \<or> \<not> o_has_current_source out then st
      else case o_current_source out of
        WP_WL_SOURCE_SLOT s \<Rightarrow>
          (let slot = slot_of out s in
           if \<not> sl_in_use slot \<or> sl_slot slot \<noteq> s then st
           else present_buffer env i (sl_buffer slot) (sl_width slot) (sl_height slot) None st)
      | WP_WL_SOURCE_SHM d width height stride \<Rightarrow>
          if \<not> ws_shm st then st
          else (case fresh st of (pool, st1) \<Rightarrow>
                case fresh st1 of (b, st2) \<Rightarrow>
                let st3 = req (Shm_create_buffer b pool width height stride)
                            (req (Shm_create_pool pool d (stride * height)) st2);
                    st4 = req_opt Shm_pool_destroy (o_current_shm_pool out) st3;
                    st5 = upd_out i (\<lambda>out. out\<lparr>o_current_shm_pool := Some pool\<rparr>) st4
                in present_buffer env i b width height (Some b) st5)
      | WP_WL_SOURCE_NONE \<Rightarrow> st)"

definition wp_wl_set_current_source :: "wl_env \<Rightarrow> nat \<Rightarrow> wp_wl_source \<Rightarrow> wp_wl_state \<Rightarrow> wp_wl_state" where
  "wp_wl_set_current_source env i source st =
     (let st1 = upd_out i (\<lambda>out. out\<lparr>o_current_source := source, o_has_current_source := True\<rparr>) st
      in if \<not> o_frame_loop_running (ws_outputs st1 ! i)
         then wp_wl_refresh_buffer env i (upd_out i (\<lambda>out. out\<lparr>o_frame_loop_running := True\<rparr>) st1)
         else st1)"

definition upd_slot :: "u32 \<Rightarrow> (wp_wl_slot \<Rightarrow> wp_wl_slot) \<Rightarrow> wp_wl_output \<Rightarrow> wp_wl_output" where
  "upd_slot s f out =
     (let k = unat (s mod WP_WL_CAPTURE_SLOT_COUNT)
      in out\<lparr>o_slots := (o_slots out)[k := f (o_slots out ! k)]\<rparr>)"

definition release_slot :: "nat \<Rightarrow> u32 \<Rightarrow> wp_wl_state \<Rightarrow> wp_wl_state" where
  "release_slot i s st =
     (let slot = slot_of (ws_outputs st ! i) s in
      if sl_in_use slot
      then upd_out i (upd_slot s (\<lambda>sl. sl\<lparr>sl_in_use := False\<rparr>))
             (ws_close (sl_fd slot) (req (Buffer_destroy (sl_buffer slot)) st))
      else st)"

text \<open>The output for a BUF message: the one its channel is bound to, or a newly claimed one.\<close>

definition output_for_buf ::
  "u32 \<Rightarrow> u32 \<Rightarrow> u32 \<Rightarrow> bool \<Rightarrow> i32 \<Rightarrow> i32 \<Rightarrow> wp_wl_state \<Rightarrow> nat option \<times> wp_wl_state" where
  "output_for_buf channel width height has_geometry geom_x geom_y st =
     (case find_output_for_channel st channel of
        Some i \<Rightarrow> (Some i, st)
      | None \<Rightarrow>
         (case (if has_geometry then claim_output_for_position channel geom_x geom_y st else (None, st)) of
            (Some i, st1) \<Rightarrow> (Some i, st1)
          | (None, st1) \<Rightarrow> claim_output_for_size channel width height st1))"

definition handle_buf ::
  "wl_env \<Rightarrow> u32 \<Rightarrow> u32 \<Rightarrow> u32 \<Rightarrow> u32 \<Rightarrow> u64 \<Rightarrow> bool \<Rightarrow> i32 \<Rightarrow> i32 \<Rightarrow> fd \<Rightarrow> wp_wl_state \<Rightarrow> wp_wl_state"
where
  "handle_buf env wire_slot width height stride modifier has_geometry geom_x geom_y d st =
     (let channel = wire_slot div WP_WL_CAPTURE_SLOT_COUNT in
      if WP_WL_MAX_CAPTURE_CHANNELS \<le> channel then ws_close d st
      else case output_for_buf channel width height has_geometry geom_x geom_y st of
        (None, st1) \<Rightarrow> ws_close d st1
      | (Some i, st1) \<Rightarrow>
         (case wp_wl_create_dmabuf_buffer env d width height stride modifier (release_slot i wire_slot st1) of
            (None, st2) \<Rightarrow> ws_close d st2
          | (Some b, st2) \<Rightarrow>
              wp_wl_set_current_source env i (WP_WL_SOURCE_SLOT wire_slot)
                (upd_out i (upd_slot wire_slot (\<lambda>_. \<lparr>sl_in_use = True, sl_slot = wire_slot,
                     sl_buffer = b, sl_fd = d, sl_width = width, sl_height = height\<rparr>)) st2)))"

definition close_all :: "fd list \<Rightarrow> wp_wl_state \<Rightarrow> wp_wl_state" where
  "close_all ds st = foldl (\<lambda>s d. ws_close d s) st ds"

definition wp_wl_handle_capture_event :: "wl_env \<Rightarrow> wp_capture_event \<Rightarrow> wp_wl_state \<Rightarrow> wp_wl_state" where
  "wp_wl_handle_capture_event env ev st0 =
     (let st = st0\<lparr>ws_stats := wp_frame_stats_record_capture (we_now env) (ws_stats st0)\<rparr> in
      case ev_tag ev of
        WP_CAPTURE_EVENT_BUF \<Rightarrow>
          handle_buf env (ev_slot ev) (ev_width ev) (ev_height ev) (ev_stride ev) (ev_modifier ev)
            (ev_has_geometry ev) (ev_geom_x ev) (ev_geom_y ev) (ev_fds ev ! 0)
            (close_all (take 1 (drop 1 (ev_fds ev))) st)
      | WP_CAPTURE_EVENT_FRAME \<Rightarrow>
          (let st1 = close_all (take 1 (ev_fds ev)) st;
               channel = ev_slot ev div WP_WL_CAPTURE_SLOT_COUNT
           in case find_output_for_channel st1 channel of
                None \<Rightarrow> st1
              | Some i \<Rightarrow>
                  if sl_in_use (slot_of (ws_outputs st1 ! i) (ev_slot ev))
                  then wp_wl_set_current_source env i (WP_WL_SOURCE_SLOT (ev_slot ev)) st1
                  else st1)
      | WP_CAPTURE_EVENT_SHM \<Rightarrow>
          if ws_outputs st = [] then ws_close (ev_fds ev ! 0) st
          else wp_wl_set_current_source env 0
                 (WP_WL_SOURCE_SHM (ev_fds ev ! 0) (ev_width ev) (ev_height ev) (ev_stride ev)) st)"

definition release_slots :: "nat \<Rightarrow> wp_wl_state \<Rightarrow> wp_wl_state" where
  "release_slots i st = release_slot i 2 (release_slot i 1 (release_slot i 0 st))"

text \<open>The body of the loop of \<open>wp_wl_detach\<close>: first the surface and the source, then the slots.\<close>

definition unbind_output :: "nat \<Rightarrow> wp_wl_state \<Rightarrow> wp_wl_state" where
  "unbind_output i st =
     (let st1 = (if o_surface (ws_outputs st ! i)
                 then req (Surface_commit i) (req (Surface_attach i None) st) else st);
          st2 = upd_out i (\<lambda>out. out\<lparr>o_has_current_source := False, o_frame_loop_running := False,
                                     o_has_bound_channel := False\<rparr>) st1;
          st3 = req_opt Buffer_destroy (o_current_shm_buffer (ws_outputs st2 ! i)) st2;
          st4 = upd_out i (\<lambda>out. out\<lparr>o_current_shm_buffer := None\<rparr>) st3;
          st5 = req_opt Shm_pool_destroy (o_current_shm_pool (ws_outputs st4 ! i)) st4
      in upd_out i (\<lambda>out. out\<lparr>o_current_shm_pool := None\<rparr>) st5)"

definition detach_output :: "nat \<Rightarrow> wp_wl_state \<Rightarrow> wp_wl_state" where
  "detach_output i st = release_slots i (unbind_output i st)"

definition wp_wl_detach :: "wp_wl_state \<Rightarrow> wp_wl_state" where
  "wp_wl_detach st = foldl (\<lambda>s i. detach_output i s) st [0..<length (ws_outputs st)]"

definition frame_callback_done :: "wl_env \<Rightarrow> nat \<Rightarrow> wp_wl_state \<Rightarrow> wp_wl_state" where
  "frame_callback_done env i st =
     wp_wl_refresh_buffer env i
       (upd_out i (\<lambda>out. out\<lparr>o_pending_callbacks := o_pending_callbacks out - 1\<rparr>) st)"

section \<open>The debug overlay (state.c)\<close>

definition wp_wl_ensure_debug_surface :: "wp_wl_state \<Rightarrow> wp_wl_state" where
  "wp_wl_ensure_debug_surface st =
     (if ws_debug_surface st then st
      else if \<not> ws_subcompositor st then st
      else if ws_outputs st = [] \<or> \<not> o_surface (ws_outputs st ! 0) then st
      else let dh = sint (o_configured_height (ws_outputs st ! 0)) - WP_DEBUG_OVERLAY_HEIGHT;
               y = (if dh < 0 then 0 else dh div 2)
           in (req Debug_commit (req (Debug_create_subsurface 12 y) st))\<lparr>ws_debug_surface := True\<rparr>)"

definition wp_wl_set_debug_enabled :: "bool \<Rightarrow> wp_wl_state \<Rightarrow> wp_wl_state" where
  "wp_wl_set_debug_enabled enabled st0 =
     (let st = st0\<lparr>ws_debug_enabled := enabled\<rparr> in
      if enabled then
        (let st1 = wp_wl_ensure_debug_surface st
         in st1\<lparr>ws_debug_throttle := wp_debug_throttle_reset (ws_debug_throttle st1)\<rparr>)
      else if ws_debug_surface st then req Debug_commit (req (Debug_attach None) st)
      else st)"

text \<open>
  The rendered panel itself is not part of the state; \<open>render_in_bounds\<close> is about it. The
  memory file takes 100800 bytes.
\<close>

definition wp_wl_draw_debug_overlay :: "wl_env \<Rightarrow> wp_wl_state \<Rightarrow> wp_wl_state" where
  "wp_wl_draw_debug_overlay env st0 =
     (let st = wp_wl_ensure_debug_surface st0 in
      if \<not> ws_debug_surface st \<or> \<not> ws_shm st then st
      else if we_memfd env < 0 then st
      else if \<not> we_memfd_written env then ws_close (we_memfd env) st
      else case fresh st of (pool, st1) \<Rightarrow>
           case fresh st1 of (b, st2) \<Rightarrow>
           let st3 = req (Shm_create_buffer b pool 210 120 840)
                       (req (Shm_create_pool pool (we_memfd env) 100800) st2);
               st4 = req Debug_commit (req Debug_damage (req (Debug_attach (Some b)) st3));
               st5 = (req_opt Shm_pool_destroy (ws_debug_shm_pool st4) st4)\<lparr>ws_debug_shm_pool := Some pool\<rparr>;
               st6 = (req_opt Buffer_destroy (ws_debug_shm_buffer st5) st5)\<lparr>ws_debug_shm_buffer := Some b\<rparr>;
               st7 = (case ws_debug_shm_fd st6 of None \<Rightarrow> st6 | Some d \<Rightarrow> ws_close d st6)
           in st7\<lparr>ws_debug_shm_fd := Some (we_memfd env)\<rparr>)"

definition wp_wl_maybe_redraw_debug :: "wl_env \<Rightarrow> wp_wl_state \<Rightarrow> wp_wl_state" where
  "wp_wl_maybe_redraw_debug env st =
     (case wp_debug_throttle_should_redraw (we_now env) (ws_debug_throttle st) of (b, th) \<Rightarrow>
        let st1 = st\<lparr>ws_debug_throttle := th\<rparr>
        in if b then wp_wl_draw_debug_overlay env st1 else st1)"

end
