(* ===== verification/WP_Wl_Inv.thy ===== *)
theory WP_Wl_Inv
  imports WP_Wl_State
begin

text \<open>
  What the portal keeps true of its outputs. The facts that the channel binding and the slot
  tables depend on are the \<open>core\<close> of an output: whether it is known and has a surface, the
  channel it is bound to, and its slots. Presenting buffers, the frame loop and the debug overlay do
  not touch cores; binding, unbinding, filling and freeing slots act on one core. The invariant
  \<open>wl_inv\<close> is stated on cores, kept by every event handler, and so holds in every state that
  \<open>wl_step\<close> reaches from the initial one.
\<close>

section \<open>Cores\<close>

record wl_core =
  c_known :: bool
  c_surface :: bool
  c_bound :: "u32 option"
  c_slots :: "wp_wl_slot list"

definition core :: "wp_wl_output \<Rightarrow> wl_core" where
  "core out = \<lparr>c_known = o_known out, c_surface = o_surface out,
     c_bound = (if o_has_bound_channel out then Some (o_bound_channel out) else None),
     c_slots = o_slots out\<rparr>"

definition cores :: "wp_wl_state \<Rightarrow> wl_core list" where
  "cores st = map core (ws_outputs st)"

definition local_idx :: "u32 \<Rightarrow> nat" where
  "local_idx s = unat (s mod WP_WL_CAPTURE_SLOT_COUNT)"

definition channel_of :: "u32 \<Rightarrow> u32" where
  "channel_of s = s div WP_WL_CAPTURE_SLOT_COUNT"

definition core_inv :: "wl_core \<Rightarrow> bool" where
  "core_inv c \<longleftrightarrow> length (c_slots c) = 3 \<and> (c_known c \<longrightarrow> c_surface c) \<and>
     (\<forall>ch. c_bound c = Some ch \<longrightarrow> c_known c \<and> ch < WP_WL_MAX_CAPTURE_CHANNELS) \<and>
     (\<forall>k < 3. sl_in_use (c_slots c ! k) \<longrightarrow>
        local_idx (sl_slot (c_slots c ! k)) = k \<and> c_bound c = Some (channel_of (sl_slot (c_slots c ! k))))"

definition cores_inv :: "wl_core list \<Rightarrow> bool" where
  "cores_inv cs \<longleftrightarrow> length cs \<le> WP_WL_MAX_OUTPUTS \<and> (\<forall>c \<in> set cs. core_inv c) \<and>
     (\<forall>i < length cs. \<forall>j < length cs. c_bound (cs ! i) \<noteq> None \<longrightarrow>
        c_bound (cs ! i) = c_bound (cs ! j) \<longrightarrow> i = j)"

definition wl_inv :: "wp_wl_state \<Rightarrow> bool" where
  "wl_inv st \<longleftrightarrow> cores_inv (cores st)"

definition put_slot :: "u32 \<Rightarrow> wp_wl_slot \<Rightarrow> wl_core \<Rightarrow> wl_core" where
  "put_slot s sl c = c\<lparr>c_slots := (c_slots c)[local_idx s := sl]\<rparr>"

definition free_slot :: "u32 \<Rightarrow> wl_core \<Rightarrow> wl_core" where
  "free_slot s c = put_slot s ((c_slots c ! local_idx s)\<lparr>sl_in_use := False\<rparr>) c"

section \<open>How the operations act on cores\<close>

lemma cores_req [simp]: "cores (req r st) = cores st"
  by (simp add: cores_def req_def)

lemma cores_req_opt [simp]: "cores (req_opt r x st) = cores st"
  by (simp add: req_opt_def split: option.splits)

lemma cores_close [simp]: "cores (ws_close d st) = cores st"
  by (simp add: cores_def ws_close_def)

lemma cores_misc [simp]:
  "cores (st\<lparr>ws_stats := x\<rparr>) = cores st" "cores (st\<lparr>ws_next_id := n\<rparr>) = cores st"
  "cores (st\<lparr>ws_debug_throttle := th\<rparr>) = cores st" "cores (st\<lparr>ws_debug_enabled := b\<rparr>) = cores st"
  "cores (st\<lparr>ws_debug_surface := b\<rparr>) = cores st" "cores (st\<lparr>ws_debug_shm_pool := p\<rparr>) = cores st"
  "cores (st\<lparr>ws_debug_shm_buffer := p\<rparr>) = cores st" "cores (st\<lparr>ws_debug_shm_fd := q\<rparr>) = cores st"
  "cores (st\<lparr>ws_compositor := b\<rparr>) = cores st" "cores (st\<lparr>ws_layer_shell := b\<rparr>) = cores st"
  "cores (st\<lparr>ws_dmabuf := b\<rparr>) = cores st" "cores (st\<lparr>ws_viewporter := b\<rparr>) = cores st"
  "cores (st\<lparr>ws_shm := b\<rparr>) = cores st" "cores (st\<lparr>ws_subcompositor := b\<rparr>) = cores st"
  by (simp_all add: cores_def)

lemma cores_fresh [simp]: "cores (snd (fresh st)) = cores st"
  by (simp add: fresh_def)

lemma length_cores [simp]: "length (cores st) = length (ws_outputs st)"
  by (simp add: cores_def)

lemma cores_nth: "i < length (ws_outputs st) \<Longrightarrow> cores st ! i = core (ws_outputs st ! i)"
  by (simp add: cores_def)

lemma cores_upd_out:
  "cores (upd_out i f st) = (cores st)[i := core (f (ws_outputs st ! i))]"
  by (simp add: cores_def upd_out_def map_update)

lemma cores_upd_out_same:
  assumes "core (f (ws_outputs st ! i)) = core (ws_outputs st ! i)"
  shows "cores (upd_out i f st) = cores st"
proof (cases "i < length (ws_outputs st)")
  case True
  then show ?thesis by (simp add: cores_upd_out assms cores_nth [symmetric])
next
  case False
  then show ?thesis by (simp add: cores_upd_out list_update_beyond)
qed

lemma core_updates [simp]:
  "core (out\<lparr>o_pending_callbacks := n\<rparr>) = core out"
  "core (out\<lparr>o_current_shm_buffer := b\<rparr>) = core out"
  "core (out\<lparr>o_current_shm_pool := b\<rparr>) = core out"
  "core (out\<lparr>o_frame_loop_running := r\<rparr>) = core out"
  "core (out\<lparr>o_current_source := s\<rparr>) = core out"
  "core (out\<lparr>o_has_current_source := h\<rparr>) = core out"
  "core (out\<lparr>o_x := x\<rparr>) = core out"
  "core (out\<lparr>o_y := x\<rparr>) = core out"
  "core (out\<lparr>o_width := w\<rparr>) = core out"
  "core (out\<lparr>o_height := w\<rparr>) = core out"
  "core (out\<lparr>o_scale := z\<rparr>) = core out"
  "core (out\<lparr>o_viewport := v\<rparr>) = core out"
  "core (out\<lparr>o_layer_surface := v\<rparr>) = core out"
  "core (out\<lparr>o_configured_width := w\<rparr>) = core out"
  "core (out\<lparr>o_configured_height := w\<rparr>) = core out"
  by (simp_all add: core_def)

lemma cores_present_buffer [simp]: "cores (present_buffer env i b w h n st) = cores st"
  by (simp add: present_buffer_def Let_def wp_wl_request_frame_callback_def cores_upd_out_same)

lemma cores_refresh_buffer [simp]: "cores (wp_wl_refresh_buffer env i st) = cores st"
  by (simp add: wp_wl_refresh_buffer_def Let_def fresh_def cores_upd_out_same split: wp_wl_source.splits)

lemma cores_set_current_source [simp]: "cores (wp_wl_set_current_source env i s st) = cores st"
  by (simp add: wp_wl_set_current_source_def Let_def cores_upd_out_same)

lemma cores_frame_callback_done [simp]: "cores (frame_callback_done env i st) = cores st"
  by (simp add: frame_callback_done_def cores_upd_out_same)

lemma cores_ensure_debug_surface [simp]: "cores (wp_wl_ensure_debug_surface st) = cores st"
  by (simp add: wp_wl_ensure_debug_surface_def Let_def)

lemma cores_set_debug_enabled [simp]: "cores (wp_wl_set_debug_enabled b st) = cores st"
  by (simp add: wp_wl_set_debug_enabled_def Let_def)

lemma cores_draw_debug_overlay [simp]: "cores (wp_wl_draw_debug_overlay env st) = cores st"
  by (simp add: wp_wl_draw_debug_overlay_def Let_def fresh_def split: option.splits)

lemma cores_maybe_redraw_debug [simp]: "cores (wp_wl_maybe_redraw_debug env st) = cores st"
  by (simp add: wp_wl_maybe_redraw_debug_def Let_def split: prod.splits)

lemma cores_close_all [simp]: "cores (close_all ds st) = cores st"
  by (induction ds arbitrary: st) (simp_all add: close_all_def)

lemma core_upd_slot: "core (upd_slot s f out) = put_slot s (f (o_slots out ! local_idx s)) (core out)"
  by (simp add: core_def upd_slot_def put_slot_def local_idx_def Let_def)

lemma slot_of_core: "slot_of out s = c_slots (core out) ! local_idx s"
  by (simp add: slot_of_def core_def local_idx_def)

lemma core_bind_channel: "core (bind_channel ch out) = (core out)\<lparr>c_bound := Some ch\<rparr>"
  by (simp add: core_def bind_channel_def)

lemma slot_idle: "\<not> sl_in_use sl \<Longrightarrow> sl\<lparr>sl_in_use := False\<rparr> = sl"
  by (cases sl) simp

lemma free_slot_idle: "\<not> sl_in_use (c_slots c ! local_idx s) \<Longrightarrow> free_slot s c = c"
  by (simp add: free_slot_def put_slot_def slot_idle)

lemma cores_release_slot:
  assumes "i < length (ws_outputs st)"
  shows "cores (release_slot i s st) = (cores st)[i := free_slot s (cores st ! i)]"
proof (cases "sl_in_use (slot_of (ws_outputs st ! i) s)")
  case True
  then show ?thesis
    using assms
    by (simp add: release_slot_def Let_def cores_upd_out core_upd_slot free_slot_def cores_nth)
      (simp add: core_def req_def ws_close_def)
next
  case False
  then show ?thesis
    using assms
    by (simp add: release_slot_def Let_def free_slot_idle cores_nth slot_of_core)
      (simp add: cores_nth [symmetric])
qed

lemma length_outputs_release_slot [simp]: "length (ws_outputs (release_slot i s st)) = length (ws_outputs st)"
  by (simp add: release_slot_def Let_def upd_out_def ws_close_def req_def)

lemma cores_put:
  assumes "i < length (ws_outputs st)"
  shows "cores (upd_out i (upd_slot s (\<lambda>_. sl)) st) = (cores st)[i := put_slot s sl (cores st ! i)]"
  using assms by (simp add: cores_upd_out core_upd_slot cores_nth)

section \<open>Claiming an output\<close>

lemma leftmost_free_upto:
  fixes outs :: "wp_wl_output list"
  defines "f \<equiv> \<lambda>best i.
        if \<not> o_known (outs ! i) \<or> o_has_bound_channel (outs ! i) then best
        else case best of None \<Rightarrow> Some i
             | Some b \<Rightarrow> if sint (o_x (outs ! i)) < sint (o_x (outs ! b)) then Some i else Some b"
  shows "case foldl f None [0..<n] of
      None \<Rightarrow> \<forall>j < n. \<not> (o_known (outs ! j) \<and> \<not> o_has_bound_channel (outs ! j))
    | Some b \<Rightarrow> b < n \<and> o_known (outs ! b) \<and> \<not> o_has_bound_channel (outs ! b) \<and>
        (\<forall>j < n. o_known (outs ! j) \<and> \<not> o_has_bound_channel (outs ! j) \<longrightarrow>
           sint (o_x (outs ! b)) \<le> sint (o_x (outs ! j)))"
proof (induction n)
  case 0
  then show ?case by simp
next
  case (Suc n)
  then show ?case
    by (cases "foldl f None [0..<n]") (fastforce simp: f_def less_Suc_eq)+
qed

lemma leftmost_free_Some:
  "leftmost_free outs = Some b \<Longrightarrow>
     b < length outs \<and> o_known (outs ! b) \<and> \<not> o_has_bound_channel (outs ! b) \<and>
     (\<forall>j < length outs. o_known (outs ! j) \<and> \<not> o_has_bound_channel (outs ! j) \<longrightarrow>
        sint (o_x (outs ! b)) \<le> sint (o_x (outs ! j)))"
  using leftmost_free_upto [where outs = outs and n = "length outs"] by (simp add: leftmost_free_def)

lemma leftmost_free_None:
  "leftmost_free outs = None \<Longrightarrow> j < length outs \<Longrightarrow> o_known (outs ! j) \<Longrightarrow> o_has_bound_channel (outs ! j)"
  using leftmost_free_upto [where outs = outs and n = "length outs"] by (auto simp: leftmost_free_def)

lemma find_output_Some:
  "find_output_for_channel st ch = Some i \<Longrightarrow> i < length (ws_outputs st) \<and> c_bound (cores st ! i) = Some ch"
  by (auto simp: find_output_for_channel_def cores_nth core_def dest!: find_index_Some)

lemma find_output_None: "find_output_for_channel st ch = None \<Longrightarrow> \<forall>c \<in> set (cores st). c_bound c \<noteq> Some ch"
  by (auto simp: find_output_for_channel_def cores_def core_def find_index_None)

lemma find_output_unique:
  assumes "wl_inv st" and "i < length (ws_outputs st)" and "c_bound (cores st ! i) = Some ch"
  shows "find_output_for_channel st ch = Some i"
proof -
  obtain j where j: "find_output_for_channel st ch = Some j"
    using find_output_None [of st ch] assms(2,3) by (metis length_cores nth_mem option.exhaust)
  from find_output_Some [OF j] assms have "j = i" by (auto simp: wl_inv_def cores_inv_def)
  with j show ?thesis by simp
qed

text \<open>What a claim does: it binds the channel on one known and unbound output, or nothing.\<close>

definition claims :: "u32 \<Rightarrow> wp_wl_state \<Rightarrow> nat option \<times> wp_wl_state \<Rightarrow> bool" where
  "claims ch st r \<longleftrightarrow>
     (case r of (None, st') \<Rightarrow> st' = st
      | (Some i, st') \<Rightarrow> i < length (ws_outputs st) \<and> o_known (ws_outputs st ! i) \<and>
          \<not> o_has_bound_channel (ws_outputs st ! i) \<and> st' = upd_out i (bind_channel ch) st)"

lemma claim_position: "claims ch st (claim_output_for_position ch x y st)"
  by (auto simp: claims_def claim_output_for_position_def dest!: find_index_Some split: option.splits)

lemma claim_size: "claims ch st (claim_output_for_size ch w h st)"
  by (auto simp: claims_def claim_output_for_size_def dest!: find_index_Some leftmost_free_Some
      split: option.splits)

lemma output_for_buf_cases:
  assumes "output_for_buf ch w h g x y st = (r, st')"
  obtains (bound) i where "find_output_for_channel st ch = Some i" "r = Some i" "st' = st"
    | (claimed) "find_output_for_channel st ch = None" "claims ch st (r, st')"
proof (cases "find_output_for_channel st ch")
  case (Some i)
  with assms show ?thesis by (intro bound [of i]) (simp_all add: output_for_buf_def)
next
  case None
  have "claims ch st (r, st')"
  proof (cases g)
    case True
    with assms None claim_position [of ch st x y] claim_size [of ch st w h] show ?thesis
      by (auto simp: output_for_buf_def claims_def split: prod.splits option.splits)
  next
    case False
    with assms None claim_size [of ch st w h] show ?thesis by (simp add: output_for_buf_def)
  qed
  with None show ?thesis by (rule claimed)
qed

section \<open>Core invariants\<close>

lemma local_idx_less [simp]: "local_idx s < 3"
proof -
  have "unat (s mod WP_WL_CAPTURE_SLOT_COUNT) = unat s mod 3"
    by (simp add: unat_mod WP_WL_CAPTURE_SLOT_COUNT_def)
  then show ?thesis by (simp add: local_idx_def)
qed

lemma cores_inv_upd:
  assumes "cores_inv cs" and "i < length cs" and "core_inv c"
    and "c_bound c = None \<or> c_bound c = c_bound (cs ! i) \<or> (\<forall>d \<in> set cs. c_bound d \<noteq> c_bound c)"
  shows "cores_inv (cs[i := c])"
proof -
  have "\<forall>d \<in> set (cs[i := c]). core_inv d"
    using assms(1,3) by (auto simp: cores_inv_def dest!: set_update_subset_insert [THEN subsetD])
  moreover have "\<forall>k < length cs. \<forall>j < length cs. c_bound (cs[i := c] ! k) \<noteq> None \<longrightarrow>
      c_bound (cs[i := c] ! k) = c_bound (cs[i := c] ! j) \<longrightarrow> k = j"
    using assms by (auto simp: cores_inv_def nth_list_update split: if_splits) (metis nth_mem)+
  ultimately show ?thesis using assms(1) unfolding cores_inv_def by simp
qed

lemma core_inv_put:
  assumes "core_inv c" and "sl_in_use sl \<longrightarrow> sl_slot sl = s \<and> c_bound c = Some (channel_of s)"
  shows "core_inv (put_slot s sl c)"
  using assms by (auto simp: core_inv_def put_slot_def nth_list_update)

lemma core_inv_free: "core_inv c \<Longrightarrow> core_inv (free_slot s c)"
  by (simp add: free_slot_def core_inv_put)

lemma core_inv_unbound_idle: "core_inv c \<Longrightarrow> c_bound c = None \<Longrightarrow> k < 3 \<Longrightarrow> \<not> sl_in_use (c_slots c ! k)"
  by (auto simp: core_inv_def)

lemma core_inv_bind:
  "core_inv c \<Longrightarrow> c_bound c = None \<Longrightarrow> c_known c \<Longrightarrow> ch < WP_WL_MAX_CAPTURE_CHANNELS \<Longrightarrow>
   core_inv (c\<lparr>c_bound := Some ch\<rparr>)"
  by (auto simp: core_inv_def)

lemma c_bound_put [simp]: "c_bound (put_slot s sl c) = c_bound c" "c_bound (free_slot s c) = c_bound c"
  by (simp_all add: put_slot_def free_slot_def)

lemma wl_inv_core: "wl_inv st \<Longrightarrow> i < length (ws_outputs st) \<Longrightarrow> core_inv (cores st ! i)"
  by (auto simp: wl_inv_def cores_inv_def)

lemma wl_inv_upd_core:
  assumes "wl_inv st" and "i < length (ws_outputs st)" and "core_inv c"
    and "c_bound c = c_bound (cores st ! i)" and "cores st' = (cores st)[i := c]"
  shows "wl_inv st'"
  using assms cores_inv_upd [of "cores st" i c] by (simp add: wl_inv_def)

lemma wl_inv_claimed:
  assumes "wl_inv st" and "claims ch st (Some i, st')" and "find_output_for_channel st ch = None"
    and "ch < WP_WL_MAX_CAPTURE_CHANNELS"
  shows "wl_inv st' \<and> i < length (ws_outputs st') \<and> c_bound (cores st' ! i) = Some ch"
proof -
  from assms(2) have i: "i < length (ws_outputs st)" and k: "o_known (ws_outputs st ! i)"
    and u: "\<not> o_has_bound_channel (ws_outputs st ! i)" and st': "st' = upd_out i (bind_channel ch) st"
    by (simp_all add: claims_def)
  let ?c = "(cores st ! i)\<lparr>c_bound := Some ch\<rparr>"
  have cs: "cores st' = (cores st)[i := ?c]"
    using i by (simp add: st' cores_upd_out core_bind_channel cores_nth)
  have "core_inv ?c"
    using assms(4) by (intro core_inv_bind wl_inv_core [OF assms(1) i])
      (use i k u in \<open>simp_all add: cores_nth core_def\<close>)
  then have "cores_inv (cores st')"
    unfolding cs using assms(1) i find_output_None [OF assms(3)]
    by (intro cores_inv_upd) (simp_all add: wl_inv_def)
  moreover have "length (ws_outputs st') = length (ws_outputs st)" by (simp add: st' upd_out_def)
  ultimately show ?thesis using i cs by (simp add: wl_inv_def)
qed

lemma output_for_buf_inv:
  assumes "wl_inv st" and "ch < WP_WL_MAX_CAPTURE_CHANNELS"
    and "output_for_buf ch w h g x y st = (Some i, st')"
  shows "wl_inv st' \<and> i < length (ws_outputs st') \<and> c_bound (cores st' ! i) = Some ch"
  using assms(3)
proof (cases rule: output_for_buf_cases)
  case (bound j)
  then show ?thesis using assms(1) find_output_Some [of st ch j] by simp
next
  case claimed
  then show ?thesis using wl_inv_claimed [OF assms(1)] assms(2) by blast
qed

lemma output_for_buf_none: "output_for_buf ch w h g x y st = (None, st') \<Longrightarrow> st' = st"
  by (erule output_for_buf_cases) (simp_all add: claims_def)

end
