(* ===== verification/WP_Wl_Steps.thy ===== *)
theory WP_Wl_Steps
  imports WP_Wl_Inv
begin

text \<open>
  The portal as a transition system: \<open>wl_step\<close> has one rule per callback or message the main loop
  of \<^verbatim>\<open>run.c\<close> dispatches, \<open>wl_reachable\<close> is what those reach from the initial state. The
  invariant of \<open>WP_Wl_Inv\<close> holds in every reachable state; from it follow that a channel has
  one output, that what is presented is the buffer registered for the announced slot, and that
  every descriptor received is either in one slot or closed once (the ledger).
\<close>

section \<open>The step relation\<close>

definition has_fd :: "wp_capture_event \<Rightarrow> bool" where
  "has_fd ev \<longleftrightarrow> ev_tag ev = WP_CAPTURE_EVENT_FRAME \<or> ev_fds ev \<noteq> []"

inductive wl_step :: "wp_wl_state \<Rightarrow> wp_wl_state \<Rightarrow> bool" where
  global: "wl_step st (registry_global itf version st)"
| configure: "i < length (ws_outputs st) \<Longrightarrow> o_layer_surface (ws_outputs st ! i) \<Longrightarrow>
     wl_step st (layer_surface_configure i serial w h st)"
| geometry: "i < length (ws_outputs st) \<Longrightarrow> wl_step st (output_geometry i x y st)"
| mode: "i < length (ws_outputs st) \<Longrightarrow> wl_step st (output_mode i flags mw mh st)"
| scale: "i < length (ws_outputs st) \<Longrightarrow> wl_step st (output_scale i factor st)"
| output_done: "i < length (ws_outputs st) \<Longrightarrow> wl_step st (output_done i st)"
| frame_done: "i < length (ws_outputs st) \<Longrightarrow> 0 < o_pending_callbacks (ws_outputs st ! i) \<Longrightarrow>
     wl_step st (frame_callback_done env i st)"
| capture: "has_fd ev \<Longrightarrow> wl_step st (wp_wl_handle_capture_event env ev st)"
| detach: "wl_step st (wp_wl_detach st)"
| set_debug: "wl_step st (wp_wl_set_debug_enabled b st)"
| redraw: "ws_debug_enabled st \<Longrightarrow> wl_step st (wp_wl_maybe_redraw_debug env st)"

inductive_cases wl_stepE: "wl_step st st'"

definition wl_reachable :: "wp_wl_state \<Rightarrow> bool" where
  "wl_reachable st \<longleftrightarrow> wl_step\<^sup>*\<^sup>* initial_state st"

section \<open>Cores under the remaining handlers\<close>

lemma cores_output_events [simp]:
  "cores (layer_surface_configure i s w h st) = cores st"
  "cores (output_geometry i x y st) = cores st"
  "cores (output_mode i fl mw mh st) = cores st"
  "cores (output_scale i f st) = cores st"
  by (simp_all add: layer_surface_configure_def output_geometry_def output_mode_def output_scale_def
      cores_upd_out_same)

lemma core_flags [simp]:
  "core (out\<lparr>o_surface := b\<rparr>) = (core out)\<lparr>c_surface := b\<rparr>"
  "core (out\<lparr>o_known := b\<rparr>) = (core out)\<lparr>c_known := b\<rparr>"
  "core (out\<lparr>o_has_bound_channel := False\<rparr>) = (core out)\<lparr>c_bound := None\<rparr>"
  by (simp_all add: core_def)

lemma ws_outputs_req [simp]: "ws_outputs (req r st) = ws_outputs st"
  by (simp add: req_def)

lemma ws_outputs_req_opt [simp]: "ws_outputs (req_opt r x st) = ws_outputs st"
  by (simp add: req_opt_def split: option.splits)

lemma ws_outputs_close [simp]: "ws_outputs (ws_close d st) = ws_outputs st"
  by (simp add: ws_close_def)

lemma length_outputs_upd_out [simp]: "length (ws_outputs (upd_out i f st)) = length (ws_outputs st)"
  by (simp add: upd_out_def)

lemma outputs_upd_out: "ws_outputs (upd_out i f st) = (ws_outputs st)[i := f (ws_outputs st ! i)]"
  by (simp add: upd_out_def)

lemma cores_output_ready:
  assumes "i < length (ws_outputs st)"
  shows "cores (wp_wl_output_ready i st) = (cores st)[i := (cores st ! i)\<lparr>c_surface := True\<rparr>]"
proof (cases "o_surface (ws_outputs st ! i)")
  case True
  then have "(cores st ! i)\<lparr>c_surface := True\<rparr> = cores st ! i"
    using assms by (simp add: cores_nth core_def)
  with True show ?thesis by (simp add: wp_wl_output_ready_def)
next
  case False
  then show ?thesis
    using assms by (simp add: wp_wl_output_ready_def Let_def cores_upd_out_same cores_upd_out cores_nth outputs_upd_out)
qed

lemma cores_output_done:
  assumes "i < length (ws_outputs st)"
  shows "cores (output_done i st) = (cores st)[i := (cores st ! i)\<lparr>c_known := True, c_surface := True\<rparr>]"
  using assms by (simp add: output_done_def cores_output_ready cores_upd_out cores_nth)

lemma cores_add_output:
  "cores (snd (wp_wl_add_output st)) =
     (if WP_WL_MAX_OUTPUTS \<le> length (ws_outputs st) then cores st else cores st @ [core zero_output])"
  by (simp add: wp_wl_add_output_def cores_def core_def)

lemma cores_release_slots:
  assumes "i < length (ws_outputs st)"
  shows "cores (release_slots i st) = (cores st)[i := free_slot 2 (free_slot 1 (free_slot 0 (cores st ! i)))]"
  using assms by (simp add: release_slots_def cores_release_slot)

text \<open>What a detach leaves of a core: no channel, no slot in use.\<close>

definition clear_core :: "wl_core \<Rightarrow> wl_core" where
  "clear_core c = free_slot 2 (free_slot 1 (free_slot 0 (c\<lparr>c_bound := None\<rparr>)))"

lemma cores_unbind_output:
  assumes "i < length (ws_outputs st)"
  shows "cores (unbind_output i st) = (cores st)[i := (cores st ! i)\<lparr>c_bound := None\<rparr>]"
  using assms
  by (simp add: unbind_output_def Let_def cores_upd_out_same cores_upd_out cores_nth outputs_upd_out)

lemma length_unbind_output [simp]: "length (ws_outputs (unbind_output i st)) = length (ws_outputs st)"
  by (simp add: unbind_output_def Let_def)

lemma cores_detach_output:
  assumes "i < length (ws_outputs st)"
  shows "cores (detach_output i st) = (cores st)[i := clear_core (cores st ! i)]"
  using assms by (simp add: detach_output_def cores_release_slots cores_unbind_output clear_core_def)

lemma foldl_upd_map:
  assumes "\<And>i s. i < length (g s) \<Longrightarrow> g (f s i) = (g s)[i := h (g s ! i)]" and "n \<le> length (g s)"
  shows "g (foldl f s [0..<n]) = map h (take n (g s)) @ drop n (g s)"
  using assms(2)
proof (induction n)
  case (Suc n)
  let ?t = "foldl f s [0..<n]"
  from Suc have IH: "g ?t = map h (take n (g s)) @ drop n (g s)" by simp
  with Suc.prems have "g ?t ! n = g s ! n" and "n < length (g ?t)"
    by (simp_all add: nth_append)
  moreover have "(map h (take n (g s)) @ drop n (g s))[n := h (g s ! n)] =
      map h (take (Suc n) (g s)) @ drop (Suc n) (g s)"
    using Suc.prems
    by (simp add: list_update_append Cons_nth_drop_Suc [symmetric] take_Suc_conv_app_nth)
  ultimately show ?case by (simp add: assms(1) IH)
qed simp

lemma cores_detach: "cores (wp_wl_detach st) = map clear_core (cores st)"
  using foldl_upd_map [of cores "\<lambda>s i. detach_output i s" clear_core "length (ws_outputs st)" st]
  by (simp add: wp_wl_detach_def cores_detach_output)

section \<open>Every handler keeps the invariant\<close>

lemma all_slots: "(\<forall>k < 3. P k) \<longleftrightarrow> P 0 \<and> P 1 \<and> P (2 :: nat)"
  by (auto simp: numeral_3_eq_3 less_Suc_eq numeral_2_eq_2)

lemma local_idx_const [simp]: "local_idx 0 = 0" "local_idx 1 = 1" "local_idx 2 = 2"
  by (simp_all add: local_idx_def WP_WL_CAPTURE_SLOT_COUNT_def)

lemma core_inv_zero: "core_inv (core zero_output)"
  by (simp add: core_inv_def core_def zero_output_def zero_slot_def all_slots)

definition idle :: "wp_wl_slot \<Rightarrow> wp_wl_slot" where
  "idle sl = sl\<lparr>sl_in_use := False\<rparr>"

lemma clear_core_fields [simp]:
  "c_known (clear_core c) = c_known c" "c_surface (clear_core c) = c_surface c"
  "c_bound (clear_core c) = None"
  by (simp_all add: clear_core_def free_slot_def put_slot_def)

lemma c_slots_clear_core:
  assumes "length (c_slots c) = 3"
  shows "c_slots (clear_core c) = map idle (c_slots c)"
proof -
  from assms obtain a b d where "c_slots c = [a, b, d]"
    by (auto simp: numeral_3_eq_3 length_Suc_conv)
  then show ?thesis by (simp add: clear_core_def free_slot_def put_slot_def idle_def)
qed

lemma core_inv_clear: "core_inv c \<Longrightarrow> core_inv (clear_core c)"
  by (auto simp: core_inv_def c_slots_clear_core idle_def)

lemma wl_inv_initial: "wl_inv initial_state"
  by (simp add: wl_inv_def cores_inv_def cores_def initial_state_def)

lemma wl_inv_cong: "cores st' = cores st \<Longrightarrow> wl_inv st' \<longleftrightarrow> wl_inv st"
  by (simp add: wl_inv_def)

lemma wl_inv_detach: "wl_inv st \<Longrightarrow> wl_inv (wp_wl_detach st)"
  by (auto simp: wl_inv_def cores_inv_def cores_detach core_inv_clear)

lemma wl_inv_output_done:
  assumes "wl_inv st" and "i < length (ws_outputs st)"
  shows "wl_inv (output_done i st)"
  using wl_inv_core [OF assms]
  by (intro wl_inv_upd_core [OF assms _ _ cores_output_done [OF assms(2)]])
    (auto simp: core_inv_def)

lemma cores_inv_append:
  assumes "cores_inv cs" and "length cs < WP_WL_MAX_OUTPUTS" and "core_inv c" and "c_bound c = None"
  shows "cores_inv (cs @ [c])"
  using assms by (auto simp: cores_inv_def nth_append)

lemma wl_inv_global:
  assumes "wl_inv st"
  shows "wl_inv (registry_global itf version st)"
proof -
  have "wl_inv (snd (wp_wl_add_output st))"
    using assms cores_inv_append [of "cores st" "core zero_output"] core_inv_zero
    by (simp add: wl_inv_def cores_add_output core_def zero_output_def)
  with assms show ?thesis
    by (simp add: registry_global_def wl_inv_cong [of "st\<lparr>ws_compositor := True\<rparr>" st]
        wl_inv_cong [of "st\<lparr>ws_layer_shell := True\<rparr>" st] wl_inv_cong [of "st\<lparr>ws_dmabuf := True\<rparr>" st]
        wl_inv_cong [of "st\<lparr>ws_viewporter := True\<rparr>" st] wl_inv_cong [of "st\<lparr>ws_shm := True\<rparr>" st]
        wl_inv_cong [of "st\<lparr>ws_subcompositor := True\<rparr>" st] split: wl_interface.splits)
qed

lemma wl_inv_release_slot:
  "wl_inv st \<Longrightarrow> i < length (ws_outputs st) \<Longrightarrow> wl_inv (release_slot i s st)"
  by (rule wl_inv_upd_core [OF _ _ _ _ cores_release_slot]) (simp_all add: core_inv_free wl_inv_core)

text \<open>What importing a buffer changes: object numbers and requests only.\<close>

lemma create_dmabuf_cases:
  assumes "wp_wl_create_dmabuf_buffer env d w h p m st = (r, st')"
  shows "ws_outputs st' = ws_outputs st \<and> ws_closed st' = ws_closed st \<and> cores st' = cores st"
  using assms
  by (auto simp: wp_wl_create_dmabuf_buffer_def fresh_def req_def cores_def split: if_splits)

text \<open>
  The two ways a BUF message ends: its descriptor is closed, or it fills the slot of the output its
  channel is bound to and that slot becomes the output's source.
\<close>

lemma handle_buf_cases:
  assumes "wl_inv st"
  obtains
    (dropped) st1 where "handle_buf env s w h p m g x y d st = ws_close d st1" "cores st1 = cores st"
      "ws_closed st1 = ws_closed st"
  | (failed) i st1 st2 where "output_for_buf (channel_of s) w h g x y st = (Some i, st1)"
      "handle_buf env s w h p m g x y d st = ws_close d st2" "i < length (ws_outputs st1)" "wl_inv st1"
      "cores st2 = cores (release_slot i s st1)" "ws_closed st2 = ws_closed (release_slot i s st1)"
  | (stored) i b st1 st2 where "output_for_buf (channel_of s) w h g x y st = (Some i, st1)"
      "wp_wl_create_dmabuf_buffer env d w h p m (release_slot i s st1) = (Some b, st2)"
      "handle_buf env s w h p m g x y d st = wp_wl_set_current_source env i (WP_WL_SOURCE_SLOT s)
         (upd_out i (upd_slot s (\<lambda>_. \<lparr>sl_in_use = True, sl_slot = s, sl_buffer = b, sl_fd = d,
            sl_width = w, sl_height = h\<rparr>)) st2)" "i < length (ws_outputs st1)" "wl_inv st1"
      "c_bound (cores st1 ! i) = Some (channel_of s)"
      "cores st2 = cores (release_slot i s st1)" "ws_closed st2 = ws_closed (release_slot i s st1)"
proof -
  show ?thesis
  proof (cases "WP_WL_MAX_CAPTURE_CHANNELS \<le> channel_of s")
    case True
    then show ?thesis by (intro dropped [of st]) (simp_all add: handle_buf_def Let_def channel_of_def)
  next
    case False
    then have lt: "channel_of s < WP_WL_MAX_CAPTURE_CHANNELS" by simp
    obtain r st1 where o: "output_for_buf (channel_of s) w h g x y st = (r, st1)" by fastforce
    show ?thesis
    proof (cases r)
      case None
      with o output_for_buf_none have "st1 = st" by blast
      with False None o show ?thesis
        by (intro dropped [of st]) (simp_all add: handle_buf_def Let_def channel_of_def)
    next
      case (Some i)
      note inv = output_for_buf_inv [OF assms lt o [unfolded Some]]
      obtain q st2 where c: "wp_wl_create_dmabuf_buffer env d w h p m (release_slot i s st1) = (q, st2)"
        by fastforce
      note same = create_dmabuf_cases [OF c]
      show ?thesis
      proof (cases q)
        case None
        with False Some o c inv same show ?thesis
          by (intro failed [of i st1 st2]) (simp_all add: handle_buf_def Let_def channel_of_def)
      next
        case (Some b)
        with False \<open>r = Some i\<close> o c inv same show ?thesis
          by (intro stored [of i st1 b st2]) (simp_all add: handle_buf_def Let_def channel_of_def)
      qed
    qed
  qed
qed

lemma wl_inv_handle_buf:
  assumes "wl_inv st"
  shows "wl_inv (handle_buf env s w h p m g x y d st)"
  using assms
proof (cases rule: handle_buf_cases [of _ env s w h p m g x y d])
  case (dropped st1)
  with assms show ?thesis by (simp add: wl_inv_def)
next
  case (failed i st1 st2)
  with wl_inv_release_slot [of st1 i s] show ?thesis by (simp add: wl_inv_def)
next
  case (stored i b st1 st2)
  from stored(7) have len: "length (ws_outputs st2) = length (ws_outputs st1)"
    by (metis length_cores length_outputs_release_slot)
  let ?sl = "\<lparr>sl_in_use = True, sl_slot = s, sl_buffer = b, sl_fd = d, sl_width = w, sl_height = h\<rparr>"
  have inv2: "wl_inv st2"
    using wl_inv_release_slot [OF stored(5,4), of s] stored(7) by (simp add: wl_inv_def)
  have "c_bound (cores st2 ! i) = Some (channel_of s)"
    using stored(4,6,7) by (simp add: cores_release_slot)
  then have "wl_inv (upd_out i (upd_slot s (\<lambda>_. ?sl)) st2)"
    using stored(4) len inv2
    by (intro wl_inv_upd_core [OF _ _ _ _ cores_put]) (simp_all add: core_inv_put wl_inv_core)
  then show ?thesis by (simp add: stored(3) wl_inv_def)
qed

lemma wl_inv_capture_event:
  assumes "wl_inv st"
  shows "wl_inv (wp_wl_handle_capture_event env ev st)"
proof (cases "ev_tag ev")
  case WP_CAPTURE_EVENT_BUF
  moreover have "wl_inv (close_all ds (st\<lparr>ws_stats := x\<rparr>))" for ds x
    using assms by (simp add: wl_inv_def)
  ultimately show ?thesis by (simp add: wp_wl_handle_capture_event_def wl_inv_handle_buf)
qed (use assms in \<open>simp_all add: wp_wl_handle_capture_event_def Let_def wl_inv_def split: option.splits\<close>)

lemma wl_inv_step: "wl_step st st' \<Longrightarrow> wl_inv st \<Longrightarrow> wl_inv st'"
  by (induction rule: wl_step.induct)
    (simp_all add: wl_inv_global wl_inv_output_done wl_inv_capture_event wl_inv_detach
      wl_inv_cong [OF cores_output_events(1)] wl_inv_cong [OF cores_output_events(2)]
      wl_inv_cong [OF cores_output_events(3)] wl_inv_cong [OF cores_output_events(4)]
      wl_inv_cong [OF cores_frame_callback_done] wl_inv_cong [OF cores_set_debug_enabled]
      wl_inv_cong [OF cores_maybe_redraw_debug])

lemma wl_inv_reachable: "wl_reachable st \<Longrightarrow> wl_inv st"
  unfolding wl_reachable_def
  by (induction rule: rtranclp_induct) (simp_all add: wl_inv_initial wl_inv_step)

end
