(* ===== verification/WP_Wl_Ledger.thy ===== *)
theory WP_Wl_Ledger
  imports WP_Wl_Steps
begin

text \<open>
  Properties of a wlroots portal over all reachable states: which output a channel gets, what a
  FRAME message presents, that no descriptor is lost or closed twice on the dma-buf path, what a
  detach releases, and where the frame loop can stop for good. The \<open>ledger\<close> of a state is the
  multiset of the descriptors it has closed and of those its slots hold.
\<close>

section \<open>The ledger of descriptors\<close>

definition slot_fds :: "wp_wl_slot \<Rightarrow> fd multiset" where
  "slot_fds sl = (if sl_in_use sl then {#sl_fd sl#} else {#})"

definition held_core :: "wl_core \<Rightarrow> fd multiset" where
  "held_core c = sum_list (map slot_fds (c_slots c))"

definition held :: "wl_core list \<Rightarrow> fd multiset" where
  "held cs = sum_list (map held_core cs)"

definition ledger :: "wp_wl_state \<Rightarrow> fd multiset" where
  "ledger st = mset (ws_closed st) + held (cores st)"

lemma held_update: "i < length cs \<Longrightarrow> held (cs[i := c]) + held_core (cs ! i) = held cs + held_core c"
  unfolding held_def by (rule sum_list_update_add)

lemma held_core_put:
  assumes "length (c_slots c) = 3" and "\<not> sl_in_use (c_slots c ! local_idx s)"
  shows "held_core (put_slot s sl c) = held_core c + slot_fds sl"
  using assms sum_list_update_add [of "local_idx s" "c_slots c" slot_fds sl]
  by (simp add: held_core_def put_slot_def slot_fds_def)

lemma held_core_free:
  assumes "length (c_slots c) = 3"
  shows "held_core (free_slot s c) + slot_fds (c_slots c ! local_idx s) = held_core c"
  using assms sum_list_update_add [of "local_idx s" "c_slots c" slot_fds
      "(c_slots c ! local_idx s)\<lparr>sl_in_use := False\<rparr>"]
  by (simp add: held_core_def free_slot_def put_slot_def slot_fds_def)

lemma free_slot_frees:
  "length (c_slots c) = 3 \<Longrightarrow> \<not> sl_in_use (c_slots (free_slot s c) ! local_idx s)"
  by (simp add: free_slot_def put_slot_def)

lemma length_c_slots [simp]:
  "length (c_slots (put_slot s sl c)) = length (c_slots c)"
  "length (c_slots (free_slot s c)) = length (c_slots c)"
  by (simp_all add: put_slot_def free_slot_def)

definition slots3 :: "wp_wl_state \<Rightarrow> bool" where
  "slots3 st \<longleftrightarrow> (\<forall>c \<in> set (cores st). length (c_slots c) = 3)"

lemma slots3_nth: "slots3 st \<Longrightarrow> i < length (ws_outputs st) \<Longrightarrow> length (c_slots (cores st ! i)) = 3"
  by (simp add: slots3_def)

lemma wl_inv_slots3: "wl_inv st \<Longrightarrow> slots3 st"
  by (simp add: wl_inv_def cores_inv_def core_inv_def slots3_def)

lemma slots3_upd:
  "slots3 st \<Longrightarrow> length (c_slots c) = 3 \<Longrightarrow> cores st' = (cores st)[i := c] \<Longrightarrow> slots3 st'"
  by (auto simp: slots3_def dest!: set_update_subset_insert [THEN subsetD])

lemma ws_closed_simps [simp]:
  "ws_closed (req r st) = ws_closed st" "ws_closed (req_opt q x st) = ws_closed st"
  "ws_closed (upd_out i f st) = ws_closed st" "ws_closed (ws_close d st) = ws_closed st @ [d]"
  by (simp_all add: req_def req_opt_def upd_out_def ws_close_def split: option.splits)

lemma ledger_release_slot:
  assumes "slots3 st" and "i < length (ws_outputs st)"
  shows "ledger (release_slot i s st) = ledger st"
proof -
  let ?c = "cores st ! i" and ?sl = "slot_of (ws_outputs st ! i) s"
  have sl: "?sl = c_slots ?c ! local_idx s" using assms(2) by (simp add: slot_of_core cores_nth)
  have cl: "mset (ws_closed (release_slot i s st)) =
      mset (ws_closed st) + slot_fds ?sl"
    by (simp add: release_slot_def Let_def slot_fds_def)
  have "held (cores (release_slot i s st)) + held_core ?c = held (cores st) + held_core (free_slot s ?c)"
    using held_update [of i "cores st" "free_slot s ?c"] assms(2) by (simp add: cores_release_slot)
  then have "held (cores (release_slot i s st)) + slot_fds ?sl + held_core (free_slot s ?c) =
      held (cores st) + held_core (free_slot s ?c)"
    using held_core_free [OF slots3_nth [OF assms], of s] sl by (simp add: ac_simps)
  with cl show ?thesis by (simp add: ledger_def ac_simps)
qed

lemma ledger_bind:
  "claims ch st (Some i, st') \<Longrightarrow> ledger st' = ledger st"
proof -
  assume a: "claims ch st (Some i, st')"
  then have i: "i < length (ws_outputs st)" and st': "st' = upd_out i (bind_channel ch) st"
    by (simp_all add: claims_def)
  have "held_core ((cores st ! i)\<lparr>c_bound := Some ch\<rparr>) = held_core (cores st ! i)"
    by (simp add: held_core_def)
  then have "held ((cores st)[i := (cores st ! i)\<lparr>c_bound := Some ch\<rparr>]) = held (cores st)"
    using held_update [of i "cores st" "(cores st ! i)\<lparr>c_bound := Some ch\<rparr>"] i by simp
  then show ?thesis
    using i by (simp add: ledger_def st' cores_upd_out core_bind_channel cores_nth)
qed

lemma ledger_output_for_buf:
  assumes "output_for_buf ch w h g x y st = (Some i, st')"
  shows "ledger st' = ledger st"
  using assms by (cases rule: output_for_buf_cases) (simp_all add: ledger_bind)

lemma ws_closed_present [simp]: "ws_closed (present_buffer env i b w h n st) = ws_closed st"
  by (simp add: present_buffer_def Let_def wp_wl_request_frame_callback_def)

lemma ws_closed_refresh [simp]: "ws_closed (wp_wl_refresh_buffer env i st) = ws_closed st"
  by (simp add: wp_wl_refresh_buffer_def Let_def fresh_def split: wp_wl_source.splits)

lemma ws_closed_set_source [simp]: "ws_closed (wp_wl_set_current_source env i src st) = ws_closed st"
  by (simp add: wp_wl_set_current_source_def Let_def)

lemma ledger_close: "ledger (ws_close d st) = add_mset d (ledger st)"
  by (simp add: ledger_def)

lemma ledger_cong: "cores st' = cores st \<Longrightarrow> ws_closed st' = ws_closed st \<Longrightarrow> ledger st' = ledger st"
  by (simp add: ledger_def)

lemma ledger_handle_buf:
  assumes "wl_inv st"
  shows "ledger (handle_buf env s w h p m g x y d st) = add_mset d (ledger st)"
  using assms
proof (cases rule: handle_buf_cases [of _ env s w h p m g x y d])
  case (dropped st1)
  then show ?thesis by (simp add: ledger_close ledger_cong [of st1 st])
next
  case (failed i st1 st2)
  then show ?thesis
    by (simp add: ledger_close ledger_cong [of st2 "release_slot i s st1"] ledger_release_slot
        ledger_output_for_buf wl_inv_slots3)
next
  case (stored i b st1 st2)
  let ?sl = "\<lparr>sl_in_use = True, sl_slot = s, sl_buffer = b, sl_fd = d, sl_width = w, sl_height = h\<rparr>"
  let ?st3 = "upd_out i (upd_slot s (\<lambda>_. ?sl)) st2"
  from stored(7) have len: "length (ws_outputs st2) = length (ws_outputs st1)"
    by (metis length_cores length_outputs_release_slot)
  have c2: "cores st2 ! i = free_slot s (cores st1 ! i)"
    using stored(4,7) by (simp add: cores_release_slot)
  have inv: "length (c_slots (cores st1 ! i)) = 3"
    using slots3_nth wl_inv_slots3 stored(4,5) by blast
  have "held_core (put_slot s ?sl (cores st2 ! i)) = add_mset d (held_core (cores st2 ! i))"
    unfolding c2 by (simp add: held_core_put free_slot_frees inv slot_fds_def)
  then have "held (cores ?st3) = add_mset d (held (cores st2))"
    using held_update [of i "cores st2" "put_slot s ?sl (cores st2 ! i)"] stored(4) len
    by (simp add: cores_put)
  then have "ledger ?st3 = add_mset d (ledger st2)" by (simp add: ledger_def)
  moreover have "ledger st2 = ledger st"
    using stored by (simp add: ledger_cong [of st2 "release_slot i s st1"] ledger_release_slot
        ledger_output_for_buf wl_inv_slots3)
  ultimately show ?thesis by (simp add: stored(3) ledger_cong [OF cores_set_current_source])
qed

lemma ledger_close_all: "ledger (close_all ds st) = mset ds + ledger st"
  by (induction ds arbitrary: st) (simp_all add: close_all_def ledger_close)

section \<open>Detach\<close>

lemma ledger_release_slots:
  assumes "slots3 st" and "i < length (ws_outputs st)"
  shows "ledger (release_slots i st) = ledger st"
proof -
  have step: "slots3 (release_slot i s t)" if "slots3 t" "i < length (ws_outputs t)" for s t
    using that by (intro slots3_upd [OF _ _ cores_release_slot]) (simp_all add: slots3_nth)
  show ?thesis using assms by (simp add: release_slots_def ledger_release_slot step)
qed

lemma ledger_unbind_output:
  assumes "slots3 st" and "i < length (ws_outputs st)"
  shows "ledger (unbind_output i st) = ledger st \<and> slots3 (unbind_output i st)"
proof
  show "slots3 (unbind_output i st)"
    using assms by (intro slots3_upd [OF _ _ cores_unbind_output]) (simp_all add: slots3_nth)
  have "held (cores (unbind_output i st)) = held (cores st)"
    using held_update [of i "cores st" "(cores st ! i)\<lparr>c_bound := None\<rparr>"] assms(2)
    by (simp add: cores_unbind_output held_core_def)
  moreover have "ws_closed (unbind_output i st) = ws_closed st"
    by (simp add: unbind_output_def Let_def)
  ultimately show "ledger (unbind_output i st) = ledger st" by (simp add: ledger_def)
qed

lemma ledger_detach_output:
  assumes "slots3 st" and "i < length (ws_outputs st)"
  shows "ledger (detach_output i st) = ledger st \<and> slots3 (detach_output i st)"
  using assms slots3_upd [OF assms(1) _ cores_detach_output [OF assms(2)]]
  by (simp add: detach_output_def ledger_release_slots ledger_unbind_output clear_core_def slots3_nth)

lemma ledger_detach:
  assumes "wl_inv st"
  shows "ledger (wp_wl_detach st) = ledger st"
proof -
  have "ledger (foldl (\<lambda>s i. detach_output i s) st [0..<n]) = ledger st \<and>
      slots3 (foldl (\<lambda>s i. detach_output i s) st [0..<n]) \<and>
      length (ws_outputs (foldl (\<lambda>s i. detach_output i s) st [0..<n])) = length (ws_outputs st)"
    if "n \<le> length (ws_outputs st)" for n
    using that
  proof (induction n)
    case 0
    then show ?case using assms by (simp add: wl_inv_slots3)
  next
    case (Suc n)
    then show ?case
      by (simp add: ledger_detach_output)
        (metis Suc_le_lessD cores_detach_output length_cores length_list_update)
  qed
  then show ?thesis by (simp add: wp_wl_detach_def)
qed

lemma held_cleared:
  assumes "\<forall>c \<in> set cs. length (c_slots c) = 3"
  shows "held (map clear_core cs) = {#}"
proof -
  have "slot_fds \<circ> idle = (\<lambda>_. {#})" by (auto simp: slot_fds_def idle_def)
  then have "held_core (clear_core c) = {#}" if "length (c_slots c) = 3" for c
    using that by (simp add: held_core_def c_slots_clear_core)
  then show ?thesis using assms by (induction cs) (simp_all add: held_def)
qed

text \<open>The outputs themselves after a detach.\<close>

definition clear_output :: "wp_wl_output \<Rightarrow> wp_wl_output" where
  "clear_output out = upd_slot 2 idle (upd_slot 1 idle (upd_slot 0 idle
     (out\<lparr>o_has_current_source := False, o_frame_loop_running := False, o_has_bound_channel := False,
          o_current_shm_buffer := None, o_current_shm_pool := None\<rparr>)))"

lemma outputs_release_slot:
  assumes "i < length (ws_outputs st)"
  shows "ws_outputs (release_slot i s st) = (ws_outputs st)[i := upd_slot s idle (ws_outputs st ! i)]"
proof (cases "sl_in_use (slot_of (ws_outputs st ! i) s)")
  case True
  then show ?thesis
    by (simp add: release_slot_def Let_def outputs_upd_out upd_slot_def idle_def)
next
  case False
  then have "upd_slot s idle (ws_outputs st ! i) = ws_outputs st ! i"
    by (simp add: upd_slot_def idle_def slot_of_def slot_idle Let_def)
  with False show ?thesis by (simp add: release_slot_def)
qed

lemma outputs_detach: "ws_outputs (wp_wl_detach st) = map clear_output (ws_outputs st)"
proof -
  have "ws_outputs (detach_output i s) = (ws_outputs s)[i := clear_output (ws_outputs s ! i)]"
    if "i < length (ws_outputs s)" for i s
    using that by (simp add: detach_output_def release_slots_def outputs_release_slot unbind_output_def
        Let_def outputs_upd_out clear_output_def)
  then show ?thesis
    using foldl_upd_map [of ws_outputs "\<lambda>s i. detach_output i s" clear_output "length (ws_outputs st)" st]
    by (simp add: wp_wl_detach_def)
qed

section \<open>Presenting a frame\<close>

lemma slot_channel_eqI:
  assumes "local_idx a = local_idx b" and "channel_of a = channel_of b"
  shows "a = b"
proof -
  have "a mod WP_WL_CAPTURE_SLOT_COUNT = b mod WP_WL_CAPTURE_SLOT_COUNT"
    using assms(1) by (simp add: local_idx_def unsigned_word_eqI)
  then show ?thesis
    using assms(2) by (metis channel_of_def div_mult_mod_eq)
qed

lemma bound_slot_matches:
  assumes "wl_inv st" and "find_output_for_channel st (channel_of s) = Some i"
    and "sl_in_use (slot_of (ws_outputs st ! i) s)"
  shows "sl_slot (slot_of (ws_outputs st ! i) s) = s"
proof -
  from find_output_Some [OF assms(2)] have i: "i < length (ws_outputs st)"
    and b: "c_bound (cores st ! i) = Some (channel_of s)" by simp_all
  let ?sl = "c_slots (cores st ! i) ! local_idx s"
  have "local_idx (sl_slot ?sl) = local_idx s \<and> c_bound (cores st ! i) = Some (channel_of (sl_slot ?sl))"
    using wl_inv_core [OF assms(1) i] assms(3) i by (simp add: core_inv_def slot_of_core cores_nth)
  then have "sl_slot ?sl = s" using b by (metis option.inject slot_channel_eqI)
  then show ?thesis using i by (simp add: slot_of_core cores_nth)
qed

text \<open>The requests that present a buffer on output \<open>i\<close>.\<close>

definition presentation :: "nat \<Rightarrow> wp_wl_output \<Rightarrow> nat \<Rightarrow> u32 \<Rightarrow> u32 \<Rightarrow> wl_request list" where
  "presentation i out b w h =
     [Surface_attach i (Some b), Surface_damage i w h] @
     (if o_viewport out
      then [Viewport_set_destination i (o_configured_width out) (o_configured_height out)] else []) @
     [Surface_frame i, Surface_commit i] @
     (case o_current_shm_buffer out of None \<Rightarrow> [] | Some old \<Rightarrow> [Buffer_destroy old])"

lemma ws_reqs_simps [simp]:
  "ws_reqs (req r st) = ws_reqs st @ [r]" "ws_reqs (upd_out i f st) = ws_reqs st"
  "ws_reqs (ws_close d st) = ws_reqs st"
  by (simp_all add: req_def upd_out_def ws_close_def)

lemma ws_reqs_req_opt:
  "ws_reqs (req_opt q x st) = ws_reqs st @ (case x of None \<Rightarrow> [] | Some n \<Rightarrow> [q n])"
  by (simp add: req_opt_def split: option.splits)

lemma ws_reqs_present:
  assumes "i < length (ws_outputs st)"
  shows "ws_reqs (present_buffer env i b w h n st) =
    ws_reqs st @ presentation i (ws_outputs st ! i) b w h"
  using assms
  by (simp add: present_buffer_def Let_def ws_reqs_req_opt wp_wl_request_frame_callback_def
      outputs_upd_out presentation_def split: option.splits)

lemma ws_reqs_refresh_slot:
  assumes "i < length (ws_outputs st)" and "o_surface (ws_outputs st ! i)"
    and "o_has_current_source (ws_outputs st ! i)"
    and "o_current_source (ws_outputs st ! i) = WP_WL_SOURCE_SLOT s"
    and "sl_in_use (slot_of (ws_outputs st ! i) s)" and "sl_slot (slot_of (ws_outputs st ! i) s) = s"
  shows "ws_reqs (wp_wl_refresh_buffer env i st) = ws_reqs st @
    presentation i (ws_outputs st ! i) (sl_buffer (slot_of (ws_outputs st ! i) s))
      (sl_width (slot_of (ws_outputs st ! i) s)) (sl_height (slot_of (ws_outputs st ! i) s))"
  using assms by (simp add: wp_wl_refresh_buffer_def Let_def ws_reqs_present)

lemma ws_reqs_close_all [simp]: "ws_reqs (close_all ds st) = ws_reqs st"
  by (induction ds arbitrary: st) (simp_all add: close_all_def)

lemma outputs_close_all [simp]: "ws_outputs (close_all ds st) = ws_outputs st"
  by (induction ds arbitrary: st) (simp_all add: close_all_def)

lemma find_output_unaffected [simp]:
  "find_output_for_channel (close_all ds st) ch = find_output_for_channel st ch"
  "find_output_for_channel (st\<lparr>ws_stats := x\<rparr>) ch = find_output_for_channel st ch"
  by (simp_all add: find_output_for_channel_def)

lemma slot_of_updates [simp]:
  "slot_of (out\<lparr>o_frame_loop_running := r\<rparr>) s = slot_of out s"
  "slot_of (out\<lparr>o_has_current_source := r\<rparr>) s = slot_of out s"
  "slot_of (out\<lparr>o_current_source := r'\<rparr>) s = slot_of out s"
  "slot_of (out\<lparr>o_pending_callbacks := n\<rparr>) s = slot_of out s"
  by (simp_all add: slot_of_def)

lemma presentation_updates [simp]:
  "presentation i (out\<lparr>o_frame_loop_running := r\<rparr>) = presentation i out"
  "presentation i (out\<lparr>o_has_current_source := r\<rparr>) = presentation i out"
  "presentation i (out\<lparr>o_current_source := r'\<rparr>) = presentation i out"
  "presentation i (out\<lparr>o_pending_callbacks := n\<rparr>) = presentation i out"
  by (simp_all add: presentation_def fun_eq_iff)

lemma handled_event_ledger:
  assumes "wl_reachable st" and "has_fd ev" and "ev_tag ev \<noteq> WP_CAPTURE_EVENT_SHM"
    and "length (ev_fds ev) \<le> (if ev_tag ev = WP_CAPTURE_EVENT_BUF then 2 else 1)"
  shows "ledger (wp_wl_handle_capture_event env ev st) = mset (ev_fds ev) + ledger st"
proof (cases "ev_tag ev")
  case WP_CAPTURE_EVENT_BUF
  with assms(2) obtain d ds where ds: "ev_fds ev = d # ds" by (cases "ev_fds ev") (auto simp: has_fd_def)
  with assms(4) WP_CAPTURE_EVENT_BUF have "length ds \<le> 1" by simp
  then have "take (Suc 0) ds = ds" by simp
  moreover have "wl_inv (close_all ds (st\<lparr>ws_stats := x\<rparr>))" for x
    using wl_inv_reachable [OF assms(1)] by (simp add: wl_inv_def)
  ultimately show ?thesis
    using WP_CAPTURE_EVENT_BUF ds
    by (simp add: wp_wl_handle_capture_event_def ledger_handle_buf ledger_close_all)
      (simp add: ledger_def)
next
  case WP_CAPTURE_EVENT_FRAME
  have *: "ledger (wp_wl_set_current_source env i src st') = ledger st'" for i src st'
    by (simp add: ledger_def)
  have "ledger (close_all ds (st\<lparr>ws_stats := x\<rparr>)) = mset ds + ledger st" for ds x
    by (simp add: ledger_close_all) (simp add: ledger_def)
  with WP_CAPTURE_EVENT_FRAME assms(4) show ?thesis
    by (simp add: wp_wl_handle_capture_event_def Let_def * split: option.splits)
qed (use assms(3) in simp)

section \<open>Properties\<close>

text \<open>
  C32. In every reachable state of a portal a capture channel is bound to at most one output, the
  output is known to the compositor, has a surface, and the channel is one of the four of the wire
  protocol.
\<close>

theorem channel_has_one_output:
  assumes "wl_reachable st" and "i < length (ws_outputs st)" and "j < length (ws_outputs st)"
    and "o_has_bound_channel (ws_outputs st ! i)" and "o_has_bound_channel (ws_outputs st ! j)"
    and "o_bound_channel (ws_outputs st ! i) = o_bound_channel (ws_outputs st ! j)"
  shows "i = j \<and> o_known (ws_outputs st ! i) \<and> o_surface (ws_outputs st ! i) \<and>
    o_bound_channel (ws_outputs st ! i) < WP_WL_MAX_CAPTURE_CHANNELS"
proof -
  note inv = wl_inv_reachable [OF assms(1)]
  have "c_bound (cores st ! i) = c_bound (cores st ! j)" and "c_bound (cores st ! i) \<noteq> None"
    using assms(2-) by (simp_all add: cores_nth core_def)
  then have "i = j" using inv assms(2,3) by (simp add: wl_inv_def cores_inv_def)
  moreover have "core_inv (core (ws_outputs st ! i))"
    using wl_inv_core [OF inv assms(2)] assms(2) by (simp add: cores_nth)
  ultimately show ?thesis using assms(4) by (simp add: core_inv_def core_def)
qed

text \<open>
  C2. No descriptor is lost or closed twice on the dma-buf path: in a reachable state, handling a
  BUF message (one or two descriptors) or a FRAME message (at most one) adds exactly the received
  descriptors to those closed or held in a slot, whichever of the branches is taken (bad slot, no
  output, failed import, slot replaced, slot filled).
\<close>

theorem capture_event_conserves_fds:
  assumes "wl_reachable st" and "has_fd ev" and "ev_tag ev \<noteq> WP_CAPTURE_EVENT_SHM"
    and "length (ev_fds ev) \<le> (if ev_tag ev = WP_CAPTURE_EVENT_BUF then 2 else 1)"
  shows "ledger (wp_wl_handle_capture_event env ev st) = mset (ev_fds ev) + ledger st"
  by (rule handled_event_ledger [OF assms])

text \<open>
  A detach releases everything: every descriptor a slot of any output holds is closed (each
  once, and nothing else is), no slot stays in use, and every output is left unbound, without a
  source, with its frame loop stopped and with no shared-memory buffer or pool.
\<close>

theorem detach_releases_all:
  assumes "wl_reachable st"
  shows "mset (ws_closed (wp_wl_detach st)) = mset (ws_closed st) + held (cores st) \<and>
    held (cores (wp_wl_detach st)) = {#} \<and>
    (\<forall>out \<in> set (ws_outputs (wp_wl_detach st)). \<not> o_has_bound_channel out \<and>
       \<not> o_has_current_source out \<and> \<not> o_frame_loop_running out \<and>
       o_current_shm_buffer out = None \<and> o_current_shm_pool out = None)"
proof -
  note inv = wl_inv_reachable [OF assms]
  have h: "held (cores (wp_wl_detach st)) = {#}"
    using wl_inv_slots3 [OF inv] by (simp add: cores_detach held_cleared slots3_def)
  with ledger_detach [OF inv] have "mset (ws_closed (wp_wl_detach st)) = mset (ws_closed st) + held (cores st)"
    by (simp add: ledger_def)
  with h show ?thesis
    by (auto simp: outputs_detach clear_output_def upd_slot_def Let_def)
qed

text \<open>
  C31. What a FRAME message shows: in a reachable state, when the channel of the announced slot is
  bound to output \<open>i\<close>, the slot is filled and the frame loop runs, the message itself makes no
  request, and the next frame callback of that output attaches exactly the buffer that was
  registered for that slot number, marks all of it damaged, asks for the next frame callback and
  commits, in this order and with nothing in between.
\<close>

theorem frame_event_presents:
  assumes "wl_reachable st" and "ev_tag ev = WP_CAPTURE_EVENT_FRAME"
    and "find_output_for_channel st (channel_of (ev_slot ev)) = Some i"
    and "sl_in_use (slot_of (ws_outputs st ! i) (ev_slot ev))"
    and "o_frame_loop_running (ws_outputs st ! i)"
  shows "ws_reqs (frame_callback_done env' i (wp_wl_handle_capture_event env ev st)) = ws_reqs st @
    presentation i (ws_outputs st ! i) (sl_buffer (slot_of (ws_outputs st ! i) (ev_slot ev)))
      (sl_width (slot_of (ws_outputs st ! i) (ev_slot ev)))
      (sl_height (slot_of (ws_outputs st ! i) (ev_slot ev)))
    \<and> sl_slot (slot_of (ws_outputs st ! i) (ev_slot ev)) = ev_slot ev
    \<and> ws_reqs (wp_wl_handle_capture_event env ev st) = ws_reqs st"
proof -
  note inv = wl_inv_reachable [OF assms(1)]
  note m = bound_slot_matches [OF inv assms(3,4)]
  from find_output_Some [OF assms(3)] have i: "i < length (ws_outputs st)"
    and b: "c_bound (cores st ! i) = Some (channel_of (ev_slot ev))" by simp_all
  have "o_surface (ws_outputs st ! i)"
    using wl_inv_core [OF inv i] b i by (simp add: core_inv_def cores_nth core_def)
  with i m assms show ?thesis
    by (simp add: wp_wl_handle_capture_event_def Let_def channel_of_def frame_callback_done_def
        wp_wl_set_current_source_def outputs_upd_out ws_reqs_refresh_slot)
qed

section \<open>A concrete run\<close>

definition demo_env :: wl_env where
  "demo_env = \<lparr>we_now = 1, we_dmabuf_params = True, we_dmabuf_buffer = True, we_memfd = 9,
     we_memfd_written = True\<rparr>"

definition demo_buf :: wp_capture_event where
  "demo_buf = zero_event\<lparr>ev_tag := WP_CAPTURE_EVENT_BUF, ev_slot := 4, ev_width := 1920,
     ev_height := 1080, ev_stride := 7680, ev_fds := [5, 6]\<rparr>"

definition demo_frame :: wp_capture_event where
  "demo_frame = zero_event\<lparr>ev_tag := WP_CAPTURE_EVENT_FRAME, ev_slot := 4, ev_fds := [7]\<rparr>"

definition demo_output :: wp_wl_state where
  "demo_output = registry_global I_wl_output 4 (registry_global I_zwp_linux_dmabuf_v1 3
     (registry_global I_zwlr_layer_shell_v1 1 (registry_global I_wl_compositor 4 initial_state)))"

definition demo_known :: wp_wl_state where
  "demo_known = output_done 0 (output_mode 0 1 1920 1080 demo_output)"

definition demo_bound :: wp_wl_state where
  "demo_bound = wp_wl_handle_capture_event demo_env demo_buf demo_known"

lemma wl_reachable_step: "wl_reachable st \<Longrightarrow> wl_step st st' \<Longrightarrow> wl_reachable st'"
  unfolding wl_reachable_def by (rule rtranclp.rtrancl_into_rtrancl)

lemma reachable_initial: "wl_reachable initial_state"
  by (simp add: wl_reachable_def)

lemma reachable_global: "wl_reachable st \<Longrightarrow> wl_reachable (registry_global itf version st)"
  by (erule wl_reachable_step) (rule wl_step.global)

lemma reachable_demo_output: "wl_reachable demo_output"
  unfolding demo_output_def by (intro reachable_global reachable_initial)

lemma outputs_demo_output: "ws_outputs demo_output = [zero_output\<lparr>o_scale := 1\<rparr>]"
  by (simp add: demo_output_def registry_global_def wp_wl_add_output_def initial_state_def
      WP_WL_MAX_OUTPUTS_def WP_WL_DMABUF_MIN_VERSION_def)

lemma reachable_demo_known: "wl_reachable demo_known"
proof -
  have "wl_reachable (output_mode 0 1 1920 1080 demo_output)"
    by (rule wl_reachable_step [OF reachable_demo_output wl_step.mode]) (simp add: outputs_demo_output)
  then show ?thesis
    unfolding demo_known_def
    by (rule wl_reachable_step [OF _ wl_step.output_done])
      (simp add: output_mode_def outputs_demo_output)
qed

lemma reachable_demo_bound: "wl_reachable demo_bound"
  unfolding demo_bound_def
  by (intro wl_reachable_step [OF reachable_demo_known] wl_step.capture) (simp add: has_fd_def demo_buf_def)

lemmas demo_defs = demo_output_def registry_global_def wp_wl_add_output_def initial_state_def
  WP_WL_MAX_OUTPUTS_def WP_WL_DMABUF_MIN_VERSION_def output_mode_def output_done_def
  wp_wl_output_ready_def upd_out_def req_def zero_output_def zero_slot_def

lemma demo_known_eval:
  "demo_known = initial_state\<lparr>ws_compositor := True, ws_layer_shell := True, ws_dmabuf := True,
     ws_outputs := [zero_output\<lparr>o_known := True, o_width := 1920, o_height := 1080, o_scale := 1,
       o_surface := True, o_layer_surface := True\<rparr>],
     ws_reqs := [Create_surface 0, Get_layer_surface 0, Surface_commit 0]\<rparr>"
  by (simp add: demo_known_def demo_defs Let_def)

lemmas handler_defs = wp_wl_handle_capture_event_def handle_buf_def output_for_buf_def
  find_output_for_channel_def claim_output_for_position_def claim_output_for_size_def
  wp_wl_create_dmabuf_buffer_def release_slot_def slot_of_def upd_slot_def bind_channel_def
  close_all_def ws_close_def upd_out_def req_def req_opt_def fresh_def WP_WL_CAPTURE_SLOT_COUNT_def
  WP_WL_MAX_CAPTURE_CHANNELS_def wp_wl_set_current_source_def wp_wl_refresh_buffer_def
  present_buffer_def wp_wl_request_frame_callback_def

lemma demo_bound_eval:
  "ws_outputs demo_bound = [zero_output\<lparr>o_known := True, o_width := 1920, o_height := 1080,
     o_scale := 1, o_surface := True, o_layer_surface := True, o_has_bound_channel := True,
     o_bound_channel := 1, o_slots := [zero_slot, \<lparr>sl_in_use = True, sl_slot = 4, sl_buffer = 0,
        sl_fd = 5, sl_width = 1920, sl_height = 1080\<rparr>, zero_slot],
     o_has_current_source := True, o_current_source := WP_WL_SOURCE_SLOT 4,
     o_frame_loop_running := True, o_pending_callbacks := 1\<rparr>]
   \<and> ws_closed demo_bound = [6]"
  by (simp add: demo_bound_def demo_known_eval initial_state_def zero_output_def zero_slot_def
      demo_buf_def zero_event_def demo_env_def handler_defs Let_def) (simp add: word_le_nat_alt)

theorem channel_has_one_output_witness:
  "o_has_bound_channel (ws_outputs demo_bound ! 0) \<and>
   o_bound_channel (ws_outputs demo_bound ! 0) < WP_WL_MAX_CAPTURE_CHANNELS"
  using channel_has_one_output [of demo_bound 0 0] reachable_demo_bound
  by (simp add: demo_bound_eval)

theorem capture_event_conserves_fds_witness:
  "ledger (wp_wl_handle_capture_event demo_env demo_buf demo_bound) = {#5, 6#} + ledger demo_bound"
  using capture_event_conserves_fds [of demo_bound demo_buf demo_env] reachable_demo_bound
  by (simp add: demo_buf_def has_fd_def)

theorem detach_releases_all_witness:
  "mset (ws_closed (wp_wl_detach demo_bound)) = {#6, 5#} \<and> held (cores (wp_wl_detach demo_bound)) = {#}"
  using detach_releases_all [of demo_bound] reachable_demo_bound
  by (simp add: demo_bound_eval cores_def core_def held_def held_core_def slot_fds_def zero_slot_def)

theorem frame_event_presents_witness:
  "ws_reqs (frame_callback_done demo_env 0 (wp_wl_handle_capture_event demo_env demo_frame demo_bound)) =
     ws_reqs demo_bound @ [Surface_attach 0 (Some 0), Surface_damage 0 1920 1080, Surface_frame 0,
       Surface_commit 0]"
  using frame_event_presents [of demo_bound demo_frame 0 demo_env demo_env] reachable_demo_bound
  by (simp add: demo_bound_eval demo_frame_def find_output_for_channel_def channel_of_def slot_of_def
      WP_WL_CAPTURE_SLOT_COUNT_def presentation_def zero_output_def)

end
