(* ===== verification/WP_Wl_Loop.thy ===== *)
theory WP_Wl_Loop
  imports WP_Wl_Ledger
begin

text \<open>
  The frame loop of an output, as a small machine of its own: whether the loop was started
  (\<open>frame_loop_running\<close>) and how many frame callbacks are outstanding. Every step of the portal is a
  step of this machine (\<open>frame_loop_refines\<close>), from which its properties follow: one loop per
  output as long as nothing detaches, and the state the loop cannot leave. The last section is the
  choice of the output a new channel is bound to.
\<close>

section \<open>The abstract frame loop\<close>

type_synonym loop = "bool \<times> nat"

definition loop_of :: "wp_wl_output \<Rightarrow> loop" where
  "loop_of out = (o_frame_loop_running out, o_pending_callbacks out)"

definition loops :: "wp_wl_state \<Rightarrow> loop list" where
  "loops st = map loop_of (ws_outputs st)"

definition stop_loop :: "loop \<Rightarrow> loop" where
  "stop_loop l = (False, snd l)"

text \<open>A step that is not a detach.\<close>

inductive loop_step :: "loop list \<Rightarrow> loop list \<Rightarrow> bool" where
  idle: "loop_step ls ls"
| add: "loop_step ls (ls @ [(False, 0)])"
| start: "i < length ls \<Longrightarrow> ls ! i = (False, p) \<Longrightarrow> k \<le> 1 \<Longrightarrow> loop_step ls (ls[i := (True, p + k)])"
| tick: "i < length ls \<Longrightarrow> ls ! i = (r, Suc p) \<Longrightarrow> k \<le> 1 \<Longrightarrow> loop_step ls (ls[i := (r, p + k)])"

inductive_cases loop_stepE: "loop_step ls ls'"

section \<open>How the operations act on it\<close>

lemma length_loops [simp]: "length (loops st) = length (ws_outputs st)"
  by (simp add: loops_def)

lemma loops_nth: "i < length (ws_outputs st) \<Longrightarrow> loops st ! i = loop_of (ws_outputs st ! i)"
  by (simp add: loops_def)

lemma loops_cong: "ws_outputs st' = ws_outputs st \<Longrightarrow> loops st' = loops st"
  by (simp add: loops_def)

lemma loops_simps [simp]:
  "loops (req r st) = loops st" "loops (req_opt q x st) = loops st" "loops (ws_close d st) = loops st"
  "loops (st\<lparr>ws_stats := s\<rparr>) = loops st" "loops (close_all ds st) = loops st"
  by (simp_all add: loops_def)

lemma loops_upd_out: "loops (upd_out i f st) = (loops st)[i := loop_of (f (ws_outputs st ! i))]"
  by (simp add: loops_def upd_out_def map_update)

lemma loops_upd_same:
  assumes "loop_of (f (ws_outputs st ! i)) = loop_of (ws_outputs st ! i)"
  shows "loops (upd_out i f st) = loops st"
  by (cases "i < length (ws_outputs st)")
    (simp_all add: loops_upd_out assms loops_nth [symmetric] list_update_beyond)

lemma loops_present:
  assumes "i < length (ws_outputs st)"
  shows "loops (present_buffer env i b w h n st) =
    (loops st)[i := (o_frame_loop_running (ws_outputs st ! i), Suc (o_pending_callbacks (ws_outputs st ! i)))]"
  using assms
  by (simp add: present_buffer_def Let_def wp_wl_request_frame_callback_def loops_upd_out outputs_upd_out
      loop_of_def)

lemma loops_refresh:
  assumes "i < length (ws_outputs st)" and "loops st ! i = (r, p)"
  shows "\<exists>k \<le> 1. loops (wp_wl_refresh_buffer env i st) = (loops st)[i := (r, p + k)]"
proof -
  from assms have r: "o_frame_loop_running (ws_outputs st ! i) = r"
    and p: "o_pending_callbacks (ws_outputs st ! i) = p" by (simp_all add: loops_nth loop_of_def)
  have id: "(loops st)[i := (r, p)] = loops st" by (metis assms(2) list_update_id)
  have "loops (wp_wl_refresh_buffer env i st) \<in> {loops st, (loops st)[i := (r, Suc p)]}"
    using assms(1) r p
    by (simp add: wp_wl_refresh_buffer_def Let_def fresh_def loops_present outputs_upd_out loops_upd_same
        loop_of_def split: wp_wl_source.splits)
      (simp add: loops_def)
  then show ?thesis
  proof
    assume "loops (wp_wl_refresh_buffer env i st) = loops st"
    then show ?thesis using id by (intro exI [of _ 0]) simp
  next
    assume "loops (wp_wl_refresh_buffer env i st) \<in> {(loops st)[i := (r, Suc p)]}"
    then show ?thesis by (intro exI [of _ 1]) simp
  qed
qed

lemma loops_set_source:
  assumes "i < length (ws_outputs st)"
  shows "loop_step (loops st) (loops (wp_wl_set_current_source env i src st))"
proof (cases "o_frame_loop_running (ws_outputs st ! i)")
  case True
  then have "loops (wp_wl_set_current_source env i src st) = loops st"
    using assms by (simp add: wp_wl_set_current_source_def Let_def outputs_upd_out loops_upd_same loop_of_def)
  then show ?thesis by (simp add: loop_step.idle)
next
  case False
  define t where "t = upd_out i (\<lambda>out. out\<lparr>o_frame_loop_running := True\<rparr>)
    (upd_out i (\<lambda>out. out\<lparr>o_current_source := src, o_has_current_source := True\<rparr>) st)"
  let ?p = "o_pending_callbacks (ws_outputs st ! i)"
  have lt: "loops t = (loops st)[i := (True, ?p)]"
    using assms by (simp add: t_def loops_upd_out outputs_upd_out loop_of_def)
  obtain k where "k \<le> 1" "loops (wp_wl_refresh_buffer env i t) = (loops t)[i := (True, ?p + k)]"
    using loops_refresh [of i t True ?p env] assms lt by (auto simp: t_def)
  moreover have "wp_wl_set_current_source env i src st = wp_wl_refresh_buffer env i t"
    using False assms by (simp add: wp_wl_set_current_source_def Let_def outputs_upd_out t_def)
  ultimately show ?thesis
    using loop_step.start [of i "loops st" ?p k] False assms by (simp add: lt loops_nth loop_of_def)
qed

lemma loops_release_slot [simp]: "loops (release_slot i s st) = loops st"
  by (simp add: release_slot_def Let_def loops_upd_same loop_of_def upd_slot_def)

lemma loops_output_for_buf:
  assumes "output_for_buf ch w h g x y st = (r, st')"
  shows "loops st' = loops st \<and> (\<forall>i. r = Some i \<longrightarrow> i < length (ws_outputs st'))"
  using assms
proof (cases rule: output_for_buf_cases)
  case (bound i)
  then show ?thesis using find_output_Some by fastforce
next
  case claimed
  then show ?thesis
    by (cases r) (auto simp: claims_def loops_upd_same loop_of_def bind_channel_def)
qed

lemma loops_handle_buf: "loop_step (loops st) (loops (handle_buf env s w h p m g x y d st))"
proof (cases "WP_WL_MAX_CAPTURE_CHANNELS \<le> s div WP_WL_CAPTURE_SLOT_COUNT")
  case True
  then show ?thesis by (simp add: handle_buf_def Let_def loop_step.idle)
next
  case False
  obtain r st1 where o: "output_for_buf (s div WP_WL_CAPTURE_SLOT_COUNT) w h g x y st = (r, st1)"
    by fastforce
  note l1 = loops_output_for_buf [OF o]
  show ?thesis
  proof (cases r)
    case None
    then show ?thesis using False o l1 by (simp add: handle_buf_def Let_def loop_step.idle)
  next
    case (Some i)
    obtain q st2 where c: "wp_wl_create_dmabuf_buffer env d w h p m (release_slot i s st1) = (q, st2)"
      by fastforce
    from create_dmabuf_cases [OF c] have "ws_outputs st2 = ws_outputs (release_slot i s st1)" by simp
    then have l2: "loops st2 = loops st" and i: "i < length (ws_outputs st2)"
      using l1 Some loops_cong [of st2 "release_slot i s st1"] by simp_all
    then show ?thesis
      using False Some o c
        loops_set_source [of i "upd_out i (upd_slot s (\<lambda>_. sl)) st2" env "WP_WL_SOURCE_SLOT s" for sl]
      by (cases q) (simp_all add: handle_buf_def Let_def loop_step.idle loops_upd_same upd_slot_def loop_of_def)
  qed
qed

lemma loops_capture_event: "loop_step (loops st) (loops (wp_wl_handle_capture_event env ev st))"
proof (cases "ev_tag ev")
  case WP_CAPTURE_EVENT_BUF
  then show ?thesis
    using loops_handle_buf [of "close_all (take 1 (drop 1 (ev_fds ev)))
        (st\<lparr>ws_stats := wp_frame_stats_record_capture (we_now env) (ws_stats st)\<rparr>)"]
    by (simp add: wp_wl_handle_capture_event_def)
next
  case WP_CAPTURE_EVENT_FRAME
  have "i < length (ws_outputs st)" if "find_output_for_channel st ch = Some i" for ch i
    using find_output_Some [OF that] by simp
  then show ?thesis
    using WP_CAPTURE_EVENT_FRAME
      loops_set_source [of _ "close_all (take 1 (ev_fds ev))
        (st\<lparr>ws_stats := wp_frame_stats_record_capture (we_now env) (ws_stats st)\<rparr>)"]
    by (simp add: wp_wl_handle_capture_event_def Let_def loop_step.idle split: option.splits)
next
  case WP_CAPTURE_EVENT_SHM
  then show ?thesis
    using loops_set_source [of 0 "st\<lparr>ws_stats := wp_frame_stats_record_capture (we_now env) (ws_stats st)\<rparr>"]
    by (simp add: wp_wl_handle_capture_event_def Let_def loop_step.idle)
qed

lemma loops_frame_callback_done:
  assumes "i < length (ws_outputs st)" and "0 < o_pending_callbacks (ws_outputs st ! i)"
  shows "loop_step (loops st) (loops (frame_callback_done env i st))"
proof -
  let ?r = "o_frame_loop_running (ws_outputs st ! i)"
  obtain p where p: "o_pending_callbacks (ws_outputs st ! i) = Suc p" using assms(2) gr0_conv_Suc by auto
  define t where "t = upd_out i (\<lambda>out. out\<lparr>o_pending_callbacks := o_pending_callbacks out - 1\<rparr>) st"
  have lt: "loops t = (loops st)[i := (?r, p)]"
    using assms p by (simp add: t_def loops_upd_out loop_of_def)
  obtain k where "k \<le> 1" "loops (wp_wl_refresh_buffer env i t) = (loops t)[i := (?r, p + k)]"
    using loops_refresh [of i t ?r p env] assms lt by (auto simp: t_def)
  then show ?thesis
    using loop_step.tick [of i "loops st" ?r p k] assms p
    by (simp add: frame_callback_done_def t_def [simplified, symmetric] lt loops_nth loop_of_def)
qed

lemma loops_output_events:
  "loops (layer_surface_configure i s w h st) = loops st"
  "loops (output_geometry i x y st) = loops st"
  "loops (output_mode i fl mw mh st) = loops st"
  "loops (output_scale i f st) = loops st"
  by (simp_all add: layer_surface_configure_def output_geometry_def output_mode_def output_scale_def
      loops_upd_same loop_of_def)

lemma loops_output_ready [simp]: "loops (wp_wl_output_ready i st) = loops st"
  by (simp add: wp_wl_output_ready_def Let_def loops_upd_same loop_of_def)

lemma loops_output_done: "loops (output_done i st) = loops st"
  by (simp add: output_done_def loops_upd_same loop_of_def)

lemma loops_add_output: "loop_step (loops st) (loops (snd (wp_wl_add_output st)))"
  by (simp add: wp_wl_add_output_def loops_def loop_of_def zero_output_def loop_step.idle loop_step.add)

lemma loops_global: "loop_step (loops st) (loops (registry_global itf v st))"
  using loops_add_output [of st]
  by (cases itf) (simp_all add: registry_global_def loops_def loop_step.idle)

lemma outputs_debug [simp]:
  "ws_outputs (wp_wl_ensure_debug_surface st) = ws_outputs st"
  "ws_outputs (wp_wl_set_debug_enabled b st) = ws_outputs st"
  "ws_outputs (wp_wl_draw_debug_overlay env st) = ws_outputs st"
  "ws_outputs (wp_wl_maybe_redraw_debug env st) = ws_outputs st"
  by (simp_all add: wp_wl_ensure_debug_surface_def wp_wl_set_debug_enabled_def wp_wl_draw_debug_overlay_def
      wp_wl_maybe_redraw_debug_def fresh_def Let_def split: option.splits prod.splits)

lemma loops_detach: "loops (wp_wl_detach st) = map stop_loop (loops st)"
  by (simp add: loops_def outputs_detach clear_output_def upd_slot_def loop_of_def stop_loop_def Let_def)

lemma wl_step_loop:
  assumes "wl_step st st'"
  shows "st' = wp_wl_detach st \<or> loop_step (loops st) (loops st')"
  using assms
proof cases
  case (set_debug b)
  then have "loops st' = loops st" by (simp add: loops_def)
  then show ?thesis by (simp add: loop_step.idle)
next
  case (redraw env)
  then have "loops st' = loops st" by (simp add: loops_def)
  then show ?thesis by (simp add: loop_step.idle)
qed (simp_all add: loops_global loops_output_events loops_output_done loops_frame_callback_done
    loops_capture_event loop_step.idle)

section \<open>Properties of the frame loop\<close>

definition single_loop :: "loop \<Rightarrow> bool" where
  "single_loop l \<longleftrightarrow> snd l \<le> (if fst l then 1 else 0)"

lemma loop_step_single:
  assumes "loop_step ls ls'" and "\<forall>l \<in> set ls. single_loop l"
  shows "\<forall>l \<in> set ls'. single_loop l"
  using assms(1)
proof cases
  case (start i p k)
  then have "single_loop (False, p)" using assms(2) by (metis nth_mem)
  then have "single_loop (True, p + k)" using start by (simp add: single_loop_def)
  with start assms(2) show ?thesis by (auto dest!: set_update_subset_insert [THEN subsetD])
next
  case (tick i r p k)
  then have "single_loop (r, Suc p)" using assms(2) by (metis nth_mem)
  then have "single_loop (r, p + k)" using tick by (simp add: single_loop_def split: if_splits)
  with tick assms(2) show ?thesis by (auto dest!: set_update_subset_insert [THEN subsetD])
qed (use assms(2) in \<open>auto simp: single_loop_def\<close>)

lemma loop_step_running:
  assumes "loop_step ls ls'" and "i < length ls" and "fst (ls ! i)"
  shows "i < length ls' \<and> fst (ls' ! i)"
  using assms by (cases rule: loop_step.cases) (auto simp: nth_append nth_list_update)

lemma loop_step_stalled:
  assumes "loop_step ls ls'" and "i < length ls" and "ls ! i = (True, 0)"
  shows "i < length ls' \<and> ls' ! i = (True, 0)"
  using assms by (cases rule: loop_step.cases) (auto simp: nth_append nth_list_update)

text \<open>
  C36. Every step of the portal is a step of the abstract frame loop: callbacks are only ever
  outstanding because a loop was started or a callback was answered, one for one. A detach stops the
  loop of every output and leaves the outstanding callbacks, and no other step stops a loop that
  runs.
\<close>

theorem frame_loop_refines:
  assumes "wl_step st st'"
  shows "loops (wp_wl_detach st) = map stop_loop (loops st) \<and>
    (st' = wp_wl_detach st \<or>
     loop_step (loops st) (loops st') \<and>
     (\<forall>i < length (ws_outputs st). o_frame_loop_running (ws_outputs st ! i) \<longrightarrow>
        i < length (ws_outputs st') \<and> o_frame_loop_running (ws_outputs st' ! i)))"
proof -
  have "i < length (ws_outputs st') \<and> o_frame_loop_running (ws_outputs st' ! i)"
    if l: "loop_step (loops st) (loops st')" and i: "i < length (ws_outputs st)" "o_frame_loop_running (ws_outputs st ! i)" for i
  proof -
    have "fst (loops st ! i)" using i by (simp add: loops_nth loop_of_def)
    with loop_step_running [OF l, of i] i(1) have "i < length (ws_outputs st') \<and> fst (loops st' ! i)" by simp
    then show ?thesis by (auto simp: loops_nth loop_of_def)
  qed
  then show ?thesis using wl_step_loop [OF assms] loops_detach by blast
qed

theorem frame_loop_refines_witness:
  "loops (wp_wl_detach demo_known) = map stop_loop (loops demo_known) \<and>
   (demo_bound = wp_wl_detach demo_known \<or> loop_step (loops demo_known) (loops demo_bound))"
  using frame_loop_refines [of demo_known demo_bound] wl_step.capture [of demo_buf demo_known demo_env]
  by (simp add: demo_bound_def has_fd_def demo_buf_def) blast

text \<open>
  One frame loop per output: along any run of the portal without a detach, an output never has
  more than one frame callback outstanding, and none before its loop was started, so a frame is
  presented at most once per refresh of the compositor.
\<close>

theorem frame_loop_single:
  assumes "(\<lambda>a b. wl_step a b \<and> b \<noteq> wp_wl_detach a)\<^sup>*\<^sup>* initial_state st" and "out \<in> set (ws_outputs st)"
  shows "o_pending_callbacks out \<le> (if o_frame_loop_running out then 1 else 0)"
proof -
  have "\<forall>l \<in> set (loops st). single_loop l"
    using assms(1)
  proof (induction rule: rtranclp_induct)
    case base
    then show ?case by (simp add: loops_def initial_state_def)
  next
    case (step a b)
    then have "loop_step (loops a) (loops b)" using wl_step_loop by blast
    then show ?case using loop_step_single step.IH by blast
  qed
  with assms(2) show ?thesis by (auto simp: loops_def loop_of_def single_loop_def)
qed

text \<open>
  A loop that was started while nothing could be presented never runs: when an output's loop is
  marked running with no callback outstanding, then after any further step other than a detach it
  still is: no message restarts it, although each one replaces the output's source.
\<close>

theorem frame_loop_stalls:
  assumes "wl_step st st'" and "st' \<noteq> wp_wl_detach st" and "i < length (ws_outputs st)"
    and "o_frame_loop_running (ws_outputs st ! i)" and "o_pending_callbacks (ws_outputs st ! i) = 0"
  shows "o_frame_loop_running (ws_outputs st' ! i) \<and> o_pending_callbacks (ws_outputs st' ! i) = 0"
proof -
  have "loop_step (loops st) (loops st')" using wl_step_loop [OF assms(1)] assms(2) by simp
  with loop_step_stalled [of "loops st" "loops st'" i] assms(3-)
  have "i < length (loops st') \<and> loops st' ! i = (True, 0)" by (simp add: loops_nth loop_of_def)
  then show ?thesis by (auto simp: loops_nth loop_of_def)
qed

definition demo_shm :: wp_capture_event where
  "demo_shm = zero_event\<lparr>ev_tag := WP_CAPTURE_EVENT_SHM, ev_width := 64, ev_height := 64,
     ev_stride := 256, ev_fds := [5]\<rparr>"

definition demo_one :: wp_wl_state where
  "demo_one = registry_global I_wl_output 4 initial_state"

definition demo_stalled :: wp_wl_state where
  "demo_stalled = wp_wl_handle_capture_event demo_env demo_shm demo_one"

lemma outputs_demo_stalled:
  "ws_outputs demo_stalled = [zero_output\<lparr>o_scale := 1, o_has_current_source := True,
     o_current_source := WP_WL_SOURCE_SHM 5 64 64 256, o_frame_loop_running := True\<rparr>]"
  by (simp add: demo_stalled_def demo_one_def demo_defs demo_shm_def zero_event_def handler_defs Let_def)

lemma reachable_demo_one: "wl_reachable demo_one"
  unfolding demo_one_def by (intro reachable_global reachable_initial)

lemma demo_stalled_step: "wl_step demo_one demo_stalled"
  unfolding demo_stalled_def by (rule wl_step.capture) (simp add: has_fd_def demo_shm_def)

lemma running_not_detached:
  "0 < length (ws_outputs st) \<Longrightarrow> o_frame_loop_running (ws_outputs st' ! 0) \<Longrightarrow> st' \<noteq> wp_wl_detach st"
  by (auto simp: outputs_detach clear_output_def upd_slot_def Let_def)

theorem frame_loop_single_witness:
  "o_frame_loop_running (ws_outputs demo_stalled ! 0) \<and> o_pending_callbacks (ws_outputs demo_stalled ! 0) \<le> 1"
proof -
  have one: "ws_outputs demo_one = [zero_output\<lparr>o_scale := 1\<rparr>]"
    by (simp add: demo_one_def registry_global_def wp_wl_add_output_def initial_state_def
        WP_WL_MAX_OUTPUTS_def)
  have "wl_step initial_state demo_one \<and> demo_one \<noteq> wp_wl_detach initial_state"
    unfolding demo_one_def using one [unfolded demo_one_def] wl_step.global
    by (auto simp: outputs_detach initial_state_def)
  moreover have "wl_step demo_one demo_stalled \<and> demo_stalled \<noteq> wp_wl_detach demo_one"
    using demo_stalled_step one by (simp add: running_not_detached outputs_demo_stalled)
  ultimately have "(\<lambda>a b. wl_step a b \<and> b \<noteq> wp_wl_detach a)\<^sup>*\<^sup>* initial_state demo_stalled"
    by - (rule rtranclp.rtrancl_into_rtrancl [OF r_into_rtranclp], simp_all)
  from frame_loop_single [OF this, of "ws_outputs demo_stalled ! 0"] show ?thesis
    by (simp add: outputs_demo_stalled)
qed

theorem frame_loop_stalls_witness:
  "wl_reachable demo_stalled \<and> o_frame_loop_running (ws_outputs (output_geometry 0 7 7 demo_stalled) ! 0)
   \<and> o_pending_callbacks (ws_outputs (output_geometry 0 7 7 demo_stalled) ! 0) = 0"
proof -
  have "wl_step demo_stalled (output_geometry 0 7 7 demo_stalled)"
    by (rule wl_step.geometry) (simp add: outputs_demo_stalled)
  moreover have "output_geometry 0 7 7 demo_stalled \<noteq> wp_wl_detach demo_stalled"
    by (simp add: running_not_detached outputs_demo_stalled output_geometry_def outputs_upd_out)
  ultimately show ?thesis
    using frame_loop_stalls [of demo_stalled "output_geometry 0 7 7 demo_stalled" 0]
      wl_reachable_step [OF reachable_demo_one demo_stalled_step]
    by (simp add: outputs_demo_stalled zero_output_def)
qed

lemma ws_dmabuf_unaffected [simp]:
  "ws_dmabuf (req r st) = ws_dmabuf st" "ws_dmabuf (req_opt q x st) = ws_dmabuf st"
  "ws_dmabuf (upd_out i f st) = ws_dmabuf st" "ws_dmabuf (ws_close d st) = ws_dmabuf st"
  by (simp_all add: req_def req_opt_def upd_out_def ws_close_def split: option.splits)

lemma ws_dmabuf_detach [simp]: "ws_dmabuf (wp_wl_detach st) = ws_dmabuf st"
proof -
  have "ws_dmabuf (detach_output i s) = ws_dmabuf s" for i s
    by (simp add: detach_output_def release_slots_def release_slot_def unbind_output_def Let_def)
  then have "ws_dmabuf (foldl (\<lambda>s i. detach_output i s) st is) = ws_dmabuf st" for "is"
    by (induction "is" arbitrary: st) simp_all
  then show ?thesis by (simp add: wp_wl_detach_def)
qed

lemma ws_dmabuf_demo_bound: "ws_dmabuf demo_bound"
  by (simp add: demo_bound_def demo_known_eval initial_state_def zero_output_def zero_slot_def
      demo_buf_def zero_event_def demo_env_def handler_defs Let_def)

text \<open>
  A detach does not cancel the callback that is outstanding, so the next BUF message starts a
  second loop beside it: there is a reachable state in which an output has two frame callbacks
  outstanding, and each of them presents a frame and asks for another.
\<close>

theorem detach_duplicates_loop:
  "wl_reachable (wp_wl_handle_capture_event demo_env demo_buf (wp_wl_detach demo_bound)) \<and>
   o_pending_callbacks (ws_outputs (wp_wl_handle_capture_event demo_env demo_buf
     (wp_wl_detach demo_bound)) ! 0) = 2"
proof
  have "wl_reachable (wp_wl_detach demo_bound)"
    by (rule wl_reachable_step [OF reachable_demo_bound wl_step.detach])
  then show "wl_reachable (wp_wl_handle_capture_event demo_env demo_buf (wp_wl_detach demo_bound))"
    by (rule wl_reachable_step [OF _ wl_step.capture]) (simp add: has_fd_def demo_buf_def)
  show "o_pending_callbacks (ws_outputs (wp_wl_handle_capture_event demo_env demo_buf
     (wp_wl_detach demo_bound)) ! 0) = 2"
    by (simp add: wp_wl_handle_capture_event_def handle_buf_def demo_buf_def zero_event_def demo_env_def
        outputs_detach demo_bound_eval ws_dmabuf_demo_bound clear_output_def upd_slot_def zero_slot_def
        zero_output_def idle_def handler_defs Let_def) (simp add: word_le_nat_alt)
qed

section \<open>The output of a new channel\<close>

definition free_output :: "wp_wl_state \<Rightarrow> nat \<Rightarrow> bool" where
  "free_output st j \<longleftrightarrow> j < length (ws_outputs st) \<and> o_known (ws_outputs st ! j) \<and>
     \<not> o_has_bound_channel (ws_outputs st ! j)"

definition at_position :: "wp_wl_state \<Rightarrow> i32 \<Rightarrow> i32 \<Rightarrow> nat \<Rightarrow> bool" where
  "at_position st x y j \<longleftrightarrow> o_x (ws_outputs st ! j) = x \<and> o_y (ws_outputs st ! j) = y"

definition of_size :: "wp_wl_state \<Rightarrow> u32 \<Rightarrow> u32 \<Rightarrow> nat \<Rightarrow> bool" where
  "of_size st w h j \<longleftrightarrow> o_width (ws_outputs st ! j) = w \<and> o_height (ws_outputs st ! j) = h"

text \<open>The choice by size: a free output of that size, else the leftmost free one.\<close>

definition size_choice :: "wp_wl_state \<Rightarrow> u32 \<Rightarrow> u32 \<Rightarrow> nat \<Rightarrow> bool" where
  "size_choice st w h i \<longleftrightarrow>
     (if \<exists>j. free_output st j \<and> of_size st w h j then of_size st w h i
      else \<forall>j. free_output st j \<longrightarrow> sint (o_x (ws_outputs st ! i)) \<le> sint (o_x (ws_outputs st ! j)))"

lemma claim_position_choice:
  "case claim_output_for_position ch x y st of
     (Some i, st') \<Rightarrow> free_output st i \<and> at_position st x y i \<and> st' = upd_out i (bind_channel ch) st
   | (None, st') \<Rightarrow> (\<nexists>j. free_output st j \<and> at_position st x y j) \<and> st' = st"
  by (auto simp: claim_output_for_position_def free_output_def at_position_def find_index_None
      dest!: find_index_Some split: option.splits)

lemma claim_size_choice:
  "case claim_output_for_size ch w h st of
     (Some i, st') \<Rightarrow> free_output st i \<and> size_choice st w h i \<and> st' = upd_out i (bind_channel ch) st
   | (None, st') \<Rightarrow> (\<nexists>j. free_output st j) \<and> st' = st"
proof (cases "find_index (\<lambda>out. o_known out \<and> \<not> o_has_bound_channel out \<and> o_width out = w
                             \<and> o_height out = h) (ws_outputs st)")
  case (Some i)
  then show ?thesis
    by (auto simp: claim_output_for_size_def free_output_def of_size_def size_choice_def
        dest!: find_index_Some)
next
  case None
  then have "\<nexists>j. free_output st j \<and> of_size st w h j"
    by (auto simp: find_index_None free_output_def of_size_def)
  with None show ?thesis
    by (auto simp: claim_output_for_size_def size_choice_def free_output_def
        dest!: leftmost_free_Some dest: leftmost_free_None split: option.splits)
qed

text \<open>
  Where a new channel goes: a BUF message of a channel that no output has yet is given a free
  output (known to the compositor, bound to no channel) whenever there is one, and none otherwise.
  With geometry it is the output at that position if one is free; failing that, one of exactly the
  buffer's size; failing that, the leftmost. The chosen output is bound to the channel and nothing
  else changes.
\<close>

theorem buf_output_choice:
  assumes "find_output_for_channel st ch = None"
  shows "case output_for_buf ch w h g x y st of
     (Some i, st') \<Rightarrow> free_output st i \<and> st' = upd_out i (bind_channel ch) st \<and>
       (if g \<and> (\<exists>j. free_output st j \<and> at_position st x y j) then at_position st x y i
        else size_choice st w h i)
   | (None, st') \<Rightarrow> (\<nexists>j. free_output st j) \<and> st' = st"
  using assms claim_position_choice [where ch = ch and x = x and y = y and st = st]
    claim_size_choice [where ch = ch and w = w and h = h and st = st]
  by (auto simp: output_for_buf_def split: prod.splits option.splits)

theorem buf_output_choice_witness:
  "find_output_for_channel demo_known 1 = None \<and>
   fst (output_for_buf 1 800 600 True 0 0 demo_known) = Some 0 \<and> free_output demo_known 0 \<and>
   at_position demo_known 0 0 0"
proof -
  have f: "find_output_for_channel demo_known 1 = None"
    by (simp add: demo_known_eval find_output_for_channel_def zero_output_def)
  have "free_output demo_known 0 \<and> at_position demo_known 0 0 0"
    by (simp add: demo_known_eval free_output_def at_position_def zero_output_def)
  moreover have "j = 0" if "free_output demo_known j" for j
    using that by (simp add: demo_known_eval free_output_def)
  ultimately show ?thesis
    using buf_output_choice [OF f, where w = 800 and h = 600 and g = True and x = 0 and y = 0] f
    by (auto split: prod.splits option.splits)
qed

end
