(* ===== verification/WP_Paths.thy ===== *)
theory WP_Paths
  imports WP_Prelude
begin

text \<open>
  The file and socket paths of the program: \<^verbatim>\<open>protocol/paths.c\<close> and the path
  functions of \<^verbatim>\<open>programs/wallpiperd/config.c\<close> that rest on it. The environment
  block is the map \<open>env\<close> (what \<open>getenv\<close> returns); each function takes the
  \<open>out_len\<close> of its caller's buffer and returns the path, or \<^term>\<open>None\<close> where the C
  function returns \<open>false\<close>.
\<close>

type_synonym environ = "string \<Rightarrow> string option"

section \<open>protocol/paths.c\<close>

definition WALLPIPER_CAPTURE_SOCKET_PATH :: string where
  "WALLPIPER_CAPTURE_SOCKET_PATH = ''/tmp/wallpiper-capture.sock''"

definition env_path :: "environ \<Rightarrow> string \<Rightarrow> string option" where
  "env_path env name = (case env name of Some v \<Rightarrow> if v \<noteq> [] then Some v else None | None \<Rightarrow> None)"

definition fmt_ok :: "nat \<Rightarrow> string \<Rightarrow> string option" where
  "fmt_ok out_len text = (case snprintf out_len text of (out, n) \<Rightarrow>
     if 0 < n \<and> n < out_len then Some out else None)"

definition wp_ctl_socket_path :: "string option \<Rightarrow> nat \<Rightarrow> string option" where
  "wp_ctl_socket_path portal_name out_len =
     (case portal_name of None \<Rightarrow> None
      | Some name \<Rightarrow> if name = [] then None
                    else fmt_ok out_len (''/tmp/wallpiper-portal-'' @ name @ ''-ctl.sock''))"

definition wp_temp_dir :: "environ \<Rightarrow> nat \<Rightarrow> string option" where
  "wp_temp_dir env out_len =
     (case env_path env ''WALLPIPER_TEMP_DIR'' of
        Some v \<Rightarrow> fmt_ok out_len v
      | None \<Rightarrow> fmt_ok out_len ''/tmp/wallpiper'')"

definition wp_daemon_ctl_socket_path :: "environ \<Rightarrow> nat \<Rightarrow> string option" where
  "wp_daemon_ctl_socket_path env out_len =
     (case wp_temp_dir env 512 of None \<Rightarrow> None
      | Some temp_dir \<Rightarrow> fmt_ok out_len (temp_dir @ ''/wallpiperd-ctl.sock''))"

definition wp_runtime_dir :: "environ \<Rightarrow> nat \<Rightarrow> string option" where
  "wp_runtime_dir env out_len =
     (case env_path env ''WALLPIPER_RUNTIME_DIR'' of
        Some v \<Rightarrow> fmt_ok out_len v
      | None \<Rightarrow>
         (case env_path env ''XDG_STATE_HOME'' of
            Some state_home \<Rightarrow> fmt_ok out_len (state_home @ ''/wallpiper'')
          | None \<Rightarrow>
             (case env_path env ''HOME'' of
                None \<Rightarrow> None
              | Some home \<Rightarrow> fmt_ok out_len (home @ ''/.local/state/wallpiper''))))"

section \<open>Files below the temporary directory (config.c)\<close>

definition wp_renderer_pid_path :: "environ \<Rightarrow> nat \<Rightarrow> string option" where
  "wp_renderer_pid_path env out_len =
     (case wp_temp_dir env 512 of None \<Rightarrow> None
      | Some temp_dir \<Rightarrow> fmt_ok out_len (temp_dir @ ''/wallpiper-renderer-pid''))"

definition wp_wrapper_pid_path :: "environ \<Rightarrow> nat \<Rightarrow> string option" where
  "wp_wrapper_pid_path env out_len =
     (case wp_temp_dir env 512 of None \<Rightarrow> None
      | Some temp_dir \<Rightarrow> fmt_ok out_len (temp_dir @ ''/wallpiper-wrapper-pid''))"

definition wp_tray_icon_path :: "environ \<Rightarrow> nat \<Rightarrow> string option" where
  "wp_tray_icon_path env out_len =
     (case wp_temp_dir env 512 of None \<Rightarrow> None
      | Some temp_dir \<Rightarrow> fmt_ok out_len (temp_dir @ ''/wallpiper-tray-icon''))"

definition wp_tray_click_path :: "environ \<Rightarrow> nat \<Rightarrow> string option" where
  "wp_tray_click_path env out_len =
     (case wp_temp_dir env 512 of None \<Rightarrow> None
      | Some temp_dir \<Rightarrow> fmt_ok out_len (temp_dir @ ''/wallpiper-tray-click''))"

definition wp_menu_file_path :: "environ \<Rightarrow> nat \<Rightarrow> string option" where
  "wp_menu_file_path env out_len =
     (case wp_temp_dir env 512 of None \<Rightarrow> None
      | Some temp_dir \<Rightarrow> fmt_ok out_len (temp_dir @ ''/wallpiper-menu-dump''))"

definition wp_menu_command_path :: "environ \<Rightarrow> nat \<Rightarrow> string option" where
  "wp_menu_command_path env out_len =
     (case wp_temp_dir env 512 of None \<Rightarrow> None
      | Some temp_dir \<Rightarrow> fmt_ok out_len (temp_dir @ ''/wallpiper-menu-command''))"

definition wp_cursor_pos_path :: "environ \<Rightarrow> nat \<Rightarrow> string option" where
  "wp_cursor_pos_path env out_len =
     (case wp_temp_dir env 512 of None \<Rightarrow> None
      | Some temp_dir \<Rightarrow> fmt_ok out_len (temp_dir @ ''/wallpiper-cursor''))"

definition tray_opts_is :: "environ \<Rightarrow> string \<Rightarrow> bool" where
  "tray_opts_is env value = (env ''WALLPIPER_TRAY_OPTS'' = Some value)"

definition wp_tray_notray :: "environ \<Rightarrow> bool" where
  "wp_tray_notray env = tray_opts_is env ''notray''"

definition wp_tray_passthrough :: "environ \<Rightarrow> bool" where
  "wp_tray_passthrough env = tray_opts_is env ''passthrough''"

definition wp_vk_layer_path :: "environ \<Rightarrow> nat \<Rightarrow> string option" where
  "wp_vk_layer_path env out_len = wp_temp_dir env out_len"

section \<open>Facts\<close>

lemma fmt_ok_fits: "fmt_ok = fits"
  by (simp add: fun_eq_iff fmt_ok_def fits_def)

lemmas temp_path_defs =
  wp_daemon_ctl_socket_path_def wp_renderer_pid_path_def wp_wrapper_pid_path_def
  wp_tray_icon_path_def wp_tray_click_path_def wp_menu_file_path_def
  wp_menu_command_path_def wp_cursor_pos_path_def

lemma temp_dir_text: "wp_temp_dir env n = Some d \<Longrightarrow> d \<noteq> [] \<and> length d < n"
  by (auto simp: wp_temp_dir_def fmt_ok_fits split: option.splits dest!: fits_SomeD)

lemma ctl_socket_path_eq:
  "wp_ctl_socket_path (Some name) n = Some p \<longleftrightarrow>
     name \<noteq> [] \<and> p = ''/tmp/wallpiper-portal-'' @ name @ ''-ctl.sock'' \<and> length name + 31 < n"
  by (auto simp: wp_ctl_socket_path_def fmt_ok_fits fits_eq split: if_splits)

text \<open>
  Two portals never share a control socket, and no portal's control socket is the
  capture socket: the path determines the portal's name.
\<close>

theorem ctl_socket_path_inj:
  assumes "wp_ctl_socket_path (Some a) n = Some p" and "wp_ctl_socket_path (Some b) m = Some q"
  shows "(p = q \<longleftrightarrow> a = b) \<and> p \<noteq> WALLPIPER_CAPTURE_SOCKET_PATH"
  using assms by (auto simp: ctl_socket_path_eq WALLPIPER_CAPTURE_SOCKET_PATH_def)

theorem ctl_socket_path_inj_witness:
  "''/tmp/wallpiper-portal-kde-ctl.sock'' \<noteq> WALLPIPER_CAPTURE_SOCKET_PATH"
  using ctl_socket_path_inj [of "''kde''" 256 "''/tmp/wallpiper-portal-kde-ctl.sock''"
      "''kde''" 256 "''/tmp/wallpiper-portal-kde-ctl.sock''"]
  by (simp add: ctl_socket_path_eq)

end
