(* ===== verification/WP_Geometry.thy ===== *)
theory WP_Geometry
  imports WP_Prelude "HOL-Library.Log_Nat"
begin

text \<open>
  The monitor geometry and its JSON form (\<^verbatim>\<open>protocol/monitor_geometry.c\<close>). The scale is a
  C \<^verbatim>\<open>double\<close>: a finite one is its exact rational value, and \<open>round64\<close> is rounding to
  the nearest double (ties to even) of numbers in the normal range. \<open>fmt_g\<close> is the conversion
  \<^verbatim>\<open>%.6g\<close>, \<open>strtod\<close> the decimal, infinity and NaN forms of the C function. The sign of
  zero, subnormal numbers and hexadecimal input are outside the model. The conversion of a double to
  an integer is undefined out of range, which is \<^term>\<open>None\<close>.
\<close>

section \<open>Doubles\<close>

datatype real64 = Fin rat | Inf bool | Nan

definition pow_int :: "rat \<Rightarrow> int \<Rightarrow> rat" where
  "pow_int b k = (if 0 \<le> k then b ^ nat k else 1 / b ^ nat (- k))"

definition round_half_even :: "rat \<Rightarrow> int" where
  "round_half_even x =
     (let f = \<lfloor>x\<rfloor>; r = x - of_int f
      in if r < 1 / 2 then f else if 1 / 2 < r then f + 1 else if even f then f else f + 1)"

text \<open>The exponents of a positive number: \<open>2 ^ e \<le> x < 2 ^ (e + 1)\<close>, and the same for ten.\<close>

definition exponent2 :: "rat \<Rightarrow> int" where
  "exponent2 x =
     (case quotient_of x of (n, d) \<Rightarrow>
        let k = bitlen n - bitlen d in if pow_int 2 k \<le> x then k else k - 1)"

definition exponent10 :: "rat \<Rightarrow> int" where
  "exponent10 x =
     (case quotient_of x of (n, d) \<Rightarrow>
        let k = int (length (show_nat (nat n))) - int (length (show_nat (nat d)))
        in if pow_int 10 k \<le> x then k else k - 1)"

definition round64 :: "rat \<Rightarrow> rat" where
  "round64 x =
     (if x = 0 then 0
      else let e = exponent2 \<bar>x\<bar> - 52
           in of_int (round_half_even (x / pow_int 2 e)) * pow_int 2 e)"

section \<open>Printing\<close>

definition strip_zeros :: "string \<Rightarrow> string" where
  "strip_zeros s = rtrim (\<lambda>c. c = CHR ''0'') s"

definition pad_left :: "nat \<Rightarrow> string \<Rightarrow> string" where
  "pad_left n s = replicate (n - length s) (CHR ''0'') @ s"

definition with_fraction :: "string \<Rightarrow> string \<Rightarrow> string" where
  "with_fraction whole fraction = (if fraction = [] then whole else whole @ CHR ''.'' # fraction)"

text \<open>\<open>%.6g\<close> of a positive number.\<close>

definition fmt_g_pos :: "rat \<Rightarrow> string" where
  "fmt_g_pos x =
     (let k0 = exponent10 x;
          m0 = nat (round_half_even (x / pow_int 10 (k0 - 5)));
          (m, k) = (if m0 = 1000000 then (100000, k0 + 1) else (m0, k0));
          ds = pad_left 6 (show_nat m)
      in if k < - 4 \<or> 6 \<le> k
         then with_fraction (take 1 ds) (strip_zeros (drop 1 ds)) @ ''e'' @
              (if k < 0 then ''-'' else ''+'') @ pad_left 2 (show_nat (nat \<bar>k\<bar>))
         else if 0 \<le> k
         then with_fraction (take (nat k + 1) ds) (strip_zeros (drop (nat k + 1) ds))
         else with_fraction ''0'' (strip_zeros (replicate (nat (- k) - 1) (CHR ''0'') @ ds)))"

definition fmt_g :: "real64 \<Rightarrow> string" where
  "fmt_g v =
     (case v of
        Nan \<Rightarrow> ''nan''
      | Inf neg \<Rightarrow> (if neg then ''-inf'' else ''inf'')
      | Fin x \<Rightarrow> if x = 0 then ''0'' else if x < 0 then CHR ''-'' # fmt_g_pos (- x) else fmt_g_pos x)"

section \<open>Reading\<close>

definition lower :: "char \<Rightarrow> char" where
  "lower c = (let n = (of_char c :: nat) in if 65 \<le> n \<and> n \<le> 90 then char_of (n + 32) else c)"

text \<open>Digits, optional fraction, optional exponent; a fraction needs a digit on one of its sides.\<close>

definition scan_exponent :: "string \<Rightarrow> int \<times> string" where
  "scan_exponent s =
     (case s of
        [] \<Rightarrow> (0, s)
      | c # cs \<Rightarrow>
          if lower c \<noteq> CHR ''e'' then (0, s)
          else (case strip_sign cs of (neg, r) \<Rightarrow>
                  let ds = takeWhile is_digit r
                  in if ds = [] then (0, s)
                     else ((if neg then - int (digits_val 10 ds) else int (digits_val 10 ds)),
                           dropWhile is_digit r)))"

definition scan_decimal :: "string \<Rightarrow> (rat \<times> string) option" where
  "scan_decimal s =
     (let whole = takeWhile is_digit s;
          r1 = dropWhile is_digit s;
          fraction = (case r1 of [] \<Rightarrow> [] | c # cs \<Rightarrow> if c = CHR ''.'' then takeWhile is_digit cs else []);
          r2 = (case r1 of [] \<Rightarrow> [] | c # cs \<Rightarrow>
                  if c = CHR ''.'' \<and> (whole \<noteq> [] \<or> fraction \<noteq> []) then dropWhile is_digit cs else r1)
      in if whole = [] \<and> fraction = [] then None
         else case scan_exponent r2 of (e, r3) \<Rightarrow>
           Some (of_nat (digits_val 10 (whole @ fraction)) * pow_int 10 (e - int (length fraction)), r3))"

definition strtod :: "string \<Rightarrow> (real64 \<times> string) option" where
  "strtod s =
     (case strip_sign (dropWhile is_space s) of (neg, s1) \<Rightarrow>
        if map lower (take 3 s1) = ''inf''
        then Some (Inf neg, if map lower (take 8 s1) = ''infinity'' then drop 8 s1 else drop 3 s1)
        else if map lower (take 3 s1) = ''nan'' then Some (Nan, drop 3 s1)
        else map_option (\<lambda>(v, r). (Fin (round64 (if neg then - v else v)), r)) (scan_decimal s1))"

definition in_range :: "int \<Rightarrow> int \<Rightarrow> real64 \<Rightarrow> int option" where
  "in_range lo hi v =
     (case v of
        Fin x \<Rightarrow> (let i = (if 0 \<le> x then \<lfloor>x\<rfloor> else \<lceil>x\<rceil>) in if lo \<le> i \<and> i \<le> hi then Some i else None)
      | _ \<Rightarrow> None)"

definition to_int32 :: "real64 \<Rightarrow> i32 option" where
  "to_int32 v = map_option word_of_int (in_range (- (2 ^ 31)) (2 ^ 31 - 1) v)"

definition to_uint32 :: "real64 \<Rightarrow> u32 option" where
  "to_uint32 v = map_option word_of_int (in_range 0 (2 ^ 32 - 1) v)"

section \<open>The geometry\<close>

record wp_monitor_geometry =
  mg_x :: i32
  mg_y :: i32
  mg_width :: u32
  mg_height :: u32
  mg_logical_width :: u32
  mg_logical_height :: u32
  mg_scale :: real64

text \<open>The scale is printed with a fraction so that it reads back as a number with one.\<close>

definition scale_text :: "real64 \<Rightarrow> string option" where
  "scale_text scale =
     (case fits 64 (fmt_g scale) of
        None \<Rightarrow> None
      | Some buf \<Rightarrow>
          if CHR ''.'' \<notin> set buf \<and> CHR ''e'' \<notin> set buf \<and> CHR ''n'' \<notin> set buf
          then (if 64 \<le> length buf + 2 then None else Some (buf @ ''.0''))
          else Some buf)"

definition geometry_json :: "wp_monitor_geometry \<Rightarrow> string \<Rightarrow> string" where
  "geometry_json g scale =
     CHR ''{'' # DQ # ''x'' @ DQ # CHR '':'' # show_i32 (mg_x g) @
     CHR '','' # DQ # ''y'' @ DQ # CHR '':'' # show_i32 (mg_y g) @
     CHR '','' # DQ # ''width'' @ DQ # CHR '':'' # show_u32 (mg_width g) @
     CHR '','' # DQ # ''height'' @ DQ # CHR '':'' # show_u32 (mg_height g) @
     CHR '','' # DQ # ''logical_width'' @ DQ # CHR '':'' # show_u32 (mg_logical_width g) @
     CHR '','' # DQ # ''logical_height'' @ DQ # CHR '':'' # show_u32 (mg_logical_height g) @
     CHR '','' # DQ # ''scale'' @ DQ # CHR '':'' # scale @ ''}''"

definition wp_monitor_geometry_encode_json :: "wp_monitor_geometry \<Rightarrow> nat \<Rightarrow> string option" where
  "wp_monitor_geometry_encode_json g out_len =
     (case scale_text (mg_scale g) of None \<Rightarrow> None | Some scale \<Rightarrow> fits out_len (geometry_json g scale))"

fun strstr :: "string \<Rightarrow> string \<Rightarrow> string option" where
  "strstr pat [] = (if pat = [] then Some [] else None)"
| "strstr pat (c # cs) = (if starts_with pat (c # cs) then Some (c # cs) else strstr pat cs)"

definition skip_blanks :: "string \<Rightarrow> string" where
  "skip_blanks s = dropWhile (\<lambda>c. c = SP \<or> c = TAB) s"

definition find_number :: "string \<Rightarrow> string \<Rightarrow> real64 option" where
  "find_number json key =
     (case fits 40 (DQ # key @ [DQ]) of
        None \<Rightarrow> None
      | Some pattern \<Rightarrow>
         (case strstr pattern json of
            None \<Rightarrow> None
          | Some p \<Rightarrow>
             (case skip_blanks (drop (length pattern) p) of
                [] \<Rightarrow> None
              | c # cs \<Rightarrow> if c \<noteq> CHR '':'' then None else map_option fst (strtod (skip_blanks cs)))))"

text \<open>The outer option is undefined behaviour, the inner one the result of the function.\<close>

definition wp_monitor_geometry_decode_json :: "string \<Rightarrow> wp_monitor_geometry option option" where
  "wp_monitor_geometry_decode_json json =
     (case (find_number json ''x'', find_number json ''y'', find_number json ''width'',
            find_number json ''height'', find_number json ''logical_width'',
            find_number json ''logical_height'') of
        (Some x, Some y, Some w, Some h, Some lw, Some lh) \<Rightarrow>
          (let scale = (case find_number json ''scale'' of None \<Rightarrow> Fin 1 | Some s \<Rightarrow> s)
           in case (to_int32 x, to_int32 y, to_uint32 w, to_uint32 h, to_uint32 lw, to_uint32 lh) of
                (Some x, Some y, Some w, Some h, Some lw, Some lh) \<Rightarrow>
                  Some (Some \<lparr>mg_x = x, mg_y = y, mg_width = w, mg_height = h, mg_logical_width = lw,
                              mg_logical_height = lh, mg_scale = scale\<rparr>)
              | _ \<Rightarrow> None)
      | _ \<Rightarrow> Some None)"

section \<open>Whole numbers are exact\<close>

lemma pow_int_neg_nat: "k \<le> 0 \<Longrightarrow> of_int n / pow_int 2 k = (of_int (n * 2 ^ nat (- k)) :: rat)"
  by (auto simp: pow_int_def)

lemma round_half_even_int [simp]: "round_half_even (of_int n) = n"
  by (simp add: round_half_even_def)

lemma exponent2_int:
  assumes "0 < n" and "n < 2 ^ 53"
  shows "exponent2 (of_int n) \<le> 52"
proof -
  have "bitlen n \<le> 53" using assms bitlen_le_iff_power [of n 53] by simp
  moreover have "bitlen (1 :: int) = 1" by (simp add: bitlen_def floorlog_def)
  ultimately show ?thesis by (simp add: exponent2_def Let_def)
qed

lemma round64_int:
  assumes "\<bar>n\<bar> < 2 ^ 53"
  shows "round64 (of_int n) = of_int n"
proof (cases "n = 0")
  case True
  then show ?thesis by (simp add: round64_def)
next
  case False
  let ?e = "exponent2 \<bar>of_int n\<bar> - 52"
  have "exponent2 (of_int \<bar>n\<bar>) \<le> 52" using assms False by (intro exponent2_int) auto
  then have e: "?e \<le> 0" by simp
  have "pow_int 2 ?e \<noteq> 0" by (simp add: pow_int_def)
  moreover have "round64 (of_int n) = of_int (round_half_even (of_int n / pow_int 2 ?e)) * pow_int 2 ?e"
    using False by (simp add: round64_def Let_def)
  moreover have "of_int (round_half_even (of_int n / pow_int 2 ?e)) = (of_int n / pow_int 2 ?e :: rat)"
    unfolding pow_int_neg_nat [OF e] round_half_even_int ..
  ultimately show ?thesis by simp
qed

lemma scan_decimal_nat:
  assumes "r = [] \<or> hd r \<in> {CHR '','', CHR ''}''}"
  shows "scan_decimal (show_nat n @ r) = Some (of_nat n, r)"
proof -
  have d: "r = [] \<or> \<not> is_digit (hd r)" using assms by auto
  have e: "scan_exponent r = (0, r)"
    using assms by (cases r) (auto simp: scan_exponent_def lower_def)
  show ?thesis
    unfolding scan_decimal_def takeWhile_digits [OF d] dropWhile_digits [OF d]
    using assms e by (cases r) (auto simp: Let_def pow_int_def)
qed

lemma digit_not_word:
  assumes "is_digit c"
  shows "map lower (take 3 (c # s)) \<noteq> ''inf''" "map lower (take 3 (c # s)) \<noteq> ''nan''"
proof -
  have "lower c = c" using assms by (simp add: is_digit_def lower_def Let_def)
  moreover have "c \<noteq> CHR ''i''" "c \<noteq> CHR ''n''" using assms by (auto simp: is_digit_def)
  ultimately show "map lower (take 3 (c # s)) \<noteq> ''inf''" "map lower (take 3 (c # s)) \<noteq> ''nan''"
    by (simp_all add: numeral_3_eq_3)
qed

lemma strtod_show_int:
  assumes "\<bar>i\<bar> < 2 ^ 53" and "r = [] \<or> hd r \<in> {CHR '','', CHR ''}''}"
  shows "strtod (show_int i @ r) = Some (Fin (of_int i), r)"
proof -
  define n where "n = nat \<bar>i\<bar>"
  obtain c cs where s: "show_nat n = c # cs" by (cases "show_nat n") auto
  then have c: "is_digit c" using show_nat_digits [of n] by simp
  have w: "map lower (take 3 (show_nat n @ r)) \<noteq> ''inf''" "map lower (take 3 (show_nat n @ r)) \<noteq> ''nan''"
    using digit_not_word [OF c, of "cs @ r"] by (simp_all add: s)
  have "strip_sign (dropWhile is_space (show_int i @ r)) = (i < 0, show_nat n @ r)"
  proof (cases "i < 0")
    case True
    then have "show_int i = CHR ''-'' # show_nat n" by (simp add: show_int_def n_def)
    with True show ?thesis by (simp add: is_space_def strip_sign_def)
  next
    case False
    then have "show_int i = show_nat n" by (simp add: show_int_def n_def)
    with False show ?thesis by (simp only: dropWhile_space_show_nat strip_sign_show_nat)
  qed
  moreover have "(if i < 0 then - of_nat n else of_nat n) = (of_int i :: rat)" by (simp add: n_def)
  ultimately show ?thesis
    using w round64_int [OF assms(1)] by (simp add: strtod_def scan_decimal_nat [OF assms(2)])
qed

lemma strtod_show_i32:
  "r = [] \<or> hd r \<in> {CHR '','', CHR ''}''} \<Longrightarrow> strtod (show_i32 w @ r) = Some (Fin (of_int (sint w)), r)"
  using sint_greater_eq [of w] sint_less [of w] by (intro strtod_show_int) auto

lemma strtod_show_u32:
  "r = [] \<or> hd r \<in> {CHR '','', CHR ''}''} \<Longrightarrow> strtod (show_u32 w @ r) = Some (Fin (of_int (uint w)), r)"
  using strtod_show_int [of "uint w" r] unsigned_less [of w, where ?'a = int]
  by (simp add: show_int_def flip: unat_eq_nat_uint)

lemma to_int32_of_int: "- (2 ^ 31) \<le> i \<Longrightarrow> i < 2 ^ 31 \<Longrightarrow> to_int32 (Fin (of_int i)) = Some (word_of_int i)"
  by (simp add: to_int32_def in_range_def)

lemma to_uint32_of_int: "0 \<le> i \<Longrightarrow> i < 2 ^ 32 \<Longrightarrow> to_uint32 (Fin (of_int i)) = Some (word_of_int i)"
  by (simp add: to_uint32_def in_range_def)

lemma to_int32_sint [simp]: "to_int32 (Fin (signed w)) = Some w"
  using to_int32_of_int [of "sint w"] sint_greater_eq [of w] sint_less [of w] by simp

lemma to_uint32_uint [simp]: "to_uint32 (Fin (unsigned w)) = Some w"
  using to_uint32_of_int [of "uint w"] unsigned_less [of w, where ?'a = int] by simp

section \<open>Finding a field\<close>

lemma strstr_skip: "pat \<noteq> [] \<Longrightarrow> \<forall>c \<in> set s. c \<noteq> hd pat \<Longrightarrow> strstr pat (s @ t) = strstr pat t"
proof (induction s)
  case (Cons a s)
  then have "\<not> starts_with pat (a # s @ t)" by (cases pat) (auto simp: starts_with_def)
  with Cons show ?case by simp
qed simp

lemma strstr_show_int: "strstr (DQ # k) (show_int i @ t) = strstr (DQ # k) t"
  by (rule strstr_skip) (use show_int_notin [of DQ i] in auto)

lemma strstr_show_nat: "strstr (DQ # k) (show_nat n @ t) = strstr (DQ # k) t"
  by (rule strstr_skip) (use show_nat_notin [of DQ n] in auto)

lemma skip_blanks_show_int: "skip_blanks (show_int i @ t) = show_int i @ t"
proof -
  have "is_digit (hd (show_int i)) \<or> hd (show_int i) = CHR ''-''" by (rule show_int_chars [of _ i]) simp
  then show ?thesis
    unfolding skip_blanks_def by (intro dropWhile_hd) (auto simp: is_digit_not_special)
qed

lemma skip_blanks_show_nat: "skip_blanks (show_nat n @ t) = show_nat n @ t"
  using skip_blanks_show_int [of "int n" t] by (simp add: show_int_def)

lemmas find_field = find_number_def geometry_json_def fits_eq starts_with_def strstr_show_int strstr_show_nat
  skip_blanks_show_int skip_blanks_show_nat strtod_show_i32 strtod_show_u32

lemma find_fields:
  "find_number (geometry_json g t) ''x'' = Some (Fin (of_int (sint (mg_x g))))"
  "find_number (geometry_json g t) ''y'' = Some (Fin (of_int (sint (mg_y g))))"
  "find_number (geometry_json g t) ''width'' = Some (Fin (of_int (uint (mg_width g))))"
  "find_number (geometry_json g t) ''height'' = Some (Fin (of_int (uint (mg_height g))))"
  "find_number (geometry_json g t) ''logical_width'' = Some (Fin (of_int (uint (mg_logical_width g))))"
  "find_number (geometry_json g t) ''logical_height'' = Some (Fin (of_int (uint (mg_logical_height g))))"
  by (simp_all add: find_field skip_blanks_def [of "_ # _"])

lemma find_scale:
  "find_number (geometry_json g t) ''scale'' = map_option fst (strtod (skip_blanks (t @ ''}'')))"
  by (simp add: find_field skip_blanks_def [of "_ # _"])

lemma geometry_json_decodes:
  assumes "strtod (skip_blanks (t @ ''}'')) = Some (v, rest)"
  shows "wp_monitor_geometry_decode_json (geometry_json g t) = Some (Some (g\<lparr>mg_scale := v\<rparr>))"
  using assms by (simp add: wp_monitor_geometry_decode_json_def find_fields find_scale)

text \<open>
  A geometry reads back as written: whatever the encoder accepts decodes, without undefined
  conversions, to the same position and sizes, and to the scale whose text was written.
\<close>

theorem geometry_roundtrip:
  assumes "wp_monitor_geometry_encode_json g out_len = Some json" and "scale_text (mg_scale g) = Some t"
    and "strtod (skip_blanks (t @ ''}'')) = Some (v, rest)"
  shows "wp_monitor_geometry_decode_json json = Some (Some (g\<lparr>mg_scale := v\<rparr>))"
proof -
  have "json = geometry_json g t"
    using assms(1,2) by (auto simp: wp_monitor_geometry_encode_json_def dest: fits_SomeD)
  then show ?thesis using assms(3) by (simp add: geometry_json_decodes)
qed

definition demo_geometry :: wp_monitor_geometry where
  "demo_geometry = \<lparr>mg_x = -1920, mg_y = 0, mg_width = 2560, mg_height = 1440, mg_logical_width = 2560,
     mg_logical_height = 1440, mg_scale = Fin 1\<rparr>"

lemma digit_chars: "char_of (48 :: nat) = CHR ''0''" "char_of (49 :: nat) = CHR ''1''"
  by (simp_all add: char_of_def bit_0)

lemma demo_fmt: "fmt_g (Fin 1) = ''1''"
proof -
  have "exponent10 1 = 0" by (simp add: exponent10_def pow_int_def show_nat.simps)
  moreover have "round_half_even (1 / pow_int 10 (- 5)) = 100000"
    using round_half_even_int [of 100000] by (simp add: pow_int_def)
  ultimately show ?thesis
    by (simp add: fmt_g_def fmt_g_pos_def Let_def pad_left_def show_nat.simps with_fraction_def strip_zeros_def rtrim_def
        digit_chars)
qed

lemma demo_scale: "scale_text (Fin 1) = Some ''1.0''"
  by (simp add: scale_text_def demo_fmt fits_eq)

lemma demo_strtod: "strtod ''1.0}'' = Some (Fin 1, ''}'')"
proof -
  have d: "digits_val 10 ''10'' = 10" by (simp add: digits_val_def digit_of_def)
  have "scan_decimal ''1.0}'' = Some (1, ''}'')"
    by (simp add: scan_decimal_def Let_def is_digit_def scan_exponent_def lower_def pow_int_def d)
  then show ?thesis
    using round64_int [of 1] by (simp add: strtod_def strip_sign_def is_space_def lower_def numeral_3_eq_3)
qed

theorem geometry_roundtrip_witness:
  "\<exists>json. wp_monitor_geometry_encode_json demo_geometry 256 = Some json \<and>
     wp_monitor_geometry_decode_json json = Some (Some demo_geometry)"
proof -
  have "length (geometry_json demo_geometry ''1.0'') < 256"
    by (simp add: geometry_json_def demo_geometry_def show_nat.simps show_int_def)
  then have "wp_monitor_geometry_encode_json demo_geometry 256 = Some (geometry_json demo_geometry ''1.0'')"
    by (simp add: wp_monitor_geometry_encode_json_def demo_scale demo_geometry_def fits_eq)
      (simp add: geometry_json_def)
  moreover have "strtod (skip_blanks (''1.0'' @ ''}'')) = Some (Fin 1, ''}'')"
    by (simp add: skip_blanks_def demo_strtod)
  ultimately show ?thesis
    using geometry_roundtrip [of demo_geometry 256 "geometry_json demo_geometry ''1.0''" "''1.0''" "Fin 1" "''}''"]
    by (simp add: demo_scale demo_geometry_def)
qed

end
