(* ===== verification/WP_Ctl_Protocol.thy ===== *)
theory WP_Ctl_Protocol
  imports WP_Paths WP_Geometry
begin

text \<open>
  The control protocol between the daemon and a portal (\<^verbatim>\<open>protocol/ctl_protocol.c\<close>): requests and
  responses as lines of text, and the exchange of one request for one response over a stream
  socket. The interface \<open>line_codec\<close> is what the exchange needs of the two formats: an encoded
  message is one line, and decoding it gives the message back, up to a normal form.

  The result of parsing a response is an option within an option: the outer \<^term>\<open>None\<close> is the
  undefined conversion of a geometry number that is out of range.
\<close>

section \<open>Trimming\<close>

definition is_ctl_trailer :: "char \<Rightarrow> bool" where
  "is_ctl_trailer c \<longleftrightarrow> c = LF \<or> c = CR \<or> c = SP \<or> c = TAB"

definition trim :: "string \<Rightarrow> string" where
  "trim s = skip_blanks (rtrim is_ctl_trailer s)"

section \<open>Requests\<close>

datatype wp_ctl_request =
    WP_CTL_REQUEST_GEOMETRY
  | WP_CTL_REQUEST_DETACH
  | WP_CTL_REQUEST_DEBUG_ON
  | WP_CTL_REQUEST_DEBUG_OFF
  | WP_CTL_REQUEST_CURSOR_POS
  | WP_CTL_REQUEST_PING

fun request_word :: "wp_ctl_request \<Rightarrow> string" where
  "request_word WP_CTL_REQUEST_GEOMETRY = ''GEOMETRY''"
| "request_word WP_CTL_REQUEST_DETACH = ''DETACH''"
| "request_word WP_CTL_REQUEST_DEBUG_ON = ''DEBUG_ON''"
| "request_word WP_CTL_REQUEST_DEBUG_OFF = ''DEBUG_OFF''"
| "request_word WP_CTL_REQUEST_CURSOR_POS = ''CURSOR_POS''"
| "request_word WP_CTL_REQUEST_PING = ''PING''"

definition wp_ctl_request_encode :: "wp_ctl_request \<Rightarrow> nat \<Rightarrow> string option" where
  "wp_ctl_request_encode request out_len = fits out_len (request_word request @ [LF])"

definition wp_ctl_request_parse :: "string \<Rightarrow> wp_ctl_request option" where
  "wp_ctl_request_parse line =
     (case fits 64 line of
        None \<Rightarrow> None
      | Some b \<Rightarrow>
         (let buf = trim b in
          if buf = ''GEOMETRY'' then Some WP_CTL_REQUEST_GEOMETRY
          else if buf = ''DETACH'' then Some WP_CTL_REQUEST_DETACH
          else if buf = ''DEBUG_ON'' then Some WP_CTL_REQUEST_DEBUG_ON
          else if buf = ''DEBUG_OFF'' then Some WP_CTL_REQUEST_DEBUG_OFF
          else if buf = ''CURSOR_POS'' then Some WP_CTL_REQUEST_CURSOR_POS
          else if buf = ''PING'' then Some WP_CTL_REQUEST_PING
          else None))"

section \<open>Responses\<close>

datatype wp_ctl_response =
    WP_CTL_RESPONSE_OK
  | WP_CTL_RESPONSE_ERR string
  | WP_CTL_RESPONSE_GEOMETRY wp_monitor_geometry
  | WP_CTL_RESPONSE_CURSOR_POS i32 i32

definition wp_ctl_response_encode :: "wp_ctl_response \<Rightarrow> nat \<Rightarrow> string option" where
  "wp_ctl_response_encode response out_len =
     (case response of
        WP_CTL_RESPONSE_OK \<Rightarrow> fits out_len (''OK'' @ [LF])
      | WP_CTL_RESPONSE_ERR err \<Rightarrow> fits out_len (''ERR '' @ err @ [LF])
      | WP_CTL_RESPONSE_GEOMETRY g \<Rightarrow>
          (case wp_monitor_geometry_encode_json g 256 of
             None \<Rightarrow> None
           | Some json \<Rightarrow> fits out_len (''GEOMETRY '' @ json @ [LF]))
      | WP_CTL_RESPONSE_CURSOR_POS x y \<Rightarrow>
          fits out_len (''CURSOR_POS '' @ show_i32 x @ SP # show_i32 y @ [LF]))"

text \<open>\<open>sscanf(s, "%d %d", ...)\<close>: both conversions must succeed.\<close>

definition scan_two_ints :: "string \<Rightarrow> (i32 \<times> i32) option" where
  "scan_two_ints s =
     (case strtol 10 s of
        None \<Rightarrow> None
      | Some (x, r) \<Rightarrow>
         (case strtol 10 r of None \<Rightarrow> None | Some (y, _) \<Rightarrow> Some (word_of_int x, word_of_int y)))"

definition wp_ctl_response_parse :: "string \<Rightarrow> wp_ctl_response option option" where
  "wp_ctl_response_parse line =
     (case fits 512 line of
        None \<Rightarrow> Some None
      | Some b \<Rightarrow>
         (let buf = trim b in
          if buf = ''OK'' then Some (Some WP_CTL_RESPONSE_OK)
          else if starts_with ''ERR'' buf
          then Some (Some (WP_CTL_RESPONSE_ERR (take 255 (skip_blanks (drop 3 buf)))))
          else if starts_with ''GEOMETRY '' buf
          then (case wp_monitor_geometry_decode_json (drop 9 buf) of
                  None \<Rightarrow> None
                | Some None \<Rightarrow> Some None
                | Some (Some g) \<Rightarrow> Some (Some (WP_CTL_RESPONSE_GEOMETRY g)))
          else if starts_with ''CURSOR_POS '' buf
          then Some (map_option (\<lambda>(x, y). WP_CTL_RESPONSE_CURSOR_POS x y) (scan_two_ints (drop 11 buf)))
          else Some None))"

section \<open>One exchange\<close>

text \<open>
  \<open>read_line\<close> reads up to \<open>out_len - 1\<close> bytes of what the peer sends before it closes or
  the timeout; no byte at all is a failure. A line with a NUL byte ends there for the parsers.
\<close>

definition read_line :: "string \<Rightarrow> nat \<Rightarrow> string option" where
  "read_line input out_len =
     (let line = read_line_loop (out_len - 1) input in if line = [] then None else Some (cstr line))"

record ctl_env =
  ce_connect :: bool
  ce_timeouts :: bool
  ce_write :: bool

text \<open>
  \<open>wp_send_ctl_request\<close>: \<open>peer\<close> is what the portal sends back for the request line it is
  given.
\<close>

definition wp_send_ctl_request ::
  "ctl_env \<Rightarrow> string option \<Rightarrow> (string \<Rightarrow> string) \<Rightarrow> wp_ctl_request \<Rightarrow> wp_ctl_response option option" where
  "wp_send_ctl_request env portal_name peer request =
     (case wp_ctl_socket_path portal_name 256 of
        None \<Rightarrow> Some None
      | Some path \<Rightarrow>
          if 108 \<le> length path then Some None
          else if \<not> ce_connect env then Some None
          else if \<not> ce_timeouts env then Some None
          else (case wp_ctl_request_encode request 32 of
                  None \<Rightarrow> Some None
                | Some req_line \<Rightarrow>
                    if \<not> ce_write env then Some None
                    else (case read_line (peer req_line) 512 of
                            None \<Rightarrow> Some None
                          | Some resp_line \<Rightarrow> wp_ctl_response_parse resp_line)))"

section \<open>The interface of a line format\<close>

text \<open>
  \<open>enc\<close> and \<open>dec\<close> are a format's encoder and parser, \<open>ok\<close> the messages it can carry, and
  \<open>norm\<close> what of a message survives.
\<close>

locale line_codec =
  fixes enc :: "'m \<Rightarrow> string option" and dec :: "string \<Rightarrow> 'm option"
    and ok :: "'m \<Rightarrow> bool" and norm :: "'m \<Rightarrow> 'm"
  assumes enc_line: "ok m \<Longrightarrow> enc m = Some t \<Longrightarrow> \<exists>body. t = body @ [LF] \<and> LF \<notin> set body \<and> NUL \<notin> set body"
    and dec_enc: "ok m \<Longrightarrow> enc m = Some t \<Longrightarrow> dec t = Some (norm m)"
begin

text \<open>A message followed by anything arrives, whatever follows it on the stream.\<close>

lemma read_message:
  assumes "ok m" and "enc m = Some t" and "length t < out_len"
  shows "read_line (t @ rest) out_len = Some t \<and> dec t = Some (norm m)"
proof -
  obtain body where b: "t = body @ [LF]" "LF \<notin> set body" "NUL \<notin> set body"
    using enc_line [OF assms(1,2)] by blast
  have "read_line_loop (out_len - 1) (body @ LF # rest) = body @ [LF]"
    using b assms(3) by (intro read_line_loop_line) simp_all
  moreover have "cstr (body @ [LF]) = body @ [LF]" using b by (intro cstr_id) simp
  ultimately show ?thesis using b dec_enc [OF assms(1,2)] by (simp add: read_line_def)
qed

text \<open>Messages that share a line share their normal form.\<close>

lemma enc_inj: "ok m \<Longrightarrow> ok m' \<Longrightarrow> enc m = Some t \<Longrightarrow> enc m' = Some t \<Longrightarrow> norm m = norm m'"
  using dec_enc [of m t] dec_enc [of m' t] by simp

end

lemma trim_line: "trim (s @ [LF]) = trim s"
  by (simp add: trim_def is_ctl_trailer_def)

lemma trim_word:
  assumes "s \<noteq> []" and "\<not> is_ctl_trailer (last s)" and "hd s \<noteq> SP" and "hd s \<noteq> TAB"
  shows "trim s = s"
proof -
  have "rtrim is_ctl_trailer s = s" using assms(2) by (simp add: rtrim_id)
  then show ?thesis using assms by (cases s) (simp_all add: trim_def skip_blanks_def)
qed

lemma request_word_plain:
  "LF \<notin> set (request_word r) \<and> NUL \<notin> set (request_word r) \<and> trim (request_word r) = request_word r \<and>
   length (request_word r) < 31"
  by (cases r) (simp_all add: trim_word is_ctl_trailer_def)

lemma request_parse_word: "wp_ctl_request_parse (request_word r @ [LF]) = Some r"
proof -
  have "fits 64 (request_word r @ [LF]) = Some (request_word r @ [LF])"
    using request_word_plain [of r] by (simp add: fits_eq)
  moreover have "trim (request_word r @ [LF]) = request_word r"
    using request_word_plain [of r] by (simp add: trim_line)
  ultimately show ?thesis
    by (simp add: wp_ctl_request_parse_def Let_def) (cases r; simp)
qed

interpretation requests: line_codec "\<lambda>r. wp_ctl_request_encode r 32" wp_ctl_request_parse "\<lambda>_. True" "\<lambda>r. r"
proof
  fix r t assume "wp_ctl_request_encode r 32 = Some t"
  then have t: "t = request_word r @ [LF]" by (auto simp: wp_ctl_request_encode_def dest: fits_SomeD)
  then show "\<exists>body. t = body @ [LF] \<and> LF \<notin> set body \<and> NUL \<notin> set body"
    using request_word_plain [of r] by auto
  show "wp_ctl_request_parse t = Some r" using t request_parse_word by simp
qed

section \<open>Responses as lines\<close>

definition rescale :: "wp_monitor_geometry \<Rightarrow> real64 option" where
  "rescale g = (case scale_text (mg_scale g) of
     None \<Rightarrow> None | Some t \<Rightarrow> map_option fst (strtod (skip_blanks (t @ ''}''))))"

text \<open>What a response reads back as.\<close>

definition norm_response :: "wp_ctl_response \<Rightarrow> wp_ctl_response" where
  "norm_response response =
     (case response of
        WP_CTL_RESPONSE_ERR err \<Rightarrow> WP_CTL_RESPONSE_ERR (take 255 (skip_blanks (rtrim is_ctl_trailer err)))
      | WP_CTL_RESPONSE_GEOMETRY g \<Rightarrow>
          WP_CTL_RESPONSE_GEOMETRY (case rescale g of None \<Rightarrow> g | Some v \<Rightarrow> g\<lparr>mg_scale := v\<rparr>)
      | _ \<Rightarrow> response)"

text \<open>A response the line can carry: no line break in an error text, a scale that reads back.\<close>

definition carriable :: "wp_ctl_response \<Rightarrow> bool" where
  "carriable response \<longleftrightarrow>
     (case response of
        WP_CTL_RESPONSE_ERR err \<Rightarrow> LF \<notin> set err \<and> NUL \<notin> set err
      | WP_CTL_RESPONSE_GEOMETRY g \<Rightarrow>
          (case scale_text (mg_scale g) of None \<Rightarrow> True | Some t \<Rightarrow> LF \<notin> set t \<and> NUL \<notin> set t) \<and> rescale g \<noteq> None
      | _ \<Rightarrow> True)"

definition response_dec :: "string \<Rightarrow> wp_ctl_response option" where
  "response_dec line = (case wp_ctl_response_parse line of Some (Some m) \<Rightarrow> Some m | _ \<Rightarrow> None)"

lemma rtrim_cons_word: "\<not> p c \<Longrightarrow> rtrim p (w @ c # s) = w @ c # rtrim p s"
proof (induction s rule: rev_induct)
  case Nil
  then show ?case by (simp add: rtrim_id [of "w @ [c]"] rtrim_id [of "[]"])
next
  case (snoc x s)
  show ?case
  proof (cases "p x")
    case True
    then have "rtrim p (w @ c # s @ [x]) = rtrim p (w @ c # s)"
      using rtrim_snoc [of p x "w @ c # s"] by simp
    with True snoc show ?thesis by simp
  next
    case False
    then show ?thesis by (simp add: rtrim_id)
  qed
qed

lemma rtrim_blank_prefix: "p c \<Longrightarrow> rtrim p (w @ c # s) = (if rtrim p s = [] then rtrim p w else w @ c # rtrim p s)"
proof -
  assume "p c"
  obtain t where t: "s = rtrim p s @ t" "\<forall>x \<in> set t. p x" using rtrim_prefix [of s p] by blast
  show ?thesis
  proof (cases "rtrim p s = []")
    case True
    with t \<open>p c\<close> have "\<forall>x \<in> set (c # s). p x" by auto
    then show ?thesis using True rtrim_append [of "c # s" p w] by simp
  next
    case False
    have "rtrim p (w @ c # s) = rtrim p ((w @ c # rtrim p s) @ t)" using t(1) by simp
    also have "\<dots> = rtrim p (w @ c # rtrim p s)" by (rule rtrim_append [OF t(2)])
    also have "\<dots> = w @ c # rtrim p s" using False rtrim_last [OF False] by (intro rtrim_id) simp
    finally show ?thesis using False by simp
  qed
qed

lemma skip_blanks_Nil [simp]: "skip_blanks [] = []"
  by (simp add: skip_blanks_def)

lemma trim_err:
  "trim (''ERR '' @ err @ [LF]) =
     (if rtrim is_ctl_trailer err = [] then ''ERR'' else ''ERR '' @ rtrim is_ctl_trailer err)"
proof -
  have "rtrim is_ctl_trailer (''ERR '' @ err @ [LF]) = rtrim is_ctl_trailer (''ERR'' @ SP # err)"
    using rtrim_snoc [of is_ctl_trailer LF "''ERR '' @ err"] by (simp add: is_ctl_trailer_def)
  also have "\<dots> = (if rtrim is_ctl_trailer err = [] then ''ERR'' else ''ERR'' @ SP # rtrim is_ctl_trailer err)"
    by (subst rtrim_blank_prefix) (simp_all add: is_ctl_trailer_def rtrim_id)
  finally show ?thesis by (simp add: trim_def skip_blanks_def)
qed

lemma parse_err:
  assumes "fits n (''ERR '' @ err @ [LF]) = Some t" and "n \<le> 512"
  shows "wp_ctl_response_parse t = Some (Some (norm_response (WP_CTL_RESPONSE_ERR err)))"
proof -
  from assms have t: "t = ''ERR '' @ err @ [LF]" "length t < 512" by (auto dest: fits_SomeD)
  then have "fits 512 t = Some t" by (simp add: fits_eq)
  moreover have "trim t = (if rtrim is_ctl_trailer err = [] then ''ERR'' else ''ERR '' @ rtrim is_ctl_trailer err)"
    using trim_err t by simp
  ultimately show ?thesis
    by (simp add: wp_ctl_response_parse_def Let_def starts_with_def norm_response_def)
      (simp add: skip_blanks_def)
qed

lemma parse_geometry:
  assumes "wp_monitor_geometry_encode_json g 256 = Some json" and "rescale g = Some v"
    and "fits n (''GEOMETRY '' @ json @ [LF]) = Some t" and "n \<le> 512"
  shows "wp_ctl_response_parse t = Some (Some (WP_CTL_RESPONSE_GEOMETRY (g\<lparr>mg_scale := v\<rparr>)))"
proof -
  from assms(3,4) have t: "t = ''GEOMETRY '' @ json @ [LF]" "length t < 512" by (auto dest: fits_SomeD)
  obtain s rest where s: "scale_text (mg_scale g) = Some s" "strtod (skip_blanks (s @ ''}'')) = Some (v, rest)"
    using assms(2) by (auto simp: rescale_def split: option.splits)
  have j: "json = geometry_json g s"
    using assms(1) s(1) by (auto simp: wp_monitor_geometry_encode_json_def dest: fits_SomeD)
  have "fits 512 t = Some t" using t by (simp add: fits_eq)
  moreover have "trim t = ''GEOMETRY '' @ json"
    unfolding t(1) using trim_line [of "''GEOMETRY '' @ json"]
    by (simp add: trim_word j geometry_json_def is_ctl_trailer_def)
  moreover have "wp_monitor_geometry_decode_json json = Some (Some (g\<lparr>mg_scale := v\<rparr>))"
    using s by (simp add: j geometry_json_decodes)
  ultimately show ?thesis
    by (simp add: wp_ctl_response_parse_def Let_def starts_with_def)
qed

lemma parse_cursor:
  assumes "fits n (''CURSOR_POS '' @ show_i32 x @ SP # show_i32 y @ [LF]) = Some t" and "n \<le> 512"
  shows "wp_ctl_response_parse t = Some (Some (WP_CTL_RESPONSE_CURSOR_POS x y))"
proof -
  let ?b = "''CURSOR_POS '' @ show_i32 x @ SP # show_i32 y"
  from assms have t: "t = ?b @ [LF]" "length t < 512" by (auto dest: fits_SomeD)
  have "fits 512 t = Some t" using t by (simp add: fits_eq)
  moreover have "trim t = ?b"
    unfolding t(1) trim_line by (rule trim_word) (simp_all add: is_ctl_trailer_def last_show_int)
  moreover have "scan_two_ints (show_i32 x @ SP # show_i32 y) = Some (x, y)"
  proof -
    have b: "- (2 ^ 63) \<le> sint w \<and> sint w < 2 ^ 63" for w :: i32
      using sint_greater_eq [of w] sint_less [of w] by simp
    have "strtol 10 (show_i32 x @ SP # show_i32 y) = Some (sint x, SP # show_i32 y)"
      using b [of x] by (intro strtol_show_int) simp_all
    moreover have "strtol 10 (SP # show_i32 y) = strtol 10 (show_i32 y)"
      by (simp add: strtol_def strto_def is_space_def)
    moreover have "strtol 10 (show_i32 y) = Some (sint y, [])"
      using b [of y] strtol_show_int [of "sint y" "[]"] by simp
    ultimately show ?thesis by (simp add: scan_two_ints_def)
  qed
  ultimately show ?thesis
    by (simp add: wp_ctl_response_parse_def Let_def starts_with_def)
qed

lemma parse_ok: "fits n (''OK'' @ [LF]) = Some t \<Longrightarrow> wp_ctl_response_parse t = Some (Some WP_CTL_RESPONSE_OK)"
proof -
  assume "fits n (''OK'' @ [LF]) = Some t"
  then have t: "t = ''OK'' @ [LF]" by (auto dest: fits_SomeD)
  moreover have "trim (''OK'' @ [LF]) = ''OK''"
    unfolding trim_line by (rule trim_word) (simp_all add: is_ctl_trailer_def)
  ultimately show ?thesis by (simp add: wp_ctl_response_parse_def Let_def fits_eq)
qed

lemma response_parse_encode:
  assumes "carriable m" and "wp_ctl_response_encode m n = Some t" and "n \<le> 512"
  shows "wp_ctl_response_parse t = Some (Some (norm_response m))"
proof (cases m)
  case WP_CTL_RESPONSE_OK
  then show ?thesis using assms parse_ok by (simp add: wp_ctl_response_encode_def norm_response_def)
next
  case (WP_CTL_RESPONSE_ERR err)
  then show ?thesis using assms parse_err by (simp add: wp_ctl_response_encode_def)
next
  case (WP_CTL_RESPONSE_GEOMETRY g)
  then show ?thesis
    using assms by (auto simp: wp_ctl_response_encode_def norm_response_def carriable_def parse_geometry
        split: option.splits)
next
  case (WP_CTL_RESPONSE_CURSOR_POS x y)
  then show ?thesis using assms parse_cursor by (simp add: wp_ctl_response_encode_def norm_response_def)
qed

lemma geometry_json_plain:
  "c \<in> {LF, NUL} \<Longrightarrow> c \<notin> set t \<Longrightarrow> c \<notin> set (geometry_json g t)"
  by (auto simp: geometry_json_def)

lemma response_line:
  assumes "carriable m" and "wp_ctl_response_encode m n = Some t"
  shows "\<exists>body. t = body @ [LF] \<and> LF \<notin> set body \<and> NUL \<notin> set body"
proof (cases m)
  case WP_CTL_RESPONSE_OK
  then show ?thesis using assms by (auto simp: wp_ctl_response_encode_def dest!: fits_SomeD)
next
  case (WP_CTL_RESPONSE_ERR err)
  then show ?thesis using assms
    by (auto simp: wp_ctl_response_encode_def carriable_def dest!: fits_SomeD intro!: exI [of _ "''ERR '' @ err"])
next
  case (WP_CTL_RESPONSE_GEOMETRY g)
  with assms(2) obtain json where j: "wp_monitor_geometry_encode_json g 256 = Some json"
    and t: "t = (''GEOMETRY '' @ json) @ [LF]"
    by (auto simp: wp_ctl_response_encode_def split: option.splits dest!: fits_SomeD)
  from j obtain s where s: "scale_text (mg_scale g) = Some s" "json = geometry_json g s"
    by (auto simp: wp_monitor_geometry_encode_json_def split: option.splits dest!: fits_SomeD)
  with assms(1) WP_CTL_RESPONSE_GEOMETRY have "LF \<notin> set json" "NUL \<notin> set json"
    by (simp_all add: carriable_def geometry_json_plain)
  with t show ?thesis by (intro exI [of _ "''GEOMETRY '' @ json"]) simp
next
  case (WP_CTL_RESPONSE_CURSOR_POS x y)
  then show ?thesis using assms
    by (auto simp: wp_ctl_response_encode_def dest!: fits_SomeD
        intro!: exI [of _ "''CURSOR_POS '' @ show_i32 x @ SP # show_i32 y"])
qed

interpretation responses: line_codec "\<lambda>m. wp_ctl_response_encode m 512" response_dec carriable norm_response
proof
  fix m t assume m: "carriable m" "wp_ctl_response_encode m 512 = Some t"
  show "\<exists>body. t = body @ [LF] \<and> LF \<notin> set body \<and> NUL \<notin> set body" by (rule response_line [OF m])
  show "response_dec t = Some (norm_response m)"
    using response_parse_encode [OF m] by (simp add: response_dec_def)
qed

section \<open>Serving one connection\<close>

text \<open>
  What \<open>ctl_listener_thread_main\<close> writes to a connection that sends \<open>input\<close>, when
  \<open>respond\<close> is the response it obtains for a request.
\<close>

definition serve_connection :: "(wp_ctl_request \<Rightarrow> wp_ctl_response) \<Rightarrow> string \<Rightarrow> string" where
  "serve_connection respond input =
     (case read_line input 512 of
        None \<Rightarrow> []
      | Some line \<Rightarrow>
         (case wp_ctl_request_parse line of
            None \<Rightarrow> (case wp_ctl_response_encode (WP_CTL_RESPONSE_ERR ''unrecognized command'') 64 of
                       None \<Rightarrow> [] | Some resp \<Rightarrow> resp)
          | Some request \<Rightarrow> (case wp_ctl_response_encode (respond request) 512 of
                              None \<Rightarrow> [] | Some resp \<Rightarrow> resp)))"

lemma request_encode: "wp_ctl_request_encode r 32 = Some (request_word r @ [LF])"
  using request_word_plain [of r] by (simp add: wp_ctl_request_encode_def fits_eq)

lemma encode_length: "wp_ctl_response_encode m n = Some t \<Longrightarrow> length t < n"
  by (auto simp: wp_ctl_response_encode_def split: wp_ctl_response.splits option.splits dest!: fits_SomeD)

section \<open>Properties\<close>

text \<open>
  C38. One exchange returns what the portal answered: with the connection up, the client's request
  line is understood as the request it stands for, and the response is the portal's response in
  normal form (an error text without surrounding blanks and cut at 255 bytes, a scale re-read
  from its text), for every request and every response that fits its line.
\<close>

theorem ctl_exchange:
  assumes "ce_connect env" and "ce_timeouts env" and "ce_write env"
    and "wp_ctl_socket_path portal 256 = Some path" and "length path < 108"
    and "carriable (respond request)" and "wp_ctl_response_encode (respond request) 512 \<noteq> None"
  shows "wp_send_ctl_request env portal (serve_connection respond) request =
    Some (Some (norm_response (respond request)))"
proof -
  obtain t where t: "wp_ctl_response_encode (respond request) 512 = Some t" using assms(7) by blast
  have "read_line (request_word request @ [LF]) 512 = Some (request_word request @ [LF])"
    using requests.read_message [OF _ request_encode, of request 512 "[]"] request_word_plain [of request] by simp
  then have "serve_connection respond (request_word request @ [LF]) = t"
    by (simp add: serve_connection_def request_parse_word t)
  moreover have "read_line t 512 = Some t"
    using responses.read_message [OF assms(6) t encode_length [OF t], of "[]"] by simp
  ultimately show ?thesis
    using assms(1-5) response_parse_encode [OF assms(6) t]
    by (simp add: wp_send_ctl_request_def request_encode)
qed

theorem ctl_exchange_witness:
  "wp_send_ctl_request \<lparr>ce_connect = True, ce_timeouts = True, ce_write = True\<rparr> (Some ''kde'')
     (serve_connection (\<lambda>_. WP_CTL_RESPONSE_CURSOR_POS 7 (- 3))) WP_CTL_REQUEST_CURSOR_POS =
   Some (Some (WP_CTL_RESPONSE_CURSOR_POS 7 (- 3)))"
proof -
  have "wp_ctl_response_encode (WP_CTL_RESPONSE_CURSOR_POS 7 (- 3)) 512 \<noteq> None"
    using length_show_i32 [of 7] length_show_i32 [of "- 3"]
    by (simp add: wp_ctl_response_encode_def fits_eq)
  then show ?thesis
    using ctl_exchange [of "\<lparr>ce_connect = True, ce_timeouts = True, ce_write = True\<rparr>" "Some ''kde''"
        "''/tmp/wallpiper-portal-kde-ctl.sock''" "\<lambda>_. WP_CTL_RESPONSE_CURSOR_POS 7 (- 3)" WP_CTL_REQUEST_CURSOR_POS]
    by (simp add: wp_ctl_socket_path_def fmt_ok_def snprintf_def carriable_def norm_response_def)
qed

text \<open>
  A line that is not a request never reaches the portal: unless the received line is one of the
  six request words with blanks around it, the answer is \<^verbatim>\<open>ERR unrecognized command\<close>,
  whatever the portal would respond.
\<close>

theorem unknown_request_rejected:
  assumes "read_line input 512 = Some line" and "\<And>r. trim line \<noteq> request_word r"
  shows "serve_connection respond input = ''ERR unrecognized command'' @ [LF]"
proof -
  have "wp_ctl_request_parse line = None"
    using assms(2) [of WP_CTL_REQUEST_GEOMETRY] assms(2) [of WP_CTL_REQUEST_DETACH]
      assms(2) [of WP_CTL_REQUEST_DEBUG_ON] assms(2) [of WP_CTL_REQUEST_DEBUG_OFF]
      assms(2) [of WP_CTL_REQUEST_CURSOR_POS] assms(2) [of WP_CTL_REQUEST_PING]
    by (auto simp: wp_ctl_request_parse_def Let_def dest: fits_SomeD split: option.splits)
  then show ?thesis using assms(1) by (simp add: serve_connection_def wp_ctl_response_encode_def fits_eq)
qed

theorem unknown_request_rejected_witness:
  "serve_connection (\<lambda>_. WP_CTL_RESPONSE_OK) (''PING PONG'' @ [LF]) = ''ERR unrecognized command'' @ [LF]"
proof (rule unknown_request_rejected)
  show "read_line (''PING PONG'' @ [LF]) 512 = Some (''PING PONG'' @ [LF])"
    using read_line_loop_line [of "''PING PONG''" 511 "[]"] by (simp add: read_line_def cstr_def)
  show "trim (''PING PONG'' @ [LF]) \<noteq> request_word r" for r
    unfolding trim_line by (cases r) (simp_all add: trim_word is_ctl_trailer_def)
qed

end
