(* ===== verification/WP_Ctl_Listener.thy ===== *)
theory WP_Ctl_Listener
  imports WP_Ctl_Protocol
begin

text \<open>
  The control listener of a portal (\<^verbatim>\<open>protocol/ctl_protocol.c\<close>): a thread that serves one
  connection at a time and a main loop that polls for the pending request and replies to it. Both
  work on the record \<open>wp_ctl_listener\<close> under its mutex, so each critical section is one step;
  the waiting thread continues when there is a reply or after two seconds, whatever the main loop is
  doing at that time. A line that is no request, and a request for the pointer's position when the
  portal has given a function for it (all portals do), are answered by the thread itself, without
  the main loop. The portal itself is a function from a request and the portal's state to the
  response and the new state.
\<close>

section \<open>The listener\<close>

record wp_ctl_listener =
  cl_has_pending :: bool
  cl_delivered :: bool
  cl_has_reply :: bool
  cl_pending_request :: wp_ctl_request
  cl_pending_reply :: wp_ctl_response

definition wp_ctl_listener_init :: wp_ctl_listener where
  "wp_ctl_listener_init = \<lparr>cl_has_pending = False, cl_delivered = False, cl_has_reply = False,
     cl_pending_request = WP_CTL_REQUEST_GEOMETRY, cl_pending_reply = WP_CTL_RESPONSE_OK\<rparr>"

text \<open>The thread's critical section up to the wait, and after it.\<close>

definition listener_submit :: "wp_ctl_request \<Rightarrow> wp_ctl_listener \<Rightarrow> wp_ctl_listener" where
  "listener_submit request l =
     l\<lparr>cl_pending_request := request, cl_has_pending := True, cl_delivered := False, cl_has_reply := False\<rparr>"

definition listener_collect :: "wp_ctl_listener \<Rightarrow> wp_ctl_response \<times> wp_ctl_listener" where
  "listener_collect l =
     (if cl_has_reply l then cl_pending_reply l
      else WP_CTL_RESPONSE_ERR ''timed out waiting for response'',
      l\<lparr>cl_has_pending := False, cl_has_reply := False\<rparr>)"

definition wp_ctl_listener_poll :: "wp_ctl_listener \<Rightarrow> wp_ctl_request option \<times> wp_ctl_listener" where
  "wp_ctl_listener_poll l =
     (if cl_has_pending l \<and> \<not> cl_delivered l
      then (Some (cl_pending_request l), l\<lparr>cl_delivered := True\<rparr>) else (None, l))"

definition wp_ctl_listener_reply :: "wp_ctl_response \<Rightarrow> wp_ctl_listener \<Rightarrow> wp_ctl_listener" where
  "wp_ctl_listener_reply response l = l\<lparr>cl_pending_reply := response, cl_has_reply := True\<rparr>"

section \<open>The thread and the main loop\<close>

text \<open>
  \<open>ct_waiting\<close> is the request the thread waits for, \<open>ct_handling\<close> the one the main loop took,
  \<open>ct_lines\<close> the lines read so far, one for each connection that sent one, \<open>ct_answers\<close> what was
  answered to them, in the same order, and \<open>ct_executed\<close> the requests the portal executed.
\<close>

type_synonym 's handler = "wp_ctl_request \<Rightarrow> 's \<Rightarrow> wp_ctl_response \<times> 's"

text \<open>The portal's function for the pointer's position, if there is one: its value at each call.\<close>

type_synonym cursor_fn = "(nat \<Rightarrow> wp_ctl_response) option"

record 's ctl_run =
  ct_listener :: wp_ctl_listener
  ct_waiting :: "wp_ctl_request option"
  ct_handling :: "wp_ctl_request option"
  ct_lines :: "string list"
  ct_answers :: "wp_ctl_response list"
  ct_executed :: "wp_ctl_request list"
  ct_portal :: 's

definition ctl_run_init :: "'s \<Rightarrow> 's ctl_run" where
  "ctl_run_init s = \<lparr>ct_listener = wp_ctl_listener_init, ct_waiting = None, ct_handling = None,
     ct_lines = [], ct_answers = [], ct_executed = [], ct_portal = s\<rparr>"

text \<open>A connection up to the wait; \<^term>\<open>None\<close> is one that ends before a line is complete.\<close>

definition run_accept :: "cursor_fn \<Rightarrow> string option \<Rightarrow> 's ctl_run \<Rightarrow> 's ctl_run" where
  "run_accept cursor_fn incoming r =
     (case incoming of
        None \<Rightarrow> r
      | Some line \<Rightarrow>
          let r1 = r\<lparr>ct_lines := ct_lines r @ [line]\<rparr>
          in case wp_ctl_request_parse line of
               None \<Rightarrow> r1\<lparr>ct_answers := ct_answers r1 @ [WP_CTL_RESPONSE_ERR ''unrecognized command'']\<rparr>
             | Some request \<Rightarrow>
                 (case if request = WP_CTL_REQUEST_CURSOR_POS then cursor_fn else None of
                    Some f \<Rightarrow> r1\<lparr>ct_answers := ct_answers r1 @ [f (length (ct_answers r1))]\<rparr>
                  | None \<Rightarrow>
                      r1\<lparr>ct_listener := listener_submit request (ct_listener r1), ct_waiting := Some request\<rparr>))"

definition run_answer :: "'s ctl_run \<Rightarrow> 's ctl_run" where
  "run_answer r =
     (case listener_collect (ct_listener r) of (response, l) \<Rightarrow>
        r\<lparr>ct_listener := l, ct_waiting := None, ct_answers := ct_answers r @ [response]\<rparr>)"

definition run_poll :: "'s ctl_run \<Rightarrow> 's ctl_run" where
  "run_poll r =
     (case wp_ctl_listener_poll (ct_listener r) of (found, l) \<Rightarrow> r\<lparr>ct_listener := l, ct_handling := found\<rparr>)"

definition run_reply :: "'s handler \<Rightarrow> wp_ctl_request \<Rightarrow> 's ctl_run \<Rightarrow> 's ctl_run" where
  "run_reply handle request r =
     (case handle request (ct_portal r) of (response, s) \<Rightarrow>
        r\<lparr>ct_listener := wp_ctl_listener_reply response (ct_listener r), ct_handling := None,
          ct_executed := ct_executed r @ [request], ct_portal := s\<rparr>)"

text \<open>A step other than the timeout, and the timeout.\<close>

inductive ctl_step :: "cursor_fn \<Rightarrow> 's handler \<Rightarrow> 's ctl_run \<Rightarrow> 's ctl_run \<Rightarrow> bool" for cursor_fn handle where
  accept: "ct_waiting r = None \<Longrightarrow> ctl_step cursor_fn handle r (run_accept cursor_fn incoming r)"
| answer: "ct_waiting r = Some request \<Longrightarrow> cl_has_reply (ct_listener r) \<Longrightarrow>
     ctl_step cursor_fn handle r (run_answer r)"
| poll: "ct_handling r = None \<Longrightarrow> ctl_step cursor_fn handle r (run_poll r)"
| reply: "ct_handling r = Some request \<Longrightarrow> ctl_step cursor_fn handle r (run_reply handle request r)"

inductive_cases ctl_stepE: "ctl_step cursor_fn handle r r'"

inductive ctl_timeout :: "'s ctl_run \<Rightarrow> 's ctl_run \<Rightarrow> bool" where
  timeout: "ct_waiting r = Some request \<Longrightarrow> \<not> cl_has_reply (ct_listener r) \<Longrightarrow>
     ctl_timeout r (run_answer r)"

section \<open>What the answers should be\<close>

text \<open>The portal executing requests one after the other.\<close>

fun execute :: "'s handler \<Rightarrow> wp_ctl_request list \<Rightarrow> 's \<Rightarrow> wp_ctl_response list \<times> 's" where
  "execute handle [] s = ([], s)"
| "execute handle (q # qs) s =
     (case handle q s of (a, s1) \<Rightarrow> case execute handle qs s1 of (as, s2) \<Rightarrow> (a # as, s2))"

lemma execute_snoc:
  "execute handle (qs @ [q]) s =
     (case execute handle qs s of (as, s1) \<Rightarrow> case handle q s1 of (a, s2) \<Rightarrow> (as @ [a], s2))"
  by (induction qs arbitrary: s) (auto split: prod.splits)

lemma length_execute: "length (fst (execute handle qs s)) = length qs"
  by (induction qs arbitrary: s) (simp_all add: case_prod_unfold)

text \<open>
  The request that a line hands to the main loop, if it does; what the thread itself answers to the
  other lines; and the answers to the lines that were handed on, with their requests.
\<close>

definition goes_to_loop :: "cursor_fn \<Rightarrow> string \<Rightarrow> wp_ctl_request option" where
  "goes_to_loop cursor_fn line =
     (case wp_ctl_request_parse line of
        None \<Rightarrow> None
      | Some request \<Rightarrow> if request = WP_CTL_REQUEST_CURSOR_POS \<and> cursor_fn \<noteq> None then None else Some request)"

definition own_answer :: "cursor_fn \<Rightarrow> nat \<Rightarrow> string \<Rightarrow> wp_ctl_response" where
  "own_answer cursor_fn n line =
     (case wp_ctl_request_parse line of
        None \<Rightarrow> WP_CTL_RESPONSE_ERR ''unrecognized command''
      | Some _ \<Rightarrow> the cursor_fn n)"

definition loop_answers :: "cursor_fn \<Rightarrow> string list \<Rightarrow> wp_ctl_response list \<Rightarrow> (wp_ctl_request \<times> wp_ctl_response) list" where
  "loop_answers cursor_fn lines answers =
     List.map_filter (\<lambda>(line, a). map_option (\<lambda>q. (q, a)) (goes_to_loop cursor_fn line)) (zip lines answers)"

lemma loop_answers_snoc:
  assumes "length lines = length answers"
  shows "loop_answers cursor_fn (lines @ [line]) (answers @ [a]) = loop_answers cursor_fn lines answers @
    (case goes_to_loop cursor_fn line of None \<Rightarrow> [] | Some q \<Rightarrow> [(q, a)])"
    and "loop_answers cursor_fn (lines @ [line]) answers = loop_answers cursor_fn lines answers"
  using assms by (auto simp: loop_answers_def List.map_filter_def zip_append1 split: option.splits)

lemma run_accept_cases:
  obtains (nothing) "run_accept cursor_fn incoming r = r"
  | (own) line where "goes_to_loop cursor_fn line = None"
      "run_accept cursor_fn incoming r = r\<lparr>ct_lines := ct_lines r @ [line],
         ct_answers := ct_answers r @ [own_answer cursor_fn (length (ct_answers r)) line]\<rparr>"
  | (submit) line q where "goes_to_loop cursor_fn line = Some q"
      "run_accept cursor_fn incoming r = r\<lparr>ct_lines := ct_lines r @ [line],
         ct_listener := listener_submit q (ct_listener r), ct_waiting := Some q\<rparr>"
proof (cases incoming)
  case None
  show thesis by (rule nothing) (simp add: run_accept_def None)
next
  case (Some line)
  show thesis
  proof (cases "goes_to_loop cursor_fn line")
    case None
    show thesis
      by (rule own [of line, OF None])
        (use None in \<open>auto simp: Some run_accept_def goes_to_loop_def own_answer_def Let_def split: option.splits if_splits\<close>)
  next
    case q: (Some q)
    show thesis
      by (rule submit [of line q, OF q])
        (use q in \<open>auto simp: Some run_accept_def goes_to_loop_def Let_def split: option.splits if_splits\<close>)
  qed
qed

text \<open>
  The invariant without timeouts: a line that is not handed on has its own answer; a request that is
  handed on is answered, then nothing is pending; or it waits to be polled, is being handled, or has
  its reply.
\<close>

definition own_ok :: "cursor_fn \<Rightarrow> 's ctl_run \<Rightarrow> bool" where
  "own_ok cursor_fn r \<longleftrightarrow> (\<forall>n < length (ct_answers r). goes_to_loop cursor_fn (ct_lines r ! n) = None \<longrightarrow>
     ct_answers r ! n = own_answer cursor_fn n (ct_lines r ! n))"

definition ctl_inv :: "cursor_fn \<Rightarrow> 's handler \<Rightarrow> 's \<Rightarrow> 's ctl_run \<Rightarrow> bool" where
  "ctl_inv cursor_fn handle s0 r \<longleftrightarrow>
     (let l = ct_listener r; (as, s) = execute handle (ct_executed r) s0; given = loop_answers cursor_fn (ct_lines r) (ct_answers r) in
      ct_portal r = s \<and> own_ok cursor_fn r \<and>
      (case ct_waiting r of
         None \<Rightarrow> length (ct_lines r) = length (ct_answers r) \<and>
           \<not> cl_has_pending l \<and> ct_handling r = None \<and> given = zip (ct_executed r) as
       | Some q \<Rightarrow> length (ct_lines r) = Suc (length (ct_answers r)) \<and> goes_to_loop cursor_fn (last (ct_lines r)) = Some q \<and>
           cl_has_pending l \<and> cl_pending_request l = q \<and>
           (if cl_has_reply l
            then cl_delivered l \<and> ct_handling r = None \<and> given @ [(q, cl_pending_reply l)] = zip (ct_executed r) as
            else given = zip (ct_executed r) as \<and> ct_handling r = (if cl_delivered l then Some q else None))))"

lemma ctl_inv_init: "ctl_inv cursor_fn handle s0 (ctl_run_init s0)"
  by (simp add: ctl_inv_def ctl_run_init_def wp_ctl_listener_init_def own_ok_def loop_answers_def List.map_filter_def)

lemma own_ok_snoc:
  assumes "own_ok cursor_fn r" and "length (ct_lines r) = length (ct_answers r)"
    and "ct_lines r' = ct_lines r @ [line]" and "ct_answers r' = ct_answers r @ [own_answer cursor_fn (length (ct_answers r)) line]"
  shows "own_ok cursor_fn r'"
  using assms by (auto simp: own_ok_def nth_append less_Suc_eq)

lemma ctl_inv_accept:
  assumes "ct_waiting r = None" and "ctl_inv cursor_fn handle s0 r"
  shows "ctl_inv cursor_fn handle s0 (run_accept cursor_fn incoming r)"
proof -
  obtain as s where e: "execute handle (ct_executed r) s0 = (as, s)" by fastforce
  note inv = assms(2) [unfolded ctl_inv_def Let_def e prod.case assms(1) option.case]
  then have len: "length (ct_lines r) = length (ct_answers r)" and own: "own_ok cursor_fn r" by blast+
  show ?thesis
  proof (cases rule: run_accept_cases [of cursor_fn incoming r])
    case nothing
    with assms(2) show ?thesis by simp
  next
    case (own line)
    let ?r = "r\<lparr>ct_lines := ct_lines r @ [line],
         ct_answers := ct_answers r @ [own_answer cursor_fn (length (ct_answers r)) line]\<rparr>"
    have "own_ok cursor_fn ?r" using \<open>own_ok cursor_fn r\<close> len by (rule own_ok_snoc) simp_all
    then show ?thesis
      using inv own(1) assms(1) by (simp add: own(2) ctl_inv_def Let_def e loop_answers_snoc(1) [OF len])
  next
    case (submit line q)
    let ?r = "r\<lparr>ct_lines := ct_lines r @ [line], ct_listener := listener_submit q (ct_listener r), ct_waiting := Some q\<rparr>"
    have "own_ok cursor_fn ?r" using own len by (simp add: own_ok_def nth_append)
    then show ?thesis
      using inv submit(1)
      by (simp add: submit(2) ctl_inv_def Let_def e loop_answers_snoc(2) [OF len] listener_submit_def)
  qed
qed

lemma ctl_inv_answer:
  assumes "ct_waiting r = Some request" and "cl_has_reply (ct_listener r)" and "ctl_inv cursor_fn handle s0 r"
  shows "ctl_inv cursor_fn handle s0 (run_answer r)"
proof -
  obtain as s where e: "execute handle (ct_executed r) s0 = (as, s)" by fastforce
  note inv = assms(3) [unfolded ctl_inv_def Let_def e prod.case assms(1) option.case]
  then have "length (ct_lines r) = Suc (length (ct_answers r))" by blast
  then obtain lines line where l: "ct_lines r = lines @ [line]" by (cases "ct_lines r" rule: rev_cases) auto
  have len: "length lines = length (ct_answers r)" and last: "goes_to_loop cursor_fn line = Some request"
    using inv by (simp_all add: l)
  have "own_ok cursor_fn (run_answer r)"
    using inv last len by (auto simp: own_ok_def run_answer_def listener_collect_def l nth_append less_Suc_eq)
  then show ?thesis
    using inv assms(2) last
    by (simp add: ctl_inv_def run_answer_def listener_collect_def Let_def e l loop_answers_snoc [OF len])
qed

lemma ctl_inv_step:
  assumes "ctl_step cursor_fn handle r r'" and "ctl_inv cursor_fn handle s0 r"
  shows "ctl_inv cursor_fn handle s0 r'"
  using assms(1)
proof cases
  case (accept incoming)
  with assms(2) show ?thesis by (simp add: ctl_inv_accept)
next
  case (answer request)
  with assms(2) show ?thesis by (simp add: ctl_inv_answer)
next
  case poll
  with assms(2) show ?thesis
    by (auto simp: ctl_inv_def own_ok_def run_poll_def wp_ctl_listener_poll_def Let_def
        split: prod.splits option.splits if_splits)
next
  case (reply request)
  obtain as s where e: "execute handle (ct_executed r) s0 = (as, s)" by fastforce
  have "length as = length (ct_executed r)" using length_execute [of handle "ct_executed r" s0] e by simp
  with reply e assms(2) show ?thesis
    by (auto simp: ctl_inv_def own_ok_def run_reply_def wp_ctl_listener_reply_def Let_def execute_snoc
        split: prod.splits option.splits if_splits)
qed

section \<open>Properties\<close>

text \<open>
  C33. Without timeouts every connection gets its own answer: along any interleaving of the listener
  thread and the main loop in which no wait times out, a line that is no request is answered with an
  error, a request for the pointer's position is answered by the portal's function for it, where it
  has one, and the answers to all other requests are, in order, the responses of the portal to the
  requests it executed, each executed once, with at most the last one not yet answered.
\<close>

theorem ctl_answers_match:
  assumes "(ctl_step cursor_fn handle)\<^sup>*\<^sup>* (ctl_run_init s0) r"
  shows "length (ct_answers r) \<le> length (ct_lines r) \<and> length (ct_lines r) \<le> length (ct_answers r) + 1 \<and>
    (\<forall>n < length (ct_answers r). goes_to_loop cursor_fn (ct_lines r ! n) = None \<longrightarrow>
       ct_answers r ! n = own_answer cursor_fn n (ct_lines r ! n)) \<and>
    (\<exists>rest. zip (ct_executed r) (fst (execute handle (ct_executed r) s0)) =
         loop_answers cursor_fn (ct_lines r) (ct_answers r) @ rest \<and> length rest \<le> 1) \<and>
    ct_portal r = snd (execute handle (ct_executed r) s0)"
proof -
  obtain as s where e: "execute handle (ct_executed r) s0 = (as, s)" by fastforce
  have "ctl_inv cursor_fn handle s0 r"
    using assms by (induction rule: rtranclp_induct) (auto simp: ctl_inv_init intro: ctl_inv_step)
  then have "ct_portal r = s" "own_ok cursor_fn r"
    "length (ct_answers r) \<le> length (ct_lines r)" "length (ct_lines r) \<le> length (ct_answers r) + 1"
    "zip (ct_executed r) as = loop_answers cursor_fn (ct_lines r) (ct_answers r) \<or>
     (\<exists>x. zip (ct_executed r) as = loop_answers cursor_fn (ct_lines r) (ct_answers r) @ [x])"
    by (auto simp: ctl_inv_def Let_def e dest: sym split: option.splits if_splits)
  then show ?thesis by (auto simp: e own_ok_def)
qed

definition demo_handle :: "nat handler" where
  "demo_handle request n = (WP_CTL_RESPONSE_CURSOR_POS (of_nat n) 0, Suc n)"

definition demo_cursor :: cursor_fn where
  "demo_cursor = Some (\<lambda>n. WP_CTL_RESPONSE_CURSOR_POS 7 8)"

definition demo_run :: "nat ctl_run" where
  "demo_run = run_accept demo_cursor (Some ''CURSOR_POS'') (run_answer (run_reply demo_handle WP_CTL_REQUEST_PING
     (run_poll (run_accept demo_cursor (Some ''PING'') (ctl_run_init 5)))))"

lemma demo_parse: "wp_ctl_request_parse ''PING'' = Some WP_CTL_REQUEST_PING"
  "wp_ctl_request_parse ''CURSOR_POS'' = Some WP_CTL_REQUEST_CURSOR_POS"
  "wp_ctl_request_parse ''DETACH'' = Some WP_CTL_REQUEST_DETACH"
  by code_simp+

lemmas run_defs = run_answer_def run_reply_def run_poll_def run_accept_def ctl_run_init_def
  listener_collect_def listener_submit_def wp_ctl_listener_poll_def wp_ctl_listener_reply_def
  wp_ctl_listener_init_def demo_parse

lemma reach_demo_run: "(ctl_step demo_cursor demo_handle)\<^sup>*\<^sup>* (ctl_run_init 5) demo_run"
proof -
  let ?step = "ctl_step demo_cursor demo_handle"
  let ?r1 = "run_accept demo_cursor (Some ''PING'') (ctl_run_init (5 :: nat))"
  let ?r3 = "run_reply demo_handle WP_CTL_REQUEST_PING (run_poll ?r1)"
  have 1: "?step (ctl_run_init 5) ?r1" by (rule ctl_step.accept) (simp add: run_defs)
  have 2: "?step ?r1 (run_poll ?r1)" by (rule ctl_step.poll) (simp add: run_defs Let_def)
  have 3: "?step (run_poll ?r1) ?r3" by (rule ctl_step.reply) (simp add: run_defs Let_def)
  have 4: "?step ?r3 (run_answer ?r3)"
    by (rule ctl_step.answer) (simp_all add: run_defs demo_handle_def Let_def)
  have 5: "?step (run_answer ?r3) demo_run"
    unfolding demo_run_def by (rule ctl_step.accept) (simp add: run_defs demo_handle_def Let_def)
  from 1 2 3 4 5 show ?thesis by (meson rtranclp.rtrancl_into_rtrancl rtranclp.rtrancl_refl)
qed

theorem ctl_answers_match_witness:
  "ct_lines demo_run = [''PING'', ''CURSOR_POS''] \<and> ct_answers demo_run ! 1 = own_answer demo_cursor 1 ''CURSOR_POS'' \<and>
   ct_portal demo_run = snd (execute demo_handle (ct_executed demo_run) 5)"
proof -
  have l: "ct_lines demo_run = [''PING'', ''CURSOR_POS'']" "length (ct_answers demo_run) = 2"
    by (simp_all add: demo_run_def run_defs demo_handle_def demo_cursor_def Let_def)
  moreover have "goes_to_loop demo_cursor ''CURSOR_POS'' = None"
    by (simp add: goes_to_loop_def demo_parse demo_cursor_def)
  ultimately show ?thesis using ctl_answers_match [OF reach_demo_run] by auto
qed

text \<open>
  A reply that comes after its request timed out is given to the next request: whatever the
  portal is, there is a run in which it executes only a PING that was answered with a timeout, and
  the DETACH sent next is answered with the PING's response although it is never executed.
\<close>

theorem late_reply_misdelivered:
  "\<exists>r. (\<lambda>a b. ctl_step cursor_fn handle a b \<or> ctl_timeout a b)\<^sup>*\<^sup>* (ctl_run_init s0) r \<and>
     ct_executed r = [WP_CTL_REQUEST_PING] \<and> ct_waiting r = None \<and> \<not> cl_has_pending (ct_listener r) \<and>
     ct_lines r = [''PING'', ''DETACH''] \<and>
     ct_answers r = [WP_CTL_RESPONSE_ERR ''timed out waiting for response'', fst (handle WP_CTL_REQUEST_PING s0)]"
proof -
  let ?step = "\<lambda>a b. ctl_step cursor_fn handle a b \<or> ctl_timeout a b"
  let ?r1 = "run_accept cursor_fn (Some ''PING'') (ctl_run_init s0)"
  let ?r2 = "run_poll ?r1"
  let ?r3 = "run_answer ?r2"
  let ?r4 = "run_accept cursor_fn (Some ''DETACH'') ?r3"
  let ?r5 = "run_reply handle WP_CTL_REQUEST_PING ?r4"
  let ?r6 = "run_answer ?r5"
  have 1: "?step (ctl_run_init s0) ?r1" by (intro disjI1 ctl_step.accept) (simp add: run_defs)
  have 2: "?step ?r1 ?r2" by (intro disjI1 ctl_step.poll) (simp add: run_defs Let_def)
  have 3: "?step ?r2 ?r3" by (intro disjI2 ctl_timeout.timeout) (simp_all add: run_defs Let_def)
  have 4: "?step ?r3 ?r4" by (intro disjI1 ctl_step.accept) (simp add: run_defs Let_def)
  have 5: "?step ?r4 ?r5" by (intro disjI1 ctl_step.reply) (simp add: run_defs Let_def)
  have 6: "?step ?r5 ?r6"
    by (intro disjI1 ctl_step.answer) (simp_all add: run_defs case_prod_unfold Let_def)
  have "?step\<^sup>*\<^sup>* (ctl_run_init s0) ?r6"
    by (rule converse_rtranclp_into_rtranclp [of ?step, OF 1], rule converse_rtranclp_into_rtranclp [of ?step, OF 2],
        rule converse_rtranclp_into_rtranclp [of ?step, OF 3], rule converse_rtranclp_into_rtranclp [of ?step, OF 4],
        rule converse_rtranclp_into_rtranclp [of ?step, OF 5], rule r_into_rtranclp [of ?step, OF 6])
  then show ?thesis by (intro exI [of _ ?r6]) (simp add: run_defs case_prod_unfold Let_def)
qed

end
