(* ===== verification/WP_Vk_Device.thy ===== *)
theory WP_Vk_Device
  imports WP_Prelude
begin

text \<open>
  The tables the Vulkan layer keeps beside the capture itself: the devices of the process, the queue
  families of a device's queues (\<^verbatim>\<open>loader/vk-layer-hook/device.c\<close>), the X11 windows behind the
  surfaces, and the extension list \<open>wp_CreateDevice\<close> passes on (\<^verbatim>\<open>instance.c\<close>). Handles are
  numbers; a dispatch key identifies a device. Each table is the used prefix of the array of the code.
\<close>

section \<open>Devices\<close>

definition WP_MAX_DEVICES :: nat where "WP_MAX_DEVICES = 4"

type_synonym 'd device_table = "(nat \<times> 'd) list"

text \<open>\<open>wp_device_data_create\<close>: \<^term>\<open>None\<close> is the full table (or a failed allocation).\<close>

definition wp_device_data_create :: "bool \<Rightarrow> nat \<Rightarrow> 'd \<Rightarrow> 'd device_table \<Rightarrow> 'd device_table option" where
  "wp_device_data_create calloc_ok key data tbl =
     (if \<not> calloc_ok then None
      else if length tbl < WP_MAX_DEVICES then Some (tbl @ [(key, data)]) else None)"

definition wp_device_data_find :: "nat \<Rightarrow> 'd device_table \<Rightarrow> 'd option" where
  "wp_device_data_find key tbl = map_option (\<lambda>i. snd (tbl ! i)) (find_index (\<lambda>e. fst e = key) tbl)"

text \<open>The last entry takes the place of the removed one.\<close>

definition wp_device_data_remove :: "nat \<Rightarrow> 'd device_table \<Rightarrow> 'd device_table" where
  "wp_device_data_remove key tbl =
     (case find_index (\<lambda>e. fst e = key) tbl of
        None \<Rightarrow> tbl
      | Some i \<Rightarrow> butlast (tbl[i := last tbl]))"

section \<open>Queue families\<close>

definition WP_MAX_QUEUES :: nat where "WP_MAX_QUEUES = 16"

type_synonym queue_table = "(nat \<times> u32) list"

definition wp_queue_family_for :: "queue_table \<Rightarrow> nat \<Rightarrow> u32 option" where
  "wp_queue_family_for tbl queue = map_option (\<lambda>i. snd (tbl ! i)) (find_index (\<lambda>e. fst e = queue) tbl)"

definition wp_queue_family_set :: "nat \<Rightarrow> u32 \<Rightarrow> queue_table \<Rightarrow> queue_table" where
  "wp_queue_family_set queue family tbl =
     (case find_index (\<lambda>e. fst e = queue) tbl of
        Some i \<Rightarrow> tbl[i := (fst (tbl ! i), family)]
      | None \<Rightarrow> if length tbl < WP_MAX_QUEUES then tbl @ [(queue, family)] else tbl)"

section \<open>Memory types\<close>

text \<open>
  \<open>props\<close> are the property flags of the physical device's memory types, \<^term>\<open>None\<close> when the
  entry point was not resolved.
\<close>

definition wp_instance_find_memory_type :: "u32 list option \<Rightarrow> u32 \<Rightarrow> u32 \<Rightarrow> nat option" where
  "wp_instance_find_memory_type props type_bits flags =
     (case props of
        None \<Rightarrow> None
      | Some memory_types \<Rightarrow>
          find (\<lambda>i. bit type_bits i \<and> and (memory_types ! i) flags = flags) [0..<length memory_types])"

section \<open>Windows of surfaces\<close>

definition WP_MAX_TRACKED_SURFACES :: nat where "WP_MAX_TRACKED_SURFACES = 16"

record wp_surface_xid_entry =
  sx_in_use :: bool
  sx_surface :: nat
  sx_xid :: nat

definition surface_xids_init :: "wp_surface_xid_entry list" where
  "surface_xids_init = replicate WP_MAX_TRACKED_SURFACES \<lparr>sx_in_use = False, sx_surface = 0, sx_xid = 0\<rparr>"

definition wp_surface_xid_register :: "nat \<Rightarrow> nat \<Rightarrow> wp_surface_xid_entry list \<Rightarrow> wp_surface_xid_entry list"
where
  "wp_surface_xid_register surface xid tbl =
     (case find_index (\<lambda>e. \<not> sx_in_use e) tbl of
        None \<Rightarrow> tbl
      | Some i \<Rightarrow> tbl[i := \<lparr>sx_in_use = True, sx_surface = surface, sx_xid = xid\<rparr>])"

definition wp_surface_xid_lookup :: "nat \<Rightarrow> wp_surface_xid_entry list \<Rightarrow> nat option" where
  "wp_surface_xid_lookup surface tbl =
     map_option (\<lambda>i. sx_xid (tbl ! i)) (find_index (\<lambda>e. sx_in_use e \<and> sx_surface e = surface) tbl)"

section \<open>Extensions of a device\<close>

definition REQUIRED_DEVICE_EXTENSIONS :: "string list" where
  "REQUIRED_DEVICE_EXTENSIONS =
     [''VK_EXT_image_drm_format_modifier'', ''VK_KHR_image_format_list'', ''VK_KHR_external_semaphore'',
      ''VK_KHR_external_semaphore_fd'']"

text \<open>
  What \<open>wp_CreateDevice\<close> asks the next layer to enable; outside the target process, or when the
  list cannot be allocated, the application's own list.
\<close>

definition device_extensions :: "bool \<Rightarrow> bool \<Rightarrow> string list \<Rightarrow> string list" where
  "device_extensions target malloc_ok enabled =
     (if target \<and> malloc_ok
      then enabled @ filter (\<lambda>r. r \<notin> set enabled) REQUIRED_DEVICE_EXTENSIONS
      else enabled)"

section \<open>Lookup tables\<close>

lemma find_index_map_of: "map_option (\<lambda>i. snd (tbl ! i)) (find_index (\<lambda>e. fst e = k) tbl) = map_of tbl k"
  by (induction tbl) (auto simp: option.map_comp comp_def)

lemma wp_queue_family_for_map_of: "wp_queue_family_for tbl queue = map_of tbl queue"
  by (simp add: wp_queue_family_for_def find_index_map_of)

lemma wp_device_data_find_map_of: "wp_device_data_find key tbl = map_of tbl key"
  by (simp add: wp_device_data_find_def find_index_map_of)

lemma map_of_update_first:
  "find_index (\<lambda>e. fst e = k) tbl = Some i \<Longrightarrow> map_of (tbl[i := (fst (tbl ! i), v)]) = (map_of tbl)(k \<mapsto> v)"
  by (induction tbl arbitrary: i) (auto split: if_splits simp: fun_upd_twist)

lemma find_index_key_None: "find_index (\<lambda>e. fst e = k) tbl = None \<longleftrightarrow> map_of tbl k = None"
  by (auto simp: find_index_None map_of_eq_None_iff)

text \<open>
  A table written by key: what a lookup returns after a write, and that the table never outgrows its
  array. The client facts are what the present path relies on.
\<close>

locale bounded_table =
  fixes look :: "'t \<Rightarrow> 'k \<Rightarrow> 'v option" and put :: "'k \<Rightarrow> 'v \<Rightarrow> 't \<Rightarrow> 't"
    and used :: "'t \<Rightarrow> nat" and cap :: nat
  assumes look_put: "look t k \<noteq> None \<or> used t < cap \<Longrightarrow> look (put k v t) = (look t)(k \<mapsto> v)"
    and put_full: "look t k = None \<Longrightarrow> cap \<le> used t \<Longrightarrow> put k v t = t"
    and used_put: "used (put k v t) \<le> max (used t) (if used t < cap then Suc (used t) else used t)"
begin

lemma used_bound: "used t \<le> cap \<Longrightarrow> used (put k v t) \<le> cap"
  using used_put [of k v t] by (simp split: if_splits)

lemma used_fold: "used t \<le> cap \<Longrightarrow> used (fold (\<lambda>(k, v). put k v) kvs t) \<le> cap"
  by (induction kvs arbitrary: t) (auto simp: used_bound)

lemma look_other: "k' \<noteq> k \<Longrightarrow> look (put k v t) k' = look t k'"
  by (cases "look t k \<noteq> None \<or> used t < cap") (auto simp: look_put put_full)

lemma never_forgotten: "look t k' \<noteq> None \<Longrightarrow> look (put k v t) k' \<noteq> None"
  by (cases "look t k \<noteq> None \<or> used t < cap") (auto simp: look_put put_full)

end

interpretation queue_families: bounded_table wp_queue_family_for wp_queue_family_set length WP_MAX_QUEUES
proof
  fix tbl :: queue_table and q :: nat and f :: u32
  show "wp_queue_family_for (wp_queue_family_set q f tbl) = (wp_queue_family_for tbl)(q \<mapsto> f)"
    if a: "wp_queue_family_for tbl q \<noteq> None \<or> length tbl < WP_MAX_QUEUES"
  proof (cases "find_index (\<lambda>e. fst e = q) tbl")
    case None
    moreover from None have "map_of tbl q = None" by (simp add: find_index_key_None)
    ultimately show ?thesis
      using a by (auto simp: wp_queue_family_set_def wp_queue_family_for_map_of
          fun_eq_iff map_add_def split: option.splits)
  next
    case (Some i)
    then show ?thesis
      by (simp add: wp_queue_family_set_def wp_queue_family_for_map_of [abs_def] map_of_update_first)
  qed
  show "wp_queue_family_set q f tbl = tbl"
    if "wp_queue_family_for tbl q = None" "WP_MAX_QUEUES \<le> length tbl"
    using that by (simp add: wp_queue_family_set_def wp_queue_family_for_map_of find_index_key_None [symmetric])
  show "length (wp_queue_family_set q f tbl)
      \<le> max (length tbl) (if length tbl < WP_MAX_QUEUES then Suc (length tbl) else length tbl)"
    by (simp add: wp_queue_family_set_def split: option.splits)
qed

lemma map_of_swap_remove:
  assumes "distinct (map fst tbl)" and "i < length tbl"
  shows "map_of (butlast (tbl[i := last tbl])) = (map_of tbl)(fst (tbl ! i) := None)"
proof -
  obtain xs y where tbl: "tbl = xs @ [y]" using assms(2) by (metis list.size(3) not_less_zero rev_exhaust)
  show ?thesis
  proof (cases "i = length xs")
    case True
    with assms(1) tbl show ?thesis
      by (cases y) (auto simp: fun_eq_iff map_add_def map_of_eq_None_iff split: option.splits)
  next
    case False
    with assms(2) tbl have i: "i < length xs" by simp
    have u: "butlast (tbl[i := last tbl]) = xs[i := y]"
      using i tbl by (simp add: list_update_append1 butlast_append)
    have d: "distinct (map fst (xs[i := y]))"
      using assms(1) i tbl by (simp add: map_update distinct_list_update)
    have s: "set (xs[i := y]) = insert y (set xs - {xs ! i})"
      using assms(1) i tbl by (intro set_update_distinct) (simp_all add: distinct_map)
    have inj: "inj_on fst (set xs)" and y: "fst y \<notin> fst ` set xs"
      using assms(1) tbl by (auto simp: distinct_map)
    have "e \<in> set (xs[i := y]) \<longleftrightarrow> fst e \<noteq> fst (xs ! i) \<and> e \<in> set tbl" for e
    proof -
      have "fst e = fst (xs ! i) \<longleftrightarrow> e = xs ! i" if "e \<in> set xs"
        using inj that i by (simp add: inj_on_eq_iff)
      moreover have "fst y \<noteq> fst (xs ! i)" using y i by auto
      ultimately show ?thesis using s tbl y by auto
    qed
    then have "map_of (xs[i := y]) k = Some v \<longleftrightarrow> k \<noteq> fst (xs ! i) \<and> map_of tbl k = Some v" for k v
      using assms(1) d by (simp add: map_of_eq_Some_iff)
    then have "map_of (xs[i := y]) k = ((map_of tbl)(fst (xs ! i) := None)) k" for k
      by (metis (no_types, lifting) fun_upd_apply not_None_eq)
    then show ?thesis using u tbl i by (auto simp: nth_append fun_eq_iff)
  qed
qed

lemma set_device_extensions:
  "set (device_extensions True True enabled) = set enabled \<union> set REQUIRED_DEVICE_EXTENSIONS"
  by (auto simp: device_extensions_def)

section \<open>Properties\<close>

text \<open>
  Removing a device forgets that device and no other: with distinct dispatch keys, the lookup
  of the removed key finds nothing afterwards, every other key finds what it found before (although
  the last entry moved into the hole), and the keys stay distinct, so that the freed data is never
  looked up again.
\<close>

theorem device_remove_forgets_one:
  assumes "distinct (map fst tbl)"
  shows "wp_device_data_find k (wp_device_data_remove key tbl) =
      (if k = key then None else wp_device_data_find k tbl)
    \<and> distinct (map fst (wp_device_data_remove key tbl))"
proof (cases "find_index (\<lambda>e. fst e = key) tbl")
  case None
  then show ?thesis
    using assms find_index_key_None [of key tbl]
    by (simp add: wp_device_data_remove_def wp_device_data_find_map_of)
next
  case (Some i)
  from find_index_Some [OF this] have i: "i < length tbl" "fst (tbl ! i) = key" by simp_all
  obtain xs y where tbl: "tbl = xs @ [y]" using i by (metis list.size(3) not_less_zero rev_exhaust)
  have "distinct (map fst (butlast (tbl[i := last tbl])))"
  proof (cases "i = length xs")
    case True
    then show ?thesis using assms tbl by simp
  next
    case False
    then have "i < length xs" using i tbl by simp
    then show ?thesis
      using assms tbl by (simp add: list_update_append1 butlast_append map_update distinct_list_update)
  qed
  then show ?thesis
    using Some i map_of_swap_remove [OF assms i(1)]
    by (simp add: wp_device_data_remove_def wp_device_data_find_map_of)
qed

theorem device_remove_forgets_one_witness:
  "wp_device_data_find 7 (wp_device_data_remove 5 [(5, True), (6, True), (7, False)]) = Some False"
  using device_remove_forgets_one [of "[(5, True), (6, True), (7, False)]" 7 5]
  by (simp add: wp_device_data_find_map_of)

definition xid_entry :: "nat \<times> nat \<Rightarrow> wp_surface_xid_entry" where
  "xid_entry r = \<lparr>sx_in_use = True, sx_surface = fst r, sx_xid = snd r\<rparr>"

definition free_entry :: wp_surface_xid_entry where
  "free_entry = \<lparr>sx_in_use = False, sx_surface = 0, sx_xid = 0\<rparr>"

lemma find_index_prefix:
  "\<forall>x \<in> set xs. \<not> p x \<Longrightarrow> find_index p (xs @ ys) = map_option (\<lambda>i. length xs + i) (find_index p ys)"
  by (cases "find_index p ys"; induction xs) auto

lemma xid_register_prefix:
  "wp_surface_xid_register s x (map xid_entry rs @ replicate n free_entry) =
     map xid_entry (if n = 0 then rs else rs @ [(s, x)]) @ replicate (n - 1) free_entry"
proof -
  have "find_index (\<lambda>e. \<not> sx_in_use e) (map xid_entry rs @ replicate n free_entry) =
      (if n = 0 then None else Some (length rs))"
    by (cases n) (simp_all add: find_index_prefix find_index_None xid_entry_def free_entry_def)
  then show ?thesis
    by (cases n) (simp_all add: wp_surface_xid_register_def list_update_append xid_entry_def)
qed

lemma xid_table_prefix:
  "fold (\<lambda>(s, x). wp_surface_xid_register s x) regs (map xid_entry rs @ replicate n free_entry) =
     map xid_entry (rs @ take n regs) @ replicate (n - length regs) free_entry"
proof (induction regs arbitrary: rs n)
  case (Cons r regs)
  obtain a b where r: "r = (a, b)" by fastforce
  show ?case
  proof (cases n)
    case 0
    then show ?thesis using Cons.IH [of rs 0] xid_register_prefix [of a b rs 0] by (simp add: r)
  next
    case (Suc m)
    then show ?thesis
      using Cons.IH [of "rs @ [(a, b)]" m] xid_register_prefix [of a b rs n]
      by (simp only: fold_simps r prod.case o_apply) simp
  qed
qed simp

lemma xid_lookup_prefix:
  "wp_surface_xid_lookup s (map xid_entry rs @ replicate n free_entry) = map_of rs s"
proof (induction rs)
  case Nil
  have "find_index (\<lambda>e. sx_in_use e \<and> sx_surface e = s) (replicate n free_entry) = None"
    by (simp add: find_index_None free_entry_def)
  then show ?case by (simp add: wp_surface_xid_lookup_def)
next
  case (Cons r rs)
  then show ?case
    by (auto simp: wp_surface_xid_lookup_def xid_entry_def option.map_comp comp_def)
qed

text \<open>
  The window of a surface is the first one ever recorded for its handle among the first sixteen
  registrations of the process: entries are never removed, so a handle that the driver uses again
  after its surface was destroyed still yields the old window, and from the seventeenth surface on
  none is recorded.
\<close>

theorem surface_xid_first_registration:
  "wp_surface_xid_lookup surface
     (fold (\<lambda>(s, x). wp_surface_xid_register s x) registrations surface_xids_init) =
   map_of (take WP_MAX_TRACKED_SURFACES registrations) surface"
proof -
  have "surface_xids_init = map xid_entry [] @ replicate WP_MAX_TRACKED_SURFACES free_entry"
    by (simp add: surface_xids_init_def free_entry_def)
  then show ?thesis
    using xid_table_prefix [of registrations "[]" WP_MAX_TRACKED_SURFACES]
    by (simp only: xid_lookup_prefix append_Nil)
qed

end
