(* ===== verification/WP_Vk_Capture.thy ===== *)
theory WP_Vk_Capture
  imports WP_Vk_Device WP_Capture_Socket "HOL-Library.Multiset"
begin

unbundle bit_operations_syntax

text \<open>
  The capture half of the Vulkan layer (\<^verbatim>\<open>loader/vk-layer-hook/capture.c\<close>): registering a swapchain
  with a wire channel, the three exportable capture images of a swapchain, copying a presented image
  into the next of them and telling the portal over the capture link.

  Vulkan and XCB are not part of the repository. What they answer is the argument \<open>vk_env\<close>; the
  objects the layer creates are numbered from \<open>vl_next\<close>, and the state records which were created
  and destroyed and which command buffers were submitted. The state is that of one device together
  with the process-wide channel tables. The calls that hold \<open>swapchains_mutex\<close> or that Vulkan
  requires the application to synchronise per swapchain are single steps.
\<close>

section \<open>Data\<close>

definition WP_CAPTURE_SLOT_COUNT :: nat where "WP_CAPTURE_SLOT_COUNT = 3"
definition WP_MAX_CAPTURE_CHANNELS :: nat where "WP_MAX_CAPTURE_CHANNELS = 4"
definition WP_MAX_SWAPCHAINS :: nat where "WP_MAX_SWAPCHAINS = 16"

datatype wp_slot_ownership = WP_SLOT_NEVER_WRITTEN | WP_SLOT_RELEASED_TO_FOREIGN

record wp_capture_slot =
  cs_in_use :: bool
  cs_image :: nat
  cs_memory :: nat
  cs_pool :: nat
  cs_fence :: nat
  cs_fence_pending :: bool
  cs_semaphore :: nat
  cs_ownership :: wp_slot_ownership
  cs_buf_sent :: bool
  cs_stride :: u32
  cs_modifier :: u64

record wp_swapchain_state =
  sc_in_use :: bool
  sc_swapchain :: nat
  sc_format :: u32
  sc_width :: u32
  sc_height :: u32
  sc_images :: "nat list"
  sc_modifiers :: "u64 list"
  sc_slots :: "wp_capture_slot list"
  sc_next_slot :: nat
  sc_present_count :: u64
  sc_last_present_at :: "(int \<times> int) option"
  sc_wire_channel :: u32

datatype vk_obj = Vk_image nat | Vk_memory nat | Vk_pool nat | Vk_fence nat | Vk_semaphore nat

datatype vk_layout = LAYOUT_UNDEFINED | LAYOUT_PRESENT_SRC | LAYOUT_TRANSFER_SRC | LAYOUT_TRANSFER_DST

datatype vk_family = FAMILY_IGNORED | FAMILY_FOREIGN | FAMILY u32

datatype vk_cmd =
    Barrier nat vk_layout vk_layout vk_family vk_family
  | Copy_image nat nat u32 u32

record vk_layer =
  vl_swapchains :: "wp_swapchain_state list"
  vl_channel_in_use :: "bool list"
  vl_channel_has_geometry :: "bool list"
  vl_channel_geom_x :: "i32 list"
  vl_channel_geom_y :: "i32 list"
  vl_queues :: queue_table
  vl_link :: wp_capture_link
  vl_net :: link_world
  vl_next :: nat
  vl_created :: "vk_obj list"
  vl_destroyed :: "vk_obj list"
  vl_submitted :: "vk_cmd list list"

datatype vk_result = VK_SUCCESS | VK_NOT_READY | VK_INCOMPLETE | VK_ERROR

record vk_env =
  ve_image_count :: "nat option"
  ve_images :: "nat \<Rightarrow> vk_result \<times> nat list"
  ve_modifier_count :: "nat option"
  ve_calloc :: bool
  ve_modifier_props :: "(u64 \<times> u32 \<times> u32) list"
  ve_window_geometry :: "nat \<Rightarrow> (i32 \<times> i32) option"
  ve_create_image :: bool
  ve_image_modifier :: "u64 option"
  ve_memory_type_bits :: u32
  ve_memory_types :: "u32 list option"
  ve_allocate_memory :: bool
  ve_bind_image_memory :: bool
  ve_row_pitch :: u64
  ve_create_command_pool :: bool
  ve_allocate_command_buffers :: bool
  ve_create_fence :: bool
  ve_create_semaphore :: bool
  ve_fence_status :: vk_result
  ve_wait_for_fences :: vk_result
  ve_reset_fences :: bool
  ve_reset_command_buffer :: bool
  ve_begin_command_buffer :: bool
  ve_end_command_buffer :: bool
  ve_queue_submit :: bool
  ve_semaphore_fd :: "fd option"
  ve_memory_fd :: "fd option"
  ve_now :: "int \<times> int"
  ve_link :: link_env

definition zero_capture_slot :: wp_capture_slot where
  "zero_capture_slot = \<lparr>cs_in_use = False, cs_image = 0, cs_memory = 0, cs_pool = 0, cs_fence = 0,
     cs_fence_pending = False, cs_semaphore = 0, cs_ownership = WP_SLOT_NEVER_WRITTEN, cs_buf_sent = False,
     cs_stride = 0, cs_modifier = 0\<rparr>"

definition zero_swapchain :: wp_swapchain_state where
  "zero_swapchain = \<lparr>sc_in_use = False, sc_swapchain = 0, sc_format = 0, sc_width = 0, sc_height = 0,
     sc_images = [], sc_modifiers = [], sc_slots = replicate WP_CAPTURE_SLOT_COUNT zero_capture_slot,
     sc_next_slot = 0, sc_present_count = 0, sc_last_present_at = None, sc_wire_channel = 0\<rparr>"

definition vk_layer_init :: vk_layer where
  "vk_layer_init = \<lparr>vl_swapchains = replicate WP_MAX_SWAPCHAINS zero_swapchain,
     vl_channel_in_use = replicate WP_MAX_CAPTURE_CHANNELS False,
     vl_channel_has_geometry = replicate WP_MAX_CAPTURE_CHANNELS False,
     vl_channel_geom_x = replicate WP_MAX_CAPTURE_CHANNELS 0,
     vl_channel_geom_y = replicate WP_MAX_CAPTURE_CHANNELS 0, vl_queues = [],
     vl_link = wp_capture_link_create, vl_net = \<lparr>lw_closed = [], lw_sent = []\<rparr>, vl_next = 0,
     vl_created = [], vl_destroyed = [], vl_submitted = []\<rparr>"

section \<open>Vulkan objects\<close>

definition vk_create :: "(nat \<Rightarrow> vk_obj) \<Rightarrow> vk_layer \<Rightarrow> nat \<times> vk_layer" where
  "vk_create mk st =
     (vl_next st, st\<lparr>vl_next := Suc (vl_next st), vl_created := vl_created st @ [mk (vl_next st)]\<rparr>)"

definition vk_destroy :: "vk_obj \<Rightarrow> vk_layer \<Rightarrow> vk_layer" where
  "vk_destroy x st = st\<lparr>vl_destroyed := vl_destroyed st @ [x]\<rparr>"

definition VK_FORMAT_FEATURES_REQUIRED :: u32 where
  "VK_FORMAT_FEATURES_REQUIRED = 0x8000 OR 0x0001"

definition VK_MEMORY_PROPERTY_DEVICE_LOCAL_BIT :: u32 where
  "VK_MEMORY_PROPERTY_DEVICE_LOCAL_BIT = 1"

text \<open>
  The loop of \<open>compute_candidate_modifiers\<close>: at most \<open>max_out\<close> single-plane modifiers that can
  be written to and sampled, in the driver's order.
\<close>

definition compute_candidate_modifiers :: "vk_env \<Rightarrow> nat \<Rightarrow> u64 list" where
  "compute_candidate_modifiers env max_out =
     (case ve_modifier_count env of
        None \<Rightarrow> []
      | Some n \<Rightarrow>
          if n = 0 then []
          else if \<not> ve_calloc env then []
          else take max_out (map fst (filter (\<lambda>(m, planes, features). planes = 1 \<and>
                 features AND VK_FORMAT_FEATURES_REQUIRED = VK_FORMAT_FEATURES_REQUIRED)
                 (take n (ve_modifier_props env)))))"

definition create_capture_slot :: "vk_env \<Rightarrow> u64 list \<Rightarrow> vk_layer \<Rightarrow> wp_capture_slot option \<times> vk_layer" where
  "create_capture_slot env candidate_modifiers st =
     (if candidate_modifiers = [] then (None, st)
      else if \<not> ve_create_image env then (None, st)
      else case vk_create Vk_image st of (img, st1) \<Rightarrow>
        let drop1 = vk_destroy (Vk_image img) in
        (case ve_image_modifier env of
           None \<Rightarrow> (None, drop1 st1)
         | Some modifier \<Rightarrow>
            if wp_instance_find_memory_type (ve_memory_types env) (ve_memory_type_bits env)
                 VK_MEMORY_PROPERTY_DEVICE_LOCAL_BIT = None then (None, drop1 st1)
            else if \<not> ve_allocate_memory env then (None, drop1 st1)
            else case vk_create Vk_memory st1 of (memory, st2) \<Rightarrow>
              let drop2 = (\<lambda>s. vk_destroy (Vk_memory memory) (drop1 s)) in
              if \<not> ve_bind_image_memory env then (None, drop2 st2)
              else if \<not> ve_create_command_pool env then (None, drop2 st2)
              else case vk_create Vk_pool st2 of (pool, st3) \<Rightarrow>
                let drop3 = (\<lambda>s. drop2 (vk_destroy (Vk_pool pool) s)) in
                if \<not> ve_allocate_command_buffers env then (None, drop3 st3)
                else if \<not> ve_create_fence env then (None, drop3 st3)
                else case vk_create Vk_fence st3 of (fence, st4) \<Rightarrow>
                  if \<not> ve_create_semaphore env then (None, drop3 (vk_destroy (Vk_fence fence) st4))
                  else case vk_create Vk_semaphore st4 of (semaphore, st5) \<Rightarrow>
                    (Some \<lparr>cs_in_use = True, cs_image = img, cs_memory = memory, cs_pool = pool,
                           cs_fence = fence, cs_fence_pending = False, cs_semaphore = semaphore,
                           cs_ownership = WP_SLOT_NEVER_WRITTEN, cs_buf_sent = False,
                           cs_stride = ucast (ve_row_pitch env), cs_modifier = modifier\<rparr>, st5)))"

definition destroy_capture_slot :: "wp_capture_slot \<Rightarrow> vk_layer \<Rightarrow> vk_layer" where
  "destroy_capture_slot slot st =
     vk_destroy (Vk_memory (cs_memory slot)) (vk_destroy (Vk_image (cs_image slot))
       (vk_destroy (Vk_pool (cs_pool slot)) (vk_destroy (Vk_fence (cs_fence slot))
          (vk_destroy (Vk_semaphore (cs_semaphore slot)) st))))"

text \<open>The commands of one copy, in the order they are recorded.\<close>

definition copy_commands :: "u32 \<Rightarrow> wp_capture_slot \<Rightarrow> nat \<Rightarrow> u32 \<Rightarrow> u32 \<Rightarrow> vk_cmd list" where
  "copy_commands family slot src_image width height =
     [Barrier src_image LAYOUT_PRESENT_SRC LAYOUT_TRANSFER_SRC FAMILY_IGNORED FAMILY_IGNORED,
      (if cs_ownership slot = WP_SLOT_NEVER_WRITTEN
       then Barrier (cs_image slot) LAYOUT_UNDEFINED LAYOUT_TRANSFER_DST FAMILY_IGNORED FAMILY_IGNORED
       else Barrier (cs_image slot) LAYOUT_TRANSFER_DST LAYOUT_TRANSFER_DST FAMILY_FOREIGN (FAMILY family)),
      Copy_image src_image (cs_image slot) width height,
      Barrier src_image LAYOUT_TRANSFER_SRC LAYOUT_PRESENT_SRC FAMILY_IGNORED FAMILY_IGNORED,
      Barrier (cs_image slot) LAYOUT_TRANSFER_DST LAYOUT_TRANSFER_DST (FAMILY family) FAMILY_FOREIGN]"

definition record_and_submit_copy ::
  "vk_env \<Rightarrow> u32 \<Rightarrow> wp_capture_slot \<Rightarrow> nat \<Rightarrow> u32 \<Rightarrow> u32 \<Rightarrow> vk_layer \<Rightarrow> bool \<times> vk_layer" where
  "record_and_submit_copy env family slot src_image width height st =
     (if \<not> ve_begin_command_buffer env then (False, st)
      else if \<not> ve_end_command_buffer env then (False, st)
      else if \<not> ve_queue_submit env then (False, st)
      else (True, st\<lparr>vl_submitted := vl_submitted st @ [copy_commands family slot src_image width height]\<rparr>))"

definition get_swapchain_images :: "vk_env \<Rightarrow> nat \<Rightarrow> nat list" where
  "get_swapchain_images env max_out =
     (case ve_image_count env of
        None \<Rightarrow> []
      | Some n \<Rightarrow>
          if n = 0 then []
          else (case ve_images env (if max_out < n then max_out else n) of
                  (VK_SUCCESS, images) \<Rightarrow> images
                | _ \<Rightarrow> []))"

section \<open>Swapchains and wire channels\<close>

definition find_swapchain_locked :: "vk_layer \<Rightarrow> nat \<Rightarrow> nat option" where
  "find_swapchain_locked st swapchain =
     find_index (\<lambda>sc. sc_in_use sc \<and> sc_swapchain sc = swapchain) (vl_swapchains st)"

definition alloc_wire_channel :: "vk_layer \<Rightarrow> nat option \<times> vk_layer" where
  "alloc_wire_channel st =
     (case find_index (\<lambda>used. \<not> used) (vl_channel_in_use st) of
        None \<Rightarrow> (None, st)
      | Some i \<Rightarrow> (Some i, st\<lparr>vl_channel_in_use := (vl_channel_in_use st)[i := True]\<rparr>))"

definition free_wire_channel :: "u32 \<Rightarrow> vk_layer \<Rightarrow> vk_layer" where
  "free_wire_channel channel st =
     (if unat channel < WP_MAX_CAPTURE_CHANNELS
      then st\<lparr>vl_channel_in_use := (vl_channel_in_use st)[unat channel := False]\<rparr> else st)"

definition set_channel_geometry :: "u32 \<Rightarrow> bool \<Rightarrow> i32 \<Rightarrow> i32 \<Rightarrow> vk_layer \<Rightarrow> vk_layer" where
  "set_channel_geometry channel has_geometry geom_x geom_y st =
     (if WP_MAX_CAPTURE_CHANNELS \<le> unat channel then st
      else st\<lparr>vl_channel_has_geometry := (vl_channel_has_geometry st)[unat channel := has_geometry],
              vl_channel_geom_x := (vl_channel_geom_x st)[unat channel := geom_x],
              vl_channel_geom_y := (vl_channel_geom_y st)[unat channel := geom_y]\<rparr>)"

definition get_channel_geometry :: "vk_layer \<Rightarrow> u32 \<Rightarrow> (bool \<times> i32 \<times> i32) option" where
  "get_channel_geometry st channel =
     (if WP_MAX_CAPTURE_CHANNELS \<le> unat channel then None
      else Some (vl_channel_has_geometry st ! unat channel, vl_channel_geom_x st ! unat channel,
                 vl_channel_geom_y st ! unat channel))"

definition upd_sc :: "nat \<Rightarrow> (wp_swapchain_state \<Rightarrow> wp_swapchain_state) \<Rightarrow> vk_layer \<Rightarrow> vk_layer" where
  "upd_sc j f st = st\<lparr>vl_swapchains := (vl_swapchains st)[j := f (vl_swapchains st ! j)]\<rparr>"

text \<open>
  \<open>xid\<close> is the window \<open>wp_surface_xid_lookup\<close> finds for the swapchain's surface.
\<close>

definition wp_register_swapchain ::
  "vk_env \<Rightarrow> nat \<Rightarrow> u32 \<Rightarrow> u32 \<Rightarrow> u32 \<Rightarrow> nat option \<Rightarrow> vk_layer \<Rightarrow> vk_layer" where
  "wp_register_swapchain env swapchain format width height xid st =
     (let images = get_swapchain_images env 16;
          modifiers = compute_candidate_modifiers env 32;
          geometry = (case xid of None \<Rightarrow> None | Some x \<Rightarrow> ve_window_geometry env x)
      in case find_index (\<lambda>sc. \<not> sc_in_use sc) (vl_swapchains st) of
           None \<Rightarrow> st
         | Some j \<Rightarrow>
            (case alloc_wire_channel st of
               (None, st1) \<Rightarrow> st1
             | (Some channel, st1) \<Rightarrow>
                 set_channel_geometry (of_nat channel) (geometry \<noteq> None)
                   (case geometry of None \<Rightarrow> 0 | Some (x, y) \<Rightarrow> x)
                   (case geometry of None \<Rightarrow> 0 | Some (x, y) \<Rightarrow> y)
                   (upd_sc j (\<lambda>_. zero_swapchain\<lparr>sc_in_use := True, sc_swapchain := swapchain,
                        sc_format := format, sc_width := width, sc_height := height,
                        sc_images := images, sc_modifiers := modifiers,
                        sc_wire_channel := of_nat channel\<rparr>) st1)))"

definition wp_teardown_swapchain :: "nat \<Rightarrow> vk_layer \<Rightarrow> vk_layer" where
  "wp_teardown_swapchain swapchain st =
     (case find_swapchain_locked st swapchain of
        None \<Rightarrow> st
      | Some j \<Rightarrow>
         (let sc = vl_swapchains st ! j;
              st1 = free_wire_channel (sc_wire_channel sc) (upd_sc j (\<lambda>sc. sc\<lparr>sc_in_use := False\<rparr>) st)
          in foldl (\<lambda>s slot. if cs_in_use slot then destroy_capture_slot slot s else s) st1 (sc_slots sc)))"

section \<open>Capturing a presented image\<close>

definition upd_cs ::
  "nat \<Rightarrow> nat \<Rightarrow> (wp_capture_slot \<Rightarrow> wp_capture_slot) \<Rightarrow> vk_layer \<Rightarrow> vk_layer" where
  "upd_cs j k f st = upd_sc j (\<lambda>sc. sc\<lparr>sc_slots := (sc_slots sc)[k := f (sc_slots sc ! k)]\<rparr>) st"

definition cs_at :: "vk_layer \<Rightarrow> nat \<Rightarrow> nat \<Rightarrow> wp_capture_slot" where
  "cs_at st j k = sc_slots (vl_swapchains st ! j) ! k"

text \<open>The slot's image is created on its first use.\<close>

definition ensure_slot :: "vk_env \<Rightarrow> nat \<Rightarrow> nat \<Rightarrow> vk_layer \<Rightarrow> bool \<times> vk_layer" where
  "ensure_slot env j k st =
     (if cs_in_use (cs_at st j k) then (True, st)
      else case create_capture_slot env (sc_modifiers (vl_swapchains st ! j)) st of
             (None, st1) \<Rightarrow> (False, st1)
           | (Some new_slot, st1) \<Rightarrow> (True, upd_cs j k (\<lambda>_. new_slot) st1))"

text \<open>The previous copy into the slot must have finished before its command buffer is reused.\<close>

definition wait_slot :: "vk_env \<Rightarrow> nat \<Rightarrow> nat \<Rightarrow> vk_layer \<Rightarrow> bool \<times> vk_layer" where
  "wait_slot env j k st =
     (let finish = (\<lambda>s. if \<not> ve_reset_fences env then (False, s)
                        else if \<not> ve_reset_command_buffer env then (False, s) else (True, s));
          done = upd_cs j k (\<lambda>slot. slot\<lparr>cs_fence_pending := False\<rparr>) st
      in if cs_fence_pending (cs_at st j k)
         then (case ve_fence_status env of
                 VK_SUCCESS \<Rightarrow> finish done
               | VK_NOT_READY \<Rightarrow> if ve_wait_for_fences env = VK_SUCCESS then finish done else (False, st)
               | _ \<Rightarrow> (False, st))
         else finish st)"

text \<open>The part of \<open>wp_capture_and_notify\<close> after the mutex is released.\<close>

definition notify_portal :: "vk_env \<Rightarrow> nat \<Rightarrow> nat \<Rightarrow> nat \<Rightarrow> vk_layer \<Rightarrow> vk_layer" where
  "notify_portal env swapchain j k st =
     (let sc = vl_swapchains st ! j;
          slot = sc_slots sc ! k;
          wire_slot = sc_wire_channel sc * of_nat WP_CAPTURE_SLOT_COUNT + of_nat k;
          (has_geometry, geom_x, geom_y) =
            (case get_channel_geometry st (sc_wire_channel sc) of None \<Rightarrow> (False, 0, 0) | Some g \<Rightarrow> g);
          sync_fd = (case ve_semaphore_fd env of None \<Rightarrow> - 1 | Some d \<Rightarrow> d)
      in if \<not> cs_buf_sent slot
         then (case ve_memory_fd env of
                 None \<Rightarrow> st\<lparr>vl_net := close_opt sync_fd (vl_net st)\<rparr>
               | Some d \<Rightarrow>
                  (case wp_capture_link_send_buf (ve_link env) (vl_link st) wire_slot (sc_width sc)
                          (sc_height sc) (sc_format sc) (cs_stride slot) (cs_modifier slot)
                          has_geometry geom_x geom_y d sync_fd (vl_net st) of
                     (sent, link, net) \<Rightarrow>
                       let st1 = st\<lparr>vl_link := link, vl_net := net\<rparr> in
                       if \<not> sent then st1
                       else (case find_swapchain_locked st1 swapchain of
                               None \<Rightarrow> st1
                             | Some j2 \<Rightarrow>
                                 if cs_in_use (cs_at st1 j2 k)
                                 then upd_cs j2 k (\<lambda>slot. slot\<lparr>cs_buf_sent := True\<rparr>) st1 else st1)))
         else (case wp_capture_link_send_frame (ve_link env) (vl_link st) wire_slot sync_fd (vl_net st) of
                 (_, link, net) \<Rightarrow> st\<lparr>vl_link := link, vl_net := net\<rparr>))"

text \<open>The bookkeeping of a present, and of a copy that was submitted.\<close>

definition count_present :: "vk_env \<Rightarrow> nat \<Rightarrow> vk_layer \<Rightarrow> vk_layer" where
  "count_present env j st =
     upd_sc j (\<lambda>sc. sc\<lparr>sc_present_count := sc_present_count sc + 1,
                       sc_last_present_at := Some (ve_now env),
                       sc_next_slot := (sc_next_slot sc + 1) mod WP_CAPTURE_SLOT_COUNT\<rparr>) st"

definition mark_submitted :: "nat \<Rightarrow> nat \<Rightarrow> vk_layer \<Rightarrow> vk_layer" where
  "mark_submitted j k st =
     upd_cs j k (\<lambda>slot. slot\<lparr>cs_ownership := WP_SLOT_RELEASED_TO_FOREIGN, cs_fence_pending := True\<rparr>) st"

definition wp_capture_and_notify :: "vk_env \<Rightarrow> nat \<Rightarrow> nat \<Rightarrow> u32 \<Rightarrow> vk_layer \<Rightarrow> vk_layer" where
  "wp_capture_and_notify env queue swapchain image_index st =
     (case wp_queue_family_for (vl_queues st) queue of
        None \<Rightarrow> st
      | Some family \<Rightarrow>
         (case find_swapchain_locked st swapchain of
            None \<Rightarrow> st
          | Some j \<Rightarrow>
             (let sc = vl_swapchains st ! j in
              if length (sc_images sc) \<le> unat image_index then st
              else
                let src_image = sc_images sc ! unat image_index;
                    k = sc_next_slot sc
                in case ensure_slot env j k (count_present env j st) of
                     (False, st2) \<Rightarrow> st2
                   | (True, st2) \<Rightarrow>
                      (case wait_slot env j k st2 of
                         (False, st3) \<Rightarrow> st3
                       | (True, st3) \<Rightarrow>
                          (case record_and_submit_copy env family (cs_at st3 j k) src_image
                                  (sc_width sc) (sc_height sc) st3 of
                             (False, st4) \<Rightarrow> st4
                           | (True, st4) \<Rightarrow>
                               notify_portal env swapchain j k (mark_submitted j k st4))))))"

section \<open>The hooked entry points (device.c)\<close>

definition wp_GetDeviceQueue :: "bool \<Rightarrow> nat \<Rightarrow> u32 \<Rightarrow> vk_layer \<Rightarrow> vk_layer" where
  "wp_GetDeviceQueue target queue family st =
     (if target then st\<lparr>vl_queues := wp_queue_family_set queue family (vl_queues st)\<rparr> else st)"

definition wp_CreateSwapchainKHR ::
  "bool \<Rightarrow> vk_result \<Rightarrow> vk_env \<Rightarrow> nat \<Rightarrow> u32 \<Rightarrow> u32 \<Rightarrow> u32 \<Rightarrow> nat option \<Rightarrow> vk_layer \<Rightarrow> vk_result \<times> vk_layer"
where
  "wp_CreateSwapchainKHR target res env swapchain format width height xid st =
     (res, if res = VK_SUCCESS \<and> target
           then wp_register_swapchain env swapchain format width height xid st else st)"

definition wp_DestroySwapchainKHR :: "bool \<Rightarrow> nat \<Rightarrow> vk_layer \<Rightarrow> vk_layer" where
  "wp_DestroySwapchainKHR target swapchain st = (if target then wp_teardown_swapchain swapchain st else st)"

definition wp_QueuePresentKHR :: "bool \<Rightarrow> vk_env \<Rightarrow> nat \<Rightarrow> (nat \<times> u32) list \<Rightarrow> vk_layer \<Rightarrow> vk_layer" where
  "wp_QueuePresentKHR target env queue swapchains st =
     (if target
      then (case swapchains of [] \<Rightarrow> st
            | (swapchain, image_index) # _ \<Rightarrow> wp_capture_and_notify env queue swapchain image_index st)
      else st)"

end
