(* ===== verification/WP_Vk_Props.thy ===== *)
theory WP_Vk_Props
  imports WP_Vk_Inv
begin

text \<open>
  The properties of the capture layer: exact use of the wire channels, no leaked or doubly destroyed
  Vulkan object, valid layout and ownership transfers of a copy, the rotation of the slots, and the
  discipline of the messages sent to the portal.
\<close>

section \<open>Vulkan objects are conserved\<close>

definition slot_objs :: "wp_capture_slot \<Rightarrow> vk_obj multiset" where
  "slot_objs slot = (if cs_in_use slot
     then {#Vk_image (cs_image slot), Vk_memory (cs_memory slot), Vk_pool (cs_pool slot),
            Vk_fence (cs_fence slot), Vk_semaphore (cs_semaphore slot)#}
     else {#})"

definition sc_objs :: "wp_swapchain_state \<Rightarrow> vk_obj multiset" where
  "sc_objs sc = (if sc_in_use sc then sum_list (map slot_objs (sc_slots sc)) else {#})"

definition live_objs :: "vk_layer \<Rightarrow> vk_obj multiset" where
  "live_objs st = sum_list (map sc_objs (vl_swapchains st))"

definition objs_conserved :: "vk_layer \<Rightarrow> bool" where
  "objs_conserved st \<longleftrightarrow> mset (vl_created st) = mset (vl_destroyed st) + live_objs st"

lemma create_slot_objs:
  assumes "create_capture_slot env ms st = (r, st')"
  shows "case r of
      None \<Rightarrow> \<exists>X. mset (vl_created st') = mset (vl_created st) + X \<and> mset (vl_destroyed st') = mset (vl_destroyed st) + X
    | Some slot \<Rightarrow> mset (vl_created st') = mset (vl_created st) + slot_objs slot \<and> vl_destroyed st' = vl_destroyed st"
  using assms
  by (auto simp: create_capture_slot_def Let_def vk_create_def vk_destroy_def slot_objs_def
      split: if_splits option.splits)

lemma live_upd_sc:
  assumes "j < length (vl_swapchains st)"
  shows "live_objs (upd_sc j f st) + sc_objs (vl_swapchains st ! j) =
    live_objs st + sc_objs (f (vl_swapchains st ! j))"
  using assms sum_list_update_add [of j "vl_swapchains st" sc_objs "f (vl_swapchains st ! j)"]
  by (simp add: live_objs_def upd_sc_def)

lemma live_upd_cs:
  assumes "j < length (vl_swapchains st)" and "sc_in_use (vl_swapchains st ! j)"
    and "k < length (sc_slots (vl_swapchains st ! j))"
  shows "live_objs (upd_cs j k f st) + slot_objs (cs_at st j k) = live_objs st + slot_objs (f (cs_at st j k))"
proof -
  let ?sc = "vl_swapchains st ! j" and ?f = "\<lambda>sc. sc\<lparr>sc_slots := (sc_slots sc)[k := f (sc_slots sc ! k)]\<rparr>"
  have a: "live_objs (upd_cs j k f st) + sc_objs ?sc = live_objs st + sc_objs (?f ?sc)"
    unfolding upd_cs_def by (rule live_upd_sc [OF assms(1)])
  have b: "sc_objs (?f ?sc) + slot_objs (cs_at st j k) = sc_objs ?sc + slot_objs (f (cs_at st j k))"
    using assms(2,3) sum_list_update_add [of k "sc_slots ?sc" slot_objs "f (sc_slots ?sc ! k)"]
    by (simp add: sc_objs_def cs_at_def)
  have "(live_objs (upd_cs j k f st) + slot_objs (cs_at st j k)) + sc_objs ?sc =
      (live_objs (upd_cs j k f st) + sc_objs ?sc) + slot_objs (cs_at st j k)"
    by (simp add: ac_simps)
  also have "\<dots> = (live_objs st + slot_objs (f (cs_at st j k))) + sc_objs ?sc"
    unfolding a using b by (simp add: ac_simps)
  finally show ?thesis by (rule add_right_imp_eq)
qed

lemma logs_upd [simp]:
  "vl_created (upd_sc j f st) = vl_created st" "vl_destroyed (upd_sc j f st) = vl_destroyed st"
  "vl_created (upd_cs j k g st) = vl_created st" "vl_destroyed (upd_cs j k g st) = vl_destroyed st"
  by (simp_all add: upd_sc_def upd_cs_def)

lemma conserved_upd_cs_same:
  assumes "\<And>slot. slot_objs (f slot) = slot_objs slot"
  shows "objs_conserved (upd_cs j k f st) \<longleftrightarrow> objs_conserved st"
proof -
  have "sum_list (map slot_objs (xs[k := f (xs ! k)])) = sum_list (map slot_objs xs)" for xs
    by (simp add: map_update_same assms)
  then have "sc_objs (sc\<lparr>sc_slots := (sc_slots sc)[k := f (sc_slots sc ! k)]\<rparr>) = sc_objs sc" for sc
    by (simp add: sc_objs_def)
  then have "live_objs (upd_cs j k f st) = live_objs st"
    by (simp add: live_objs_def upd_cs_def upd_sc_def map_update_same)
  then show ?thesis by (simp add: objs_conserved_def)
qed

lemma conserved_ensure_slot:
  assumes "objs_conserved st" and "j < length (vl_swapchains st)" and "sc_in_use (vl_swapchains st ! j)"
    and "k < length (sc_slots (vl_swapchains st ! j))" and "ensure_slot env j k st = (ok, st')"
  shows "objs_conserved st'"
proof (cases "cs_in_use (cs_at st j k)")
  case True
  then show ?thesis using assms by (simp add: ensure_slot_def)
next
  case False
  obtain r st1 where c: "create_capture_slot env (sc_modifiers (vl_swapchains st ! j)) st = (r, st1)"
    by fastforce
  have t: "vl_swapchains st1 = vl_swapchains st" using tables_create_slot [OF c] by (simp add: tables_def)
  note o = create_slot_objs [OF c]
  have l1: "live_objs st1 = live_objs st" by (simp add: live_objs_def t)
  show ?thesis
  proof (cases r)
    case None
    with False c assms(1,5) o l1 show ?thesis by (auto simp: ensure_slot_def objs_conserved_def)
  next
    case (Some slot)
    have "slot_objs (cs_at st1 j k) = {#}" using False by (simp add: slot_objs_def cs_at_def t)
    then have "live_objs (upd_cs j k (\<lambda>_. slot) st1) = live_objs st + slot_objs slot"
      using live_upd_cs [of j st1 k "\<lambda>_. slot"] assms(2-4) by (simp add: t l1)
    with Some False c assms(1,5) o show ?thesis
      by (auto simp: ensure_slot_def objs_conserved_def ac_simps)
  qed
qed

section \<open>The shape of the tables\<close>

definition vk_shape :: "vk_layer \<Rightarrow> bool" where
  "vk_shape st \<longleftrightarrow> (\<forall>sc \<in> set (vl_swapchains st).
     length (sc_slots sc) = WP_CAPTURE_SLOT_COUNT \<and> sc_next_slot sc < WP_CAPTURE_SLOT_COUNT)"

text \<open>What a stage of a capture of entry \<open>j\<close> and slot \<open>k\<close> may rely on.\<close>

definition at_slot :: "nat \<Rightarrow> nat \<Rightarrow> vk_layer \<Rightarrow> bool" where
  "at_slot j k st \<longleftrightarrow> vk_shape st \<and> j < length (vl_swapchains st) \<and> sc_in_use (vl_swapchains st ! j) \<and>
     k < WP_CAPTURE_SLOT_COUNT"

lemma vk_shape_nth:
  "vk_shape st \<Longrightarrow> j < length (vl_swapchains st) \<Longrightarrow>
     length (sc_slots (vl_swapchains st ! j)) = WP_CAPTURE_SLOT_COUNT \<and>
     sc_next_slot (vl_swapchains st ! j) < WP_CAPTURE_SLOT_COUNT"
  by (simp add: vk_shape_def)

lemma vk_shape_upd:
  "vk_shape st \<Longrightarrow> length (sc_slots sc) = WP_CAPTURE_SLOT_COUNT \<Longrightarrow> sc_next_slot sc < WP_CAPTURE_SLOT_COUNT \<Longrightarrow>
   vl_swapchains st' = (vl_swapchains st)[j := sc] \<Longrightarrow> vk_shape st'"
  by (auto simp: vk_shape_def dest!: set_update_subset_insert [THEN subsetD])

lemma vk_shape_upd_cs [simp]: "vk_shape (upd_cs j k f st) \<longleftrightarrow> vk_shape st"
proof -
  have m: "vk_shape s \<longleftrightarrow> list_all (\<lambda>p. fst p = WP_CAPTURE_SLOT_COUNT \<and> snd p < WP_CAPTURE_SLOT_COUNT)
      (map (\<lambda>sc. (length (sc_slots sc), sc_next_slot sc)) (vl_swapchains s))" for s
    by (simp add: vk_shape_def list_all_iff)
  have "map (\<lambda>sc. (length (sc_slots sc), sc_next_slot sc)) (vl_swapchains (upd_cs j k f st)) =
      map (\<lambda>sc. (length (sc_slots sc), sc_next_slot sc)) (vl_swapchains st)"
    by (simp add: upd_cs_def upd_sc_def map_update_same)
  then show ?thesis by (simp only: m)
qed

lemma at_slot_upd_cs [simp]: "at_slot j k (upd_cs j k' f st) \<longleftrightarrow> at_slot j k st"
  by (auto simp: at_slot_def) (auto simp: upd_cs_def upd_sc_def)

lemma at_slot_tables: "tables st' = tables st \<Longrightarrow> at_slot j k st' \<longleftrightarrow> at_slot j k st"
  by (simp add: at_slot_def vk_shape_def tables_def)

lemma at_slot_count:
  assumes "vk_shape st" and "find_swapchain_locked st swapchain = Some j"
  shows "at_slot j (sc_next_slot (vl_swapchains st ! j)) (count_present env j st)"
proof -
  from assms(2) have j: "j < length (vl_swapchains st)" "sc_in_use (vl_swapchains st ! j)"
    by (auto simp: find_swapchain_locked_def dest!: find_index_Some)
  note n = vk_shape_nth [OF assms(1) j(1)]
  have "vk_shape (count_present env j st)"
    using assms(1) n
    by (intro vk_shape_upd [of st _ "count_present env j st" j]) (auto simp: count_present_def upd_sc_def WP_CAPTURE_SLOT_COUNT_def)
  then show ?thesis using j n by (simp add: at_slot_def) (simp add: count_present_def upd_sc_def)
qed

lemma at_slot_ensure: "at_slot j k st \<Longrightarrow> ensure_slot env j k st = (ok, st') \<Longrightarrow> at_slot j k st'"
  by (auto simp: ensure_slot_def dest: tables_create_slot split: if_splits prod.splits option.splits)
    (metis at_slot_tables tables_create_slot)+

lemma at_slot_wait: "at_slot j k st \<Longrightarrow> wait_slot env j k st = (ok, st') \<Longrightarrow> at_slot j k st'"
  by (auto simp: wait_slot_def Let_def split: if_splits vk_result.splits)

lemma at_slot_record: "at_slot j k st \<Longrightarrow> record_and_submit_copy env f slot src w h st = (ok, st') \<Longrightarrow> at_slot j k st'"
  by (auto simp: record_and_submit_copy_def at_slot_def vk_shape_def split: if_splits)

lemma at_slot_mark: "at_slot j k st \<Longrightarrow> at_slot j k (mark_submitted j k st)"
  by (simp add: mark_submitted_def)

lemmas at_slot_stages = at_slot_ensure at_slot_wait at_slot_record at_slot_mark

section \<open>Conservation over all steps\<close>

lemma slot_objs_updates [simp]:
  "slot_objs (slot\<lparr>cs_fence_pending := b\<rparr>) = slot_objs slot"
  "slot_objs (slot\<lparr>cs_ownership := ow\<rparr>) = slot_objs slot"
  "slot_objs (slot\<lparr>cs_buf_sent := b\<rparr>) = slot_objs slot"
  by (simp_all add: slot_objs_def)

lemma conserved_cong:
  "vl_swapchains st' = vl_swapchains st \<Longrightarrow> vl_created st' = vl_created st \<Longrightarrow>
   vl_destroyed st' = vl_destroyed st \<Longrightarrow> objs_conserved st' \<longleftrightarrow> objs_conserved st"
  by (simp add: objs_conserved_def live_objs_def)

lemma conserved_wait: "objs_conserved st \<Longrightarrow> wait_slot env j k st = (ok, st') \<Longrightarrow> objs_conserved st'"
  by (auto simp: wait_slot_def Let_def conserved_upd_cs_same split: if_splits vk_result.splits)

lemma conserved_record:
  "objs_conserved st \<Longrightarrow> record_and_submit_copy env f slot src w h st = (ok, st') \<Longrightarrow> objs_conserved st'"
  by (auto simp: record_and_submit_copy_def objs_conserved_def live_objs_def split: if_splits)

lemma conserved_count: "objs_conserved st \<Longrightarrow> objs_conserved (count_present env j st)"
  by (simp add: objs_conserved_def live_objs_def count_present_def)
    (simp add: upd_sc_def map_update_same sc_objs_def)

lemma conserved_net: "objs_conserved (st\<lparr>vl_link := l, vl_net := n\<rparr>) \<longleftrightarrow> objs_conserved st"
  by (rule conserved_cong) simp_all

lemma conserved_net' [simp]:
  "objs_conserved (st\<lparr>vl_net := n\<rparr>) \<longleftrightarrow> objs_conserved st"
  "objs_conserved (st\<lparr>vl_link := l\<rparr>) \<longleftrightarrow> objs_conserved st"
  by (rule conserved_cong; simp)+

lemma conserved_notify: "objs_conserved (notify_portal env swapchain j k st) \<longleftrightarrow> objs_conserved st"
  by (simp add: notify_portal_def Let_def conserved_upd_cs_same conserved_net split: prod.splits option.splits)

lemma shape_notify: "vk_shape (notify_portal env swapchain j k st) \<longleftrightarrow> vk_shape st"
proof -
  have [simp]: "vk_shape (st\<lparr>vl_link := l, vl_net := n\<rparr>) \<longleftrightarrow> vk_shape st"
    "vk_shape (st\<lparr>vl_net := n\<rparr>) \<longleftrightarrow> vk_shape st"
    "vk_shape (st\<lparr>vl_link := l\<rparr>) \<longleftrightarrow> vk_shape st" for l n by (simp_all add: vk_shape_def)
  show ?thesis by (simp add: notify_portal_def Let_def split: prod.splits option.splits)
qed

lemma conserved_mark: "objs_conserved (mark_submitted j k st) \<longleftrightarrow> objs_conserved st"
  by (simp add: mark_submitted_def conserved_upd_cs_same)

lemma at_slot_shape: "at_slot j k st \<Longrightarrow> vk_shape st"
  by (simp add: at_slot_def)

lemma capture_objs:
  assumes "objs_conserved st" and "vk_shape st"
  shows "objs_conserved (wp_capture_and_notify env q swapchain idx st) \<and>
    vk_shape (wp_capture_and_notify env q swapchain idx st)"
proof (rule capture_preserves [where P = "\<lambda>j k s. objs_conserved s \<and> at_slot j k s"])
  fix j k s ok s'
  assume a: "objs_conserved s \<and> at_slot j k s" and e: "ensure_slot env j k s = (ok, s')"
  then have "objs_conserved s'"
    by (intro conserved_ensure_slot [OF _ _ _ _ e]) (auto simp: at_slot_def vk_shape_nth)
  with a e at_slot_ensure show "objs_conserved s' \<and> at_slot j k s'" by blast
qed (use assms in \<open>auto simp: conserved_count conserved_notify shape_notify at_slot_shape
    conserved_mark intro: at_slot_count conserved_wait conserved_record at_slot_stages\<close>)

lemma shape_zero: "length (sc_slots zero_swapchain) = WP_CAPTURE_SLOT_COUNT"
  "sc_next_slot zero_swapchain < WP_CAPTURE_SLOT_COUNT"
  by (simp_all add: zero_swapchain_def WP_CAPTURE_SLOT_COUNT_def)

lemma register_objs:
  assumes "objs_conserved st" and "vk_shape st"
  shows "objs_conserved (wp_register_swapchain env swapchain format w h xid st) \<and>
    vk_shape (wp_register_swapchain env swapchain format w h xid st)"
proof (cases rule: register_cases [OF refl, of env swapchain format w h xid st])
  case 1
  then show ?thesis using assms by simp
next
  case (2 j c sc)
  have "sc_objs sc = {#}"
    by (simp add: 2(5) sc_objs_def zero_swapchain_def zero_capture_slot_def slot_objs_def
        WP_CAPTURE_SLOT_COUNT_def numeral_3_eq_3)
  moreover have "sc_objs (vl_swapchains st ! j) = {#}" using 2(2) by (simp add: sc_objs_def)
  ultimately have "sum_list (map sc_objs ((vl_swapchains st)[j := sc])) = live_objs st"
    using sum_list_update_add [OF 2(1), of sc_objs sc] by (simp add: live_objs_def)
  moreover have "vk_shape (wp_register_swapchain env swapchain format w h xid st)"
    using vk_shape_upd [OF assms(2) _ _ 2(6)] shape_zero by (simp add: 2(5))
  ultimately show ?thesis using assms(1) by (simp add: objs_conserved_def live_objs_def 2(6,9,10))
qed

lemma destroy_slots_objs:
  "vl_created (foldl (\<lambda>s slot. if cs_in_use slot then destroy_capture_slot slot s else s) st slots) = vl_created st \<and>
   mset (vl_destroyed (foldl (\<lambda>s slot. if cs_in_use slot then destroy_capture_slot slot s else s) st slots)) =
     mset (vl_destroyed st) + sum_list (map slot_objs slots)"
proof (induction slots arbitrary: st)
  case (Cons slot slots)
  have "vl_created (destroy_capture_slot slot st) = vl_created st" for st
    by (simp add: destroy_capture_slot_def vk_destroy_def)
  moreover have "cs_in_use slot \<Longrightarrow> mset (vl_destroyed (destroy_capture_slot slot st)) =
      mset (vl_destroyed st) + slot_objs slot"
    by (simp add: destroy_capture_slot_def vk_destroy_def slot_objs_def)
  moreover have "\<not> cs_in_use slot \<Longrightarrow> slot_objs slot = {#}" by (simp add: slot_objs_def)
  ultimately show ?case using Cons.IH by (simp add: add.assoc)
qed simp

lemma logs_free [simp]:
  "vl_created (free_wire_channel c st) = vl_created st" "vl_destroyed (free_wire_channel c st) = vl_destroyed st"
  "vl_swapchains (free_wire_channel c st) = vl_swapchains st" "vl_net (free_wire_channel c st) = vl_net st"
  by (simp_all add: free_wire_channel_def)

lemma teardown_objs:
  assumes "objs_conserved st" and "vk_shape st"
  shows "objs_conserved (wp_teardown_swapchain swapchain st) \<and> vk_shape (wp_teardown_swapchain swapchain st)"
proof (cases "find_swapchain_locked st swapchain")
  case None
  then show ?thesis using assms by (simp add: wp_teardown_swapchain_def)
next
  case (Some j)
  let ?sc = "vl_swapchains st ! j"
  from Some have j: "j < length (vl_swapchains st)" "sc_in_use ?sc"
    by (auto simp: find_swapchain_locked_def dest!: find_index_Some)
  define t where "t = free_wire_channel (sc_wire_channel ?sc) (upd_sc j (\<lambda>sc. sc\<lparr>sc_in_use := False\<rparr>) st)"
  let ?st' = "foldl (\<lambda>s slot. if cs_in_use slot then destroy_capture_slot slot s else s) t (sc_slots ?sc)"
  have res: "wp_teardown_swapchain swapchain st = ?st'"
    using Some by (simp add: wp_teardown_swapchain_def Let_def t_def)
  have scs: "vl_swapchains ?st' = vl_swapchains t" using tables_destroy_slots [of t] by (simp add: tables_def)
  have "live_objs t + sum_list (map slot_objs (sc_slots ?sc)) = live_objs st"
    using live_upd_sc [OF j(1), of "\<lambda>sc. sc\<lparr>sc_in_use := False\<rparr>"] j(2)
    by (simp add: t_def live_objs_def sc_objs_def)
  then have "objs_conserved ?st'"
    using assms(1) destroy_slots_objs [of t "sc_slots ?sc"] scs
    by (simp add: objs_conserved_def live_objs_def t_def ac_simps)
  moreover have "vk_shape ?st'"
    using vk_shape_nth [OF assms(2) j(1)]
    by (intro vk_shape_upd [OF assms(2), of "?sc\<lparr>sc_in_use := False\<rparr>" _ j])
      (simp_all add: scs, simp add: t_def upd_sc_def)
  ultimately show ?thesis by (simp add: res)
qed

lemma sum_list_empty: "sum_list (replicate n {#}) = {#}"
  by (induction n) simp_all

lemma objs_init: "objs_conserved vk_layer_init \<and> vk_shape vk_layer_init"
  by (simp add: objs_conserved_def live_objs_def vk_shape_def vk_layer_init_def sc_objs_def shape_zero
      sum_list_empty) (simp add: zero_swapchain_def)

lemma objs_step: "vk_step st st' \<Longrightarrow> objs_conserved st \<and> vk_shape st \<Longrightarrow> objs_conserved st' \<and> vk_shape st'"
proof (induction rule: vk_step.induct)
  case (get_queue st target q family)
  then show ?case by (simp add: wp_GetDeviceQueue_def objs_conserved_def live_objs_def vk_shape_def)
next
  case (present env st target q presented)
  then show ?case by (simp add: wp_QueuePresentKHR_def capture_objs split: list.splits prod.splits)
qed (simp_all add: wp_CreateSwapchainKHR_def wp_DestroySwapchainKHR_def register_objs teardown_objs)

lemma objs_reachable: "vk_reachable st \<Longrightarrow> objs_conserved st \<and> vk_shape st"
  unfolding vk_reachable_def by (induction rule: rtranclp_induct) (simp_all add: objs_init objs_step)

section \<open>Messages to the portal\<close>

definition wire_slot_of :: "wp_swapchain_state \<Rightarrow> nat \<Rightarrow> u32" where
  "wire_slot_of sc k = sc_wire_channel sc * of_nat WP_CAPTURE_SLOT_COUNT + of_nat k"

definition is_buf :: "u32 \<Rightarrow> datagram \<Rightarrow> bool" where
  "is_buf s dg \<longleftrightarrow> (case wp_recv_capture_event (Some dg) of
     Recv_event ev \<Rightarrow> ev_tag ev = WP_CAPTURE_EVENT_BUF \<and> ev_slot ev = s | _ \<Rightarrow> False)"

text \<open>A message the portal accepts, sent after the messages \<open>before\<close>.\<close>

definition good_msg :: "datagram list \<Rightarrow> datagram \<Rightarrow> bool" where
  "good_msg before dg \<longleftrightarrow> (case wp_recv_capture_event (Some dg) of
     Recv_event ev \<Rightarrow> unat (ev_slot ev) < WP_MAX_CAPTURE_CHANNELS * WP_CAPTURE_SLOT_COUNT \<and>
       ev_fds ev = dg_fds dg \<and>
       (case ev_tag ev of
          WP_CAPTURE_EVENT_BUF \<Rightarrow> ev_fds ev \<noteq> [] \<and> length (ev_fds ev) \<le> 2
        | WP_CAPTURE_EVENT_FRAME \<Rightarrow> length (ev_fds ev) \<le> 1 \<and> (\<exists>d \<in> set before. is_buf (ev_slot ev) d)
        | WP_CAPTURE_EVENT_SHM \<Rightarrow> False)
   | _ \<Rightarrow> False)"

definition msgs_ok :: "datagram list \<Rightarrow> bool" where
  "msgs_ok L \<longleftrightarrow> (\<forall>n < length L. good_msg (take n L) (L ! n))"

lemma msgs_ok_Nil [simp]: "msgs_ok []"
  by (simp add: msgs_ok_def)

lemma msgs_ok_snoc: "msgs_ok (L @ [dg]) \<longleftrightarrow> msgs_ok L \<and> good_msg L dg"
  by (auto simp: msgs_ok_def less_Suc_eq nth_append)

definition sent :: "vk_layer \<Rightarrow> datagram list" where
  "sent st = lw_sent (vl_net st)"

definition announced_ok :: "vk_layer \<Rightarrow> bool" where
  "announced_ok st \<longleftrightarrow> (\<forall>j < length (vl_swapchains st). \<forall>k < length (sc_slots (vl_swapchains st ! j)).
     sc_in_use (vl_swapchains st ! j) \<longrightarrow> announced st j k \<longrightarrow>
     (\<exists>d \<in> set (sent st). is_buf (wire_slot_of (vl_swapchains st ! j) k) d))"

definition wire_inv :: "vk_layer \<Rightarrow> bool" where
  "wire_inv st \<longleftrightarrow> msgs_ok (sent st) \<and> announced_ok st"

lemma quiet_key_nth:
  assumes "quiet st st'" and "j < length (vl_swapchains st)"
  shows "sc_key (vl_swapchains st' ! j) = sc_key (vl_swapchains st ! j)"
proof -
  have "map sc_key (vl_swapchains st') ! j = map sc_key (vl_swapchains st) ! j"
    using assms(1) by (simp add: quiet_def)
  then show ?thesis using assms quiet_lengths [OF assms(1)] by simp
qed

lemma quiet_wire:
  assumes "quiet st st'" and "wire_inv st"
  shows "wire_inv st'"
proof -
  have s: "sent st' = sent st" using assms(1) by (simp add: sent_def quiet_def)
  note len = quiet_lengths [OF assms(1)]
  have "announced_ok st'"
    unfolding announced_ok_def
  proof (intro allI impI)
    fix j k
    assume a: "j < length (vl_swapchains st')" "k < length (sc_slots (vl_swapchains st' ! j))"
      "sc_in_use (vl_swapchains st' ! j)" "announced st' j k"
    then have j: "j < length (vl_swapchains st)" "k < length (sc_slots (vl_swapchains st ! j))"
      using len by simp_all
    with assms(1) a(4) have "announced st j k" by (simp add: quiet_def)
    moreover have "sc_in_use (vl_swapchains st ! j)"
        "wire_slot_of (vl_swapchains st' ! j) k = wire_slot_of (vl_swapchains st ! j) k"
      using quiet_key_nth [OF assms(1) j(1)] a(3) by (simp_all add: sc_key_def wire_slot_of_def)
    ultimately show "\<exists>d \<in> set (sent st'). is_buf (wire_slot_of (vl_swapchains st' ! j) k) d"
      using assms(2) j by (simp add: s wire_inv_def announced_ok_def)
  qed
  with assms(2) s show ?thesis by (simp add: wire_inv_def)
qed

lemma quiet_find:
  assumes "quiet st st'"
  shows "find_swapchain_locked st' swapchain = find_swapchain_locked st swapchain"
proof -
  have "find_index (\<lambda>sc. sc_in_use sc \<and> sc_swapchain sc = swapchain) xs =
      find_index (\<lambda>q. fst q \<and> fst (snd q) = swapchain) (map sc_key xs)" for xs
    by (induction xs) (simp_all add: sc_key_def)
  moreover have "map sc_key (vl_swapchains st') = map sc_key (vl_swapchains st)"
    using assms by (simp add: quiet_def)
  ultimately show ?thesis by (simp only: find_swapchain_locked_def)
qed

lemma send_buf_sent:
  assumes "wp_capture_link_send_buf env link slot w h fmt stride modifier g x y d sync net = (ok, link', net')"
    and "0 \<le> d"
  shows "lw_sent net' = lw_sent net @ (if ok then [\<lparr>dg_bytes = buf_header slot w h fmt stride modifier g x y,
      dg_fds = d # opt_fd sync\<rparr>] else [])"
proof -
  let ?h = "buf_header slot w h fmt stride modifier g x y"
  have "fst (snprintf 160 ?h) = ?h"
    using length_buf_header [of slot w h fmt stride modifier g x y] by (intro snprintf_id) simp
  with assms show ?thesis
    by (cases ok) (auto simp: wp_capture_link_send_buf_def Let_def opt_fd_def [of d]
        dest!: send_with_fds_ok send_with_fds_fail split: prod.splits)
qed

lemma send_frame_sent:
  assumes "wp_capture_link_send_frame env link slot sync net = (ok, link', net')"
  shows "lw_sent net' = lw_sent net @ (if ok then [\<lparr>dg_bytes = frame_header slot, dg_fds = opt_fd sync\<rparr>] else [])"
proof -
  have "fst (snprintf 64 (frame_header slot)) = frame_header slot"
    using length_frame_header [of slot] by (intro snprintf_id) simp
  with assms show ?thesis
    by (cases ok) (auto simp: wp_capture_link_send_frame_def Let_def
        dest!: send_with_fds_ok send_with_fds_fail split: prod.splits)
qed

lemma wire_slot_bound:
  assumes "unat (sc_wire_channel sc) < WP_MAX_CAPTURE_CHANNELS" and "k < WP_CAPTURE_SLOT_COUNT"
  shows "unat (wire_slot_of sc k) < WP_MAX_CAPTURE_CHANNELS * WP_CAPTURE_SLOT_COUNT"
proof -
  have "unat (wire_slot_of sc k) = unat (sc_wire_channel sc) * 3 + k"
    using assms by (simp add: wire_slot_of_def WP_CAPTURE_SLOT_COUNT_def WP_MAX_CAPTURE_CHANNELS_def
        unat_word_ariths unat_of_nat)
  then show ?thesis using assms by (simp add: WP_CAPTURE_SLOT_COUNT_def WP_MAX_CAPTURE_CHANNELS_def)
qed

lemma good_buf:
  "unat s < WP_MAX_CAPTURE_CHANNELS * WP_CAPTURE_SLOT_COUNT \<Longrightarrow>
   good_msg L \<lparr>dg_bytes = buf_header s w h f p m g x y, dg_fds = d # opt_fd e\<rparr> \<and>
   is_buf s \<lparr>dg_bytes = buf_header s w h f p m g x y, dg_fds = d # opt_fd e\<rparr>"
  using recv_buf [of "d # opt_fd e" s w h f p m g x y]
  by (simp add: good_msg_def is_buf_def opt_fd_def)

lemma good_frame:
  "unat s < WP_MAX_CAPTURE_CHANNELS * WP_CAPTURE_SLOT_COUNT \<Longrightarrow> \<exists>d \<in> set L. is_buf s d \<Longrightarrow>
   good_msg L \<lparr>dg_bytes = frame_header s, dg_fds = opt_fd e\<rparr>"
  using recv_frame [of "opt_fd e" s] by (simp add: good_msg_def opt_fd_def)

lemma wire_send:
  assumes "wire_inv st" and "vl_swapchains st' = vl_swapchains st"
    and "sent st' = sent st @ (if ok then [dg] else [])" and "ok \<longrightarrow> good_msg (sent st) dg"
  shows "wire_inv st'"
proof -
  have "msgs_ok (sent st')" using assms(1,3,4) by (simp add: wire_inv_def msgs_ok_snoc)
  moreover have "announced_ok st'"
    using assms(1-3) by (auto simp: wire_inv_def announced_ok_def announced_def cs_at_def)
  ultimately show ?thesis by (simp add: wire_inv_def)
qed

lemma wire_mark:
  assumes "wire_inv st" and "\<exists>d \<in> set (sent st). is_buf (wire_slot_of (vl_swapchains st ! j) k) d"
  shows "wire_inv (upd_cs j k (\<lambda>slot. slot\<lparr>cs_buf_sent := True\<rparr>) st)" (is "wire_inv ?st'")
proof -
  have s: "sent ?st' = sent st" by (simp add: sent_def upd_cs_def upd_sc_def)
  have "announced_ok ?st'"
    unfolding announced_ok_def
  proof (intro allI impI)
    fix j' k'
    assume a: "j' < length (vl_swapchains ?st')" "k' < length (sc_slots (vl_swapchains ?st' ! j'))"
      "sc_in_use (vl_swapchains ?st' ! j')" "announced ?st' j' k'"
    then have b: "j' < length (vl_swapchains st)" "k' < length (sc_slots (vl_swapchains st ! j'))"
        "sc_in_use (vl_swapchains st ! j')"
      by (auto simp: upd_cs_def upd_sc_def nth_upd split: if_splits)
    have w: "wire_slot_of (vl_swapchains ?st' ! j') k' = wire_slot_of (vl_swapchains st ! j') k'"
      using b(1) by (simp add: upd_cs_def upd_sc_def nth_upd wire_slot_of_def)
    show "\<exists>d \<in> set (sent ?st'). is_buf (wire_slot_of (vl_swapchains ?st' ! j') k') d"
    proof (cases "j' = j \<and> k' = k")
      case True
      then have "j' = j" "k' = k" by simp_all
      then show ?thesis using assms(2) w s by metis
    next
      case False
      then have "announced st j' k'"
        using a(4) b by (auto simp: announced_def cs_at_def upd_cs_def upd_sc_def nth_upd split: if_splits)
      then show ?thesis using assms(1) b by (simp add: w s wire_inv_def announced_ok_def)
    qed
  qed
  with assms(1) s show ?thesis by (simp add: wire_inv_def)
qed

lemma chan_bound:
  assumes "chan_inv st" and "j < length (vl_swapchains st)" and "sc_in_use (vl_swapchains st ! j)"
  shows "unat (sc_wire_channel (vl_swapchains st ! j)) < WP_MAX_CAPTURE_CHANNELS"
proof -
  have "Some (unat (sc_wire_channel (vl_swapchains st ! j))) \<in> set (map chan_of (vl_swapchains st))"
    using assms(2,3) nth_mem [of j "map chan_of (vl_swapchains st)"] by (simp add: chan_of_def)
  then show ?thesis using assms(1) unfolding chan_inv_def chans_ok_def by metis
qed

lemma wire_notify:
  assumes "wire_inv st" and "chan_inv st" and "at_slot j k st"
    and "find_swapchain_locked st swapchain = Some j" and "env_ok env"
  shows "wire_inv (notify_portal env swapchain j k st)"
proof -
  let ?sc = "vl_swapchains st ! j"
  let ?slot = "sc_slots ?sc ! k" and ?s = "wire_slot_of ?sc k"
  let ?sync = "case ve_semaphore_fd env of None \<Rightarrow> - 1 | Some d \<Rightarrow> d"
  obtain g x y where geo: "(case get_channel_geometry st (sc_wire_channel ?sc) of None \<Rightarrow> (False, 0, 0) | Some g \<Rightarrow> g) = (g, x, y)"
    by (metis prod_cases3)
  have jk: "j < length (vl_swapchains st)" "sc_in_use ?sc" "k < WP_CAPTURE_SLOT_COUNT" "k < length (sc_slots ?sc)"
    using assms(3) vk_shape_nth [of st j] by (auto simp: at_slot_def)
  have bound: "unat ?s < WP_MAX_CAPTURE_CHANNELS * WP_CAPTURE_SLOT_COUNT"
    by (rule wire_slot_bound [OF chan_bound [OF assms(2) jk(1,2)] jk(3)])
  show ?thesis
  proof (cases "cs_buf_sent ?slot")
    case True
    obtain ok link net where f: "wp_capture_link_send_frame (ve_link env) (vl_link st) ?s ?sync (vl_net st) = (ok, link, net)"
      by (metis prod_cases3)
    have "\<exists>d \<in> set (sent st). is_buf ?s d"
      using assms(1) jk True by (simp add: wire_inv_def announced_ok_def announced_def cs_at_def)
    then have "good_msg (sent st) \<lparr>dg_bytes = frame_header ?s, dg_fds = opt_fd ?sync\<rparr>"
      by (rule good_frame [OF bound])
    moreover have "notify_portal env swapchain j k st = st\<lparr>vl_link := link, vl_net := net\<rparr>"
      using f geo True by (simp add: notify_portal_def Let_def wire_slot_of_def)
    ultimately show ?thesis
      using send_frame_sent [OF f] by (intro wire_send [OF assms(1)]) (auto simp: sent_def)
  next
    case False
    show ?thesis
    proof (cases "ve_memory_fd env")
      case None
      have n: "notify_portal env swapchain j k st = st\<lparr>vl_net := close_opt ?sync (vl_net st)\<rparr>"
        using False geo None by (simp add: notify_portal_def Let_def)
      have "sent (st\<lparr>vl_net := close_opt ?sync (vl_net st)\<rparr>) = sent st"
        by (simp add: sent_def close_opt_def close_fd_def)
      then show ?thesis unfolding n by (intro wire_send [OF assms(1), of _ False]) simp_all
    next
      case (Some d)
      then have d: "0 \<le> d" using assms(5) by (simp add: env_ok_def)
      obtain ok link net where b: "wp_capture_link_send_buf (ve_link env) (vl_link st) ?s (sc_width ?sc)
          (sc_height ?sc) (sc_format ?sc) (cs_stride ?slot) (cs_modifier ?slot) g x y d ?sync (vl_net st) = (ok, link, net)"
        by (metis prod_cases3)
      define st1 where "st1 = st\<lparr>vl_link := link, vl_net := net\<rparr>"
      note good = good_buf [OF bound, of "sent st" "sc_width ?sc" "sc_height ?sc" "sc_format ?sc"
          "cs_stride ?slot" "cs_modifier ?slot" g x y d ?sync]
      note s1 = send_buf_sent [OF b d]
      have w1: "wire_inv st1"
        using s1 good by (intro wire_send [OF assms(1)]) (auto simp: sent_def st1_def)
      have f1: "find_swapchain_locked st1 swapchain = Some j"
        using assms(4) by (simp add: st1_def find_swapchain_locked_def)
      have "notify_portal env swapchain j k st =
          (if ok \<and> cs_in_use (cs_at st1 j k) then upd_cs j k (\<lambda>slot. slot\<lparr>cs_buf_sent := True\<rparr>) st1 else st1)"
        using False geo Some b f1 by (simp add: notify_portal_def Let_def wire_slot_of_def st1_def)
      moreover have "ok \<Longrightarrow> \<exists>d \<in> set (sent st1). is_buf (wire_slot_of (vl_swapchains st1 ! j) k) d"
        using s1 good by (auto simp: sent_def st1_def)
      ultimately show ?thesis using w1 wire_mark [OF w1] by simp
    qed
  qed
qed

lemma wire_capture:
  assumes "wire_inv st" and "chan_inv st" and "vk_shape st" and "env_ok env"
  shows "wire_inv (wp_capture_and_notify env q swapchain idx st)"
proof (rule capture_preserves [where P = "\<lambda>j k s. quiet st s \<and> at_slot j k s \<and>
    find_swapchain_locked st swapchain = Some j"])
  fix j k s
  assume "quiet st s \<and> at_slot j k s \<and> find_swapchain_locked st swapchain = Some j"
  then show "wire_inv (notify_portal env swapchain j k s)"
    using assms by (intro wire_notify) (auto simp: quiet_wire quiet_chan quiet_find)
qed (use assms in \<open>auto intro: quiet_count at_slot_count at_slot_stages quiet_wire quiet_mark
    quiet_trans quiet_trans [OF _ quiet_ensure_slot] quiet_trans [OF _ quiet_wait_slot]
    quiet_trans [OF _ quiet_record] quiet_trans [OF _ quiet_mark]\<close>)

lemma wire_register:
  assumes "wire_inv st"
  shows "wire_inv (wp_register_swapchain env swapchain format w h xid st)" (is "wire_inv ?st'")
proof (cases rule: register_cases [OF refl, of env swapchain format w h xid st])
  case 1
  then show ?thesis using assms by simp
next
  case (2 j c sc)
  have s: "sent ?st' = sent st" by (simp add: sent_def 2(8))
  have "\<not> announced ?st' j k" if "k < length (sc_slots sc)" for k
    using that 2(1) by (auto simp: announced_def cs_at_def 2(6)) (simp add: 2(5) zero_swapchain_def zero_capture_slot_def)
  moreover have "announced ?st' j' k = announced st j' k" if "j' \<noteq> j" for j' k
    using that by (simp add: announced_def cs_at_def 2(6))
  ultimately have "announced_ok ?st'"
    using assms by (auto simp: announced_ok_def wire_inv_def 2(6) s nth_upd split: if_splits)
  with assms s show ?thesis by (simp add: wire_inv_def)
qed

lemma wire_teardown:
  assumes "wire_inv st"
  shows "wire_inv (wp_teardown_swapchain swapchain st)"
proof (cases "find_swapchain_locked st swapchain")
  case None
  then show ?thesis using assms by (simp add: wp_teardown_swapchain_def)
next
  case (Some j)
  define t where "t = free_wire_channel (sc_wire_channel (vl_swapchains st ! j)) (upd_sc j (\<lambda>sc. sc\<lparr>sc_in_use := False\<rparr>) st)"
  have "tables (wp_teardown_swapchain swapchain st) = tables t"
    using Some by (simp add: wp_teardown_swapchain_def Let_def t_def tables_destroy_slots)
  moreover have scs: "vl_swapchains t = (vl_swapchains st)[j := (vl_swapchains st ! j)\<lparr>sc_in_use := False\<rparr>]"
    by (simp add: t_def) (simp add: upd_sc_def)
  moreover have "sent t = sent st" by (simp add: sent_def t_def) (simp add: upd_sc_def)
  ultimately show ?thesis
    using assms by (auto simp: wire_inv_def announced_ok_def announced_def cs_at_def sent_def tables_def nth_upd
        split: if_splits)
qed

lemma wire_init: "wire_inv vk_layer_init"
  by (simp add: wire_inv_def announced_ok_def sent_def vk_layer_init_def zero_swapchain_def)

lemma wire_step: "vk_step st st' \<Longrightarrow> wire_inv st \<and> chan_inv st \<and> vk_shape st \<Longrightarrow> wire_inv st'"
proof (induction rule: vk_step.induct)
  case (get_queue st target q family)
  then show ?case
    by (simp add: wp_GetDeviceQueue_def wire_inv_def announced_ok_def announced_def cs_at_def sent_def)
next
  case (present env st target q presented)
  then show ?case by (simp add: wp_QueuePresentKHR_def wire_capture split: list.splits prod.splits)
qed (simp_all add: wp_CreateSwapchainKHR_def wp_DestroySwapchainKHR_def wire_register wire_teardown)

lemma vk_reachable_step: "vk_reachable st \<Longrightarrow> vk_step st st' \<Longrightarrow> vk_reachable st'"
  unfolding vk_reachable_def by (rule rtranclp.rtrancl_into_rtrancl)

lemma wire_reachable: "vk_reachable st \<Longrightarrow> wire_inv st"
  unfolding vk_reachable_def
proof (induction rule: rtranclp_induct)
  case (step a b)
  have "chan_inv a" "vk_shape a"
    using step.hyps(1) chan_reachable objs_reachable by (simp_all add: vk_reachable_def)
  with step wire_step show ?case by blast
qed (rule wire_init)

section \<open>The layout and ownership of images\<close>

text \<open>
  The rules of Vulkan that a copy relies on, on a table of image states: a barrier's old layout is
  the image's (or undefined); a transfer between queue families releases to, or acquires from,
  the foreign owner; a copy needs both images in the transfer layouts and owned by the device.
\<close>

type_synonym image_states = "nat \<Rightarrow> vk_layout \<times> bool"

fun exec_cmd :: "vk_cmd \<Rightarrow> image_states \<Rightarrow> image_states option" where
  "exec_cmd (Barrier img old new src dst) t =
     (if old \<noteq> LAYOUT_UNDEFINED \<and> fst (t img) \<noteq> old then None
      else case (src, dst) of
             (FAMILY_IGNORED, FAMILY_IGNORED) \<Rightarrow> if snd (t img) then Some (t(img := (new, True))) else None
           | (FAMILY_FOREIGN, FAMILY f) \<Rightarrow> if \<not> snd (t img) then Some (t(img := (new, True))) else None
           | (FAMILY f, FAMILY_FOREIGN) \<Rightarrow> if snd (t img) then Some (t(img := (new, False))) else None
           | _ \<Rightarrow> None)"
| "exec_cmd (Copy_image src dst w h) t =
     (if t src = (LAYOUT_TRANSFER_SRC, True) \<and> t dst = (LAYOUT_TRANSFER_DST, True) then Some t else None)"

fun exec_cmds :: "vk_cmd list \<Rightarrow> image_states \<Rightarrow> image_states option" where
  "exec_cmds [] t = Some t"
| "exec_cmds (c # cs) t = (case exec_cmd c t of None \<Rightarrow> None | Some t' \<Rightarrow> exec_cmds cs t')"

text \<open>The state of a slot's image that its ownership flag stands for; the flag is true when the device owns it.\<close>

definition slot_image_state :: "wp_capture_slot \<Rightarrow> vk_layout \<times> bool \<Rightarrow> bool" where
  "slot_image_state slot s \<longleftrightarrow>
     (case cs_ownership slot of
        WP_SLOT_NEVER_WRITTEN \<Rightarrow> snd s
      | WP_SLOT_RELEASED_TO_FOREIGN \<Rightarrow> s = (LAYOUT_TRANSFER_DST, False))"

section \<open>Properties\<close>

text \<open>
  C3. The wire channels in use are exactly those of the registered swapchains, one channel each: in
  every reachable state of the layer two registered swapchains never share a channel, each has one
  of the four, and a channel is marked in use if and only if a registered swapchain holds it, so
  that none is ever leaked.
\<close>

theorem wire_channels_exact:
  assumes "vk_reachable st"
  shows "(\<forall>i < length (vl_swapchains st). \<forall>j < length (vl_swapchains st).
       sc_in_use (vl_swapchains st ! i) \<longrightarrow> sc_in_use (vl_swapchains st ! j) \<longrightarrow>
       sc_wire_channel (vl_swapchains st ! i) = sc_wire_channel (vl_swapchains st ! j) \<longrightarrow> i = j) \<and>
    (\<forall>c < WP_MAX_CAPTURE_CHANNELS. vl_channel_in_use st ! c \<longleftrightarrow>
       (\<exists>sc \<in> set (vl_swapchains st). sc_in_use sc \<and> unat (sc_wire_channel sc) = c))"
proof -
  let ?L = "map chan_of (vl_swapchains st)"
  have ok: "chans_ok ?L (vl_channel_in_use st)" using chan_reachable [OF assms] by (simp add: chan_inv_def)
  have "i = j" if "i < length (vl_swapchains st)" "j < length (vl_swapchains st)"
      "sc_in_use (vl_swapchains st ! i)" "sc_in_use (vl_swapchains st ! j)"
      "sc_wire_channel (vl_swapchains st ! i) = sc_wire_channel (vl_swapchains st ! j)" for i j
    using ok that one_eachD [of ?L i j "unat (sc_wire_channel (vl_swapchains st ! i))"]
    by (simp add: chans_ok_def chan_of_def)
  moreover have "Some c \<in> set ?L \<longleftrightarrow> (\<exists>sc \<in> set (vl_swapchains st). sc_in_use sc \<and> unat (sc_wire_channel sc) = c)" for c
    by (auto simp: chan_of_def split: if_splits)
  ultimately show ?thesis using ok unfolding chans_ok_def by metis
qed

text \<open>
  C5. No Vulkan object is leaked or destroyed twice: in every reachable state the objects created
  are those destroyed together with the five of each filled slot of a registered swapchain,
  whatever call failed while a slot was being created. After the last swapchain is torn down
  every created object has been destroyed exactly once.
\<close>

theorem vk_objects_conserved:
  assumes "vk_reachable st"
  shows "mset (vl_created st) = mset (vl_destroyed st) + live_objs st \<and>
    ((\<forall>sc \<in> set (vl_swapchains st). \<not> sc_in_use sc) \<longrightarrow> mset (vl_created st) = mset (vl_destroyed st))"
proof -
  have c: "mset (vl_created st) = mset (vl_destroyed st) + live_objs st"
    using objs_reachable [OF assms] by (simp add: objs_conserved_def)
  have "live_objs st = {#}" if "\<forall>sc \<in> set (vl_swapchains st). \<not> sc_in_use sc"
  proof -
    have "map sc_objs (vl_swapchains st) = replicate (length (vl_swapchains st)) {#}"
      using that by (auto simp: list_eq_iff_nth_eq sc_objs_def)
    then show ?thesis by (simp add: live_objs_def sum_list_empty)
  qed
  with c show ?thesis by simp
qed

text \<open>
  C4. Every message the layer sends is one the portal accepts, on a slot in range, and a frame is
  announced only after its buffer: in every reachable state each datagram sent so far is received
  as a BUF event with one or two descriptors or as a FRAME event with at most one, carrying all the
  descriptors it was sent with, its slot is below twelve, and before each FRAME there is a BUF for the same slot.
\<close>

theorem messages_well_formed:
  assumes "vk_reachable st" and "n < length (sent st)"
  shows "good_msg (take n (sent st)) (sent st ! n)"
  using wire_reachable [OF assms(1)] assms(2) by (simp add: wire_inv_def msgs_ok_def)

text \<open>
  C34. The barriers and the copy of one capture are valid whether the slot was written before or
  not: when they are submitted for slot \<open>k\<close> of swapchain \<open>j\<close>, on any image states in which the presented
  image is in its present layout and the slot's image is as its ownership flag says, they all
  succeed, change no other image, give the presented image back in the present layout, and leave the
  slot's image as the flag says that the layer then sets, so that the next capture into the slot
  finds what it relies on.
\<close>

theorem copy_commands_valid:
  assumes "j < length (vl_swapchains st)" and "k < length (sc_slots (vl_swapchains st ! j))"
    and "record_and_submit_copy env family (cs_at st j k) src w h st = (True, st1)" and "st2 = mark_submitted j k st1"
    and "src \<noteq> cs_image (cs_at st j k)" and "t src = (LAYOUT_PRESENT_SRC, True)"
    and "slot_image_state (cs_at st j k) (t (cs_image (cs_at st j k)))"
  shows "\<exists>cmds t'. vl_submitted st2 = vl_submitted st @ [cmds] \<and> exec_cmds cmds t = Some t' \<and>
    t' src = (LAYOUT_PRESENT_SRC, True) \<and> (\<forall>img. img \<noteq> cs_image (cs_at st j k) \<longrightarrow> t' img = t img) \<and>
    cs_image (cs_at st2 j k) = cs_image (cs_at st j k) \<and>
    slot_image_state (cs_at st2 j k) (t' (cs_image (cs_at st2 j k)))"
proof -
  let ?slot = "cs_at st j k"
  let ?t = "t(cs_image ?slot := (LAYOUT_TRANSFER_DST, False))"
  have st1: "st1 = st\<lparr>vl_submitted := vl_submitted st @ [copy_commands family ?slot src w h]\<rparr>"
    using assms(3) by (auto simp: record_and_submit_copy_def split: if_splits)
  have "exec_cmds (copy_commands family ?slot src w h) t = Some ?t"
    using assms(5-7)
    by (cases "cs_ownership ?slot") (auto simp: copy_commands_def slot_image_state_def fun_eq_iff split: prod.splits)
  moreover have "cs_image (cs_at st2 j k) = cs_image ?slot" "cs_ownership (cs_at st2 j k) = WP_SLOT_RELEASED_TO_FOREIGN"
    "vl_submitted st2 = vl_submitted st @ [copy_commands family ?slot src w h]"
    using assms(1,2) by (simp_all add: assms(4) st1 mark_submitted_def upd_cs_def upd_sc_def cs_at_def)
  ultimately show ?thesis using assms(5,6) by (simp add: slot_image_state_def)
qed

text \<open>
  A swapchain with more than sixteen images is not captured at all, although the code means to
  capture its first sixteen: asked for fewer images than there are, Vulkan answers
  \<open>VK_INCOMPLETE\<close>, which \<open>get_swapchain_images\<close> takes for a failure.
\<close>

theorem truncated_images_dropped:
  assumes "ve_image_count env = Some (length images)" and "max_out < length images"
    and "\<And>n. ve_images env n = (if n < length images then (VK_INCOMPLETE, take n images) else (VK_SUCCESS, images))"
  shows "get_swapchain_images env max_out = []"
  using assms by (simp add: get_swapchain_images_def)

section \<open>A concrete run\<close>

definition demo_vk_env :: vk_env where
  "demo_vk_env = \<lparr>ve_image_count = Some 3, ve_images = (\<lambda>n. (VK_SUCCESS, [100, 101, 102])),
     ve_modifier_count = Some 1, ve_calloc = True, ve_modifier_props = [(9, 1, 0x8001)],
     ve_window_geometry = (\<lambda>x. Some (1920, 0)), ve_create_image = True, ve_image_modifier = Some 9,
     ve_memory_type_bits = 1, ve_memory_types = Some [1], ve_allocate_memory = True,
     ve_bind_image_memory = True, ve_row_pitch = 7680, ve_create_command_pool = True,
     ve_allocate_command_buffers = True, ve_create_fence = True, ve_create_semaphore = True,
     ve_fence_status = VK_SUCCESS, ve_wait_for_fences = VK_SUCCESS, ve_reset_fences = True,
     ve_reset_command_buffer = True, ve_begin_command_buffer = True, ve_end_command_buffer = True,
     ve_queue_submit = True, ve_semaphore_fd = Some 6, ve_memory_fd = Some 5, ve_now = (0, 0),
     ve_link = \<lparr>le_socket = 3, le_connect = True, le_sendmsg = True\<rparr>\<rparr>"

definition demo_vk_swapchain :: vk_layer where
  "demo_vk_swapchain = snd (wp_CreateSwapchainKHR True VK_SUCCESS demo_vk_env 77 44 1920 1080 (Some 8)
     (wp_GetDeviceQueue True 50 0 vk_layer_init))"

definition demo_vk_frame :: vk_layer where
  "demo_vk_frame = wp_QueuePresentKHR True demo_vk_env 50 [(77, 1)] demo_vk_swapchain"

lemma reachable_demo_vk_swapchain: "vk_reachable demo_vk_swapchain"
proof -
  have "vk_reachable (wp_GetDeviceQueue True 50 0 vk_layer_init)"
    by (rule vk_reachable_step [OF _ vk_step.get_queue]) (simp add: vk_reachable_def)
  then show ?thesis
    unfolding demo_vk_swapchain_def
    by (rule vk_reachable_step [OF _ vk_step.create_swapchain])
      (simp add: find_swapchain_locked_def find_index_None wp_GetDeviceQueue_def vk_layer_init_def zero_swapchain_def)
qed

lemma reachable_demo_vk_frame: "vk_reachable demo_vk_frame"
  unfolding demo_vk_frame_def
  by (rule vk_reachable_step [OF reachable_demo_vk_swapchain vk_step.present])
    (simp add: env_ok_def demo_vk_env_def)

definition demo_sc :: wp_swapchain_state where
  "demo_sc = zero_swapchain\<lparr>sc_in_use := True, sc_swapchain := 77, sc_format := 44, sc_width := 1920,
     sc_height := 1080, sc_images := [100, 101, 102], sc_modifiers := [9], sc_wire_channel := 0\<rparr>"

lemma demo_vk_swapchain_eval:
  "vl_swapchains demo_vk_swapchain = demo_sc # replicate 15 zero_swapchain"
  "vl_queues demo_vk_swapchain = [(50, 0)]"
  "vl_channel_in_use demo_vk_swapchain = [True, False, False, False]"
  "vl_created demo_vk_swapchain = []" "vl_next demo_vk_swapchain = 0"
  "vl_net demo_vk_swapchain = \<lparr>lw_closed = [], lw_sent = []\<rparr>" "vl_link demo_vk_swapchain = wp_capture_link_create"
  by (simp_all add: demo_vk_swapchain_def wp_CreateSwapchainKHR_def wp_register_swapchain_def
      wp_GetDeviceQueue_def wp_queue_family_set_def vk_layer_init_def WP_MAX_SWAPCHAINS_def
      WP_MAX_CAPTURE_CHANNELS_def WP_MAX_QUEUES_def alloc_wire_channel_def upd_sc_def
      set_channel_geometry_def get_swapchain_images_def compute_candidate_modifiers_def demo_vk_env_def
      VK_FORMAT_FEATURES_REQUIRED_def demo_sc_def sent_def numeral_eq_Suc zero_swapchain_def)

lemmas present_defs = wp_QueuePresentKHR_def wp_capture_and_notify_def wp_queue_family_for_def
  find_swapchain_locked_def count_present_def ensure_slot_def wait_slot_def cs_at_def upd_cs_def upd_sc_def
  create_capture_slot_def vk_create_def wp_instance_find_memory_type_def record_and_submit_copy_def
  mark_submitted_def notify_portal_def WP_CAPTURE_SLOT_COUNT_def

lemma replicate_3: "replicate 3 x = [x, x, x]"
  by (simp add: numeral_3_eq_3)

lemma demo_vk_frame_eval:
  "vl_created demo_vk_frame = [Vk_image 0, Vk_memory 1, Vk_pool 2, Vk_fence 3, Vk_semaphore 4]"
  "vl_channel_in_use demo_vk_frame ! 0"
  "length (sent demo_vk_frame) = 1"
  by (simp_all add: demo_vk_frame_def present_defs demo_vk_swapchain_eval demo_vk_env_def
      demo_sc_def zero_swapchain_def zero_capture_slot_def Let_def sent_def replicate_3
      get_channel_geometry_def wp_capture_link_send_buf_def link_defs wp_capture_link_create_def
      WP_MAX_CAPTURE_CHANNELS_def VK_MEMORY_PROPERTY_DEVICE_LOCAL_BIT_def split: prod.splits)

theorem wire_channels_exact_witness:
  "\<exists>sc \<in> set (vl_swapchains demo_vk_frame). sc_in_use sc \<and> unat (sc_wire_channel sc) = 0"
  using wire_channels_exact [OF reachable_demo_vk_frame] demo_vk_frame_eval(2)
  by (simp add: WP_MAX_CAPTURE_CHANNELS_def)

theorem vk_objects_conserved_witness:
  "mset (vl_destroyed demo_vk_frame) + live_objs demo_vk_frame =
     {#Vk_image 0, Vk_memory 1, Vk_pool 2, Vk_fence 3, Vk_semaphore 4#}"
  using vk_objects_conserved [OF reachable_demo_vk_frame] by (simp add: demo_vk_frame_eval(1))

theorem messages_well_formed_witness: "good_msg [] (sent demo_vk_frame ! 0)"
  using messages_well_formed [OF reachable_demo_vk_frame, of 0] demo_vk_frame_eval(3) by simp

text \<open>A first capture: the slot was never written.\<close>

definition demo_copy_state :: vk_layer where
  "demo_copy_state = vk_layer_init\<lparr>vl_swapchains := [zero_swapchain]\<rparr>"

definition demo_copied :: vk_layer where
  "demo_copied = mark_submitted 0 1
     (snd (record_and_submit_copy demo_vk_env 0 (cs_at demo_copy_state 0 1) 7 1920 1080 demo_copy_state))"

definition demo_images :: image_states where
  "demo_images i = (if i = 7 then (LAYOUT_PRESENT_SRC, True) else (LAYOUT_UNDEFINED, True))"

lemma demo_copy_slot:
  "cs_at demo_copy_state 0 1 = zero_capture_slot" "length (sc_slots (vl_swapchains demo_copy_state ! 0)) = 3"
  "length (vl_swapchains demo_copy_state) = 1"
  by (simp_all add: demo_copy_state_def cs_at_def zero_swapchain_def WP_CAPTURE_SLOT_COUNT_def numeral_3_eq_3)

theorem copy_commands_valid_witness:
  "\<exists>cmds t'. vl_submitted demo_copied = vl_submitted demo_copy_state @ [cmds] \<and> exec_cmds cmds demo_images = Some t' \<and>
    t' 7 = (LAYOUT_PRESENT_SRC, True) \<and> (\<forall>img. img \<noteq> cs_image (cs_at demo_copy_state 0 1) \<longrightarrow> t' img = demo_images img) \<and>
    cs_image (cs_at demo_copied 0 1) = cs_image (cs_at demo_copy_state 0 1) \<and>
    slot_image_state (cs_at demo_copied 0 1) (t' (cs_image (cs_at demo_copied 0 1)))"
proof (rule copy_commands_valid [of 0 demo_copy_state 1 demo_vk_env 0 7 1920 1080
      "snd (record_and_submit_copy demo_vk_env 0 (cs_at demo_copy_state 0 1) 7 1920 1080 demo_copy_state)"])
  show "record_and_submit_copy demo_vk_env 0 (cs_at demo_copy_state 0 1) 7 1920 1080 demo_copy_state =
      (True, snd (record_and_submit_copy demo_vk_env 0 (cs_at demo_copy_state 0 1) 7 1920 1080 demo_copy_state))"
    by (simp add: record_and_submit_copy_def demo_vk_env_def)
  show "demo_copied = mark_submitted 0 1
      (snd (record_and_submit_copy demo_vk_env 0 (cs_at demo_copy_state 0 1) 7 1920 1080 demo_copy_state))"
    by (rule demo_copied_def)
  show "slot_image_state (cs_at demo_copy_state 0 1) (demo_images (cs_image (cs_at demo_copy_state 0 1)))"
    unfolding demo_copy_slot(1) by (simp add: zero_capture_slot_def slot_image_state_def demo_images_def)
  show "7 \<noteq> cs_image (cs_at demo_copy_state 0 1)" unfolding demo_copy_slot(1) by (simp add: zero_capture_slot_def)
  show "0 < length (vl_swapchains demo_copy_state)" by (simp add: demo_copy_slot(3))
  show "1 < length (sc_slots (vl_swapchains demo_copy_state ! 0))" unfolding demo_copy_slot(2) by simp
  show "demo_images 7 = (LAYOUT_PRESENT_SRC, True)" by (simp add: demo_images_def)
qed

theorem truncated_images_dropped_witness:
  "get_swapchain_images (demo_vk_env\<lparr>ve_image_count := Some 17,
     ve_images := (\<lambda>n. if n < 17 then (VK_INCOMPLETE, take n [0..<17]) else (VK_SUCCESS, [0..<17]))\<rparr>) 16 = []"
  by (rule truncated_images_dropped [of _ "[0..<17]"]) simp_all

end
