(* ===== verification/WP_Steam_Paths.thy ===== *)
theory WP_Steam_Paths
  imports WP_Paths "HOL-Library.Multiset" "HOL-Library.List_Lexorder" "HOL-Library.Product_Lexorder"
begin

text \<open>
  Where the program finds Steam, Proton and Wallpaper Engine (\<^verbatim>\<open>protocol/steam_paths.c\<close>), and
  the conversion between Unix and Wine paths. What the file system answers is the argument
  \<open>file_view\<close>. A function with the parameters \<open>out\<close> and \<open>err_out\<close> returns
  \<^term>\<open>Inr\<close> with the path or \<^term>\<open>Inl\<close> with the message; \<^term>\<open>Inl None\<close> is a failure
  that leaves \<open>err_out\<close> as it was.

  The newest Proton is the first candidate after \<open>qsort\<close> with \<open>natural_compare\<close>. The
  interface \<open>comparison\<close> is what \<open>qsort\<close> requires of a comparison function; it is
  interpreted on the program's own, whose order is that of the keys \<open>natural_key\<close>.
\<close>

section \<open>File system and errors\<close>

datatype file_kind = Regular_file | Directory | Other_file

record file_view =
  fv_stat :: "string \<Rightarrow> file_kind option"
  fv_entries :: "string \<Rightarrow> string list option"
  fv_realpath :: "string \<Rightarrow> string option"
  fv_self_exe :: "string option"

type_synonym 'a path_result = "string option + 'a"

definition errf :: "nat \<Rightarrow> string \<Rightarrow> string option" where
  "errf err_len text = Some (fst (snprintf err_len text))"

definition formatted :: "string option \<Rightarrow> string path_result" where
  "formatted r = (case r of None \<Rightarrow> Inl None | Some p \<Rightarrow> Inr p)"

definition and_then :: "'a path_result \<Rightarrow> ('a \<Rightarrow> 'b path_result) \<Rightarrow> 'b path_result" where
  "and_then r f = (case r of Inl e \<Rightarrow> Inl e | Inr x \<Rightarrow> f x)"

definition is_dir :: "file_view \<Rightarrow> string \<Rightarrow> bool" where
  "is_dir fv path \<longleftrightarrow> fv_stat fv path = Some Directory"

definition is_regular_file :: "file_view \<Rightarrow> string \<Rightarrow> bool" where
  "is_regular_file fv path \<longleftrightarrow> fv_stat fv path = Some Regular_file"

text \<open>The part of a path before its last slash, as \<open>strrchr\<close> finds it.\<close>

definition before_last :: "char \<Rightarrow> string \<Rightarrow> string option" where
  "before_last c s = (if c \<in> set s then Some (rev (tl (dropWhile (\<lambda>x. x \<noteq> c) (rev s)))) else None)"

section \<open>Directories\<close>

definition wp_home_dir :: "environ \<Rightarrow> nat \<Rightarrow> string option" where
  "wp_home_dir env out_len =
     (case env ''HOME'' of None \<Rightarrow> None | Some home \<Rightarrow> if home = [] then None else fmt_ok out_len home)"

definition wp_install_dir :: "file_view \<Rightarrow> nat \<Rightarrow> string option" where
  "wp_install_dir fv out_len =
     (case fv_self_exe fv of
        None \<Rightarrow> None
      | Some target \<Rightarrow>
         (let exe = take 1023 target in
          if exe = [] then None
          else case before_last CHR ''/'' exe of None \<Rightarrow> None | Some dir \<Rightarrow> fmt_ok out_len dir))"

definition steam_candidates :: "string \<Rightarrow> string list" where
  "steam_candidates home = map (\<lambda>s. fst (snprintf 768 (home @ s)))
     [''/.local/share/Steam'', ''/.steam/steam'', ''/.steam/root'',
      ''/.var/app/com.valvesoftware.Steam/.local/share/Steam'']"

definition steam_not_found :: "string list \<Rightarrow> string" where
  "steam_not_found c =
     ''could not find a Steam install. set WALLPIPER_STEAM_ROOT to its path (checked '' @ c ! 0 @ '', ''
       @ c ! 1 @ '', '' @ c ! 2 @ '', '' @ c ! 3 @ '')''"

definition wp_steam_root :: "environ \<Rightarrow> file_view \<Rightarrow> nat \<Rightarrow> nat \<Rightarrow> string path_result" where
  "wp_steam_root env fv out_len err_len =
     (case env_path env ''WALLPIPER_STEAM_ROOT'' of
        Some override \<Rightarrow> formatted (fmt_ok out_len override)
      | None \<Rightarrow>
         (case wp_home_dir env 512 of
            None \<Rightarrow> Inl (errf err_len ''HOME is not set'')
          | Some home \<Rightarrow>
             (case find (is_dir fv) (steam_candidates home) of
                Some c \<Rightarrow> formatted (fmt_ok out_len c)
              | None \<Rightarrow> Inl (errf err_len (steam_not_found (steam_candidates home))))))"

definition WALLPAPER_ENGINE_APP_ID :: string where "WALLPAPER_ENGINE_APP_ID = ''431960''"

definition wp_compatdata_dir :: "environ \<Rightarrow> file_view \<Rightarrow> nat \<Rightarrow> nat \<Rightarrow> string path_result" where
  "wp_compatdata_dir env fv out_len err_len =
     and_then (wp_steam_root env fv 768 err_len) (\<lambda>steam_root.
       formatted (fmt_ok out_len (steam_root @ ''/steamapps/compatdata/'' @ WALLPAPER_ENGINE_APP_ID)))"

definition wp_workshop_content_dir :: "environ \<Rightarrow> file_view \<Rightarrow> nat \<Rightarrow> nat \<Rightarrow> string path_result" where
  "wp_workshop_content_dir env fv out_len err_len =
     and_then (wp_steam_root env fv 768 err_len) (\<lambda>steam_root.
       formatted (fmt_ok out_len (steam_root @ ''/steamapps/workshop/content/'' @ WALLPAPER_ENGINE_APP_ID)))"

definition wp_we_config_path :: "environ \<Rightarrow> file_view \<Rightarrow> nat \<Rightarrow> nat \<Rightarrow> string path_result" where
  "wp_we_config_path env fv out_len err_len =
     and_then (wp_steam_root env fv 768 err_len) (\<lambda>steam_root.
       formatted (fmt_ok out_len (steam_root @ ''/steamapps/common/wallpaper_engine/config.json'')))"

definition wp_we_exe :: "environ \<Rightarrow> file_view \<Rightarrow> nat \<Rightarrow> nat \<Rightarrow> string path_result" where
  "wp_we_exe env fv out_len err_len =
     (case env_path env ''WALLPIPER_WE_EXE'' of
        Some override \<Rightarrow> formatted (fmt_ok out_len override)
      | None \<Rightarrow> and_then (wp_steam_root env fv 768 err_len) (\<lambda>steam_root.
          case fmt_ok 1024 (steam_root @ ''/steamapps/common/wallpaper_engine/wallpaper64.exe'') of
            None \<Rightarrow> Inl (errf err_len ''steam root path too long'')
          | Some path \<Rightarrow>
              if \<not> is_regular_file fv path
              then Inl (errf err_len (''Wallpaper Engine executable not found at '' @ path @
                          ''. set WALLPIPER_WE_EXE to its path''))
              else formatted (fmt_ok out_len path)))"

section \<open>Choosing Proton\<close>

text \<open>The number of \<open>max_candidates\<close> is looked at for every entry that is not hidden.\<close>

fun scan_entries :: "file_view \<Rightarrow> string \<Rightarrow> nat \<Rightarrow> string list \<Rightarrow> string list \<Rightarrow> string list" where
  "scan_entries fv dir max_candidates candidates [] = candidates"
| "scan_entries fv dir max_candidates candidates (d_name # entries) =
     (if starts_with ''.'' d_name then scan_entries fv dir max_candidates candidates entries
      else if max_candidates \<le> length candidates then candidates
      else case fits 1024 (dir @ ''/'' @ d_name @ ''/proton'') of
             None \<Rightarrow> scan_entries fv dir max_candidates candidates entries
           | Some candidate \<Rightarrow>
               scan_entries fv dir max_candidates
                 (if is_regular_file fv candidate then candidates @ [candidate] else candidates) entries)"

definition scan_proton_candidates :: "file_view \<Rightarrow> string \<Rightarrow> nat \<Rightarrow> string list \<Rightarrow> string list" where
  "scan_proton_candidates fv dir max_candidates candidates =
     (case fv_entries fv dir of None \<Rightarrow> candidates
      | Some entries \<Rightarrow> scan_entries fv dir max_candidates candidates entries)"

definition byte :: "char \<Rightarrow> int" where
  "byte c = int (of_char c)"

definition first_byte :: "string \<Rightarrow> int" where
  "first_byte s = (case s of [] \<Rightarrow> 0 | c # _ \<Rightarrow> byte c)"

text \<open>Of \<open>strncmp\<close> only the sign of the result is defined by C; it is the difference here.\<close>

fun strncmp :: "nat \<Rightarrow> string \<Rightarrow> string \<Rightarrow> int" where
  "strncmp 0 a b = 0"
| "strncmp (Suc n) a b =
     (if first_byte a \<noteq> first_byte b then first_byte a - first_byte b
      else if first_byte a = 0 then 0 else strncmp n (tl a) (tl b))"

fun drop_zeros :: "string \<Rightarrow> string" where
  "drop_zeros (x # y # s) = (if x = CHR ''0'' then drop_zeros (y # s) else x # y # s)"
| "drop_zeros s = s"

function natural_compare :: "string \<Rightarrow> string \<Rightarrow> int" where
  "natural_compare a b =
     (if a = [] \<or> b = [] then first_byte a - first_byte b
      else if is_digit (hd a) \<and> is_digit (hd b) then
        (let a_digits = drop_zeros (takeWhile is_digit a);
             b_digits = drop_zeros (takeWhile is_digit b)
         in if length a_digits \<noteq> length b_digits then (if length a_digits < length b_digits then - 1 else 1)
            else let cmp = strncmp (length a_digits) a_digits b_digits
                 in if cmp \<noteq> 0 then cmp
                    else natural_compare (dropWhile is_digit a) (dropWhile is_digit b))
      else if hd a \<noteq> hd b then first_byte a - first_byte b
      else natural_compare (tl a) (tl b))"
  by pat_completeness auto
termination
proof (relation "measure (\<lambda>(a, b). length a)", goal_cases)
  case (2 a b)
  then show ?case using length_dropWhile_le [of is_digit "tl a"] by (cases a) (auto simp: Suc_le_eq le_imp_less_Suc)
qed auto

declare natural_compare.simps [simp del]

definition compare_strings_desc :: "string \<Rightarrow> string \<Rightarrow> int" where
  "compare_strings_desc a b = natural_compare b a"

text \<open>
  \<open>qsort\<close> of the C library; which of the orders of equal elements it gives is unspecified, this
  one keeps them in place.
\<close>

fun insert_by :: "('a \<Rightarrow> 'a \<Rightarrow> int) \<Rightarrow> 'a \<Rightarrow> 'a list \<Rightarrow> 'a list" where
  "insert_by cmp x [] = [x]"
| "insert_by cmp x (y # ys) = (if cmp x y \<le> 0 then x # y # ys else y # insert_by cmp x ys)"

definition qsort :: "('a \<Rightarrow> 'a \<Rightarrow> int) \<Rightarrow> 'a list \<Rightarrow> 'a list" where
  "qsort cmp xs = foldr (insert_by cmp) xs []"

definition proton_candidates :: "file_view \<Rightarrow> string \<Rightarrow> string list" where
  "proton_candidates fv steam_root =
     scan_proton_candidates fv (fst (snprintf 900 (steam_root @ ''/steamapps/common''))) 64
       (scan_proton_candidates fv (fst (snprintf 900 (steam_root @ ''/compatibilitytools.d''))) 64 [])"

definition wp_proton_bin :: "environ \<Rightarrow> file_view \<Rightarrow> nat \<Rightarrow> nat \<Rightarrow> string path_result" where
  "wp_proton_bin env fv out_len err_len =
     (case env_path env ''WALLPIPER_PROTON_BIN'' of
        Some override \<Rightarrow> formatted (fmt_ok out_len override)
      | None \<Rightarrow> and_then (wp_steam_root env fv 768 err_len) (\<lambda>steam_root.
          case qsort compare_strings_desc (proton_candidates fv steam_root) of
            [] \<Rightarrow> Inl (errf err_len (''no Proton build found under ''
                    @ fst (snprintf 900 (steam_root @ ''/compatibilitytools.d'')) @ '' or ''
                    @ fst (snprintf 900 (steam_root @ ''/steamapps/common''))
                    @ ''. Install Proton through Steam, or set WALLPIPER_PROTON_BIN to a proton binary''
                    @ [CHR 0x27] @ ''s path''))
          | c # _ \<Rightarrow> formatted (fmt_ok out_len c)))"

definition wp_wine_bin :: "environ \<Rightarrow> file_view \<Rightarrow> nat \<Rightarrow> nat \<Rightarrow> string path_result" where
  "wp_wine_bin env fv out_len err_len =
     (case env_path env ''WALLPIPER_WINE_BIN'' of
        Some override \<Rightarrow> formatted (fmt_ok out_len override)
      | None \<Rightarrow> and_then (wp_proton_bin env fv 1024 err_len) (\<lambda>proton.
          case before_last CHR ''/'' proton of
            None \<Rightarrow> Inl (errf err_len (''could not derive wine binary from proton path '' @ proton))
          | Some dir \<Rightarrow>
             (case fmt_ok 1024 (dir @ ''/files/bin/wine'') of
                None \<Rightarrow> Inl (errf err_len ''proton path too long'')
              | Some path \<Rightarrow>
                  if \<not> is_regular_file fv path
                  then Inl (errf err_len (''wine binary not found at '' @ path @
                              ''. set WALLPIPER_WINE_BIN to its path''))
                  else formatted (fmt_ok out_len path))))"

definition wp_portal_name :: "environ \<Rightarrow> nat \<Rightarrow> nat \<Rightarrow> string path_result" where
  "wp_portal_name env out_len err_len =
     (case env ''WALLPIPER_PORTAL'' of
        None \<Rightarrow> Inl (errf err_len (''WALLPIPER_PORTAL not set. export WALLPIPER_PORTAL=<name> naming ''
                  @ ''an installed wallpiper-portal-<name> binary (e.g. WALLPIPER_PORTAL=hyprland)''))
      | Some portal \<Rightarrow> formatted (fmt_ok out_len portal))"

section \<open>Wine paths\<close>

definition wp_to_windows_path :: "string \<Rightarrow> nat \<Rightarrow> string option" where
  "wp_to_windows_path unix_path out_len =
     (if out_len < length unix_path + 3 then None
      else Some (''Z:'' @ map (\<lambda>c. if c = CHR ''/'' then CHR 0x5C else c) unix_path))"

definition wp_from_windows_path :: "string \<Rightarrow> nat \<Rightarrow> string option" where
  "wp_from_windows_path windows_path out_len =
     (if \<not> (starts_with ''Z:'' windows_path \<or> starts_with ''z:'' windows_path) then None
      else let rest = drop 2 windows_path
           in if out_len \<le> length rest then None
              else Some (map (\<lambda>c. if c = CHR 0x5C then CHR ''/'' else c) rest))"

section \<open>The interface of a comparison function\<close>

locale comparison =
  fixes cmp :: "'a \<Rightarrow> 'a \<Rightarrow> int" and ok :: "'a \<Rightarrow> bool"
  assumes total: "ok x \<Longrightarrow> ok y \<Longrightarrow> cmp x y \<le> 0 \<or> cmp y x \<le> 0"
    and transitive: "ok x \<Longrightarrow> ok y \<Longrightarrow> ok z \<Longrightarrow> cmp x y \<le> 0 \<Longrightarrow> cmp y z \<le> 0 \<Longrightarrow> cmp x z \<le> 0"
begin

lemma mset_insert_by [simp]: "mset (insert_by cmp x ys) = add_mset x (mset ys)"
  by (induction ys) auto

lemma set_insert_by [simp]: "set (insert_by cmp x ys) = insert x (set ys)"
  by (induction ys) auto

lemma sorted_insert_by:
  assumes "ok x" and "\<forall>y \<in> set ys. ok y" and "sorted_wrt (\<lambda>x y. cmp x y \<le> 0) ys"
  shows "sorted_wrt (\<lambda>x y. cmp x y \<le> 0) (insert_by cmp x ys)"
  using assms
proof (induction ys)
  case (Cons y ys)
  show ?case
  proof (cases "cmp x y \<le> 0")
    case True
    then have "cmp x z \<le> 0" if "z \<in> set ys" for z
      using transitive [of x y z] Cons.prems that by simp
    with True Cons.prems show ?thesis by simp
  next
    case False
    then have "cmp y x \<le> 0" using total [of x y] Cons.prems by simp
    with False Cons show ?thesis by simp
  qed
qed simp

lemma qsort_correct:
  assumes "\<forall>x \<in> set xs. ok x"
  shows "mset (qsort cmp xs) = mset xs \<and> sorted_wrt (\<lambda>x y. cmp x y \<le> 0) (qsort cmp xs)"
  using assms
proof (induction xs)
  case (Cons x xs)
  then have IH: "mset (qsort cmp xs) = mset xs" "sorted_wrt (\<lambda>x y. cmp x y \<le> 0) (qsort cmp xs)" by simp_all
  from IH(1) have "set (qsort cmp xs) = set xs" by (rule mset_eq_setD)
  with Cons.prems IH show ?case by (simp add: qsort_def sorted_insert_by)
qed (simp add: qsort_def)

lemma qsort_first:
  assumes "\<forall>x \<in> set xs. ok x" and "qsort cmp xs = y # ys" and "x \<in> set xs"
  shows "y \<in> set xs \<and> cmp y x \<le> 0"
proof -
  have m: "mset (y # ys) = mset xs" and o: "sorted_wrt (\<lambda>x y. cmp x y \<le> 0) (y # ys)"
    using qsort_correct [OF assms(1)] unfolding assms(2) by blast+
  note s = mset_eq_setD [OF m]
  have "ok y" using s assms(1) by auto
  then have "cmp y y \<le> 0" using total [of y y] by simp
  with s o assms(3) show ?thesis by auto
qed

end

section \<open>The order of \<open>natural_compare\<close>\<close>

text \<open>
  A string as the comparison sees it: a run of digits counts with its value and stands where a
  digit would, every other byte stands for itself. The keys are ordered lexicographically.
\<close>

function natural_key :: "string \<Rightarrow> (nat \<times> nat) list" where
  "natural_key s =
     (if s = [] then []
      else if is_digit (hd s)
      then (48, digits_val 10 (takeWhile is_digit s)) # natural_key (dropWhile is_digit s)
      else (of_char (hd s), 0) # natural_key (tl s))"
  by pat_completeness auto
termination
proof (relation "measure length", goal_cases)
  case (2 s)
  then show ?case using length_dropWhile_le [of is_digit "tl s"] by (cases s) (auto simp: le_imp_less_Suc)
qed auto

declare natural_key.simps [simp del]

definition order_of :: "'a::linorder \<Rightarrow> 'a \<Rightarrow> int" where
  "order_of x y = (if x < y then - 1 else if x = y then 0 else 1)"

lemma natural_key_Nil [simp]: "natural_key [] = []"
  by (simp add: natural_key.simps)

lemma natural_compare_Nil [simp]: "natural_compare [] [] = 0"
  by (simp add: natural_compare.simps first_byte_def)

text \<open>The value of a run of digits does not depend on its leading zeros.\<close>

lemma digits_val_Cons:
  "digits_val 10 (c # ds) = (case digit_of 10 c of Some d \<Rightarrow> d | None \<Rightarrow> 0) * 10 ^ length ds + digits_val 10 ds"
proof (induction ds rule: rev_induct)
  case (snoc d ds)
  have "digits_val 10 (c # ds @ [d]) = 10 * digits_val 10 (c # ds) + (case digit_of 10 d of Some d \<Rightarrow> d | None \<Rightarrow> 0)"
    using digits_val_snoc [of 10 "c # ds" d] by simp
  with snoc show ?case by (simp add: digits_val_snoc)
qed (simp add: digits_val_def)

lemma digit_lt: "(case digit_of 10 c of Some d \<Rightarrow> d | None \<Rightarrow> 0) < (10::nat)"
  by (auto simp: digit_of_def Let_def)

lemma digits_val_less: "digits_val 10 ds < 10 ^ length ds"
proof (induction ds)
  case (Cons c ds)
  let ?d = "case digit_of 10 c of Some d \<Rightarrow> d | None \<Rightarrow> (0::nat)"
  have "?d * 10 ^ length ds \<le> 9 * (10::nat) ^ length ds"
    using digit_lt [of c] by (intro mult_right_mono) simp_all
  then have "?d * 10 ^ length ds + digits_val 10 ds < 10 * 10 ^ length ds" using Cons by linarith
  then show ?case unfolding digits_val_Cons by simp
qed (simp add: digits_val_def)

lemma drop_zeros_val [simp]: "digits_val 10 (drop_zeros ds) = digits_val 10 ds"
proof (induction ds rule: drop_zeros.induct)
  case (1 x y s)
  then show ?case by (simp add: digits_val_Cons [of x] digit_of_def Let_def)
qed simp_all

lemma drop_zeros_set: "set (drop_zeros ds) \<subseteq> set ds"
  by (induction ds rule: drop_zeros.induct) auto

lemma drop_zeros_shape: "ds \<noteq> [] \<Longrightarrow> length (drop_zeros ds) = 1 \<or> hd (drop_zeros ds) \<noteq> CHR ''0'' \<and> drop_zeros ds \<noteq> []"
  by (induction ds rule: drop_zeros.induct) auto

text \<open>A longer run without leading zeros has the larger value.\<close>

lemma digits_val_ge:
  assumes "ds \<noteq> []" and "hd ds \<noteq> CHR ''0''" and "is_digit (hd ds)"
  shows "10 ^ (length ds - 1) \<le> digits_val 10 ds"
proof -
  obtain c cs where ds: "ds = c # cs" using assms(1) by (cases ds) auto
  have "(of_char c :: nat) \<noteq> 48"
  proof
    assume "(of_char c :: nat) = 48"
    then have "of_char c = (of_char CHR ''0'' :: nat)" by simp
    then have "c = CHR ''0''" by (simp only: of_char_eq_iff)
    with assms(2) ds show False by simp
  qed
  with assms(3) have "1 \<le> (case digit_of 10 c of Some d \<Rightarrow> d | None \<Rightarrow> (0::nat))"
    by (auto simp: ds digit_of_10 is_digit_def)
  then have "1 * 10 ^ length cs \<le> (case digit_of 10 c of Some d \<Rightarrow> d | None \<Rightarrow> 0) * (10::nat) ^ length cs"
    by (intro mult_right_mono) simp_all
  then have "10 ^ length cs \<le> digits_val 10 (c # cs)" unfolding digits_val_Cons by linarith
  then show ?thesis by (simp add: ds)
qed

lemma digit_value: "is_digit c \<Longrightarrow> (case digit_of 10 c of Some d \<Rightarrow> d | None \<Rightarrow> 0) = of_char c - (48::nat)"
  by (simp add: digit_of_10)

lemma order_of_sum:
  assumes "x < n" and "y < (n::nat)" and "a \<noteq> b"
  shows "order_of (a * n + x) (b * n + y) = order_of a b"
proof -
  have less: "a' * n + x' < b' * n + y'" if "a' < b'" "x' < n" for a' b' x' y' :: nat
  proof -
    have "Suc a' * n \<le> b' * n" using that(1) by (intro mult_right_mono) simp_all
    with that(2) show ?thesis by simp
  qed
  consider "a < b" | "b < a" using assms(3) by linarith
  then show ?thesis
  proof cases
    case 1
    with less [of a b x y] assms(1) show ?thesis by (simp add: order_of_def)
  next
    case 2
    with less [of b a y x] assms(2) show ?thesis by (simp add: order_of_def)
  qed
qed

lemma order_of_digit: "48 \<le> m \<Longrightarrow> 48 \<le> n \<Longrightarrow> order_of (m - 48) (n - 48) = sgn (int m - int n)"
  by (auto simp: order_of_def le_iff_add)

lemma strncmp_digits:
  assumes "\<forall>c \<in> set a. is_digit c" and "\<forall>c \<in> set b. is_digit c" and "length a = n" and "length b = n"
  shows "sgn (strncmp n a b) = order_of (digits_val 10 a) (digits_val 10 b)"
  using assms
proof (induction n a b rule: strncmp.induct)
  case (2 n a b)
  obtain c cs d ds where ab: "a = c # cs" "b = d # ds"
    using "2.prems"(3,4) by (cases a; cases b) auto
  let ?v = "\<lambda>c. of_char c - (48::nat)"
  have dg: "is_digit c" "is_digit d" using "2.prems" ab by simp_all
  then have b48: "48 \<le> (of_char c :: nat)" "48 \<le> (of_char d :: nat)" by (simp_all add: is_digit_def)
  have v: "digits_val 10 a = ?v c * 10 ^ length cs + digits_val 10 cs"
    "digits_val 10 b = ?v d * 10 ^ length cs + digits_val 10 ds"
    using "2.prems"(3,4) ab by (simp_all add: digits_val_Cons digit_value dg)
  have fb: "first_byte a = int (of_char c)" "first_byte b = int (of_char d)" by (simp_all add: ab first_byte_def byte_def)
  show ?case
  proof (cases "(of_char c :: nat) = of_char d")
    case True
    with "2.prems" ab have "sgn (strncmp n cs ds) = order_of (digits_val 10 cs) (digits_val 10 ds)"
      using "2.IH" b48 by (simp add: first_byte_def byte_def)
    with True v b48 ab fb show ?thesis by (simp add: order_of_def)
  next
    case False
    have lens: "digits_val 10 cs < 10 ^ length cs" "digits_val 10 ds < 10 ^ length cs"
      using digits_val_less [of cs] digits_val_less [of ds] "2.prems"(3,4) ab by simp_all
    have "order_of (digits_val 10 a) (digits_val 10 b) = order_of (?v c) (?v d)"
      unfolding v by (rule order_of_sum [OF lens]) (use False b48 in linarith)
    also have "\<dots> = sgn (first_byte a - first_byte b)"
      unfolding fb by (rule order_of_digit [OF b48])
    finally show ?thesis using False by (simp add: fb)
  qed
qed (simp add: order_of_def digits_val_def)

definition compare_runs :: "string \<Rightarrow> string \<Rightarrow> int" where
  "compare_runs a b =
     (if length a \<noteq> length b then (if length a < length b then - 1 else 1) else strncmp (length a) a b)"

lemma drop_zeros_length_less:
  assumes "\<forall>c \<in> set a. is_digit c" and "\<forall>c \<in> set b. is_digit c" and "a \<noteq> []" and "b \<noteq> []"
    and "length (drop_zeros a) < length (drop_zeros b)"
  shows "digits_val 10 a < digits_val 10 b"
proof -
  let ?a = "drop_zeros a" and ?b = "drop_zeros b"
  have ne: "0 < length ?a" "0 < length ?b" using drop_zeros_shape assms(3,4) by fastforce+
  with assms(4,5) have b: "?b \<noteq> []" "hd ?b \<noteq> CHR ''0''" using drop_zeros_shape [of b] by auto
  then have "is_digit (hd ?b)" using drop_zeros_set [of b] assms(2) by (meson hd_in_set subsetD)
  with b have "10 ^ (length ?b - 1) \<le> digits_val 10 b" using digits_val_ge [of ?b] by simp
  moreover have "digits_val 10 a < 10 ^ length ?a" using digits_val_less [of ?a] by simp
  moreover have "(10::nat) ^ length ?a \<le> 10 ^ (length ?b - 1)" using assms(5) by (intro power_increasing) auto
  ultimately show ?thesis by linarith
qed

lemma compare_runs_order:
  assumes "\<forall>c \<in> set a. is_digit c" and "\<forall>c \<in> set b. is_digit c" and "a \<noteq> []" and "b \<noteq> []"
  shows "sgn (compare_runs (drop_zeros a) (drop_zeros b)) = order_of (digits_val 10 a) (digits_val 10 b)"
proof (cases "length (drop_zeros a) = length (drop_zeros b)")
  case True
  have "\<forall>c \<in> set (drop_zeros a). is_digit c" "\<forall>c \<in> set (drop_zeros b). is_digit c"
    using assms(1,2) drop_zeros_set by blast+
  with True show ?thesis by (simp add: compare_runs_def strncmp_digits)
next
  case False
  with drop_zeros_length_less [of a b] drop_zeros_length_less [of b a] assms
  show ?thesis by (auto simp: compare_runs_def order_of_def)
qed

lemma order_of_self [simp]: "order_of x x = 0"
  by (simp add: order_of_def)

lemma order_of_Cons: "order_of (x # xs) (y # ys) = (if x = y then order_of xs ys else order_of x y)"
  by (auto simp: order_of_def)

lemma order_of_Pair: "order_of (x, y) (x', y') = (if x = x' then order_of y y' else order_of x x')"
  by (auto simp: order_of_def less_prod_def')

lemma of_char_eq_nat: "(of_char c :: nat) = of_char d \<longleftrightarrow> c = d"
  by (rule of_char_eq_iff)

lemma order_of_int: "sgn (int m - int n) = order_of m n"
  by (auto simp: order_of_def)

text \<open>A digit and another byte compare as any digit would.\<close>

lemma digit_vs_byte:
  assumes "is_digit c" and "\<not> is_digit d"
  shows "order_of (48::nat) (of_char d) = order_of (of_char c) (of_char d :: nat)"
    and "order_of (of_char d) (48::nat) = order_of (of_char d) (of_char c :: nat)"
    and "(of_char d :: nat) \<noteq> 48"
  using assms by (auto simp: is_digit_def order_of_def)

lemma natural_key_digit:
  "s \<noteq> [] \<Longrightarrow> is_digit (hd s) \<Longrightarrow>
   natural_key s = (48, digits_val 10 (takeWhile is_digit s)) # natural_key (dropWhile is_digit s)"
  by (subst natural_key.simps) simp

lemma natural_key_byte:
  "s \<noteq> [] \<Longrightarrow> \<not> is_digit (hd s) \<Longrightarrow> natural_key s = (of_char (hd s), 0) # natural_key (tl s)"
  by (subst natural_key.simps) simp

lemma natural_key_eq_Nil: "natural_key s = [] \<longleftrightarrow> s = []"
  by (subst natural_key.simps) simp

lemma first_byte_hd: "s \<noteq> [] \<Longrightarrow> first_byte s = int (of_char (hd s))"
  by (cases s) (simp_all add: first_byte_def byte_def)

lemma first_byte_pos: "s \<noteq> [] \<Longrightarrow> NUL \<notin> set s \<Longrightarrow> 0 < first_byte s"
proof -
  assume a: "s \<noteq> []" "NUL \<notin> set s"
  then have "hd s \<noteq> NUL" by (metis hd_in_set)
  then have "(of_char (hd s) :: nat) \<noteq> of_char NUL" by (simp only: of_char_eq_nat not_False_eq_True)
  with a show ?thesis by (simp add: first_byte_hd)
qed

lemma natural_compare_order:
  "NUL \<notin> set a \<Longrightarrow> NUL \<notin> set b \<Longrightarrow> sgn (natural_compare a b) = order_of (natural_key a) (natural_key b)"
proof (induction a b rule: natural_compare.induct)
  case (1 a b)
  let ?ad = "takeWhile is_digit a" and ?bd = "takeWhile is_digit b"
  consider "a = [] \<or> b = []" | "a \<noteq> []" "b \<noteq> []" "is_digit (hd a)" "is_digit (hd b)"
    | "a \<noteq> []" "b \<noteq> []" "\<not> (is_digit (hd a) \<and> is_digit (hd b))" by blast
  then show ?case
  proof cases
    case 1
    then have c: "natural_compare a b = first_byte a - first_byte b"
      by (subst natural_compare.simps) auto
    have "order_of [] k = (if k = [] then 0 else - 1)" "order_of k [] = (if k = [] then 0 else 1)"
      for k :: "(nat \<times> nat) list" by (cases k; simp add: order_of_def)+
    with 1 show ?thesis
      using first_byte_pos [of a] first_byte_pos [of b] "1.prems" unfolding c
      by (cases "a = []"; cases "b = []") (simp_all add: natural_key_eq_Nil first_byte_def [of "[]"])
  next
    case 2
    have d: "\<forall>c \<in> set ?ad. is_digit c" "\<forall>c \<in> set ?bd. is_digit c" "?ad \<noteq> []" "?bd \<noteq> []"
      using 2 by (auto dest: set_takeWhileD simp: takeWhile_eq_Nil_iff)
    define r where "r = compare_runs (drop_zeros ?ad) (drop_zeros ?bd)"
    have r: "sgn r = order_of (digits_val 10 ?ad) (digits_val 10 ?bd)"
      unfolding r_def by (rule compare_runs_order [OF d])
    have cmp: "natural_compare a b =
        (if r \<noteq> 0 then r else natural_compare (dropWhile is_digit a) (dropWhile is_digit b))"
      using 2 by (subst natural_compare.simps) (auto simp: r_def compare_runs_def Let_def)
    show ?thesis
    proof (cases "r = 0")
      case True
      then have "length (drop_zeros ?ad) = length (drop_zeros ?bd)"
          "strncmp (length (drop_zeros ?ad)) (drop_zeros ?ad) (drop_zeros ?bd) = 0"
        by (auto simp: r_def compare_runs_def split: if_splits)
      moreover have "NUL \<notin> set (dropWhile is_digit a)" "NUL \<notin> set (dropWhile is_digit b)"
        using "1.prems" by (auto dest: set_dropWhileD)
      ultimately have "sgn (natural_compare (dropWhile is_digit a) (dropWhile is_digit b)) =
          order_of (natural_key (dropWhile is_digit a)) (natural_key (dropWhile is_digit b))"
        using "1.IH"(1) 2 by simp
      with True r cmp 2 show ?thesis
        by (simp add: natural_key_digit order_of_Cons order_of_Pair) (simp add: order_of_def split: if_splits)
    next
      case False
      then have "digits_val 10 ?ad \<noteq> digits_val 10 ?bd" using r by (auto simp: order_of_def sgn_0_0)
      with False r cmp 2 show ?thesis by (simp add: natural_key_digit order_of_Cons order_of_Pair)
    qed
  next
    case 3
    show ?thesis
    proof (cases "hd a = hd b")
      case True
      have "NUL \<notin> set (tl a)" using "1.prems"(1) by (cases a) simp_all
      moreover have "NUL \<notin> set (tl b)" using "1.prems"(2) by (cases b) simp_all
      ultimately have "sgn (natural_compare (tl a) (tl b)) = order_of (natural_key (tl a)) (natural_key (tl b))"
        using "1.IH"(2) 3 True by simp
      moreover have "natural_compare a b = natural_compare (tl a) (tl b)"
        using 3 True by (subst natural_compare.simps) simp
      ultimately show ?thesis using 3 True by (simp add: natural_key_byte order_of_Cons)
    next
      case False
      then have "natural_compare a b = first_byte a - first_byte b"
        using 3 by (subst natural_compare.simps) auto
      then have "sgn (natural_compare a b) = order_of (of_char (hd a)) (of_char (hd b) :: nat)"
        using 3 by (simp add: first_byte_hd order_of_int)
      moreover have "(of_char (hd a) :: nat) \<noteq> of_char (hd b)" using False by (simp only: of_char_eq_nat not_False_eq_True)
      ultimately show ?thesis using 3 digit_vs_byte [of "hd a" "hd b"] digit_vs_byte [of "hd b" "hd a"]
        by (cases "is_digit (hd a)"; cases "is_digit (hd b)")
          (simp_all add: natural_key_digit natural_key_byte order_of_Cons order_of_Pair)
    qed
  qed
qed

definition no_nul :: "string \<Rightarrow> bool" where
  "no_nul s \<longleftrightarrow> NUL \<notin> set s"

lemma compare_strings_desc_le:
  "no_nul a \<Longrightarrow> no_nul b \<Longrightarrow> compare_strings_desc a b \<le> 0 \<longleftrightarrow> natural_key b \<le> natural_key a"
proof -
  assume "no_nul a" "no_nul b"
  then have "sgn (compare_strings_desc a b) = order_of (natural_key b) (natural_key a)"
    by (simp add: compare_strings_desc_def natural_compare_order no_nul_def)
  then show ?thesis by (cases "compare_strings_desc a b" "0 :: int" rule: linorder_cases)
      (auto simp: order_of_def split: if_splits)
qed

interpretation newest_first: comparison compare_strings_desc no_nul
  by unfold_locales (auto simp: compare_strings_desc_le)

section \<open>The candidates\<close>

lemma scan_entries_all:
  assumes "\<And>c. c \<in> set acc \<Longrightarrow> P c" and "length acc \<le> n"
    and "\<And>e c. e \<in> set es \<Longrightarrow> fits 1024 (dir @ ''/'' @ e @ ''/proton'') = Some c \<Longrightarrow> is_regular_file fv c \<Longrightarrow> P c"
  shows "(\<forall>c \<in> set (scan_entries fv dir n acc es). P c) \<and> length (scan_entries fv dir n acc es) \<le> n"
  using assms
proof (induction es arbitrary: acc)
  case (Cons e es)
  have IH: "(\<forall>c \<in> set (scan_entries fv dir n acc es). P c) \<and> length (scan_entries fv dir n acc es) \<le> n"
    by (rule Cons.IH [OF Cons.prems(1,2)]) (auto intro: Cons.prems(3))
  consider "starts_with ''.'' e" | "\<not> starts_with ''.'' e" "n \<le> length acc"
    | "\<not> starts_with ''.'' e" "length acc < n" "fits 1024 (dir @ ''/'' @ e @ ''/proton'') = None"
    | c where "\<not> starts_with ''.'' e" "length acc < n" "fits 1024 (dir @ ''/'' @ e @ ''/proton'') = Some c"
    by (cases "fits 1024 (dir @ ''/'' @ e @ ''/proton'')") fastforce+
  then show ?case
  proof cases
    case 4
    define acc' where "acc' = (if is_regular_file fv c then acc @ [c] else acc)"
    have "P d" if "d \<in> set acc'" for d
      using that Cons.prems(1) Cons.prems(3) [of e c] 4(3) by (auto simp: acc'_def split: if_splits)
    then have "(\<forall>c \<in> set (scan_entries fv dir n acc' es). P c) \<and> length (scan_entries fv dir n acc' es) \<le> n"
      using 4(2) by (intro Cons.IH) (auto simp: acc'_def intro: Cons.prems(3) split: if_splits)
    then show ?thesis using 4 by (simp add: acc'_def del: append.simps)
  qed (use IH Cons.prems(1,2) in simp_all)
qed simp

definition entries_no_nul :: "file_view \<Rightarrow> bool" where
  "entries_no_nul fv \<longleftrightarrow> (\<forall>dir es. fv_entries fv dir = Some es \<longrightarrow> (\<forall>e \<in> set es. no_nul e))"

lemma no_nul_snprintf: "no_nul s \<Longrightarrow> no_nul (fst (snprintf n s))"
  by (auto simp: no_nul_def snprintf_def dest: in_set_takeD)

lemma proton_candidates_ok:
  assumes "no_nul steam_root" and "entries_no_nul fv"
  shows "(\<forall>c \<in> set (proton_candidates fv steam_root). is_regular_file fv c \<and> no_nul c)
    \<and> length (proton_candidates fv steam_root) \<le> 64"
proof -
  have step: "(\<forall>c \<in> set (scan_proton_candidates fv dir 64 acc). is_regular_file fv c \<and> no_nul c)
      \<and> length (scan_proton_candidates fv dir 64 acc) \<le> 64"
    if "\<forall>c \<in> set acc. is_regular_file fv c \<and> no_nul c" "length acc \<le> 64" "no_nul dir" for dir acc
  proof (cases "fv_entries fv dir")
    case (Some es)
    then have "\<forall>e \<in> set es. no_nul e" using assms(2) by (auto simp: entries_no_nul_def)
    then have nn: "no_nul c" if "e \<in> set es" "fits 1024 (dir @ ''/'' @ e @ ''/proton'') = Some c" for e c
      using that \<open>no_nul dir\<close> fits_SomeD [OF that(2)] by (auto simp: no_nul_def)
    show ?thesis unfolding scan_proton_candidates_def Some option.case
      by (rule scan_entries_all) (use that(1,2) nn in blast)+
  qed (use that in \<open>simp add: scan_proton_candidates_def\<close>)
  have app: "no_nul (steam_root @ s)" if "no_nul s" for s using assms(1) that by (simp add: no_nul_def)
  let ?tools = "fst (snprintf 900 (steam_root @ ''/compatibilitytools.d''))"
  let ?common = "fst (snprintf 900 (steam_root @ ''/steamapps/common''))"
  have n: "no_nul ?tools" "no_nul ?common"
    by (rule no_nul_snprintf, rule app, simp add: no_nul_def)+
  have "(\<forall>c \<in> set (scan_proton_candidates fv ?tools 64 []). is_regular_file fv c \<and> no_nul c)
      \<and> length (scan_proton_candidates fv ?tools 64 []) \<le> 64"
    by (rule step) (simp_all add: n)
  then show ?thesis unfolding proton_candidates_def by (intro step) (simp_all add: n)
qed

section \<open>Properties\<close>

text \<open>
  The hand-written comparison is a comparison of keys: on C strings its sign is that of the
  lexicographic order of the keys in which a run of digits counts with its number, whatever its
  leading zeros. So it is a total preorder, as \<open>qsort\<close> requires, and two names are equal for it
  only if they differ in leading zeros.
\<close>

theorem natural_compare_by_key:
  assumes "NUL \<notin> set a" and "NUL \<notin> set b"
  shows "sgn (natural_compare a b) = order_of (natural_key a) (natural_key b)"
  by (rule natural_compare_order [OF assms])

theorem natural_compare_by_key_witness:
  "sgn (natural_compare ''Proton 10.0'' ''Proton 9.0'') = 1 \<and> natural_compare ''a01'' ''a1'' = 0"
proof -
  have "natural_key ''Proton 9.0'' < natural_key ''Proton 10.0''"
    by (simp add: natural_key.simps is_digit_def digits_val_def digit_of_def Let_def)
  then have "order_of (natural_key ''Proton 10.0'') (natural_key ''Proton 9.0'') = 1"
    by (simp only: order_of_def less_imp_neq [symmetric] less_not_sym if_False if_not_P not_False_eq_True)
  moreover have "natural_key ''a01'' = natural_key ''a1''"
    by (simp add: natural_key.simps is_digit_def digits_val_def digit_of_def Let_def)
  ultimately show ?thesis
    using natural_compare_by_key [of "''Proton 10.0''" "''Proton 9.0''"] natural_compare_by_key [of "''a01''" "''a1''"]
    by (simp add: sgn_0_0)
qed

text \<open>
  The Proton that is run is the newest one: without an override, and with at least one
  candidate under the two directories of the Steam root, the path chosen is that of an existing
  file, is one of the candidates, and no candidate is ahead of it in the natural order; and at most
  64 candidates are considered.
\<close>

theorem newest_proton_chosen:
  assumes "env_path env ''WALLPIPER_PROTON_BIN'' = None"
    and "wp_steam_root env fv 768 err_len = Inr steam_root"
    and "no_nul steam_root" and "entries_no_nul fv" and "proton_candidates fv steam_root \<noteq> []"
  shows "\<exists>c \<in> set (proton_candidates fv steam_root).
    wp_proton_bin env fv out_len err_len = formatted (fmt_ok out_len c) \<and> is_regular_file fv c \<and>
    (\<forall>c' \<in> set (proton_candidates fv steam_root). natural_compare c' c \<le> 0) \<and>
    length (proton_candidates fv steam_root) \<le> 64"
proof -
  let ?cs = "proton_candidates fv steam_root"
  note ok = proton_candidates_ok [OF assms(3,4)]
  then have nn: "\<forall>c \<in> set ?cs. no_nul c" by blast
  obtain c rest where q: "qsort compare_strings_desc ?cs = c # rest"
    using newest_first.qsort_correct [OF nn] assms(5) by (cases "qsort compare_strings_desc ?cs") auto
  have first: "c \<in> set ?cs \<and> compare_strings_desc c c' \<le> 0" if "c' \<in> set ?cs" for c'
    by (rule newest_first.qsort_first [OF nn q that])
  have "c \<in> set ?cs" using first [of "hd ?cs"] assms(5) by simp
  moreover have "wp_proton_bin env fv out_len err_len = formatted (fmt_ok out_len c)"
    using assms(1,2) q by (simp add: wp_proton_bin_def and_then_def)
  ultimately show ?thesis using first ok by (auto simp: compare_strings_desc_def)
qed

definition demo_files :: file_view where
  "demo_files = \<lparr>fv_stat = (\<lambda>p. if p \<in> {''/s/steamapps/common/Proton 9.0/proton'', ''/s/steamapps/common/Proton 10.0/proton''}
       then Some Regular_file else None),
     fv_entries = (\<lambda>p. if p = ''/s/steamapps/common'' then Some [''.'', ''Proton 9.0'', ''Proton 10.0'', ''Half-Life'']
       else None),
     fv_realpath = (\<lambda>p. Some p), fv_self_exe = Some ''/usr/lib/wallpiper/wallpiperctl''\<rparr>"

definition demo_vars :: environ where
  "demo_vars = (\<lambda>_. None)(''WALLPIPER_STEAM_ROOT'' := Some ''/s'')"

theorem newest_proton_chosen_witness:
  "\<exists>c \<in> {''/s/steamapps/common/Proton 9.0/proton'', ''/s/steamapps/common/Proton 10.0/proton''}.
     wp_proton_bin demo_vars demo_files 1024 256 = formatted (fmt_ok 1024 c)"
proof -
  have cs: "proton_candidates demo_files ''/s'' =
      [''/s/steamapps/common/Proton 9.0/proton'', ''/s/steamapps/common/Proton 10.0/proton'']"
    by (simp add: proton_candidates_def scan_proton_candidates_def demo_files_def snprintf_def fits_eq
        starts_with_def is_regular_file_def)
  have "entries_no_nul demo_files" by (auto simp: entries_no_nul_def demo_files_def no_nul_def)
  moreover have "env_path demo_vars ''WALLPIPER_PROTON_BIN'' = None" by (simp add: env_path_def demo_vars_def)
  moreover have "wp_steam_root demo_vars demo_files 768 256 = Inr ''/s''"
    by (simp add: env_path_def demo_vars_def wp_steam_root_def formatted_def fmt_ok_def snprintf_def)
  ultimately obtain c where "c \<in> set (proton_candidates demo_files ''/s'')"
      "wp_proton_bin demo_vars demo_files 1024 256 = formatted (fmt_ok 1024 c)"
    using newest_proton_chosen [of demo_vars demo_files 256 "''/s''" 1024] cs by (auto simp: no_nul_def)
  then show ?thesis unfolding cs by auto
qed

lemma wp_from_to_windows:
  assumes "CHR 0x5C \<notin> set p" and "wp_to_windows_path p m = Some w" and "length p < n"
  shows "wp_from_windows_path w n = Some p"
proof -
  have "map ((\<lambda>c. if c = CHR 0x5C then CHR ''/'' else c) \<circ> (\<lambda>c. if c = CHR ''/'' then CHR 0x5C else c)) p = p"
    using assms(1) by (intro map_idI) auto
  with assms(2,3) show ?thesis
    by (auto simp: wp_to_windows_path_def wp_from_windows_path_def starts_with_def split: if_splits)
qed

text \<open>
  The path given to Wallpaper Engine is read back: a Unix path without a backslash that fits is
  turned into a drive path with no slash in it, and converting that gives the path again.
\<close>

theorem windows_path_roundtrip:
  assumes "CHR 0x5C \<notin> set p" and "length p + 3 \<le> m" and "length p < n"
  shows "\<exists>w. wp_to_windows_path p m = Some w \<and> CHR ''/'' \<notin> set w \<and> length w < m \<and>
    wp_from_windows_path w n = Some p"
proof -
  obtain w where w: "wp_to_windows_path p m = Some w" using assms(2) by (simp add: wp_to_windows_path_def)
  then have "CHR ''/'' \<notin> set w \<and> length w < m"
    using assms(2) by (auto simp: wp_to_windows_path_def split: if_splits)
  with w wp_from_to_windows [OF assms(1) w assms(3)] show ?thesis by blast
qed

theorem windows_path_roundtrip_witness:
  "\<exists>w. wp_to_windows_path ''/home/u/wallpaper'' 1030 = Some w \<and> CHR ''/'' \<notin> set w \<and> length w < 1030 \<and>
     wp_from_windows_path w 1024 = Some ''/home/u/wallpaper''"
  by (rule windows_path_roundtrip) simp_all

end
