(* ===== verification/WP_Daemon_Ctl.thy ===== *)
theory WP_Daemon_Ctl
  imports WP_Ctl_Protocol WP_Steam_Paths
begin

text \<open>
  The control protocol between \<^verbatim>\<open>wallpiperctl\<close> and the daemon
  (\<^verbatim>\<open>protocol/daemon_ctl_protocol.c\<close>), the daemon's side of a connection
  (\<^verbatim>\<open>programs/wallpiperd/main.c\<close>), its commands (\<^verbatim>\<open>commands.c\<close>) and its dealings with the portal
  process (\<^verbatim>\<open>portal.c\<close>). The responses are the third interpretation of \<open>line_codec\<close>.

  The state behind the daemon (the portal) is a type parameter: a request to it is the argument
  \<open>send\<close>, which returns what \<open>wp_send_ctl_request\<close> returns and the state afterwards.
\<close>

section \<open>Messages\<close>

definition is_daemon_trailer :: "char \<Rightarrow> bool" where
  "is_daemon_trailer c \<longleftrightarrow> c = LF \<or> c = CR"

definition wp_daemon_ctl_encode_ok :: "nat \<Rightarrow> string option" where
  "wp_daemon_ctl_encode_ok out_len = fits out_len (''OK'' @ [LF])"

definition wp_daemon_ctl_encode_err :: "string \<Rightarrow> nat \<Rightarrow> string option" where
  "wp_daemon_ctl_encode_err message out_len = fits out_len (''ERR '' @ message @ [LF])"

text \<open>\<^term>\<open>Inr ()\<close> is OK, \<^term>\<open>Inl\<close> an error text, \<^term>\<open>None\<close> a malformed line.\<close>

definition wp_daemon_ctl_parse_response :: "string \<Rightarrow> nat \<Rightarrow> (string + unit) option" where
  "wp_daemon_ctl_parse_response line err_out_len =
     (case fits 512 line of
        None \<Rightarrow> None
      | Some b \<Rightarrow>
         (let buf = rtrim is_daemon_trailer b in
          if buf = ''OK'' then Some (Inr ())
          else if starts_with ''ERR'' buf
          then Some (Inl (fst (snprintf err_out_len (skip_blanks (drop 3 buf)))))
          else None))"

section \<open>The client's side\<close>

text \<open>The request line: the arguments with a blank between them, in a buffer of 1024 bytes.\<close>

fun build_request :: "string \<Rightarrow> bool \<Rightarrow> string list \<Rightarrow> string option" where
  "build_request request first [] = Some (request @ [LF])"
| "build_request request first (a # args) =
     (let piece = (if first then a else SP # a) in
      if piece = [] \<or> 1024 \<le> length request + length piece then None
      else build_request (request @ piece) False args)"

record daemon_env =
  de_socket :: bool
  de_connect :: bool
  de_write :: bool

text \<open>\<open>peer\<close> is what the daemon sends back for the request line it is given.\<close>

definition wp_send_daemon_command ::
  "environ \<Rightarrow> daemon_env \<Rightarrow> (string \<Rightarrow> string) \<Rightarrow> string list \<Rightarrow> nat \<Rightarrow> unit path_result" where
  "wp_send_daemon_command vars env peer args err_out_len =
     (case wp_daemon_ctl_socket_path vars 512 of
        None \<Rightarrow> Inl (errf err_out_len ''could not resolve daemon ctl socket path'')
      | Some path \<Rightarrow>
          if 108 \<le> length path then Inl (errf err_out_len ''daemon ctl socket path too long'')
          else if \<not> de_socket env then Inl (errf err_out_len ''could not create socket'')
          else if \<not> de_connect env
          then Inl (errf err_out_len (''wallpiperd is not running (no socket at '' @ path @ '')''))
          else (case build_request [] True args of
                  None \<Rightarrow> Inl (errf err_out_len ''command too long'')
                | Some request \<Rightarrow>
                    if \<not> de_write env then Inl (errf err_out_len ''failed to write command'')
                    else let total = read_line_loop 511 (peer request); line = cstr total in
                         if total = [] then Inl (errf err_out_len ''no response from wallpiperd'')
                         else (case wp_daemon_ctl_parse_response line 256 of
                                 None \<Rightarrow> Inl (errf err_out_len (''malformed response from wallpiperd: '' @ line))
                               | Some (Inl err) \<Rightarrow> Inl (errf err_out_len err)
                               | Some (Inr _) \<Rightarrow> Inr ())))"

section \<open>The daemon's side\<close>

definition is_daemon_sep :: "char \<Rightarrow> bool" where
  "is_daemon_sep c \<longleftrightarrow> c = SP \<or> c = TAB \<or> c = CR \<or> c = LF"

text \<open>The arguments \<open>daemon_ctl_listener_thread_main\<close> takes from what it reads, at most 64.\<close>

definition daemon_args :: "string \<Rightarrow> string list" where
  "daemon_args input = take 64 (tokens is_daemon_sep (fst (snprintf 1024 (cstr (read_line_loop 1023 input)))))"

definition daemon_connection ::
  "(string list \<Rightarrow> 's \<Rightarrow> (string + unit) \<times> 's) \<Rightarrow> string \<Rightarrow> 's \<Rightarrow> string \<times> 's" where
  "daemon_connection handler input s =
     (case (if daemon_args input = [] then (Inl (fst (snprintf 400 ''empty command'')), s)
            else handler (daemon_args input) s) of
        (Inr _, s') \<Rightarrow> (fst (snprintf 512 (''OK'' @ [LF])), s')
      | (Inl err, s') \<Rightarrow> (fst (snprintf 512 (''ERR '' @ err @ [LF])), s'))"

section \<open>The portal process (portal.c)\<close>

datatype wp_portal_strategy_kind = WP_PORTAL_SPAWN | WP_PORTAL_EXTERNALLY_MANAGED

record wp_portal_strategy =
  st_name :: string
  st_kind :: wp_portal_strategy_kind
  st_binary :: string

definition wp_portal_spawn_strategy :: "file_view \<Rightarrow> string \<Rightarrow> wp_portal_strategy" where
  "wp_portal_spawn_strategy fv name =
     (if name = ''kde'' \<or> name = ''gnome''
      then \<lparr>st_name = fst (snprintf 64 name), st_kind = WP_PORTAL_EXTERNALLY_MANAGED, st_binary = []\<rparr>
      else \<lparr>st_name = fst (snprintf 64 name), st_kind = WP_PORTAL_SPAWN,
            st_binary = (case wp_install_dir fv 1024 of None \<Rightarrow> []
               | Some dir \<Rightarrow> fst (snprintf 1024 (take 500 dir @ ''/wallpiper-portal-'' @ take 63 name)))\<rparr>)"

record portal_state =
  po_display_pid :: int
  po_has_monitor :: bool
  po_monitor :: wp_monitor_geometry

definition portal_state_init :: portal_state where
  "portal_state_init = \<lparr>po_display_pid = - 1, po_has_monitor = False,
     po_monitor = \<lparr>mg_x = 0, mg_y = 0, mg_width = 0, mg_height = 0, mg_logical_width = 0,
       mg_logical_height = 0, mg_scale = Fin 0\<rparr>\<rparr>"

text \<open>\<open>opened\<close> is whether the log file could be created, \<open>pid\<close> what \<open>fork\<close> returns to the daemon.\<close>

definition wp_portal_spawn :: "bool \<Rightarrow> int \<Rightarrow> wp_portal_strategy \<Rightarrow> portal_state \<Rightarrow> portal_state" where
  "wp_portal_spawn opened pid strategy st =
     (if st_kind strategy = WP_PORTAL_EXTERNALLY_MANAGED then st
      else if \<not> opened then st
      else if pid < 0 then st
      else st\<lparr>po_display_pid := pid\<rparr>)"

definition wp_portal_take_display_pid :: "portal_state \<Rightarrow> int option \<times> portal_state" where
  "wp_portal_take_display_pid st =
     (if 0 \<le> po_display_pid st then (Some (po_display_pid st), st\<lparr>po_display_pid := - 1\<rparr>) else (None, st))"

definition wp_portal_current_monitor :: "portal_state \<Rightarrow> wp_monitor_geometry option" where
  "wp_portal_current_monitor st = (if po_has_monitor st then Some (po_monitor st) else None)"

text \<open>
  The loop of the readiness watcher. \<open>answers k\<close> is what \<open>wp_send_ctl_request\<close> returns at the
  \<open>k\<close>-th attempt; the first is attempt 1. A patient watcher gives up only when it is answered.
\<close>

definition portal_ready :: "bool \<Rightarrow> wp_ctl_response option \<Rightarrow> bool" where
  "portal_ready use_geometry answer \<longleftrightarrow>
     (case answer of None \<Rightarrow> False
      | Some resp \<Rightarrow> if use_geometry then (case resp of WP_CTL_RESPONSE_GEOMETRY _ \<Rightarrow> True | _ \<Rightarrow> False) else True)"

definition set_ready :: "bool \<Rightarrow> wp_ctl_response option \<Rightarrow> portal_state \<Rightarrow> portal_state" where
  "set_ready use_geometry answer st =
     (case answer of
        Some (WP_CTL_RESPONSE_GEOMETRY g) \<Rightarrow>
          if use_geometry then st\<lparr>po_monitor := g, po_has_monitor := True\<rparr> else st\<lparr>po_has_monitor := True\<rparr>
      | _ \<Rightarrow> st\<lparr>po_has_monitor := True\<rparr>)"

partial_function (option) readiness_watcher ::
  "bool \<Rightarrow> bool \<Rightarrow> (nat \<Rightarrow> wp_ctl_response option) \<Rightarrow> nat \<Rightarrow> portal_state \<Rightarrow> (nat \<times> portal_state) option" where
  "readiness_watcher use_geometry patient answers attempt0 st =
     (let attempt = Suc attempt0 in
      if portal_ready use_geometry (answers attempt)
      then Some (attempt, set_ready use_geometry (answers attempt) st)
      else if \<not> patient \<and> 10 \<le> attempt then Some (attempt, st\<lparr>po_has_monitor := True\<rparr>)
      else readiness_watcher use_geometry patient answers attempt st)"

definition wp_portal_query_monitor_once ::
  "(string \<Rightarrow> wp_ctl_request \<Rightarrow> 's \<Rightarrow> wp_ctl_response option \<times> 's) \<Rightarrow> string \<Rightarrow> 's \<Rightarrow>
   wp_monitor_geometry option \<times> 's" where
  "wp_portal_query_monitor_once send name s =
     (case send name WP_CTL_REQUEST_GEOMETRY s of
        (Some (WP_CTL_RESPONSE_GEOMETRY g), s') \<Rightarrow> (Some g, s') | (_, s') \<Rightarrow> (None, s'))"

definition wp_portal_detach_display ::
  "environ \<Rightarrow> (string \<Rightarrow> wp_ctl_request \<Rightarrow> 's \<Rightarrow> wp_ctl_response option \<times> 's) \<Rightarrow> 's \<Rightarrow> bool \<times> 's" where
  "wp_portal_detach_display vars send s =
     (case wp_portal_name vars 64 256 of
        Inl _ \<Rightarrow> (False, s)
      | Inr name \<Rightarrow> (case send name WP_CTL_REQUEST_DETACH s of (resp, s') \<Rightarrow> (resp = Some WP_CTL_RESPONSE_OK, s')))"

definition wp_portal_set_debug_overlay ::
  "environ \<Rightarrow> (string \<Rightarrow> wp_ctl_request \<Rightarrow> 's \<Rightarrow> wp_ctl_response option \<times> 's) \<Rightarrow> bool \<Rightarrow> 's \<Rightarrow> 's" where
  "wp_portal_set_debug_overlay vars send enabled s =
     (case wp_portal_name vars 64 256 of
        Inl _ \<Rightarrow> s
      | Inr name \<Rightarrow> snd (send name (if enabled then WP_CTL_REQUEST_DEBUG_ON else WP_CTL_REQUEST_DEBUG_OFF) s))"

section \<open>Commands (commands.c)\<close>

definition wp_commands_dispatch ::
  "(bool \<Rightarrow> 's \<Rightarrow> 's) \<Rightarrow> nat \<Rightarrow> string list \<Rightarrow> 's \<Rightarrow> (string + unit) \<times> 's" where
  "wp_commands_dispatch set_overlay err_out_len args s =
     (case args of
        [] \<Rightarrow> (Inl (fst (snprintf err_out_len ''empty command'')), s)
      | cmd # _ \<Rightarrow>
          if cmd = ''debug-on'' then (Inr (), set_overlay True s)
          else if cmd = ''debug-off'' then (Inr (), set_overlay False s)
          else (Inl (fst (snprintf err_out_len (''unknown command: '' @ cmd))), s))"

section \<open>Facts on the messages\<close>

fun response_text :: "string + unit \<Rightarrow> string" where
  "response_text (Inr _) = ''OK''"
| "response_text (Inl err) = ''ERR '' @ err"

definition daemon_carriable :: "string + unit \<Rightarrow> bool" where
  "daemon_carriable m \<longleftrightarrow> (case m of Inr _ \<Rightarrow> True | Inl err \<Rightarrow> LF \<notin> set err \<and> NUL \<notin> set err)"

definition daemon_norm :: "string + unit \<Rightarrow> string + unit" where
  "daemon_norm m = (case m of Inr u \<Rightarrow> Inr u
     | Inl err \<Rightarrow> Inl (take 255 (skip_blanks (rtrim is_daemon_trailer (SP # err)))))"

lemma rtrim_keeps_prefix: "\<not> p (last w) \<Longrightarrow> w \<noteq> [] \<Longrightarrow> rtrim p (w @ s) = w @ rtrim p s"
  by (metis append_butlast_last_id append.assoc append_Cons append_Nil rtrim_cons_word)

lemma daemon_parse_text:
  assumes "length (response_text m) < 511"
  shows "wp_daemon_ctl_parse_response (response_text m @ [LF]) 256 = Some (daemon_norm m)"
proof (cases m)
  case (Inr u)
  then show ?thesis
    by (simp add: wp_daemon_ctl_parse_response_def fits_eq rtrim_def is_daemon_trailer_def daemon_norm_def)
next
  case (Inl err)
  have "rtrim is_daemon_trailer (''ERR '' @ err @ [LF]) = rtrim is_daemon_trailer (''ERR'' @ (SP # err) @ [LF])" by simp
  also have "\<dots> = ''ERR'' @ rtrim is_daemon_trailer (SP # err)"
    by (subst rtrim_keeps_prefix)
      (simp_all add: is_daemon_trailer_def rtrim_append flip: append_Cons)
  finally show ?thesis using assms Inl
    by (simp add: wp_daemon_ctl_parse_response_def fits_eq starts_with_def daemon_norm_def snprintf_def)
qed

interpretation daemon_responses: line_codec
  "\<lambda>m. fits 512 (response_text m @ [LF])" "\<lambda>t. wp_daemon_ctl_parse_response t 256" daemon_carriable daemon_norm
proof
  fix m t
  assume m: "daemon_carriable m" and "fits 512 (response_text m @ [LF]) = Some t"
  then have t: "t = response_text m @ [LF]" "length (response_text m) < 511" using fits_SomeD by fastforce+
  show "\<exists>body. t = body @ [LF] \<and> LF \<notin> set body \<and> NUL \<notin> set body"
    using m t(1) by (cases m) (auto simp: daemon_carriable_def)
  show "wp_daemon_ctl_parse_response t 256 = Some (daemon_norm m)"
    unfolding t(1) by (rule daemon_parse_text [OF t(2)])
qed

section \<open>Facts on the arguments\<close>

lemma is_daemon_sep_simps [simp]:
  "is_daemon_sep SP" "is_daemon_sep TAB" "is_daemon_sep CR" "is_daemon_sep LF"
  by (simp_all add: is_daemon_sep_def)

definition is_word :: "string \<Rightarrow> bool" where
  "is_word w \<longleftrightarrow> w \<noteq> [] \<and> (\<forall>c \<in> set w. \<not> is_daemon_sep c \<and> c \<noteq> NUL)"

abbreviation tail_words :: "string list \<Rightarrow> string" where
  "tail_words ws \<equiv> concat (map (\<lambda>w. SP # w) ws)"

lemma tokens_skip: "d x \<Longrightarrow> tokens d (x # r) = tokens d r"
  by (subst (1 2) tokens.simps) (simp add: strtok_r_def)

lemma tokens_first:
  assumes "is_word w" and "rest = [] \<or> is_daemon_sep (hd rest)"
  shows "tokens is_daemon_sep (w @ rest) = w # tokens is_daemon_sep rest"
proof (cases rest)
  case Nil
  with assms show ?thesis using tokens_last_word [of w is_daemon_sep] by (simp add: is_word_def)
next
  case (Cons x r)
  with assms show ?thesis
    using tokens_word [of w is_daemon_sep x r] tokens_skip [of is_daemon_sep x r] by (simp add: is_word_def)
qed

lemma tokens_tail_words:
  assumes "\<forall>w \<in> set ws. is_word w" and "tail = [] \<or> tail = [LF]"
  shows "tokens is_daemon_sep (tail_words ws @ tail) = ws"
  using assms(1)
proof (induction ws)
  case Nil
  then show ?case using assms(2) tokens_skip [of is_daemon_sep LF "[]"] by auto
next
  case (Cons w ws)
  have "tail_words ws @ tail = [] \<or> is_daemon_sep (hd (tail_words ws @ tail))"
    using assms(2) by (cases ws) auto
  then show ?case
    using Cons tokens_skip [of is_daemon_sep SP] tokens_first [of w] by simp
qed

lemma build_request_tail:
  "build_request r False ws = Some t \<Longrightarrow> length r < 1024 \<Longrightarrow>
   t = r @ tail_words ws @ [LF] \<and> length (r @ tail_words ws) < 1024"
proof (induction ws arbitrary: r)
  case (Cons w ws)
  from Cons.prems have "build_request (r @ SP # w) False ws = Some t" "length (r @ SP # w) < 1024"
    by (auto simp: Let_def split: if_splits)
  with Cons.IH [of "r @ SP # w"] show ?case by simp
qed simp

lemma build_request_line:
  assumes "build_request [] True (w # ws) = Some t"
  shows "t = w @ tail_words ws @ [LF] \<and> length (w @ tail_words ws) < 1024"
proof -
  from assms have "build_request w False ws = Some t" "length w < 1024" by (auto simp: Let_def split: if_splits)
  then show ?thesis by (rule build_request_tail)
qed

lemma is_word_clean: "is_word v \<Longrightarrow> LF \<notin> set v" "is_word v \<Longrightarrow> NUL \<notin> set v"
  unfolding is_word_def using is_daemon_sep_simps(4) by blast+

lemma tail_words_clean:
  "\<forall>v \<in> set ws. is_word v \<Longrightarrow> LF \<notin> set (tail_words ws) \<and> NUL \<notin> set (tail_words ws)"
  by (induction ws) (simp_all add: is_word_clean)

lemma word_line_clean:
  assumes "is_word w" and "\<forall>w \<in> set ws. is_word w"
  shows "LF \<notin> set (w @ tail_words ws) \<and> NUL \<notin> set (w @ tail_words ws)"
  unfolding set_append Un_iff using is_word_clean [OF assms(1)] tail_words_clean [OF assms(2)] by blast

lemma read_line_loop_body:
  assumes "LF \<notin> set body" and "length body \<le> room"
  shows "\<exists>tail. (tail = [] \<or> tail = [LF]) \<and> read_line_loop room (body @ [LF]) = body @ tail"
  using assms
proof (induction body arbitrary: room)
  case Nil
  then show ?case by (cases room) auto
next
  case (Cons c body)
  then obtain r where r: "room = Suc r" by (cases room) auto
  with Cons obtain tail where "tail = [] \<or> tail = [LF]" "read_line_loop r (body @ [LF]) = body @ tail" by auto
  with Cons r show ?case by (auto intro!: exI [of _ tail])
qed

lemma daemon_args_request:
  assumes "is_word w" and "\<forall>w \<in> set ws. is_word w" and "length ws < 64"
    and "build_request [] True (w # ws) = Some t"
  shows "daemon_args t = w # ws"
proof -
  let ?body = "w @ tail_words ws"
  have t: "t = ?body @ [LF]" "length ?body < 1024" using build_request_line [OF assms(4)] by simp_all
  obtain tail where tl: "tail = [] \<or> tail = [LF]" "read_line_loop 1023 (?body @ [LF]) = ?body @ tail"
    using read_line_loop_body [of ?body 1023] word_line_clean [OF assms(1,2)] t(2) by auto
  have "length (?body @ tail) \<le> 1023"
    using length_read_line_loop [of 1023 "?body @ [LF]"] tl(2) by simp
  moreover have "cstr (?body @ tail) = ?body @ tail"
    using word_line_clean [OF assms(1,2)] tl(1) by (intro cstr_id) auto
  moreover have "tokens is_daemon_sep (?body @ tail) = w # ws"
  proof -
    have "tail_words ws @ tail = [] \<or> is_daemon_sep (hd (tail_words ws @ tail))"
      using tl(1) by (cases ws) auto
    then show ?thesis
      using tokens_first [OF assms(1)] tokens_tail_words [OF assms(2) tl(1)] by simp
  qed
  moreover have "read_line_loop 1023 t = ?body @ tail" unfolding t(1) using tl(2) by simp
  ultimately show ?thesis using assms(3) by (simp add: daemon_args_def snprintf_def)
qed

lemma daemon_connection_response:
  assumes "daemon_args input = a # as" and "length (response_text (fst (handler (a # as) s))) < 511"
  shows "daemon_connection handler input s =
    (response_text (fst (handler (a # as) s)) @ [LF], snd (handler (a # as) s))"
  using assms
  by (cases "handler (a # as) s"; cases "fst (handler (a # as) s)")
    (auto simp: daemon_connection_def snprintf_def)

section \<open>Facts on the readiness watcher\<close>

lemma watcher_result:
  assumes ret: "readiness_watcher g p answers a st = Some (k, st')"
  shows "a < k \<and> po_has_monitor st' \<and> (portal_ready g (answers k) \<or> \<not> p \<and> 10 \<le> k) \<and>
    (\<forall>j. a < j \<longrightarrow> j < k \<longrightarrow> \<not> portal_ready g (answers j)) \<and> (\<not> p \<longrightarrow> k \<le> max 10 (Suc a))"
proof -
  let ?P = "\<lambda>g p answers a st (k, st'). a < k \<and> po_has_monitor st' \<and>
    (portal_ready g (answers k) \<or> \<not> p \<and> 10 \<le> k) \<and>
    (\<forall>j. a < j \<longrightarrow> j < k \<longrightarrow> \<not> portal_ready g (answers j)) \<and> (\<not> p \<longrightarrow> k \<le> max 10 (Suc a))"
  have "?P g p answers a st (k, st')"
  proof (rule readiness_watcher.raw_induct [where P = ?P, OF _ ret])
    fix f g p and answers :: "nat \<Rightarrow> wp_ctl_response option" and a st r
    assume IH: "\<And>g p answers a st r. f g p answers a st = Some r \<Longrightarrow> ?P g p answers a st r"
      and eq: "(let attempt = Suc a in
        if portal_ready g (answers attempt) then Some (attempt, set_ready g (answers attempt) st)
        else if \<not> p \<and> 10 \<le> attempt then Some (attempt, st\<lparr>po_has_monitor := True\<rparr>)
        else f g p answers attempt st) = Some r"
    obtain k st' where r: "r = (k, st')" by (cases r)
    consider "portal_ready g (answers (Suc a))" | "\<not> portal_ready g (answers (Suc a))" "\<not> p \<and> 10 \<le> Suc a"
      | "\<not> portal_ready g (answers (Suc a))" "\<not> (\<not> p \<and> 10 \<le> Suc a)" by blast
    then show "?P g p answers a st r"
    proof cases
      case 3
      with eq have "f g p answers (Suc a) st = Some (k, st')" by (auto simp: r Let_def)
      from IH [OF this] 3 show ?thesis
        by (auto simp: r) (metis Suc_lessI)+
    qed (use eq in \<open>auto simp: r Let_def set_ready_def less_Suc_eq split: option.splits wp_ctl_response.splits\<close>)
  qed
  then show ?thesis by simp
qed

lemma watcher_answered:
  "portal_ready g (answers (Suc (a + d))) \<Longrightarrow> \<exists>r. readiness_watcher g p answers a st = Some r"
proof (induction d arbitrary: a)
  case 0
  then show ?case by (simp add: readiness_watcher.simps Let_def)
next
  case (Suc d)
  then have "\<exists>r. readiness_watcher g p answers (Suc a) st = Some r" by simp
  then show ?case by (subst readiness_watcher.simps) (simp add: Let_def)
qed

lemma watcher_gives_up: "\<exists>r. readiness_watcher g False answers a st = Some r"
proof (induction "10 - a" arbitrary: a)
  case 0
  then show ?case by (subst readiness_watcher.simps) (simp add: Let_def)
next
  case (Suc n)
  then have "n = 10 - Suc a" by simp
  with Suc.hyps(1) have "\<exists>r. readiness_watcher g False answers (Suc a) st = Some r" by blast
  then show ?case by (subst readiness_watcher.simps) (simp add: Let_def)
qed

lemma daemon_exchange:
  assumes "wp_daemon_ctl_socket_path vars 512 = Some path" and "length path < 108"
    and "de_socket env" and "de_connect env" and "de_write env"
    and "is_word w" and "\<forall>w \<in> set ws. is_word w" and "length ws < 64"
    and "build_request [] True (w # ws) = Some request"
    and "daemon_carriable (fst (handler (w # ws) s))" and "length (response_text (fst (handler (w # ws) s))) < 511"
  shows "daemon_connection handler request s =
      (response_text (fst (handler (w # ws) s)) @ [LF], snd (handler (w # ws) s)) \<and>
    wp_send_daemon_command vars env (\<lambda>r. fst (daemon_connection handler r s)) (w # ws) err_len =
      (case daemon_norm (fst (handler (w # ws) s)) of Inr _ \<Rightarrow> Inr () | Inl err \<Rightarrow> Inl (errf err_len err))"
proof -
  let ?m = "fst (handler (w # ws) s)"
  note args = daemon_args_request [OF assms(6-9)]
  note conn = daemon_connection_response [where handler = handler and s = s, OF args assms(11)]
  have "fits 512 (response_text ?m @ [LF]) = Some (response_text ?m @ [LF])"
    using assms(11) by (simp add: fits_eq)
  then have "read_line (response_text ?m @ [LF]) 512 = Some (response_text ?m @ [LF])"
    using daemon_responses.read_message [OF assms(10), of _ 512 "[]"] assms(11) by simp
  then have "read_line_loop 511 (response_text ?m @ [LF]) \<noteq> []"
      "cstr (read_line_loop 511 (response_text ?m @ [LF])) = response_text ?m @ [LF]"
    by (auto simp: read_line_def Let_def split: if_splits)
  then show ?thesis
    using assms(1-5,9) conn daemon_parse_text [OF assms(11)]
    by (simp add: wp_send_daemon_command_def Let_def split: sum.splits)
qed

section \<open>Properties\<close>

text \<open>
  A command reaches the daemon as it was given: with the sockets up, a command of at most 64
  arguments that are words and fit the request buffer is handed to the daemon's handler argument by
  argument, once, and the client returns what the handler answered (an error text up to 255 bytes,
  without surrounding blanks and line ends).
\<close>

theorem daemon_command_exchange:
  assumes "wp_daemon_ctl_socket_path vars 512 = Some path" and "length path < 108"
    and "de_socket env" and "de_connect env" and "de_write env"
    and "is_word w" and "\<forall>w \<in> set ws. is_word w" and "length ws < 64"
    and "build_request [] True (w # ws) = Some request"
    and "daemon_carriable (fst (handler (w # ws) s))" and "length (response_text (fst (handler (w # ws) s))) < 511"
  shows "daemon_connection handler request s =
      (response_text (fst (handler (w # ws) s)) @ [LF], snd (handler (w # ws) s)) \<and>
    wp_send_daemon_command vars env (\<lambda>r. fst (daemon_connection handler r s)) (w # ws) err_len =
      (case daemon_norm (fst (handler (w # ws) s)) of Inr _ \<Rightarrow> Inr () | Inl err \<Rightarrow> Inl (errf err_len err))"
  by (rule daemon_exchange [where handler = handler and s = s, OF assms])

theorem daemon_command_exchange_witness:
  "daemon_connection (wp_commands_dispatch (\<lambda>b _. b) 400) (''debug-on'' @ [LF]) False = (''OK'' @ [LF], True) \<and>
   wp_send_daemon_command (\<lambda>_. None) \<lparr>de_socket = True, de_connect = True, de_write = True\<rparr>
     (\<lambda>r. fst (daemon_connection (wp_commands_dispatch (\<lambda>b _. b) 400) r False)) [''debug-on''] 512 = Inr ()"
  using daemon_command_exchange [of "\<lambda>_. None" "''/tmp/wallpiper/wallpiperd-ctl.sock''"
      "\<lparr>de_socket = True, de_connect = True, de_write = True\<rparr>" "''debug-on''" "[]" "''debug-on'' @ [LF]"
      "wp_commands_dispatch (\<lambda>b _. b) 400" False 512]
  by (simp add: wp_daemon_ctl_socket_path_def wp_temp_dir_def env_path_def fmt_ok_def snprintf_def
      is_word_def is_daemon_sep_def wp_commands_dispatch_def daemon_carriable_def daemon_norm_def)

text \<open>
  C39. The readiness watcher returns exactly when it should: an impatient one always does, a patient
  one if and only if the portal answers some attempt; there is no third reason to wait or to stop.
\<close>

theorem watcher_returns_iff:
  "(\<exists>r. readiness_watcher use_geometry patient answers 0 st = Some r) \<longleftrightarrow>
     (if patient then \<exists>k > 0. portal_ready use_geometry (answers k) else True)"
proof (cases patient)
  case True
  have "\<exists>k > 0. portal_ready use_geometry (answers k)"
    if "readiness_watcher use_geometry patient answers 0 st = Some r" for r
    using that watcher_result [of use_geometry patient answers 0 st "fst r" "snd r"] True by auto
  moreover have "\<exists>r. readiness_watcher use_geometry patient answers 0 st = Some r"
    if "0 < k" "portal_ready use_geometry (answers k)" for k
    using that watcher_answered [of use_geometry answers 0 "k - 1"] by simp
  ultimately show ?thesis using True by auto
qed (use watcher_gives_up [of use_geometry answers 0 st] in simp)

theorem watcher_returns_iff_witness:
  "readiness_watcher True True (\<lambda>_. Some WP_CTL_RESPONSE_OK) 0 portal_state_init = None \<and>
   readiness_watcher False True (\<lambda>k. if k = 3 then Some WP_CTL_RESPONSE_OK else None) 0 portal_state_init \<noteq> None"
  using watcher_returns_iff [of True True "\<lambda>_. Some WP_CTL_RESPONSE_OK" portal_state_init]
    watcher_returns_iff [of False True "\<lambda>k. if k = 3 then Some WP_CTL_RESPONSE_OK else None" portal_state_init]
  by (auto simp: portal_ready_def not_None_eq [symmetric] simp del: not_None_eq split_paired_Ex split_paired_All
      split: if_splits)

text \<open>
  When the portal counts as ready: the watcher stops at the first answered attempt, and without
  patience at the tenth at the latest; it has set the monitor flag on which the daemon's start
  waits, also when it gave up unanswered.
\<close>

theorem watcher_stops_at_first_answer:
  assumes "readiness_watcher use_geometry patient answers 0 st = Some (k, st')"
  shows "0 < k \<and> po_has_monitor st' \<and> (\<forall>j. 0 < j \<and> j < k \<longrightarrow> \<not> portal_ready use_geometry (answers j)) \<and>
    (portal_ready use_geometry (answers k) \<or> \<not> patient \<and> k = 10) \<and> (\<not> patient \<longrightarrow> k \<le> 10)"
  using watcher_result [OF assms] by auto

theorem watcher_stops_at_first_answer_witness:
  "readiness_watcher False False (\<lambda>_. None) 0 portal_state_init = Some (10, portal_state_init\<lparr>po_has_monitor := True\<rparr>) \<and>
   0 < (10::nat) \<and> po_has_monitor (portal_state_init\<lparr>po_has_monitor := True\<rparr>)"
proof -
  have "readiness_watcher False False (\<lambda>_. None) 0 portal_state_init =
      Some (10, portal_state_init\<lparr>po_has_monitor := True\<rparr>)"
    by (simp add: readiness_watcher.simps portal_ready_def)
  with watcher_stops_at_first_answer [OF this] show ?thesis by simp
qed

end
