(* ===== verification/WP_Wallpiperctl.thy ===== *)
theory WP_Wallpiperctl
  imports WP_Daemon_Ctl
begin

text \<open>
  The command line client (\<^verbatim>\<open>programs/wallpiperctl/main.c\<close>) and its control of Wallpaper Engine
  (\<^verbatim>\<open>we_control.c\<close>). What the client does outside itself is recorded in \<open>we_world\<close>: the commands
  it ran under Wine, with their prefix, and what it printed. How a command ends is an argument; so
  are the content of a file and the title that cJSON finds in it.

  The error buffer of \<open>main\<close> is not initialised: where a function fails without writing it
  (\<^term>\<open>Inl None\<close>), the client prints undefined bytes, and the model's message is \<^term>\<open>None\<close>.
\<close>

section \<open>Running Wallpaper Engine's control interface\<close>

record exec_env =
  ex_fork :: bool
  ex_status :: "string list \<Rightarrow> int option option"
  ex_read :: "string \<Rightarrow> string option"
  ex_title :: "string \<Rightarrow> string option"

record we_world =
  ww_execs :: "(string \<times> string list) list"
  ww_out :: string

definition WE_MAX_CONTROL_ARGS :: nat where "WE_MAX_CONTROL_ARGS = 10"

definition we_paths :: "environ \<Rightarrow> file_view \<Rightarrow> nat \<Rightarrow> (string \<times> string \<times> string) path_result" where
  "we_paths vars fv err_len =
     and_then (wp_wine_bin vars fv 1024 err_len) (\<lambda>wine_bin.
     and_then (wp_we_exe vars fv 1024 err_len) (\<lambda>we_exe.
     and_then (wp_compatdata_dir vars fv 768 err_len) (\<lambda>compatdata.
       case fits 800 (compatdata @ ''/pfx'') of
         None \<Rightarrow> Inl (errf err_len ''compatdata path too long'')
       | Some pfx \<Rightarrow> Inr (wine_bin, we_exe, pfx))))"

definition control_argv :: "string \<Rightarrow> string \<Rightarrow> string list \<Rightarrow> string list" where
  "control_argv wine_bin we_exe control_args = [wine_bin, we_exe, ''-control''] @ control_args"

text \<open>The status is \<^term>\<open>None\<close> when \<open>waitpid\<close> fails, and has no exit code when a signal ended it.\<close>

definition wp_we_send_control ::
  "environ \<Rightarrow> file_view \<Rightarrow> exec_env \<Rightarrow> string list \<Rightarrow> nat \<Rightarrow> we_world \<Rightarrow> unit path_result \<times> we_world" where
  "wp_we_send_control vars fv env control_args err_len w =
     (if WE_MAX_CONTROL_ARGS < length control_args then (Inl (errf err_len ''too many control arguments''), w)
      else case we_paths vars fv err_len of
        Inl e \<Rightarrow> (Inl e, w)
      | Inr (wine_bin, we_exe, pfx) \<Rightarrow>
          if \<not> ex_fork env then (Inl (errf err_len ''fork failed''), w)
          else let argv = control_argv wine_bin we_exe control_args;
                   w' = w\<lparr>ww_execs := ww_execs w @ [(pfx, argv)]\<rparr>
               in (case ex_status env argv of
                     None \<Rightarrow> (Inl (errf err_len ''failed to wait for wine process''), w')
                   | Some status \<Rightarrow>
                       if status \<noteq> Some 0
                       then (Inl (errf err_len (''wallpaper engine did not respond to the control command (is ''
                               @ ''it running?)'')), w')
                       else (Inr (), w')))"

section \<open>Wallpapers\<close>

definition is_workshop_id :: "string \<Rightarrow> bool" where
  "is_workshop_id target \<longleftrightarrow> target \<noteq> [] \<and> list_all is_digit target"

definition resolve_target :: "environ \<Rightarrow> file_view \<Rightarrow> string \<Rightarrow> nat \<Rightarrow> string path_result" where
  "resolve_target vars fv target err_len =
     (if is_workshop_id target
      then and_then (wp_workshop_content_dir vars fv 900 err_len) (\<lambda>workshop_dir.
             case fits 1024 (workshop_dir @ ''/'' @ target) of
               None \<Rightarrow> Inl (errf err_len ''path too long'') | Some resolved \<Rightarrow> Inr resolved)
      else case fv_realpath fv target of
             None \<Rightarrow> Inl (errf err_len (''no such file or directory: '' @ target))
           | Some path \<Rightarrow> (case fits 1024 path of
               None \<Rightarrow> Inl (errf err_len ''path too long'') | Some resolved \<Rightarrow> Inr resolved))"

definition resolve_project_json :: "environ \<Rightarrow> file_view \<Rightarrow> string \<Rightarrow> nat \<Rightarrow> nat \<Rightarrow> string path_result" where
  "resolve_project_json vars fv target out_len err_len =
     and_then (resolve_target vars fv target err_len) (\<lambda>resolved.
     and_then (case fv_stat fv resolved of
         None \<Rightarrow> Inl (errf err_len (''wallpaper not found: '' @ resolved))
       | Some kind \<Rightarrow>
           if kind \<noteq> Directory then Inr resolved
           else (case fits (1024 - length resolved) ''/project.json'' of
                   None \<Rightarrow> Inl (errf err_len ''path too long'')
                 | Some suffix \<Rightarrow>
                     if fv_stat fv (resolved @ suffix) = None
                     then Inl (errf err_len (''no project.json found in '' @ resolved @ suffix))
                     else Inr (resolved @ suffix))) (\<lambda>found.
       if out_len \<le> length found then Inl (errf err_len ''path too long'') else Inr found))"

definition monitor_slot :: "string option \<Rightarrow> string" where
  "monitor_slot monitor = (case monitor of None \<Rightarrow> ''0'' | Some m \<Rightarrow> if m = [] then ''0'' else m)"

definition with_project ::
  "environ \<Rightarrow> file_view \<Rightarrow> exec_env \<Rightarrow> string \<Rightarrow> (string \<Rightarrow> string list) \<Rightarrow> nat \<Rightarrow> we_world \<Rightarrow>
   unit path_result \<times> we_world" where
  "with_project vars fv env target args err_len w =
     (case resolve_project_json vars fv target 1024 err_len of
        Inl e \<Rightarrow> (Inl e, w)
      | Inr resolved \<Rightarrow>
         (case wp_to_windows_path resolved 1030 of
            None \<Rightarrow> (Inl (errf err_len ''path too long to convert''), w)
          | Some win_path \<Rightarrow> wp_we_send_control vars fv env (args win_path) err_len w))"

definition wp_we_set_wallpaper ::
  "environ \<Rightarrow> file_view \<Rightarrow> exec_env \<Rightarrow> string \<Rightarrow> string option \<Rightarrow> nat \<Rightarrow> we_world \<Rightarrow> unit path_result \<times> we_world"
where
  "wp_we_set_wallpaper vars fv env target monitor err_len w =
     with_project vars fv env target
       (\<lambda>win_path. [''openWallpaper'', ''-file'', win_path, ''-monitor'', monitor_slot monitor]) err_len w"

definition wp_we_set_property ::
  "environ \<Rightarrow> file_view \<Rightarrow> exec_env \<Rightarrow> string \<Rightarrow> string \<Rightarrow> string \<Rightarrow> string option \<Rightarrow> nat \<Rightarrow> we_world \<Rightarrow>
   unit path_result \<times> we_world" where
  "wp_we_set_property vars fv env target name val monitor err_len w =
     with_project vars fv env target
       (\<lambda>win_path. [''setProperty'', ''-file'', win_path, ''-name'', name, ''-value'', val, ''-monitor'',
                    monitor_slot monitor]) err_len w"

text \<open>\<open>printf("%-12s %s\n", d_name, title)\<close>\<close>

definition list_line :: "string \<Rightarrow> string \<Rightarrow> string" where
  "list_line d_name title = d_name @ replicate (12 - length d_name) SP @ SP # title @ [LF]"

fun list_entries :: "exec_env \<Rightarrow> string \<Rightarrow> string list \<Rightarrow> string" where
  "list_entries env workshop_dir [] = []"
| "list_entries env workshop_dir (d_name # entries) =
     (if starts_with ''.'' d_name then []
      else case fits 1024 (workshop_dir @ ''/'' @ d_name @ ''/project.json'') of
             None \<Rightarrow> []
           | Some project_path \<Rightarrow>
              (case ex_read env project_path of
                 None \<Rightarrow> []
               | Some content \<Rightarrow>
                   list_line d_name (case ex_title env (take 8191 content) of None \<Rightarrow> d_name | Some t \<Rightarrow> t)))
     @ list_entries env workshop_dir entries"

definition wp_we_list_wallpapers ::
  "environ \<Rightarrow> file_view \<Rightarrow> exec_env \<Rightarrow> nat \<Rightarrow> we_world \<Rightarrow> unit path_result \<times> we_world" where
  "wp_we_list_wallpapers vars fv env err_len w =
     (case wp_workshop_content_dir vars fv 900 err_len of
        Inl e \<Rightarrow> (Inl e, w)
      | Inr workshop_dir \<Rightarrow>
         (case fv_entries fv workshop_dir of
            None \<Rightarrow> (Inl (errf err_len (''could not open workshop content dir '' @ workshop_dir)), w)
          | Some entries \<Rightarrow> (Inr (), w\<lparr>ww_out := ww_out w @ list_entries env workshop_dir entries\<rparr>)))"

section \<open>The command line (main.c)\<close>

definition DAEMON_COMMANDS :: "string list" where
  "DAEMON_COMMANDS = [''debug-on'', ''debug-off'']"

definition WE_VERBS :: "(string \<times> string) list" where
  "WE_VERBS = [(''pause'', ''pause''), (''play'', ''play''), (''stop'', ''stop''), (''mute'', ''mute''),
     (''unmute'', ''unmute''), (''next'', ''nextWallpaper''), (''prev'', ''previousWallpaper''),
     (''reset'', ''resetWallpaper'')]"

definition is_daemon_command :: "string \<Rightarrow> bool" where
  "is_daemon_command cmd \<longleftrightarrow> List.member DAEMON_COMMANDS cmd"

definition is_we_command :: "string \<Rightarrow> bool" where
  "is_we_command cmd \<longleftrightarrow> cmd = ''list'' \<or> cmd = ''set'' \<or> cmd = ''volume'' \<or> cmd = ''prop'' \<or>
     map_of WE_VERBS cmd \<noteq> None"

definition run_we_command ::
  "environ \<Rightarrow> file_view \<Rightarrow> exec_env \<Rightarrow> string \<Rightarrow> string list \<Rightarrow> nat \<Rightarrow> we_world \<Rightarrow> unit path_result \<times> we_world" where
  "run_we_command vars fv env cmd argv err_len w =
     (if cmd = ''list'' then wp_we_list_wallpapers vars fv env err_len w
      else if cmd = ''set'' then
        (if length argv < 3
         then (Inl (errf err_len ''usage: wallpiperctl set <path|workshop-id> [monitor]''), w)
         else wp_we_set_wallpaper vars fv env (argv ! 2) (arg argv 3) err_len w)
      else if cmd = ''volume'' then
        (if length argv < 3 then (Inl (errf err_len ''usage: wallpiperctl volume <0-100>''), w)
         else wp_we_send_control vars fv env [''volume'', ''-value'', argv ! 2] err_len w)
      else if cmd = ''prop'' then
        (if length argv < 5
         then (Inl (errf err_len ''usage: wallpiperctl prop <path|workshop-id> <name> <value> [monitor]''), w)
         else wp_we_set_property vars fv env (argv ! 2) (argv ! 3) (argv ! 4) (arg argv 5) err_len w)
      else case map_of WE_VERBS cmd of
             Some control_verb \<Rightarrow> wp_we_send_control vars fv env [control_verb] err_len w
           | None \<Rightarrow> (Inl (errf err_len (''unknown command: '' @ cmd)), w))"

text \<open>
  The end of \<open>main\<close>: exit status and what is written to standard error besides the usage text.
\<close>

definition ctl_exit :: "unit path_result \<Rightarrow> nat \<times> string option" where
  "ctl_exit r = (case r of Inr _ \<Rightarrow> (0, Some [])
     | Inl e \<Rightarrow> (1, map_option (\<lambda>err. ''wallpiperctl: '' @ err @ [LF]) e))"

definition wallpiperctl_main ::
  "(string \<Rightarrow> string list \<Rightarrow> 's \<Rightarrow> unit path_result \<times> 's) \<Rightarrow> (string list \<Rightarrow> 's \<Rightarrow> unit path_result \<times> 's) \<Rightarrow>
   string list \<Rightarrow> 's \<Rightarrow> (nat \<times> string option) \<times> 's" where
  "wallpiperctl_main we daemon argv s =
     (if length argv < 2 then ((1, Some []), s)
      else let cmd = argv ! 1 in
        if cmd = ''--help'' \<or> cmd = ''-h'' then ((0, Some []), s)
        else if cmd = ''check-config'' then ((0, Some []), s)
        else if is_we_command cmd then (case we cmd argv s of (r, s') \<Rightarrow> (ctl_exit r, s'))
        else if is_daemon_command cmd then (case daemon (tl argv) s of (r, s') \<Rightarrow> (ctl_exit r, s'))
        else ((1, Some (''wallpiperctl: unknown command: '' @ cmd @ [LF, LF])), s))"

section \<open>Facts\<close>

lemma and_then_Inr: "and_then r f = Inr y \<longleftrightarrow> (\<exists>x. r = Inr x \<and> f x = Inr y)"
  by (cases r) (simp_all add: and_then_def)

lemma send_control_done:
  assumes "wp_we_send_control vars fv env args n w = (Inr (), w')"
  shows "\<exists>wine exe pfx. we_paths vars fv n = Inr (wine, exe, pfx) \<and>
    w' = w\<lparr>ww_execs := ww_execs w @ [(pfx, control_argv wine exe args)]\<rparr> \<and>
    ex_status env (control_argv wine exe args) = Some (Some 0) \<and> length args \<le> WE_MAX_CONTROL_ARGS"
  using assms
  by (auto simp: wp_we_send_control_def Let_def split: if_splits sum.splits option.splits)

lemma resolve_project_exists:
  assumes "resolve_project_json vars fv target m n = Inr path"
  shows "fv_stat fv path \<noteq> None \<and> length path < m"
proof -
  from assms obtain r where
    r: "(case fv_stat fv r of
         None \<Rightarrow> Inl (errf n (''wallpaper not found: '' @ r))
       | Some kind \<Rightarrow>
           if kind \<noteq> Directory then Inr r
           else (case fits (1024 - length r) ''/project.json'' of
                   None \<Rightarrow> Inl (errf n ''path too long'')
                 | Some suffix \<Rightarrow>
                     if fv_stat fv (r @ suffix) = None
                     then Inl (errf n (''no project.json found in '' @ r @ suffix))
                     else Inr (r @ suffix))) = Inr path" and len: "length path < m"
    by (auto simp: resolve_project_json_def and_then_Inr split: if_splits)
  from r have "fv_stat fv path \<noteq> None" by (auto split: option.splits if_splits)
  with len show ?thesis by simp
qed

section \<open>Properties\<close>

text \<open>
  What \<^verbatim>\<open>wallpiperctl set\<close> runs: when the command succeeds, exactly one command was run, it is
  Wallpaper Engine under the chosen Wine binary with the control verb \<open>openWallpaper\<close>, the path
  given to it is that of an existing file in Wine form, which converts back to that file's path, and
  the monitor is the one given or 0.
\<close>

theorem set_wallpaper_command:
  assumes "run_we_command vars fv env ''set'' argv n w = (Inr (), w')"
  shows "3 \<le> length argv \<and>
    (\<exists>wine exe pfx path win. we_paths vars fv n = Inr (wine, exe, pfx) \<and>
       resolve_project_json vars fv (argv ! 2) 1024 n = Inr path \<and> fv_stat fv path \<noteq> None \<and>
       wp_to_windows_path path 1030 = Some win \<and>
       (if CHR 0x5C \<in> set path then True else wp_from_windows_path win 1024 = Some path) \<and>
       ww_execs w' = ww_execs w @
         [(pfx, [wine, exe, ''-control'', ''openWallpaper'', ''-file'', win, ''-monitor'',
                 monitor_slot (arg argv 3)])])"
proof -
  from assms have l: "3 \<le> length argv"
    and "wp_we_set_wallpaper vars fv env (argv ! 2) (arg argv 3) n w = (Inr (), w')"
    by (auto simp: run_we_command_def split: if_splits)
  then obtain path win where p: "resolve_project_json vars fv (argv ! 2) 1024 n = Inr path"
      "wp_to_windows_path path 1030 = Some win"
      "wp_we_send_control vars fv env
         [''openWallpaper'', ''-file'', win, ''-monitor'', monitor_slot (arg argv 3)] n w = (Inr (), w')"
    by (auto simp: wp_we_set_wallpaper_def with_project_def split: sum.splits option.splits)
  note e = resolve_project_exists [OF p(1)]
  have conv: "wp_from_windows_path win 1024 = Some path" if "CHR 0x5C \<notin> set path"
    using wp_from_to_windows [OF that p(2)] e by simp
  from send_control_done [OF p(3)] l p(1,2) e conv show ?thesis by (auto simp: control_argv_def)
qed

definition demo_ctl_vars :: environ where
  "demo_ctl_vars = (\<lambda>_. None)(''WALLPIPER_STEAM_ROOT'' := Some ''/s'', ''WALLPIPER_WINE_BIN'' := Some ''/w/wine'',
     ''WALLPIPER_WE_EXE'' := Some ''/w/we.exe'', ''WALLPIPER_PORTAL'' := Some ''sway'')"

definition demo_ctl_files :: file_view where
  "demo_ctl_files = \<lparr>fv_stat = (\<lambda>p. if p = ''/p/x.json'' then Some Regular_file else None),
     fv_entries = (\<lambda>_. None), fv_realpath = (\<lambda>p. Some p), fv_self_exe = None\<rparr>"

definition demo_exec :: exec_env where
  "demo_exec = \<lparr>ex_fork = True, ex_status = (\<lambda>_. Some (Some 0)), ex_read = (\<lambda>_. None), ex_title = (\<lambda>_. None)\<rparr>"

lemmas path_defs = and_then_def formatted_def fmt_ok_def snprintf_def fits_eq env_path_def

lemma demo_set_eval:
  "run_we_command demo_ctl_vars demo_ctl_files demo_exec ''set'' [''wallpiperctl'', ''set'', ''/p/x.json''] 512
     \<lparr>ww_execs = [], ww_out = []\<rparr> =
   (Inr (), \<lparr>ww_execs = [(''/s/steamapps/compatdata/431960/pfx'',
      [''/w/wine'', ''/w/we.exe'', ''-control'', ''openWallpaper'', ''-file'',
       CHR ''Z'' # CHR '':'' # CHR 0x5C # ''p'' @ CHR 0x5C # ''x.json'', ''-monitor'', ''0''])], ww_out = []\<rparr>)"
proof -
  have "we_paths demo_ctl_vars demo_ctl_files 512 = Inr (''/w/wine'', ''/w/we.exe'', ''/s/steamapps/compatdata/431960/pfx'')"
    by (simp add: we_paths_def wp_wine_bin_def wp_we_exe_def wp_compatdata_dir_def wp_steam_root_def
        WALLPAPER_ENGINE_APP_ID_def demo_ctl_vars_def path_defs)
  moreover have "resolve_project_json demo_ctl_vars demo_ctl_files ''/p/x.json'' 1024 512 = Inr ''/p/x.json''"
    by (simp add: resolve_project_json_def resolve_target_def is_workshop_id_def demo_ctl_files_def is_digit_def path_defs)
  ultimately show ?thesis
    by (simp add: run_we_command_def wp_we_set_wallpaper_def with_project_def wp_to_windows_path_def arg_def
        monitor_slot_def wp_we_send_control_def WE_MAX_CONTROL_ARGS_def control_argv_def demo_exec_def)
qed

theorem set_wallpaper_command_witness:
  "\<exists>pfx path win. wp_to_windows_path path 1030 = Some win \<and>
     [(''/s/steamapps/compatdata/431960/pfx'',
      [''/w/wine'', ''/w/we.exe'', ''-control'', ''openWallpaper'', ''-file'',
       CHR ''Z'' # CHR '':'' # CHR 0x5C # ''p'' @ CHR 0x5C # ''x.json'', ''-monitor'', ''0''])] =
     [(pfx, [''/w/wine'', ''/w/we.exe'', ''-control'', ''openWallpaper'', ''-file'', win, ''-monitor'', ''0''])]"
  using set_wallpaper_command [OF demo_set_eval] by auto

text \<open>
  A failure without a message: when the path in \<^verbatim>\<open>WALLPIPER_WINE_BIN\<close> does not fit its buffer,
  every playback command of the client fails and prints an error buffer that nothing has written.
\<close>

theorem unset_message_printed:
  assumes "env_path vars ''WALLPIPER_WINE_BIN'' = Some v" and "1024 \<le> length v"
    and "map_of WE_VERBS cmd \<noteq> None"
  shows "wallpiperctl_main (\<lambda>cmd argv. run_we_command vars fv env cmd argv 512) daemon [prog, cmd] w = ((1, None), w)"
proof -
  have "cmd \<in> fst ` set WE_VERBS" using assms(3) by (simp add: map_of_eq_None_iff)
  then have c: "cmd \<noteq> ''list'' \<and> cmd \<noteq> ''set'' \<and> cmd \<noteq> ''volume'' \<and> cmd \<noteq> ''prop'' \<and> cmd \<noteq> ''--help'' \<and>
      cmd \<noteq> ''-h'' \<and> cmd \<noteq> ''check-config''"
    by (auto simp: WE_VERBS_def)
  have "we_paths vars fv 512 = Inl None"
    using assms(1,2) by (simp add: we_paths_def wp_wine_bin_def and_then_def formatted_def fmt_ok_def snprintf_def)
  then have "wp_we_send_control vars fv env [verb] 512 w = (Inl None, w)" for verb
    by (simp add: wp_we_send_control_def WE_MAX_CONTROL_ARGS_def)
  with assms(3) c show ?thesis
    by (auto simp: wallpiperctl_main_def is_we_command_def run_we_command_def ctl_exit_def Let_def)
qed

theorem unset_message_printed_witness:
  "wallpiperctl_main (\<lambda>cmd argv. run_we_command (\<lambda>_. Some (replicate 2000 CHR ''w'')) demo_ctl_files demo_exec cmd argv 512)
     (\<lambda>_ w. (Inr (), w)) [''wallpiperctl'', ''pause''] \<lparr>ww_execs = [], ww_out = []\<rparr> =
   ((1, None), \<lparr>ww_execs = [], ww_out = []\<rparr>)"
  by (rule unset_message_printed [where v = "replicate 2000 CHR ''w''"]) (simp_all add: env_path_def WE_VERBS_def)

end
