(* ===== verification/WP_Font_Rename.thy ===== *)
theory WP_Font_Rename
  imports WP_Steam_Paths "HOL-Library.Monad_Syntax"
begin

unbundle bit_operations_syntax

text \<open>
  Rewriting the name of a font (\<^verbatim>\<open>programs/wallpiperd/font_rename.c\<close>): the table directory of an
  OpenType file is read, its \<^verbatim>\<open>name\<close> table replaced, and the file written again with its checksums.
  Files are lists of bytes. Sizes are natural numbers: the sums of the code are of a \<open>size_t\<close> and
  two 32-bit numbers and do not wrap in 64 bits. Allocation is assumed to succeed.

  \<open>serialize\<close> returns \<^term>\<open>None\<close> where the code writes the checksum adjustment past the end of the
  file it has built.
\<close>

section \<open>Bytes\<close>

definition HEAD_CHECKSUM_MAGIC :: u32 where "HEAD_CHECKSUM_MAGIC = 0xB1B0AFBA"

definition u16be :: "u16 \<Rightarrow> u8 list" where
  "u16be v = [ucast (drop_bit 8 v), ucast v]"

definition u32be :: "u32 \<Rightarrow> u8 list" where
  "u32be v = [ucast (drop_bit 24 v), ucast (drop_bit 16 v), ucast (drop_bit 8 v), ucast v]"

definition bytes_of :: "string \<Rightarrow> u8 list" where
  "bytes_of s = map of_char s"

definition read_u16 :: "u8 list \<Rightarrow> nat \<Rightarrow> u16 option" where
  "read_u16 buf off =
     (if length buf < off + 2 then None
      else Some (push_bit 8 (ucast (buf ! off)) OR ucast (buf ! (off + 1))))"

definition read_u32 :: "u8 list \<Rightarrow> nat \<Rightarrow> u32 option" where
  "read_u32 buf off =
     (if length buf < off + 4 then None
      else Some (push_bit 24 (ucast (buf ! off)) OR push_bit 16 (ucast (buf ! (off + 1))) OR
                 push_bit 8 (ucast (buf ! (off + 2))) OR ucast (buf ! (off + 3))))"

section \<open>Names\<close>

text \<open>The continuation bytes of a UTF-8 sequence; the terminating NUL byte ends the list.\<close>

fun take_cont :: "nat \<Rightarrow> u32 \<Rightarrow> u8 list \<Rightarrow> (u32 \<times> u8 list) option" where
  "take_cont 0 cp ps = Some (cp, ps)"
| "take_cont (Suc extra) cp [] = None"
| "take_cont (Suc extra) cp (p # ps) =
     (if p AND 0xC0 \<noteq> 0x80 then None
      else take_cont extra (push_bit 6 cp OR ucast (p AND 0x3F)) ps)"

definition utf8_lead :: "u8 \<Rightarrow> (u32 \<times> nat) option" where
  "utf8_lead p =
     (if p < 0x80 then Some (ucast p, 0)
      else if p AND 0xE0 = 0xC0 then Some (ucast (p AND 0x1F), 1)
      else if p AND 0xF0 = 0xE0 then Some (ucast (p AND 0x0F), 2)
      else if p AND 0xF8 = 0xF0 then Some (ucast (p AND 0x07), 3)
      else None)"

definition utf16_units :: "u32 \<Rightarrow> u8 list" where
  "utf16_units cp =
     (if cp \<le> 0xFFFF then u16be (ucast cp)
      else let c = cp - 0x10000
           in u16be (ucast (0xD800 + drop_bit 10 c)) @ u16be (ucast (0xDC00 + (c AND 0x3FF))))"

lemma take_cont_length: "take_cont n cp ps = Some (cp', rest) \<Longrightarrow> length rest \<le> length ps"
  by (induction n cp ps rule: take_cont.induct) (auto split: if_splits)

function bytebuf_append_utf16be :: "u8 list \<Rightarrow> u8 list" where
  "bytebuf_append_utf16be [] = []"
| "bytebuf_append_utf16be (p # ps) =
     (case utf8_lead p of
        None \<Rightarrow> bytebuf_append_utf16be ps
      | Some (cp, extra) \<Rightarrow>
         (case take_cont extra cp ps of
            None \<Rightarrow> bytebuf_append_utf16be ps
          | Some (cp', rest) \<Rightarrow> utf16_units cp' @ bytebuf_append_utf16be rest))"
  by pat_completeness auto
termination
  by (relation "measure length") (auto dest: take_cont_length)

definition strip_spaces :: "string \<Rightarrow> nat \<Rightarrow> string" where
  "strip_spaces s out_len = take (out_len - 1) (filter (\<lambda>c. c \<noteq> SP) s)"

definition tolower :: "char \<Rightarrow> nat" where
  "tolower c = (let n = of_char c in if 65 \<le> n \<and> n \<le> 90 then n + 32 else n)"

definition name_values :: "string \<Rightarrow> string \<Rightarrow> (u16 \<times> string) list" where
  "name_values family subfamily =
     (let full_name = fst (snprintf 512
            (if map tolower subfamily = map tolower ''regular'' then family else family @ SP # subfamily));
          postscript_name = fst (snprintf 512 (strip_spaces family 256 @ ''-'' @ strip_spaces subfamily 256));
          unique_id = fst (snprintf 600 (''1.000;WLPR;'' @ postscript_name))
      in [(1, family), (2, subfamily), (3, unique_id), (4, full_name), (6, postscript_name)])"

record name_record =
  nr_platform_id :: u16
  nr_encoding_id :: u16
  nr_language_id :: u16
  nr_name_id :: u16
  nr_length :: u16
  nr_offset :: u16

text \<open>The records and the storage they point into, for the Windows and then the Macintosh platform.\<close>

definition add_name ::
  "u16 \<times> u16 \<times> u16 \<Rightarrow> u16 \<times> string \<Rightarrow> name_record list \<times> u8 list \<Rightarrow> name_record list \<times> u8 list" where
  "add_name platform entry st =
     (case (platform, entry, st) of ((pid, enc, lang), (name_id, text), (records, storage)) \<Rightarrow>
        let bytes = (if pid = 3 then bytebuf_append_utf16be (bytes_of text) else bytes_of text)
        in (records @ [\<lparr>nr_platform_id = pid, nr_encoding_id = enc, nr_language_id = lang, nr_name_id = name_id,
              nr_length = of_nat (length bytes), nr_offset = of_nat (length storage)\<rparr>],
            storage @ bytes))"

definition name_entries :: "string \<Rightarrow> string \<Rightarrow> name_record list \<times> u8 list" where
  "name_entries family subfamily =
     foldl (\<lambda>st platform. foldl (\<lambda>st entry. add_name platform entry st) st (name_values family subfamily))
       ([], []) [(3, 1, 0x0409), (1, 0, 0)]"

definition name_record_bytes :: "name_record \<Rightarrow> u8 list" where
  "name_record_bytes r = u16be (nr_platform_id r) @ u16be (nr_encoding_id r) @ u16be (nr_language_id r) @
     u16be (nr_name_id r) @ u16be (nr_length r) @ u16be (nr_offset r)"

definition build_name_table :: "string \<Rightarrow> string \<Rightarrow> u8 list" where
  "build_name_table family subfamily =
     (case name_entries family subfamily of (records, storage) \<Rightarrow>
        u16be 0 @ u16be (of_nat (length records)) @ u16be (of_nat (6 + length records * 12)) @
        concat (map name_record_bytes records) @ storage)"

section \<open>Reading the table directory\<close>

record font_table =
  ft_tag :: "u8 list"
  ft_data :: "u8 list"

definition face_offset :: "u8 list \<Rightarrow> u32 \<Rightarrow> nat option" where
  "face_offset input face_index =
     (if 12 \<le> length input \<and> take 4 input = bytes_of ''ttcf'' then
        (case read_u32 input 8 of
           None \<Rightarrow> None
         | Some num_fonts \<Rightarrow>
             if num_fonts \<le> face_index then None
             else map_option unat (read_u32 input (12 + unat face_index * 4)))
      else Some 0)"

definition read_table :: "u8 list \<Rightarrow> nat \<Rightarrow> nat \<Rightarrow> font_table option" where
  "read_table input sfnt_offset i =
     (let entry_off = sfnt_offset + 12 + i * 16 in
      if length input < entry_off + 16 then None
      else case (read_u32 input (entry_off + 8), read_u32 input (entry_off + 12)) of
             (Some offset, Some len) \<Rightarrow>
               if length input < unat offset + unat len then None
               else Some \<lparr>ft_tag = take 4 (drop entry_off input),
                          ft_data = take (unat len) (drop (unat offset) input)\<rparr>
           | _ \<Rightarrow> None)"

definition read_tables :: "u8 list \<Rightarrow> nat \<Rightarrow> (u32 \<times> font_table list) option" where
  "read_tables input sfnt_offset =
     (case (read_u32 input sfnt_offset, read_u16 input (sfnt_offset + 4)) of
        (Some v, Some num_tables) \<Rightarrow>
          map_option (Pair v) (those (map (read_table input sfnt_offset) [0..<unat num_tables]))
      | _ \<Rightarrow> None)"

section \<open>Writing the file\<close>

definition checksum_word :: "u8 list \<Rightarrow> nat \<Rightarrow> u32" where
  "checksum_word data i =
     foldl (\<lambda>w b. push_bit 8 w OR (if i + b < length data then ucast (data ! (i + b)) else 0)) 0 [0..<4]"

definition table_checksum :: "u8 list \<Rightarrow> u32" where
  "table_checksum data = foldl (\<lambda>sum k. sum + checksum_word data (4 * k)) 0 [0..<(length data + 3) div 4]"

text \<open>\<open>memcmp\<close> of two tags; only its sign is used.\<close>

fun memcmp :: "u8 list \<Rightarrow> u8 list \<Rightarrow> int" where
  "memcmp (a # as) (b # bs) = (if a = b then memcmp as bs else uint a - uint b)"
| "memcmp _ _ = 0"

definition compare_tags :: "font_table \<Rightarrow> font_table \<Rightarrow> int" where
  "compare_tags a b = memcmp (ft_tag a) (ft_tag b)"

definition is_head :: "font_table \<Rightarrow> bool" where
  "is_head t \<longleftrightarrow> ft_tag t = bytes_of ''head''"

definition zero_head :: "font_table \<Rightarrow> font_table" where
  "zero_head t =
     (if is_head t \<and> 12 \<le> length (ft_data t)
      then t\<lparr>ft_data := take 8 (ft_data t) @ replicate 4 0 @ drop 12 (ft_data t)\<rparr> else t)"

function entry_selector :: "nat \<Rightarrow> nat \<Rightarrow> nat" where
  "entry_selector num_tables es = (if 2 ^ (es + 1) \<le> num_tables then entry_selector num_tables (es + 1) else es)"
  by pat_completeness auto
termination
proof (relation "measure (\<lambda>(n, es). n - es)", goal_cases)
  case (2 n es)
  have "es < 2 ^ (es + 1)" using less_exp [of es] by (simp del: less_exp)
  with 2 show ?case by simp
qed simp

declare entry_selector.simps [simp del]

definition pad4 :: "u8 list \<Rightarrow> u8 list" where
  "pad4 b = b @ replicate ((4 - length b mod 4) mod 4) 0"

record dir_entry =
  de_tag :: "u8 list"
  de_checksum :: u32
  de_offset :: u32
  de_length :: u32

text \<open>One table: directory, body and the position of the head table's adjustment.\<close>

definition add_table ::
  "nat \<Rightarrow> dir_entry list \<times> u8 list \<times> nat option \<Rightarrow> font_table \<Rightarrow> dir_entry list \<times> u8 list \<times> nat option" where
  "add_table header_size st t =
     (case st of (directory, body, head_pos) \<Rightarrow>
        let body' = pad4 body; offset = header_size + length body' in
        (directory @ [\<lparr>de_tag = ft_tag t, de_checksum = table_checksum (ft_data t), de_offset = of_nat offset,
            de_length = of_nat (length (ft_data t))\<rparr>],
         body' @ ft_data t, if is_head t then Some (offset + 8) else head_pos))"

definition dir_entry_bytes :: "dir_entry \<Rightarrow> u8 list" where
  "dir_entry_bytes e = de_tag e @ u32be (de_checksum e) @ u32be (de_offset e) @ u32be (de_length e)"

definition sfnt_header :: "u32 \<Rightarrow> nat \<Rightarrow> u8 list" where
  "sfnt_header version n =
     (let num_tables = (of_nat n :: u16);
          es = entry_selector (unat num_tables) 0;
          search_range = (of_nat (2 ^ es * 16) :: u16)
      in u32be version @ u16be num_tables @ u16be search_range @ u16be (of_nat es) @
         u16be (num_tables * 16 - search_range))"

definition write_at :: "nat \<Rightarrow> u8 list \<Rightarrow> u8 list \<Rightarrow> u8 list option" where
  "write_at pos bytes buf =
     (if length buf < pos + length bytes then None
      else Some (take pos buf @ bytes @ drop (pos + length bytes) buf))"

definition serialize :: "u32 \<Rightarrow> font_table list \<Rightarrow> u8 list option" where
  "serialize version tables0 =
     (let tables = qsort compare_tags (map zero_head tables0);
          n = length tables;
          (directory, body, head_pos) = foldl (add_table (12 + n * 16)) ([], [], None) tables;
          result = sfnt_header version n @ concat (map dir_entry_bytes directory) @ pad4 body
      in case head_pos of
           None \<Rightarrow> Some result
         | Some pos \<Rightarrow> write_at pos (u32be (HEAD_CHECKSUM_MAGIC - table_checksum result)) result)"

definition replace_name :: "u8 list \<Rightarrow> font_table list \<Rightarrow> font_table list" where
  "replace_name name_table tables =
     (case find_index (\<lambda>t. ft_tag t = bytes_of ''name'') tables of
        Some i \<Rightarrow> tables[i := (tables ! i)\<lparr>ft_data := name_table\<rparr>]
      | None \<Rightarrow> tables @ [\<lparr>ft_tag = bytes_of ''name'', ft_data = name_table\<rparr>])"

text \<open>The outer option is the failure of the code, the inner one the write of \<open>serialize\<close>.\<close>

definition wp_font_rewrite_name :: "u8 list \<Rightarrow> u32 \<Rightarrow> string \<Rightarrow> string \<Rightarrow> u8 list option option" where
  "wp_font_rewrite_name input face_index family subfamily =
     (case face_offset input face_index of
        None \<Rightarrow> None
      | Some sfnt_offset \<Rightarrow>
         (case read_tables input sfnt_offset of
            None \<Rightarrow> None
          | Some (version, tables) \<Rightarrow>
              Some (serialize version (replace_name (build_name_table family subfamily) tables))))"

section \<open>Checksums\<close>

lemma foldl_add: "foldl (\<lambda>s x. s + f x) (a :: 'a :: comm_monoid_add) xs = a + sum_list (map f xs)"
  by (induction xs arbitrary: a) (simp_all add: ac_simps)

lemma table_checksum_sum:
  "table_checksum data = sum_list (map (\<lambda>k. checksum_word data (4 * k)) [0..<(length data + 3) div 4])"
  by (simp add: table_checksum_def foldl_add)

lemma checksum_word_cong:
  "(\<And>b. b < 4 \<Longrightarrow> (if i + b < length d then d ! (i + b) else 0) = (if j + b < length e then e ! (j + b) else 0)) \<Longrightarrow>
   checksum_word d i = checksum_word e j"
proof -
  assume a: "\<And>b. b < 4 \<Longrightarrow> (if i + b < length d then d ! (i + b) else 0) = (if j + b < length e then e ! (j + b) else 0)"
  have "(if i + b < length d then ucast (d ! (i + b)) else 0) = (if j + b < length e then ucast (e ! (j + b)) else (0 :: u32))"
    if "b < 4" for b using a [OF that] by (auto split: if_splits)
  then show ?thesis unfolding checksum_word_def by (intro foldl_cong) auto
qed

lemma table_checksum_append:
  assumes "4 dvd length xs"
  shows "table_checksum (xs @ ys) = table_checksum xs + table_checksum ys"
proof -
  obtain m where m: "length xs = 4 * m" using assms by (auto elim: dvdE)
  let ?n = "(length ys + 3) div 4"
  have len: "(length (xs @ ys) + 3) div 4 = m + ?n" "(length xs + 3) div 4 = m" using m by simp_all
  have l: "checksum_word (xs @ ys) (4 * k) = checksum_word xs (4 * k)" if "k < m" for k
    using that m by (intro checksum_word_cong) (auto simp: nth_append)
  have r: "checksum_word (xs @ ys) (4 * (k + m)) = checksum_word ys (4 * k)" for k
    using m by (intro checksum_word_cong) (auto simp: nth_append algebra_simps)
  have "map (\<lambda>k. checksum_word (xs @ ys) (4 * k)) [m..<m + ?n] = map (\<lambda>k. checksum_word ys (4 * k)) [0..<?n]"
    using r by (intro nth_equalityI) (simp_all add: add.commute)
  moreover have "map (\<lambda>k. checksum_word (xs @ ys) (4 * k)) [0..<m] = map (\<lambda>k. checksum_word xs (4 * k)) [0..<m]"
    using l by simp
  ultimately show ?thesis by (simp only: table_checksum_sum len upt_add_eq_append [OF le0] map_append sum_list_append)
qed

lemma pad4_arith_aux:
  fixes q r :: nat
  assumes "r < 4"
  shows "(4 * q + r) + (4 - (4 * q + r) mod 4) mod 4 = 4 * ((4 * q + r + 3) div 4)"
proof -
  have m: "(4 * q + r) mod 4 = r" using assms by simp
  have d: "(4 * q + r + 3) div 4 = q + (r + 3) div 4" by (simp add: add.assoc)
  from assms consider "r = 0" | "r = 1" | "r = 2" | "r = 3" by linarith
  then show ?thesis unfolding m d by cases simp_all
qed

lemma pad4_arith: "n + (4 - n mod 4) mod 4 = 4 * ((n + 3) div (4 :: nat))"
  using pad4_arith_aux [of "n mod 4" "n div 4"] by simp

lemma length_pad4: "length (pad4 d) = 4 * ((length d + 3) div 4)"
  by (simp add: pad4_def pad4_arith)

lemma dvd_length_pad4 [simp]: "4 dvd length (pad4 d)"
  by (simp add: length_pad4)

lemma table_checksum_pad4 [simp]: "table_checksum (pad4 d) = table_checksum d"
proof -
  have n: "(length (pad4 d) + 3) div 4 = (length d + 3) div 4" unfolding length_pad4 by simp
  have "checksum_word (pad4 d) i = checksum_word d i" for i
    by (rule checksum_word_cong) (auto simp: pad4_def nth_append)
  then show ?thesis by (simp only: table_checksum_sum n)
qed

lemma table_checksum_concat:
  "(\<And>x. x \<in> set xs \<Longrightarrow> 4 dvd length x) \<Longrightarrow> table_checksum (concat xs) = sum_list (map table_checksum xs)"
  by (induction xs) (simp_all add: table_checksum_append table_checksum_def [of "[]"])

lemma u32be_bits: "push_bit 24 (ucast (ucast (drop_bit 24 v) :: u8) :: u32) OR
    (push_bit 16 (ucast (ucast (drop_bit 16 v) :: u8)) OR
    (push_bit 8 (ucast (ucast (drop_bit 8 v) :: u8)) OR ucast (ucast v :: u8))) = v" (is "?w = _")
proof (rule bit_word_eqI)
  fix n assume n: "n < LENGTH(32)"
  consider "n < 8" | "8 \<le> n" "n < 16" | "16 \<le> n" "n < 24" | "24 \<le> n" by linarith
  then show "bit ?w n = bit v n" using n by cases (auto simp: bit_simps)
qed

lemma table_checksum_u32be [simp]: "table_checksum (u32be v) = v"
proof -
  have "checksum_word (u32be v) 0 = v"
    using u32be_bits [of v]
    by (simp add: checksum_word_def u32be_def upt_rec push_bit_or or.assoc)
  then show ?thesis by (simp add: table_checksum_def u32be_def)
qed

lemma length_u16be [simp]: "length (u16be v) = 2"
  by (simp add: u16be_def)

lemma length_u32be [simp]: "length (u32be v) = 4"
  by (simp add: u32be_def)

text \<open>Writing a value over zeros at an aligned position adds it to the checksum.\<close>

lemma table_checksum_patch:
  assumes "4 dvd length xs"
  shows "table_checksum (xs @ u32be v @ ys) = table_checksum (xs @ replicate 4 0 @ ys) + v"
proof -
  have "u32be 0 = replicate 4 0" by (simp add: u32be_def numeral_eq_Suc)
  then show ?thesis using assms
    by (simp add: table_checksum_append flip: \<open>u32be 0 = _\<close>)
qed

section \<open>The order of the tables\<close>

lemma memcmp_order:
  "length a = length b \<Longrightarrow> memcmp a b \<le> 0 \<or> memcmp b a \<le> 0"
  by (induction a b rule: memcmp.induct) auto

lemma memcmp_trans:
  "length a = length b \<Longrightarrow> length b = length c \<Longrightarrow> memcmp a b \<le> 0 \<Longrightarrow> memcmp b c \<le> 0 \<Longrightarrow> memcmp a c \<le> 0"
proof (induction a c arbitrary: b rule: memcmp.induct)
  case (1 x xs z zs)
  then obtain y ys where "b = y # ys" by (cases b) auto
  with 1 show ?case by (auto simp: word_le_def word_uint_eq_iff split: if_splits)
qed auto

lemma compare_tags_total: "length (ft_tag x) = length (ft_tag y) \<Longrightarrow> compare_tags x y \<le> 0 \<or> compare_tags y x \<le> 0"
  unfolding compare_tags_def by (rule memcmp_order)

interpretation by_tag: comparison compare_tags "\<lambda>t. length (ft_tag t) = 4"
proof
  fix x y z :: font_table
  assume "length (ft_tag x) = 4" and "length (ft_tag y) = 4"
  then show "compare_tags x y \<le> 0 \<or> compare_tags y x \<le> 0" by (intro compare_tags_total) simp
  assume "length (ft_tag z) = 4" and "compare_tags x y \<le> 0" and "compare_tags y z \<le> 0"
  then show "compare_tags x z \<le> 0" using \<open>length (ft_tag x) = 4\<close> \<open>length (ft_tag y) = 4\<close>
    unfolding compare_tags_def by (metis memcmp_trans)
qed

section \<open>The layout of the file\<close>

fun entries :: "nat \<Rightarrow> font_table list \<Rightarrow> dir_entry list" where
  "entries off [] = []"
| "entries off (t # ts) =
     \<lparr>de_tag = ft_tag t, de_checksum = table_checksum (ft_data t), de_offset = of_nat off,
      de_length = of_nat (length (ft_data t))\<rparr> # entries (off + length (pad4 (ft_data t))) ts"

fun head_at :: "nat \<Rightarrow> font_table list \<Rightarrow> nat option \<Rightarrow> nat option" where
  "head_at off [] h = h"
| "head_at off (t # ts) h =
     head_at (off + length (pad4 (ft_data t))) ts (if is_head t then Some (off + 8) else h)"

abbreviation padded :: "font_table list \<Rightarrow> u8 list" where
  "padded ts \<equiv> concat (map (\<lambda>t. pad4 (ft_data t)) ts)"

lemma pad4_append: "4 dvd length xs \<Longrightarrow> pad4 (xs @ ys) = xs @ pad4 ys"
  by (auto simp: pad4_def elim!: dvdE)

lemma pad4_Nil [simp]: "pad4 [] = []"
  by (simp add: pad4_def)

lemma add_table_step:
  "add_table hs (D, B, h) t =
     (D @ [\<lparr>de_tag = ft_tag t, de_checksum = table_checksum (ft_data t),
        de_offset = of_nat (hs + length (pad4 B)), de_length = of_nat (length (ft_data t))\<rparr>], pad4 B @ ft_data t,
      if is_head t then Some (hs + length (pad4 B) + 8) else h)"
  by (simp add: add_table_def Let_def)

lemma fold_add_table:
  "foldl (add_table hs) (D, B, h) ts = (D', B', h') \<Longrightarrow>
   D' = D @ entries (hs + length (pad4 B)) ts \<and> pad4 B' = pad4 B @ padded ts \<and>
   h' = head_at (hs + length (pad4 B)) ts h"
proof (induction ts arbitrary: D B h)
  case (Cons t ts)
  let ?off = "hs + length (pad4 B)"
  from Cons.prems have "foldl (add_table hs) (D @ [\<lparr>de_tag = ft_tag t, de_checksum = table_checksum (ft_data t),
      de_offset = of_nat ?off, de_length = of_nat (length (ft_data t))\<rparr>], pad4 B @ ft_data t,
      if is_head t then Some (?off + 8) else h) ts = (D', B', h')"
    by (simp only: foldl.simps add_table_step)
  from Cons.IH [OF this] show ?case by (simp add: pad4_append add.assoc)
qed simp

lemma dvd_length_padded [simp]: "4 dvd length (padded ts)"
  by (induction ts) (simp_all add: dvd_add)

lemma length_entries [simp]: "length (entries off ts) = length ts"
  by (induction ts arbitrary: off) simp_all

lemma length_dir_bytes:
  "\<forall>t \<in> set ts. length (ft_tag t) = 4 \<Longrightarrow> length (concat (map dir_entry_bytes (entries off ts))) = 16 * length ts"
  by (induction ts arbitrary: off) (simp_all add: dir_entry_bytes_def)

lemma length_sfnt_header [simp]: "length (sfnt_header v n) = 12"
  by (simp add: sfnt_header_def Let_def)

lemma head_at_default:
  "head_at off ts h = (case head_at off ts None of None \<Rightarrow> h | Some p \<Rightarrow> Some p)"
proof (induction ts arbitrary: off h)
  case (Cons t ts)
  show ?case using Cons.IH [of _ "Some (off + 8)"] Cons.IH [of _ h]
    by (simp split: option.splits)
qed simp

lemma head_at_None: "head_at off ts None = None \<longleftrightarrow> (\<forall>t \<in> set ts. \<not> is_head t)"
  by (induction ts arbitrary: off) (auto simp: head_at_default [of _ _ "Some _"] split: option.splits)

text \<open>
  Patching four zero bytes of the last head table: the file keeps its tables but for those bytes.
\<close>

definition head_ok :: "font_table \<Rightarrow> bool" where
  "head_ok t \<longleftrightarrow> length (ft_tag t) = 4 \<and> (is_head t \<longrightarrow> 12 \<le> length (ft_data t) \<and> zero_head t = t)"

lemma zero_head_fields [simp]:
  "ft_tag (zero_head t) = ft_tag t" "is_head (zero_head t) = is_head t" "length (ft_data (zero_head t)) = length (ft_data t)"
  by (auto simp: zero_head_def is_head_def)

lemma zero_head_idem [simp]: "zero_head (zero_head t) = zero_head t"
proof (cases "is_head t \<and> 12 \<le> length (ft_data t)")
  case True
  then have "is_head (t\<lparr>ft_data := d\<rparr>)" for d by (simp add: is_head_def)
  with True show ?thesis by (simp add: zero_head_def)
qed (auto simp: zero_head_def)

lemma head_patch:
  assumes "head_ok t" and "is_head t"
  obtains xs ys where "ft_data t = xs @ replicate 4 0 @ ys" and "length xs = 8"
    and "\<And>v. zero_head (t\<lparr>ft_data := xs @ u32be v @ ys\<rparr>) = t"
proof -
  let ?xs = "take 8 (ft_data t)" and ?ys = "drop 12 (ft_data t)"
  have l: "12 \<le> length (ft_data t)" and z: "zero_head t = t" using assms by (simp_all add: head_ok_def)
  from z l assms(2) have d: "ft_data t = ?xs @ replicate 4 0 @ ?ys"
    by (metis (no_types, lifting) font_table.select_convs(2) font_table.surjective font_table.update_convs(2) zero_head_def)
  have "zero_head (t\<lparr>ft_data := ?xs @ u32be v @ ?ys\<rparr>) = t" for v
  proof -
    have "is_head (t\<lparr>ft_data := w\<rparr>)" for w using assms(2) by (simp add: is_head_def)
    then have "zero_head (t\<lparr>ft_data := ?xs @ u32be v @ ?ys\<rparr>) = t\<lparr>ft_data := ?xs @ replicate 4 0 @ ?ys\<rparr>"
      using l by (simp add: zero_head_def u32be_def)
    then show ?thesis by (simp flip: d)
  qed
  then show thesis using that [OF d] l by simp
qed

lemma pad4_same_length: "length a = length b \<Longrightarrow> pad4 a = a @ drop (length b) (pad4 b)"
  by (simp add: pad4_def)

text \<open>What patching a body gives, for every value written.\<close>

definition patched :: "nat \<Rightarrow> font_table list \<Rightarrow> nat \<Rightarrow> u32 \<Rightarrow> bool" where
  "patched off ts pos v \<longleftrightarrow> (\<exists>xs ys us. padded ts = xs @ replicate 4 0 @ ys \<and> pos = off + length xs \<and>
     4 dvd length xs \<and> padded us = xs @ u32be v @ ys \<and> map zero_head us = ts)"

lemma patched_first:
  assumes "head_ok t" and "is_head t" and "\<forall>t \<in> set ts. zero_head t = t"
  shows "patched off (t # ts) (off + 8) v"
proof -
  obtain xs ys where d: "ft_data t = xs @ replicate 4 0 @ ys" "length xs = 8"
    and z: "\<And>v. zero_head (t\<lparr>ft_data := xs @ u32be v @ ys\<rparr>) = t"
    by (rule head_patch [OF assms(1,2)]) blast
  let ?zs = "drop (length (ft_data t)) (pad4 (ft_data t))"
  have "pad4 (xs @ u32be v @ ys) = (xs @ u32be v @ ys) @ ?zs"
    by (rule pad4_same_length) (simp add: d)
  then have "padded (t\<lparr>ft_data := xs @ u32be v @ ys\<rparr> # ts) = xs @ u32be v @ (ys @ ?zs @ padded ts)" by simp
  moreover have "padded (t # ts) = xs @ replicate 4 0 @ (ys @ ?zs @ padded ts)"
    using pad4_same_length [OF refl, of "ft_data t"] by (simp add: d)
  moreover have "map zero_head (t\<lparr>ft_data := xs @ u32be v @ ys\<rparr> # ts) = t # ts"
    using z assms(3) by (simp add: map_idI)
  ultimately show ?thesis unfolding patched_def using d(2) by fastforce
qed

lemma patched_Cons:
  assumes "patched (off + length (pad4 (ft_data t))) ts pos v" and "zero_head t = t"
  shows "patched off (t # ts) pos v"
proof -
  obtain xs ys us where h: "padded ts = xs @ replicate 4 0 @ ys" "pos = off + length (pad4 (ft_data t)) + length xs"
    "4 dvd length xs" "padded us = xs @ u32be v @ ys" "map zero_head us = ts"
    using assms(1) unfolding patched_def by blast
  show ?thesis unfolding patched_def
    by (rule exI [of _ "pad4 (ft_data t) @ xs"], rule exI [of _ ys], rule exI [of _ "t # us"])
      (use h assms(2) in \<open>simp add: dvd_add\<close>)
qed

lemma head_patched:
  "\<forall>t \<in> set ts. head_ok t \<and> zero_head t = t \<Longrightarrow> head_at off ts None = Some pos \<Longrightarrow> patched off ts pos v"
proof (induction ts arbitrary: off)
  case (Cons t ts)
  let ?off = "off + length (pad4 (ft_data t))"
  show ?case
  proof (cases "head_at ?off ts None")
    case None
    with Cons.prems(2) have "is_head t" "pos = off + 8"
      by (simp_all add: head_at_default [of _ _ "if _ then _ else _"] split: if_splits)
    with Cons.prems(1) show ?thesis by (simp add: patched_first)
  next
    case (Some p)
    with Cons.prems(2) have "p = pos" by (simp add: head_at_default [of _ _ "if _ then _ else _"])
    with Some Cons show ?thesis by (intro patched_Cons) auto
  qed
qed simp

section \<open>Reading a written file back\<close>

lemma read_u32_at [simp]: "read_u32 (xs @ u32be v @ ys) (length xs) = Some v"
  using u32be_bits [of v] by (simp add: read_u32_def u32be_def nth_append)

lemma u16be_bits: "push_bit 8 (ucast (ucast (drop_bit 8 v) :: u8) :: u16) OR ucast (ucast v :: u8) = v" (is "?w = _")
proof (rule bit_word_eqI)
  fix n assume n: "n < LENGTH(16)"
  consider "n < 8" | "8 \<le> n" by linarith
  then show "bit ?w n = bit v n" using n by cases (auto simp: bit_simps)
qed

lemma read_u16_at [simp]: "read_u16 (xs @ u16be v @ ys) (length xs) = Some v"
  using u16be_bits [of v] by (simp add: read_u16_def u16be_def nth_append)

lemma concat_map_split:
  assumes "k < length xs"
  shows "concat (map f xs) = concat (map f (take k xs)) @ f (xs ! k) @ concat (map f (drop (Suc k) xs))"
proof -
  have "concat (map f xs) = concat (map f (take k xs @ xs ! k # drop (Suc k) xs))"
    using id_take_nth_drop [OF assms] by simp
  then show ?thesis by simp
qed

lemma read_table_entry:
  assumes "length xs = 12 + 16 * k" and "input = xs @ dir_entry_bytes e @ ys" and "length (de_tag e) = 4"
    and "unat (de_offset e) + unat (de_length e) \<le> length input"
  shows "read_table input 0 k =
     Some \<lparr>ft_tag = de_tag e, ft_data = take (unat (de_length e)) (drop (unat (de_offset e)) input)\<rparr>"
proof -
  have "input = (xs @ de_tag e @ u32be (de_checksum e)) @ u32be (de_offset e) @ (u32be (de_length e) @ ys)"
    "length (xs @ de_tag e @ u32be (de_checksum e)) = 12 + k * 16 + 8"
    using assms(1,2,3) by (simp_all add: dir_entry_bytes_def)
  then have o: "read_u32 input (12 + k * 16 + 8) = Some (de_offset e)" by (metis read_u32_at)
  have "input = (xs @ de_tag e @ u32be (de_checksum e) @ u32be (de_offset e)) @ u32be (de_length e) @ ys"
    "length (xs @ de_tag e @ u32be (de_checksum e) @ u32be (de_offset e)) = 12 + k * 16 + 12"
    using assms(1,2,3) by (simp_all add: dir_entry_bytes_def)
  then have l: "read_u32 input (12 + k * 16 + 12) = Some (de_length e)" by (metis read_u32_at)
  have t: "take 4 (drop (12 + k * 16) input) = de_tag e"
    using assms(1,3) by (simp add: assms(2) dir_entry_bytes_def)
  have "12 + k * 16 + 16 \<le> length input" using assms(1,3) by (simp add: assms(2) dir_entry_bytes_def)
  with o l t assms(4) show ?thesis by (simp add: read_table_def Let_def)
qed

lemma nth_entries:
  "k < length ts \<Longrightarrow> entries off ts ! k =
     \<lparr>de_tag = ft_tag (ts ! k), de_checksum = table_checksum (ft_data (ts ! k)),
      de_offset = of_nat (off + length (padded (take k ts))), de_length = of_nat (length (ft_data (ts ! k)))\<rparr>"
  by (induction off ts arbitrary: k rule: entries.induct) (auto simp: nth_Cons' take_Cons' add.assoc)

lemma length_pad4_zero_head [simp]: "length (pad4 (ft_data (zero_head t))) = length (pad4 (ft_data t))"
  by (simp add: length_pad4)

lemma length_padded_zero_head [simp]: "length (padded (map zero_head ts)) = length (padded ts)"
  by (induction ts) simp_all

definition written :: "u32 \<Rightarrow> font_table list \<Rightarrow> u8 list" where
  "written v us = sfnt_header v (length us) @
     concat (map dir_entry_bytes (entries (12 + length us * 16) (map zero_head us))) @ padded us"

definition sizes_fit :: "font_table list \<Rightarrow> bool" where
  "sizes_fit ts \<longleftrightarrow> length ts < 2 ^ 16 \<and> 12 + length ts * 16 + length (padded ts) < 2 ^ 32"

lemma unat_u32_of_nat: "n < 2 ^ 32 \<Longrightarrow> unat (of_nat n :: u32) = n"
  by (simp add: unat_of_nat)

lemma read_written_table:
  assumes tags: "\<forall>t \<in> set us. length (ft_tag t) = 4" and "sizes_fit us" and k: "k < length us"
  shows "read_table (written v us) 0 k = Some (us ! k)"
proof -
  let ?off = "12 + length us * 16" and ?ts = "map zero_head us"
  let ?es = "entries ?off ?ts" and ?pre = "padded (take k us)" and ?t = "us ! k"
  let ?e = "?es ! k" and ?b = "\<lambda>es. concat (map dir_entry_bytes es)"
  have tg: "length (ft_tag ?t) = 4" using tags k by simp
  have e: "de_tag ?e = ft_tag ?t" "de_offset ?e = of_nat (?off + length ?pre)" "de_length ?e = of_nat (length (ft_data ?t))"
    using k length_padded_zero_head [of "take k us"] by (simp_all add: nth_entries take_map)
  have p: "padded us = ?pre @ pad4 (ft_data ?t) @ padded (drop (Suc k) us)" by (rule concat_map_split [OF k])
  have "?off + length ?pre + length (ft_data ?t) \<le> ?off + length (padded us)"
    unfolding p by (simp add: pad4_def)
  with assms(2) have "?off + length ?pre < 2 ^ 32" "length (ft_data ?t) < 2 ^ 32" by (simp_all add: sizes_fit_def)
  then have n: "unat (de_offset ?e) = ?off + length ?pre" "unat (de_length ?e) = length (ft_data ?t)"
    unfolding e by (simp_all only: unat_u32_of_nat)
  have d: "?b ?es = ?b (take k ?es) @ dir_entry_bytes ?e @ ?b (drop (Suc k) ?es)"
    using k by (intro concat_map_split) simp
  have dl: "length (?b ?es) = 16 * length us" using length_dir_bytes [of ?ts] tags by simp
  have w: "written v us = (sfnt_header v (length us) @ ?b (take k ?es)) @ dir_entry_bytes ?e @ (?b (drop (Suc k) ?es) @ padded us)"
    unfolding written_def d by simp
  have wl: "written v us = (sfnt_header v (length us) @ ?b ?es @ ?pre) @ ft_data ?t @
      (drop (length (ft_data ?t)) (pad4 (ft_data ?t)) @ padded (drop (Suc k) us))"
    unfolding written_def p by (simp add: pad4_def)
  have tl: "length (?b (take k ?es)) = 16 * k"
  proof -
    have "\<forall>x \<in> set es. length (de_tag x) = 4 \<Longrightarrow> length (?b es) = 16 * length es" for es
      by (induction es) (simp_all add: dir_entry_bytes_def)
    moreover have "\<forall>x \<in> set (take k ?es). length (de_tag x) = 4"
      using tags k by (auto simp: in_set_conv_nth [of _ "take k _"] nth_entries)
    ultimately have "length (?b (take k ?es)) = 16 * length (take k ?es)" by blast
    with k show ?thesis by simp
  qed
  have "read_table (written v us) 0 k = Some \<lparr>ft_tag = de_tag ?e,
      ft_data = take (unat (de_length ?e)) (drop (unat (de_offset ?e)) (written v us))\<rparr>"
  proof (rule read_table_entry [OF _ w])
    show "unat (de_offset ?e) + unat (de_length ?e) \<le> length (written v us)" unfolding n wl by (simp add: dl)
  qed (use tl tg in \<open>simp_all add: e\<close>)
  also have "take (unat (de_length ?e)) (drop (unat (de_offset ?e)) (written v us)) = ft_data ?t"
    unfolding n wl by (simp add: dl)
  finally show ?thesis by (simp add: e)
qed

lemma those_map_Some: "(\<And>x. x \<in> set xs \<Longrightarrow> f x = Some (g x)) \<Longrightarrow> those (map f xs) = Some (map g xs)"
  by (induction xs) simp_all

lemma read_written:
  assumes "\<forall>t \<in> set us. length (ft_tag t) = 4" and "sizes_fit us"
  shows "read_tables (written v us) 0 = Some (v, us)"
proof -
  let ?n = "of_nat (length us) :: u16"
  have n: "unat ?n = length us" using assms(2) by (simp add: sizes_fit_def unat_of_nat)
  obtain xs where h: "written v us = u32be v @ u16be ?n @ xs"
    by (auto simp: written_def sfnt_header_def Let_def)
  have v: "read_u32 (written v us) 0 = Some v" using read_u32_at [of "[]"] by (simp add: h)
  have "read_u16 (u32be v @ u16be ?n @ xs) (length (u32be v)) = Some ?n" by (rule read_u16_at)
  then have nt: "read_u16 (written v us) 4 = Some ?n" by (simp add: h)
  have "those (map (read_table (written v us) 0) [0..<length us]) = Some (map ((!) us) [0..<length us])"
    using assms by (intro those_map_Some) (simp add: read_written_table)
  then show ?thesis by (simp add: read_tables_def v nt n map_nth)
qed

section \<open>What \<open>serialize\<close> writes\<close>

definition table_ok :: "font_table \<Rightarrow> bool" where
  "table_ok t \<longleftrightarrow> length (ft_tag t) = 4 \<and> (is_head t \<longrightarrow> 12 \<le> length (ft_data t))"

lemma length_written_front:
  "\<forall>t \<in> set us. length (ft_tag t) = 4 \<Longrightarrow>
   length (sfnt_header v (length us) @ concat (map dir_entry_bytes (entries off (map zero_head us)))) = 12 + length us * 16"
  using length_dir_bytes [of "map zero_head us" off] by simp

lemma serialize_writes:
  assumes "\<forall>t \<in> set tables. table_ok t"
  shows "\<exists>us. serialize v tables = Some (written v us) \<and> map zero_head us = qsort compare_tags (map zero_head tables) \<and>
     (Bex (set tables) is_head \<longrightarrow> table_checksum (written v us) = HEAD_CHECKSUM_MAGIC)"
proof -
  let ?ts = "qsort compare_tags (map zero_head tables)"
  let ?n = "length ?ts" let ?off = "12 + ?n * 16"
  let ?front = "sfnt_header v ?n @ concat (map dir_entry_bytes (entries ?off ?ts))"
  have tags: "\<forall>t \<in> set (map zero_head tables). length (ft_tag t) = 4" using assms by (simp add: table_ok_def)
  have "mset ?ts = mset (map zero_head tables)" using by_tag.qsort_correct [OF tags] by blast
  then have s: "set ?ts = zero_head ` set tables" unfolding set_map [symmetric] by (rule mset_eq_setD)
  have ok: "\<forall>t \<in> set ?ts. head_ok t \<and> zero_head t = t"
    using assms unfolding s by (auto simp: head_ok_def table_ok_def)
  then have zs: "map zero_head ?ts = ?ts" by (intro map_idI) blast
  have "\<forall>t \<in> set ?ts. length (ft_tag t) = 4" using ok by (simp add: head_ok_def)
  from length_dir_bytes [OF this] have fl: "length ?front = ?off" by simp
  have "foldl (add_table ?off) ([], [], None) ?ts = (D, B, h) \<Longrightarrow>
      D = entries ?off ?ts \<and> pad4 B = padded ?ts \<and> h = head_at ?off ?ts None" for D B h
    using fold_add_table [of ?off "[]" "[]" None ?ts D B h] by simp
  then have ser: "serialize v tables = (let result = ?front @ padded ?ts in case head_at ?off ?ts None of None \<Rightarrow> Some result
      | Some pos \<Rightarrow> write_at pos (u32be (HEAD_CHECKSUM_MAGIC - table_checksum result)) result)"
    by (cases "foldl (add_table ?off) ([], [], None) ?ts") (simp add: serialize_def Let_def)
  show ?thesis
  proof (cases "head_at ?off ?ts None")
    case None
    then have "\<not> Bex (set tables) is_head" unfolding head_at_None s by simp
    with None zs show ?thesis by (intro exI [of _ ?ts]) (simp add: ser written_def zs)
  next
    case (Some pos)
    let ?adj = "HEAD_CHECKSUM_MAGIC - table_checksum (?front @ padded ?ts)"
    obtain xs ys us where p: "padded ?ts = xs @ replicate 4 0 @ ys" "pos = ?off + length xs" "4 dvd length xs"
      "padded us = xs @ u32be ?adj @ ys" "map zero_head us = ?ts"
      using head_patched [OF ok Some, of ?adj] unfolding patched_def by (elim exE conjE)
    have n: "length us = ?n" using arg_cong [OF p(5), of length] by simp
    have w: "written v us = (?front @ xs) @ u32be ?adj @ ys" unfolding written_def n p(4,5) by simp
    have "serialize v tables = write_at (length (?front @ xs)) (u32be ?adj) ((?front @ xs) @ replicate 4 0 @ ys)"
      unfolding ser Let_def Some option.case p(1,2) length_append [of ?front] fl by simp
    also have "\<dots> = Some (written v us)" unfolding w write_at_def by simp
    finally have sw: "serialize v tables = Some (written v us)" .
    have "4 dvd length (?front @ xs)" using fl p(3) by (simp add: dvd_add)
    from table_checksum_patch [OF this] have "table_checksum (written v us) =
        table_checksum (?front @ padded ?ts) + ?adj" unfolding w p(1) by simp
    with sw p(5) show ?thesis by auto
  qed
qed

section \<open>The names of the written table\<close>

definition name_bytes :: "u16 \<times> u16 \<times> u16 \<Rightarrow> u16 \<times> string \<Rightarrow> u8 list" where
  "name_bytes platform entry =
     (if fst platform = 3 then bytebuf_append_utf16be (bytes_of (snd entry)) else bytes_of (snd entry))"

definition name_pairs :: "string \<Rightarrow> string \<Rightarrow> ((u16 \<times> u16 \<times> u16) \<times> (u16 \<times> string)) list" where
  "name_pairs family subfamily = List.product [(3, 1, 0x0409), (1, 0, 0)] (name_values family subfamily)"

abbreviation names_of :: "((u16 \<times> u16 \<times> u16) \<times> (u16 \<times> string)) list \<Rightarrow> u8 list" where
  "names_of ps \<equiv> concat (map (\<lambda>(p, e). name_bytes p e) ps)"

fun name_records :: "nat \<Rightarrow> ((u16 \<times> u16 \<times> u16) \<times> (u16 \<times> string)) list \<Rightarrow> name_record list" where
  "name_records off [] = []"
| "name_records off (((pid, enc, lang), e) # ps) =
     \<lparr>nr_platform_id = pid, nr_encoding_id = enc, nr_language_id = lang, nr_name_id = fst e,
      nr_length = of_nat (length (name_bytes (pid, enc, lang) e)), nr_offset = of_nat off\<rparr> #
     name_records (off + length (name_bytes (pid, enc, lang) e)) ps"

lemma fold_add_name:
  "foldl (\<lambda>st pe. add_name (fst pe) (snd pe) st) (R, S) ps = (R @ name_records (length S) ps, S @ names_of ps)"
proof (induction ps arbitrary: R S)
  case (Cons p ps)
  obtain pid enc lang e where "p = ((pid, enc, lang), e)" by (cases p) auto
  moreover obtain i t where "e = (i, t)" by (cases e) auto
  ultimately show ?case using Cons.IH by (simp add: add_name_def name_bytes_def Let_def)
qed simp

lemma name_entries_eq:
  "name_entries family subfamily = (name_records 0 (name_pairs family subfamily), names_of (name_pairs family subfamily))"
proof -
  have "name_entries family subfamily =
      foldl (\<lambda>st pe. add_name (fst pe) (snd pe) st) ([], []) (name_pairs family subfamily)"
    by (simp add: name_entries_def name_pairs_def name_values_def Let_def)
  then show ?thesis using fold_add_name [of "[]" "[]"] by simp
qed

lemma length_name_pairs [simp]: "length (name_pairs family subfamily) = 10"
  by (simp add: name_pairs_def name_values_def Let_def)

lemma length_name_records [simp]: "length (name_records off ps) = length ps"
  by (induction off ps rule: name_records.induct) simp_all

lemma nth_name_records:
  "k < length ps \<Longrightarrow> name_records off ps ! k =
     \<lparr>nr_platform_id = fst (fst (ps ! k)), nr_encoding_id = fst (snd (fst (ps ! k))),
      nr_language_id = snd (snd (fst (ps ! k))), nr_name_id = fst (snd (ps ! k)),
      nr_length = of_nat (length (name_bytes (fst (ps ! k)) (snd (ps ! k)))),
      nr_offset = of_nat (off + length (names_of (take k ps)))\<rparr>"
  by (induction off ps arbitrary: k rule: name_records.induct) (auto simp: nth_Cons' take_Cons' add.assoc)

lemma length_name_record_bytes [simp]: "length (name_record_bytes r) = 12"
  by (simp add: name_record_bytes_def)

lemma length_concat_const: "(\<And>x. length (f x) = c) \<Longrightarrow> length (concat (map f xs)) = c * length xs"
  by (induction xs) simp_all

text \<open>What a reader of the table finds for its record \<open>k\<close>.\<close>

definition read_name :: "u8 list \<Rightarrow> nat \<Rightarrow> (u16 \<times> u16 \<times> u16 \<times> u16 \<times> u8 list) option" where
  "read_name t k =
     do {
       storage \<leftarrow> read_u16 t 4;
       pid \<leftarrow> read_u16 t (6 + 12 * k);
       enc \<leftarrow> read_u16 t (8 + 12 * k);
       lang \<leftarrow> read_u16 t (10 + 12 * k);
       nid \<leftarrow> read_u16 t (12 + 12 * k);
       len \<leftarrow> read_u16 t (14 + 12 * k);
       off \<leftarrow> read_u16 t (16 + 12 * k);
       if length t < unat storage + unat off + unat len then None
       else Some (pid, enc, lang, nid, take (unat len) (drop (unat storage + unat off) t))
     }"

lemma read_u16_in: "t = xs @ u16be v @ ys \<Longrightarrow> length xs = n \<Longrightarrow> read_u16 t n = Some v"
  using read_u16_at by blast

lemma unat_u16_of_nat: "n < 2 ^ 16 \<Longrightarrow> unat (of_nat n :: u16) = n"
  by (simp add: unat_of_nat)

lemma read_built_name:
  assumes k: "k < 10" and small: "length (names_of (name_pairs family subfamily)) < 2 ^ 16"
  shows "read_name (build_name_table family subfamily) k =
    (case name_pairs family subfamily ! k of ((pid, enc, lang), (nid, nm)) \<Rightarrow>
       Some (pid, enc, lang, nid, name_bytes (pid, enc, lang) (nid, nm)))"
proof -
  let ?ps = "name_pairs family subfamily" let ?rs = "name_records 0 ?ps" and ?t = "build_name_table family subfamily"
  obtain pid enc lang nid nm where p: "?ps ! k = ((pid, enc, lang), (nid, nm))" by (metis prod.exhaust)
  let ?b = "name_bytes (pid, enc, lang) (nid, nm)" and ?pre = "names_of (take k ?ps)"
  have r: "?rs ! k = \<lparr>nr_platform_id = pid, nr_encoding_id = enc, nr_language_id = lang, nr_name_id = nid,
      nr_length = of_nat (length ?b), nr_offset = of_nat (length ?pre)\<rparr>"
    using k by (simp add: nth_name_records p)
  let ?rb = "\<lambda>rs. concat (map name_record_bytes rs)"
  have rb: "?rb ?rs = ?rb (take k ?rs) @ name_record_bytes (?rs ! k) @ ?rb (drop (Suc k) ?rs)"
    using k by (intro concat_map_split) simp
  have st: "names_of ?ps = ?pre @ ?b @ names_of (drop (Suc k) ?ps)"
    using concat_map_split [of k ?ps "\<lambda>(p, e). name_bytes p e"] k by (simp add: p)
  let ?h = "u16be 0 @ u16be 10 @ u16be 126"
  have t: "?t = ?h @ ?rb ?rs @ names_of ?ps" by (simp add: build_name_table_def name_entries_eq)
  define xs where "xs = ?h @ ?rb (take k ?rs)"
  define ys where "ys = ?rb (drop (Suc k) ?rs) @ names_of ?ps"
  have lx: "length xs = 6 + 12 * k" using k by (simp add: xs_def length_concat_const)
  have tx: "?t = xs @ name_record_bytes (?rs ! k) @ ys" unfolding t rb xs_def ys_def by simp
  have s: "read_u16 ?t 4 = Some 126" by (rule read_u16_in [of _ "u16be 0 @ u16be 10"]) (use t in auto)
  note tx' = tx [unfolded r name_record_bytes_def name_record.select_convs]
  have f: "read_u16 ?t (6 + 12 * k) = Some pid" "read_u16 ?t (8 + 12 * k) = Some enc"
    "read_u16 ?t (10 + 12 * k) = Some lang" "read_u16 ?t (12 + 12 * k) = Some nid"
    "read_u16 ?t (14 + 12 * k) = Some (of_nat (length ?b))"
    "read_u16 ?t (16 + 12 * k) = Some (of_nat (length ?pre))"
         apply (rule read_u16_in [of _ xs], simp add: tx', simp add: lx)
        apply (rule read_u16_in [of _ "xs @ u16be pid"], simp add: tx', simp add: lx)
       apply (rule read_u16_in [of _ "xs @ u16be pid @ u16be enc"], simp add: tx', simp add: lx)
      apply (rule read_u16_in [of _ "xs @ u16be pid @ u16be enc @ u16be lang"], simp add: tx', simp add: lx)
     apply (rule read_u16_in [of _ "xs @ u16be pid @ u16be enc @ u16be lang @ u16be nid"], simp add: tx', simp add: lx)
    apply (rule read_u16_in [of _ "xs @ u16be pid @ u16be enc @ u16be lang @ u16be nid @ u16be (of_nat (length ?b))"],
        simp add: tx', simp add: lx)
    done
  have n: "unat (of_nat (length ?b) :: u16) = length ?b" "unat (of_nat (length ?pre) :: u16) = length ?pre"
    using small unfolding st by (simp_all add: unat_u16_of_nat)
  have d: "?t = (?h @ ?rb ?rs @ ?pre) @ ?b @ names_of (drop (Suc k) ?ps)" unfolding t st by simp
  have dl: "length (?h @ ?rb ?rs @ ?pre) = 126 + length ?pre" by (simp add: length_concat_const)
  have "126 + length ?pre + length ?b \<le> length ?t" unfolding d by (simp add: length_concat_const)
  moreover have "take (length ?b) (drop (126 + length ?pre) ?t) = ?b" by (subst d, subst dl [symmetric]) simp
  ultimately show ?thesis by (simp add: read_name_def s f n p)
qed

section \<open>The rewritten font\<close>

lemma read_tables_tags:
  assumes "read_tables input off = Some (v, ts)" and "t \<in> set ts"
  shows "length (ft_tag t) = 4"
proof -
  have "read_table input off i = Some t \<Longrightarrow> length (ft_tag t) = 4" for i
    by (auto simp: read_table_def Let_def split: if_splits option.splits)
  moreover have "those (map f xs) = Some ys \<Longrightarrow> y \<in> set ys \<Longrightarrow> \<exists>x. f x = Some y" for f xs ys y
    by (induction xs arbitrary: ys) (auto split: option.splits)
  ultimately show ?thesis using assms unfolding read_tables_def
    by (fastforce split: option.splits)
qed

lemma replace_name_ok:
  assumes "\<forall>t \<in> set ts. table_ok t"
  shows "\<forall>t \<in> set (replace_name d ts). table_ok t"
proof -
  have n: "table_ok \<lparr>ft_tag = bytes_of ''name'', ft_data = d\<rparr>" by (simp add: table_ok_def is_head_def bytes_of_def)
  show ?thesis
  proof (cases "find_index (\<lambda>t. ft_tag t = bytes_of ''name'') ts")
    case (Some i)
    from find_index_Some [OF this] have "ft_tag (ts ! i) = bytes_of ''name''" by blast
    then have "(ts ! i)\<lparr>ft_data := d\<rparr> = \<lparr>ft_tag = bytes_of ''name'', ft_data = d\<rparr>" by (cases "ts ! i") simp
    with n assms Some show ?thesis by (auto simp: replace_name_def dest!: set_update_subset_insert [THEN subsetD])
  qed (use n assms in \<open>auto simp: replace_name_def\<close>)
qed

lemma replace_name_heads: "Bex (set ts) is_head \<Longrightarrow> Bex (set (replace_name d ts)) is_head"
proof -
  assume "Bex (set ts) is_head"
  then obtain k where k: "k < length ts" "is_head (ts ! k)" by (auto simp: in_set_conv_nth)
  show ?thesis
  proof (cases "find_index (\<lambda>t. ft_tag t = bytes_of ''name'') ts")
    case (Some i)
    from find_index_Some [OF this] have "ft_tag (ts ! i) = bytes_of ''name''" by blast
    with k have "k \<noteq> i" by (auto simp: is_head_def bytes_of_def)
    with k have "ts[i := x] ! k = ts ! k" "k < length (ts[i := x])" for x by simp_all
    with k(2) have "Bex (set (ts[i := x])) is_head" for x by (metis nth_mem)
    then show ?thesis by (simp add: replace_name_def Some)
  qed (use k in \<open>auto simp: replace_name_def\<close>)
qed

lemma replace_name_name: "\<exists>t \<in> set (replace_name d ts). ft_tag t = bytes_of ''name'' \<and> ft_data t = d"
proof (cases "find_index (\<lambda>t. ft_tag t = bytes_of ''name'') ts")
  case (Some i)
  from find_index_Some [OF this] have "i < length ts" "ft_tag (ts ! i) = bytes_of ''name''" by blast+
  then show ?thesis unfolding replace_name_def Some option.case
    by (intro bexI [of _ "(ts ! i)\<lparr>ft_data := d\<rparr>"]) (auto simp: set_update_memI)
qed (simp add: replace_name_def)

text \<open>
  A font with a table \<open>head\<close>, all of them of the twelve bytes the adjustment needs, is
  rewritten into a file whose checksum is the constant \<^verbatim>\<open>0xB1B0AFBA\<close>: the adjustment, written over
  the four bytes that were zero when it was computed, makes the sum of the words of the whole file
  what the format asks for.
\<close>

theorem rewritten_font_checksum:
  assumes "face_offset input face_index = Some off" and "read_tables input off = Some (v, ts)"
    and "\<forall>t \<in> set ts. is_head t \<longrightarrow> 12 \<le> length (ft_data t)" and "\<exists>t \<in> set ts. is_head t"
  shows "\<exists>out. wp_font_rewrite_name input face_index family subfamily = Some (Some out) \<and>
     table_checksum out = HEAD_CHECKSUM_MAGIC"
proof -
  have "\<forall>t \<in> set ts. table_ok t" using assms(3) read_tables_tags [OF assms(2)] by (simp add: table_ok_def)
  from serialize_writes [OF replace_name_ok [OF this, where d = "build_name_table family subfamily"], where v = v]
  show ?thesis using replace_name_heads [OF assms(4)] assms(1,2) by (auto simp: wp_font_rewrite_name_def)
qed

text \<open>
  The rewritten font reads back, by the same reader, as its version and its tables in the order
  of their tags: every table of the input with its bytes, but for the checksum adjustment of
  \<open>head\<close>, and the new name table, provided the tables can be counted in 16 bits and
  the file addressed in 32.
\<close>

theorem rewritten_font_reads_back:
  assumes "face_offset input face_index = Some off" and "read_tables input off = Some (v, ts)"
    and "\<forall>t \<in> set ts. is_head t \<longrightarrow> 12 \<le> length (ft_data t)"
    and "sizes_fit (replace_name (build_name_table family subfamily) ts)"
  shows "\<exists>out us. wp_font_rewrite_name input face_index family subfamily = Some (Some out) \<and>
     read_tables out 0 = Some (v, us) \<and>
     mset (map zero_head us) = mset (map zero_head (replace_name (build_name_table family subfamily) ts)) \<and>
     sorted_wrt (\<lambda>x y. compare_tags x y \<le> 0) us \<and>
     (\<exists>t \<in> set us. ft_tag t = bytes_of ''name'' \<and> ft_data t = build_name_table family subfamily)"
proof -
  let ?nt = "build_name_table family subfamily" let ?ts = "replace_name ?nt ts"
  have "\<forall>t \<in> set ts. table_ok t" using assms(3) read_tables_tags [OF assms(2)] by (simp add: table_ok_def)
  then have ok: "\<forall>t \<in> set ?ts. table_ok t" by (rule replace_name_ok)
  obtain us where us: "serialize v ?ts = Some (written v us)"
    "map zero_head us = qsort compare_tags (map zero_head ?ts)"
    using serialize_writes [OF ok] by blast
  have tags: "\<forall>t \<in> set (map zero_head ?ts). length (ft_tag t) = 4" using ok by (simp add: table_ok_def)
  from by_tag.qsort_correct [OF tags] us(2)
  have m: "mset (map zero_head us) = mset (map zero_head ?ts)"
    and so: "sorted_wrt (\<lambda>x y. compare_tags x y \<le> 0) (map zero_head us)" by simp_all
  have s: "set (map zero_head us) = set (map zero_head ?ts)" using m by (rule mset_eq_setD)
  have "\<forall>t \<in> set us. length (ft_tag t) = 4"
  proof
    fix t assume "t \<in> set us"
    then have "zero_head t \<in> set (map zero_head ?ts)" using s by auto
    with tags have "length (ft_tag (zero_head t)) = 4" by blast
    then show "length (ft_tag t) = 4" by simp
  qed
  moreover have "sizes_fit us"
  proof -
    have l: "length us = length ?ts" using m by (metis length_map size_mset)
    have "length (padded us) = sum_mset (image_mset (\<lambda>t. length (pad4 (ft_data t))) (mset (map zero_head us)))" for us
      by (induction us) simp_all
    then have "length (padded us) = length (padded ?ts)" using m by metis
    with l assms(4) show ?thesis by (simp add: sizes_fit_def)
  qed
  ultimately have r: "read_tables (written v us) 0 = Some (v, us)" by (rule read_written)
  obtain t where t: "t \<in> set ?ts" "ft_tag t = bytes_of ''name''" "ft_data t = ?nt"
    using replace_name_name [of ?nt ts] by blast
  have z: "ft_tag u = bytes_of ''name'' \<Longrightarrow> zero_head u = u" for u :: font_table
    by (simp add: zero_head_def is_head_def bytes_of_def)
  have "t \<in> set (map zero_head us)" using s t(1) z [OF t(2)] by force
  then obtain u where "u \<in> set us" "t = zero_head u" by auto
  then have "t \<in> set us" using t(2) z [of u] by simp
  moreover have "sorted_wrt (\<lambda>x y. compare_tags x y \<le> 0) us"
    using so by (simp add: sorted_wrt_map compare_tags_def)
  ultimately show ?thesis using assms(1,2) us(1) m r t(2,3) by (auto simp: wp_font_rewrite_name_def)
qed

text \<open>
  A reader of the new name table finds under each of its ten records, for the Windows and for
  the Macintosh platform, the language and name ids of the code and exactly the encoded bytes of
  the family, the subfamily, the unique id, the full name or the PostScript name, as long as the
  offsets of the storage fit in 16 bits.
\<close>

theorem name_table_reads_back:
  assumes "k < 10" and "length (names_of (name_pairs family subfamily)) < 2 ^ 16"
  shows "read_name (build_name_table family subfamily) k =
    (case name_pairs family subfamily ! k of ((pid, enc, lang), (nid, nm)) \<Rightarrow>
       Some (pid, enc, lang, nid, name_bytes (pid, enc, lang) (nid, nm)))"
  using assms by (rule read_built_name)

section \<open>A font\<close>

text \<open>A file with a head table of twelve bytes and nothing else.\<close>

definition demo_font :: "u8 list" where
  "demo_font = [0, 1, 0, 0, 0, 1, 0, 16, 0, 0, 0, 0] @ bytes_of ''head'' @ [0, 0, 0, 0, 0, 0, 0, 28, 0, 0, 0, 12] @
     [0, 1, 0, 0, 0, 0, 0, 0, 9, 9, 9, 9]"

definition demo_tables :: "font_table list" where
  "demo_tables = [\<lparr>ft_tag = bytes_of ''head'', ft_data = [0, 1, 0, 0, 0, 0, 0, 0, 9, 9, 9, 9]\<rparr>]"

lemma demo_face: "face_offset demo_font 0 = Some 0"
  by code_simp

lemma demo_read: "read_tables demo_font 0 = Some (0x10000, demo_tables)"
  by code_simp

lemma demo_heads:
  "\<forall>t \<in> set demo_tables. is_head t \<longrightarrow> 12 \<le> length (ft_data t)" "\<exists>t \<in> set demo_tables. is_head t"
  by (code_simp, code_simp)

theorem rewritten_font_checksum_witness:
  "\<exists>out. wp_font_rewrite_name demo_font 0 ''A'' ''B'' = Some (Some out) \<and> table_checksum out = HEAD_CHECKSUM_MAGIC"
  by (rule rewritten_font_checksum [OF demo_face demo_read demo_heads])

lemma demo_fits: "sizes_fit (replace_name (build_name_table ''A'' ''B'') demo_tables)"
proof -
  have "length (replace_name (build_name_table ''A'' ''B'') demo_tables) = 2" by code_simp
  moreover have "length (padded (replace_name (build_name_table ''A'' ''B'') demo_tables)) = 204" by code_simp
  ultimately show ?thesis by (simp add: sizes_fit_def)
qed

theorem rewritten_font_reads_back_witness:
  "\<exists>out us. wp_font_rewrite_name demo_font 0 ''A'' ''B'' = Some (Some out) \<and>
     read_tables out 0 = Some (0x10000, us) \<and>
     mset (map zero_head us) = mset (map zero_head (replace_name (build_name_table ''A'' ''B'') demo_tables)) \<and>
     sorted_wrt (\<lambda>x y. compare_tags x y \<le> 0) us \<and>
     (\<exists>t \<in> set us. ft_tag t = bytes_of ''name'' \<and> ft_data t = build_name_table ''A'' ''B'')"
  by (rule rewritten_font_reads_back [OF demo_face demo_read demo_heads(1) demo_fits])

lemma demo_names: "length (names_of (name_pairs ''A'' ''B'')) < 2 ^ 16"
proof -
  have "length (names_of (name_pairs ''A'' ''B'')) = 66" by code_simp
  then show ?thesis by simp
qed

theorem name_table_reads_back_witness:
  "read_name (build_name_table ''A'' ''B'') 3 =
    (case name_pairs ''A'' ''B'' ! 3 of ((pid, enc, lang), (nid, nm)) \<Rightarrow>
       Some (pid, enc, lang, nid, name_bytes (pid, enc, lang) (nid, nm)))"
  by (rule name_table_reads_back [OF _ demo_names]) simp

end
