(* ===== verification/WP_Fonts.thy ===== *)
theory WP_Fonts
  imports WP_Font_Rename "HOL-Library.Sublist"
begin

text \<open>
  Fonts for Windows programs: the daemon renames fonts of the system into its cache and passes the
  redirections in an environment variable (\<^verbatim>\<open>programs/wallpiperd/fonts.c\<close>); the library preloaded into
  Wine applies them to the symbolic links that Wine makes (\<^verbatim>\<open>loader/elf/fonts.c\<close>). What \<^verbatim>\<open>fc-match\<close> prints is an
  argument; files are a map from paths to bytes.
\<close>

section \<open>Choosing the fonts\<close>

record font_source =
  fs_path :: string
  fs_index :: u32

datatype font_generic =
    GENERIC_SANS_REGULAR | GENERIC_SANS_BOLD | GENERIC_SERIF_REGULAR | GENERIC_MONO_REGULAR | GENERIC_MONO_BOLD

record font_redirect =
  fr_filename :: string
  fr_family :: string
  fr_subfamily :: string
  fr_generic :: font_generic

definition redirect :: "string \<Rightarrow> string \<Rightarrow> string \<Rightarrow> font_generic \<Rightarrow> font_redirect" where
  "redirect f fam sub g = \<lparr>fr_filename = f, fr_family = fam, fr_subfamily = sub, fr_generic = g\<rparr>"

definition REDIRECTS :: "font_redirect list" where
  "REDIRECTS =
     [redirect ''arial.ttf'' ''Arial'' ''Regular'' GENERIC_SANS_REGULAR,
      redirect ''arialbd.ttf'' ''Arial'' ''Bold'' GENERIC_SANS_BOLD,
      redirect ''tahoma.ttf'' ''Tahoma'' ''Regular'' GENERIC_SANS_REGULAR,
      redirect ''tahomabd.ttf'' ''Tahoma'' ''Bold'' GENERIC_SANS_BOLD,
      redirect ''times.ttf'' ''Times New Roman'' ''Regular'' GENERIC_SERIF_REGULAR,
      redirect ''cour.ttf'' ''Courier New'' ''Regular'' GENERIC_MONO_REGULAR,
      redirect ''courbd.ttf'' ''Courier New'' ''Bold'' GENERIC_MONO_BOLD]"

record font_targets =
  ft_sans_regular :: "font_source option"
  ft_sans_bold :: "font_source option"
  ft_serif_regular :: "font_source option"
  ft_mono_regular :: "font_source option"
  ft_mono_bold :: "font_source option"

definition cut_at :: "char \<Rightarrow> string \<Rightarrow> (string \<times> string) option" where
  "cut_at x s = (if x \<in> set s then Some (takeWhile (\<lambda>c. c \<noteq> x) s, tl (dropWhile (\<lambda>c. c \<noteq> x) s)) else None)"

text \<open>The program ran and ended with status 0, and what it printed.\<close>

definition fc_match :: "bool \<times> string \<Rightarrow> nat \<Rightarrow> font_source option" where
  "fc_match run path_out_len =
     (if \<not> fst run then None
      else case cut_at TAB (cstr (take 2047 (snd run))) of
             None \<Rightarrow> None
           | Some (path0, index_str) \<Rightarrow>
               let path = rtrim (\<lambda>c. c = SP \<or> c = TAB) path0;
                   index_str = dropWhile (\<lambda>c. c = SP) (takeWhile (\<lambda>c. c \<noteq> LF) index_str)
               in if path = [] \<or> path_out_len \<le> length path then None
                  else Some \<lparr>fs_path = path, fs_index = ucast (atoul index_str)\<rparr>)"

definition detect_targets :: "(string \<Rightarrow> bool \<times> string) \<Rightarrow> font_targets" where
  "detect_targets fc =
     \<lparr>ft_sans_regular = fc_match (fc ''sans-serif'') 768, ft_sans_bold = fc_match (fc ''sans-serif:bold'') 768,
      ft_serif_regular = fc_match (fc ''serif'') 768, ft_mono_regular = fc_match (fc ''monospace'') 768,
      ft_mono_bold = fc_match (fc ''monospace:bold'') 768\<rparr>"

definition targets_get :: "font_targets \<Rightarrow> font_generic \<Rightarrow> font_source option" where
  "targets_get t g =
     (case g of
        GENERIC_SANS_REGULAR \<Rightarrow> ft_sans_regular t
      | GENERIC_SANS_BOLD \<Rightarrow> ft_sans_bold t
      | GENERIC_SERIF_REGULAR \<Rightarrow> ft_serif_regular t
      | GENERIC_MONO_REGULAR \<Rightarrow> ft_mono_regular t
      | GENERIC_MONO_BOLD \<Rightarrow> ft_mono_bold t)"

section \<open>Writing the renamed fonts\<close>

type_synonym font_files = "string \<Rightarrow> u8 list option"

text \<open>\<^term>\<open>None\<close> where the font writer goes past the end of its buffer.\<close>

definition write_renamed ::
  "(string \<Rightarrow> bool) \<Rightarrow> string \<Rightarrow> u32 \<Rightarrow> string \<Rightarrow> string \<Rightarrow> string \<Rightarrow> font_files \<Rightarrow> (bool \<times> font_files) option" where
  "write_renamed writable src_path face_index family subfamily dest_path files =
     (case files src_path of
        None \<Rightarrow> Some (False, files)
      | Some input \<Rightarrow>
          (case wp_font_rewrite_name input face_index family subfamily of
             None \<Rightarrow> Some (False, files)
           | Some None \<Rightarrow> None
           | Some (Some output) \<Rightarrow>
               if writable dest_path then Some (True, files(dest_path \<mapsto> output)) else Some (False, files)))"

definition wp_wine_fonts_dir :: "environ \<Rightarrow> file_view \<Rightarrow> nat \<Rightarrow> string option" where
  "wp_wine_fonts_dir env fv out_len =
     (case wp_compatdata_dir env fv 768 256 of
        Inl _ \<Rightarrow> None
      | Inr compatdata \<Rightarrow> fmt_ok out_len (compatdata @ ''/pfx/drive_c/windows/Fonts''))"

definition wp_font_cache_dir :: "environ \<Rightarrow> nat \<Rightarrow> string option" where
  "wp_font_cache_dir env out_len =
     (case wp_home_dir env 512 of None \<Rightarrow> None | Some home \<Rightarrow> fmt_ok out_len (home @ ''/.cache/wallpiper/fonts''))"

definition font_dest :: "string \<Rightarrow> font_redirect \<Rightarrow> string" where
  "font_dest cache_dir r = fst (snprintf 1200 (cache_dir @ CHR ''/'' # fr_filename r))"

definition font_link :: "string \<Rightarrow> font_redirect \<Rightarrow> string" where
  "font_link fonts_dir r = fonts_dir @ CHR ''/'' # fr_filename r"

text \<open>One redirection: the text so far, whether it is the first, and the files.\<close>

definition add_redirect ::
  "(string \<Rightarrow> bool) \<Rightarrow> font_targets \<Rightarrow> string \<Rightarrow> string \<Rightarrow> nat \<Rightarrow> string \<times> bool \<times> font_files \<Rightarrow> font_redirect \<Rightarrow>
   (string \<times> bool \<times> font_files) option" where
  "add_redirect writable targets fonts_dir cache_dir out_len st r =
     (case st of (out, first, files) \<Rightarrow>
        case targets_get targets (fr_generic r) of
          None \<Rightarrow> Some st
        | Some source \<Rightarrow>
            let dest = font_dest cache_dir r
            in case write_renamed writable (fs_path source) (fs_index source) (fr_family r) (fr_subfamily r) dest files of
                 None \<Rightarrow> None
               | Some (False, files') \<Rightarrow> Some (out, first, files')
               | Some (True, files') \<Rightarrow>
                   let entry = (if first then [] else '';'') @ font_link fonts_dir r @ CHR ''='' # dest;
                       n = snd (snprintf 2400 entry)
                   in if n = 0 \<or> out_len \<le> length out + n then Some (out, first, files')
                      else Some (out @ entry, False, files'))"

definition wp_fonts_env_value ::
  "environ \<Rightarrow> file_view \<Rightarrow> (string \<Rightarrow> bool \<times> string) \<Rightarrow> (string \<Rightarrow> bool) \<Rightarrow> nat \<Rightarrow> font_files \<Rightarrow>
   (string option \<times> font_files) option" where
  "wp_fonts_env_value env fv fc writable out_len files =
     (case (wp_wine_fonts_dir env fv 1024, wp_font_cache_dir env 1024) of
        (Some fonts_dir, Some cache_dir) \<Rightarrow>
          map_option (\<lambda>(out, _, files'). (Some out, files'))
            (foldM (add_redirect writable (detect_targets fc) fonts_dir cache_dir out_len) ([], True, files) REDIRECTS)
      | _ \<Rightarrow> Some (None, files))"

section \<open>Applying the redirections\<close>

fun squeeze :: "bool \<Rightarrow> string \<Rightarrow> string" where
  "squeeze prev_slash [] = []"
| "squeeze prev_slash (c # cs) =
     (if c = CHR ''/'' then (if prev_slash then squeeze True cs else c # squeeze True cs)
      else c # squeeze False cs)"

function strip_slashes :: "string \<Rightarrow> string" where
  "strip_slashes s = (if 1 < length s \<and> last s = CHR ''/'' then strip_slashes (butlast s) else s)"
  by pat_completeness auto
termination by (relation "measure length") auto

declare strip_slashes.simps [simp del]

definition wp_normalize_path :: "string \<Rightarrow> nat \<Rightarrow> string" where
  "wp_normalize_path s out_size = strip_slashes (take (out_size - 1) (squeeze False s))"

fun find_redirect :: "string \<Rightarrow> string list \<Rightarrow> string option" where
  "find_redirect linkpath [] = None"
| "find_redirect linkpath (entry # es) =
     (case cut_at CHR ''='' entry of
        None \<Rightarrow> find_redirect linkpath es
      | Some (path, target) \<Rightarrow>
          if wp_normalize_path path 4096 = linkpath then Some (take 4095 target) else find_redirect linkpath es)"

definition wp_font_redirect_target :: "environ \<Rightarrow> string \<Rightarrow> string option" where
  "wp_font_redirect_target env linkpath =
     (case env ''WALLPIPER_FONT_REDIRECTS'' of
        None \<Rightarrow> None
      | Some redirects \<Rightarrow>
          if redirects = [] then None
          else find_redirect (wp_normalize_path linkpath 4096) (tokens (\<lambda>c. c = CHR '';'') redirects))"

text \<open>The arguments of the real \<^verbatim>\<open>symlink\<close>.\<close>

definition symlink :: "environ \<Rightarrow> string \<Rightarrow> string \<Rightarrow> string \<times> string" where
  "symlink env target linkpath =
     (case wp_font_redirect_target env linkpath of Some r \<Rightarrow> (r, linkpath) | None \<Rightarrow> (target, linkpath))"

section \<open>Normalised paths\<close>

lemma squeeze_plain: "CHR ''/'' \<notin> set f \<Longrightarrow> squeeze b f = f"
  by (induction f arbitrary: b) auto

lemma squeeze_file: "CHR ''/'' \<notin> set f \<Longrightarrow> squeeze b (d @ CHR ''/'' # f) = squeeze b (d @ [CHR ''/'']) @ f"
  by (induction d arbitrary: b) (auto simp: squeeze_plain)

lemma length_squeeze: "length (squeeze b s) \<le> length s"
  by (induction b s rule: squeeze.induct) auto

lemma normalize_file:
  assumes "CHR ''/'' \<notin> set f" and "f \<noteq> []" and "length d + length f < 4095"
  shows "wp_normalize_path (d @ CHR ''/'' # f) 4096 = squeeze False (d @ [CHR ''/'']) @ f"
proof -
  let ?s = "squeeze False (d @ [CHR ''/'']) @ f"
  have "length ?s \<le> length d + 1 + length f" using length_squeeze [of False "d @ [CHR ''/'']"] by simp
  then have "take 4095 ?s = ?s" using assms(3) by simp
  moreover have "last ?s \<noteq> CHR ''/''" using assms(1,2) by (auto dest: last_in_set)
  then have "strip_slashes ?s = ?s" by (simp add: strip_slashes.simps)
  ultimately show ?thesis by (simp add: wp_normalize_path_def squeeze_file [OF assms(1)] del: append_assoc)
qed

section \<open>The value of the variable\<close>

definition font_entry :: "string \<Rightarrow> string \<Rightarrow> font_redirect \<Rightarrow> string" where
  "font_entry fonts_dir cache_dir r = font_link fonts_dir r @ CHR ''='' # font_dest cache_dir r"

fun env_text :: "string list \<Rightarrow> string" where
  "env_text [] = []"
| "env_text (e # es) = e @ concat (map (\<lambda>x. CHR '';'' # x) es)"

lemma env_text_snoc: "env_text (es @ [e]) = env_text es @ (if es = [] then [] else '';'') @ e"
  by (cases es) simp_all

lemma tokens_env_text:
  "\<forall>e \<in> set es. e \<noteq> [] \<and> CHR '';'' \<notin> set e \<Longrightarrow> tokens (\<lambda>c. c = CHR '';'') (env_text es) = es"
proof (induction es)
  case (Cons e es)
  show ?case
  proof (cases es)
    case Nil
    with Cons.prems show ?thesis by (auto intro!: tokens_last_word)
  next
    case (Cons x xs)
    have "tokens (\<lambda>c. c = CHR '';'') (e @ CHR '';'' # env_text (x # xs)) = e # tokens (\<lambda>c. c = CHR '';'') (env_text (x # xs))"
      using Cons.prems by (intro tokens_word) auto
    then show ?thesis using Cons.IH Cons.prems by (simp add: Cons)
  qed
qed simp

lemma cut_at_append [simp]: "x \<notin> set s \<Longrightarrow> cut_at x (s @ x # r) = Some (s, r)"
  unfolding cut_at_def by (subst takeWhile_append2 dropWhile_append2, auto)+

text \<open>A redirection that was written: the file at its destination is the renamed font.\<close>

definition written_font :: "font_targets \<Rightarrow> string \<Rightarrow> font_files \<Rightarrow> font_redirect \<Rightarrow> bool" where
  "written_font targets cache_dir files r \<longleftrightarrow> (\<exists>source input bytes.
     targets_get targets (fr_generic r) = Some source \<and>
     wp_font_rewrite_name input (fs_index source) (fr_family r) (fr_subfamily r) = Some (Some bytes) \<and>
     files (font_dest cache_dir r) = Some bytes)"

text \<open>
  A redirection for which everything is there: the system has a font, outside the cache, that can be
  read and renamed, and its destination can be written.
\<close>

definition renamable :: "(string \<Rightarrow> bool) \<Rightarrow> font_targets \<Rightarrow> string \<Rightarrow> font_files \<Rightarrow> font_redirect \<Rightarrow> bool" where
  "renamable writable targets cache_dir files r \<longleftrightarrow> (\<exists>source input bytes.
     targets_get targets (fr_generic r) = Some source \<and> fs_path source \<notin> font_dest cache_dir ` set REDIRECTS \<and>
     files (fs_path source) = Some input \<and>
     wp_font_rewrite_name input (fs_index source) (fr_family r) (fr_subfamily r) = Some (Some bytes) \<and>
     writable (font_dest cache_dir r))"

lemma renamable_cong:
  "(\<And>p. p \<notin> font_dest cache_dir ` set REDIRECTS \<Longrightarrow> files' p = files p) \<Longrightarrow>
   renamable writable targets cache_dir files' r = renamable writable targets cache_dir files r"
  unfolding renamable_def by (intro ex_cong1) auto

lemma env_text_length: "(\<And>e. e \<in> set es \<Longrightarrow> length e \<le> k) \<Longrightarrow> length (env_text es) \<le> length es * Suc k"
proof (induction es rule: rev_induct)
  case (snoc e es)
  have "length (env_text es) \<le> length es * Suc k" using snoc by simp
  moreover have "length e \<le> k" using snoc.prems by simp
  ultimately show ?case by (simp add: env_text_snoc)
qed simp

lemma write_renamed_other:
  "write_renamed writable src i fam sub dest files = Some (ok, files') \<Longrightarrow> p \<noteq> dest \<Longrightarrow> files' p = files p"
  by (auto simp: write_renamed_def split: option.splits if_splits)

lemma add_redirect_cases:
  assumes "add_redirect writable targets fonts_dir cache_dir out_len (env_text (map (font_entry fonts_dir cache_dir) ws), ws = [], files) r
    = Some st'"
  obtains (skip) files' where "st' = (env_text (map (font_entry fonts_dir cache_dir) ws), ws = [], files')"
      and "\<And>p. p \<noteq> font_dest cache_dir r \<Longrightarrow> files' p = files p"
      and "length (env_text (map (font_entry fonts_dir cache_dir) ws)) + length (font_entry fonts_dir cache_dir r) + 1 < out_len
        \<Longrightarrow> \<not> renamable writable targets cache_dir files r"
  | (add) files' where "st' = (env_text (map (font_entry fonts_dir cache_dir) (ws @ [r])), False, files')"
      and "\<And>p. p \<noteq> font_dest cache_dir r \<Longrightarrow> files' p = files p" and "written_font targets cache_dir files' r"
proof (cases "targets_get targets (fr_generic r)")
  case None
  with assms show thesis by (intro skip [of files]) (simp_all add: add_redirect_def renamable_def)
next
  case (Some source)
  let ?w = "write_renamed writable (fs_path source) (fs_index source) (fr_family r) (fr_subfamily r) (font_dest cache_dir r) files"
  obtain ok files' where w: "?w = Some (ok, files')"
    using assms Some by (cases ?w) (auto simp: add_redirect_def Let_def)
  note o = write_renamed_other [OF w]
  show thesis
  proof (cases ok)
    case False
    have "\<not> renamable writable targets cache_dir files r"
      using w False Some by (auto simp: renamable_def write_renamed_def)
    with False assms Some w o show thesis by (intro skip [of files']) (simp_all add: add_redirect_def Let_def)
  next
    case True
    have "written_font targets cache_dir files' r"
      using w True Some by (auto simp: written_font_def write_renamed_def split: option.splits if_splits)
    with assms Some w o True skip [of files'] add [of files'] show thesis
      by (auto simp: add_redirect_def Let_def env_text_snoc font_entry_def font_link_def snprintf_def split: if_splits)
  qed
qed

lemma written_font_cong:
  "files' (font_dest cache_dir r) = files (font_dest cache_dir r) \<Longrightarrow> written_font targets cache_dir files' r = written_font targets cache_dir files r"
  by (simp add: written_font_def)

lemma foldM_redirects:
  assumes short: "\<And>r. r \<in> set REDIRECTS \<Longrightarrow> length (font_entry fonts_dir cache_dir r) \<le> 2300"
  shows "foldM (add_redirect writable targets fonts_dir cache_dir out_len)
     (env_text (map (font_entry fonts_dir cache_dir) ws), ws = [], files) rs = Some (out, first, files') \<Longrightarrow>
   distinct (map (font_dest cache_dir) rs) \<Longrightarrow> set ws \<union> set rs \<subseteq> set REDIRECTS \<Longrightarrow> length ws + length rs \<le> 7 \<Longrightarrow>
   \<exists>us. subseq us rs \<and> out = env_text (map (font_entry fonts_dir cache_dir) (ws @ us)) \<and>
     (\<forall>r \<in> set us. written_font targets cache_dir files' r) \<and>
     (\<forall>p. p \<notin> font_dest cache_dir ` set rs \<longrightarrow> files' p = files p) \<and>
     (16384 \<le> out_len \<longrightarrow> (\<forall>r \<in> set rs - set us. \<not> renamable writable targets cache_dir files r))"
proof (induction rs arbitrary: ws files)
  case (Cons r rs)
  obtain st1 where st1: "add_redirect writable targets fonts_dir cache_dir out_len
      (env_text (map (font_entry fonts_dir cache_dir) ws), ws = [], files) r = Some st1"
    "foldM (add_redirect writable targets fonts_dir cache_dir out_len) st1 rs = Some (out, first, files')"
    using Cons.prems(1) by (auto split: option.splits)
  have d: "font_dest cache_dir r \<notin> font_dest cache_dir ` set rs" "distinct (map (font_dest cache_dir) rs)"
    using Cons.prems(2) by simp_all
  have r: "r \<in> set REDIRECTS" "length ws \<le> 6" using Cons.prems(3,4) by auto
  have "length (env_text (map (font_entry fonts_dir cache_dir) ws)) \<le> length ws * 2301"
    using env_text_length [of "map (font_entry fonts_dir cache_dir) ws" 2300] short Cons.prems(3) by auto
  then have fits: "16384 \<le> out_len \<Longrightarrow>
      length (env_text (map (font_entry fonts_dir cache_dir) ws)) + length (font_entry fonts_dir cache_dir r) + 1 < out_len"
    using short [OF r(1)] r(2) by simp
  have same: "renamable writable targets cache_dir files1 x = renamable writable targets cache_dir files x"
    if "\<And>p. p \<noteq> font_dest cache_dir r \<Longrightarrow> files1 p = files p" for files1 x
    by (rule renamable_cong) (use that r(1) in blast)
  show ?case
  proof (rule add_redirect_cases [OF st1(1)])
    fix files1 assume a: "st1 = (env_text (map (font_entry fonts_dir cache_dir) ws), ws = [], files1)"
      "\<And>p. p \<noteq> font_dest cache_dir r \<Longrightarrow> files1 p = files p"
      "length (env_text (map (font_entry fonts_dir cache_dir) ws)) + length (font_entry fonts_dir cache_dir r) + 1 < out_len
        \<Longrightarrow> \<not> renamable writable targets cache_dir files r"
    obtain us where "subseq us rs" "out = env_text (map (font_entry fonts_dir cache_dir) (ws @ us))"
      "\<forall>r \<in> set us. written_font targets cache_dir files' r" "\<forall>p. p \<notin> font_dest cache_dir ` set rs \<longrightarrow> files' p = files1 p"
      "16384 \<le> out_len \<longrightarrow> (\<forall>x \<in> set rs - set us. \<not> renamable writable targets cache_dir files1 x)"
      using Cons.IH [OF st1(2) [unfolded a(1)] d(2)] Cons.prems(3,4) by auto
    with a(2,3) fits same [OF a(2)] show ?thesis by (intro exI [of _ us]) auto
  next
    fix files1 assume a: "st1 = (env_text (map (font_entry fonts_dir cache_dir) (ws @ [r])), False, files1)"
      "\<And>p. p \<noteq> font_dest cache_dir r \<Longrightarrow> files1 p = files p" "written_font targets cache_dir files1 r"
    have "foldM (add_redirect writable targets fonts_dir cache_dir out_len)
      (env_text (map (font_entry fonts_dir cache_dir) (ws @ [r])), ws @ [r] = [], files1) rs = Some (out, first, files')"
      using st1(2) by (simp add: a(1))
    from Cons.IH [OF this d(2)] Cons.prems(3,4)
    obtain us where us: "subseq us rs" "out = env_text (map (font_entry fonts_dir cache_dir) ((ws @ [r]) @ us))"
      "\<forall>r \<in> set us. written_font targets cache_dir files' r" "\<forall>p. p \<notin> font_dest cache_dir ` set rs \<longrightarrow> files' p = files1 p"
      "16384 \<le> out_len \<longrightarrow> (\<forall>x \<in> set rs - set us. \<not> renamable writable targets cache_dir files1 x)"
      by auto
    have "written_font targets cache_dir files' r" using a(3) us(4) d(1) written_font_cong by metis
    with us a(2) same [OF a(2)] show ?thesis by (intro exI [of _ "r # us"]) auto
  qed
qed auto

section \<open>What the preloaded library finds\<close>

lemma redirects_plain: "r \<in> set REDIRECTS \<Longrightarrow> fr_filename r \<noteq> [] \<and> length (fr_filename r) \<le> 12 \<and>
    CHR ''/'' \<notin> set (fr_filename r) \<and> CHR ''='' \<notin> set (fr_filename r) \<and> CHR '';'' \<notin> set (fr_filename r)"
  by (auto simp: REDIRECTS_def redirect_def)

lemma redirects_distinct: "distinct (map fr_filename REDIRECTS)"
  by (simp add: REDIRECTS_def redirect_def)

lemma find_redirect_entries:
  assumes d: "length fonts_dir < 1024" "CHR ''='' \<notin> set fonts_dir" and r: "r \<in> set REDIRECTS" and ws: "set ws \<subseteq> set REDIRECTS"
  shows "find_redirect (wp_normalize_path (font_link fonts_dir r) 4096) (map (font_entry fonts_dir cache_dir) ws) =
    (if r \<in> set ws then Some (font_dest cache_dir r) else None)"
  using ws
proof (induction ws)
  case (Cons w ws)
  have nf: "wp_normalize_path (font_link fonts_dir x) 4096 = squeeze False (fonts_dir @ [CHR ''/'']) @ fr_filename x"
    if "x \<in> set REDIRECTS" for x
    unfolding font_link_def using redirects_plain [OF that] d(1) by (intro normalize_file) auto
  have w: "w \<in> set REDIRECTS" using Cons.prems by simp
  have "wp_normalize_path (font_link fonts_dir w) 4096 = wp_normalize_path (font_link fonts_dir r) 4096 \<longleftrightarrow> w = r"
    using nf [OF w] nf [OF r] redirects_distinct r w by (auto simp: distinct_map dest: inj_onD)
  moreover have "CHR ''='' \<notin> set (font_link fonts_dir w)" using redirects_plain [OF w] d(2) by (simp add: font_link_def)
  moreover have "take 4095 (font_dest cache_dir w) = font_dest cache_dir w" by (simp add: font_dest_def snprintf_def)
  ultimately show ?case using Cons by (auto simp: font_entry_def)
qed simp

lemma font_dests_distinct: "length cache_dir < 1024 \<Longrightarrow> distinct (map (font_dest cache_dir) REDIRECTS)"
  by (simp add: REDIRECTS_def redirect_def font_dest_def snprintf_def)

lemma fonts_redirected:
  assumes "wp_wine_fonts_dir env fv 1024 = Some fonts_dir" and "wp_font_cache_dir env 1024 = Some cache_dir"
    and "wp_fonts_env_value env fv fc writable out_len files = Some (Some out, files')"
    and "CHR ''='' \<notin> set fonts_dir" and "CHR '';'' \<notin> set fonts_dir" and "CHR '';'' \<notin> set cache_dir"
    and "wine_env ''WALLPIPER_FONT_REDIRECTS'' = Some out"
  shows "\<exists>ws. subseq ws REDIRECTS \<and> out = env_text (map (font_entry fonts_dir cache_dir) ws) \<and> (\<forall>r \<in> set REDIRECTS.
     if r \<in> set ws
     then symlink wine_env target (font_link fonts_dir r) = (font_dest cache_dir r, font_link fonts_dir r) \<and>
          written_font (detect_targets fc) cache_dir files' r
     else symlink wine_env target (font_link fonts_dir r) = (target, font_link fonts_dir r) \<and>
          (16384 \<le> out_len \<longrightarrow> \<not> renamable writable (detect_targets fc) cache_dir files r))"
proof -
  have len: "length fonts_dir < 1024" "length cache_dir < 1024"
    using assms(1,2) by (auto simp: wp_wine_fonts_dir_def wp_font_cache_dir_def fmt_ok_fits dest!: fits_SomeD split: sum.splits option.splits)
  obtain first where "foldM (add_redirect writable (detect_targets fc) fonts_dir cache_dir out_len)
      (env_text (map (font_entry fonts_dir cache_dir) []), [] = ([] :: font_redirect list), files) REDIRECTS = Some (out, first, files')"
    using assms(1-3) by (auto simp: wp_fonts_env_value_def)
  moreover have "length (font_entry fonts_dir cache_dir r) \<le> 2300" if "r \<in> set REDIRECTS" for r
    using redirects_plain [OF that] len by (simp add: font_entry_def font_link_def font_dest_def snprintf_def min_def)
  moreover have "length REDIRECTS = 7" by (simp add: REDIRECTS_def)
  ultimately obtain ws where ws: "subseq ws REDIRECTS" "out = env_text (map (font_entry fonts_dir cache_dir) ws)"
    "\<forall>r \<in> set ws. written_font (detect_targets fc) cache_dir files' r"
    "16384 \<le> out_len \<longrightarrow> (\<forall>r \<in> set REDIRECTS - set ws. \<not> renamable writable (detect_targets fc) cache_dir files r)"
    using foldM_redirects [where ws = "[]" and rs = REDIRECTS and fonts_dir = fonts_dir, OF _ _ font_dests_distinct [OF len(2)]]
    by simp metis
  have sub: "set ws \<subseteq> set REDIRECTS" using ws(1) by (meson subsetI subseq_order.order_trans subseq_singleton_left)
  have "\<forall>e \<in> set (map (font_entry fonts_dir cache_dir) ws). e \<noteq> [] \<and> CHR '';'' \<notin> set e"
    using assms(5,6) redirects_plain sub
    by (fastforce simp: font_entry_def font_link_def font_dest_def snprintf_def dest: in_set_takeD)
  from tokens_env_text [OF this] have t: "tokens (\<lambda>c. c = CHR '';'') out = map (font_entry fonts_dir cache_dir) ws" by (simp add: ws(2))
  have target: "wp_font_redirect_target wine_env (font_link fonts_dir r) =
      (if r \<in> set ws then Some (font_dest cache_dir r) else None)" if "r \<in> set REDIRECTS" for r
  proof (cases "out = []")
    case True
    then have "ws = []" using t by simp
    then show ?thesis using assms(7) True by (simp add: wp_font_redirect_target_def)
  next
    case False
    then show ?thesis using assms(7) find_redirect_entries [OF len(1) assms(4) that sub, of cache_dir]
      by (simp add: wp_font_redirect_target_def t)
  qed
  show ?thesis by (rule exI [of _ ws]) (use ws target in \<open>auto simp: symlink_def\<close>)
qed

text \<open>
  C19. The redirections that the daemon passes on are the ones that the preloaded library applies:
  the value of the variable is a list of entries for some of the seven fonts; for a font with an entry, a link to
  it in the fonts directory of Windows is made to the file in the cache that holds a font of the
  system, renamed to the family and style of the font it replaces, and for the others the link is
  left as Wine asked for it. With the buffer of 16384 bytes that the daemon uses, no font is left out
  for which the system has a readable font that can be renamed and written.
\<close>

theorem fonts_redirected_to_renamed:
  assumes "wp_wine_fonts_dir env fv 1024 = Some fonts_dir" and "wp_font_cache_dir env 1024 = Some cache_dir"
    and "wp_fonts_env_value env fv fc writable out_len files = Some (Some out, files')"
    and "CHR ''='' \<notin> set fonts_dir" and "CHR '';'' \<notin> set fonts_dir" and "CHR '';'' \<notin> set cache_dir"
    and "wine_env ''WALLPIPER_FONT_REDIRECTS'' = Some out"
  shows "\<exists>ws. subseq ws REDIRECTS \<and> out = env_text (map (font_entry fonts_dir cache_dir) ws) \<and> (\<forall>r \<in> set REDIRECTS.
     if r \<in> set ws
     then symlink wine_env target (font_link fonts_dir r) = (font_dest cache_dir r, font_link fonts_dir r) \<and>
          written_font (detect_targets fc) cache_dir files' r
     else symlink wine_env target (font_link fonts_dir r) = (target, font_link fonts_dir r) \<and>
          (16384 \<le> out_len \<longrightarrow> \<not> renamable writable (detect_targets fc) cache_dir files r))"
  using assms by (rule fonts_redirected)

text \<open>Only a serif font is found.\<close>

definition demo_fc :: "string \<Rightarrow> bool \<times> string" where
  "demo_fc query = (query = ''serif'', ''/f.ttf'' @ [TAB] @ ''0'' @ [LF])"

definition demo_font_files :: font_files where
  "demo_font_files = [''/f.ttf'' \<mapsto> demo_font]"

definition demo_fonts_dir :: string where
  "demo_fonts_dir = ''/s/steamapps/compatdata/431960/pfx/drive_c/windows/Fonts''"

definition demo_cache_dir :: string where
  "demo_cache_dir = ''/h/.cache/wallpiper/fonts''"

lemma demo_rewrite: "\<exists>bytes. wp_font_rewrite_name demo_font 0 family subfamily = Some (Some bytes)"
proof -
  have "\<forall>t \<in> set demo_tables. table_ok t"
    using demo_heads(1) read_tables_tags [OF demo_read] by (simp add: table_ok_def)
  from serialize_writes [OF replace_name_ok [OF this, where d = "build_name_table family subfamily"], where v = "0x10000"]
  show ?thesis by (auto simp: wp_font_rewrite_name_def demo_face demo_read)
qed

lemma demo_env_value:
  assumes "wp_wine_fonts_dir env fv 1024 = Some demo_fonts_dir" and "wp_font_cache_dir env 1024 = Some demo_cache_dir"
  shows "\<exists>out files'. wp_fonts_env_value env fv demo_fc (\<lambda>_. True) 16384 demo_font_files = Some (Some out, files')"
proof -
  have t: "detect_targets demo_fc = \<lparr>ft_sans_regular = None, ft_sans_bold = None,
      ft_serif_regular = Some \<lparr>fs_path = ''/f.ttf'', fs_index = 0\<rparr>, ft_mono_regular = None, ft_mono_bold = None\<rparr>"
    by (simp add: detect_targets_def fc_match_def demo_fc_def cut_at_def cstr_def rtrim_def Let_def atoul_def strtoul_def
        strto_def strip_sign_def strip_0x_def is_space_def digit_in_def digit_of_def digits_val_def)
  obtain bytes where "wp_font_rewrite_name demo_font 0 ''Times New Roman'' ''Regular'' = Some (Some bytes)"
    using demo_rewrite by blast
  with assms show ?thesis
    by (auto simp: wp_fonts_env_value_def REDIRECTS_def redirect_def add_redirect_def t targets_get_def write_renamed_def
        demo_font_files_def Let_def)
qed

definition demo_font_vars :: environ where
  "demo_font_vars = demo_vars(''HOME'' := Some ''/h'')"

lemma demo_font_dirs:
  "wp_wine_fonts_dir demo_font_vars demo_files 1024 = Some demo_fonts_dir"
  "wp_font_cache_dir demo_font_vars 1024 = Some demo_cache_dir"
  by (simp_all add: wp_wine_fonts_dir_def wp_font_cache_dir_def wp_compatdata_dir_def wp_steam_root_def wp_home_dir_def
      demo_font_vars_def demo_vars_def env_path_def and_then_def formatted_def fmt_ok_def snprintf_def
      demo_fonts_dir_def demo_cache_dir_def WALLPAPER_ENGINE_APP_ID_def)

theorem fonts_redirected_to_renamed_witness:
  "\<exists>out files'. wp_fonts_env_value demo_font_vars demo_files demo_fc (\<lambda>_. True) 16384 demo_font_files = Some (Some out, files') \<and>
    (\<exists>ws. subseq ws REDIRECTS \<and> out = env_text (map (font_entry demo_fonts_dir demo_cache_dir) ws) \<and> (\<forall>r \<in> set REDIRECTS.
     if r \<in> set ws
     then symlink (\<lambda>_. Some out) ''t'' (font_link demo_fonts_dir r) = (font_dest demo_cache_dir r, font_link demo_fonts_dir r) \<and>
          written_font (detect_targets demo_fc) demo_cache_dir files' r
     else symlink (\<lambda>_. Some out) ''t'' (font_link demo_fonts_dir r) = (''t'', font_link demo_fonts_dir r) \<and>
          (16384 \<le> (16384 :: nat) \<longrightarrow> \<not> renamable (\<lambda>_. True) (detect_targets demo_fc) demo_cache_dir demo_font_files r)))"
proof -
  obtain out files' where e:
    "wp_fonts_env_value demo_font_vars demo_files demo_fc (\<lambda>_. True) 16384 demo_font_files = Some (Some out, files')"
    using demo_env_value [OF demo_font_dirs] by blast
  have "CHR ''='' \<notin> set demo_fonts_dir" "CHR '';'' \<notin> set demo_fonts_dir" "CHR '';'' \<notin> set demo_cache_dir"
    by (simp_all add: demo_fonts_dir_def demo_cache_dir_def)
  note t = fonts_redirected_to_renamed [where wine_env = "\<lambda>_. Some out" and target = "''t''", OF demo_font_dirs e this refl]
  show ?thesis by (rule exI [of _ out], rule exI [of _ files'], rule conjI [OF e t])
qed

end
