(* ===== verification/WP_Tray_Files.thy ===== *)
theory WP_Tray_Files
  imports WP_Steam_Paths "HOL-Library.Monad_Syntax"
begin

unbundle bit_operations_syntax

text \<open>
  The files through which the tray icon of Wallpaper Engine reaches the daemon: what the code in the
  Windows process writes (\<^verbatim>\<open>loader/coff/menu.c\<close>, \<^verbatim>\<open>loader/coff/tray.c\<close>), how the daemon
  reads it (\<^verbatim>\<open>programs/wallpiperd/tray_files.c\<close>), and the two trigger files of the other direction
  (\<^verbatim>\<open>loader/coff/ipc_triggers.c\<close>). A menu of Windows is a tree; what the Windows functions answer is
  part of it. Text is a list of bytes.
\<close>

section \<open>The entries of the menu\<close>

definition WP_TRAY_MAX_ENTRIES :: nat where "WP_TRAY_MAX_ENTRIES = 512"

record wp_tray_entry =
  te_depth :: int
  te_id :: u32
  te_state :: u32
  te_type_flags :: u32
  te_text :: string
  te_dbus_id :: int

text \<open>The conversions of the C code to 32 bits.\<close>

definition to_i32 :: "int \<Rightarrow> int" where
  "to_i32 i = sint (word_of_int i :: i32)"

definition to_u32 :: "u64 \<Rightarrow> u32" where
  "to_u32 v = ucast v"

definition parse_hex_field :: "string \<Rightarrow> u32 option" where
  "parse_hex_field s =
     (if 32 \<le> length s then None
      else let p = (if starts_with ''0x'' s \<or> starts_with ''0X'' s then drop 2 s else s)
           in map_option (\<lambda>(v, _). to_u32 v) (strtoul 16 p))"

text \<open>The text before a tab and the text after it, if there is one.\<close>

definition cut_tab :: "string \<Rightarrow> (string \<times> string) option" where
  "cut_tab s = (if TAB \<in> set s then Some (takeWhile (\<lambda>c. c \<noteq> TAB) s, tl (dropWhile (\<lambda>c. c \<noteq> TAB) s)) else None)"

definition parse_menu_line :: "string \<Rightarrow> wp_tray_entry option" where
  "parse_menu_line line =
     do {
       (depth_buf, r1) \<leftarrow> cut_tab line;
       (id_buf, r2) \<leftarrow> cut_tab r1;
       (state_buf, r3) \<leftarrow> cut_tab r2;
       (type_buf, txt) \<leftarrow> cut_tab r3;
       if 32 \<le> length depth_buf \<or> 32 \<le> length id_buf then None
       else do {
         state_v \<leftarrow> parse_hex_field state_buf;
         type_v \<leftarrow> parse_hex_field type_buf;
         (depth_v, _) \<leftarrow> strtol 10 depth_buf;
         (id_v, _) \<leftarrow> strtoul 10 id_buf;
         Some \<lparr>te_depth = to_i32 depth_v, te_id = to_u32 id_v, te_state = state_v, te_type_flags = type_v,
               te_text = take 255 txt, te_dbus_id = 0\<rparr>
       }
     }"

definition strip_cr :: "string \<Rightarrow> string" where
  "strip_cr line = (if line \<noteq> [] \<and> last line = CR then butlast line else line)"

definition add_menu_line :: "wp_tray_entry list \<Rightarrow> string \<Rightarrow> wp_tray_entry list" where
  "add_menu_line out line =
     (let line' = strip_cr line in
      if line' \<noteq> [] \<and> length out < WP_TRAY_MAX_ENTRIES
      then (case parse_menu_line line' of None \<Rightarrow> out | Some e \<Rightarrow> out @ [e]) else out)"

function parse_menu_lines :: "string \<Rightarrow> wp_tray_entry list \<Rightarrow> wp_tray_entry list" where
  "parse_menu_lines s out =
     (if s = [] then out
      else let out' = add_menu_line out (takeWhile (\<lambda>c. c \<noteq> LF) s)
           in case dropWhile (\<lambda>c. c \<noteq> LF) s of
                [] \<Rightarrow> out'
              | _ # rest \<Rightarrow> parse_menu_lines rest out')"
  by pat_completeness auto
termination
proof (relation "measure (length \<circ> fst)", goal_cases)
  case (2 s out out' c rest)
  have "length (dropWhile (\<lambda>c. c \<noteq> LF) s) \<le> length s" by (rule length_dropWhile_le)
  with 2 show ?case by simp
qed simp

declare parse_menu_lines.simps [simp del]

definition wp_tray_parse_menu_dump :: "string \<Rightarrow> wp_tray_entry list" where
  "wp_tray_parse_menu_dump text = parse_menu_lines (cstr text) []"

section \<open>Writing the menu\<close>

text \<open>
  A menu of Windows: every item with what \<^verbatim>\<open>GetMenuItemInfoW\<close> reports of it (or nothing, when
  it fails) and its text in UTF-8 (nothing, when it does not fit in 255 bytes).
\<close>

datatype win_item =
    Unreadable
  | Win_Item (wi_id: u32) (wi_state: u32) (wi_type: u32) (wi_text: "string option") (wi_sub: "win_item list option")

definition MENU_BUF :: nat where "MENU_BUF = 16384"

definition append_str :: "string \<Rightarrow> string \<Rightarrow> string" where
  "append_str buf s = (if MENU_BUF \<le> length buf + length s then buf else buf @ s)"

definition hex_digit :: "nat \<Rightarrow> char" where
  "hex_digit d = (if d < 10 then char_of (48 + d) else char_of (87 + d))"

fun show_hex :: "nat \<Rightarrow> string" where
  "show_hex n = (if n < 16 then [hex_digit n] else show_hex (n div 16) @ [hex_digit (n mod 16)])"

declare show_hex.simps [simp del]

definition menu_text :: "string option \<Rightarrow> string" where
  "menu_text t =
     (case t of None \<Rightarrow> [] | Some s \<Rightarrow> map (\<lambda>c. if c = TAB \<or> c = LF \<or> c = CR then SP else c) s)"

definition menu_line :: "nat \<Rightarrow> u32 \<Rightarrow> u32 \<Rightarrow> u32 \<Rightarrow> string option \<Rightarrow> string" where
  "menu_line depth i st ty t =
     show_nat depth @ TAB # show_u32 i @ TAB # ''0x'' @ show_hex (unat st) @ TAB # ''0x'' @ show_hex (unat ty) @
     TAB # menu_text t @ [LF]"

fun serialize_items :: "nat \<Rightarrow> win_item list \<Rightarrow> string \<Rightarrow> string" where
  "serialize_items depth [] buf = buf"
| "serialize_items depth (Unreadable # items) buf = serialize_items depth items buf"
| "serialize_items depth (Win_Item i st ty t sub # items) buf =
     (let buf1 = append_str buf (menu_line depth i st ty t);
          buf2 = (case sub of None \<Rightarrow> buf1
                  | Some m \<Rightarrow> if 4 < depth + 1 then buf1 else serialize_items (depth + 1) m buf1)
      in serialize_items depth items buf2)"

definition serialize_menu :: "win_item list option \<Rightarrow> nat \<Rightarrow> string \<Rightarrow> string" where
  "serialize_menu m depth buf =
     (case m of None \<Rightarrow> buf | Some items \<Rightarrow> if 4 < depth then buf else serialize_items depth items buf)"

section \<open>The icon\<close>

definition u32le :: "u32 \<Rightarrow> u8 list" where
  "u32le v = [ucast v, ucast (drop_bit 8 v), ucast (drop_bit 16 v), ucast (drop_bit 24 v)]"

definition u64le :: "u64 \<Rightarrow> u8 list" where
  "u64le v = u32le (ucast v) @ u32le (ucast (drop_bit 32 v))"

text \<open>Reading outside of a buffer is \<^term>\<open>None\<close>.\<close>

definition byte_at :: "u8 list \<Rightarrow> nat \<Rightarrow> u8 option" where
  "byte_at buf i = (if i < length buf then Some (buf ! i) else None)"

definition read_u32le :: "u8 list \<Rightarrow> nat \<Rightarrow> u32 option" where
  "read_u32le buf off =
     do {
       b0 \<leftarrow> byte_at buf off; b1 \<leftarrow> byte_at buf (off + 1); b2 \<leftarrow> byte_at buf (off + 2); b3 \<leftarrow> byte_at buf (off + 3);
       Some (ucast b0 OR push_bit 8 (ucast b1) OR push_bit 16 (ucast b2) OR push_bit 24 (ucast b3))
     }"

text \<open>The 64-bit arithmetic of \<open>size_t\<close>.\<close>

definition size_t :: "nat \<Rightarrow> nat" where
  "size_t n = n mod 2 ^ 64"

record wp_tray_icon =
  ic_width :: int
  ic_height :: int
  ic_tooltip :: "u8 list"
  ic_pixels_argb :: "u8 list"

text \<open>An icon has four bytes for each of its pixels.\<close>

definition icon_ok :: "wp_tray_icon \<Rightarrow> bool" where
  "icon_ok ic \<longleftrightarrow> 0 \<le> ic_width ic \<and> 0 \<le> ic_height ic \<and> length (ic_tooltip ic) \<le> 255 \<and>
     length (ic_pixels_argb ic) = 4 * (nat (ic_width ic) * nat (ic_height ic))"

definition TRAY_MAGIC :: u32 where "TRAY_MAGIC = 0x59415254"

definition copy_bytes :: "u8 list \<Rightarrow> nat \<Rightarrow> nat \<Rightarrow> u8 list option" where
  "copy_bytes buf start n = (if start + n \<le> length buf then Some (take n (drop start buf)) else None)"

definition argb_pixel :: "u8 list \<Rightarrow> nat \<Rightarrow> nat \<Rightarrow> u8 list option" where
  "argb_pixel buf start i =
     do {
       b \<leftarrow> byte_at buf (start + i * 4); g \<leftarrow> byte_at buf (start + i * 4 + 1);
       r \<leftarrow> byte_at buf (start + i * 4 + 2); a \<leftarrow> byte_at buf (start + i * 4 + 3);
       Some [a, r, g, b]
     }"

text \<open>The outer option is a read outside of the buffer, the inner one a file that is rejected.\<close>

definition wp_tray_parse_icon_file :: "u8 list \<Rightarrow> wp_tray_icon option option" where
  "wp_tray_parse_icon_file buf =
     (if length buf < 36 then Some None
      else do {
        magic \<leftarrow> read_u32le buf 0;
        if magic \<noteq> TRAY_MAGIC then Some None
        else do {
          w \<leftarrow> read_u32le buf 24;
          h \<leftarrow> read_u32le buf 28;
          tooltip_len \<leftarrow> read_u32le buf 32;
          if length buf < size_t (36 + unat tooltip_len) then Some None
          else do {
            tooltip \<leftarrow> copy_bytes buf 36 (if 256 \<le> unat tooltip_len then 255 else unat tooltip_len);
            if sint w < 0 \<or> sint h < 0 then Some None
            else let pixels_start = size_t (36 + unat tooltip_len);
                     pixel_count = size_t (nat (sint w) * nat (sint h));
                     pixel_bytes = size_t (pixel_count * 4)
                 in if length buf < size_t (pixels_start + pixel_bytes) then Some None
                    else do {
                      argb \<leftarrow> those (map (argb_pixel buf pixels_start) [0..<pixel_count]);
                      Some (Some \<lparr>ic_width = sint w, ic_height = sint h, ic_tooltip = tooltip,
                                  ic_pixels_argb = concat argb\<rparr>)
                    }
          }
        }
      })"

text \<open>
  The icon as Windows gives it to \<^verbatim>\<open>Shell_NotifyIconW\<close>: the picture, when all calls for it
  succeed, with the blue, green, red and alpha bytes of its pixels, and the UTF-8 tooltip when it
  fits.
\<close>

record win_icon =
  wc_flags :: u32
  wc_version :: u32
  wc_hwnd :: u64
  wc_uid :: u32
  wc_callback_msg :: u32
  wc_picture :: "(i32 \<times> i32 \<times> u8 list) option"
  wc_tooltip :: "u8 list option"

definition icon_file_bytes :: "win_icon \<Rightarrow> i32 \<Rightarrow> i32 \<Rightarrow> u8 list \<Rightarrow> u8 list" where
  "icon_file_bytes nid width height pixels =
     (let tooltip = (case wc_tooltip nid of None \<Rightarrow> [] | Some t \<Rightarrow> t)
      in u32le TRAY_MAGIC @ u32le 1 @ u64le (wc_hwnd nid) @ u32le (wc_uid nid) @ u32le (wc_callback_msg nid) @
         u32le width @ u32le height @ u32le (of_nat (length tooltip)) @ tooltip @
         take (unat (width * height * 4)) pixels)"

section \<open>The shared files and the code in the Windows process\<close>

record tray_shared =
  sf_menu :: "string option"
  sf_icon :: "u8 list option"
  sf_click :: "u8 list option"
  sf_command :: "u8 list option"

record posted_message =
  pm_hwnd :: u64
  pm_msg :: u32
  pm_wparam :: u64
  pm_lparam :: u64

record shim_state =
  sh_tray_hwnd :: u64
  sh_tray_uid :: u32
  sh_callback_msg :: u32
  sh_version_4 :: bool
  sh_menu_owner :: u64
  sh_root_menu :: u64
  sh_pending_wrapper :: u64
  sh_posted :: "posted_message list"

definition shim_init :: shim_state where
  "shim_init = \<lparr>sh_tray_hwnd = 0, sh_tray_uid = 0, sh_callback_msg = 0, sh_version_4 = False, sh_menu_owner = 0,
     sh_root_menu = 0, sh_pending_wrapper = 0, sh_posted = []\<rparr>"

definition NIF_ICON :: u32 where "NIF_ICON = 2"
definition NIM_ADD :: u32 where "NIM_ADD = 0"
definition NIM_MODIFY :: u32 where "NIM_MODIFY = 1"
definition NIM_SETVERSION :: u32 where "NIM_SETVERSION = 4"
definition NOTIFYICON_VERSION_4 :: u32 where "NOTIFYICON_VERSION_4 = 4"
definition WM_COMMAND :: u32 where "WM_COMMAND = 0x111"
definition WM_CONTEXTMENU :: u16 where "WM_CONTEXTMENU = 0x7B"
definition WM_LBUTTONUP :: u32 where "WM_LBUTTONUP = 0x202"
definition WM_RBUTTONUP :: u32 where "WM_RBUTTONUP = 0x205"
definition NIN_SELECT :: u16 where "NIN_SELECT = 0x400"

definition make_long :: "u16 \<Rightarrow> u16 \<Rightarrow> u64" where
  "make_long l h = ucast ((ucast l OR push_bit 16 (ucast h)) :: u32)"

text \<open>\<open>writable\<close> tells whether the variable with the path is set and the file can be created.\<close>

definition write_tray_icon_file ::
  "bool \<Rightarrow> win_icon \<Rightarrow> shim_state \<times> tray_shared \<Rightarrow> shim_state \<times> tray_shared" where
  "write_tray_icon_file writable nid s =
     (case s of (sh, files) \<Rightarrow>
        if \<not> writable \<or> wc_flags nid AND NIF_ICON = 0 then s
        else case wc_picture nid of
               None \<Rightarrow> s
             | Some (width, height, pixels) \<Rightarrow>
                 (sh\<lparr>sh_tray_hwnd := wc_hwnd nid, sh_tray_uid := wc_uid nid, sh_callback_msg := wc_callback_msg nid\<rparr>,
                  files\<lparr>sf_icon := Some (icon_file_bytes nid width height pixels)\<rparr>))"

definition fake_Shell_NotifyIconW ::
  "bool \<Rightarrow> u32 \<Rightarrow> win_icon option \<Rightarrow> shim_state \<times> tray_shared \<Rightarrow> shim_state \<times> tray_shared" where
  "fake_Shell_NotifyIconW writable dwMessage nid s =
     (case nid of
        None \<Rightarrow> s
      | Some n \<Rightarrow>
          let s1 = (if dwMessage = NIM_SETVERSION
                    then ((fst s)\<lparr>sh_version_4 := (NOTIFYICON_VERSION_4 \<le> wc_version n)\<rparr>, snd s) else s)
          in if dwMessage = NIM_ADD \<or> dwMessage = NIM_MODIFY then write_tray_icon_file writable n s1 else s1)"

definition post :: "u64 \<Rightarrow> u32 \<Rightarrow> u64 \<Rightarrow> u64 \<Rightarrow> shim_state \<Rightarrow> shim_state" where
  "post hwnd msg wp lp sh =
     sh\<lparr>sh_posted := sh_posted sh @ [\<lparr>pm_hwnd = hwnd, pm_msg = msg, pm_wparam = wp, pm_lparam = lp\<rparr>]\<rparr>"

definition post_tray_click :: "i32 \<times> i32 \<Rightarrow> bool \<Rightarrow> shim_state \<Rightarrow> shim_state" where
  "post_tray_click pt is_right_click sh =
     (if sh_tray_hwnd sh = 0 then sh
      else if sh_version_4 sh
      then post (sh_tray_hwnd sh) (sh_callback_msg sh) (make_long (ucast (fst pt)) (ucast (snd pt)))
             (make_long (if is_right_click then WM_CONTEXTMENU else NIN_SELECT) (ucast (sh_tray_uid sh))) sh
      else post (sh_tray_hwnd sh) (sh_callback_msg sh) (ucast (sh_tray_uid sh))
             (ucast (if is_right_click then WM_RBUTTONUP else WM_LBUTTONUP)) sh)"

text \<open>The first four bytes of a trigger file; a shorter file is read in part only.\<close>

definition trigger_value :: "u8 list \<Rightarrow> u32 option" where
  "trigger_value bytes = (if length bytes < 4 then None else read_u32le bytes 0)"

definition handle_click_trigger :: "i32 \<times> i32 \<Rightarrow> shim_state \<times> tray_shared \<Rightarrow> shim_state \<times> tray_shared" where
  "handle_click_trigger pt s =
     (case s of (sh, files) \<Rightarrow>
        case sf_click files of
          None \<Rightarrow> s
        | Some bytes \<Rightarrow>
            (case trigger_value bytes of
               None \<Rightarrow> sh
             | Some event_code \<Rightarrow> if sh_tray_hwnd sh = 0 then sh else post_tray_click pt (event_code \<noteq> 0) sh,
             files\<lparr>sf_click := None\<rparr>))"

definition handle_command_trigger :: "shim_state \<times> tray_shared \<Rightarrow> shim_state \<times> tray_shared" where
  "handle_command_trigger s =
     (case s of (sh, files) \<Rightarrow>
        case sf_command files of
          None \<Rightarrow> s
        | Some bytes \<Rightarrow>
            (case trigger_value bytes of
               None \<Rightarrow> sh
             | Some command_id \<Rightarrow>
                 if sh_menu_owner sh = 0 then sh
                 else post (sh_menu_owner sh) WM_COMMAND (make_long (ucast command_id) 0) 0 sh,
             files\<lparr>sf_command := None\<rparr>))"

section \<open>The hooks of the menu functions\<close>

text \<open>
  \<open>menus\<close> is what Windows holds under the menu handles, after the real function has run; \<open>h\<close> and
  \<open>r\<close> are what it returned.
\<close>

type_synonym win_menus = "u64 \<Rightarrow> win_item list option"

definition dump_menu_to_file :: "bool \<Rightarrow> win_item list option \<Rightarrow> tray_shared \<Rightarrow> tray_shared" where
  "dump_menu_to_file writable m files =
     (if writable then files\<lparr>sf_menu := Some (serialize_menu m 0 [])\<rparr> else files)"

definition fake_TrackPopupMenu ::
  "bool \<Rightarrow> win_menus \<Rightarrow> u64 \<Rightarrow> u64 \<Rightarrow> shim_state \<times> tray_shared \<Rightarrow> shim_state \<times> tray_shared" where
  "fake_TrackPopupMenu writable menus hMenu hWnd s =
     ((fst s)\<lparr>sh_menu_owner := hWnd\<rparr>, dump_menu_to_file writable (menus hMenu) (snd s))"

definition fake_LoadMenuW :: "u64 \<Rightarrow> shim_state \<times> tray_shared \<Rightarrow> shim_state \<times> tray_shared" where
  "fake_LoadMenuW h s = (if h \<noteq> 0 then ((fst s)\<lparr>sh_pending_wrapper := h\<rparr>, snd s) else s)"

definition fake_GetSubMenu ::
  "bool \<Rightarrow> win_menus \<Rightarrow> u64 \<Rightarrow> u64 \<Rightarrow> shim_state \<times> tray_shared \<Rightarrow> shim_state \<times> tray_shared" where
  "fake_GetSubMenu writable menus hMenu h s =
     (if h \<noteq> 0 \<and> hMenu = sh_pending_wrapper (fst s)
      then ((fst s)\<lparr>sh_root_menu := h\<rparr>, dump_menu_to_file writable (menus h) (snd s)) else s)"

definition fake_InsertMenuW ::
  "bool \<Rightarrow> win_menus \<Rightarrow> bool \<Rightarrow> shim_state \<times> tray_shared \<Rightarrow> shim_state \<times> tray_shared" where
  "fake_InsertMenuW writable menus r s =
     (if r \<and> sh_root_menu (fst s) \<noteq> 0
      then (fst s, dump_menu_to_file writable (menus (sh_root_menu (fst s))) (snd s)) else s)"

definition fake_DestroyMenu ::
  "bool \<Rightarrow> win_menus \<Rightarrow> u64 \<Rightarrow> bool \<Rightarrow> shim_state \<times> tray_shared \<Rightarrow> shim_state \<times> tray_shared" where
  "fake_DestroyMenu writable menus hMenu r s =
     (if r \<and> hMenu = sh_root_menu (fst s) then ((fst s)\<lparr>sh_root_menu := 0\<rparr>, snd s)
      else if r \<and> sh_root_menu (fst s) \<noteq> 0
      then (fst s, dump_menu_to_file writable (menus (sh_root_menu (fst s))) (snd s)) else s)"

section \<open>The side of the daemon\<close>

definition wp_tray_write_click :: "environ \<Rightarrow> bool \<Rightarrow> u32 \<Rightarrow> tray_shared \<Rightarrow> tray_shared" where
  "wp_tray_write_click vars writable event_code files =
     (case wp_tray_click_path vars 1024 of
        None \<Rightarrow> files
      | Some _ \<Rightarrow> if writable then files\<lparr>sf_click := Some (u32le event_code)\<rparr> else files)"

definition wp_tray_send_menu_command :: "environ \<Rightarrow> bool \<Rightarrow> u32 \<Rightarrow> tray_shared \<Rightarrow> tray_shared" where
  "wp_tray_send_menu_command vars writable i files =
     (case wp_menu_command_path vars 1024 of
        None \<Rightarrow> files
      | Some _ \<Rightarrow> if writable then files\<lparr>sf_command := Some (u32le i)\<rparr> else files)"

definition split_dir_filename :: "string \<Rightarrow> nat \<Rightarrow> nat \<Rightarrow> string \<times> string" where
  "split_dir_filename path dir_out_len file_out_len =
     (case before_last CHR ''/'' path of
        None \<Rightarrow> (fst (snprintf dir_out_len ''/tmp''), fst (snprintf file_out_len path))
      | Some dir \<Rightarrow>
          (take (min (if length dir = 0 then 1 else length dir) (dir_out_len - 1)) path,
           fst (snprintf file_out_len (drop (length dir + 1) path))))"

text \<open>The kernel reports whole events; of each, the name field with its padding.\<close>

definition inotify_event_matches :: "string list \<Rightarrow> string \<Rightarrow> bool" where
  "inotify_event_matches names filename \<longleftrightarrow> (\<exists>name \<in> set names. name \<noteq> [] \<and> cstr name = filename)"

text \<open>The icon file: its time stamp (seconds, nanoseconds) and content, when it can be read.\<close>

definition try_load_icon ::
  "((int \<times> int) \<times> u8 list option) option \<Rightarrow> int \<times> int \<Rightarrow> (wp_tray_icon option \<times> (int \<times> int)) option" where
  "try_load_icon file last_mtime =
     (case file of
        None \<Rightarrow> Some (None, last_mtime)
      | Some (mtime, content) \<Rightarrow>
          if mtime = last_mtime then Some (None, last_mtime)
          else (case content of
                  None \<Rightarrow> Some (None, last_mtime)
                | Some buf \<Rightarrow>
                    (case wp_tray_parse_icon_file buf of
                       None \<Rightarrow> None
                     | Some None \<Rightarrow> Some (None, last_mtime)
                     | Some (Some icon) \<Rightarrow> Some (Some icon, mtime))))"

end
