(* ===== verification/WP_Tray_Menu.thy ===== *)
theory WP_Tray_Menu
  imports WP_Tray_Files
begin

unbundle bit_operations_syntax

text \<open>
  The tray icon of the daemon (\<^verbatim>\<open>programs/wallpiperd/tray_dbus.c\<close>): the state behind the mutex, the
  identifiers of the menu entries, the layout of the menu and the handlers of the D-Bus methods.
  libdbus is not modelled: a handler is a function from the arguments of the call to the values of
  the reply. What happens while a thread waits on the condition variable is an argument. Counters
  that only grow are numbers: the generation, 64 bits wide in the code, and the next identifier, of
  which the code keeps the low 32 bits as an \<^verbatim>\<open>int32_t\<close> (\<open>id_value\<close>).
\<close>

section \<open>State\<close>

definition WP_TRAY_MFT_SEPARATOR :: u32 where "WP_TRAY_MFT_SEPARATOR = 0x800"
definition WP_TRAY_MFS_DISABLED :: u32 where "WP_TRAY_MFS_DISABLED = 3"
definition WP_TRAY_MFS_CHECKED :: u32 where "WP_TRAY_MFS_CHECKED = 8"
definition WP_TRAY_MAX_MENU_DEPTH :: nat where "WP_TRAY_MAX_MENU_DEPTH = 8"
definition WP_TRAY_MAX_ID_SLOTS :: nat where "WP_TRAY_MAX_ID_SLOTS = 2048"
definition MENU_REFRESH_TIMEOUT_SEC :: int where "MENU_REFRESH_TIMEOUT_SEC = 8"
definition MENU_REFRESH_RETRY_INTERVAL_SEC :: int where "MENU_REFRESH_RETRY_INTERVAL_SEC = 1"

record wp_tray_id_slot =
  is_separator :: bool
  is_depth :: nat
  is_anchor :: u32
  is_ordinal :: u32
  is_dbus_id :: int

text \<open>What the daemon sends: clicks and menu commands to Windows, signals to the bus.\<close>

datatype tray_output =
    Click u32
  | Menu_Command u32
  | Layout_Updated u32
  | New_Icon
  | New_ToolTip

record wp_tray_state =
  tr_icon :: "(int \<times> int \<times> u8 list) option"
  tr_tooltip :: "u8 list"
  tr_entries :: "wp_tray_entry list"
  tr_generation :: nat
  tr_revision :: u32
  tr_refresh_in_progress :: bool
  tr_id_slots :: "wp_tray_id_slot list"
  tr_next_dbus_id :: int
  tr_out :: "tray_output list"

definition tray_init :: wp_tray_state where
  "tray_init = \<lparr>tr_icon = None, tr_tooltip = [], tr_entries = [], tr_generation = 0, tr_revision = 0,
     tr_refresh_in_progress = False, tr_id_slots = [], tr_next_dbus_id = 1, tr_out = []\<rparr>"

definition emit :: "tray_output \<Rightarrow> wp_tray_state \<Rightarrow> wp_tray_state" where
  "emit x st = st\<lparr>tr_out := tr_out st @ [x]\<rparr>"

section \<open>Identifiers of the entries\<close>

type_synonym id_key = "bool \<times> nat \<times> u32 \<times> u32"
type_synonym id_table = "wp_tray_id_slot list \<times> int"

definition slot_key :: "wp_tray_id_slot \<Rightarrow> id_key" where
  "slot_key s = (is_separator s, is_depth s, is_anchor s, is_ordinal s)"

text \<open>
  The \<^verbatim>\<open>int32_t\<close> after so many increments. The one past the largest value is undefined in C; compiled
  code wraps around, and so does this.
\<close>

definition id_value :: "int \<Rightarrow> int" where
  "id_value n = sint (word_of_int n :: i32)"

definition assign_dbus_id :: "id_key \<Rightarrow> id_table \<Rightarrow> int \<times> id_table" where
  "assign_dbus_id key tab =
     (case tab of (slots, next_id) \<Rightarrow>
        case find_index (\<lambda>s. slot_key s = key) slots of
          Some i \<Rightarrow> (is_dbus_id (slots ! i), tab)
        | None \<Rightarrow>
            if WP_TRAY_MAX_ID_SLOTS \<le> length slots then (id_value next_id, slots, next_id + 1)
            else (case key of (sep, depth, anchor, ordinal) \<Rightarrow>
                    (id_value next_id, slots @ [\<lparr>is_separator = sep, is_depth = depth, is_anchor = anchor,
                       is_ordinal = ordinal, is_dbus_id = id_value next_id\<rparr>], next_id + 1)))"

definition clamp_depth :: "int \<Rightarrow> nat" where
  "clamp_depth d = (if d < 0 then 0 else if int WP_TRAY_MAX_MENU_DEPTH \<le> d then WP_TRAY_MAX_MENU_DEPTH - 1 else nat d)"

definition is_sep :: "wp_tray_entry \<Rightarrow> bool" where
  "is_sep e \<longleftrightarrow> te_type_flags e AND WP_TRAY_MFT_SEPARATOR \<noteq> 0"

text \<open>The deeper levels start anew.\<close>

definition reset_deeper :: "nat \<Rightarrow> u32 list \<Rightarrow> u32 list" where
  "reset_deeper depth xs = foldl (\<lambda>xs d. xs[d := 0]) xs [depth + 1..<WP_TRAY_MAX_MENU_DEPTH]"

definition entry_key :: "wp_tray_entry \<Rightarrow> u32 list \<times> u32 list \<Rightarrow> id_key \<times> u32 list \<times> u32 list" where
  "entry_key e st =
     (case st of (last0, ord0) \<Rightarrow>
        let depth = clamp_depth (te_depth e);
            last_nonsep = reset_deeper depth last0; sep_ordinal = reset_deeper depth ord0
        in if is_sep e
           then ((True, depth, last_nonsep ! depth, sep_ordinal ! depth),
                 last_nonsep, sep_ordinal[depth := sep_ordinal ! depth + 1])
           else ((False, depth, te_id e, 0), last_nonsep[depth := te_id e], sep_ordinal[depth := 0]))"

fun assign_ids :: "wp_tray_entry list \<Rightarrow> u32 list \<times> u32 list \<Rightarrow> id_table \<Rightarrow> wp_tray_entry list \<times> id_table" where
  "assign_ids [] st tab = ([], tab)"
| "assign_ids (e # es) st tab =
     (case entry_key e st of (key, st') \<Rightarrow>
        case assign_dbus_id key tab of (i, tab') \<Rightarrow>
          case assign_ids es st' tab' of (es', tab'') \<Rightarrow> (e\<lparr>te_dbus_id := i\<rparr> # es', tab''))"

definition assign_stable_dbus_ids :: "wp_tray_entry list \<Rightarrow> id_table \<Rightarrow> wp_tray_entry list \<times> id_table" where
  "assign_stable_dbus_ids es tab =
     assign_ids es (replicate WP_TRAY_MAX_MENU_DEPTH 0, replicate WP_TRAY_MAX_MENU_DEPTH 0) tab"

definition wp_tray_state_on_menu_dump_changed :: "wp_tray_entry list \<Rightarrow> wp_tray_state \<Rightarrow> wp_tray_state" where
  "wp_tray_state_on_menu_dump_changed entries st =
     (case assign_stable_dbus_ids entries (tr_id_slots st, tr_next_dbus_id st) of (es, slots, next_id) \<Rightarrow>
        st\<lparr>tr_entries := es, tr_id_slots := slots, tr_next_dbus_id := next_id,
           tr_generation := tr_generation st + 1\<rparr>)"

text \<open>One round of the menu watcher: the reported names and the text of the file.\<close>

definition menu_watcher_step :: "string list \<Rightarrow> string \<Rightarrow> string option \<Rightarrow> wp_tray_state \<Rightarrow> wp_tray_state" where
  "menu_watcher_step names filename content st =
     (if \<not> inotify_event_matches names filename then st
      else case content of
             None \<Rightarrow> st
           | Some text \<Rightarrow>
               let entries = wp_tray_parse_menu_dump text
               in if entries = [] then st else wp_tray_state_on_menu_dump_changed entries st)"

section \<open>Waiting for a fresh menu\<close>

text \<open>
  The end of one wait: the dumps published while it lasted, whether it timed out, the dumps
  published while the lock is released for another click, the time after that (nanoseconds), and
  whether the refresh of another thread has ended.
\<close>

record wait_result =
  wr_dumps :: "wp_tray_entry list list"
  wr_timeout :: bool
  wr_click_dumps :: "wp_tray_entry list list"
  wr_now :: int
  wr_other_done :: bool

abbreviation NS :: int where "NS \<equiv> 1000000000"

definition publish :: "wp_tray_entry list list \<Rightarrow> wp_tray_state \<Rightarrow> wp_tray_state" where
  "publish dumps st = foldl (\<lambda>st es. wp_tray_state_on_menu_dump_changed es st) st dumps"

text \<open>\<^term>\<open>None\<close>: the thread still waits when the given waits are over.\<close>

fun await_dump :: "int \<Rightarrow> nat \<Rightarrow> int \<Rightarrow> wait_result list \<Rightarrow> wp_tray_state \<Rightarrow>
    (bool \<times> wait_result list \<times> wp_tray_state) option" where
  "await_dump deadline start now [] st = (if tr_generation st \<noteq> start then Some (False, [], st) else None)"
| "await_dump deadline start now (w # ws) st =
     (if tr_generation st \<noteq> start then Some (False, w # ws, st)
      else let final_wait = (deadline \<le> now + MENU_REFRESH_RETRY_INTERVAL_SEC * NS);
               st1 = publish (wr_dumps w) st
           in if tr_generation st1 \<noteq> start then Some (False, ws, st1)
              else if final_wait then Some (True, ws, st1)
              else await_dump deadline start (wr_now w) ws
                     (if wr_timeout w then publish (wr_click_dumps w) (emit (Click 1) st1) else st1))"

fun settle :: "wait_result list \<Rightarrow> wp_tray_state \<Rightarrow> (wait_result list \<times> wp_tray_state) option" where
  "settle [] st = None"
| "settle (w # ws) st =
     (let st1 = publish (wr_dumps w) st
      in if tr_generation st1 \<noteq> tr_generation st then settle ws st1
         else if wr_timeout w then Some (ws, st1) else settle ws st1)"

fun piggyback :: "wait_result list \<Rightarrow> wp_tray_state \<Rightarrow> (bool \<times> wait_result list \<times> wp_tray_state) option" where
  "piggyback [] st = None"
| "piggyback (w # ws) st =
     (let st1 = publish (wr_dumps w) st
      in if wr_other_done w
         then Some (tr_entries st1 \<noteq> [], ws, st1\<lparr>tr_refresh_in_progress := False\<rparr>)
         else piggyback ws st1)"

text \<open>\<open>early\<close> are the dumps published while the first click is written, before the lock is taken again.\<close>

definition refresh_menu_from_win32 ::
  "int \<Rightarrow> wp_tray_entry list list \<Rightarrow> wait_result list \<Rightarrow> wp_tray_state \<Rightarrow> (bool \<times> wait_result list \<times> wp_tray_state) option" where
  "refresh_menu_from_win32 now early ws st =
     (if tr_refresh_in_progress st then piggyback ws st
      else case await_dump (now + MENU_REFRESH_TIMEOUT_SEC * NS) (tr_generation st) now ws
                  (publish early (emit (Click 1) (st\<lparr>tr_refresh_in_progress := True\<rparr>))) of
             None \<Rightarrow> None
           | Some (True, ws1, st1) \<Rightarrow> Some (False, ws1, st1\<lparr>tr_refresh_in_progress := False\<rparr>)
           | Some (False, ws1, st1) \<Rightarrow>
               (case settle ws1 st1 of
                  None \<Rightarrow> None
                | Some (ws2, st2) \<Rightarrow>
                    let revision = tr_revision st2 + 1
                    in Some (True, ws2, emit (Layout_Updated revision)
                         (st2\<lparr>tr_revision := revision, tr_refresh_in_progress := False\<rparr>))))"

definition ensure_menu_populated ::
  "int \<Rightarrow> wp_tray_entry list list \<Rightarrow> wait_result list \<Rightarrow> wp_tray_state \<Rightarrow> (wait_result list \<times> wp_tray_state) option" where
  "ensure_menu_populated now early ws st =
     (if tr_entries st = []
      then map_option (\<lambda>(_, ws', st'). (ws', st')) (refresh_menu_from_win32 now early ws st)
      else Some (ws, st))"

section \<open>The layout of the menu\<close>

text \<open>The values of a D-Bus message that the service uses.\<close>

datatype variant =
    V_String string
  | V_Bool bool
  | V_Int32 int
  | V_Uint32 u32
  | V_Object_Path string
  | V_Strings "string list"
  | V_Pixmaps "(int \<times> int \<times> u8 list) list"
  | V_Tooltip "u8 list"

type_synonym properties = "(string \<times> variant) list"

record menu_node_props =
  np_label :: "string option"
  np_disabled :: bool
  np_separator :: bool
  np_checked :: bool
  np_submenu :: bool

definition no_props :: menu_node_props where
  "no_props = \<lparr>np_label = None, np_disabled = False, np_separator = False, np_checked = False, np_submenu = False\<rparr>"

definition compute_node_properties :: "wp_tray_entry option \<Rightarrow> bool \<Rightarrow> menu_node_props" where
  "compute_node_properties entry has_children =
     (case entry of
        None \<Rightarrow> no_props
      | Some e \<Rightarrow>
          if is_sep e then no_props\<lparr>np_separator := True\<rparr>
          else let label = cstr (te_text e)
               in \<lparr>np_label = (if label = [] then None else Some label),
                   np_disabled = (te_state e AND WP_TRAY_MFS_DISABLED \<noteq> 0),
                   np_separator = False,
                   np_checked = (\<not> has_children \<and> te_state e AND WP_TRAY_MFS_CHECKED \<noteq> 0),
                   np_submenu = has_children\<rparr>)"

definition append_node_properties :: "menu_node_props \<Rightarrow> properties" where
  "append_node_properties props =
     (if np_separator props then [(''type'', V_String ''separator'')]
      else (case np_label props of None \<Rightarrow> [] | Some l \<Rightarrow> [(''label'', V_String l)]) @
           (if np_disabled props then [(''enabled'', V_Bool False)] else []) @
           (if np_checked props then [(''toggle-type'', V_String ''checkmark''), (''toggle-state'', V_Int32 1)] else []) @
           (if np_submenu props then [(''children-display'', V_String ''submenu'')] else []))"

definition node_properties :: "wp_tray_entry option \<Rightarrow> bool \<Rightarrow> properties" where
  "node_properties entry has_children = append_node_properties (compute_node_properties entry has_children)"

datatype menu_node = Menu_Node (mn_id: int) (mn_props: properties) (mn_children: "menu_node list")

definition find_index_by_id :: "wp_tray_entry list \<Rightarrow> int \<Rightarrow> nat option" where
  "find_index_by_id entries i = find_index (\<lambda>e. te_dbus_id e = i) entries"

fun children_run_length :: "wp_tray_entry list \<Rightarrow> int \<Rightarrow> nat" where
  "children_run_length [] child_depth = 0"
| "children_run_length (e # es) child_depth =
     (if te_depth e \<noteq> child_depth then 0 else Suc (children_run_length es child_depth))"

lemma children_run_length_le: "children_run_length es d \<le> length es"
  by (induction es) auto

text \<open>
  The children from a start index on: \<open>es\<close> are the entries from there. Every child is followed by its
  own children, which are counted and skipped.
\<close>

definition has_children :: "wp_tray_entry list \<Rightarrow> int \<Rightarrow> bool" where
  "has_children es child_depth \<longleftrightarrow> es \<noteq> [] \<and> te_depth (hd es) = child_depth"

function build_children :: "wp_tray_entry list \<Rightarrow> int \<Rightarrow> int \<Rightarrow> menu_node list" where
  "build_children [] child_depth remaining = []"
| "build_children (e # es) child_depth remaining =
     (if te_depth e \<noteq> child_depth then []
      else Menu_Node (te_dbus_id e) (node_properties (Some e) (has_children es (child_depth + 1)))
             (if has_children es (child_depth + 1) \<and> remaining \<noteq> 0
              then build_children es (child_depth + 1) (if 0 < remaining then remaining - 1 else remaining) else []) #
           build_children (drop (children_run_length es (child_depth + 1)) es) child_depth remaining)"
  by pat_completeness auto
termination by (relation "measure (\<lambda>(es, _, _). length es)") auto

definition build_menu_node ::
  "wp_tray_entry list \<Rightarrow> wp_tray_entry option \<Rightarrow> int \<Rightarrow> nat \<Rightarrow> int \<Rightarrow> int \<Rightarrow> menu_node" where
  "build_menu_node entries entry i start_index child_depth remaining =
     (let es = drop start_index entries
      in Menu_Node i (node_properties entry (has_children es child_depth))
           (if has_children es child_depth \<and> remaining \<noteq> 0
            then build_children es child_depth (if 0 < remaining then remaining - 1 else remaining) else []))"

definition layout_of :: "wp_tray_entry list \<Rightarrow> int \<Rightarrow> int \<Rightarrow> menu_node option" where
  "layout_of entries parent_id recursion_depth =
     (if parent_id = 0 then Some (build_menu_node entries None 0 0 0 recursion_depth)
      else case find_index_by_id entries parent_id of
             None \<Rightarrow> None
           | Some idx \<Rightarrow> Some (build_menu_node entries (Some (entries ! idx)) parent_id (idx + 1)
                 (te_depth (entries ! idx) + 1) recursion_depth))"

section \<open>The handlers\<close>

datatype dbus_reply =
    Reply_Layout u32 menu_node
  | Reply_Group "(int \<times> properties) list"
  | Reply_Empty
  | Reply_Bool bool
  | Reply_Ints "int list"
  | Reply_Updates "int list" "int list"
  | Reply_Variant variant
  | Reply_Properties properties
  | Reply_Error string string

definition handle_menu_get_layout ::
  "int \<Rightarrow> wp_tray_entry list list \<Rightarrow> wait_result list \<Rightarrow> int \<Rightarrow> int \<Rightarrow> wp_tray_state \<Rightarrow>
   (dbus_reply \<times> wait_result list \<times> wp_tray_state) option" where
  "handle_menu_get_layout now early ws parent_id recursion_depth st =
     map_option (\<lambda>(ws', st').
       (case layout_of (tr_entries st') parent_id recursion_depth of
          None \<Rightarrow> Reply_Error ''org.freedesktop.DBus.Error.Failed'' ''parentId not found''
        | Some node \<Rightarrow> Reply_Layout (tr_revision st') node, ws', st'))
       (ensure_menu_populated now early ws st)"

definition group_properties :: "wp_tray_entry list \<Rightarrow> int \<Rightarrow> (int \<times> properties) list" where
  "group_properties entries i =
     (case find_index_by_id entries i of
        None \<Rightarrow> []
      | Some idx \<Rightarrow> [(i, node_properties (Some (entries ! idx))
            (has_children (drop (idx + 1) entries) (te_depth (entries ! idx) + 1)))])"

definition handle_menu_get_group_properties ::
  "int \<Rightarrow> wp_tray_entry list list \<Rightarrow> wait_result list \<Rightarrow> int list \<Rightarrow> wp_tray_state \<Rightarrow>
   (dbus_reply \<times> wait_result list \<times> wp_tray_state) option" where
  "handle_menu_get_group_properties now early ws ids st =
     map_option (\<lambda>(ws', st'). (Reply_Group (concat (map (group_properties (tr_entries st')) ids)), ws', st'))
       (ensure_menu_populated now early ws st)"

text \<open>The entry that a click reaches.\<close>

definition clicked_entry :: "wp_tray_entry list \<Rightarrow> int \<Rightarrow> wp_tray_entry option" where
  "clicked_entry entries i =
     (case find_index_by_id entries i of
        None \<Rightarrow> None
      | Some idx \<Rightarrow> if is_sep (entries ! idx) then None else Some (entries ! idx))"

definition handle_menu_event :: "int \<Rightarrow> string \<Rightarrow> wp_tray_state \<Rightarrow> dbus_reply \<times> wp_tray_state" where
  "handle_menu_event i event_id st =
     (Reply_Empty,
      if event_id = ''clicked'' \<and> i \<noteq> 0
      then (case clicked_entry (tr_entries st) i of None \<Rightarrow> st | Some e \<Rightarrow> emit (Menu_Command (te_id e)) st) else st)"

text \<open>At most 512 identifiers are reported.\<close>

fun event_group :: "wp_tray_entry list \<Rightarrow> (int \<times> string) list \<Rightarrow> int list \<Rightarrow> wp_tray_state \<Rightarrow> int list \<times> wp_tray_state" where
  "event_group entries [] error_ids st = (error_ids, st)"
| "event_group entries ((i, event_id) # evs) error_ids st =
     (case clicked_entry entries i of
        Some e \<Rightarrow> event_group entries evs error_ids
                   (if event_id = ''clicked'' then emit (Menu_Command (te_id e)) st else st)
      | None \<Rightarrow> event_group entries evs
                   (if length error_ids < WP_TRAY_MAX_ENTRIES then error_ids @ [i] else error_ids) st)"

definition handle_menu_event_group :: "(int \<times> string) list \<Rightarrow> wp_tray_state \<Rightarrow> dbus_reply \<times> wp_tray_state" where
  "handle_menu_event_group evs st =
     (case event_group (tr_entries st) evs [] st of (error_ids, st') \<Rightarrow> (Reply_Ints error_ids, st'))"

definition handle_menu_about_to_show ::
  "int \<Rightarrow> wp_tray_entry list list \<Rightarrow> wait_result list \<Rightarrow> wp_tray_state \<Rightarrow>
   (dbus_reply \<times> wait_result list \<times> wp_tray_state) option" where
  "handle_menu_about_to_show now early ws st =
     map_option (\<lambda>(changed, ws', st'). (Reply_Bool changed, ws', st')) (refresh_menu_from_win32 now early ws st)"

definition handle_menu_about_to_show_group ::
  "int \<Rightarrow> wp_tray_entry list list \<Rightarrow> wait_result list \<Rightarrow> int list \<Rightarrow> wp_tray_state \<Rightarrow>
   (dbus_reply \<times> wait_result list \<times> wp_tray_state) option" where
  "handle_menu_about_to_show_group now early ws ids st =
     map_option (\<lambda>(changed, ws', st').
       (Reply_Updates (if changed then take WP_TRAY_MAX_ENTRIES ids else []) [], ws', st'))
       (refresh_menu_from_win32 now early ws st)"

definition handle_menu_get_property :: dbus_reply where
  "handle_menu_get_property = Reply_Variant (V_Bool False)"

definition handle_sni_method :: "string \<Rightarrow> wp_tray_state \<Rightarrow> (dbus_reply \<times> wp_tray_state) option" where
  "handle_sni_method member st =
     (if member = ''Activate'' then Some (Reply_Empty, emit (Click 0) st)
      else if member = ''SecondaryActivate'' then Some (Reply_Empty, emit (Click 1) st)
      else if member = ''ContextMenu'' \<or> member = ''Scroll'' then Some (Reply_Empty, st)
      else None)"

definition wp_tray_state_on_icon_changed ::
  "int \<Rightarrow> wp_tray_entry list list \<Rightarrow> wait_result list \<Rightarrow> wp_tray_icon \<Rightarrow> wp_tray_state \<Rightarrow>
   (bool \<times> wait_result list \<times> wp_tray_state) option" where
  "wp_tray_state_on_icon_changed now early ws icon st =
     refresh_menu_from_win32 now early ws
       (emit New_ToolTip (emit New_Icon
         (st\<lparr>tr_icon := Some (ic_width icon, ic_height icon, ic_pixels_argb icon),
             tr_tooltip := take 255 (takeWhile (\<lambda>b. b \<noteq> 0) (ic_tooltip icon))\<rparr>)))"

section \<open>Properties of the two objects\<close>

definition icon_pixmaps :: "wp_tray_state \<Rightarrow> (int \<times> int \<times> u8 list) list" where
  "icon_pixmaps st =
     (case tr_icon st of
        None \<Rightarrow> []
      | Some (w, h, argb) \<Rightarrow> let n = to_i32 (w * h * 4) in [(w, h, if 0 < n then take (nat n) argb else [])])"

definition SNI_PROPERTY_NAMES :: "string list" where
  "SNI_PROPERTY_NAMES = [''Category'', ''Id'', ''Title'', ''Status'', ''WindowId'', ''IconThemePath'', ''Menu'',
     ''ItemIsMenu'', ''IconName'', ''IconPixmap'', ''OverlayIconName'', ''OverlayIconPixmap'', ''AttentionIconName'',
     ''AttentionIconPixmap'', ''AttentionMovieName'', ''ToolTip'']"

definition MENU_PROPERTY_NAMES :: "string list" where
  "MENU_PROPERTY_NAMES = [''Version'', ''TextDirection'', ''Status'', ''IconThemePath'']"

definition sni_append_property :: "wp_tray_state \<Rightarrow> string \<Rightarrow> variant option" where
  "sni_append_property st name =
     (if name = ''Category'' then Some (V_String ''ApplicationStatus'')
      else if name = ''Id'' then Some (V_String ''wallpiper'')
      else if name = ''Title'' then Some (V_String ''Wallpaper Engine'')
      else if name = ''Status'' then Some (V_String ''Active'')
      else if name = ''WindowId'' then Some (V_Int32 0)
      else if name = ''IconThemePath'' then Some (V_String '''')
      else if name = ''Menu'' then Some (V_Object_Path ''/MenuBar'')
      else if name = ''ItemIsMenu'' then Some (V_Bool False)
      else if name = ''IconName''
      then Some (V_String (if tr_icon st \<noteq> None then '''' else ''preferences-desktop-wallpaper''))
      else if name = ''IconPixmap'' then Some (V_Pixmaps (icon_pixmaps st))
      else if name = ''OverlayIconName'' then Some (V_String '''')
      else if name = ''OverlayIconPixmap'' then Some (V_Pixmaps [])
      else if name = ''AttentionIconName'' then Some (V_String '''')
      else if name = ''AttentionIconPixmap'' then Some (V_Pixmaps [])
      else if name = ''AttentionMovieName'' then Some (V_String '''')
      else if name = ''ToolTip'' then Some (V_Tooltip (tr_tooltip st))
      else None)"

definition menu_append_property :: "string \<Rightarrow> variant option" where
  "menu_append_property name =
     (if name = ''Version'' then Some (V_Uint32 3)
      else if name = ''TextDirection'' then Some (V_String ''ltr'')
      else if name = ''Status'' then Some (V_String ''normal'')
      else if name = ''IconThemePath'' then Some (V_Strings [])
      else None)"

definition handle_properties_get :: "bool \<Rightarrow> (string \<times> string) option \<Rightarrow> wp_tray_state \<Rightarrow> dbus_reply" where
  "handle_properties_get is_sni args st =
     (case args of
        None \<Rightarrow> Reply_Error ''org.freedesktop.DBus.Error.InvalidArgs'' ''expected (ss)''
      | Some (_, prop_name) \<Rightarrow>
          (case (if is_sni then sni_append_property st prop_name else menu_append_property prop_name) of
             None \<Rightarrow> Reply_Error ''org.freedesktop.DBus.Error.UnknownProperty'' prop_name
           | Some v \<Rightarrow> Reply_Variant v))"

definition handle_properties_get_all :: "bool \<Rightarrow> wp_tray_state \<Rightarrow> dbus_reply" where
  "handle_properties_get_all is_sni st =
     Reply_Properties (concat (map (\<lambda>name.
       case (if is_sni then sni_append_property st name else menu_append_property name) of
         None \<Rightarrow> [] | Some v \<Rightarrow> [(name, v)])
       (if is_sni then SNI_PROPERTY_NAMES else MENU_PROPERTY_NAMES)))"

section \<open>Reachable states\<close>

text \<open>The threads of the service: the watchers, and the dispatch of one D-Bus call at a time.\<close>

inductive tray_step :: "wp_tray_state \<Rightarrow> wp_tray_state \<Rightarrow> bool" where
  watcher: "tray_step st (menu_watcher_step names filename content st)"
| icon: "wp_tray_state_on_icon_changed now early ws ic st = Some (r, ws', st') \<Longrightarrow> icon_ok ic \<Longrightarrow> tray_step st st'"
| refresh: "refresh_menu_from_win32 now early ws st = Some (r, ws', st') \<Longrightarrow> tray_step st st'"
| layout: "handle_menu_get_layout now early ws parent depth st = Some (rep, ws', st') \<Longrightarrow> tray_step st st'"
| group: "handle_menu_get_group_properties now early ws ids st = Some (rep, ws', st') \<Longrightarrow> tray_step st st'"
| event: "tray_step st (snd (handle_menu_event i event_id st))"
| event_group: "tray_step st (snd (handle_menu_event_group evs st))"
| about_to_show: "handle_menu_about_to_show now early ws st = Some (rep, ws', st') \<Longrightarrow> tray_step st st'"
| about_to_show_group: "handle_menu_about_to_show_group now early ws ids st = Some (rep, ws', st') \<Longrightarrow> tray_step st st'"
| sni_method: "handle_sni_method member st = Some (rep, st') \<Longrightarrow> tray_step st st'"

inductive tray_reachable :: "wp_tray_state \<Rightarrow> bool" where
  tray_start: "tray_reachable tray_init"
| tray_next: "tray_reachable st \<Longrightarrow> tray_step st st' \<Longrightarrow> tray_reachable st'"

end
