(* ===== verification/WP_Tray_Text.thy ===== *)
theory WP_Tray_Text
  imports WP_Tray_Files "HOL-Library.Sublist"
begin

unbundle bit_operations_syntax

text \<open>
  What the daemon reads is what the code in the Windows process has written: the menu dump and the
  icon file. The parser of the icon file reads nothing outside of its buffer, whatever the file holds.
\<close>

section \<open>Hexadecimal numbers\<close>

lemma hex_digit_code: "d < 16 \<Longrightarrow> (of_char (hex_digit d) :: nat) = (if d < 10 then 48 + d else 87 + d)"
  by (simp add: hex_digit_def)

lemma hex_digit_neq: "d < 16 \<Longrightarrow> (of_char c :: nat) \<notin> {48..57} \<Longrightarrow> (of_char c :: nat) \<notin> {97..102} \<Longrightarrow> hex_digit d \<noteq> c"
  using hex_digit_code [of d] by (auto split: if_splits)

lemma hex_digit_facts: "d < 16 \<Longrightarrow> digit_of 16 (hex_digit d) = Some d \<and> \<not> is_space (hex_digit d) \<and>
    hex_digit d \<notin> {CHR ''-'', CHR ''+'', CHR ''x'', CHR ''X'', TAB, LF, CR, NUL}"
  using hex_digit_code [of d] hex_digit_neq [of d]
  by (auto simp: digit_of_def is_space_def Let_def)

lemma show_hex_digits: "c \<in> set (show_hex n) \<Longrightarrow> \<exists>d < 16. c = hex_digit d"
proof (induction n rule: show_hex.induct)
  case (1 n)
  have "n mod 16 < 16" by simp
  with 1 show ?case by (subst (asm) (2) show_hex.simps) (fastforce split: if_splits)
qed

lemma show_hex_nonempty [simp]: "show_hex n \<noteq> []"
  by (subst show_hex.simps) simp

lemma show_hex_chars:
  "c \<in> set (show_hex n) \<Longrightarrow> digit_in 16 c \<and> \<not> is_space c \<and>
     c \<notin> {CHR ''-'', CHR ''+'', CHR ''x'', CHR ''X'', TAB, LF, CR, NUL}"
  using hex_digit_facts by (fastforce simp: digit_in_def dest: show_hex_digits)

lemma digits_val_show_hex [simp]: "digits_val 16 (show_hex n) = n"
proof (induction n rule: show_hex.induct)
  case (1 n)
  show ?case
  proof (cases "n < 16")
    case True
    then show ?thesis using hex_digit_facts [of n] by (simp add: show_hex.simps [of n] digits_val_def)
  next
    case False
    then have "digits_val 16 (show_hex n) = 16 * (n div 16) + n mod 16"
      using "1.IH" hex_digit_facts [of "n mod 16"] by (subst show_hex.simps) (simp add: digits_val_snoc)
    then show ?thesis by simp
  qed
qed

lemma length_show_hex: "n < 16 ^ k \<Longrightarrow> 0 < k \<Longrightarrow> length (show_hex n) \<le> k"
proof (induction k arbitrary: n)
  case (Suc k)
  show ?case
  proof (cases "n < 16")
    case True
    then show ?thesis by (simp add: show_hex.simps [of n])
  next
    case False
    with Suc.prems have "0 < k" by (cases k) simp_all
    moreover have "n div 16 < 16 ^ k" using Suc.prems(1) by (simp add: less_mult_imp_div_less mult.commute)
    ultimately have "length (show_hex (n div 16)) \<le> k" by (intro Suc.IH)
    with False show ?thesis by (simp add: show_hex.simps [of n])
  qed
qed simp

lemma strto_show_hex: "strto 16 (show_hex n) = Some (False, n, [])"
proof -
  have c: "\<forall>c \<in> set (show_hex n). digit_in 16 c" "\<forall>c \<in> set (show_hex n). \<not> is_space c"
    using show_hex_chars by blast+
  obtain x xs where h: "show_hex n = x # xs" by (cases "show_hex n") auto
  have x: "\<not> is_space x" "x \<noteq> CHR ''-''" "x \<noteq> CHR ''+''" using show_hex_chars [of x n] h by auto
  have "\<not> starts_with ''0x'' (show_hex n)" "\<not> starts_with ''0X'' (show_hex n)"
    using show_hex_chars [of "CHR ''x''" n] show_hex_chars [of "CHR ''X''" n] by (auto simp: starts_with_iff)
  then have "strip_0x 16 (show_hex n) = show_hex n" by (simp add: strip_0x_def)
  moreover have "strip_sign (dropWhile is_space (show_hex n)) = (False, show_hex n)"
    using x by (simp add: h strip_sign_def)
  ultimately show ?thesis using c by (simp add: strto_def takeWhile_eq_all_conv [THEN iffD2] dropWhile_eq_Nil_conv [THEN iffD2])
qed

lemma unat_u32_less: "unat (w :: u32) < 2 ^ 64"
  using unsigned_less [of w, where ?'a = nat] by simp

lemma ucast_of_unat: "ucast (of_nat (unat w) :: u64) = (w :: u32)"
  using unat_u32_less [of w] by (simp add: ucast_up_ucast_id is_up)

lemma to_u32_unat: "to_u32 (of_nat (unat (w :: u32))) = w"
  unfolding to_u32_def by (rule ucast_of_unat)

lemma to_u32_ucast: "to_u32 (ucast (w :: u32)) = w"
  unfolding to_u32_def by (simp add: ucast_up_ucast_id is_up)

lemma parse_hex_show: "parse_hex_field (''0x'' @ show_hex (unat (w :: u32))) = Some w"
proof -
  have "unat w < 16 ^ 8" using unsigned_less [of w, where ?'a = nat] by simp
  then have "length (show_hex (unat w)) \<le> 8" by (rule length_show_hex) simp
  moreover have "strtoul 16 (show_hex (unat w)) = Some (of_nat (unat w), [])"
    using unat_u32_less [of w] by (simp add: strtoul_def strto_show_hex)
  ultimately show ?thesis
    using starts_with_append [of "''0x''" "show_hex (unat w)"]
    by (simp add: parse_hex_field_def Let_def to_u32_unat to_u32_ucast)
qed

section \<open>A line of the dump\<close>

text \<open>The items of a menu with their depth, in the order of the dump.\<close>

type_synonym menu_item = "nat \<times> u32 \<times> u32 \<times> u32 \<times> string option"

fun menu_items :: "nat \<Rightarrow> win_item list \<Rightarrow> menu_item list" where
  "menu_items depth [] = []"
| "menu_items depth (Unreadable # items) = menu_items depth items"
| "menu_items depth (Win_Item i st ty t sub # items) =
     (depth, i, st, ty, t) #
     (case sub of None \<Rightarrow> [] | Some m \<Rightarrow> if 4 < depth + 1 then [] else menu_items (depth + 1) m) @
     menu_items depth items"

definition item_line :: "menu_item \<Rightarrow> string" where
  "item_line it = (case it of (depth, i, st, ty, t) \<Rightarrow> menu_line depth i st ty t)"

definition item_entry :: "menu_item \<Rightarrow> wp_tray_entry" where
  "item_entry it = (case it of (depth, i, st, ty, t) \<Rightarrow>
     \<lparr>te_depth = int depth, te_id = i, te_state = st, te_type_flags = ty, te_text = take 255 (menu_text t), te_dbus_id = 0\<rparr>)"

lemma cut_tab_append [simp]: "TAB \<notin> set s \<Longrightarrow> cut_tab (s @ TAB # r) = Some (s, r)"
  unfolding cut_tab_def by (subst takeWhile_append2 dropWhile_append2, auto)+

lemma menu_text_chars: "c \<in> set (menu_text t) \<Longrightarrow> c \<noteq> TAB \<and> c \<noteq> LF \<and> c \<noteq> CR"
  by (auto simp: menu_text_def split: option.splits if_splits)

lemma line_body:
  assumes "depth \<le> 4" and "body = show_nat depth @ TAB # show_u32 i @ TAB # (''0x'' @ show_hex (unat st)) @ TAB #
      (''0x'' @ show_hex (unat ty)) @ TAB # menu_text t"
  shows "parse_menu_line body = Some (item_entry (depth, i, st, ty, t))" and "strip_cr body = body" and "body \<noteq> []"
    and "LF \<notin> set body" and "NUL \<notin> set (menu_text t) \<Longrightarrow> NUL \<notin> set body"
proof -
  have hx: "TAB \<notin> set (show_hex n)" "LF \<notin> set (show_hex n)" "NUL \<notin> set (show_hex n)" for n
    using show_hex_chars [of TAB n] show_hex_chars [of LF n] show_hex_chars [of NUL n] by auto
  have h: "TAB \<notin> set (''0x'' @ show_hex n)" for n using hx by simp
  have d: "strtol 10 (show_nat depth) = Some (int depth, [])"
    using strtol_show_int [of "int depth" "[]"] assms(1) by (simp add: show_int_def)
  have "to_i32 (int depth) = int depth"
    proof -
    have "depth = 0 \<or> depth = 1 \<or> depth = 2 \<or> depth = 3 \<or> depth = 4" using assms(1) by linarith
    then show ?thesis by (elim disjE) (simp_all add: to_i32_def)
  qed
  moreover have i: "strtoul 10 (show_u32 i) = Some (of_nat (unat i), [])"
    using strtoul_show_nat [of "unat i" "[]"] unat_u32_less [of i] by simp
  moreover have "length (show_nat depth) < 32" using length_show_nat [of depth 1] assms(1) by simp
  moreover have "length (show_u32 i) < 32" using length_show_u32 [of i] by simp
  moreover define sb tb where "sb = ''0x'' @ show_hex (unat st)" and "tb = ''0x'' @ show_hex (unat ty)"
  moreover have "TAB \<notin> set sb" "TAB \<notin> set tb" "parse_hex_field sb = Some st" "parse_hex_field tb = Some ty"
    unfolding sb_def tb_def by (rule h, rule h, rule parse_hex_show, rule parse_hex_show)
  ultimately show "parse_menu_line body = Some (item_entry (depth, i, st, ty, t))"
    unfolding assms(2) parse_menu_line_def sb_def [symmetric] tb_def [symmetric] using d
    by (simp add: item_entry_def to_u32_unat to_u32_ucast)
  show "strip_cr body = body"
  proof (cases "menu_text t = []")
    case False
    then have "last body \<in> set (menu_text t)" unfolding assms(2) by simp
    then show ?thesis using menu_text_chars by (auto simp: strip_cr_def)
  qed (simp add: strip_cr_def assms(2))
  show "body \<noteq> []" unfolding assms(2) by simp
  show "LF \<notin> set body" unfolding assms(2) using hx menu_text_chars [of LF t] by auto
  show "NUL \<notin> set body" if "NUL \<notin> set (menu_text t)" unfolding assms(2) using hx that by simp
qed

section \<open>The dump of a menu\<close>

lemma serialize_items_fold: "serialize_items depth items buf = foldl append_str buf (map item_line (menu_items depth items))"
  by (induction depth items buf rule: serialize_items.induct) (auto simp: item_line_def Let_def split: option.splits)

lemma menu_items_depth: "depth \<le> 4 \<Longrightarrow> (d, r) \<in> set (menu_items depth items) \<Longrightarrow> d \<le> 4"
  by (induction depth items rule: menu_items.induct) (auto split: option.splits if_splits)

lemma foldl_append_str:
  "\<exists>ls. subseq ls xs \<and> foldl append_str buf (map f xs) = buf @ concat (map f ls) \<and>
     (length buf + length (concat (map f xs)) < MENU_BUF \<longrightarrow> ls = xs)"
proof (induction xs arbitrary: buf)
  case (Cons x xs)
  show ?case
  proof (cases "MENU_BUF \<le> length buf + length (f x)")
    case True
    then have "append_str buf (f x) = buf" by (simp add: append_str_def)
    with Cons.IH [of buf] True show ?thesis by (auto intro: subseq_Cons')
  next
    case False
    then have a: "append_str buf (f x) = buf @ f x" by (simp add: append_str_def)
    obtain ls where "subseq ls xs" "foldl append_str (buf @ f x) (map f xs) = (buf @ f x) @ concat (map f ls)"
      "length (buf @ f x) + length (concat (map f xs)) < MENU_BUF \<longrightarrow> ls = xs"
      using Cons.IH [of "buf @ f x"] by blast
    then show ?thesis by (intro exI [of _ "x # ls"]) (auto simp: a)
  qed
qed auto

lemma parse_menu_lines_line:
  "LF \<notin> set body \<Longrightarrow> parse_menu_lines (body @ LF # rest) out = parse_menu_lines rest (add_menu_line out body)"
proof -
  assume "LF \<notin> set body"
  then have n: "\<And>c. c \<in> set body \<Longrightarrow> c \<noteq> LF" by auto
  have "takeWhile (\<lambda>c. c \<noteq> LF) (body @ LF # rest) = body" "dropWhile (\<lambda>c. c \<noteq> LF) (body @ LF # rest) = LF # rest"
    using n by (simp_all add: takeWhile_append2 dropWhile_append2)
  then show ?thesis by (subst parse_menu_lines.simps) (simp add: Let_def)
qed

lemma item_line_body:
  obtains body where "item_line (depth, i, st, ty, t) = body @ [LF]"
    and "body = show_nat depth @ TAB # show_u32 i @ TAB # (''0x'' @ show_hex (unat st)) @ TAB #
      (''0x'' @ show_hex (unat ty)) @ TAB # menu_text t"
  by (simp add: item_line_def menu_line_def)

definition plain_texts :: "menu_item list \<Rightarrow> bool" where
  "plain_texts its \<longleftrightarrow> (\<forall>(depth, i, st, ty, t) \<in> set its. depth \<le> 4 \<and> NUL \<notin> set (menu_text t))"

lemma parse_item_lines:
  "plain_texts its \<Longrightarrow> length out \<le> WP_TRAY_MAX_ENTRIES \<Longrightarrow>
   parse_menu_lines (concat (map item_line its)) out = take WP_TRAY_MAX_ENTRIES (out @ map item_entry its)"
proof (induction its arbitrary: out)
  case Nil
  then show ?case by (simp add: parse_menu_lines.simps)
next
  case (Cons it its)
  obtain depth i st ty t where it: "it = (depth, i, st, ty, t)" by (metis prod.exhaust)
  then have dep: "depth \<le> 4" and rest: "plain_texts its" using Cons.prems(1) by (auto simp: plain_texts_def)
  obtain body where b: "item_line it = body @ [LF]" and bd: "body = show_nat depth @ TAB # show_u32 i @ TAB #
      (''0x'' @ show_hex (unat st)) @ TAB # (''0x'' @ show_hex (unat ty)) @ TAB # menu_text t"
    unfolding it by (rule item_line_body)
  note lb = line_body [OF dep bd]
  let ?out = "add_menu_line out body"
  have out: "?out = take WP_TRAY_MAX_ENTRIES (out @ [item_entry it])"
    using lb(1-3) Cons.prems(2) by (auto simp: add_menu_line_def Let_def it)
  have "parse_menu_lines (concat (map item_line (it # its))) out = parse_menu_lines (concat (map item_line its)) ?out"
    using parse_menu_lines_line [OF lb(4), of "concat (map item_line its)" out] by (simp add: b)
  also have "\<dots> = take WP_TRAY_MAX_ENTRIES (?out @ map item_entry its)"
    using rest out by (intro Cons.IH) simp_all
  also have "\<dots> = take WP_TRAY_MAX_ENTRIES (out @ map item_entry (it # its))"
  proof (cases "length out < WP_TRAY_MAX_ENTRIES")
    case True
    then show ?thesis by (simp add: out)
  qed (use Cons.prems(2) in \<open>simp add: out\<close>)
  finally show ?case .
qed

lemma dump_plain: "plain_texts its \<Longrightarrow> NUL \<notin> set (concat (map item_line its))"
proof (induction its)
  case (Cons it its)
  obtain depth i st ty t where it: "it = (depth, i, st, ty, t)" by (metis prod.exhaust)
  then have dep: "depth \<le> 4" "NUL \<notin> set (menu_text t)" and rest: "plain_texts its"
    using Cons.prems by (auto simp: plain_texts_def)
  obtain body where b: "item_line it = body @ [LF]" and bd: "body = show_nat depth @ TAB # show_u32 i @ TAB #
      (''0x'' @ show_hex (unat st)) @ TAB # (''0x'' @ show_hex (unat ty)) @ TAB # menu_text t"
    unfolding it by (rule item_line_body)
  with line_body(5) [OF dep(1) bd dep(2)] Cons.IH [OF rest] show ?case by (simp add: b)
qed simp

lemma parsed_dump:
  assumes "\<forall>(depth, i, st, ty, t) \<in> set (menu_items 0 m). NUL \<notin> set (menu_text t)"
  shows "\<exists>its. subseq its (menu_items 0 m) \<and>
     wp_tray_parse_menu_dump (serialize_menu (Some m) 0 []) = take WP_TRAY_MAX_ENTRIES (map item_entry its) \<and>
     (length (concat (map item_line (menu_items 0 m))) < MENU_BUF \<longrightarrow> its = menu_items 0 m)"
proof -
  obtain its where its: "subseq its (menu_items 0 m)"
    "serialize_items 0 m [] = concat (map item_line its)"
    "length (concat (map item_line (menu_items 0 m))) < MENU_BUF \<longrightarrow> its = menu_items 0 m"
    using foldl_append_str [of "menu_items 0 m" "[]" item_line] by (auto simp: serialize_items_fold)
  have sub: "set its \<subseteq> set (menu_items 0 m)"
    using its(1) by (meson subsetI subseq_order.order_trans subseq_singleton_left)
  have "plain_texts its"
    using assms menu_items_depth [of 0 _ _ m] sub unfolding plain_texts_def by fastforce
  then have "wp_tray_parse_menu_dump (serialize_items 0 m []) = take WP_TRAY_MAX_ENTRIES (map item_entry its)"
    using dump_plain [of its] parse_item_lines [of its "[]"]
    by (simp add: wp_tray_parse_menu_dump_def its(2) cstr_id)
  with its(1,3) show ?thesis by (auto simp: serialize_menu_def)
qed

section \<open>The icon file\<close>

lemma read_u32le_at: "read_u32le (xs @ u32le v @ ys) (length xs) = Some v"
proof -
  have "ucast (ucast v :: u8) OR push_bit 8 (ucast (ucast (drop_bit 8 v) :: u8)) OR
    push_bit 16 (ucast (ucast (drop_bit 16 v) :: u8)) OR push_bit 24 (ucast (ucast (drop_bit 24 v) :: u8)) = v" (is "?w = _")
  proof (rule bit_word_eqI)
    fix n assume n: "n < LENGTH(32)"
    consider "n < 8" | "8 \<le> n" "n < 16" | "16 \<le> n" "n < 24" | "24 \<le> n" by linarith
    then show "bit ?w n = bit v n" using n by cases (auto simp: bit_simps)
  qed
  then show ?thesis by (simp add: read_u32le_def byte_at_def u32le_def nth_append)
qed

lemma read_u32le_in: "buf = xs @ u32le v @ ys \<Longrightarrow> length xs = n \<Longrightarrow> read_u32le buf n = Some v"
  using read_u32le_at by blast

lemma length_u32le [simp]: "length (u32le v) = 4" and length_u64le [simp]: "length (u64le w) = 8"
  by (simp_all add: u32le_def u64le_def)

lemma read_u32le_Some: "n + 4 \<le> length buf \<Longrightarrow> \<exists>v. read_u32le buf n = Some v"
  by (simp add: read_u32le_def byte_at_def)

lemma size_t_id: "n < 2 ^ 64 \<Longrightarrow> size_t n = n"
  by (simp add: size_t_def)

lemma icon_size_bounds:
  fixes w h tl :: u32
  assumes "0 \<le> sint w" and "0 \<le> sint h"
  shows "size_t (36 + unat tl) = 36 + unat tl"
    and "size_t (nat (sint w) * nat (sint h)) = nat (sint w) * nat (sint h)"
    and "size_t (nat (sint w) * nat (sint h) * 4) = nat (sint w) * nat (sint h) * 4"
    and "size_t (36 + unat tl + nat (sint w) * nat (sint h) * 4) = 36 + unat tl + nat (sint w) * nat (sint h) * 4"
proof -
  have t: "unat tl < 2 ^ 32" using unsigned_less [of tl, where ?'a = nat] by simp
  have "sint w < 2 ^ 31" "sint h < 2 ^ 31" using sint_less [of w] sint_less [of h] by simp_all
  then have "nat (sint w) \<le> 2 ^ 31 - 1" "nat (sint h) \<le> 2 ^ 31 - 1" by simp_all
  then have p: "nat (sint w) * nat (sint h) \<le> (2 ^ 31 - 1) * (2 ^ 31 - 1)" by (rule mult_le_mono)
  show "size_t (36 + unat tl) = 36 + unat tl" using t by (intro size_t_id) simp
  show "size_t (nat (sint w) * nat (sint h)) = nat (sint w) * nat (sint h)" using p by (intro size_t_id) simp
  show "size_t (nat (sint w) * nat (sint h) * 4) = nat (sint w) * nat (sint h) * 4"
    using p by (intro size_t_id) (simp add: mult.commute)
  show "size_t (36 + unat tl + nat (sint w) * nat (sint h) * 4) = 36 + unat tl + nat (sint w) * nat (sint h) * 4"
    using p t by (intro size_t_id) simp
qed

lemma argb_pixel_Some: "start + i * 4 + 4 \<le> length buf \<Longrightarrow> argb_pixel buf start i =
    Some [buf ! (start + i * 4 + 3), buf ! (start + i * 4 + 2), buf ! (start + i * 4 + 1), buf ! (start + i * 4)]"
  by (simp add: argb_pixel_def byte_at_def)

definition argb_of :: "u8 list \<Rightarrow> nat \<Rightarrow> u8 list" where
  "argb_of bgra n = concat (map (\<lambda>i. [bgra ! (i * 4 + 3), bgra ! (i * 4 + 2), bgra ! (i * 4 + 1), bgra ! (i * 4)]) [0..<n])"

lemma length_argb_of [simp]: "length (argb_of bgra n) = 4 * n"
  by (simp add: argb_of_def length_concat comp_def sum_list_triv)

lemma those_argb:
  assumes "start + n * 4 \<le> length buf"
  shows "\<exists>ps. those (map (argb_pixel buf start) [0..<n]) = Some ps \<and> concat ps = argb_of (drop start buf) n"
proof -
  let ?g = "\<lambda>i. [drop start buf ! (i * 4 + 3), drop start buf ! (i * 4 + 2), drop start buf ! (i * 4 + 1), drop start buf ! (i * 4)]"
  have those: "(\<And>x. x \<in> set xs \<Longrightarrow> f x = Some (g x)) \<Longrightarrow> those (map f xs) = Some (map g xs)" for f g and xs :: "nat list"
    by (induction xs) simp_all
  have "those (map (argb_pixel buf start) [0..<n]) = Some (map ?g [0..<n])"
    using assms by (intro those) (simp add: argb_pixel_Some add.assoc)
  then show ?thesis unfolding argb_of_def by blast
qed

lemma parse_icon_safe: "\<exists>r. wp_tray_parse_icon_file buf = Some r \<and> (\<forall>ic. r = Some ic \<longrightarrow> icon_ok ic)"
proof (cases "length buf < 36")
  case True
  then show ?thesis by (simp add: wp_tray_parse_icon_file_def)
next
  case False
  then obtain m w h tl where r: "read_u32le buf 0 = Some m" "read_u32le buf 24 = Some w" "read_u32le buf 28 = Some h"
    "read_u32le buf 32 = Some tl"
    using read_u32le_Some [of 0 buf] read_u32le_Some [of 24 buf] read_u32le_Some [of 28 buf] read_u32le_Some [of 32 buf]
    by auto
  have t36: "size_t (36 + unat tl) = 36 + unat tl" using icon_size_bounds(1) [of 0 0 tl] by simp
  let ?c = "nat (sint w) * nat (sint h)"
  show ?thesis
  proof (cases "m = TRAY_MAGIC \<and> 36 + unat tl \<le> length buf \<and> 0 \<le> sint w \<and> 0 \<le> sint h \<and> 36 + unat tl + ?c * 4 \<le> length buf")
    case True
    then have z: "0 \<le> sint w" "0 \<le> sint h" by simp_all
    obtain ps where "those (map (argb_pixel buf (36 + unat tl)) [0..<?c]) = Some ps"
      "concat ps = argb_of (drop (36 + unat tl) buf) ?c"
      using those_argb [of "36 + unat tl" ?c buf] True by auto
    then show ?thesis using False r True
      by (simp add: wp_tray_parse_icon_file_def icon_size_bounds [OF z] copy_bytes_def Let_def icon_ok_def)
  next
    case bad: False
    show ?thesis
    proof (cases "0 \<le> sint w \<and> 0 \<le> sint h")
      case True
      then show ?thesis using bad False r
        by (auto simp: wp_tray_parse_icon_file_def icon_size_bounds copy_bytes_def Let_def not_le)
    qed (use bad False r in \<open>auto simp: wp_tray_parse_icon_file_def t36 copy_bytes_def Let_def not_le\<close>)
  qed
qed

lemma those_argb_bytes: "those (map (argb_pixel buf start) [0..<n]) = Some ps \<Longrightarrow> start + n * 4 \<le> length buf \<Longrightarrow>
    concat ps = argb_of (drop start buf) n"
  using those_argb by fastforce

lemma parse_icon_file_bytes:
  assumes pic: "length pixels = 4 * (nat (sint w) * nat (sint h))" and "0 \<le> sint w" "0 \<le> sint h"
    and small: "nat (sint w) * nat (sint h) * 4 < 2 ^ 32"
    and tip: "wc_tooltip nid = Some tip" "length tip < 128"
  shows "wp_tray_parse_icon_file (icon_file_bytes nid w h pixels) =
     Some (Some \<lparr>ic_width = sint w, ic_height = sint h, ic_tooltip = tip,
       ic_pixels_argb = argb_of pixels (nat (sint w) * nat (sint h))\<rparr>)"
proof -
  let ?buf = "icon_file_bytes nid w h pixels" and ?c = "nat (sint w) * nat (sint h)"
  obtain a b where a: "nat (sint w) = a" "nat (sint h) = b" by blast
  have "of_nat a = w" "of_nat b = h"
    unfolding a [symmetric] by (simp_all only: of_nat_nat [OF assms(2)] of_nat_nat [OF assms(3)] of_int_sint scast_id)
  then have "w * h * 4 = of_nat (?c * 4)" unfolding a by auto
  then have "unat (w * h * 4) = unat (of_nat (?c * 4) :: u32)" by (rule arg_cong)
  also have "\<dots> = ?c * 4" unfolding unat_of_nat using small by (intro mod_less) simp
  finally have "unat (w * h * 4) = ?c * 4" .
  then have px: "take (unat (w * h * 4)) pixels = pixels" using pic by simp
  let ?tl = "of_nat (length tip) :: u32"
  have tl: "unat ?tl = length tip" using tip(2) by (simp add: unat_of_nat)
  define pre where "pre = u32le TRAY_MAGIC @ u32le 1 @ u64le (wc_hwnd nid) @ u32le (wc_uid nid) @ u32le (wc_callback_msg nid)"
  have lp: "length pre = 24" by (simp add: pre_def)
  have buf: "?buf = pre @ u32le w @ u32le h @ u32le ?tl @ tip @ pixels"
    by (simp add: icon_file_bytes_def pre_def px tip(1))
  have r: "read_u32le ?buf 0 = Some TRAY_MAGIC" "read_u32le ?buf 24 = Some w" "read_u32le ?buf 28 = Some h"
    "read_u32le ?buf 32 = Some ?tl"
    by (rule read_u32le_in [of _ "[]"], simp add: buf pre_def, simp, rule read_u32le_in [of _ pre], simp add: buf, simp add: lp,
        rule read_u32le_in [of _ "pre @ u32le w"], simp add: buf, simp add: lp,
        rule read_u32le_in [of _ "pre @ u32le w @ u32le h"], simp add: buf, simp add: lp)
  have l: "length ?buf = 36 + length tip + ?c * 4" by (simp add: buf lp pic mult.commute)
  have dr: "drop (36 + length tip) ?buf = pixels" "take (length tip) (drop 36 ?buf) = tip"
    using lp by (simp_all add: buf)
  obtain ps where ps: "those (map (argb_pixel ?buf (36 + length tip)) [0..<?c]) = Some ps" "concat ps = argb_of pixels ?c"
    using those_argb [of "36 + length tip" ?c ?buf] l dr by auto
  have sz: "size_t (36 + length tip) = 36 + length tip" "size_t (36 + length tip + ?c * 4) = 36 + length tip + ?c * 4"
    using icon_size_bounds(1,4) [OF assms(2,3), of ?tl] by (simp_all add: tl)
  show ?thesis using r ps assms(2,3) tip(2) l dr(2)
    by (simp add: wp_tray_parse_icon_file_def sz icon_size_bounds(2,3) copy_bytes_def Let_def tl)
qed

section \<open>Properties\<close>

text \<open>
  The daemon reads back the menu that the Windows process has written: exactly its items, with
  their depth, identifier, state and type and the text with tabs and line ends made blanks, in
  order and at most 512 of them. Items are left out only when the dump does not fit into its
  buffer, and those which remain keep their order.
\<close>

theorem menu_dump_roundtrip:
  assumes "\<forall>(depth, i, st, ty, t) \<in> set (menu_items 0 m). NUL \<notin> set (menu_text t)"
  shows "\<exists>its. subseq its (menu_items 0 m) \<and>
     wp_tray_parse_menu_dump (serialize_menu (Some m) 0 []) = take WP_TRAY_MAX_ENTRIES (map item_entry its) \<and>
     (length (concat (map item_line (menu_items 0 m))) < MENU_BUF \<longrightarrow> its = menu_items 0 m)"
  using assms by (rule parsed_dump)

text \<open>
  Whatever the icon file holds, the parser reads nothing outside of it, its 64-bit size
  computations included, and an icon it accepts has a size that is not negative and exactly four
  bytes for each of its pixels.
\<close>

theorem icon_parse_in_bounds:
  "case wp_tray_parse_icon_file buf of None \<Rightarrow> False | Some None \<Rightarrow> True | Some (Some ic) \<Rightarrow> icon_ok ic"
  using parse_icon_safe [of buf] by (auto split: option.splits)

text \<open>
  The icon that the Windows process writes is read back with its size, its tooltip and its
  pixels, in the order of bytes (alpha, red, green, blue) that the tray protocol asks for.
\<close>

theorem icon_file_roundtrip:
  assumes "length pixels = 4 * (nat (sint w) * nat (sint h))" and "0 \<le> sint w" "0 \<le> sint h"
    and "nat (sint w) * nat (sint h) * 4 < 2 ^ 32" and "wc_tooltip nid = Some tip" and "length tip < 128"
  shows "wp_tray_parse_icon_file (icon_file_bytes nid w h pixels) =
     Some (Some \<lparr>ic_width = sint w, ic_height = sint h, ic_tooltip = tip,
       ic_pixels_argb = argb_of pixels (nat (sint w) * nat (sint h))\<rparr>)"
  using assms by (rule parse_icon_file_bytes)

text \<open>A menu with a submenu, a separator and an unreadable item; an icon of two pixels.\<close>

definition demo_menu :: "win_item list" where
  "demo_menu = [Win_Item 40001 0 0 (Some ''Settings'') None, Unreadable, Win_Item 0 0 0x800 None None,
     Win_Item 7 8 0 (Some (''a'' @ [TAB] @ ''b'')) (Some [Win_Item 40002 3 0 (Some ''Pause'') None])]"

lemma menu_dump_roundtrip_witness:
  "\<exists>its. subseq its (menu_items 0 demo_menu) \<and>
     wp_tray_parse_menu_dump (serialize_menu (Some demo_menu) 0 []) = take WP_TRAY_MAX_ENTRIES (map item_entry its) \<and>
     (length (concat (map item_line (menu_items 0 demo_menu))) < MENU_BUF \<longrightarrow> its = menu_items 0 demo_menu)"
  by (rule menu_dump_roundtrip) (simp add: demo_menu_def menu_text_def)

definition demo_icon :: win_icon where
  "demo_icon = \<lparr>wc_flags = NIF_ICON, wc_version = 0, wc_hwnd = 77, wc_uid = 5, wc_callback_msg = 0x8001,
     wc_picture = Some (2, 1, [1, 2, 3, 4, 5, 6, 7, 8]), wc_tooltip = Some [65, 66]\<rparr>"

lemma icon_file_roundtrip_witness:
  "wp_tray_parse_icon_file (icon_file_bytes demo_icon 2 1 [1, 2, 3, 4, 5, 6, 7, 8]) =
     Some (Some \<lparr>ic_width = 2, ic_height = 1, ic_tooltip = [65, 66], ic_pixels_argb = [4, 3, 2, 1, 8, 7, 6, 5]\<rparr>)"
  using icon_file_roundtrip [of "[1, 2, 3, 4, 5, 6, 7, 8]" 2 1 demo_icon "[65, 66]"]
  by (simp add: demo_icon_def argb_of_def upt_rec)

end
