(* ===== verification/WP_Tray_Props.thy ===== *)
theory WP_Tray_Props
  imports WP_Tray_Menu WP_Tray_Text
begin

unbundle bit_operations_syntax

text \<open>
  Properties of the tray service: the identifiers of the menu (a click reaches the entry it was made
  on, a dump that comes again keeps its identifiers), the layout (faithful for menus of two levels,
  and what is lost below them), the wait for a fresh menu (when it succeeds and that it gives up),
  and the way of a click from the menu of the desktop back to the window of Windows.
\<close>

section \<open>Identifiers\<close>

text \<open>
  \<open>G\<close> holds the identifiers given so far, with the keys they were given for. As long as the counter of
  32 bits has not overflowed, an identifier stands for one key, and the table holds a part of them.
\<close>

abbreviation ID_LIMIT :: int where "ID_LIMIT \<equiv> 2 ^ 31"

lemma id_value_small: "1 \<le> n \<Longrightarrow> n < ID_LIMIT \<Longrightarrow> id_value n = n"
  by (simp add: id_value_def signed_of_int signed_take_bit_int_eq_self)

definition given_ok :: "(id_key \<times> int) set \<Rightarrow> id_table \<Rightarrow> bool" where
  "given_ok G tab \<longleftrightarrow> (snd tab < ID_LIMIT \<longrightarrow>
     (\<forall>(k, i) \<in> G. 1 \<le> i \<and> i < snd tab) \<and> (\<forall>k k' i. (k, i) \<in> G \<longrightarrow> (k', i) \<in> G \<longrightarrow> k = k') \<and>
     (\<forall>s \<in> set (fst tab). (slot_key s, is_dbus_id s) \<in> G) \<and> 1 \<le> snd tab)"

fun entry_keys :: "wp_tray_entry list \<Rightarrow> u32 list \<times> u32 list \<Rightarrow> id_key list" where
  "entry_keys [] st = []"
| "entry_keys (e # es) st = fst (entry_key e st) # entry_keys es (snd (entry_key e st))"

lemma length_entry_keys [simp]: "length (entry_keys es st) = length es"
  by (induction es st rule: entry_keys.induct) simp_all

lemma assign_next: "assign_dbus_id key tab = (i, tab') \<Longrightarrow> snd tab \<le> snd tab' \<and> snd tab' \<le> snd tab + 1"
  by (auto simp: assign_dbus_id_def split: prod.splits option.splits if_splits)

lemma assign_ids_next: "assign_ids es st tab = (es', tab') \<Longrightarrow> snd tab' \<le> snd tab + int (length es)"
proof (induction es st tab arbitrary: es' tab' rule: assign_ids.induct)
  case (2 e es st tab)
  obtain key st' where k: "entry_key e st = (key, st')" by (rule prod.exhaust)
  obtain i tab1 where i: "assign_dbus_id key tab = (i, tab1)" by (rule prod.exhaust)
  obtain es1 tab2 where r: "assign_ids es st' tab1 = (es1, tab2)" by (rule prod.exhaust)
  have "tab' = tab2" using "2.prems" by (simp add: k i r)
  then show ?case using "2.IH" [OF k [symmetric] i [symmetric] r] assign_next [OF i] by simp
qed simp

lemma given_ok_assign:
  assumes "given_ok G tab" and "assign_dbus_id key tab = (i, tab')"
  shows "given_ok (insert (key, i) G) tab'"
proof (cases "snd tab' < ID_LIMIT")
  case True
  obtain slots next_id where t: "tab = (slots, next_id)" by (rule prod.exhaust)
  have lim: "next_id < ID_LIMIT" using assign_next [OF assms(2)] True by (simp add: t)
  then have v: "id_value next_id = next_id" using assms(1) id_value_small by (simp add: given_ok_def t)
  show ?thesis
  proof (cases "find_index (\<lambda>s. slot_key s = key) slots")
    case (Some j)
    from find_index_Some [OF this] have "j < length slots" "slot_key (slots ! j) = key" by blast+
    then have "(key, is_dbus_id (slots ! j)) \<in> G" using assms(1) nth_mem lim by (fastforce simp: given_ok_def t)
    with assms Some show ?thesis by (auto simp: assign_dbus_id_def t insert_absorb)
  next
    case None
    have fresh: "(k, next_id) \<notin> G" for k using assms(1) lim by (auto simp: given_ok_def t)
    obtain sep depth anchor ordinal where "key = (sep, depth, anchor, ordinal)" by (metis prod.exhaust)
    with assms None fresh lim v show ?thesis
      by (fastforce simp: assign_dbus_id_def t given_ok_def slot_key_def split: if_splits)
  qed
qed (simp add: given_ok_def)

lemma assign_ids_given:
  "given_ok G tab \<Longrightarrow> assign_ids es st tab = (es', tab') \<Longrightarrow>
   given_ok (G \<union> set (zip (entry_keys es st) (map te_dbus_id es'))) tab' \<and> length es' = length es \<and>
   (\<forall>k < length es. es' ! k = (es ! k)\<lparr>te_dbus_id := te_dbus_id (es' ! k)\<rparr>)"
proof (induction es st tab arbitrary: G es' tab' rule: assign_ids.induct)
  case (2 e es st tab)
  obtain key st' where k: "entry_key e st = (key, st')" by (rule prod.exhaust)
  obtain i tab1 where i: "assign_dbus_id key tab = (i, tab1)" by (rule prod.exhaust)
  obtain es1 tab2 where r: "assign_ids es st' tab1 = (es1, tab2)" by (rule prod.exhaust)
  have es': "es' = e\<lparr>te_dbus_id := i\<rparr> # es1" "tab' = tab2" using "2.prems"(2) by (simp_all add: k i r)
  have "given_ok (insert (key, i) G) tab1" using given_ok_assign [OF "2.prems"(1) i] .
  from "2.IH" [OF k [symmetric] i [symmetric] this r]
  show ?case by (auto simp: es' k less_Suc_eq_0_disj)
qed simp

lemma entry_keys_nth:
  "k < length es \<Longrightarrow> fst (entry_keys es st ! k) = is_sep (es ! k) \<and>
     (\<not> is_sep (es ! k) \<longrightarrow> fst (snd (snd (entry_keys es st ! k))) = te_id (es ! k))"
proof (induction es st arbitrary: k rule: entry_keys.induct)
  case (2 e es st)
  show ?case
  proof (cases k)
    case 0
    then show ?thesis by (cases st) (simp add: entry_key_def Let_def)
  qed (use 2 in simp)
qed simp

text \<open>The entries on show: an identifier stands for one kind of entry and one Windows identifier.\<close>

definition entries_given :: "(id_key \<times> int) set \<Rightarrow> wp_tray_entry list \<Rightarrow> bool" where
  "entries_given G es \<longleftrightarrow> (\<forall>e \<in> set es. \<exists>key. (key, te_dbus_id e) \<in> G \<and> fst key = is_sep e \<and>
     (\<not> is_sep e \<longrightarrow> fst (snd (snd key)) = te_id e))"

definition ids_inv :: "wp_tray_state \<Rightarrow> bool" where
  "ids_inv st \<longleftrightarrow> (\<exists>G. given_ok G (tr_id_slots st, tr_next_dbus_id st) \<and> entries_given G (tr_entries st))"

lemma is_sep_update [simp]: "is_sep (e\<lparr>te_dbus_id := i\<rparr>) = is_sep e"
  by (simp add: is_sep_def)

lemma ids_inv_publish_one: "ids_inv st \<Longrightarrow> ids_inv (wp_tray_state_on_menu_dump_changed es st)"
proof -
  assume "ids_inv st"
  then obtain G where G: "given_ok G (tr_id_slots st, tr_next_dbus_id st)" unfolding ids_inv_def by blast
  let ?s0 = "(replicate WP_TRAY_MAX_MENU_DEPTH 0, replicate WP_TRAY_MAX_MENU_DEPTH 0) :: u32 list \<times> u32 list"
  obtain es' slots' next' where a: "assign_ids es ?s0 (tr_id_slots st, tr_next_dbus_id st) = (es', slots', next')"
    by (metis prod.exhaust)
  let ?G = "G \<union> set (zip (entry_keys es ?s0) (map te_dbus_id es'))"
  have g: "given_ok ?G (slots', next')" and l: "length es' = length es"
    and n: "\<And>k. k < length es \<Longrightarrow> es' ! k = (es ! k)\<lparr>te_dbus_id := te_dbus_id (es' ! k)\<rparr>"
    using assign_ids_given [OF G a] by blast+
  have "entries_given ?G es'" unfolding entries_given_def
  proof
    fix e assume "e \<in> set es'"
    then obtain k where k: "k < length es" "e = es' ! k" using l by (metis in_set_conv_nth)
    have "(entry_keys es ?s0 ! k, te_dbus_id e) \<in> set (zip (entry_keys es ?s0) (map te_dbus_id es'))"
      using k l by (auto simp: in_set_zip)
    moreover have "is_sep e = is_sep (es ! k)" "te_id e = te_id (es ! k)"
      unfolding k(2) by (subst n [OF k(1)], simp)+
    ultimately show "\<exists>key. (key, te_dbus_id e) \<in> ?G \<and> fst key = is_sep e \<and>
       (\<not> is_sep e \<longrightarrow> fst (snd (snd key)) = te_id e)"
      using entry_keys_nth [OF k(1), of ?s0] by (intro exI [of _ "entry_keys es ?s0 ! k"]) auto
  qed
  with g show ?thesis
    unfolding ids_inv_def wp_tray_state_on_menu_dump_changed_def assign_stable_dbus_ids_def a by auto
qed

lemma ids_inv_cong:
  "tr_id_slots st' = tr_id_slots st \<Longrightarrow> tr_next_dbus_id st' = tr_next_dbus_id st \<Longrightarrow> tr_entries st' = tr_entries st \<Longrightarrow>
   ids_inv st \<Longrightarrow> ids_inv st'"
  by (simp add: ids_inv_def)

lemma ids_inv_emit [simp]: "ids_inv (emit x st) = ids_inv st"
  by (simp add: ids_inv_def emit_def)

lemma ids_inv_updates [simp]:
  "ids_inv (st\<lparr>tr_refresh_in_progress := b\<rparr>) = ids_inv st" "ids_inv (st\<lparr>tr_revision := r\<rparr>) = ids_inv st"
  "ids_inv (st\<lparr>tr_icon := ic\<rparr>) = ids_inv st" "ids_inv (st\<lparr>tr_tooltip := t\<rparr>) = ids_inv st"
  by (simp_all add: ids_inv_def)

section \<open>Invariants of the reachable states\<close>

text \<open>
  Everything but the dumps leaves the entries and the identifiers alone, so a property of the state
  that a dump keeps is kept by every step.
\<close>

definition icon_inv :: "wp_tray_state \<Rightarrow> bool" where
  "icon_inv st \<longleftrightarrow> (\<forall>w h argb. tr_icon st = Some (w, h, argb) \<longrightarrow> 0 \<le> w \<and> 0 \<le> h \<and> length argb = 4 * (nat w * nat h))"

definition tray_inv :: "wp_tray_state \<Rightarrow> bool" where
  "tray_inv st \<longleftrightarrow> ids_inv st \<and> icon_inv st"

lemma tray_inv_emit [simp]: "tray_inv (emit x st) = tray_inv st"
  by (simp add: tray_inv_def icon_inv_def) (simp add: emit_def)

lemma tray_inv_updates [simp]:
  "tray_inv (st\<lparr>tr_refresh_in_progress := b\<rparr>) = tray_inv st" "tray_inv (st\<lparr>tr_revision := r\<rparr>) = tray_inv st"
  by (simp_all add: tray_inv_def icon_inv_def)

lemma tray_inv_dump: "tray_inv st \<Longrightarrow> tray_inv (wp_tray_state_on_menu_dump_changed es st)"
  unfolding tray_inv_def by (auto intro: ids_inv_publish_one)
    (simp add: icon_inv_def wp_tray_state_on_menu_dump_changed_def split: prod.splits)

lemma tray_inv_publish: "tray_inv st \<Longrightarrow> tray_inv (publish dumps st)"
  unfolding publish_def by (induction dumps arbitrary: st) (simp_all add: tray_inv_dump)

lemma tray_inv_await:
  "tray_inv st \<Longrightarrow> await_dump deadline start now ws st = Some (r, ws', st') \<Longrightarrow> tray_inv st'"
  by (induction deadline start now ws st rule: await_dump.induct)
    (auto simp: Let_def tray_inv_publish split: if_splits)

lemma tray_inv_settle: "tray_inv st \<Longrightarrow> settle ws st = Some (ws', st') \<Longrightarrow> tray_inv st'"
  by (induction ws st rule: settle.induct) (auto simp: Let_def tray_inv_publish split: if_splits)

lemma tray_inv_piggyback: "tray_inv st \<Longrightarrow> piggyback ws st = Some (r, ws', st') \<Longrightarrow> tray_inv st'"
  by (induction ws st rule: piggyback.induct) (auto simp: Let_def tray_inv_publish split: if_splits)

abbreviation asked :: "wp_tray_entry list list \<Rightarrow> wp_tray_state \<Rightarrow> wp_tray_state" where
  "asked early st \<equiv> publish early (emit (Click 1) (st\<lparr>tr_refresh_in_progress := True\<rparr>))"

lemma refresh_cases:
  assumes "refresh_menu_from_win32 now early ws st = Some (r, ws', st')"
  obtains (other) "tr_refresh_in_progress st" "piggyback ws st = Some (r, ws', st')"
  | (gave_up) st1 where "\<not> tr_refresh_in_progress st" "\<not> r"
      "await_dump (now + MENU_REFRESH_TIMEOUT_SEC * NS) (tr_generation st) now ws (asked early st) = Some (True, ws', st1)"
      "st' = st1\<lparr>tr_refresh_in_progress := False\<rparr>"
  | (fetched) ws1 st1 st2 where "\<not> tr_refresh_in_progress st" "r"
      "await_dump (now + MENU_REFRESH_TIMEOUT_SEC * NS) (tr_generation st) now ws (asked early st) = Some (False, ws1, st1)"
      "settle ws1 st1 = Some (ws', st2)"
      "st' = emit (Layout_Updated (tr_revision st2 + 1)) (st2\<lparr>tr_revision := tr_revision st2 + 1, tr_refresh_in_progress := False\<rparr>)"
proof (cases "tr_refresh_in_progress st")
  case True
  with assms other show thesis by (simp add: refresh_menu_from_win32_def)
next
  case False
  let ?a = "await_dump (now + MENU_REFRESH_TIMEOUT_SEC * NS) (tr_generation st) now ws (asked early st)"
  show thesis
  proof (cases ?a)
    case None
    with False assms show thesis by (simp add: refresh_menu_from_win32_def)
  next
    case (Some x)
    obtain b ws1 st1 where x: "x = (b, ws1, st1)" by (metis prod.exhaust)
    show thesis
    proof (cases b)
      case True
      with Some x False assms show thesis
        by (intro gave_up [of st1]) (auto simp: refresh_menu_from_win32_def)
    next
      case b: False
      with Some x False assms show thesis
        by (cases "settle ws1 st1") (auto simp: refresh_menu_from_win32_def Let_def intro!: fetched)
    qed
  qed
qed

lemma tray_inv_refresh: "tray_inv st \<Longrightarrow> refresh_menu_from_win32 now early ws st = Some (r, ws', st') \<Longrightarrow> tray_inv st'"
proof (erule refresh_cases)
  assume t: "tray_inv st"
  then have a: "tray_inv (asked early st)" by (simp add: tray_inv_publish)
  show "piggyback ws st = Some (r, ws', st') \<Longrightarrow> ?thesis" using t by (rule tray_inv_piggyback)
  fix st1 ws1 st2
  assume "await_dump (now + MENU_REFRESH_TIMEOUT_SEC * NS) (tr_generation st) now ws (asked early st) = Some (True, ws', st1)"
    and "st' = st1\<lparr>tr_refresh_in_progress := False\<rparr>"
  then show ?thesis using tray_inv_await [OF a] by simp
next
  fix st1 ws1 st2
  assume t: "tray_inv st"
  then have a: "tray_inv (asked early st)" by (simp add: tray_inv_publish)
  assume "await_dump (now + MENU_REFRESH_TIMEOUT_SEC * NS) (tr_generation st) now ws (asked early st) = Some (False, ws1, st1)"
    and "settle ws1 st1 = Some (ws', st2)"
    and "st' = emit (Layout_Updated (tr_revision st2 + 1)) (st2\<lparr>tr_revision := tr_revision st2 + 1, tr_refresh_in_progress := False\<rparr>)"
  then show ?thesis using tray_inv_settle [OF tray_inv_await [OF a]] by simp
qed

lemma tray_inv_ensure: "tray_inv st \<Longrightarrow> ensure_menu_populated now early ws st = Some (ws', st') \<Longrightarrow> tray_inv st'"
  unfolding ensure_menu_populated_def by (auto split: if_splits dest: tray_inv_refresh)

lemma tray_inv_event_group: "tray_inv st \<Longrightarrow> tray_inv (snd (event_group entries evs errs st))"
  by (induction entries evs errs st rule: event_group.induct) (auto split: option.splits)

lemma tray_inv_init: "tray_inv tray_init"
  unfolding tray_inv_def ids_inv_def
  by (auto simp: tray_init_def given_ok_def entries_given_def icon_inv_def intro!: exI [of _ "{}"])

lemma tray_inv_step: "tray_step st st' \<Longrightarrow> tray_inv st \<Longrightarrow> tray_inv st'"
proof (induction rule: tray_step.induct)
  case (watcher st names filename content)
  then show ?case by (simp add: menu_watcher_step_def tray_inv_dump Let_def split: option.splits)
next
  case (icon now early ws ic st r ws' st')
  let ?st = "st\<lparr>tr_icon := Some (ic_width ic, ic_height ic, ic_pixels_argb ic),
             tr_tooltip := take 255 (takeWhile (\<lambda>b. b \<noteq> 0) (ic_tooltip ic))\<rparr>"
  have "tray_inv ?st" using icon.prems icon.hyps(2) by (simp add: tray_inv_def icon_inv_def icon_ok_def)
  then have "tray_inv (emit New_ToolTip (emit New_Icon ?st))" by simp
  then show ?case using icon.hyps(1) unfolding wp_tray_state_on_icon_changed_def by (rule tray_inv_refresh)
next
  case (event st i event_id)
  then show ?case by (simp add: handle_menu_event_def split: option.splits)
next
  case (event_group st evs)
  then show ?case using tray_inv_event_group [OF event_group.prems, of "tr_entries st" evs "[]"]
    by (cases "event_group (tr_entries st) evs [] st") (simp add: handle_menu_event_group_def)
qed (auto simp: handle_menu_get_layout_def handle_menu_get_group_properties_def handle_menu_about_to_show_def
    handle_menu_about_to_show_group_def handle_sni_method_def split: if_splits
    dest: tray_inv_refresh tray_inv_ensure)

lemma tray_inv_reachable: "tray_reachable st \<Longrightarrow> tray_inv st"
  by (induction rule: tray_reachable.induct) (auto intro: tray_inv_init tray_inv_step)

section \<open>A click reaches its entry\<close>

lemma clicked_entry_of:
  assumes "ids_inv st" and "e \<in> set (tr_entries st)" and "\<not> is_sep e" and "tr_next_dbus_id st < ID_LIMIT"
  shows "te_dbus_id e \<noteq> 0 \<and> (\<exists>e'. clicked_entry (tr_entries st) (te_dbus_id e) = Some e' \<and> te_id e' = te_id e)"
proof -
  let ?es = "tr_entries st"
  obtain G where G: "given_ok G (tr_id_slots st, tr_next_dbus_id st)" "entries_given G ?es"
    using assms(1) unfolding ids_inv_def by blast
  obtain key where k: "(key, te_dbus_id e) \<in> G" "fst key = is_sep e" "fst (snd (snd key)) = te_id e"
    using G(2) assms(2,3) unfolding entries_given_def by blast
  obtain j where j: "find_index (\<lambda>x. te_dbus_id x = te_dbus_id e) ?es = Some j"
    using find_index_exists [OF assms(2), of "\<lambda>x. te_dbus_id x = te_dbus_id e"] by auto
  from find_index_Some [OF j] have l: "j < length ?es" "te_dbus_id (?es ! j) = te_dbus_id e" by blast+
  then obtain key' where k': "(key', te_dbus_id e) \<in> G" "fst key' = is_sep (?es ! j)"
    "\<not> is_sep (?es ! j) \<longrightarrow> fst (snd (snd key')) = te_id (?es ! j)"
    using G(2) nth_mem [OF l(1)] unfolding entries_given_def by fastforce
  have "key' = key" using G(1) k(1) k'(1) assms(4) unfolding given_ok_def snd_conv by blast
  moreover have "1 \<le> te_dbus_id e" using G(1) k(1) assms(4) unfolding given_ok_def by fastforce
  ultimately show ?thesis using k k' assms(3) by (simp add: clicked_entry_def find_index_by_id_def j)
qed

section \<open>A dump that comes again keeps its identifiers\<close>

definition extends :: "id_table \<Rightarrow> id_table \<Rightarrow> bool" where
  "extends tab tab' \<longleftrightarrow> (\<exists>more. fst tab' = fst tab @ more)"

lemma extends_refl [simp]: "extends tab tab"
  by (simp add: extends_def)

lemma extends_trans [trans]: "extends a b \<Longrightarrow> extends b c \<Longrightarrow> extends a c"
  by (auto simp: extends_def)

lemma extends_assign: "assign_dbus_id key tab = (i, tab') \<Longrightarrow> extends tab tab'"
  by (auto simp: assign_dbus_id_def extends_def split: prod.splits option.splits if_splits)

lemma find_index_append: "find_index p xs = Some i \<Longrightarrow> find_index p (xs @ ys) = Some i"
  by (induction xs arbitrary: i) (auto split: if_splits)

lemma assign_known:
  assumes "assign_dbus_id key tab = (i, tab')" and "length (fst tab') < WP_TRAY_MAX_ID_SLOTS" and "extends tab' tab2"
  shows "assign_dbus_id key tab2 = (i, tab2)"
proof -
  obtain slots next_id where t: "tab = (slots, next_id)" by (rule prod.exhaust)
  obtain sep depth anchor ordinal where key: "key = (sep, depth, anchor, ordinal)" by (metis prod.exhaust)
  have "\<exists>j. find_index (\<lambda>s. slot_key s = key) (fst tab') = Some j \<and> is_dbus_id (fst tab' ! j) = i"
  proof (cases "find_index (\<lambda>s. slot_key s = key) slots")
    case None
    have "find_index p xs = None \<Longrightarrow> p x \<Longrightarrow> find_index p (xs @ [x]) = Some (length xs)"
      for p and x :: wp_tray_id_slot and xs
      by (induction xs) (auto split: if_splits)
    with None assms(1,2) show ?thesis
      by (auto simp: assign_dbus_id_def t key slot_key_def split: if_splits)
  qed (use assms(1) in \<open>auto simp: assign_dbus_id_def t\<close>)
  then obtain j where j: "find_index (\<lambda>s. slot_key s = key) (fst tab') = Some j" "is_dbus_id (fst tab' ! j) = i" by blast
  obtain more where m: "fst tab2 = fst tab' @ more" using assms(3) unfolding extends_def by blast
  have "j < length (fst tab')" using find_index_Some [OF j(1)] by blast
  then have "find_index (\<lambda>s. slot_key s = key) (fst tab2) = Some j" "is_dbus_id (fst tab2 ! j) = i"
    using find_index_append [OF j(1)] j(2) by (simp_all add: m nth_append)
  then show ?thesis by (cases tab2) (simp add: assign_dbus_id_def)
qed

lemma extends_assign_ids: "assign_ids es st tab = (es', tab') \<Longrightarrow> extends tab tab'"
proof (induction es st tab arbitrary: es' tab' rule: assign_ids.induct)
  case (2 e es st tab)
  obtain key st' where k: "entry_key e st = (key, st')" by (rule prod.exhaust)
  obtain i tab1 where i: "assign_dbus_id key tab = (i, tab1)" by (rule prod.exhaust)
  obtain es1 tab2 where r: "assign_ids es st' tab1 = (es1, tab2)" by (rule prod.exhaust)
  have "tab' = tab2" using "2.prems" by (simp add: k i r)
  then show ?case using "2.IH" [OF k [symmetric] i [symmetric] r] extends_assign [OF i] by (auto intro: extends_trans)
qed simp

lemma extends_length: "extends a b \<Longrightarrow> length (fst a) \<le> length (fst b)"
  by (auto simp: extends_def)

lemma assign_ids_again:
  "assign_ids es st tab = (es', tab') \<Longrightarrow> length (fst tab') < WP_TRAY_MAX_ID_SLOTS \<Longrightarrow> extends tab' tab2 \<Longrightarrow>
   assign_ids es st tab2 = (es', tab2)"
proof (induction es st tab arbitrary: es' tab' rule: assign_ids.induct)
  case (2 e es st tab)
  obtain key st' where k: "entry_key e st = (key, st')" by (rule prod.exhaust)
  obtain i tab1 where i: "assign_dbus_id key tab = (i, tab1)" by (rule prod.exhaust)
  obtain es1 tab3 where r: "assign_ids es st' tab1 = (es1, tab3)" by (rule prod.exhaust)
  have e: "es' = e\<lparr>te_dbus_id := i\<rparr> # es1" "tab' = tab3" using "2.prems"(1) by (simp_all add: k i r)
  have x: "extends tab1 tab'" using extends_assign_ids [OF r] by (simp add: e)
  have "assign_dbus_id key tab2 = (i, tab2)"
    using i extends_length [OF x] "2.prems"(2) extends_trans [OF x "2.prems"(3)] by (intro assign_known) auto
  moreover have "assign_ids es st' tab2 = (es1, tab2)"
    using "2.IH" [OF k [symmetric] i [symmetric] r] "2.prems"(2,3) e by simp
  ultimately show ?case by (simp add: k e)
qed simp

lemma extends_publish: "extends (tr_id_slots st, tr_next_dbus_id st) (tr_id_slots (publish dumps st), tr_next_dbus_id (publish dumps st))"
proof (induction dumps arbitrary: st)
  case (Cons es dumps)
  let ?st1 = "wp_tray_state_on_menu_dump_changed es st"
  have "extends (tr_id_slots st, tr_next_dbus_id st) (tr_id_slots ?st1, tr_next_dbus_id ?st1)"
    unfolding wp_tray_state_on_menu_dump_changed_def assign_stable_dbus_ids_def
    by (auto split: prod.splits dest: extends_assign_ids)
  then show ?case using Cons.IH [of ?st1] by (simp add: publish_def) (rule extends_trans)
qed (simp add: publish_def)

lemma ids_again:
  assumes "length (tr_id_slots (wp_tray_state_on_menu_dump_changed es st)) < WP_TRAY_MAX_ID_SLOTS"
  shows "tr_entries (publish (dumps @ [es]) (wp_tray_state_on_menu_dump_changed es st)) =
    tr_entries (wp_tray_state_on_menu_dump_changed es st)"
proof -
  let ?st1 = "wp_tray_state_on_menu_dump_changed es st" let ?st2 = "publish dumps ?st1"
  let ?s0 = "(replicate WP_TRAY_MAX_MENU_DEPTH 0, replicate WP_TRAY_MAX_MENU_DEPTH 0) :: u32 list \<times> u32 list"
  obtain es' slots' next' where a: "assign_ids es ?s0 (tr_id_slots st, tr_next_dbus_id st) = (es', slots', next')"
    by (metis prod.exhaust)
  have s1: "tr_entries ?st1 = es'" "tr_id_slots ?st1 = slots'" "tr_next_dbus_id ?st1 = next'"
    by (simp_all add: wp_tray_state_on_menu_dump_changed_def assign_stable_dbus_ids_def a)
  have "assign_ids es ?s0 (tr_id_slots ?st2, tr_next_dbus_id ?st2) = (es', (tr_id_slots ?st2, tr_next_dbus_id ?st2))"
    using assign_ids_again [OF a] assms extends_publish [of ?st1 dumps] by (simp add: s1)
  then have "tr_entries (wp_tray_state_on_menu_dump_changed es ?st2) = es'"
    by (simp add: wp_tray_state_on_menu_dump_changed_def assign_stable_dbus_ids_def)
  then show ?thesis by (simp add: s1 publish_def)
qed

section \<open>The layout of a menu\<close>

text \<open>A menu as a tree, its entries in the order of the dump, and the layout it ought to have.\<close>

datatype entry_tree = Entry_Tree (et_entry: wp_tray_entry) (et_children: "entry_tree list")

fun flat :: "entry_tree \<Rightarrow> wp_tray_entry list" where
  "flat (Entry_Tree e ts) = e # concat (map flat ts)"

abbreviation flats :: "entry_tree list \<Rightarrow> wp_tray_entry list" where
  "flats ts \<equiv> concat (map flat ts)"

fun at_depth :: "int \<Rightarrow> entry_tree \<Rightarrow> bool" where
  "at_depth d (Entry_Tree e ts) \<longleftrightarrow> te_depth e = d \<and> (\<forall>t \<in> set ts. at_depth (d + 1) t)"

fun layout_node :: "int \<Rightarrow> entry_tree \<Rightarrow> menu_node" where
  "layout_node remaining (Entry_Tree e ts) =
     Menu_Node (te_dbus_id e) (node_properties (Some e) (ts \<noteq> []))
       (if remaining = 0 then [] else map (layout_node (if 0 < remaining then remaining - 1 else remaining)) ts)"

definition two_levels :: "entry_tree \<Rightarrow> bool" where
  "two_levels t \<longleftrightarrow> (\<forall>c \<in> set (et_children t). et_children c = [])"

abbreviation ends_level :: "int \<Rightarrow> wp_tray_entry list \<Rightarrow> bool" where
  "ends_level d rest \<equiv> rest = [] \<or> te_depth (hd rest) < d"

lemma hd_flats: "ts \<noteq> [] \<Longrightarrow> \<forall>t \<in> set ts. at_depth d t \<Longrightarrow> flats ts \<noteq> [] \<and> te_depth (hd (flats ts)) = d"
  by (cases ts; cases "hd ts") auto

lemma has_children_flats:
  assumes "\<forall>t \<in> set ts. at_depth d t" and "rest = [] \<or> te_depth (hd rest) \<noteq> d"
  shows "has_children (flats ts @ rest) d \<longleftrightarrow> ts \<noteq> []"
  using hd_flats [of ts d] assms by (cases "ts = []") (auto simp: has_children_def)

lemma run_none: "es = [] \<or> te_depth (hd es) \<noteq> d \<Longrightarrow> children_run_length es d = 0"
  by (cases es) auto

lemma length_flats_leaves: "\<forall>u \<in> set us. at_depth d u \<and> et_children u = [] \<Longrightarrow> length (flats us) = length us"
proof (induction us)
  case (Cons u us)
  then show ?case by (cases u) simp
qed simp

lemma run_leaves:
  assumes "\<forall>t \<in> set ts. at_depth d t \<and> et_children t = []" and "rest = [] \<or> te_depth (hd rest) \<noteq> d"
  shows "children_run_length (flats ts @ rest) d = length ts"
  using assms
proof (induction ts)
  case Nil
  then show ?case by (cases rest) auto
next
  case (Cons t ts)
  obtain e where "t = Entry_Tree e []" using Cons.prems(1) by (cases t) auto
  with Cons show ?case by simp
qed

lemma layout_leaves:
  assumes "\<forall>t \<in> set ts. at_depth d t \<and> et_children t = []" and "ends_level d rest"
  shows "build_children (flats ts @ rest) d remaining = map (layout_node remaining) ts"
  using assms
proof (induction ts)
  case Nil
  then show ?case by (cases rest) auto
next
  case (Cons t ts)
  obtain e where t: "t = Entry_Tree e []" using Cons.prems(1) by (cases t) auto
  have n: "flats ts @ rest = [] \<or> te_depth (hd (flats ts @ rest)) \<noteq> d + 1"
    using hd_flats [of ts d] Cons.prems by (cases "ts = []") auto
  then have h: "\<not> has_children (flats ts @ rest) (d + 1)" by (auto simp: has_children_def)
  have r: "children_run_length (flats ts @ rest) (d + 1) = 0"
    using n by (rule run_none)
  show ?case using Cons h r by (simp add: t)
qed

lemma layout_two_level_forest:
  assumes "\<forall>t \<in> set ts. at_depth d t \<and> two_levels t" and "ends_level d rest"
  shows "build_children (flats ts @ rest) d remaining = map (layout_node remaining) ts"
  using assms
proof (induction ts)
  case Nil
  then show ?case by (cases rest) auto
next
  case (Cons t ts)
  obtain e us where t: "t = Entry_Tree e us" by (cases t)
  then have us: "\<forall>u \<in> set us. at_depth (d + 1) u \<and> et_children u = []" and e: "te_depth e = d"
    using Cons.prems(1) by (auto simp: two_levels_def)
  let ?rest = "flats ts @ rest"
  have er: "ends_level (d + 1) ?rest" using hd_flats [of ts d] Cons.prems by (cases "ts = []") auto
  then have nr: "?rest = [] \<or> te_depth (hd ?rest) \<noteq> d + 1" by auto
  have "has_children (flats us @ ?rest) (d + 1) \<longleftrightarrow> us \<noteq> []" using us nr by (intro has_children_flats) auto
  moreover have "build_children (flats us @ ?rest) (d + 1) k = map (layout_node k) us" for k
    using us er by (rule layout_leaves)
  moreover have "drop (children_run_length (flats us @ ?rest) (d + 1)) (flats us @ ?rest) = ?rest"
  proof -
    have "length (flats us) = length us" using us by (rule length_flats_leaves)
    then show ?thesis using run_leaves [OF us nr] by simp
  qed
  ultimately show ?case using Cons e by (auto simp: t)
qed

text \<open>A child with children of its own ends the run, and with it the list of its parent's siblings.\<close>

lemma layout_after_three_levels:
  assumes "at_depth d t" and "\<not> two_levels t"
  shows "\<exists>n. build_children (flat t @ rest) d remaining = [n]"
proof -
  obtain e us where t: "t = Entry_Tree e us" by (cases t)
  have "\<exists>u \<in> set us. et_children u \<noteq> []" using assms(2) by (auto simp: two_levels_def t)
  then obtain vs v ws where u: "us = vs @ v # ws" "et_children v \<noteq> []" "\<forall>x \<in> set vs. \<not> et_children x \<noteq> []"
    using split_list_first_prop [of us "\<lambda>u. et_children u \<noteq> []"] by blast
  obtain x cs where v: "v = Entry_Tree x cs" by (cases v)
  have us: "\<forall>u \<in> set us. at_depth (d + 1) u" and e: "te_depth e = d" using assms(1) by (auto simp: t)
  have vs: "\<forall>u \<in> set vs. at_depth (d + 1) u \<and> et_children u = []" using us u(1,3) by auto
  let ?after = "flats cs @ flats ws @ rest"
  have fl: "flats us @ rest = (flats (vs @ [Entry_Tree x []])) @ ?after" by (simp add: u(1) v)
  have cs: "\<forall>c \<in> set cs. at_depth (d + 2) c" "cs \<noteq> []" using us u(1,2) by (auto simp: v add.assoc)
  from hd_flats [OF cs(2,1)] have hd: "?after \<noteq> []" "te_depth (hd ?after) = d + 2" by auto
  have "\<forall>u \<in> set (vs @ [Entry_Tree x []]). at_depth (d + 1) u \<and> et_children u = []"
    using vs us u(1) by (auto simp: v)
  then have run: "children_run_length (flats us @ rest) (d + 1) = length vs + 1"
    using run_leaves [of "vs @ [Entry_Tree x []]" "d + 1" ?after] hd unfolding fl by simp
  have "length (flats vs) = length vs" using vs by (rule length_flats_leaves)
  then have "drop (length vs + 1) (flats us @ rest) = ?after" unfolding fl by simp
  moreover have "build_children ?after d remaining = []"
    using hd by (cases ?after) auto
  ultimately show ?thesis using e run by (simp add: t)
qed

lemma layout_loses:
  assumes "\<forall>t \<in> set ts. at_depth d t \<and> two_levels t" and "at_depth d t" and "\<not> two_levels t"
  shows "length (build_children (flats ts @ flat t @ rest) d remaining) = length ts + 1"
  using assms(1)
proof (induction ts)
  case Nil
  then show ?case using layout_after_three_levels [OF assms(2,3), of rest remaining] by auto
next
  case (Cons s ts)
  obtain e us where s: "s = Entry_Tree e us" by (cases s)
  then have us: "\<forall>u \<in> set us. at_depth (d + 1) u \<and> et_children u = []" and e: "te_depth e = d"
    using Cons.prems by (auto simp: two_levels_def)
  let ?rest = "flats ts @ flat t @ rest"
  have "flat t \<noteq> [] \<and> te_depth (hd (flat t)) = d" using assms(2) by (cases t) auto
  then have nr: "?rest = [] \<or> te_depth (hd ?rest) \<noteq> d + 1"
    using hd_flats [of ts d] Cons.prems by (cases "ts = []") auto
  have "length (flats us) = length us" using us by (rule length_flats_leaves)
  then have "drop (children_run_length (flats us @ ?rest) (d + 1)) (flats us @ ?rest) = ?rest"
    using run_leaves [OF us nr] by simp
  with Cons e show ?case by (simp add: s)
qed

section \<open>The wait for a fresh menu\<close>

lemma publish_simps [simp]: "publish [] st = st" "publish (es # dumps) st = publish dumps (wp_tray_state_on_menu_dump_changed es st)"
  by (simp_all add: publish_def)

lemma dump_fields [simp]:
  "tr_generation (wp_tray_state_on_menu_dump_changed es st) = tr_generation st + 1"
  "tr_revision (wp_tray_state_on_menu_dump_changed es st) = tr_revision st"
  "tr_out (wp_tray_state_on_menu_dump_changed es st) = tr_out st"
  "tr_refresh_in_progress (wp_tray_state_on_menu_dump_changed es st) = tr_refresh_in_progress st"
  by (simp_all add: wp_tray_state_on_menu_dump_changed_def split: prod.splits)

lemma publish_fields [simp]:
  "tr_generation (publish dumps st) = tr_generation st + length dumps" "tr_revision (publish dumps st) = tr_revision st"
  "tr_out (publish dumps st) = tr_out st" "tr_refresh_in_progress (publish dumps st) = tr_refresh_in_progress st"
  by (induction dumps arbitrary: st) simp_all

lemma emit_fields [simp]:
  "tr_generation (emit x st) = tr_generation st" "tr_revision (emit x st) = tr_revision st"
  "tr_out (emit x st) = tr_out st @ [x]" "tr_refresh_in_progress (emit x st) = tr_refresh_in_progress st"
  "tr_entries (emit x st) = tr_entries st"
  by (simp_all add: emit_def)

abbreviation is_click :: "tray_output \<Rightarrow> bool" where
  "is_click x \<equiv> x = Click 1"

lemma await_result:
  "await_dump deadline start now ws st = Some (r, ws', st') \<Longrightarrow> start \<le> tr_generation st \<Longrightarrow>
   start \<le> tr_generation st' \<and> (r \<longleftrightarrow> tr_generation st' = start) \<and> tr_revision st' = tr_revision st \<and>
   (\<exists>n. tr_out st' = tr_out st @ replicate n (Click 1))"
proof (induction deadline start now ws st rule: await_dump.induct)
  case (1 deadline start now st)
  then show ?case by (auto split: if_splits intro: exI [of _ 0])
next
  case (2 deadline start now w ws st)
  let ?st1 = "publish (wr_dumps w) st"
  consider (a) "tr_generation st \<noteq> start" | (b) "tr_generation st = start" "tr_generation ?st1 \<noteq> start"
    | (c) "tr_generation ?st1 = start" "deadline \<le> now + MENU_REFRESH_RETRY_INTERVAL_SEC * NS"
    | (d) "tr_generation st = start" "tr_generation ?st1 = start" "\<not> deadline \<le> now + MENU_REFRESH_RETRY_INTERVAL_SEC * NS"
    using "2.prems"(2) by fastforce
  then show ?case
  proof cases
    case d
    let ?st2 = "if wr_timeout w then publish (wr_click_dumps w) (emit (Click 1) ?st1) else ?st1"
    have "start \<le> tr_generation ?st2" using d by simp
    moreover have "await_dump deadline start (wr_now w) ws ?st2 = Some (r, ws', st')"
      using d "2.prems"(1) by (simp add: Let_def split del: if_split cong: if_cong)
    ultimately obtain n where *: "start \<le> tr_generation st'" "r \<longleftrightarrow> tr_generation st' = start" "tr_revision st' = tr_revision ?st2"
      "tr_out st' = tr_out ?st2 @ replicate n (Click 1)"
      using "2.IH" [OF _ refl refl] d by fastforce
    then show ?thesis by (cases "wr_timeout w") (auto intro: exI [of _ "Suc n"])
  qed (use "2.prems" in \<open>auto simp: Let_def intro: exI [of _ 0]\<close>)
qed

lemma settle_result:
  "settle ws st = Some (ws', st') \<Longrightarrow>
   tr_generation st \<le> tr_generation st' \<and> tr_revision st' = tr_revision st \<and> tr_out st' = tr_out st"
  by (induction ws st rule: settle.induct) (auto simp: Let_def split: if_splits)

lemma refresh_contract:
  assumes "refresh_menu_from_win32 now early ws st = Some (r, ws', st')" and "\<not> tr_refresh_in_progress st"
  shows "(r \<longleftrightarrow> tr_generation st' \<noteq> tr_generation st) \<and> \<not> tr_refresh_in_progress st' \<and>
     tr_revision st' = tr_revision st + (if r then 1 else 0) \<and>
     (\<exists>n. tr_out st' = tr_out st @ replicate (Suc n) (Click 1) @ (if r then [Layout_Updated (tr_revision st')] else []))"
  using assms(1)
proof (cases rule: refresh_cases)
  case (gave_up st1)
  have "tr_generation st \<le> tr_generation (asked early st)" by simp
  from await_result [OF gave_up(3) this] gave_up(2,4) show ?thesis by auto
next
  case (fetched ws1 st1 st2)
  have "tr_generation st \<le> tr_generation (asked early st)" by simp
  from await_result [OF fetched(3) this] settle_result [OF fetched(4)] fetched(2,5) show ?thesis by auto
qed (use assms(2) in simp)

text \<open>Waits in which no menu arrives and the clock advances by at least the retry interval.\<close>

fun silent_waits :: "int \<Rightarrow> wait_result list \<Rightarrow> bool" where
  "silent_waits now [] \<longleftrightarrow> True"
| "silent_waits now (w # ws) \<longleftrightarrow> wr_dumps w = [] \<and> wr_click_dumps w = [] \<and> now + NS \<le> wr_now w \<and> silent_waits (wr_now w) ws"

lemma await_gives_up:
  "silent_waits now ws \<Longrightarrow> deadline \<le> now + int n * NS \<Longrightarrow> 1 \<le> n \<Longrightarrow> n \<le> length ws \<Longrightarrow> tr_generation st = start \<Longrightarrow>
   \<exists>k st'. k \<le> n \<and> await_dump deadline start now ws st = Some (True, drop k ws, st') \<and>
     (\<exists>m < n. tr_out st' = tr_out st @ replicate m (Click 1))"
proof (induction n arbitrary: now ws st)
  case (Suc n)
  then obtain w ws1 where ws: "ws = w # ws1" by (cases ws) auto
  with Suc.prems(1) have w: "wr_dumps w = []" "wr_click_dumps w = []" "now + NS \<le> wr_now w" "silent_waits (wr_now w) ws1"
    by simp_all
  show ?case
  proof (cases "deadline \<le> now + MENU_REFRESH_RETRY_INTERVAL_SEC * NS")
    case True
    with w Suc.prems(5) show ?thesis
      by (intro exI [of _ 1] exI [of _ st]) (auto simp: ws Let_def intro: exI [of _ 0])
  next
    case False
    then have n: "1 \<le> n" using Suc.prems(2) by (cases n) (simp_all add: MENU_REFRESH_RETRY_INTERVAL_SEC_def)
    let ?st = "if wr_timeout w then emit (Click 1) st else st"
    have "deadline \<le> wr_now w + int n * NS" using Suc.prems(2) w(3) by (simp add: algebra_simps)
    moreover have g: "tr_generation ?st = start" "n \<le> length ws1" using Suc.prems(4,5) by (simp_all add: ws)
    ultimately obtain k st' m where k: "k \<le> n" "await_dump deadline start (wr_now w) ws1 ?st = Some (True, drop k ws1, st')"
      "m < n" "tr_out st' = tr_out ?st @ replicate m (Click 1)"
      using Suc.IH [OF w(4) _ n g(2,1)] by blast
    have "await_dump deadline start now ws st = Some (True, drop (Suc k) ws, st')"
      using False w(1,2) Suc.prems(5) k(2) by (simp add: ws Let_def split del: if_split cong: if_cong)
    moreover have "\<exists>m < Suc n. tr_out st' = tr_out st @ replicate m (Click 1)"
      using k(3,4) by (cases "wr_timeout w") (auto intro: exI [of _ "Suc m"] exI [of _ m])
    ultimately show ?thesis using k(1) by (intro exI [of _ "Suc k"] exI [of _ st']) simp
  qed
qed simp

lemma refresh_times_out:
  assumes "silent_waits now ws" and "8 \<le> length ws" and "\<not> tr_refresh_in_progress st"
  shows "\<exists>k st'. k \<le> 8 \<and> refresh_menu_from_win32 now [] ws st = Some (False, drop k ws, st') \<and>
     (\<exists>m \<le> 8. tr_out st' = tr_out st @ replicate m (Click 1))"
proof -
  let ?st = "asked [] st"
  have "now + MENU_REFRESH_TIMEOUT_SEC * NS \<le> now + int 8 * NS" by (simp add: MENU_REFRESH_TIMEOUT_SEC_def)
  from await_gives_up [OF assms(1) this _ assms(2), of ?st "tr_generation st"]
  obtain k st' m where k: "k \<le> 8" "m < 8" "tr_out st' = tr_out ?st @ replicate m (Click 1)"
    "await_dump (now + MENU_REFRESH_TIMEOUT_SEC * NS) (tr_generation st) now ws ?st = Some (True, drop k ws, st')" by auto
  then have "refresh_menu_from_win32 now [] ws st = Some (False, drop k ws, st'\<lparr>tr_refresh_in_progress := False\<rparr>)"
    using assms(3) by (simp add: refresh_menu_from_win32_def)
  with k(1-3) show ?thesis
    by (intro exI [of _ k] exI [of _ "st'\<lparr>tr_refresh_in_progress := False\<rparr>"]) (auto intro!: exI [of _ "Suc m"])
qed

section \<open>From the menu of the desktop to the window of Windows\<close>

lemma published_entries:
  assumes "ids_inv st"
  shows "\<exists>ids. length ids = length es \<and> tr_entries (wp_tray_state_on_menu_dump_changed es st) =
    map2 (\<lambda>e i. e\<lparr>te_dbus_id := i\<rparr>) es ids"
proof -
  obtain G where G: "given_ok G (tr_id_slots st, tr_next_dbus_id st)" using assms unfolding ids_inv_def by blast
  let ?s0 = "(replicate WP_TRAY_MAX_MENU_DEPTH 0, replicate WP_TRAY_MAX_MENU_DEPTH 0) :: u32 list \<times> u32 list"
  obtain es' slots' next' where a: "assign_ids es ?s0 (tr_id_slots st, tr_next_dbus_id st) = (es', slots', next')"
    by (metis prod.exhaust)
  have l: "length es' = length es" and n: "\<forall>k < length es. es' ! k = (es ! k)\<lparr>te_dbus_id := te_dbus_id (es' ! k)\<rparr>"
    using assign_ids_given [OF G a] by blast+
  then have "es' = map2 (\<lambda>e i. e\<lparr>te_dbus_id := i\<rparr>) es (map te_dbus_id es')" by (intro nth_equalityI) auto
  then show ?thesis using l
    by (intro exI [of _ "map te_dbus_id es'"]) (simp add: wp_tray_state_on_menu_dump_changed_def assign_stable_dbus_ids_def a)
qed

lemma command_trigger_value: "trigger_value (u32le v) = Some v"
  using read_u32le_at [of "[]" v "[]"] by (simp add: trigger_value_def)

lemma make_long_zero: "make_long l 0 = ucast l"
  unfolding make_long_def by (rule bit_word_eqI) (auto simp: bit_simps dest: bit_imp_le_length)

lemma command_posted:
  assumes "wp_menu_command_path vars 1024 \<noteq> None" and "sh_menu_owner sh \<noteq> 0"
  shows "sh_posted (fst (handle_command_trigger (sh, wp_tray_send_menu_command vars True i files))) =
    sh_posted sh @ [\<lparr>pm_hwnd = sh_menu_owner sh, pm_msg = WM_COMMAND, pm_wparam = ucast (ucast i :: u16), pm_lparam = 0\<rparr>]"
  using assms by (auto simp: wp_tray_send_menu_command_def handle_command_trigger_def command_trigger_value post_def make_long_zero)

lemma shown_menu_step:
  assumes "menus hMenu = Some m" and "inotify_event_matches names filename"
    and "\<forall>(depth, i, st, ty, t) \<in> set (menu_items 0 m). NUL \<notin> set (menu_text t)"
    and "length (concat (map item_line (menu_items 0 m))) < MENU_BUF" and "length (menu_items 0 m) \<le> WP_TRAY_MAX_ENTRIES"
    and "it \<in> set (menu_items 0 m)"
  shows "menu_watcher_step names filename (sf_menu (snd (fake_TrackPopupMenu True menus hMenu hWnd s))) st =
      wp_tray_state_on_menu_dump_changed (map item_entry (menu_items 0 m)) st"
proof -
  have "wp_tray_parse_menu_dump (serialize_menu (Some m) 0 []) = map item_entry (menu_items 0 m)"
    using parsed_dump [OF assms(3)] assms(4,5) by auto
  moreover have "map item_entry (menu_items 0 m) \<noteq> []" using assms(6) by auto
  ultimately show ?thesis
    using assms(1,2) by (simp add: menu_watcher_step_def fake_TrackPopupMenu_def dump_menu_to_file_def Let_def)
qed

lemma dump_next: "tr_next_dbus_id (wp_tray_state_on_menu_dump_changed es st) \<le> tr_next_dbus_id st + int (length es)"
  using assign_ids_next [where tab = "(tr_id_slots st, tr_next_dbus_id st)" and es = es]
  by (fastforce simp: wp_tray_state_on_menu_dump_changed_def assign_stable_dbus_ids_def split: prod.splits)

lemma shown_menu_entries:
  assumes "ids_inv st" and "menus hMenu = Some m" and "inotify_event_matches names filename"
    and "\<forall>(depth, i, st, ty, t) \<in> set (menu_items 0 m). NUL \<notin> set (menu_text t)"
    and "length (concat (map item_line (menu_items 0 m))) < MENU_BUF" and "length (menu_items 0 m) \<le> WP_TRAY_MAX_ENTRIES"
    and "it \<in> set (menu_items 0 m)"
  shows "\<exists>e \<in> set (tr_entries (menu_watcher_step names filename
      (sf_menu (snd (fake_TrackPopupMenu True menus hMenu hWnd s))) st)). \<exists>i. e = (item_entry it)\<lparr>te_dbus_id := i\<rparr>"
proof -
  note shown_menu_step [where menus = menus and hMenu = hMenu, OF assms(2-7)]
  moreover obtain ids where ids: "length ids = length (map item_entry (menu_items 0 m))"
    "tr_entries (wp_tray_state_on_menu_dump_changed (map item_entry (menu_items 0 m)) st) =
       map2 (\<lambda>e i. e\<lparr>te_dbus_id := i\<rparr>) (map item_entry (menu_items 0 m)) ids"
    using published_entries [OF assms(1)] by blast
  moreover obtain k where k: "k < length (menu_items 0 m)" "menu_items 0 m ! k = it"
    using assms(7) by (auto simp: in_set_conv_nth)
  then have "(item_entry it)\<lparr>te_dbus_id := ids ! k\<rparr> \<in> set (map2 (\<lambda>e i. e\<lparr>te_dbus_id := i\<rparr>) (map item_entry (menu_items 0 m)) ids)"
    using ids(1) by (force simp: in_set_conv_nth)
  ultimately show ?thesis by metis
qed

section \<open>Properties\<close>

text \<open>
  C18. In every reachable state of the tray service in which the 32 bit counter of identifiers has not
  overflowed, a click on an entry that is no separator sends the Windows identifier of exactly this
  entry, whatever dumps were published before and even when the table of identifiers is full: no two
  entries with different Windows identifiers are shown under one identifier, and none under the
  identifier 0 of the root.
\<close>

theorem menu_click_resolves:
  assumes "tray_reachable st" and "e \<in> set (tr_entries st)" and "\<not> is_sep e" and "tr_next_dbus_id st < ID_LIMIT"
  shows "handle_menu_event (te_dbus_id e) ''clicked'' st = (Reply_Empty, emit (Menu_Command (te_id e)) st)"
  using clicked_entry_of [OF _ assms(2,3,4)] tray_inv_reachable [OF assms(1)]
  by (auto simp: handle_menu_event_def tray_inv_def)

text \<open>
  Identifiers are stable: when the same menu is dumped again, after any other dumps, its entries
  get the identifiers they had, as long as the table was not full after the first time.
\<close>

theorem menu_ids_stable:
  assumes "length (tr_id_slots (wp_tray_state_on_menu_dump_changed es st)) < WP_TRAY_MAX_ID_SLOTS"
  shows "tr_entries (publish (dumps @ [es]) (wp_tray_state_on_menu_dump_changed es st)) =
    tr_entries (wp_tray_state_on_menu_dump_changed es st)"
  using assms by (rule ids_again)

text \<open>
  For a menu of at most two levels the layout sent to the desktop is the tree of its entries:
  every entry once, in order, with the properties of its kind and with its children, down to the
  depth that was asked for.
\<close>

theorem layout_is_tree:
  assumes "\<forall>t \<in> set ts. at_depth 0 t \<and> two_levels t"
  shows "layout_of (flats ts) 0 remaining = Some (Menu_Node 0 [] (if remaining = 0 then []
     else map (layout_node (if 0 < remaining then remaining - 1 else remaining)) ts))"
proof -
  have "build_children (flats ts) 0 k = map (layout_node k) ts" for k
    using layout_two_level_forest [OF assms(1), of "[]" k] by simp
  moreover have "has_children (flats ts) 0 \<longleftrightarrow> ts \<noteq> []"
    using has_children_flats [of ts 0 "[]"] assms(1) by simp
  ultimately show ?thesis
    by (auto simp: layout_of_def build_menu_node_def Let_def node_properties_def compute_node_properties_def
        append_node_properties_def no_props_def)
qed

text \<open>
  Below two levels the layout is wrong: the entries after the first one with a menu of three
  levels are lost, whatever they are, because only the direct children are counted when the
  children of an entry are skipped.
\<close>

theorem layout_drops_siblings:
  assumes "\<forall>t \<in> set ts. at_depth d t \<and> two_levels t" and "at_depth d t" and "\<not> two_levels t"
  shows "length (build_children (flats ts @ flat t @ rest) d remaining) = length ts + 1"
  using assms by (rule layout_loses)

text \<open>
  A refresh that no other thread is doing reports success exactly when a dump arrived, and then
  raises the revision by one and announces it once; in every case it has asked Windows at least
  once and is no longer in progress.
\<close>

theorem refresh_reports_dump:
  assumes "refresh_menu_from_win32 now early ws st = Some (r, ws', st')" and "\<not> tr_refresh_in_progress st"
  shows "(r \<longleftrightarrow> tr_generation st' \<noteq> tr_generation st) \<and> \<not> tr_refresh_in_progress st' \<and>
     tr_revision st' = tr_revision st + (if r then 1 else 0) \<and>
     (\<exists>n. tr_out st' = tr_out st @ replicate (Suc n) (Click 1) @ (if r then [Layout_Updated (tr_revision st')] else []))"
  using assms by (rule refresh_contract)

text \<open>
  C35. A refresh that Windows does not answer gives up: if every wait lasts its retry interval, after
  at most eight waits and eight clicks.
\<close>

theorem refresh_gives_up:
  assumes "silent_waits now ws" and "8 \<le> length ws" and "\<not> tr_refresh_in_progress st"
  shows "\<exists>k st'. k \<le> 8 \<and> refresh_menu_from_win32 now [] ws st = Some (False, drop k ws, st') \<and>
     (\<exists>m \<le> 8. tr_out st' = tr_out st @ replicate m (Click 1))"
  using assms by (rule refresh_times_out)

text \<open>
  C17. A menu of Windows makes the round: after Windows shows it (and the shim dumps it), the watcher
  of the daemon has an entry for each of its items with its text, its state and its depth, and a click on that
  entry posts to the window that owns the menu the command with the low half of the item's
  identifier, provided the dump fits and is not too long and the 32 bit counter of identifiers has
  room for its entries.
\<close>

theorem menu_item_round_trip:
  assumes "tray_reachable st" and "menus hMenu = Some m" and "inotify_event_matches names filename"
    and "\<forall>(depth, i, st, ty, t) \<in> set (menu_items 0 m). NUL \<notin> set (menu_text t)"
    and "length (concat (map item_line (menu_items 0 m))) < MENU_BUF" and "length (menu_items 0 m) \<le> WP_TRAY_MAX_ENTRIES"
    and "it \<in> set (menu_items 0 m)" and "\<not> is_sep (item_entry it)"
    and "wp_menu_command_path vars 1024 \<noteq> None" and "hWnd \<noteq> 0"
    and "tr_next_dbus_id st + int (length (menu_items 0 m)) < ID_LIMIT"
    and "s1 = fake_TrackPopupMenu True menus hMenu hWnd s" and "st1 = menu_watcher_step names filename (sf_menu (snd s1)) st"
  shows "\<exists>e \<in> set (tr_entries st1). (\<exists>i. e = (item_entry it)\<lparr>te_dbus_id := i\<rparr>) \<and>
     (\<exists>c. snd (handle_menu_event (te_dbus_id e) ''clicked'' st1) = emit (Menu_Command c) st1 \<and>
       sh_posted (fst (handle_command_trigger (fst s1, wp_tray_send_menu_command vars True c (snd s1)))) =
         sh_posted (fst s1) @ [\<lparr>pm_hwnd = hWnd, pm_msg = WM_COMMAND,
           pm_wparam = ucast (ucast (te_id (item_entry it)) :: u16), pm_lparam = 0\<rparr>])"
proof -
  have inv: "ids_inv st" using tray_inv_reachable [OF assms(1)] by (simp add: tray_inv_def)
  have "tray_inv st1" unfolding assms(13)
    using tray_inv_step [OF tray_step.watcher tray_inv_reachable [OF assms(1)]] .
  then have inv1: "ids_inv st1" by (simp add: tray_inv_def)
  obtain e i where e: "e \<in> set (tr_entries st1)" "e = (item_entry it)\<lparr>te_dbus_id := i\<rparr>"
    using shown_menu_entries [where hWnd = hWnd and s = s and menus = menus and hMenu = hMenu, OF inv assms(2,3,4,5,6,7)] unfolding assms(12,13) by blast
  have "\<not> is_sep e" "te_id e = te_id (item_entry it)" using assms(8) by (simp_all add: e(2))
  moreover have "tr_next_dbus_id st1 < ID_LIMIT"
    using shown_menu_step [where menus = menus and hMenu = hMenu, OF assms(2-7)] dump_next [of "map item_entry (menu_items 0 m)" st] assms(11)
    by (simp add: assms(12,13))
  ultimately have "snd (handle_menu_event (te_dbus_id e) ''clicked'' st1) = emit (Menu_Command (te_id (item_entry it))) st1"
    using clicked_entry_of [OF inv1 e(1)] by (auto simp: handle_menu_event_def)
  moreover have "sh_menu_owner (fst s1) = hWnd" by (simp add: assms(12) fake_TrackPopupMenu_def)
  ultimately show ?thesis using e command_posted [OF assms(9), of "fst s1"] assms(10) by (intro bexI [of _ e]) auto
qed

section \<open>Instances\<close>

definition demo_entry :: "int \<Rightarrow> u32 \<Rightarrow> wp_tray_entry" where
  "demo_entry d i = \<lparr>te_depth = d, te_id = i, te_state = 0, te_type_flags = 0, te_text = ''x'', te_dbus_id = 0\<rparr>"

definition demo_item :: menu_item where
  "demo_item = (0, 40001, 0, 0, Some ''Settings'')"

lemma demo_items: "menu_items 0 demo_menu = [demo_item, (0, 0, 0, 0x800, None),
    (0, 7, 8, 0, Some (''a'' @ [TAB] @ ''b'')), (1, 40002, 3, 0, Some ''Pause'')]"
  by (simp add: demo_menu_def demo_item_def)

lemma demo_menu_fits:
  "\<forall>(depth, i, st, ty, t) \<in> set (menu_items 0 demo_menu). NUL \<notin> set (menu_text t)"
  "length (concat (map item_line (menu_items 0 demo_menu))) < MENU_BUF"
  "length (menu_items 0 demo_menu) \<le> WP_TRAY_MAX_ENTRIES" "demo_item \<in> set (menu_items 0 demo_menu)"
  "\<not> is_sep (item_entry demo_item)" "inotify_event_matches [''menu''] ''menu''"
  by (simp_all add: demo_items demo_item_def menu_text_def item_line_def menu_line_def show_nat.simps show_hex.simps
      MENU_BUF_def WP_TRAY_MAX_ENTRIES_def is_sep_def item_entry_def WP_TRAY_MFT_SEPARATOR_def
      inotify_event_matches_def cstr_def)

abbreviation demo_shown :: "shim_state \<times> tray_shared" where
  "demo_shown \<equiv> fake_TrackPopupMenu True (\<lambda>_. Some demo_menu) 3 99
     (shim_init, \<lparr>sf_menu = None, sf_icon = None, sf_click = None, sf_command = None\<rparr>)"

lemma menu_click_resolves_witness:
  "\<exists>st e. tray_reachable st \<and> e \<in> set (tr_entries st) \<and> \<not> is_sep e \<and>
     handle_menu_event (te_dbus_id e) ''clicked'' st = (Reply_Empty, emit (Menu_Command (te_id e)) st)"
proof -
  let ?st = "menu_watcher_step [''menu''] ''menu'' (sf_menu (snd demo_shown)) tray_init"
  have r: "tray_reachable ?st" by (rule tray_next [OF tray_start tray_step.watcher])
  have "ids_inv tray_init" using tray_inv_init by (simp add: tray_inv_def)
  from shown_menu_entries [where menus = "\<lambda>_. Some demo_menu" and hMenu = 3, OF this refl demo_menu_fits(6) demo_menu_fits(1-4)]
  obtain e i where e: "e \<in> set (tr_entries ?st)" "e = (item_entry demo_item)\<lparr>te_dbus_id := i\<rparr>" by blast
  have "\<not> is_sep e" using demo_menu_fits(5) by (simp add: e(2))
  moreover have "tr_next_dbus_id ?st < ID_LIMIT"
    using shown_menu_step [where menus = "\<lambda>_. Some demo_menu" and hMenu = 3 and hWnd = 99, OF refl demo_menu_fits(6,1-4)]
      dump_next [of "map item_entry (menu_items 0 demo_menu)" tray_init]
    by (simp add: demo_items tray_init_def)
  ultimately show ?thesis using menu_click_resolves [OF r e(1)] r e(1) by blast
qed

lemma menu_ids_stable_witness:
  "tr_entries (publish ([[demo_entry 0 9]] @ [[demo_entry 0 5]]) (wp_tray_state_on_menu_dump_changed [demo_entry 0 5] tray_init)) =
     tr_entries (wp_tray_state_on_menu_dump_changed [demo_entry 0 5] tray_init)"
  by (rule menu_ids_stable)
    (simp add: wp_tray_state_on_menu_dump_changed_def assign_stable_dbus_ids_def tray_init_def entry_key_def Let_def
      assign_dbus_id_def WP_TRAY_MAX_ID_SLOTS_def split: prod.splits)

lemma layout_is_tree_witness:
  "layout_of [demo_entry 0 5, demo_entry 1 6, demo_entry 0 7] 0 (- 1) =
     Some (Menu_Node 0 [] (map (layout_node (- 1))
       [Entry_Tree (demo_entry 0 5) [Entry_Tree (demo_entry 1 6) []], Entry_Tree (demo_entry 0 7) []]))"
  using layout_is_tree [of "[Entry_Tree (demo_entry 0 5) [Entry_Tree (demo_entry 1 6) []], Entry_Tree (demo_entry 0 7) []]" "- 1"]
  by (simp add: demo_entry_def two_levels_def)

lemma layout_drops_siblings_witness:
  "length (build_children [demo_entry 0 5, demo_entry 1 6, demo_entry 2 7, demo_entry 0 8] 0 (- 1)) = 1"
  using layout_drops_siblings [of "[]" 0 "Entry_Tree (demo_entry 0 5) [Entry_Tree (demo_entry 1 6) [Entry_Tree (demo_entry 2 7) []]]"
      "[demo_entry 0 8]" "- 1"]
  by (simp add: demo_entry_def two_levels_def)

definition demo_wait :: "wp_tray_entry list list \<Rightarrow> int \<Rightarrow> wait_result" where
  "demo_wait dumps now = \<lparr>wr_dumps = dumps, wr_timeout = True, wr_click_dumps = [], wr_now = now, wr_other_done = False\<rparr>"

lemma refresh_reports_dump_witness:
  "\<exists>r ws' st'. refresh_menu_from_win32 0 [] [demo_wait [[demo_entry 0 5]] NS, demo_wait [] (2 * NS)] tray_init = Some (r, ws', st') \<and>
     (r \<longleftrightarrow> tr_generation st' \<noteq> tr_generation tray_init) \<and> \<not> tr_refresh_in_progress st' \<and>
     tr_revision st' = tr_revision tray_init + (if r then 1 else 0) \<and>
     (\<exists>n. tr_out st' = tr_out tray_init @ replicate (Suc n) (Click 1) @ (if r then [Layout_Updated (tr_revision st')] else []))"
proof -
  have "\<exists>x. refresh_menu_from_win32 0 [] [demo_wait [[demo_entry 0 5]] NS, demo_wait [] (2 * NS)] tray_init = Some x"
    by (simp add: refresh_menu_from_win32_def demo_wait_def Let_def tray_init_def) blast
  then obtain r ws' st' where x:
    "refresh_menu_from_win32 0 [] [demo_wait [[demo_entry 0 5]] NS, demo_wait [] (2 * NS)] tray_init = Some (r, ws', st')"
    by (metis prod.exhaust)
  have "\<not> tr_refresh_in_progress tray_init" by (simp add: tray_init_def)
  from refresh_reports_dump [OF x this] x show ?thesis by blast
qed

lemma refresh_gives_up_witness:
  "\<exists>k st'. k \<le> 8 \<and> refresh_menu_from_win32 0 [] (map (\<lambda>n. demo_wait [] (int (n + 1) * NS)) [0..<8]) tray_init =
       Some (False, drop k (map (\<lambda>n. demo_wait [] (int (n + 1) * NS)) [0..<8]), st') \<and>
     (\<exists>m \<le> 8. tr_out st' = tr_out tray_init @ replicate m (Click 1))"
  by (rule refresh_gives_up) (simp_all add: demo_wait_def tray_init_def upt_rec)

lemma menu_item_round_trip_witness:
  "\<exists>e \<in> set (tr_entries (menu_watcher_step [''menu''] ''menu'' (sf_menu (snd demo_shown)) tray_init)).
     (\<exists>i. e = (item_entry demo_item)\<lparr>te_dbus_id := i\<rparr>) \<and>
     (\<exists>c. snd (handle_menu_event (te_dbus_id e) ''clicked''
            (menu_watcher_step [''menu''] ''menu'' (sf_menu (snd demo_shown)) tray_init)) =
          emit (Menu_Command c) (menu_watcher_step [''menu''] ''menu'' (sf_menu (snd demo_shown)) tray_init) \<and>
       sh_posted (fst (handle_command_trigger (fst demo_shown, wp_tray_send_menu_command (\<lambda>_. None) True c (snd demo_shown)))) =
         sh_posted (fst demo_shown) @ [\<lparr>pm_hwnd = 99, pm_msg = WM_COMMAND,
           pm_wparam = ucast (ucast (te_id (item_entry demo_item)) :: u16), pm_lparam = 0\<rparr>])"
proof (rule menu_item_round_trip [where menus = "\<lambda>_. Some demo_menu" and hMenu = 3 and m = demo_menu])
  show "wp_menu_command_path (\<lambda>_. None) 1024 \<noteq> None" by code_simp
  show "tr_next_dbus_id tray_init + int (length (menu_items 0 demo_menu)) < ID_LIMIT"
    by (simp add: demo_items tray_init_def)
qed (use demo_menu_fits tray_start in simp_all)

end
