(* ===== verification/WP_Cursor.thy ===== *)
theory WP_Cursor
  imports WP_Ctl_Protocol WP_Tray_Text
begin

unbundle bit_operations_syntax

text \<open>
  The position of the cursor on its way into the Windows program: the preloaded library asks the
  portal for it and writes it to a file (\<^verbatim>\<open>loader/elf/cursor_forward.c\<close>), the shim in the program polls that file
  and answers \<^verbatim>\<open>GetCursorPos\<close> with it (\<^verbatim>\<open>loader/coff/cursor.c\<close>). The answer of the portal is a function
  of the request line, as in \<^verbatim>\<open>WP_Ctl_Protocol\<close>.
\<close>

section \<open>The process that forwards\<close>

definition TARGET_PROCESS_WAIT_ATTEMPTS :: nat where "TARGET_PROCESS_WAIT_ATTEMPTS = 50"

definition memmem :: "string \<Rightarrow> string \<Rightarrow> bool" where
  "memmem hay needle \<longleftrightarrow> list_ex (\<lambda>i. take (length needle) (drop i hay) = needle) [0..<length hay + 1 - length needle]"

text \<open>What \<^verbatim>\<open>/proc/self/comm\<close> and \<^verbatim>\<open>/proc/self/cmdline\<close> hold, when they can be read.\<close>

definition read_comm :: "string option \<Rightarrow> nat \<Rightarrow> string option" where
  "read_comm comm out_len = map_option (\<lambda>s. rtrim (\<lambda>c. c = LF \<or> c = CR) (take (out_len - 1) s)) comm"

definition interpose_is_target_process :: "string option \<Rightarrow> string option \<Rightarrow> bool \<Rightarrow> bool \<times> bool" where
  "interpose_is_target_process comm cmdline cached =
     (if cached then (True, True)
      else let by_name = (read_comm comm 256 = Some ''wallpaper64.exe'');
               result = (by_name \<or> (case cmdline of None \<Rightarrow> False | Some buf \<Rightarrow> memmem (take 4096 buf) ''webwallpaper64.exe''))
           in (result, result))"

text \<open>The wait for the process to become a target: the observations, one for each attempt.\<close>

fun await_target :: "nat \<Rightarrow> bool list \<Rightarrow> bool option" where
  "await_target attempt [] = None"
| "await_target attempt (is_target # obs) =
     (if is_target then Some True
      else if TARGET_PROCESS_WAIT_ATTEMPTS \<le> attempt + 1 then Some False else await_target (attempt + 1) obs)"

section \<open>Asking the portal\<close>

definition ctl_socket_path :: "environ \<Rightarrow> nat \<Rightarrow> string option" where
  "ctl_socket_path env out_len =
     (case env ''WALLPIPER_PORTAL_CTL_SOCKET'' of None \<Rightarrow> None | Some path \<Rightarrow> if path = [] then None else fits out_len path)"

text \<open>\<open>up\<close> tells whether the socket could be created, connected and written.\<close>

definition query_cursor_pos :: "environ \<Rightarrow> bool \<Rightarrow> (string \<Rightarrow> string) \<Rightarrow> (i32 \<times> i32) option" where
  "query_cursor_pos env up server =
     (case ctl_socket_path env 256 of
        None \<Rightarrow> None
      | Some path \<Rightarrow>
          if 108 \<le> length path \<or> \<not> up then None
          else let buf = cstr (take 63 (server (''CURSOR_POS'' @ [LF])))
               in if starts_with ''CURSOR_POS'' buf then scan_two_ints (drop 10 buf) else None)"

definition cursor_payload :: "i32 \<Rightarrow> i32 \<Rightarrow> u8 list" where
  "cursor_payload x y = u32le x @ u32le y"

text \<open>One round of the forwarding thread; \<open>file\<close> is the content of the file it holds open.\<close>

definition forward_cursor :: "environ \<Rightarrow> bool \<Rightarrow> (string \<Rightarrow> string) \<Rightarrow> u8 list \<Rightarrow> u8 list" where
  "forward_cursor env up server file =
     (case query_cursor_pos env up server of
        None \<Rightarrow> file
      | Some (x, y) \<Rightarrow> cursor_payload x y @ drop 8 file)"

section \<open>In the Windows program\<close>

record cursor_state =
  cs_forwarded :: u64
  cs_have_forwarded :: bool

definition store_forwarded_cursor :: "i32 \<Rightarrow> i32 \<Rightarrow> cursor_state \<Rightarrow> cursor_state" where
  "store_forwarded_cursor x y cs =
     cs\<lparr>cs_forwarded := push_bit 32 (ucast x) OR ucast y, cs_have_forwarded := True\<rparr>"

definition load_forwarded_cursor :: "cursor_state \<Rightarrow> (i32 \<times> i32) option" where
  "load_forwarded_cursor cs =
     (if cs_have_forwarded cs
      then Some (ucast (drop_bit 32 (cs_forwarded cs)), ucast (cs_forwarded cs AND 0xFFFFFFFF)) else None)"

definition fake_GetCursorPos :: "(i32 \<times> i32) option \<Rightarrow> cursor_state \<Rightarrow> (i32 \<times> i32) option" where
  "fake_GetCursorPos real_pos cs =
     (case load_forwarded_cursor cs of Some p \<Rightarrow> Some p | None \<Rightarrow> real_pos)"

text \<open>One poll of the file, when it can be opened; a file shorter than the payload is ignored.\<close>

definition poll_cursor_file :: "u8 list option \<Rightarrow> cursor_state \<Rightarrow> cursor_state" where
  "poll_cursor_file file cs =
     (case file of
        None \<Rightarrow> cs
      | Some bytes \<Rightarrow>
          if length bytes < 8 then cs
          else (case (read_u32le bytes 0, read_u32le bytes 4) of
                  (Some x, Some y) \<Rightarrow> store_forwarded_cursor x y cs
                | _ \<Rightarrow> cs))"

text \<open>The move that the forwarding thread of the shim posts to the window of the tray icon.\<close>

definition WM_MOUSEMOVE :: u32 where "WM_MOUSEMOVE = 0x200"

definition forward_move :: "(i32 \<times> i32) option \<Rightarrow> (i32 \<times> i32 \<Rightarrow> i32 \<times> i32) \<Rightarrow> cursor_state \<Rightarrow> shim_state \<Rightarrow> shim_state" where
  "forward_move real_pos screen_to_client cs sh =
     (if sh_tray_hwnd sh = 0 then sh
      else case fake_GetCursorPos real_pos cs of
             None \<Rightarrow> sh
           | Some pt \<Rightarrow>
               let client = screen_to_client pt
               in post (sh_tray_hwnd sh) WM_MOUSEMOVE 0 (make_long (ucast (fst client)) (ucast (snd client))) sh)"

section \<open>Facts\<close>

lemma load_store: "load_forwarded_cursor (store_forwarded_cursor x y cs) = Some (x, y)"
proof -
  let ?p = "push_bit 32 (ucast x) OR ucast y :: u64"
  have x: "(ucast (drop_bit 32 ?p) :: i32) = x"
  proof (rule bit_word_eqI)
    fix n assume "n < LENGTH(32)"
    then show "bit (ucast (drop_bit 32 ?p) :: i32) n = bit x n" by (auto simp: bit_simps dest: bit_imp_le_length)
  qed
  have y: "(ucast (?p AND 0xFFFFFFFF) :: i32) = y"
  proof (rule bit_word_eqI)
    fix n assume n: "n < LENGTH(32)"
    have m: "mask 32 = (0xFFFFFFFF :: u64)" by (simp add: mask_eq_exp_minus_1)
    have "bit (0xFFFFFFFF :: u64) n" unfolding m [symmetric] using n by (simp add: bit_simps del: m)
    then show "bit (ucast (?p AND 0xFFFFFFFF) :: i32) n = bit y n" using n by (auto simp: bit_simps)
  qed
  have "cs_forwarded (store_forwarded_cursor x y cs) = ?p" "cs_have_forwarded (store_forwarded_cursor x y cs) = True"
    by (simp_all add: store_forwarded_cursor_def)
  then show ?thesis unfolding load_forwarded_cursor_def by (simp only: x y if_True)
qed

lemma poll_payload: "poll_cursor_file (Some (cursor_payload x y @ rest)) cs = store_forwarded_cursor x y cs"
proof -
  have "read_u32le (cursor_payload x y @ rest) 0 = Some x"
    by (rule read_u32le_in [of _ "[]"]) (simp_all add: cursor_payload_def)
  moreover have "read_u32le (cursor_payload x y @ rest) 4 = Some y"
    by (rule read_u32le_in [of _ "u32le x"]) (simp_all add: cursor_payload_def)
  moreover have "length (cursor_payload x y) = 8" by (simp add: cursor_payload_def)
  ultimately show ?thesis by (simp add: poll_cursor_file_def)
qed

lemma scan_sp_two_ints: "scan_two_ints (SP # show_i32 x @ SP # show_i32 y @ [LF]) = Some (x, y)"
proof -
  have sp: "strto 10 (SP # s) = strto 10 s" for s by (simp add: strto_def is_space_def)
  then have "strtol 10 (SP # s) = strtol 10 s" for s by (simp add: strtol_def)
  moreover have r: "- (2 ^ 63) \<le> sint w" "sint w < 2 ^ 63" for w :: i32
    using sint_greater_eq [of w] sint_less [of w] by simp_all
  moreover have "strtol 10 (show_i32 x @ SP # show_i32 y @ [LF]) = Some (sint x, SP # show_i32 y @ [LF])"
    using r by (intro strtol_show_int) (simp_all add: is_digit_def)
  moreover have "strtol 10 (show_i32 y @ [LF]) = Some (sint y, [LF])"
    using r by (intro strtol_show_int) (simp_all add: is_digit_def)
  ultimately show ?thesis by (simp add: scan_two_ints_def)
qed

lemma query_answer:
  assumes "ctl_socket_path env 256 = Some path" and "length path < 108"
    and "respond WP_CTL_REQUEST_CURSOR_POS = WP_CTL_RESPONSE_CURSOR_POS x y"
  shows "query_cursor_pos env True (serve_connection respond) = Some (x, y)"
proof -
  let ?t = "''CURSOR_POS '' @ show_i32 x @ SP # show_i32 y @ [LF]"
  have len: "length ?t < 63" using length_show_i32 [of x] length_show_i32 [of y] by simp
  have "read_line (request_word WP_CTL_REQUEST_CURSOR_POS @ [LF]) 512 = Some (request_word WP_CTL_REQUEST_CURSOR_POS @ [LF])"
    using requests.read_message [OF _ request_encode, of WP_CTL_REQUEST_CURSOR_POS 512 "[]"]
      request_word_plain [of WP_CTL_REQUEST_CURSOR_POS] by simp
  moreover have "wp_ctl_request_parse (''CURSOR_POS'' @ [LF]) = Some WP_CTL_REQUEST_CURSOR_POS"
    using request_parse_word [of WP_CTL_REQUEST_CURSOR_POS] by simp
  moreover have "wp_ctl_response_encode (respond WP_CTL_REQUEST_CURSOR_POS) 512 = Some ?t"
    using len by (simp add: assms(3) wp_ctl_response_encode_def fits_eq)
  ultimately have "serve_connection respond (''CURSOR_POS'' @ [LF]) = ?t"
    by (simp add: serve_connection_def)
  moreover have "NUL \<notin> set ?t" by (simp add: is_digit_def)
  then have "cstr (take 63 ?t) = ?t" using len by (intro trans [OF arg_cong [of _ _ cstr] cstr_id]) simp_all
  moreover have "drop 10 ?t = SP # show_i32 x @ SP # show_i32 y @ [LF]" by simp
  moreover have "starts_with ''CURSOR_POS'' ?t" by (simp add: starts_with_def)
  ultimately show ?thesis using assms(1,2) scan_sp_two_ints by (simp add: query_cursor_pos_def Let_def)
qed

section \<open>Property\<close>

text \<open>
  C20. The position the portal reports is the position the Windows program is told: whatever was
  forwarded before, after one round of the forwarding thread and one poll \<^verbatim>\<open>GetCursorPos\<close> answers with
  exactly the two signed numbers of the portal, through the text of the control protocol, the bytes
  of the shared file and the packed word of the shim.
\<close>

theorem cursor_reaches_program:
  assumes "ctl_socket_path env 256 = Some path" and "length path < 108"
    and "respond WP_CTL_REQUEST_CURSOR_POS = WP_CTL_RESPONSE_CURSOR_POS x y"
  shows "fake_GetCursorPos real_pos
     (poll_cursor_file (Some (forward_cursor env True (serve_connection respond) file)) cs) = Some (x, y)"
  using query_answer [where respond = respond, OF assms]
  by (simp add: forward_cursor_def poll_payload fake_GetCursorPos_def load_store)

theorem cursor_reaches_program_witness:
  "fake_GetCursorPos None (poll_cursor_file (Some (forward_cursor ((\<lambda>_. None)(''WALLPIPER_PORTAL_CTL_SOCKET'' := Some ''/tmp/s''))
     True (serve_connection (\<lambda>_. WP_CTL_RESPONSE_CURSOR_POS (- 5) 1080)) [])) \<lparr>cs_forwarded = 0, cs_have_forwarded = False\<rparr>) =
   Some (- 5, 1080)"
  by (rule cursor_reaches_program [of _ "''/tmp/s''"]) (simp_all add: ctl_socket_path_def fits_eq)

end
