(* ===== verification/WP_Libc.thy ===== *)
theory WP_Libc
  imports WP_Tray_Files
begin

text \<open>
  The C library of the code that runs inside the Windows process (\<^verbatim>\<open>loader/coff/libc.c\<close>); the
  process is started without one. Memory is a list of bytes with every access checked: an access
  outside of it, like any other undefined behaviour, is \<^term>\<open>None\<close>. A \<open>const char *\<close> is
  the list of bytes from its address to the end of the object it points into, so a string without a
  terminating NUL is read up to the end of its object and then fails.
\<close>

section \<open>Blocks of memory\<close>

definition peek :: "char list \<Rightarrow> nat \<Rightarrow> char option" where
  "peek mem a = (if a < length mem then Some (mem ! a) else None)"

definition poke :: "nat \<Rightarrow> char \<Rightarrow> char list \<Rightarrow> char list option" where
  "poke a c mem = (if a < length mem then Some (mem[a := c]) else None)"

definition copy_byte :: "nat \<Rightarrow> nat \<Rightarrow> char list \<Rightarrow> nat \<Rightarrow> char list option" where
  "copy_byte d s mem i = do { c \<leftarrow> peek mem (s + i); poke (d + i) c mem }"

definition memcpy :: "char list \<Rightarrow> nat \<Rightarrow> nat \<Rightarrow> nat \<Rightarrow> char list option" where
  "memcpy mem d s n = foldM (copy_byte d s) mem [0..<n]"

definition memmove :: "char list \<Rightarrow> nat \<Rightarrow> nat \<Rightarrow> nat \<Rightarrow> char list option" where
  "memmove mem d s n =
     (if d = s \<or> n = 0 then Some mem
      else if d < s then foldM (copy_byte d s) mem [0..<n]
      else foldM (\<lambda>mem i. copy_byte d s mem (i - 1)) mem (rev [1..<n + 1]))"

definition memset :: "char list \<Rightarrow> nat \<Rightarrow> char \<Rightarrow> nat \<Rightarrow> char list option" where
  "memset mem d c n = foldM (\<lambda>mem i. poke (d + i) c mem) mem [0..<n]"

fun memcmp_libc :: "char list \<Rightarrow> char list \<Rightarrow> nat \<Rightarrow> int option" where
  "memcmp_libc pa pb 0 = Some 0"
| "memcmp_libc (a # pa) (b # pb) (Suc n) =
     (if a \<noteq> b then Some (of_char a - of_char b) else memcmp_libc pa pb n)"
| "memcmp_libc _ _ (Suc n) = None"

section \<open>Strings\<close>

fun strlen :: "char list \<Rightarrow> nat option" where
  "strlen [] = None"
| "strlen (c # s) = (if c = NUL then Some 0 else map_option Suc (strlen s))"

fun strcmp :: "char list \<Rightarrow> char list \<Rightarrow> int option" where
  "strcmp (a # s) (b # t) = (if a \<noteq> NUL \<and> a = b then strcmp s t else Some (of_char a - of_char b))"
| "strcmp _ _ = None"

fun strncmp_libc :: "char list \<Rightarrow> char list \<Rightarrow> nat \<Rightarrow> int option" where
  "strncmp_libc _ _ 0 = Some 0"
| "strncmp_libc (a # s) (b # t) (Suc n) =
     (if a \<noteq> b then Some (of_char a - of_char b) else if a = NUL then Some 0 else strncmp_libc s t n)"
| "strncmp_libc _ _ (Suc n) = None"

text \<open>The copy goes to the start of another object, \<open>dst\<close>.\<close>

fun strcpy_loop :: "char list \<Rightarrow> nat \<Rightarrow> char list \<Rightarrow> char list option" where
  "strcpy_loop dst i [] = None"
| "strcpy_loop dst i (c # src) =
     (case poke i c dst of None \<Rightarrow> None
      | Some dst' \<Rightarrow> if c = NUL then Some dst' else strcpy_loop dst' (i + 1) src)"

definition strcpy :: "char list \<Rightarrow> char list \<Rightarrow> char list option" where
  "strcpy dst src = strcpy_loop dst 0 src"

text \<open>A pointer into the string that was searched is the number of bytes before it.\<close>

fun strchr :: "char list \<Rightarrow> int \<Rightarrow> nat option option" where
  "strchr [] c = None"
| "strchr (x # s) c =
     (if x = NUL then Some (if c = 0 then Some 0 else None)
      else if x = char_of c then Some (Some 0) else map_option (map_option Suc) (strchr s c))"

text \<open>
  The inner loop of \<open>strstr\<close>: whether the needle ends before a difference. The bytes are read
  in the order of the code: \<open>*h\<close>, \<open>*n\<close>.
\<close>

fun strstr_at :: "char list \<Rightarrow> char list \<Rightarrow> bool option" where
  "strstr_at (h # hs) (n # ns) =
     (if h \<noteq> NUL \<and> n \<noteq> NUL \<and> h = n then strstr_at hs ns else Some (n = NUL))"
| "strstr_at _ _ = None"

fun strstr_loop :: "char list \<Rightarrow> char list \<Rightarrow> nat option option" where
  "strstr_loop [] needle = None"
| "strstr_loop (h # hs) needle =
     (if h = NUL then Some None
      else case strstr_at (h # hs) needle of
             None \<Rightarrow> None
           | Some True \<Rightarrow> Some (Some 0)
           | Some False \<Rightarrow> map_option (map_option Suc) (strstr_loop hs needle))"

definition strstr_libc :: "char list \<Rightarrow> char list \<Rightarrow> nat option option" where
  "strstr_libc haystack needle =
     (case needle of [] \<Rightarrow> None
      | n # _ \<Rightarrow> if n = NUL then Some (Some 0) else strstr_loop haystack needle)"

definition upcase :: "char \<Rightarrow> char" where
  "upcase c = (if 97 \<le> (of_char c :: nat) \<and> (of_char c :: nat) \<le> 122 then char_of (of_char c - 32 :: nat) else c)"

fun strcasecmp :: "char list \<Rightarrow> char list \<Rightarrow> int option" where
  "strcasecmp (a # s) (b # t) =
     (if a \<noteq> NUL \<and> b \<noteq> NUL
      then if upcase a \<noteq> upcase b then Some (of_char (upcase a) - of_char (upcase b)) else strcasecmp s t
      else Some (of_char a - of_char b))"
| "strcasecmp _ _ = None"

section \<open>Formatted output\<close>

text \<open>
  The arguments: a string (or a null pointer), a value of 32 bits, a \<open>size_t\<close> and a pointer. The
  output is the buffer and the position, which also counts what does not fit.
\<close>

datatype fmt_arg = Arg_Str "char list option" | Arg_Int u32 | Arg_Size u64 | Arg_Ptr u64

type_synonym fmt_out = "char list \<times> nat"

definition append_char :: "nat \<Rightarrow> fmt_out \<Rightarrow> char \<Rightarrow> fmt_out option" where
  "append_char cap st c =
     (case st of (buf, pos) \<Rightarrow>
        if pos + 1 < cap then map_option (\<lambda>buf'. (buf', pos + 1)) (poke pos c buf) else Some (buf, pos + 1))"

fun append_cstr :: "nat \<Rightarrow> fmt_out \<Rightarrow> char list \<Rightarrow> fmt_out option" where
  "append_cstr cap st [] = None"
| "append_cstr cap st (c # s) =
     (if c = NUL then Some st
      else case append_char cap st c of None \<Rightarrow> None | Some st' \<Rightarrow> append_cstr cap st' s)"

definition digit_char :: "bool \<Rightarrow> nat \<Rightarrow> char" where
  "digit_char upper d = (if upper then ''0123456789ABCDEF'' ! d else ''0123456789abcdef'' ! d)"

text \<open>The digits from the last to the first; \<open>room\<close> is what is left of the array of 32.\<close>

fun uint_digits :: "nat \<Rightarrow> nat \<Rightarrow> nat \<Rightarrow> bool \<Rightarrow> char list" where
  "uint_digits 0 v base upper = []"
| "uint_digits (Suc room) v base upper =
     (if 0 < v then digit_char upper (v mod base) # uint_digits room (v div base) base upper else [])"

definition append_uint :: "nat \<Rightarrow> nat \<Rightarrow> nat \<Rightarrow> bool \<Rightarrow> int \<Rightarrow> bool \<Rightarrow> fmt_out \<Rightarrow> fmt_out option" where
  "append_uint cap v base upper width zero_pad st =
     (let digits = (if v = 0 then ''0'' else uint_digits 32 v base upper)
      in do {
        st1 \<leftarrow> foldM (append_char cap) st (replicate (nat width - length digits) (if zero_pad then CHR ''0'' else SP));
        foldM (append_char cap) st1 (rev digits)
      })"

fun skip_zeros :: "bool \<Rightarrow> char list \<Rightarrow> (bool \<times> char list) option" where
  "skip_zeros zero_pad [] = None"
| "skip_zeros zero_pad (c # p) = (if c = CHR ''0'' then skip_zeros True p else Some (zero_pad, c # p))"

text \<open>A width that is no \<open>int\<close> is an overflow.\<close>

fun read_width :: "int \<Rightarrow> char list \<Rightarrow> (int \<times> char list) option" where
  "read_width width [] = None"
| "read_width width (c # p) =
     (if is_digit c
      then let w = width * 10 + (of_char c - 48) in if w < 2147483648 then read_width w p else None
      else Some (width, c # p))"

fun read_size :: "char list \<Rightarrow> (bool \<times> char \<times> char list) option" where
  "read_size [] = None"
| "read_size (c # p) =
     (if c = CHR ''z'' then (case p of [] \<Rightarrow> None | d # p' \<Rightarrow> Some (True, d, p')) else Some (False, c, p))"

definition read_spec :: "char list \<Rightarrow> (bool \<times> int \<times> bool \<times> char \<times> char list) option" where
  "read_spec p =
     (case skip_zeros False p of
        None \<Rightarrow> None
      | Some (zero_pad, p1) \<Rightarrow>
          (case read_width 0 p1 of
             None \<Rightarrow> None
           | Some (width, p2) \<Rightarrow>
               map_option (\<lambda>(is_size, c, q). (zero_pad, width, is_size, c, q)) (read_size p2)))"

text \<open>What the conversions take from the arguments.\<close>

definition signed_arg :: "bool \<Rightarrow> fmt_arg list \<Rightarrow> (int \<times> fmt_arg list) option" where
  "signed_arg is_size args =
     (case args of
        Arg_Int w # args' \<Rightarrow> if is_size then None else Some (sint w, args')
      | Arg_Size w # args' \<Rightarrow> if is_size then Some (sint w, args') else None
      | _ \<Rightarrow> None)"

definition unsigned_arg :: "bool \<Rightarrow> fmt_arg list \<Rightarrow> (nat \<times> fmt_arg list) option" where
  "unsigned_arg is_size args =
     (case args of
        Arg_Int w # args' \<Rightarrow> if is_size then None else Some (unat w, args')
      | Arg_Size w # args' \<Rightarrow> if is_size then Some (unat w, args') else None
      | _ \<Rightarrow> None)"

definition convert ::
  "nat \<Rightarrow> bool \<Rightarrow> int \<Rightarrow> bool \<Rightarrow> char \<Rightarrow> fmt_arg list \<Rightarrow> fmt_out \<Rightarrow> (fmt_arg list \<times> fmt_out) option" where
  "convert cap zero_pad width is_size c args st =
     (if c = CHR ''s''
      then (case args of
              Arg_Str s # args' \<Rightarrow>
                map_option (Pair args') (append_cstr cap st (case s of None \<Rightarrow> ''(null)'' @ [NUL] | Some s \<Rightarrow> s))
            | _ \<Rightarrow> None)
      else if c = CHR ''d''
      then (case signed_arg is_size args of
              None \<Rightarrow> None
            | Some (v, args') \<Rightarrow>
                if v < 0
                then if v = - 9223372036854775808 then None
                     else do { st1 \<leftarrow> append_char cap st (CHR ''-'');
                               st2 \<leftarrow> append_uint cap (nat (- v)) 10 False width zero_pad st1;
                               Some (args', st2) }
                else map_option (Pair args') (append_uint cap (nat v) 10 False width zero_pad st))
      else if c = CHR ''u'' \<or> c = CHR ''x'' \<or> c = CHR ''X''
      then (case unsigned_arg is_size args of
              None \<Rightarrow> None
            | Some (v, args') \<Rightarrow>
                map_option (Pair args')
                  (append_uint cap v (if c = CHR ''u'' then 10 else 16) (c = CHR ''X'') width zero_pad st))
      else if c = CHR ''p''
      then (case args of
              Arg_Ptr w # args' \<Rightarrow>
                do { st1 \<leftarrow> append_cstr cap st (''0x'' @ [NUL]);
                     st2 \<leftarrow> append_uint cap (unat w) 16 False 0 False st1;
                     Some (args', st2) }
            | _ \<Rightarrow> None)
      else if c = CHR ''%'' then map_option (Pair args) (append_char cap st (CHR ''%''))
      else do { st1 \<leftarrow> append_char cap st (CHR ''%''); st2 \<leftarrow> append_char cap st1 c; Some (args, st2) })"

lemma skip_zeros_shorter: "skip_zeros z p = Some (z', p') \<Longrightarrow> length p' \<le> length p"
  by (induction z p rule: skip_zeros.induct) (auto split: if_splits)

lemma read_width_shorter: "read_width w p = Some (w', p') \<Longrightarrow> length p' \<le> length p"
  by (induction w p rule: read_width.induct) (auto simp: Let_def split: if_splits)

lemma read_size_shorter: "read_size p = Some (z, c, p') \<Longrightarrow> length p' < length p"
  by (cases p) (auto split: list.splits if_splits)

lemma read_spec_shorter:
  assumes "read_spec p = Some (z, w, s, c, p')"
  shows "length p' < length p"
proof -
  obtain z1 p1 w1 p2 where "skip_zeros False p = Some (z1, p1)" and "read_width 0 p1 = Some (w1, p2)"
    and "read_size p2 = Some (s, c, p')"
    using assms by (auto simp: read_spec_def split: option.splits)
  with skip_zeros_shorter read_width_shorter read_size_shorter show ?thesis by fastforce
qed

function vsn_loop :: "nat \<Rightarrow> char list \<Rightarrow> fmt_arg list \<Rightarrow> fmt_out \<Rightarrow> fmt_out option" where
  "vsn_loop cap fmt args st =
     (case fmt of
        [] \<Rightarrow> None
      | c # p \<Rightarrow>
          if c = NUL then Some st
          else if c \<noteq> CHR ''%''
          then (case append_char cap st c of None \<Rightarrow> None | Some st' \<Rightarrow> vsn_loop cap p args st')
          else (case read_spec p of
                  None \<Rightarrow> None
                | Some (zero_pad, width, is_size, d, q) \<Rightarrow>
                    (case convert cap zero_pad width is_size d args st of
                       None \<Rightarrow> None
                     | Some (args', st') \<Rightarrow> vsn_loop cap q args' st')))"
  by pat_completeness auto
termination
  by (relation "measure (\<lambda>(cap, fmt, args, st). length fmt)") (auto dest: read_spec_shorter)

declare vsn_loop.simps [simp del]

definition vsnprintf :: "char list \<Rightarrow> nat \<Rightarrow> char list \<Rightarrow> fmt_arg list \<Rightarrow> (char list \<times> i32) option" where
  "vsnprintf buf cap fmt args =
     (case vsn_loop cap fmt args (buf, 0) of
        None \<Rightarrow> None
      | Some (buf', pos) \<Rightarrow>
          if 0 < cap
          then map_option (\<lambda>b. (b, of_nat pos)) (poke (if pos < cap then pos else cap - 1) NUL buf')
          else Some (buf', of_nat pos))"

definition sprintf :: "char list \<Rightarrow> char list \<Rightarrow> fmt_arg list \<Rightarrow> (char list \<times> i32) option" where
  "sprintf buf fmt args = vsnprintf buf 18446744073709551615 fmt args"

definition scprintf :: "char list \<Rightarrow> fmt_arg list \<Rightarrow> i32 option" where
  "scprintf fmt args = map_option snd (vsnprintf [] 0 fmt args)"

end
