(* ===== verification/WP_Libc_Props.thy ===== *)
theory WP_Libc_Props
  imports WP_Libc WP_Tray_Text
begin

text \<open>
  What \<^verbatim>\<open>loader/coff/libc.c\<close> promises: the block operations as equations between lists, the string
  functions against the strings their arguments hold, and \<open>vsnprintf\<close> against the text of a
  format, which is parsed first and rendered without a buffer.
\<close>

section \<open>Copying\<close>

text \<open>The memory with the bytes \<open>lo\<close> to \<open>hi\<close> of the block copied.\<close>

definition blit :: "char list \<Rightarrow> nat \<Rightarrow> nat \<Rightarrow> nat \<Rightarrow> nat \<Rightarrow> char list" where
  "blit mem d s lo hi =
     map (\<lambda>j. if d + lo \<le> j \<and> j < d + hi then mem ! (s + (j - d)) else mem ! j) [0..<length mem]"

lemma length_blit [simp]: "length (blit mem d s lo hi) = length mem"
  by (simp add: blit_def)

lemma blit_nth [simp]:
  "j < length mem \<Longrightarrow>
   blit mem d s lo hi ! j = (if d + lo \<le> j \<and> j < d + hi then mem ! (s + (j - d)) else mem ! j)"
  by (simp add: blit_def)

lemma blit_empty [simp]: "blit mem d s k k = mem"
  by (rule nth_equalityI) auto

lemma blit_splice:
  "d + n \<le> length mem \<Longrightarrow> s + n \<le> length mem \<Longrightarrow>
   blit mem d s 0 n = take d mem @ take n (drop s mem) @ drop (d + n) mem"
  by (rule nth_equalityI) (auto simp: nth_append)

lemma blit_step_up:
  assumes "d + k < length mem" and "s + k < length mem" and "d \<le> s \<or> s + k < d"
  shows "copy_byte d s (blit mem d s 0 k) k = Some (blit mem d s 0 (Suc k))"
  using assms
  by (auto simp: copy_byte_def peek_def poke_def nth_list_update intro!: nth_equalityI)

lemma blit_step_down:
  assumes "d + k < length mem" and "s < d" and "k < n"
  shows "copy_byte d s (blit mem d s (Suc k) n) k = Some (blit mem d s k n)"
  using assms
  by (auto simp: copy_byte_def peek_def poke_def nth_list_update intro!: nth_equalityI)

lemma copy_up:
  "d + n \<le> length mem \<Longrightarrow> s + n \<le> length mem \<Longrightarrow> d \<le> s \<or> s + n \<le> d \<Longrightarrow>
   foldM (copy_byte d s) mem [0..<n] = Some (blit mem d s 0 n)"
proof (induction n)
  case (Suc n)
  from Suc.prems have "d \<le> s \<or> s + n \<le> d" and "d \<le> s \<or> s + n < d" by linarith+
  with Suc show ?case by (simp add: foldM_append blit_step_up)
qed simp

lemma copy_down:
  "k \<le> n \<Longrightarrow> d + n \<le> length mem \<Longrightarrow> s < d \<Longrightarrow>
   foldM (copy_byte d s) (blit mem d s k n) (rev [0..<k]) = Some (blit mem d s 0 n)"
proof (induction k)
  case (Suc k)
  then show ?case by (simp add: blit_step_down)
qed simp

lemma copy_byte_Some: "copy_byte d s mem i = Some mem' \<Longrightarrow> s + i < length mem \<and> d + i < length mem \<and> length mem' = length mem"
  by (auto simp: copy_byte_def peek_def poke_def split: if_splits)

lemma copy_in_memory:
  "foldM (copy_byte d s) mem is = Some mem' \<Longrightarrow> i \<in> set is \<Longrightarrow> s + i < length mem \<and> d + i < length mem"
  by (induction "is" arbitrary: mem) (fastforce dest!: copy_byte_Some split: option.splits)+

lemma copy_outside:
  assumes "n - 1 \<in> set is" and "0 < n" and "\<not> (d + n \<le> length mem \<and> s + n \<le> length mem)"
  shows "foldM (copy_byte d s) mem is = None"
proof (rule ccontr)
  assume "foldM (copy_byte d s) mem is \<noteq> None"
  then obtain mem' where "foldM (copy_byte d s) mem is = Some mem'" by blast
  from copy_in_memory [OF this assms(1)] assms(2,3) show False by linarith
qed

lemma rev_from_1: "foldM (\<lambda>mem i. f mem (i - 1)) mem (rev [1..<n + 1]) = foldM f mem (rev [0..<n])"
proof -
  have "rev [0..<n] = map (\<lambda>i. i - 1) (rev [1..<n + 1])" by (induction n) auto
  then show ?thesis by (simp only: foldM_map)
qed

text \<open>
  \<open>memmove\<close> copies as if through a buffer of its own, also when the blocks overlap, in either
  direction; it fails exactly when one of the blocks is not inside the memory.
\<close>

theorem memmove_exact:
  "memmove mem d s n =
     (if n = 0 \<or> d = s then Some mem
      else if d + n \<le> length mem \<and> s + n \<le> length mem
      then Some (take d mem @ take n (drop s mem) @ drop (d + n) mem) else None)"
proof (cases "n = 0 \<or> d = s \<or> \<not> (d + n \<le> length mem \<and> s + n \<le> length mem)")
  case True
  then show ?thesis unfolding memmove_def rev_from_1
    using copy_outside [of n "[0..<n]" d mem s] copy_outside [of n "rev [0..<n]" d mem s] by auto
next
  case False
  then have "foldM (copy_byte d s) mem (rev [0..<n]) = Some (blit mem d s 0 n)" if "s < d"
    using copy_down [of n n d mem s] that by simp
  with False show ?thesis unfolding memmove_def rev_from_1
    by (auto simp: copy_up blit_splice [symmetric])
qed

text \<open>\<open>memcpy\<close> does the same when the target does not begin inside the source.\<close>

lemma memcpy_exact:
  assumes "d \<le> s \<or> s + n \<le> d"
  shows "memcpy mem d s n =
     (if n = 0 then Some mem
      else if d + n \<le> length mem \<and> s + n \<le> length mem
      then Some (take d mem @ take n (drop s mem) @ drop (d + n) mem) else None)"
proof (cases "n = 0 \<or> \<not> (d + n \<le> length mem \<and> s + n \<le> length mem)")
  case True
  then show ?thesis unfolding memcpy_def using copy_outside [of n "[0..<n]" d mem s] by auto
qed (use assms in \<open>auto simp: memcpy_def copy_up blit_splice [symmetric]\<close>)

lemma memset_exact:
  "d + n \<le> length mem \<Longrightarrow> memset mem d c n = Some (take d mem @ replicate n c @ drop (d + n) mem)"
proof (induction n)
  case (Suc n)
  then show ?case
    by (simp add: memset_def foldM_append poke_def list_update_append replicate_append_same [symmetric]
        Cons_nth_drop_Suc [of "d + n" mem, symmetric])
qed (simp add: memset_def)

section \<open>Strings\<close>

lemma cstr_Cons: "cstr (c # s) = (if c = NUL then [] else c # cstr s)"
  by (simp add: cstr_def)

lemma strlen_cstr: "strlen s = (if NUL \<in> set s then Some (length (cstr s)) else None)"
  by (induction s) (auto simp: cstr_Cons)

abbreviation bytes :: "string \<Rightarrow> nat list" where "bytes \<equiv> map of_char"

lemma bytes_inj [simp]: "bytes s = bytes t \<longleftrightarrow> s = t"
  by (simp add: inj_map_eq_map inj_def)

lemma char_int: "(of_char c :: int) = int (of_char c)"
  by (simp only: of_nat_of_char)

lemma of_char_0 [simp]: "(of_char c :: nat) = 0 \<longleftrightarrow> c = NUL"
proof -
  have "(of_char c :: nat) = 0 \<longleftrightarrow> (of_char c :: nat) = of_char NUL" by simp
  then show ?thesis by (simp only: of_char_eq_iff)
qed

lemma of_char_pos [simp]: "(0 :: nat) < of_char c \<longleftrightarrow> c \<noteq> NUL"
  using of_char_0 [of c] by linarith

text \<open>The sign of a comparison is the order of the strings, byte by byte.\<close>

definition compares :: "int option \<Rightarrow> string \<Rightarrow> string \<Rightarrow> bool" where
  "compares r s t \<longleftrightarrow> (\<exists>i. r = Some i \<and> (i < 0 \<longleftrightarrow> bytes s < bytes t) \<and> (i = 0 \<longleftrightarrow> s = t))"

lemma strcmp_compares: "NUL \<in> set s \<Longrightarrow> NUL \<in> set t \<Longrightarrow> compares (strcmp s t) (cstr s) (cstr t)"
proof (induction s t rule: strcmp.induct)
  case (1 a s b t)
  then show ?case by (auto simp: compares_def cstr_Cons char_int)
qed auto


lemma comparesI [intro?]:
  assumes "r = Some i" and "i < 0 \<longleftrightarrow> bytes s < bytes t" and "i = 0 \<longleftrightarrow> s = t"
  shows "compares r s t"
  using assms by (auto simp: compares_def)

lemma strncmp_compares:
  "NUL \<in> set s \<Longrightarrow> NUL \<in> set t \<Longrightarrow> compares (strncmp_libc s t n) (take n (cstr s)) (take n (cstr t))"
proof (induction s t n rule: strncmp_libc.induct)
  case (2 a s b t n)
  then show ?case by (auto simp: compares_def cstr_Cons char_int)
qed (auto simp: compares_def)

lemma upcase_NUL [simp]: "upcase c = NUL \<longleftrightarrow> c = NUL"
proof -
  have False if "97 \<le> (of_char c :: nat)" and "char_of (of_char c - 32 :: nat) = NUL"
  proof -
    have "(of_char (char_of (of_char c - 32 :: nat)) :: nat) = 0" using that(2) by simp
    moreover have "of_char c - 32 < (256 :: nat)" using nat_of_char_less_256 [of c] by linarith
    ultimately show False using that(1) by simp
  qed
  then show ?thesis by (auto simp: upcase_def)
qed

text \<open>Ignoring case is comparing the strings in upper case.\<close>

lemma strcasecmp_compares:
  "NUL \<in> set s \<Longrightarrow> NUL \<in> set t \<Longrightarrow> compares (strcasecmp s t) (map upcase (cstr s)) (map upcase (cstr t))"
proof (induction s t rule: strcasecmp.induct)
  case (1 a s b t)
  then show ?case by (auto simp: compares_def cstr_Cons char_int)
qed auto

lemma strchr_cstr:
  "NUL \<in> set s \<Longrightarrow> strchr s (of_char c) =
   Some (if c = NUL then Some (length (cstr s)) else find_index (\<lambda>x. x = c) (cstr s))"
  by (induction s) (auto simp: cstr_Cons char_int)

text \<open>The order of \<open>strcmp\<close> is one that \<open>qsort\<close> can use.\<close>

lemma compares_le: "compares r s t \<Longrightarrow> the r \<le> 0 \<longleftrightarrow> bytes s \<le> bytes t"
  by (auto simp: compares_def order.order_iff_strict)

lemma strcmp_le: "NUL \<in> set s \<Longrightarrow> NUL \<in> set t \<Longrightarrow> the (strcmp s t) \<le> 0 \<longleftrightarrow> bytes (cstr s) \<le> bytes (cstr t)"
  by (rule compares_le [OF strcmp_compares])

interpretation strcmp_order: comparison "\<lambda>s t. the (strcmp s t)" "\<lambda>s. NUL \<in> set s"
proof
  fix s t u :: string
  assume n: "NUL \<in> set s" "NUL \<in> set t" "NUL \<in> set u"
  show "the (strcmp s t) \<le> 0 \<Longrightarrow> the (strcmp t u) \<le> 0 \<Longrightarrow> the (strcmp s u) \<le> 0"
    using n by (simp add: strcmp_le)
next
  fix s t :: string
  assume "NUL \<in> set s" "NUL \<in> set t"
  then show "the (strcmp s t) \<le> 0 \<or> the (strcmp t s) \<le> 0" by (simp add: strcmp_le linear)
qed

section \<open>Searching\<close>

lemma strstr_at_prefix:
  "NUL \<in> set h \<Longrightarrow> NUL \<in> set n \<Longrightarrow> strstr_at h n = Some (starts_with (cstr n) (cstr h))"
proof (induction h n rule: strstr_at.induct)
  case (1 a h b n)
  then show ?case by (auto simp: cstr_Cons starts_with_def)
qed auto

lemma strstr_loop_first:
  assumes "NUL \<in> set n" and "cstr n \<noteq> []" and "NUL \<in> set h"
  shows "\<exists>r. strstr_loop h n = Some r \<and>
    (case r of None \<Rightarrow> \<forall>i. \<not> starts_with (cstr n) (drop i (cstr h))
     | Some i \<Rightarrow> i \<le> length (cstr h) \<and> starts_with (cstr n) (drop i (cstr h)) \<and>
         (\<forall>j < i. \<not> starts_with (cstr n) (drop j (cstr h))))"
  using assms(3)
proof (induction h)
  case (Cons c h)
  show ?case
  proof (cases "c = NUL")
    case True
    with assms(2) show ?thesis by (simp add: cstr_Cons starts_with_def)
  next
    case False
    with Cons obtain r where r: "strstr_loop h n = Some r"
      "case r of None \<Rightarrow> \<forall>i. \<not> starts_with (cstr n) (drop i (cstr h))
       | Some i \<Rightarrow> i \<le> length (cstr h) \<and> starts_with (cstr n) (drop i (cstr h)) \<and>
           (\<forall>j < i. \<not> starts_with (cstr n) (drop j (cstr h)))" by auto
    have "strstr_at (c # h) n = Some (starts_with (cstr n) (cstr (c # h)))"
      using Cons.prems assms(1) by (rule strstr_at_prefix)
    with r False show ?thesis
      by (cases "starts_with (cstr n) (c # cstr h)")
        (auto simp: cstr_Cons drop_Cons' less_Suc_eq_0_disj split: option.splits)
  qed
qed simp

text \<open>
  \<open>strstr\<close> finds the first place at which the needle stands, an empty needle at the start, and
  nothing exactly when it stands nowhere; both strings are read up to their NUL bytes only.
\<close>

theorem strstr_first:
  assumes "NUL \<in> set haystack" and "NUL \<in> set needle"
  shows "\<exists>r. strstr_libc haystack needle = Some r \<and>
    (case r of None \<Rightarrow> \<forall>i. \<not> starts_with (cstr needle) (drop i (cstr haystack))
     | Some i \<Rightarrow> i \<le> length (cstr haystack) \<and> starts_with (cstr needle) (drop i (cstr haystack)) \<and>
         (\<forall>j < i. \<not> starts_with (cstr needle) (drop j (cstr haystack))))"
proof (cases needle)
  case (Cons n ns)
  show ?thesis
  proof (cases "n = NUL")
    case True
    with Cons show ?thesis by (simp add: strstr_libc_def cstr_Cons starts_with_def)
  next
    case False
    with Cons have "cstr needle \<noteq> []" by (simp add: cstr_Cons)
    from strstr_loop_first [OF assms(2) this assms(1)] Cons False show ?thesis by (simp add: strstr_libc_def)
  qed
qed (use assms(2) in simp)

section \<open>Formatted output\<close>

text \<open>A format is a list of characters and conversions; the text of a number is that of the prelude.\<close>

datatype fmt_item = Literal char | Conversion (fi_zero: bool) (fi_width: int) (fi_size: bool) (fi_char: char)

function fmt_items :: "char list \<Rightarrow> fmt_item list option" where
  "fmt_items fmt =
     (case fmt of
        [] \<Rightarrow> None
      | c # p \<Rightarrow>
          if c = NUL then Some []
          else if c \<noteq> CHR ''%'' then map_option ((#) (Literal c)) (fmt_items p)
          else (case read_spec p of
                  None \<Rightarrow> None
                | Some (zero_pad, width, is_size, d, q) \<Rightarrow>
                    map_option ((#) (Conversion zero_pad width is_size d)) (fmt_items q)))"
  by pat_completeness auto
termination
  by (relation "measure length") (auto dest: read_spec_shorter)

declare fmt_items.simps [simp del]

definition pad :: "bool \<Rightarrow> int \<Rightarrow> string \<Rightarrow> string" where
  "pad zero_pad width t = replicate (nat width - length t) (if zero_pad then CHR ''0'' else SP) @ t"

definition arg_text :: "char list option \<Rightarrow> string option" where
  "arg_text s = (case s of None \<Rightarrow> Some ''(null)'' | Some s \<Rightarrow> if NUL \<in> set s then Some (cstr s) else None)"

fun render_item :: "fmt_item \<Rightarrow> fmt_arg list \<Rightarrow> (string \<times> fmt_arg list) option" where
  "render_item (Literal c) args = Some ([c], args)"
| "render_item (Conversion zero_pad width is_size c) args =
     (if c = CHR ''s''
      then (case args of Arg_Str s # args' \<Rightarrow> map_option (\<lambda>t. (t, args')) (arg_text s) | _ \<Rightarrow> None)
      else if c = CHR ''d''
      then (case signed_arg is_size args of
              None \<Rightarrow> None
            | Some (v, args') \<Rightarrow>
                if v = - 9223372036854775808 then None
                else Some ((if v < 0 then ''-'' else []) @ pad zero_pad width (show_nat (nat \<bar>v\<bar>)), args'))
      else if c = CHR ''u'' then map_option (\<lambda>(v, args'). (pad zero_pad width (show_nat v), args')) (unsigned_arg is_size args)
      else if c = CHR ''x'' then map_option (\<lambda>(v, args'). (pad zero_pad width (show_hex v), args')) (unsigned_arg is_size args)
      else if c = CHR ''X'' then map_option (\<lambda>(v, args'). (pad zero_pad width (map upcase (show_hex v)), args')) (unsigned_arg is_size args)
      else if c = CHR ''p''
      then (case args of Arg_Ptr w # args' \<Rightarrow> Some (''0x'' @ show_hex (unat w), args') | _ \<Rightarrow> None)
      else if c = CHR ''%'' then Some (''%'', args) else Some ([CHR ''%'', c], args))"

fun render :: "fmt_item list \<Rightarrow> fmt_arg list \<Rightarrow> string option" where
  "render [] args = Some []"
| "render (i # items) args =
     (case render_item i args of
        None \<Rightarrow> None
      | Some (t, args') \<Rightarrow> map_option ((@) t) (render items args'))"

definition formatted_text :: "char list \<Rightarrow> fmt_arg list \<Rightarrow> string option" where
  "formatted_text fmt args = Option.bind (fmt_items fmt) (\<lambda>items. render items args)"

text \<open>The output after a text: what fits in \<open>cap - 1\<close> bytes, and its length.\<close>

definition out_of :: "nat \<Rightarrow> char list \<Rightarrow> string \<Rightarrow> fmt_out" where
  "out_of cap buf t = (take (cap - 1) t @ drop (min (cap - 1) (length t)) buf, length t)"

lemma append_char_out:
  assumes "cap \<le> length buf"
  shows "append_char cap (out_of cap buf t) c = Some (out_of cap buf (t @ [c]))"
proof (cases "length t + 1 < cap")
  case True
  then have "min (cap - 1) (length t) = length t" "min (cap - 1) (Suc (length t)) = Suc (length t)"
    "length t < length buf" using assms by linarith+
  with True show ?thesis
    by (simp add: append_char_def out_of_def poke_def list_update_append Cons_nth_drop_Suc [of "length t" buf, symmetric])
next
  case False
  then have "min (cap - 1) (length t) = cap - 1" "min (cap - 1) (Suc (length t)) = cap - 1" by linarith+
  with False show ?thesis by (simp add: append_char_def out_of_def)
qed

lemma foldM_append_char:
  "cap \<le> length buf \<Longrightarrow> foldM (append_char cap) (out_of cap buf t) s = Some (out_of cap buf (t @ s))"
  by (induction s arbitrary: t) (simp_all add: append_char_out)

lemma append_cstr_out:
  "cap \<le> length buf \<Longrightarrow> append_cstr cap (out_of cap buf t) s =
     (if NUL \<in> set s then Some (out_of cap buf (t @ cstr s)) else None)"
  by (induction s arbitrary: t) (auto simp: append_char_out cstr_Cons)

lemma digit_char_10: "\<forall>d \<in> set [0..<10]. digit_char u d = char_of (48 + d)"
  by (cases u; simp only:; code_simp)

lemma digit_char_16: "\<forall>d \<in> set [0..<16]. digit_char False d = hex_digit d \<and> digit_char True d = upcase (hex_digit d)"
  by code_simp

lemma uint_digits_0 [simp]: "uint_digits room 0 base u = []"
  by (cases room) auto

lemma decimal_digits: "0 < v \<Longrightarrow> v < 10 ^ room \<Longrightarrow> rev (uint_digits room v 10 u) = show_nat v"
proof (induction room arbitrary: v)
  case (Suc room)
  have d: "digit_char u (v mod 10) = char_of (48 + v mod 10)" using digit_char_10 by simp
  show ?case
  proof (cases "v < 10")
    case True
    with Suc.prems d show ?thesis by (simp add: show_nat.simps [of v])
  next
    case False
    with Suc d show ?thesis by (simp add: show_nat.simps [of v] less_mult_imp_div_less mult.commute)
  qed
qed simp

lemma hex_digits:
  "0 < v \<Longrightarrow> v < 16 ^ room \<Longrightarrow>
   rev (uint_digits room v 16 False) = show_hex v \<and> rev (uint_digits room v 16 True) = map upcase (show_hex v)"
proof (induction room arbitrary: v)
  case (Suc room)
  have d: "digit_char False (v mod 16) = hex_digit (v mod 16)" "digit_char True (v mod 16) = upcase (hex_digit (v mod 16))"
    using digit_char_16 by simp_all
  show ?case
  proof (cases "v < 16")
    case True
    with Suc.prems d show ?thesis by (simp add: show_hex.simps [of v])
  next
    case False
    with Suc d show ?thesis by (simp add: show_hex.simps [of v] less_mult_imp_div_less mult.commute)
  qed
qed simp

lemma number_text:
  assumes "v < 2 ^ 64"
  shows "rev (if v = 0 then ''0'' else uint_digits 32 v 10 u) = show_nat v"
    and "rev (if v = 0 then ''0'' else uint_digits 32 v 16 False) = show_hex v"
    and "rev (if v = 0 then ''0'' else uint_digits 32 v 16 True) = map upcase (show_hex v)"
proof -
  have "v < 10 ^ 32" "v < 16 ^ 32" using assms by simp_all
  moreover have "show_nat 0 = ''0''" "show_hex 0 = ''0''" "upcase (CHR ''0'') = CHR ''0''"
    by code_simp+
  ultimately show "rev (if v = 0 then ''0'' else uint_digits 32 v 10 u) = show_nat v"
    and "rev (if v = 0 then ''0'' else uint_digits 32 v 16 False) = show_hex v"
    and "rev (if v = 0 then ''0'' else uint_digits 32 v 16 True) = map upcase (show_hex v)"
    using decimal_digits [of v 32 u] hex_digits [of v 32] by (auto split: if_split)
qed

lemma append_uint_out:
  assumes "cap \<le> length buf" and "rev (if v = 0 then ''0'' else uint_digits 32 v base u) = num"
  shows "append_uint cap v base u width zero_pad (out_of cap buf t) = Some (out_of cap buf (t @ pad zero_pad width num))"
proof -
  have "length (if v = 0 then ''0'' else uint_digits 32 v base u) = length num" using assms(2) by (metis length_rev)
  with assms show ?thesis by (simp add: append_uint_def foldM_append_char pad_def Let_def)
qed

lemma signed_arg_range: "signed_arg z args = Some (v, args') \<Longrightarrow> - (2 ^ 63) \<le> v \<and> v < 2 ^ 63"
proof -
  assume a: "signed_arg z args = Some (v, args')"
  have "- (2 ^ 63) \<le> sint (w :: u32) \<and> sint w < 2 ^ 63" for w
    using sint_greater_eq [of w] sint_less [of w] by simp
  moreover have "- (2 ^ 63) \<le> sint (w :: u64) \<and> sint w < 2 ^ 63" for w
    using sint_greater_eq [of w] sint_less [of w] by simp
  ultimately show ?thesis using a by (auto simp: signed_arg_def split: list.splits fmt_arg.splits if_splits)
qed

lemma unsigned_arg_range: "unsigned_arg z args = Some (v, args') \<Longrightarrow> v < 2 ^ 64"
proof -
  assume a: "unsigned_arg z args = Some (v, args')"
  have "unat (w :: u32) < 2 ^ 64" for w using unsigned_less [of w, where ?'a = nat] by simp
  moreover have "unat (w :: u64) < 2 ^ 64" for w using unsigned_less [of w, where ?'a = nat] by simp
  ultimately show ?thesis using a by (auto simp: unsigned_arg_def split: list.splits fmt_arg.splits if_splits)
qed

lemma append_decimal:
  "cap \<le> length buf \<Longrightarrow> v < 2 ^ 64 \<Longrightarrow>
   append_uint cap v 10 False width z (out_of cap buf t) = Some (out_of cap buf (t @ pad z width (show_nat v)))"
  by (rule append_uint_out [OF _ number_text(1)])

lemma append_hex:
  assumes "cap \<le> length buf" and "v < 2 ^ 64"
  shows "append_uint cap v 16 upper width z (out_of cap buf t) =
     Some (out_of cap buf (t @ pad z width (if upper then map upcase (show_hex v) else show_hex v)))"
proof (cases upper)
  case True
  with append_uint_out [OF assms(1) number_text(3) [OF assms(2)]] show ?thesis by simp
next
  case False
  with append_uint_out [OF assms(1) number_text(2) [OF assms(2)]] show ?thesis by simp
qed

lemma pad_0 [simp]: "pad z 0 t = t"
  by (simp add: pad_def)

lemma convert_out:
  assumes "cap \<le> length buf"
  shows "convert cap z w is_size c args (out_of cap buf t) =
     map_option (\<lambda>(s, args'). (args', out_of cap buf (t @ s))) (render_item (Conversion z w is_size c) args)"
proof -
  consider "c = CHR ''s''" | "c = CHR ''d''" | "c = CHR ''u''" | "c = CHR ''x''" | "c = CHR ''X''" | "c = CHR ''p''"
    | "c = CHR ''%''" | "c \<notin> set ''sduxXp%''" by auto
  then show ?thesis
  proof cases
    case 1
    then show ?thesis using assms
      by (auto simp: convert_def append_cstr_out arg_text_def cstr_Cons split: list.splits fmt_arg.splits option.splits)
  next
    case 2
    show ?thesis
    proof (cases "signed_arg is_size args")
      case (Some p)
      obtain v args' where p: "p = (v, args')" by (rule prod.exhaust)
      from signed_arg_range [of is_size args v args'] Some p
      have v: "nat (- v) < 2 ^ 64" "nat v < 2 ^ 64" by auto
      show ?thesis using 2 Some p assms
        by (auto simp: convert_def append_char_out append_decimal [OF assms v(1)] append_decimal [OF assms v(2)])
    qed (use 2 in \<open>simp add: convert_def\<close>)
  next
    case 8
    then show ?thesis using assms by (auto simp: convert_def append_char_out)
  next
    case 6
    have "unat (p :: u64) < 2 ^ 64" for p using unsigned_less [of p, where ?'a = nat] by simp
    then show ?thesis using assms 6
      by (auto simp: convert_def append_char_out append_hex split: list.splits fmt_arg.splits)
  next
    case 7
    then show ?thesis using assms by (simp add: convert_def append_char_out)
  qed (cases "unsigned_arg is_size args",
       use assms in \<open>auto simp: convert_def append_decimal append_hex dest: unsigned_arg_range\<close>)+
qed

lemma conversion_step:
  assumes "read_spec p = Some (z, w, is_size, d, q)"
  shows "vsn_loop cap (CHR ''%'' # p) args st =
      (case convert cap z w is_size d args st of None \<Rightarrow> None | Some (args', st') \<Rightarrow> vsn_loop cap q args' st')"
    and "fmt_items (CHR ''%'' # p) = map_option ((#) (Conversion z w is_size d)) (fmt_items q)"
  by (simp_all add: vsn_loop.simps [of _ "CHR ''%'' # p"] fmt_items.simps [of "CHR ''%'' # p"] assms)

lemma vsn_loop_out:
  assumes "cap \<le> length buf"
  shows "vsn_loop cap fmt args (out_of cap buf t) =
     map_option (\<lambda>s. out_of cap buf (t @ s)) (formatted_text fmt args)"
proof (induction fmt arbitrary: args t rule: fmt_items.induct)
  case (1 fmt)
  show ?case
  proof (cases fmt)
    case (Cons c p)
    consider "c = NUL" | "c \<noteq> NUL" "c \<noteq> CHR ''%''" | "c = CHR ''%''" by blast
    then show ?thesis
    proof cases
      case 2
      with "1.IH"(1) [OF Cons] assms show ?thesis
        by (simp add: vsn_loop.simps [of _ "c # p"] fmt_items.simps [of "c # p"] Cons append_char_out formatted_text_def
            option.map_comp comp_def bind_map_option split: Option.bind_splits)
    next
      case 3
      show ?thesis
      proof (cases "read_spec p")
        case (Some r)
        obtain z w s d q where r: "r = (z, w, s, d, q)" by (metis prod.exhaust)
        with "1.IH"(2) [OF Cons] 3 Some
        have ih: "vsn_loop cap q args (out_of cap buf t) = map_option (\<lambda>s. out_of cap buf (t @ s)) (formatted_text q args)"
          for args t by simp
        from 3 Some r assms ih show ?thesis
          by (simp add: conversion_step Cons convert_out formatted_text_def
              option.map_comp comp_def bind_map_option split: Option.bind_splits option.splits prod.splits)
      qed (simp add: vsn_loop.simps [of _ "CHR ''%'' # p"] fmt_items.simps [of "CHR ''%'' # p"] Cons 3 formatted_text_def)
    qed (simp add: vsn_loop.simps [of _ "NUL # p"] fmt_items.simps [of "NUL # p"] Cons formatted_text_def)
  qed (simp add: vsn_loop.simps [of _ "[]"] fmt_items.simps [of "[]"] formatted_text_def)
qed

lemma out_of_Nil [simp]: "out_of cap buf [] = (buf, 0)"
  by (simp add: out_of_def)

lemma vsnprintf_text:
  assumes "cap \<le> length buf"
  shows "vsnprintf buf cap fmt args =
     map_option (\<lambda>t. (if cap = 0 then buf else take (cap - 1) t @ NUL # drop (min (cap - 1) (length t) + 1) buf,
                     of_nat (length t))) (formatted_text fmt args)"
proof (cases "formatted_text fmt args")
  case None
  with vsn_loop_out [OF assms, of fmt args "[]"] show ?thesis by (simp add: vsnprintf_def)
next
  case (Some t)
  let ?k = "min (cap - 1) (length t)"
  have out: "vsn_loop cap fmt args (buf, 0) = Some (take (cap - 1) t @ drop ?k buf, length t)"
    using vsn_loop_out [OF assms, of fmt args "[]"] Some by (simp add: out_of_def)
  show ?thesis
  proof (cases "cap = 0")
    case False
    then have k: "?k < length buf" and e: "(if length t < cap then length t else cap - 1) = ?k" using assms by auto
    have "(take (cap - 1) t @ drop ?k buf)[?k := NUL] = take (cap - 1) t @ NUL # drop (?k + 1) buf"
      using Cons_nth_drop_Suc [OF k, symmetric] by (auto simp: list_update_append)
    with out False Some k e assms show ?thesis by (simp add: vsnprintf_def poke_def min.commute [of "length t" "cap - Suc 0"])
  qed (use out Some in \<open>simp add: vsnprintf_def\<close>)
qed

text \<open>
  C29. \<open>vsnprintf\<close> into a buffer of at least \<open>cap\<close> bytes writes the formatted text, cut to
  \<open>cap - 1\<close> characters, and a NUL, changes no other byte, and returns the length of the whole text; it
  runs into undefined behaviour exactly when the format and its arguments have no text.
\<close>

theorem vsnprintf_renders:
  assumes "cap \<le> length buf"
  shows "vsnprintf buf cap fmt args =
     map_option (\<lambda>t. (if cap = 0 then buf else take (cap - 1) t @ NUL # drop (min (cap - 1) (length t) + 1) buf,
                     of_nat (length t))) (formatted_text fmt args)"
  using assms by (rule vsnprintf_text)

text \<open>What the prelude calls \<open>snprintf\<close> is what a reader of the buffer finds.\<close>

lemma vsnprintf_snprintf:
  assumes "0 < cap" and "cap \<le> length buf" and "formatted_text fmt args = Some t" and "NUL \<notin> set t"
  shows "\<exists>buf'. vsnprintf buf cap fmt args = Some (buf', of_nat (snd (snprintf cap t))) \<and> cstr buf' = fst (snprintf cap t)"
proof -
  have "NUL \<notin> set (take (cap - 1) t)" using assms(4) by (auto dest: in_set_takeD)
  then have "cstr (take (cap - 1) t @ NUL # r) = take (cap - 1) t" for r by (simp add: cstr_append cstr_Cons)
  with assms show ?thesis by (simp add: vsnprintf_text snprintf_def)
qed

section \<open>Formats and the types of their arguments\<close>

text \<open>The types that the conversions of a format ask for; \<open>%d\<close> has no text for the least \<open>size_t\<close> value of its type.\<close>

datatype fmt_type = Ty_Str | Ty_Int | Ty_Size | Ty_Signed_Size | Ty_Ptr

fun item_types :: "fmt_item \<Rightarrow> fmt_type list" where
  "item_types (Literal c) = []"
| "item_types (Conversion z w is_size c) =
     (if c = CHR ''s'' then [Ty_Str]
      else if c = CHR ''d'' then [if is_size then Ty_Signed_Size else Ty_Int]
      else if c \<in> set ''uxX'' then [if is_size then Ty_Size else Ty_Int]
      else if c = CHR ''p'' then [Ty_Ptr] else [])"

fun arg_has_type :: "fmt_arg \<Rightarrow> fmt_type \<Rightarrow> bool" where
  "arg_has_type (Arg_Str s) ty \<longleftrightarrow> ty = Ty_Str \<and> (case s of None \<Rightarrow> True | Some s \<Rightarrow> NUL \<in> set s)"
| "arg_has_type (Arg_Int w) ty \<longleftrightarrow> ty = Ty_Int"
| "arg_has_type (Arg_Size w) ty \<longleftrightarrow> ty = Ty_Size \<or> ty = Ty_Signed_Size \<and> sint w \<noteq> - 9223372036854775808"
| "arg_has_type (Arg_Ptr w) ty \<longleftrightarrow> ty = Ty_Ptr"

definition well_typed :: "char list \<Rightarrow> fmt_arg list \<Rightarrow> bool" where
  "well_typed fmt args \<longleftrightarrow>
     (case fmt_items fmt of None \<Rightarrow> False
      | Some items \<Rightarrow> list_all2 arg_has_type args (concat (map item_types items)))"

lemma int_not_least: "sint (w :: u32) \<noteq> - 9223372036854775808"
  using sint_greater_eq [of w] by simp

lemma render_item_progress:
  assumes "list_all2 arg_has_type args (item_types i @ tys)"
  shows "\<exists>t args'. render_item i args = Some (t, args') \<and> list_all2 arg_has_type args' tys"
proof (cases i)
  case (Conversion z w is_size c)
  show ?thesis
  proof (cases "item_types i")
    case Nil
    with assms Conversion show ?thesis by (auto split: if_splits)
  next
    case (Cons ty tys')
    then have "tys' = []" using Conversion by (auto split: if_splits)
    with assms Cons obtain a args' where "args = a # args'" "arg_has_type a ty" "list_all2 arg_has_type args' tys"
      by (auto simp: list_all2_Cons2)
    with Cons Conversion show ?thesis
      by (cases a) (auto simp: arg_text_def signed_arg_def unsigned_arg_def int_not_least split: if_splits option.splits)
  qed
qed (use assms in simp)

lemma render_progress:
  "list_all2 arg_has_type args (concat (map item_types items)) \<Longrightarrow> \<exists>t. render items args = Some t"
proof (induction items arbitrary: args)
  case (Cons i items)
  then obtain t args' where "render_item i args = Some (t, args')" "list_all2 arg_has_type args' (concat (map item_types items))"
    using render_item_progress [of args i "concat (map item_types items)"] by auto
  with Cons.IH [of args'] show ?case by auto
qed simp

text \<open>
  C30. A format whose arguments have the types it asks for does not go wrong: \<open>vsnprintf\<close> returns,
  whatever the size of the buffer that its second argument names, and leaves the length of the buffer as it was.
\<close>

theorem well_typed_formats_print:
  assumes "well_typed fmt args" and "cap \<le> length buf"
  shows "\<exists>buf' n. vsnprintf buf cap fmt args = Some (buf', n) \<and> length buf' = length buf"
proof -
  obtain items where i: "fmt_items fmt = Some items" "list_all2 arg_has_type args (concat (map item_types items))"
    using assms(1) by (auto simp: well_typed_def split: option.splits)
  from render_progress [OF i(2)] i(1) obtain t where "formatted_text fmt args = Some t" by (auto simp: formatted_text_def)
  with assms(2) show ?thesis by (auto simp: vsnprintf_text)
qed

text \<open>
  A format that ends in a percent sign is read past its end: the NUL byte is taken for the
  conversion, and the loop goes on behind it.
\<close>

theorem trailing_percent_overruns:
  assumes "CHR ''%'' \<notin> set s" and "NUL \<notin> set s" and "cap \<le> length buf"
  shows "vsnprintf buf cap (s @ ''%'' @ [NUL]) args = None"
proof -
  have "fmt_items (s @ ''%'' @ [NUL]) = None"
    using assms(1,2)
  proof (induction s)
    case Nil
    show ?case by (simp add: fmt_items.simps [of "[CHR ''%'', NUL]"] fmt_items.simps [of "[]"] read_spec_def is_digit_def)
  next
    case (Cons c s)
    then have "c \<noteq> CHR ''%''" "c \<noteq> NUL" "fmt_items (s @ ''%'' @ [NUL]) = None" by auto
    then show ?case by (simp add: fmt_items.simps [of "c # _"])
  qed
  then have "formatted_text (s @ ''%'' @ [NUL]) args = None" by (simp add: formatted_text_def)
  with vsnprintf_text [OF assms(3)] show ?thesis by simp
qed

text \<open>
  The sign stands before the padding, so a negative number with a width is longer than the width
  and its blanks stand between the sign and the digits.
\<close>

lemma negative_width:
  "formatted_text (''%4d'' @ [NUL]) [Arg_Int (- 3)] = Some (''-   3'')"
  "formatted_text (''%04d'' @ [NUL]) [Arg_Int (- 3)] = Some (''-0003'')"
  by code_simp+

section \<open>Examples\<close>

definition demo_hay :: "char list" where
  "demo_hay = ''wallpaper64.exe'' @ [NUL]"

definition demo_needle :: "char list" where
  "demo_needle = ''paper'' @ [NUL, CHR ''x'']"

lemma strstr_first_witness:
  "\<exists>r. strstr_libc demo_hay demo_needle = Some r \<and>
    (case r of None \<Rightarrow> \<forall>i. \<not> starts_with (cstr demo_needle) (drop i (cstr demo_hay))
     | Some i \<Rightarrow> i \<le> length (cstr demo_hay) \<and> starts_with (cstr demo_needle) (drop i (cstr demo_hay)) \<and>
         (\<forall>j < i. \<not> starts_with (cstr demo_needle) (drop j (cstr demo_hay))))"
  by (rule strstr_first) (simp_all add: demo_hay_def demo_needle_def)

definition demo_dest :: "char list" where
  "demo_dest = replicate 8 (CHR ''?'')"

definition demo_format :: "char list" where
  "demo_format = ''%s=%03x,%d'' @ [NUL]"

definition demo_args :: "fmt_arg list" where
  "demo_args = [Arg_Str (Some (''id'' @ [NUL])), Arg_Int 0xAB, Arg_Int (- 5)]"

lemma demo_text: "formatted_text demo_format demo_args = Some ''id=0ab,-5''"
  by code_simp

lemma vsnprintf_renders_witness:
  "vsnprintf demo_dest 8 demo_format demo_args = Some (''id=0ab,'' @ [NUL], 9)"
  using vsnprintf_renders [of 8 demo_dest demo_format demo_args] by (simp add: demo_text demo_dest_def)

lemma well_typed_formats_print_witness:
  "\<exists>buf' n. vsnprintf demo_dest 8 demo_format demo_args = Some (buf', n) \<and> length buf' = length demo_dest"
proof (rule well_typed_formats_print)
  show "well_typed demo_format demo_args" by code_simp
qed (simp add: demo_dest_def)

lemma trailing_percent_overruns_witness:
  "vsnprintf demo_dest 8 (''100'' @ ''%'' @ [NUL]) [] = None"
  by (rule trailing_percent_overruns) (simp_all add: demo_dest_def)

end
