(* ===== verification/WP_Process.thy ===== *)
theory WP_Process
  imports WP_Cursor WP_Daemon_Ctl "HOL-Library.Sublist"
begin

text \<open>
  The processes of the daemon (\<^verbatim>\<open>programs/wallpiperd/process.c\<close>, \<^verbatim>\<open>cleanup.c\<close>) and the question whether the
  Vulkan layer runs in a process of interest (\<^verbatim>\<open>loader/vk-layer-hook/process.c\<close>). The system is a
  function from times to what \<^verbatim>\<open>/proc\<close> shows: it may answer signals in any way. Every look
  at \<^verbatim>\<open>/proc\<close> and every pause takes time. The signals sent are recorded in the state.
\<close>

section \<open>Looking at processes\<close>

record proc_view =
  pv_names :: "string list option"
  pv_exists :: "int \<Rightarrow> bool"
  pv_comm :: "int \<Rightarrow> string option"
  pv_cmdline :: "int \<Rightarrow> string option"

type_synonym world = "nat \<Rightarrow> proc_view"

datatype signal = SIGTERM | SIGKILL | SIGINT | SIGCHLD | SIGPIPE

record proc_state =
  ps_clock :: nat
  ps_sent :: "(int \<times> signal) list"

definition tick :: "proc_state \<Rightarrow> proc_state" where
  "tick st = st\<lparr>ps_clock := ps_clock st + 1\<rparr>"

definition send_signal :: "signal \<Rightarrow> int \<Rightarrow> proc_state \<Rightarrow> proc_state" where
  "send_signal sig pid st = st\<lparr>ps_sent := ps_sent st @ [(pid, sig)]\<rparr>"

definition pid_alive :: "world \<Rightarrow> int \<Rightarrow> proc_state \<Rightarrow> bool \<times> proc_state" where
  "pid_alive w pid st = (pv_exists (w (ps_clock st)) pid, tick st)"

section \<open>Ending processes\<close>

fun any_alive :: "world \<Rightarrow> int list \<Rightarrow> proc_state \<Rightarrow> bool \<times> proc_state" where
  "any_alive w [] st = (False, st)"
| "any_alive w (pid # pids) st =
     (case pid_alive w pid st of (alive, st') \<Rightarrow> if alive then (True, st') else any_alive w pids st')"

text \<open>The attempts that are left; the result tells whether none of the processes was alive.\<close>

fun wait_gone :: "world \<Rightarrow> nat \<Rightarrow> int list \<Rightarrow> proc_state \<Rightarrow> bool \<times> proc_state" where
  "wait_gone w 0 pids st = (False, st)"
| "wait_gone w (Suc attempts) pids st =
     (case any_alive w pids st of (alive, st') \<Rightarrow> if \<not> alive then (True, st') else wait_gone w attempts pids (tick st'))"

fun kill_survivors :: "world \<Rightarrow> int list \<Rightarrow> proc_state \<Rightarrow> proc_state" where
  "kill_survivors w [] st = st"
| "kill_survivors w (pid # pids) st =
     (case pid_alive w pid st of
        (alive, st') \<Rightarrow> kill_survivors w pids (if alive then send_signal SIGKILL pid st' else st'))"

definition wp_kill_pids_gracefully :: "world \<Rightarrow> int list \<Rightarrow> proc_state \<Rightarrow> proc_state" where
  "wp_kill_pids_gracefully w pids st =
     (case wait_gone w 30 pids (fold (send_signal SIGTERM) pids st) of
        (gone, st') \<Rightarrow> if gone then st' else kill_survivors w pids st')"

section \<open>Finding processes\<close>

definition comm_is :: "string \<Rightarrow> proc_view \<Rightarrow> int \<Rightarrow> bool" where
  "comm_is name v pid =
     (case read_comm (pv_comm v pid) 256 of None \<Rightarrow> False | Some comm \<Rightarrow> cstr comm = name)"

definition read_cmdline :: "proc_view \<Rightarrow> int \<Rightarrow> nat \<Rightarrow> string option" where
  "read_cmdline v pid out_len = map_option (take (out_len - 1)) (pv_cmdline v pid)"

text \<open>The search ends at the first NUL byte.\<close>

definition cmdline_contains :: "string \<Rightarrow> proc_view \<Rightarrow> int \<Rightarrow> bool" where
  "cmdline_contains needle v pid =
     (case read_cmdline v pid 8192 of None \<Rightarrow> False | Some cmdline \<Rightarrow> memmem (cstr cmdline @ [NUL]) needle)"

definition entry_pid :: "string \<Rightarrow> int option" where
  "entry_pid name =
     (case strtol 10 name of
        None \<Rightarrow> None
      | Some (pid, rest) \<Rightarrow> if rest = [] \<and> 0 < pid then Some (to_i32 pid) else None)"

definition MAX_PIDS :: nat where "MAX_PIDS = 256"

fun scan_entries_of :: "world \<Rightarrow> (proc_view \<Rightarrow> int \<Rightarrow> bool) \<Rightarrow> string list \<Rightarrow> int list \<Rightarrow> proc_state \<Rightarrow> int list \<times> proc_state" where
  "scan_entries_of w matches [] pids st = (pids, st)"
| "scan_entries_of w matches (name # names) pids st =
     (case entry_pid name of
        None \<Rightarrow> scan_entries_of w matches names pids st
      | Some pid \<Rightarrow>
          scan_entries_of w matches names
            (if matches (w (ps_clock st)) pid \<and> length pids < MAX_PIDS then pids @ [pid] else pids) (tick st))"

definition scan_proc_pids :: "world \<Rightarrow> (proc_view \<Rightarrow> int \<Rightarrow> bool) \<Rightarrow> proc_state \<Rightarrow> int list \<times> proc_state" where
  "scan_proc_pids w matches st =
     (case pv_names (w (ps_clock st)) of
        None \<Rightarrow> ([], tick st)
      | Some names \<Rightarrow> scan_entries_of w matches names [] (tick st))"

definition wp_find_renderer_pids :: "world \<Rightarrow> proc_state \<Rightarrow> int list \<times> proc_state" where
  "wp_find_renderer_pids w = scan_proc_pids w (comm_is ''wallpaper64.exe'')"

definition wp_find_picker_pids :: "world \<Rightarrow> proc_state \<Rightarrow> int list \<times> proc_state" where
  "wp_find_picker_pids w = scan_proc_pids w (cmdline_contains ''wallpaperui.exe'')"

definition wp_find_webwallpaper_pids :: "world \<Rightarrow> proc_state \<Rightarrow> int list \<times> proc_state" where
  "wp_find_webwallpaper_pids w = scan_proc_pids w (cmdline_contains ''webwallpaper64.exe'')"

section \<open>The end of the daemon\<close>

text \<open>The portal is asked to let go of the displays first; its answer changes nothing.\<close>

definition wp_cleanup ::
  "world \<Rightarrow> environ \<Rightarrow> (string \<Rightarrow> wp_ctl_request \<Rightarrow> 's \<Rightarrow> wp_ctl_response option \<times> 's) \<Rightarrow>
   's \<times> portal_state \<times> proc_state \<Rightarrow> 's \<times> portal_state \<times> proc_state" where
  "wp_cleanup w vars send s =
     (case s of (portal, daemon, st) \<Rightarrow>
      case wp_portal_detach_display vars send portal of (detached, portal') \<Rightarrow>
      case wp_find_renderer_pids w st of (pids, st1) \<Rightarrow>
      case wp_find_webwallpaper_pids w st1 of (web_pids, st2) \<Rightarrow>
      let st3 = wp_kill_pids_gracefully w (take MAX_PIDS (pids @ web_pids)) st2
      in case wp_portal_take_display_pid daemon of (display, daemon') \<Rightarrow>
           (portal', daemon', case display of None \<Rightarrow> st3 | Some pid \<Rightarrow> wp_kill_pids_gracefully w [pid] st3))"

section \<open>The process of the Vulkan layer\<close>

text \<open>Here the whole command line is searched.\<close>

definition detect_target_process :: "proc_view \<Rightarrow> int \<Rightarrow> bool" where
  "detect_target_process v self \<longleftrightarrow>
     comm_is ''wallpaper64.exe'' v self \<or>
     (case read_cmdline v self 8192 of None \<Rightarrow> False | Some cmdline \<Rightarrow> memmem cmdline ''webwallpaper64.exe'')"

section \<open>Facts on signals\<close>

lemma tick_simps [simp]: "ps_clock (tick st) = ps_clock st + 1" "ps_sent (tick st) = ps_sent st"
  by (simp_all add: tick_def)

lemma send_signal_simps [simp]:
  "ps_clock (send_signal sig pid st) = ps_clock st" "ps_sent (send_signal sig pid st) = ps_sent st @ [(pid, sig)]"
  by (simp_all add: send_signal_def)

lemma fold_send: "ps_sent (fold (send_signal sig) pids st) = ps_sent st @ map (\<lambda>p. (p, sig)) pids"
  "ps_clock (fold (send_signal sig) pids st) = ps_clock st"
  by (induction pids arbitrary: st) simp_all

text \<open>The process is seen to be gone at some time of an interval.\<close>

definition seen_gone :: "world \<Rightarrow> nat \<Rightarrow> nat \<Rightarrow> int \<Rightarrow> bool" where
  "seen_gone w from till pid \<longleftrightarrow> (\<exists>t \<in> {from..<till}. \<not> pv_exists (w t) pid)"

lemma seen_gone_mono: "seen_gone w a b p \<Longrightarrow> a' \<le> a \<Longrightarrow> b \<le> b' \<Longrightarrow> seen_gone w a' b' p"
  by (fastforce simp: seen_gone_def)

lemma any_alive_result:
  "any_alive w pids st = (alive, st') \<Longrightarrow>
   ps_sent st' = ps_sent st \<and> ps_clock st \<le> ps_clock st' \<and> ps_clock st' \<le> ps_clock st + length pids \<and>
   (\<not> alive \<longrightarrow> (\<forall>p \<in> set pids. seen_gone w (ps_clock st) (ps_clock st') p))"
proof (induction pids arbitrary: st)
  case (Cons pid pids)
  show ?case
  proof (cases "pv_exists (w (ps_clock st)) pid")
    case True
    with Cons.prems show ?thesis by (auto simp: pid_alive_def)
  next
    case False
    with Cons.prems have r: "any_alive w pids (tick st) = (alive, st')" by (simp add: pid_alive_def)
    from Cons.IH [OF r] False show ?thesis by (auto simp: seen_gone_def intro: seen_gone_mono) force+
  qed
qed simp

lemma wait_gone_result:
  "wait_gone w attempts pids st = (gone, st') \<Longrightarrow>
   ps_sent st' = ps_sent st \<and> ps_clock st \<le> ps_clock st' \<and> ps_clock st' \<le> ps_clock st + attempts * (length pids + 1) \<and>
   (gone \<longrightarrow> (\<forall>p \<in> set pids. seen_gone w (ps_clock st) (ps_clock st') p))"
proof (induction attempts arbitrary: st)
  case (Suc attempts)
  obtain alive st1 where a: "any_alive w pids st = (alive, st1)" by (rule prod.exhaust)
  note r = any_alive_result [OF a]
  show ?case
  proof (cases alive)
    case True
    with Suc.prems a have "wait_gone w attempts pids (tick st1) = (gone, st')" by simp
    from Suc.IH [OF this] r show ?thesis by (auto intro: seen_gone_mono)
  qed (use Suc.prems a r in auto)
qed simp

lemma kill_survivors_result:
  "\<exists>ks. subseq ks pids \<and> ps_sent (kill_survivors w pids st) = ps_sent st @ map (\<lambda>p. (p, SIGKILL)) ks \<and>
   ps_clock (kill_survivors w pids st) = ps_clock st + length pids \<and>
   (\<forall>p \<in> set pids. p \<in> set ks \<or> seen_gone w (ps_clock st) (ps_clock st + length pids) p) \<and>
   (\<forall>p \<in> set ks. \<exists>t \<ge> ps_clock st. pv_exists (w t) p)"
proof (induction pids arbitrary: st)
  case (Cons pid pids)
  let ?alive = "pv_exists (w (ps_clock st)) pid"
  let ?st = "if ?alive then send_signal SIGKILL pid (tick st) else tick st"
  from Cons.IH [of ?st] obtain ks where ks: "subseq ks pids"
    "ps_sent (kill_survivors w pids ?st) = ps_sent ?st @ map (\<lambda>p. (p, SIGKILL)) ks"
    "ps_clock (kill_survivors w pids ?st) = ps_clock st + 1 + length pids"
    "\<forall>p \<in> set pids. p \<in> set ks \<or> seen_gone w (ps_clock st + 1) (ps_clock st + 1 + length pids) p"
    "\<forall>p \<in> set ks. \<exists>t \<ge> ps_clock st + 1. pv_exists (w t) p"
    by (auto split: if_splits)
  have "seen_gone w (ps_clock st) (ps_clock st + length (pid # pids)) pid" if "\<not> ?alive"
    using that by (auto simp: seen_gone_def)
  moreover have "seen_gone w (ps_clock st) (ps_clock st + length (pid # pids)) p"
    if "seen_gone w (ps_clock st + 1) (ps_clock st + 1 + length pids) p" for p
    using seen_gone_mono [OF that] by simp
  moreover have "\<forall>p \<in> set ks. \<exists>t \<ge> ps_clock st. pv_exists (w t) p" using ks(5) by (meson add_leD1)
  ultimately show ?case using ks(1-4)
    by (intro exI [of _ "if ?alive then pid # ks else ks"]) (auto simp: pid_alive_def)
qed simp

lemma graceful_kill_result:
  "\<exists>ks. subseq ks pids \<and>
     ps_sent (wp_kill_pids_gracefully w pids st) =
       ps_sent st @ map (\<lambda>p. (p, SIGTERM)) pids @ map (\<lambda>p. (p, SIGKILL)) ks \<and>
     (\<forall>p \<in> set pids. p \<in> set ks \<or> seen_gone w (ps_clock st) (ps_clock (wp_kill_pids_gracefully w pids st)) p) \<and>
     (\<forall>p \<in> set ks. \<exists>t \<ge> ps_clock st. pv_exists (w t) p) \<and>
     ps_clock (wp_kill_pids_gracefully w pids st) \<le> ps_clock st + 31 * (length pids + 1)"
proof -
  let ?st = "fold (send_signal SIGTERM) pids st"
  obtain gone st1 where g: "wait_gone w 30 pids ?st = (gone, st1)" by (rule prod.exhaust)
  have r: "ps_sent st1 = ps_sent ?st" "ps_clock st \<le> ps_clock st1" "ps_clock st1 \<le> ps_clock st + 30 * (length pids + 1)"
    "gone \<Longrightarrow> \<forall>p \<in> set pids. seen_gone w (ps_clock st) (ps_clock st1) p"
    using wait_gone_result [OF g] by (simp_all add: fold_send)
  show ?thesis
  proof (cases gone)
    case True
    with g r show ?thesis by (intro exI [of _ "[]"]) (simp add: wp_kill_pids_gracefully_def fold_send)
  next
    case False
    from kill_survivors_result [of pids w st1] obtain ks where ks: "subseq ks pids"
      "ps_sent (kill_survivors w pids st1) = ps_sent st1 @ map (\<lambda>p. (p, SIGKILL)) ks"
      "ps_clock (kill_survivors w pids st1) = ps_clock st1 + length pids"
      "\<forall>p \<in> set pids. p \<in> set ks \<or> seen_gone w (ps_clock st1) (ps_clock st1 + length pids) p"
      "\<forall>p \<in> set ks. \<exists>t \<ge> ps_clock st1. pv_exists (w t) p" by blast
    have "\<forall>p \<in> set pids. p \<in> set ks \<or> seen_gone w (ps_clock st) (ps_clock st1 + length pids) p"
      using ks(4) r(2) by (meson order_refl seen_gone_mono)
    moreover have "\<forall>p \<in> set ks. \<exists>t \<ge> ps_clock st. pv_exists (w t) p" using ks(5) r(2) by (meson order_trans)
    ultimately show ?thesis using g False r ks(1-3)
      by (intro exI [of _ ks]) (simp add: wp_kill_pids_gracefully_def fold_send)
  qed
qed

text \<open>
  Ending a list of processes sends \<open>SIGTERM\<close> to each, once and in order, then \<open>SIGKILL\<close> to some of
  them and to no others; a process that does not get \<open>SIGKILL\<close> was seen to be gone, one that gets it was
  seen alive, and the whole takes a bounded time, however the system reacts.
\<close>

theorem graceful_kill:
  "\<exists>ks. subseq ks pids \<and>
     ps_sent (wp_kill_pids_gracefully w pids st) =
       ps_sent st @ map (\<lambda>p. (p, SIGTERM)) pids @ map (\<lambda>p. (p, SIGKILL)) ks \<and>
     set pids - set ks \<subseteq> {p. seen_gone w (ps_clock st) (ps_clock (wp_kill_pids_gracefully w pids st)) p} \<and>
     set ks \<subseteq> {p. \<exists>t \<ge> ps_clock st. pv_exists (w t) p} \<and>
     ps_clock (wp_kill_pids_gracefully w pids st) \<le> ps_clock st + 31 * (length pids + 1)"
  using graceful_kill_result [of pids w st] by (elim exE) (intro exI, auto)

section \<open>Facts on the search\<close>

lemma entry_pid_show: "0 < pid \<Longrightarrow> pid < 2 ^ 31 \<Longrightarrow> entry_pid (show_int pid) = Some pid"
proof -
  assume p: "0 < pid" "pid < 2 ^ 31"
  then have "strtol 10 (show_int pid @ []) = Some (pid, [])" by (intro strtol_show_int) auto
  moreover have "to_i32 pid = pid" using p by (simp add: to_i32_def sint_sbintrunc' signed_take_bit_int_eq_self)
  ultimately show ?thesis using p by (simp add: entry_pid_def)
qed

lemma scan_prefix: "scan_entries_of w matches names pids st = (pids', st') \<Longrightarrow>
  prefix pids pids' \<and> ps_sent st' = ps_sent st \<and> ps_clock st \<le> ps_clock st'"
proof (induction names arbitrary: pids st)
  case (Cons name names)
  then show ?case by (fastforce split: option.splits if_splits dest: append_prefixD)
qed auto

lemma scan_finds:
  assumes "\<forall>t. matches (w t) pid" and "name \<in> set names" and "entry_pid name = Some pid"
    and "scan_entries_of w matches names pids st = (pids', st')" and "length pids' < MAX_PIDS"
  shows "pid \<in> set pids'"
  using assms(2,4)
proof (induction names arbitrary: pids st)
  case (Cons n names)
  show ?case
  proof (cases "n = name")
    case True
    let ?pids = "if length pids < MAX_PIDS then pids @ [pid] else pids"
    have s: "scan_entries_of w matches names ?pids (tick st) = (pids', st')"
      using Cons.prems True assms(1,3) by simp
    from scan_prefix [OF s] have p: "prefix ?pids pids'" by blast
    then have "length pids < MAX_PIDS" using assms(5) prefix_length_le [OF p] by (auto split: if_splits)
    with p show ?thesis by (auto dest: set_mono_prefix)
  next
    case False
    with Cons show ?thesis by (auto split: option.splits)
  qed
qed simp

lemma find_renderer:
  assumes "\<forall>t. comm_is ''wallpaper64.exe'' (w t) pid" and "pv_names (w (ps_clock st)) = Some names"
    and "show_int pid \<in> set names" and "0 < pid" and "pid < 2 ^ 31"
    and "wp_find_renderer_pids w st = (pids, st')" and "length pids < MAX_PIDS"
  shows "pid \<in> set pids"
  using scan_finds [where matches = "comm_is ''wallpaper64.exe''", OF assms(1,3) entry_pid_show [OF assms(4,5)], of "[]" "tick st" pids st'] assms(2,6,7)
  by (simp add: wp_find_renderer_pids_def scan_proc_pids_def)

lemma find_keeps: "scan_proc_pids w matches st = (pids, st') \<Longrightarrow> ps_sent st' = ps_sent st \<and> ps_clock st \<le> ps_clock st'"
  by (auto simp: scan_proc_pids_def split: option.splits dest!: scan_prefix)

text \<open>
  C24. No renderer survives the end of the daemon: a process called \<^verbatim>\<open>wallpaper64.exe\<close> that exists all
  the time is sent \<open>SIGTERM\<close> and then \<open>SIGKILL\<close>, as long as fewer than 256 of them are found and whether or not
  the portal answers.
\<close>

theorem cleanup_kills_renderers:
  assumes "\<forall>t. comm_is ''wallpaper64.exe'' (w t) pid \<and> pv_exists (w t) pid"
    and "pv_names (w (ps_clock st)) = Some names" and "show_int pid \<in> set names" and "0 < pid" and "pid < 2 ^ 31"
    and "length (fst (wp_find_renderer_pids w st)) < MAX_PIDS"
    and "wp_cleanup w vars send (portal, daemon, st) = (portal', daemon', st')"
  shows "\<exists>before between after. ps_sent st' = before @ (pid, SIGTERM) # between @ (pid, SIGKILL) # after"
proof -
  obtain pids st1 where f: "wp_find_renderer_pids w st = (pids, st1)" by (rule prod.exhaust)
  obtain web st2 where g: "wp_find_webwallpaper_pids w st1 = (web, st2)" by (rule prod.exhaust)
  let ?all = "take MAX_PIDS (pids @ web)"
  have "pid \<in> set pids" using find_renderer [OF _ assms(2-5) f] assms(1,6) f by simp
  then have in_all: "pid \<in> set ?all" using assms(6) f by simp
  obtain ks where ks: "ps_sent (wp_kill_pids_gracefully w ?all st2) =
      ps_sent st2 @ map (\<lambda>p. (p, SIGTERM)) ?all @ map (\<lambda>p. (p, SIGKILL)) ks"
    "\<forall>p \<in> set ?all. p \<in> set ks \<or> seen_gone w (ps_clock st2) (ps_clock (wp_kill_pids_gracefully w ?all st2)) p"
    using graceful_kill_result by blast
  have "pid \<in> set ks" using ks(2) in_all assms(1) by (auto simp: seen_gone_def)
  then obtain k1 k2 where k: "ks = k1 @ pid # k2" by (meson split_list)
  obtain a1 a2 where a: "?all = a1 @ pid # a2" using in_all by (meson split_list)
  have "\<exists>more. ps_sent st' = ps_sent (wp_kill_pids_gracefully w ?all st2) @ more"
    using assms(7) f g graceful_kill_result [of "[p]" w for p]
    by (auto simp: wp_cleanup_def Let_def wp_portal_take_display_pid_def split: prod.splits if_splits) (metis append.assoc)
  then obtain more where "ps_sent st' = ps_sent (wp_kill_pids_gracefully w ?all st2) @ more" ..
  with ks(1) have "ps_sent st' = (ps_sent st2 @ map (\<lambda>p. (p, SIGTERM)) a1) @ (pid, SIGTERM) #
      (map (\<lambda>p. (p, SIGTERM)) a2 @ map (\<lambda>p. (p, SIGKILL)) k1) @ (pid, SIGKILL) # map (\<lambda>p. (p, SIGKILL)) k2 @ more"
    unfolding a k by simp
  then show ?thesis by blast
qed

section \<open>Examples\<close>

text \<open>
  A web wallpaper whose program is not the first word of the command line: the Vulkan layer captures its
  images, but the end of the daemon does not find it.
\<close>

definition demo_web :: proc_view where
  "demo_web = \<lparr>pv_names = Some [''9''], pv_exists = (\<lambda>_. True), pv_comm = (\<lambda>_. Some (''wine64'' @ [LF])),
     pv_cmdline = (\<lambda>_. Some (''wine64'' @ NUL # ''webwallpaper64.exe'' @ [NUL]))\<rparr>"

lemma web_process_missed:
  "detect_target_process demo_web 9 \<and> \<not> cmdline_contains ''webwallpaper64.exe'' demo_web 9 \<and>
     \<not> comm_is ''wallpaper64.exe'' demo_web 9"
  by (simp add: demo_web_def detect_target_process_def cmdline_contains_def comm_is_def read_cmdline_def read_comm_def
      memmem_def cstr_def rtrim_def upt_rec)

definition demo_world :: world where
  "demo_world t = \<lparr>pv_names = Some [''self'', ''7''], pv_exists = (\<lambda>_. True),
     pv_comm = (\<lambda>_. Some (''wallpaper64.exe'' @ [LF])), pv_cmdline = (\<lambda>_. None)\<rparr>"

lemma demo_comm: "comm_is ''wallpaper64.exe'' (demo_world t) pid"
  by (simp add: comm_is_def demo_world_def read_comm_def rtrim_def cstr_def)

lemma demo_found: "wp_find_renderer_pids demo_world \<lparr>ps_clock = 0, ps_sent = []\<rparr> = ([7], \<lparr>ps_clock = 2, ps_sent = []\<rparr>)"
proof -
  have "entry_pid ''7'' = Some 7" "entry_pid ''self'' = None" by code_simp+
  moreover have "pv_names (demo_world 0) = Some [''self'', ''7'']" by (simp add: demo_world_def)
  ultimately show ?thesis
    by (simp add: wp_find_renderer_pids_def scan_proc_pids_def demo_comm MAX_PIDS_def tick_def)
qed

lemma cleanup_kills_renderers_witness:
  "\<exists>portal' daemon' st' before between after.
     wp_cleanup demo_world (\<lambda>_. None) (\<lambda>_ _ s. (None, s)) ((), portal_state_init, \<lparr>ps_clock = 0, ps_sent = []\<rparr>) = (portal', daemon', st') \<and>
     ps_sent st' = before @ (7, SIGTERM) # between @ (7, SIGKILL) # after"
proof -
  obtain portal' daemon' st' where c: "wp_cleanup demo_world (\<lambda>_. None) (\<lambda>_ _ s. (None, s))
      ((), portal_state_init, \<lparr>ps_clock = 0, ps_sent = []\<rparr>) = (portal', daemon', st')" by (metis prod.exhaust)
  have "show_int 7 = ''7''" by code_simp
  with cleanup_kills_renderers [where w = demo_world and pid = 7 and names = "[''self'', ''7'']", OF _ _ _ _ _ _ c] c
  show ?thesis by (auto simp: demo_comm demo_found MAX_PIDS_def) (simp_all add: demo_world_def)
qed

end
