(* ===== verification/WP_Fsutil.thy ===== *)
theory WP_Fsutil
  imports WP_Steam_Paths "HOL-Library.AList" "HOL-Library.Sublist"
begin

unbundle bit_operations_syntax

text \<open>
  The helpers for files (\<^verbatim>\<open>protocol/fsutil.c\<close>) and the two uses of them in
  \<^verbatim>\<open>protocol/steam_paths.c\<close> that change files. A file system is an association list from absolute
  paths, as lists of names, to nodes; the order of the list is the order in which a directory is
  read. Links to directories do not occur in it. What the system refuses and how much each \<open>read\<close>
  and \<open>write\<close> transfers are arguments.
\<close>

section \<open>Files\<close>

text \<open>A link tells whether \<open>stat\<close> finds what it points to.\<close>

datatype node = Dir_Node | File_Node string u32 | Link_Node bool | Special_Node

type_synonym name_path = "string list"
type_synonym file_system = "(name_path \<times> node) list"

definition lookup :: "file_system \<Rightarrow> name_path \<Rightarrow> node option" where
  "lookup fs p = (if p = [] then Some Dir_Node else map_of fs p)"

fun split_on :: "char \<Rightarrow> string \<Rightarrow> string list" where
  "split_on c [] = [[]]"
| "split_on c (x # s) =
     (if x = c then [] # split_on c s
      else case split_on c s of [] \<Rightarrow> [[x]] | w # ws \<Rightarrow> (x # w) # ws)"

definition walk :: "name_path \<Rightarrow> string \<Rightarrow> name_path" where
  "walk p n = (if n = [] \<or> n = ''.'' then p else if n = ''..'' then butlast p else p @ [n])"

definition resolve :: "string \<Rightarrow> name_path" where
  "resolve path = foldl walk [] (split_on CHR ''/'' path)"

record fs_env =
  fe_writable :: "name_path \<Rightarrow> bool"
  fe_readable :: "name_path \<Rightarrow> bool"
  fe_umask :: u32

definition stat_ok :: "file_system \<Rightarrow> name_path \<Rightarrow> bool" where
  "stat_ok fs p = (case lookup fs p of None \<Rightarrow> False | Some (Link_Node b) \<Rightarrow> b | Some _ \<Rightarrow> True)"

definition dir_names :: "file_system \<Rightarrow> name_path \<Rightarrow> string list" where
  "dir_names fs p = ''.'' # ''..'' # remdups [last q. (q, n) \<leftarrow> fs, q \<noteq> [] \<and> butlast q = p]"

section \<open>Making directories\<close>

datatype mkdir_result = Made | Exists | Refused

definition mkdir :: "fs_env \<Rightarrow> string \<Rightarrow> file_system \<Rightarrow> mkdir_result \<times> file_system" where
  "mkdir env path fs =
     (let p = resolve path
      in if lookup fs p \<noteq> None then (Exists, fs)
         else if lookup fs (butlast p) = Some Dir_Node \<and> fe_writable env p
         then (Made, AList.update p Dir_Node fs) else (Refused, fs))"

fun mkdir_each :: "fs_env \<Rightarrow> string list \<Rightarrow> file_system \<Rightarrow> bool \<times> file_system" where
  "mkdir_each env [] fs = (True, fs)"
| "mkdir_each env (d # ds) fs =
     (case mkdir env d fs of (Refused, fs') \<Rightarrow> (False, fs') | (_, fs') \<Rightarrow> mkdir_each env ds fs')"

text \<open>Every slash but one at the start ends a prefix that is made first.\<close>

definition wp_mkdir_p :: "fs_env \<Rightarrow> string \<Rightarrow> file_system \<Rightarrow> bool \<times> file_system" where
  "wp_mkdir_p env path fs =
     (if path = [] \<or> 1024 \<le> length path then (False, fs)
      else mkdir_each env (map (\<lambda>i. take i path) (filter (\<lambda>i. path ! i = CHR ''/'') [1..<length path]) @ [path]) fs)"

definition wp_mkdir_p_parent :: "fs_env \<Rightarrow> string \<Rightarrow> file_system \<Rightarrow> bool \<times> file_system" where
  "wp_mkdir_p_parent env file_path fs =
     (if file_path = [] \<or> 1024 \<le> length file_path then (False, fs)
      else case before_last CHR ''/'' file_path of
             None \<Rightarrow> (True, fs)
           | Some dir \<Rightarrow> if dir = [] then (True, fs) else wp_mkdir_p env dir fs)"

section \<open>Copying a file\<close>

text \<open>
  The outcome of each call: \<^term>\<open>None\<close> for a failure, otherwise the number of bytes that are
  transferred at most; a list that has ended stands for calls that transfer all.
\<close>

type_synonym outcomes = "nat option list"

text \<open>The inner loop: what was written, whether all of it, and the outcomes that are left.\<close>

function write_all :: "outcomes \<Rightarrow> string \<Rightarrow> string \<times> bool \<times> outcomes" where
  "write_all ws chunk =
     (if chunk = [] then ([], True, ws)
      else case ws of
             [] \<Rightarrow> (chunk, True, [])
           | None # ws' \<Rightarrow> ([], False, ws')
           | Some n # ws' \<Rightarrow>
               if n = 0 then ([], False, ws')
               else (case write_all ws' (drop n chunk) of (out, ok, r) \<Rightarrow> (take n chunk @ out, ok, r)))"
  by pat_completeness auto
termination
  by (relation "measure (\<lambda>(ws, chunk). length ws)") auto

declare write_all.simps [simp del]

text \<open>The buffer has 65536 bytes; a \<open>read\<close> returns nothing at the end of the file only.\<close>

definition read_amount :: "outcomes \<Rightarrow> nat" where
  "read_amount rs = (case rs of Some n # _ \<Rightarrow> max 1 (min n 65536) | _ \<Rightarrow> 65536)"

function copy_loop :: "outcomes \<Rightarrow> outcomes \<Rightarrow> string \<Rightarrow> string \<times> bool" where
  "copy_loop rs ws content =
     (case rs of
        None # _ \<Rightarrow> ([], False)
      | _ \<Rightarrow>
          if content = [] then ([], True)
          else (case write_all ws (take (read_amount rs) content) of
                  (out, ok, ws') \<Rightarrow>
                    if \<not> ok then (out, False)
                    else (case copy_loop (drop 1 rs) ws' (drop (read_amount rs) content) of
                            (out', ok') \<Rightarrow> (out @ out', ok'))))"
  by pat_completeness auto
termination
  by (relation "measure (\<lambda>(rs, ws, content). length content)") (auto simp: read_amount_def split: list.splits option.splits)

declare copy_loop.simps [simp del]

text \<open>\<open>open\<close> with \<open>O_WRONLY | O_CREAT | O_TRUNC\<close>; what a link or a special file takes goes elsewhere.\<close>

definition open_write :: "fs_env \<Rightarrow> name_path \<Rightarrow> u32 \<Rightarrow> file_system \<Rightarrow> file_system option" where
  "open_write env p mode fs =
     (if \<not> fe_writable env p then None
      else case lookup fs p of
             None \<Rightarrow> if lookup fs (butlast p) = Some Dir_Node
                     then Some (AList.update p (File_Node [] (mode AND NOT (fe_umask env))) fs) else None
           | Some Dir_Node \<Rightarrow> None
           | Some (File_Node c m) \<Rightarrow> Some (AList.update p (File_Node [] m) fs)
           | Some _ \<Rightarrow> Some fs)"

definition store :: "name_path \<Rightarrow> string \<Rightarrow> file_system \<Rightarrow> file_system" where
  "store p content fs =
     (case lookup fs p of Some (File_Node c m) \<Rightarrow> AList.update p (File_Node content m) fs | _ \<Rightarrow> fs)"

text \<open>
  The mode of a file that this process has just opened for writing. The code ignores a failure, and
  so this is where the files are taken to be on a file system that has modes and to belong to the user.
\<close>

definition chmod :: "name_path \<Rightarrow> u32 \<Rightarrow> file_system \<Rightarrow> file_system" where
  "chmod p mode fs =
     (case lookup fs p of Some (File_Node c m) \<Rightarrow> AList.update p (File_Node c mode) fs | _ \<Rightarrow> fs)"

type_synonym copy_io = "name_path \<Rightarrow> outcomes \<times> outcomes"

definition copy_file_with_mode ::
  "fs_env \<Rightarrow> copy_io \<Rightarrow> string \<Rightarrow> string \<Rightarrow> u32 \<Rightarrow> file_system \<Rightarrow> bool \<times> file_system" where
  "copy_file_with_mode env io src dst mode fs =
     (let s = resolve src; d = resolve dst
      in if \<not> fe_readable env s \<or> lookup fs s = None then (False, fs)
         else case open_write env d mode fs of
                None \<Rightarrow> (False, fs)
              | Some fs1 \<Rightarrow>
                  (case lookup fs1 s of
                     Some (File_Node content m) \<Rightarrow>
                       (case copy_loop (fst (io s)) (snd (io s)) content of
                          (out, ok) \<Rightarrow> (ok, if ok then chmod d mode (store d out fs1) else store d out fs1))
                   | _ \<Rightarrow> (False, fs1)))"

section \<open>Copying a tree\<close>

function wp_sync_dir_tree :: "fs_env \<Rightarrow> copy_io \<Rightarrow> string \<Rightarrow> string \<Rightarrow> file_system \<Rightarrow> bool \<times> file_system"
  and sync_entries :: "fs_env \<Rightarrow> copy_io \<Rightarrow> string \<Rightarrow> string \<Rightarrow> string list \<Rightarrow> bool \<Rightarrow> file_system \<Rightarrow> bool \<times> file_system"
where
  "wp_sync_dir_tree env io src_dir dst_dir fs =
     (if lookup fs (resolve src_dir) = Some Dir_Node \<and> fe_readable env (resolve src_dir)
      then (case wp_mkdir_p env dst_dir fs of
              (made, fs1) \<Rightarrow>
                if \<not> made then (False, fs1)
                else sync_entries env io src_dir dst_dir (dir_names fs (resolve src_dir)) True fs1)
      else (False, fs))"
| "sync_entries env io src_dir dst_dir [] ok fs = (ok, fs)"
| "sync_entries env io src_dir dst_dir (n # names) ok fs =
     (if n = ''.'' \<or> n = ''..'' \<or> n = ''config.json'' then sync_entries env io src_dir dst_dir names ok fs
      else let src_path = src_dir @ CHR ''/'' # n; dst_path = dst_dir @ CHR ''/'' # n
           in if 1024 \<le> length src_path \<or> 1024 \<le> length dst_path
              then sync_entries env io src_dir dst_dir names False fs
              else case lookup fs (resolve src_path) of
                     None \<Rightarrow> sync_entries env io src_dir dst_dir names False fs
                   | Some Dir_Node \<Rightarrow>
                       (case wp_sync_dir_tree env io src_path dst_path fs of
                          (r, fs1) \<Rightarrow> sync_entries env io src_dir dst_dir names (ok \<and> r) fs1)
                   | Some (File_Node content mode) \<Rightarrow>
                       if stat_ok fs (resolve dst_path) then sync_entries env io src_dir dst_dir names ok fs
                       else (case copy_file_with_mode env io src_path dst_path (mode AND 0x1FF) fs of
                               (r, fs1) \<Rightarrow> sync_entries env io src_dir dst_dir names (ok \<and> r) fs1)
                   | Some _ \<Rightarrow> sync_entries env io src_dir dst_dir names ok fs)"
  by pat_completeness auto
termination
  by (relation "inv_image (less_than <*lex*> less_than <*lex*> less_than)
        (\<lambda>x. case x of Inl (env, io, s, d, fs) \<Rightarrow> (1024 - length s, 1, 0)
              | Inr (env, io, s, d, names, ok, fs) \<Rightarrow> (1024 - length s, 0, length names))") auto

declare wp_sync_dir_tree.simps [simp del]

section \<open>Wallpaper Engine's files\<close>

definition wp_we_sync_distribution ::
  "environ \<Rightarrow> file_view \<Rightarrow> fs_env \<Rightarrow> copy_io \<Rightarrow> nat \<Rightarrow> file_system \<Rightarrow> unit path_result \<times> file_system" where
  "wp_we_sync_distribution vars fv env io err_len fs =
     (case wp_steam_root vars fv 768 err_len of
        Inl e \<Rightarrow> (Inl e, fs)
      | Inr steam_root \<Rightarrow>
          (case fmt_ok 900 (steam_root @ ''/steamapps/common/wallpaper_engine'') of
             None \<Rightarrow> (Inl (errf err_len ''steam root path too long''), fs)
           | Some install_dir \<Rightarrow>
               (case fmt_ok 950 (install_dir @ ''/distribution'') of
                  None \<Rightarrow> (Inl (errf err_len ''steam root path too long''), fs)
                | Some distribution_dir \<Rightarrow>
                    if \<not> is_dir fv distribution_dir then (Inr (), fs)
                    else (case wp_sync_dir_tree env io distribution_dir install_dir fs of
                            (True, fs1) \<Rightarrow> (Inr (), fs1)
                          | (False, fs1) \<Rightarrow>
                              (Inl (errf err_len (''failed to sync '' @ distribution_dir @ '' into '' @ install_dir)), fs1)))))"

definition default_config :: string where
  "default_config = concat (map (\<lambda>l. l @ [LF])
     [''{'',
      ''    '' @ [DQ] @ ''steamuser'' @ [DQ] @ '' :'',
      ''    {'',
      ''        '' @ [DQ] @ ''general'' @ [DQ] @ '' :'',
      ''        {'',
      ''            '' @ [DQ] @ ''user'' @ [DQ] @ '' :'',
      ''            {'',
      ''                '' @ [DQ] @ ''adjustdwmcolormode'' @ [DQ] @ '' : '' @ [DQ] @ ''disabled'' @ [DQ] @ '','',
      ''                '' @ [DQ] @ ''uihardwareacceleration'' @ [DQ] @ '' : false'',
      ''            }'',
      ''        }'',
      ''    }'',
      ''}''])"

definition wp_we_ensure_default_config ::
  "environ \<Rightarrow> file_view \<Rightarrow> fs_env \<Rightarrow> nat \<Rightarrow> file_system \<Rightarrow> unit path_result \<times> file_system" where
  "wp_we_ensure_default_config vars fv env err_len fs =
     (case wp_we_config_path vars fv 1024 err_len of
        Inl e \<Rightarrow> (Inl e, fs)
      | Inr config_path \<Rightarrow>
          if is_regular_file fv config_path then (Inr (), fs)
          else (case open_write env (resolve config_path) 0x1B6 fs of
                  None \<Rightarrow> (Inl (errf err_len (''failed to write default config to '' @ config_path)), fs)
                | Some fs1 \<Rightarrow> (Inr (), store (resolve config_path) default_config fs1)))"

end
