(* ===== verification/WP_Fsutil_Props.thy ===== *)
theory WP_Fsutil_Props
  imports WP_Fsutil
begin

text \<open>
  What \<^verbatim>\<open>protocol/fsutil.c\<close> promises: a copy that succeeds is exact however the calls split it, copying a
  tree never touches what is there, and a copy that reports success has every file that was missing.
\<close>

section \<open>Copying a file\<close>

lemma write_all_out:
  "write_all ws chunk = (out, ok, ws') \<Longrightarrow> prefix out chunk \<and> (ok \<longrightarrow> out = chunk)"
proof (induction ws chunk arbitrary: out ok ws' rule: write_all.induct)
  case (1 ws chunk)
  show ?case
  proof (cases "chunk = [] \<or> ws = []")
    case True
    with "1.prems" show ?thesis by (auto simp: write_all.simps [of ws chunk] split: if_splits)
  next
    case False
    then obtain w ws1 where ws: "ws = w # ws1" and ne: "chunk \<noteq> []" by (cases ws) auto
    show ?thesis
    proof (cases "w = None \<or> w = Some 0")
      case True
      with "1.prems" ws ne show ?thesis by (auto simp: write_all.simps [of "w # ws1" chunk])
    next
      case False
      then obtain n where n: "w = Some n" "n \<noteq> 0" by auto
      obtain o1 ok1 r1 where r: "write_all ws1 (drop n chunk) = (o1, ok1, r1)" by (metis prod.exhaust)
      with "1.prems" ws ne n have "out = take n chunk @ o1" "ok = ok1" by (auto simp: write_all.simps [of "Some n # ws1" chunk])
      moreover have "prefix o1 (drop n chunk) \<and> (ok1 \<longrightarrow> o1 = drop n chunk)" using "1.IH" ne ws n r by blast
      ultimately show ?thesis by (metis append_take_drop_id same_prefix_prefix)
    qed
  qed
qed

lemma copy_loop_out: "copy_loop rs ws content = (out, ok) \<Longrightarrow> prefix out content \<and> (ok \<longrightarrow> out = content)"
proof (induction rs ws content arbitrary: out ok rule: copy_loop.induct)
  case (1 rs ws content)
  show ?case
  proof (cases "content = [] \<or> (\<exists>rs'. rs = None # rs')")
    case True
    with "1.prems" show ?thesis by (auto simp: copy_loop.simps [of rs ws content] split: list.splits option.splits)
  next
    case False
    let ?n = "read_amount rs"
    obtain o1 ok1 ws1 where w: "write_all ws (take ?n content) = (o1, ok1, ws1)" by (metis prod.exhaust)
    obtain o2 ok2 where c: "copy_loop (drop 1 rs) ws1 (drop ?n content) = (o2, ok2)" by (metis prod.exhaust)
    have res: "(out, ok) = (if ok1 then (o1 @ o2, ok2) else (o1, False))"
      using "1.prems" False w c by (auto simp: copy_loop.simps [of rs ws content] split: list.splits option.splits)
    have p: "prefix o1 (take ?n content)" "ok1 \<Longrightarrow> o1 = take ?n content" using write_all_out [OF w] by auto
    show ?thesis
    proof (cases ok1)
      case True
      have "prefix o2 (drop ?n content) \<and> (ok2 \<longrightarrow> o2 = drop ?n content)"
        using "1.IH" False w c True by (cases rs) (auto split: option.splits)
      with res p True show ?thesis by simp (metis append_take_drop_id same_prefix_prefix)
    next
      case False
      with res p(1) show ?thesis using take_is_prefix prefix_order.trans by fastforce
    qed
  qed
qed

section \<open>Nothing is overwritten\<close>

definition keeps_files :: "file_system \<Rightarrow> file_system \<Rightarrow> bool" where
  "keeps_files fs fs' \<longleftrightarrow> lookup fs \<subseteq>\<^sub>m lookup fs'"

lemma keeps_files_refl [simp, intro]: "keeps_files fs fs"
  by (simp add: keeps_files_def)

lemma keeps_files_trans [trans]: "keeps_files fs1 fs2 \<Longrightarrow> keeps_files fs2 fs3 \<Longrightarrow> keeps_files fs1 fs3"
  unfolding keeps_files_def by (rule map_le_trans)

lemma keeps_files_lookup: "keeps_files fs fs' \<Longrightarrow> lookup fs p = Some n \<Longrightarrow> lookup fs' p = Some n"
  by (auto simp: keeps_files_def map_le_def dom_def)

lemma lookup_update: "p \<noteq> [] \<Longrightarrow> lookup (AList.update p n fs) q = (if q = p then Some n else lookup fs q)"
  by (simp add: lookup_def update_conv)

lemma lookup_None_ne: "lookup fs p = None \<Longrightarrow> p \<noteq> []"
  by (auto simp: lookup_def)

lemma keeps_files_update: "lookup fs p = None \<Longrightarrow> keeps_files fs (AList.update p n fs)"
  by (auto simp: keeps_files_def map_le_def lookup_update lookup_None_ne)

lemma keeps_files_mkdir: "mkdir env d fs = (r, fs') \<Longrightarrow> keeps_files fs fs'"
  by (auto simp: mkdir_def Let_def keeps_files_update split: if_splits)

lemma keeps_files_mkdir_each: "mkdir_each env ds fs = (r, fs') \<Longrightarrow> keeps_files fs fs'"
proof (induction ds arbitrary: fs)
  case (Cons d ds)
  obtain m fs1 where m: "mkdir env d fs = (m, fs1)" by (rule prod.exhaust)
  with Cons keeps_files_mkdir [OF m] show ?case by (cases m) (auto intro: keeps_files_trans)
qed simp

lemma keeps_files_mkdir_p: "wp_mkdir_p env d fs = (r, fs') \<Longrightarrow> keeps_files fs fs'"
  by (auto simp: wp_mkdir_p_def dest: keeps_files_mkdir_each split: if_splits)

text \<open>A copy changes at most the target, and nothing if the target is a link.\<close>

lemma copy_file_changes:
  assumes "copy_file_with_mode env io src dst mode fs = (r, fs')" and "q \<noteq> resolve dst"
  shows "lookup fs' q = lookup fs q"
proof -
  have "lookup (store p c fs) q = lookup fs q" "lookup (chmod p m fs) q = lookup fs q" if "q \<noteq> p" for p c m fs
    using that by (auto simp: store_def chmod_def lookup_def update_conv split: option.splits node.splits)
  moreover have "lookup fs1 q = lookup fs q" if "open_write env p m fs = Some fs1" "q \<noteq> p" for p m fs1
    using that by (auto simp: open_write_def lookup_def update_conv split: option.splits node.splits if_splits)
  ultimately show ?thesis using assms
    by (auto simp: copy_file_with_mode_def Let_def split: if_splits option.splits node.splits prod.splits)
qed

lemma copy_file_link:
  assumes "copy_file_with_mode env io src dst mode fs = (r, fs')" and "lookup fs (resolve dst) = Some (Link_Node b)"
  shows "fs' = fs"
  using assms by (auto simp: copy_file_with_mode_def open_write_def store_def chmod_def Let_def
      split: if_splits option.splits node.splits prod.splits)

lemma keeps_files_copy:
  assumes "copy_file_with_mode env io src dst mode fs = (r, fs')" and "\<not> stat_ok fs (resolve dst)"
  shows "keeps_files fs fs'"
proof (cases "lookup fs (resolve dst)")
  case None
  have "lookup fs q = lookup fs' q" if "q \<in> dom (lookup fs)" for q
  proof -
    have "q \<noteq> resolve dst" using that None by auto
    then show ?thesis by (simp add: copy_file_changes [OF assms(1)])
  qed
  then show ?thesis by (simp add: keeps_files_def map_le_def)
next
  case (Some n)
  with assms(2) obtain b where "n = Link_Node b" by (cases n) (auto simp: stat_ok_def)
  with Some copy_file_link [OF assms(1)] show ?thesis by simp
qed

section \<open>The steps of the copy of a tree\<close>

abbreviation child :: "string \<Rightarrow> string \<Rightarrow> string" where
  "child dir n \<equiv> dir @ CHR ''/'' # n"

definition entry_step :: "fs_env \<Rightarrow> copy_io \<Rightarrow> string \<Rightarrow> string \<Rightarrow> string \<Rightarrow> file_system \<Rightarrow> bool \<times> file_system" where
  "entry_step env io src dst n fs =
     (if n = ''.'' \<or> n = ''..'' \<or> n = ''config.json'' then (True, fs)
      else if 1024 \<le> length (child src n) \<or> 1024 \<le> length (child dst n) then (False, fs)
      else case lookup fs (resolve (child src n)) of
             None \<Rightarrow> (False, fs)
           | Some Dir_Node \<Rightarrow> wp_sync_dir_tree env io (child src n) (child dst n) fs
           | Some (File_Node content mode) \<Rightarrow>
               if stat_ok fs (resolve (child dst n)) then (True, fs)
               else copy_file_with_mode env io (child src n) (child dst n) (mode AND 0x1FF) fs
           | Some _ \<Rightarrow> (True, fs))"

lemma sync_entries_Cons:
  "sync_entries env io src dst (n # names) ok fs =
     (case entry_step env io src dst n fs of (r, fs1) \<Rightarrow> sync_entries env io src dst names (ok \<and> r) fs1)"
  by (auto simp: entry_step_def Let_def split: option.splits node.splits prod.splits)

declare sync_entries.simps(2) [simp del]

lemma sync_induct [case_names tree Nil Cons]:
  assumes "\<And>src dst. (\<And>names. Q src dst names) \<Longrightarrow> P src dst"
    and "\<And>src dst. Q src dst []"
    and "\<And>src dst n names. (length (child src n) < 1024 \<Longrightarrow> P (child src n) (child dst n)) \<Longrightarrow> Q src dst names \<Longrightarrow>
      Q src dst (n # names)"
  shows "P src dst" and "Q src dst names"
proof -
  have "P src dst \<and> (\<forall>names. Q src dst names)"
  proof (induction "1024 - length src" arbitrary: src dst rule: less_induct)
    case less
    have "Q src dst names" for names
    proof (induction names)
      case (Cons n names)
      show ?case by (rule assms(3) [OF _ Cons.IH]) (use less in simp)
    qed (rule assms(2))
    with assms(1) show ?case by blast
  qed
  then show "P src dst" and "Q src dst names" by blast+
qed

lemma sync_tree_cases:
  assumes "wp_sync_dir_tree env io src dst fs = (r, fs')"
  obtains (refused) "r = False" "fs' = fs"
  | (no_target) "wp_mkdir_p env dst fs = (False, fs')" "r = False"
  | (entries) fs1 where "wp_mkdir_p env dst fs = (True, fs1)" "lookup fs (resolve src) = Some Dir_Node"
      "sync_entries env io src dst (dir_names fs (resolve src)) True fs1 = (r, fs')"
proof -
  obtain made fs1 where m: "wp_mkdir_p env dst fs = (made, fs1)" by (rule prod.exhaust)
  show thesis
  proof (cases "lookup fs (resolve src) = Some Dir_Node \<and> fe_readable env (resolve src)")
    case True
    with assms m no_target entries show thesis by (cases made) (auto simp: wp_sync_dir_tree.simps)
  qed (use assms refused in \<open>auto simp: wp_sync_dir_tree.simps\<close>)
qed

lemma keeps_files_sync:
  "\<forall>fs r fs'. wp_sync_dir_tree env io src dst fs = (r, fs') \<longrightarrow> keeps_files fs fs'"
  "\<forall>ok fs r fs'. sync_entries env io src dst names ok fs = (r, fs') \<longrightarrow> keeps_files fs fs'"
proof (induction src dst and src dst names rule: sync_induct)
  case (tree src dst)
  have "keeps_files fs fs'" if "wp_sync_dir_tree env io src dst fs = (r, fs')" for fs r fs'
    using that by (cases rule: sync_tree_cases) (use tree keeps_files_mkdir_p keeps_files_trans in blast)+
  then show ?case by blast
next
  case (Cons src dst n names)
  have "keeps_files fs fs1" if "entry_step env io src dst n fs = (r, fs1)" for fs r fs1
    using that Cons(1) by (auto simp: entry_step_def dest: keeps_files_copy split: if_splits option.splits node.splits)
  then have "keeps_files fs fs'" if "sync_entries env io src dst (n # names) ok fs = (r, fs')" for ok fs r fs'
    using that Cons(2) keeps_files_trans by (auto simp: sync_entries_Cons split: prod.splits) blast
  then show ?case by blast
qed simp

text \<open>
  Copying a tree leaves everything that is there as it was, in the source and in the target,
  whatever the system refuses and wherever a copy breaks off; this includes a target inside of the
  source or around it.
\<close>

theorem sync_never_overwrites:
  "lookup fs \<subseteq>\<^sub>m lookup (snd (wp_sync_dir_tree env io src dst fs))"
proof -
  obtain r fs' where "wp_sync_dir_tree env io src dst fs = (r, fs')" by (rule prod.exhaust)
  with keeps_files_sync(1) show ?thesis by (fastforce simp: keeps_files_def)
qed

section \<open>Paths\<close>

definition name_ok :: "string \<Rightarrow> bool" where
  "name_ok n \<longleftrightarrow> n \<noteq> [] \<and> n \<noteq> ''.'' \<and> n \<noteq> ''..'' \<and> CHR ''/'' \<notin> set n"

definition no_dotdot :: "string \<Rightarrow> bool" where
  "no_dotdot path \<longleftrightarrow> ''..'' \<notin> set (split_on CHR ''/'' path)"

lemma split_on_ne [simp]: "split_on c s \<noteq> []"
  by (induction s) (auto split: list.splits)

lemma split_on_append: "split_on c (s @ c # t) = split_on c s @ split_on c t"
  by (induction s) (auto split: list.splits)

lemma split_on_name: "c \<notin> set s \<Longrightarrow> split_on c s = [s]"
  by (induction s) auto

lemma split_on_parts: "w \<in> set (split_on c s) \<Longrightarrow> c \<notin> set w"
proof (induction s arbitrary: w)
  case (Cons x s)
  then show ?case by (cases "split_on c s") (auto split: if_splits)
qed simp

lemma resolve_child: "name_ok n \<Longrightarrow> resolve (child s n) = resolve s @ [n]"
  by (simp add: resolve_def split_on_append split_on_name name_ok_def walk_def)

lemma no_dotdot_child: "name_ok n \<Longrightarrow> no_dotdot (child s n) = no_dotdot s"
  by (auto simp: no_dotdot_def split_on_append split_on_name name_ok_def)

lemma resolve_append: "resolve (s @ CHR ''/'' # t) = foldl walk (resolve s) (split_on CHR ''/'' t)"
  by (simp add: resolve_def split_on_append)

lemma walk_prefix: "''..'' \<notin> set ns \<Longrightarrow> prefix p (foldl walk p ns)"
proof (induction ns arbitrary: p)
  case (Cons n ns)
  have "prefix p (walk p n)" using Cons.prems by (auto simp: walk_def)
  also have "prefix (walk p n) (foldl walk (walk p n) ns)" using Cons by simp
  finally show ?case by simp
qed simp

lemma walk_names: "list_all name_ok p \<Longrightarrow> CHR ''/'' \<notin> set n \<Longrightarrow> list_all name_ok (walk p n)"
  by (auto simp: walk_def name_ok_def list_all_iff dest: in_set_butlastD)

lemma resolve_names: "list_all name_ok (resolve path)"
proof -
  have w: "list_all name_ok p \<Longrightarrow> \<forall>w \<in> set ns. CHR ''/'' \<notin> set w \<Longrightarrow> list_all name_ok (foldl walk p ns)" for p ns
    by (induction ns arbitrary: p) (simp_all add: walk_names)
  show ?thesis unfolding resolve_def by (rule w) (auto dest: split_on_parts)
qed

section \<open>Where the copy makes changes\<close>

lemma mkdir_each_changes:
  "mkdir_each env ds fs = (r, fs') \<Longrightarrow> q \<notin> resolve ` set ds \<Longrightarrow> lookup fs' q = lookup fs q"
proof (induction ds arbitrary: fs)
  case (Cons d ds)
  obtain m fs1 where m: "mkdir env d fs = (m, fs1)" by (rule prod.exhaust)
  have "lookup fs1 q = lookup fs q"
    using m Cons.prems(2) by (auto simp: mkdir_def Let_def lookup_update lookup_None_ne split: if_splits)
  with Cons m show ?case by (cases m) auto
qed simp

lemma mkdir_p_changes:
  assumes "wp_mkdir_p env d fs = (r, fs')" and "no_dotdot d" and "\<not> prefix q (resolve d)"
  shows "lookup fs' q = lookup fs q"
proof -
  have "prefix (resolve (take i d)) (resolve d)" if "i < length d" "d ! i = CHR ''/''" for i
  proof -
    have d: "d = take i d @ CHR ''/'' # drop (Suc i) d" using that id_take_nth_drop by metis
    then have "split_on CHR ''/'' d = split_on CHR ''/'' (take i d) @ split_on CHR ''/'' (drop (Suc i) d)"
      using split_on_append by metis
    with assms(2) have "''..'' \<notin> set (split_on CHR ''/'' (drop (Suc i) d))" by (simp add: no_dotdot_def)
    from walk_prefix [OF this, of "resolve (take i d)"] d show ?thesis using resolve_append by metis
  qed
  then have "q \<notin> resolve ` set (map (\<lambda>i. take i d) (filter (\<lambda>i. d ! i = CHR ''/'') [1..<length d]) @ [d])"
    using assms(3) by auto
  with assms(1) show ?thesis by (auto simp: wp_mkdir_p_def dest!: mkdir_each_changes split: if_splits)
qed

lemma mkdir_made: "mkdir env d fs = (r, fs') \<Longrightarrow> r \<noteq> Refused \<Longrightarrow> lookup fs' (resolve d) \<noteq> None"
  by (auto simp: mkdir_def Let_def lookup_update lookup_None_ne split: if_splits)

lemma mkdir_each_made: "mkdir_each env (ds @ [d]) fs = (True, fs') \<Longrightarrow> lookup fs' (resolve d) \<noteq> None"
proof (induction ds arbitrary: fs)
  case Nil
  obtain m fs1 where "mkdir env d fs = (m, fs1)" by (rule prod.exhaust)
  with Nil mkdir_made [of env d fs m fs1] show ?case by (cases m) auto
next
  case (Cons a ds)
  obtain m fs1 where "mkdir env a fs = (m, fs1)" by (rule prod.exhaust)
  with Cons show ?case by (cases m) auto
qed

lemma mkdir_p_made: "wp_mkdir_p env d fs = (True, fs') \<Longrightarrow> lookup fs' (resolve d) \<noteq> None"
  by (auto simp: wp_mkdir_p_def dest: mkdir_each_made split: if_splits)

section \<open>Trees\<close>

text \<open>Names are names, and what is not the root stands in a directory.\<close>

definition fs_wf :: "file_system \<Rightarrow> bool" where
  "fs_wf fs \<longleftrightarrow>
     (\<forall>p n. lookup fs p = Some n \<longrightarrow> list_all name_ok p \<and> lookup fs (butlast p) = Some Dir_Node)"

lemma fs_wfD: "fs_wf fs \<Longrightarrow> lookup fs p = Some n \<Longrightarrow> list_all name_ok p \<and> lookup fs (butlast p) = Some Dir_Node"
  by (simp add: fs_wf_def)

lemma fs_wf_update:
  assumes "fs_wf fs" and "p \<noteq> []" and "list_all name_ok p" and "lookup fs (butlast p) = Some Dir_Node"
    and "lookup fs p \<noteq> Some Dir_Node"
  shows "fs_wf (AList.update p n fs)"
  unfolding fs_wf_def
proof (intro allI impI)
  fix q m
  assume q: "lookup (AList.update p n fs) q = Some m"
  have "butlast p \<noteq> p" using assms(2) by (metis append_butlast_last_id not_Cons_self2 self_append_conv)
  moreover have "butlast q \<noteq> p" if "q \<noteq> p" using that q assms fs_wfD [of fs q m] by (auto simp: lookup_update)
  ultimately show "list_all name_ok q \<and> lookup (AList.update p n fs) (butlast q) = Some Dir_Node"
    using q assms fs_wfD [of fs q m] by (cases "q = p") (simp_all add: lookup_update)
qed

lemma fs_wf_mkdir: "fs_wf fs \<Longrightarrow> mkdir env d fs = (r, fs') \<Longrightarrow> fs_wf fs'"
  by (auto simp: mkdir_def Let_def resolve_names lookup_None_ne intro!: fs_wf_update split: if_splits)

lemma fs_wf_mkdir_each: "fs_wf fs \<Longrightarrow> mkdir_each env ds fs = (r, fs') \<Longrightarrow> fs_wf fs'"
proof (induction ds arbitrary: fs)
  case (Cons d ds)
  obtain m fs1 where m: "mkdir env d fs = (m, fs1)" by (rule prod.exhaust)
  have "fs_wf fs1" by (rule fs_wf_mkdir [OF Cons.prems(1) m])
  with m Cons show ?case by (cases m) auto
qed simp

lemma fs_wf_mkdir_p: "fs_wf fs \<Longrightarrow> wp_mkdir_p env d fs = (r, fs') \<Longrightarrow> fs_wf fs'"
  by (auto simp: wp_mkdir_p_def dest: fs_wf_mkdir_each split: if_splits)

lemma lookup_File_ne: "lookup fs p = Some (File_Node c m) \<Longrightarrow> p \<noteq> []"
  by (auto simp: lookup_def)

lemma fs_wf_file_update:
  "fs_wf fs \<Longrightarrow> lookup fs p = Some (File_Node c m) \<Longrightarrow> fs_wf (AList.update p n fs)"
  using fs_wfD [of fs p] lookup_File_ne [of fs p] by (intro fs_wf_update) auto

lemma fs_wf_store: "fs_wf fs \<Longrightarrow> fs_wf (store p c fs)"
  by (auto simp: store_def fs_wf_file_update split: option.splits node.splits)

lemma fs_wf_chmod: "fs_wf fs \<Longrightarrow> fs_wf (chmod p c fs)"
  by (auto simp: chmod_def fs_wf_file_update split: option.splits node.splits)

lemma fs_wf_open: "fs_wf fs \<Longrightarrow> list_all name_ok p \<Longrightarrow> open_write env p m fs = Some fs' \<Longrightarrow> fs_wf fs'"
  by (auto simp: open_write_def lookup_None_ne intro: fs_wf_file_update fs_wf_update
      split: if_splits option.splits node.splits)

lemma fs_wf_copy:
  assumes "fs_wf fs" and "copy_file_with_mode env io src dst mode fs = (r, fs')"
  shows "fs_wf fs'"
proof -
  have "fs_wf fs1" if "open_write env (resolve dst) mode fs = Some fs1" for fs1
    using fs_wf_open [OF assms(1) resolve_names that] .
  with assms show ?thesis
    by (auto simp: copy_file_with_mode_def Let_def fs_wf_store fs_wf_chmod
        split: if_splits option.splits node.splits prod.splits)
qed

text \<open>
  A tree stays a tree, and a copy changes nothing but the target, what is below it, and the
  directories on the way to it.
\<close>

definition confined :: "name_path \<Rightarrow> file_system \<Rightarrow> file_system \<Rightarrow> bool" where
  "confined d fs fs' \<longleftrightarrow> (\<forall>q. \<not> prefix q d \<longrightarrow> \<not> prefix d q \<longrightarrow> lookup fs' q = lookup fs q)"

lemma confined_trans: "confined d fs fs1 \<Longrightarrow> confined d fs1 fs2 \<Longrightarrow> confined d fs fs2"
  by (simp add: confined_def)

lemma confined_child: "confined (d @ [n]) fs fs' \<Longrightarrow> confined d fs fs'"
  unfolding confined_def by (metis append_prefixD prefix_snoc)

lemma dir_names_ok: "fs_wf fs \<Longrightarrow> n \<in> set (dir_names fs p) \<Longrightarrow> n = ''.'' \<or> n = ''..'' \<or> name_ok n"
proof -
  assume w: "fs_wf fs" and n: "n \<in> set (dir_names fs p)"
  have "name_ok (last q)" if q: "(q, m) \<in> set fs" "q \<noteq> []" for q m
  proof -
    have "lookup fs q \<noteq> None" using weak_map_of_SomeI [OF q(1)] by (auto simp: lookup_def)
    with fs_wfD [OF w] q(2) show ?thesis by (fastforce simp: list_all_iff)
  qed
  with n show ?thesis by (auto simp: dir_names_def)
qed

lemma confined_refl [simp]: "confined d fs fs"
  by (simp add: confined_def)

lemma confined_mkdir_p: "wp_mkdir_p env d fs = (r, fs') \<Longrightarrow> no_dotdot d \<Longrightarrow> confined (resolve d) fs fs'"
  by (auto simp: confined_def dest: mkdir_p_changes)

lemma confined_copy: "copy_file_with_mode env io src dst mode fs = (r, fs') \<Longrightarrow> confined (resolve dst) fs fs'"
  unfolding confined_def by (metis copy_file_changes prefix_order.refl)

definition keeps_tree :: "name_path \<Rightarrow> file_system \<Rightarrow> file_system \<Rightarrow> bool" where
  "keeps_tree d fs fs' \<longleftrightarrow> (fs_wf fs \<longrightarrow> fs_wf fs' \<and> confined d fs fs')"

lemma entry_step_skip:
  "n = ''.'' \<or> n = ''..'' \<or> n = ''config.json'' \<Longrightarrow> entry_step env io src dst n fs = (True, fs)"
  by (elim disjE) (simp_all add: entry_step_def)

lemma entry_step_keeps:
  assumes "entry_step env io src dst n fs = (r, fs')" and "name_ok n" and "no_dotdot dst"
    and "length (child src n) < 1024 \<Longrightarrow>
      \<forall>fs r fs'. wp_sync_dir_tree env io (child src n) (child dst n) fs = (r, fs') \<longrightarrow> keeps_tree (resolve (child dst n)) fs fs'"
  shows "keeps_tree (resolve dst @ [n]) fs fs'"
  using assms confined_copy [of env io "child src n" "child dst n"] fs_wf_copy [of fs env io "child src n" "child dst n"]
  by (auto simp: entry_step_def keeps_tree_def resolve_child split: if_splits option.splits node.splits)

lemma sync_keeps_tree:
  "no_dotdot dst \<longrightarrow> (\<forall>fs r fs'. wp_sync_dir_tree env io src dst fs = (r, fs') \<longrightarrow> keeps_tree (resolve dst) fs fs')"
  "no_dotdot dst \<longrightarrow> (\<forall>n \<in> set names. n = ''.'' \<or> n = ''..'' \<or> name_ok n) \<longrightarrow>
     (\<forall>ok fs r fs'. sync_entries env io src dst names ok fs = (r, fs') \<longrightarrow> keeps_tree (resolve dst) fs fs')"
proof (induction src dst and src dst names rule: sync_induct)
  case (tree src dst)
  have "keeps_tree (resolve dst) fs fs'" if "no_dotdot dst" "wp_sync_dir_tree env io src dst fs = (r, fs')" for fs r fs'
    using that(2)
  proof (cases rule: sync_tree_cases)
    case no_target
    with that(1) show ?thesis by (simp add: keeps_tree_def confined_mkdir_p fs_wf_mkdir_p)
  next
    case (entries fs1)
    with that(1) tree dir_names_ok [of fs] confined_mkdir_p [OF entries(1)] fs_wf_mkdir_p [OF _ entries(1)]
    show ?thesis unfolding keeps_tree_def by (meson confined_trans)
  qed (simp add: keeps_tree_def)
  then show ?case by blast
next
  case (Cons src dst n names)
  have step: "keeps_tree (resolve dst) fs fs'"
    if ok: "no_dotdot dst" "\<forall>n \<in> set (n # names). n = ''.'' \<or> n = ''..'' \<or> name_ok n"
      and s: "sync_entries env io src dst (n # names) ok fs = (r, fs')" for ok fs r fs'
  proof -
    obtain r1 fs1 where e: "entry_step env io src dst n fs = (r1, fs1)" by (rule prod.exhaust)
    have "keeps_tree (resolve dst) fs fs1"
    proof (cases "name_ok n")
      case True
      have "keeps_tree (resolve dst @ [n]) fs fs1"
        by (rule entry_step_keeps [OF e True ok(1)]) (use Cons(1) ok(1) True no_dotdot_child in blast)
      then show ?thesis by (auto simp: keeps_tree_def intro: confined_child)
    next
      case False
      with ok(2) have "n = ''.'' \<or> n = ''..''" by auto
      then have "entry_step env io src dst n fs = (True, fs)" using entry_step_skip by blast
      with e show ?thesis by (simp add: keeps_tree_def)
    qed
    moreover have "keeps_tree (resolve dst) fs1 fs'"
      using Cons(2) ok s e by (simp add: sync_entries_Cons)
    ultimately show ?thesis by (simp add: keeps_tree_def confined_def)
  qed
  show ?case by (intro impI allI) (rule step)
qed (simp add: keeps_tree_def)

section \<open>What was missing is copied\<close>

lemma copy_file_copies:
  assumes "copy_file_with_mode env io src dst mode fs = (True, fs')"
    and "lookup fs (resolve src) = Some (File_Node c m)" and "lookup fs (resolve dst) = None"
  shows "lookup fs' (resolve dst) = Some (File_Node c mode)"
proof -
  let ?s = "resolve src" and ?d = "resolve dst"
  let ?fs1 = "AList.update ?d (File_Node [] (mode AND NOT (fe_umask env))) fs"
  have ne: "?d \<noteq> []" "?s \<noteq> ?d" using assms lookup_None_ne by auto
  obtain out ok where l: "copy_loop (fst (io ?s)) (snd (io ?s)) c = (out, ok)" by (rule prod.exhaust)
  have "open_write env ?d mode fs = Some ?fs1 \<and> ok \<and> fs' = chmod ?d mode (store ?d out ?fs1)"
    using assms l ne by (auto simp: copy_file_with_mode_def open_write_def Let_def lookup_update split: if_splits)
  moreover from this copy_loop_out [OF l] have "out = c" by blast
  ultimately show ?thesis using ne by (simp add: chmod_def store_def lookup_update)
qed

lemma wf_dir_above: "fs_wf fs \<Longrightarrow> lookup fs (p @ q) = Some k \<Longrightarrow> q \<noteq> [] \<Longrightarrow> lookup fs p = Some Dir_Node"
proof (induction q arbitrary: k rule: rev_induct)
  case (snoc x q)
  from fs_wfD [OF snoc.prems(1,2)] have "lookup fs (p @ q) = Some Dir_Node" by (simp add: butlast_append)
  with snoc show ?case by (cases "q = []") auto
qed simp

lemma sync_entries_False: "sync_entries env io src dst names False fs = (r, fs') \<Longrightarrow> \<not> r"
  by (induction names arbitrary: fs) (auto simp: sync_entries_Cons split: prod.splits)

text \<open>The file \<open>c\<close> with mode \<open>m\<close> is in its place, or something else was there before.\<close>

definition placed :: "file_system \<Rightarrow> file_system \<Rightarrow> name_path \<Rightarrow> string \<Rightarrow> u32 \<Rightarrow> bool" where
  "placed fs fs' p c m \<longleftrightarrow>
     lookup fs' p = Some (case lookup fs p of None \<Rightarrow> File_Node c (m AND 0x1FF) | Some k \<Rightarrow> k)"

lemma placed_later: "placed fs fs1 p c m \<Longrightarrow> keeps_files fs1 fs' \<Longrightarrow> placed fs fs' p c m"
  unfolding placed_def by (rule keeps_files_lookup)

lemma placed_there: "lookup fs p = Some k \<Longrightarrow> keeps_files fs fs' \<Longrightarrow> placed fs fs' p c m"
  unfolding placed_def by (simp add: keeps_files_lookup)

definition synced :: "string set \<Rightarrow> name_path \<Rightarrow> name_path \<Rightarrow> file_system \<Rightarrow> file_system \<Rightarrow> bool" where
  "synced names s d fs fs' \<longleftrightarrow>
     (\<forall>n rel c m. n \<in> names \<longrightarrow> ''config.json'' \<notin> set (n # rel) \<longrightarrow>
        lookup fs (s @ n # rel) = Some (File_Node c m) \<longrightarrow> placed fs fs' (d @ n # rel) c m)"

lemma synced_insert:
  assumes "synced N s d fs1 fs'" and "synced {n} s d fs fs1" and "keeps_files fs fs1" and "keeps_files fs1 fs'"
    and "\<And>n' rel. n' \<in> N \<Longrightarrow> lookup fs1 (d @ n' # rel) = lookup fs (d @ n' # rel)"
  shows "synced (insert n N) s d fs fs'"
  unfolding synced_def
proof (intro allI impI)
  fix n' rel c m
  assume "n' \<in> insert n N" and cfg: "''config.json'' \<notin> set (n' # rel)"
    and f: "lookup fs (s @ n' # rel) = Some (File_Node c m)"
  then consider "n' = n" | "n' \<in> N" by blast
  then show "placed fs fs' (d @ n' # rel) c m"
  proof cases
    case 1
    with assms(2) cfg f have "placed fs fs1 (d @ n' # rel) c m" by (simp add: synced_def)
    with assms(4) show ?thesis by (rule placed_later [rotated])
  next
    case 2
    with assms(1) cfg keeps_files_lookup [OF assms(3) f] have "placed fs1 fs' (d @ n' # rel) c m" by (simp add: synced_def)
    with assms(5) [OF 2] show ?thesis by (simp add: placed_def)
  qed
qed

lemma entry_step_synced:
  assumes e: "entry_step env io src dst n fs = (True, fs1)" and n: "name_ok n" and w: "fs_wf fs"
    and ih: "length (child src n) < 1024 \<Longrightarrow>
      \<forall>fs fs'. fs_wf fs \<longrightarrow> wp_sync_dir_tree env io (child src n) (child dst n) fs = (True, fs') \<longrightarrow>
        synced UNIV (resolve src @ [n]) (resolve dst @ [n]) fs fs'"
  shows "synced {n} (resolve src) (resolve dst) fs fs1"
  unfolding synced_def
proof (intro allI impI)
  fix n' rel c m
  assume "n' \<in> {n}" and cfg: "''config.json'' \<notin> set (n' # rel)" and f: "lookup fs (resolve src @ n' # rel) = Some (File_Node c m)"
  then have nn: "n' = n" "n \<noteq> ''config.json''" "n \<noteq> ''.''" "n \<noteq> ''..''" using n by (auto simp: name_ok_def)
  from e nn have len: "length (child src n) < 1024" "length (child dst n) < 1024"
    by (auto simp: entry_step_def split: if_splits)
  show "placed fs fs1 (resolve dst @ n' # rel) c m"
  proof (cases rel)
    case Nil
    have ext: "keeps_files fs fs1" if "stat_ok fs (resolve dst @ [n])"
      using that e nn len f Nil n by (simp add: entry_step_def resolve_child)
    show ?thesis
    proof (cases "lookup fs (resolve dst @ [n])")
      case None
      then have "copy_file_with_mode env io (child src n) (child dst n) (m AND 0x1FF) fs = (True, fs1)"
        using e nn len f Nil n by (simp add: entry_step_def resolve_child stat_ok_def)
      from copy_file_copies [OF this] f nn Nil None n show ?thesis by (simp add: placed_def resolve_child)
    next
      case (Some k)
      show ?thesis
      proof (cases "stat_ok fs (resolve dst @ [n])")
        case True
        with placed_there [OF Some ext] nn Nil show ?thesis by simp
      next
        case False
        then have "copy_file_with_mode env io (child src n) (child dst n) (m AND 0x1FF) fs = (True, fs1)"
          using e nn len f Nil n by (simp add: entry_step_def resolve_child)
        from keeps_files_copy [OF this] placed_there [OF Some] False nn Nil n show ?thesis by (simp add: resolve_child)
      qed
    qed
  next
    case (Cons n1 rel1)
    then have "lookup fs (resolve src @ [n]) = Some Dir_Node"
      using wf_dir_above [OF w, of "resolve src @ [n]" rel] f nn by simp
    then have "wp_sync_dir_tree env io (child src n) (child dst n) fs = (True, fs1)"
      using e nn len n by (simp add: entry_step_def resolve_child)
    with ih [OF len(1)] w have "synced UNIV (resolve src @ [n]) (resolve dst @ [n]) fs fs1" by blast
    with f cfg nn Cons show ?thesis by (auto simp: synced_def)
  qed
qed

lemma dir_names_complete:
  assumes "fs_wf fs" and "lookup fs (s @ n # rel) = Some k"
  shows "n \<in> set (dir_names fs s)"
proof -
  have "\<exists>j. lookup fs (s @ [n]) = Some j"
    using assms wf_dir_above [of fs "s @ [n]" rel] by (cases "rel = []") auto
  then have "\<exists>j. (s @ [n], j) \<in> set fs" by (auto simp: lookup_def dest: map_of_SomeD)
  then show ?thesis by (force simp: dir_names_def)
qed

lemma dir_names_distinct:
  assumes "fs_wf fs"
  shows "distinct (dir_names fs p)"
proof -
  have "name_ok n" if n: "n \<in> set (remdups [last q. (q, m) \<leftarrow> fs, q \<noteq> [] \<and> butlast q = p])" for n
  proof -
    obtain q m where q: "(q, m) \<in> set fs" "q \<noteq> []" "n = last q" using n by auto
    have "lookup fs q \<noteq> None" using weak_map_of_SomeI [OF q(1)] by (auto simp: lookup_def)
    with fs_wfD [OF assms] q show ?thesis by (fastforce simp: list_all_iff)
  qed
  then show ?thesis by (fastforce simp: dir_names_def name_ok_def)
qed

lemma sync_synced:
  "no_dotdot dst \<longrightarrow> (\<forall>fs fs'. fs_wf fs \<longrightarrow> wp_sync_dir_tree env io src dst fs = (True, fs') \<longrightarrow>
     synced UNIV (resolve src) (resolve dst) fs fs')"
  "no_dotdot dst \<longrightarrow> distinct names \<longrightarrow> (\<forall>n \<in> set names. n = ''.'' \<or> n = ''..'' \<or> name_ok n) \<longrightarrow>
     (\<forall>ok fs fs'. fs_wf fs \<longrightarrow> sync_entries env io src dst names ok fs = (True, fs') \<longrightarrow>
        synced (set names - {''.'', ''..''}) (resolve src) (resolve dst) fs fs')"
proof (induction src dst and src dst names rule: sync_induct)
  case (tree src dst)
  have "synced UNIV (resolve src) (resolve dst) fs fs'"
    if nd: "no_dotdot dst" and w: "fs_wf fs" and t: "wp_sync_dir_tree env io src dst fs = (True, fs')" for fs fs'
    using t
  proof (cases rule: sync_tree_cases)
    case (entries fs1)
    let ?names = "dir_names fs (resolve src)"
    have "synced (set ?names - {''.'', ''..''}) (resolve src) (resolve dst) fs1 fs'"
      using tree nd dir_names_ok [OF w] dir_names_distinct [OF w] fs_wf_mkdir_p [OF w entries(1)] entries(3) by blast
    moreover have "lookup fs1 (resolve dst @ n # rel) = lookup fs (resolve dst @ n # rel)" for n rel
      by (rule mkdir_p_changes [OF entries(1) nd]) (simp add: prefix_def)
    moreover have "n \<in> set ?names - {''.'', ''..''}" if "lookup fs (resolve src @ n # rel) = Some k" for n rel k
      using dir_names_complete [OF w that] fs_wfD [OF w that] by (auto simp: name_ok_def)
    moreover have "lookup fs1 q = Some k" if "lookup fs q = Some k" for q k
      using keeps_files_lookup [OF keeps_files_mkdir_p [OF entries(1)] that] .
    ultimately show ?thesis by (simp add: synced_def placed_def)
  qed simp_all
  then show ?case by blast
next
  case (Cons src dst n names)
  have step: "synced (set (n # names) - {''.'', ''..''}) (resolve src) (resolve dst) fs fs'"
    if nd: "no_dotdot dst" and d: "distinct (n # names)"
      and ok: "\<forall>n \<in> set (n # names). n = ''.'' \<or> n = ''..'' \<or> name_ok n" and w: "fs_wf fs"
      and s: "sync_entries env io src dst (n # names) b fs = (True, fs')" for b fs fs'
  proof -
    obtain r1 fs1 where e: "entry_step env io src dst n fs = (r1, fs1)" by (rule prod.exhaust)
    with s have s1: "sync_entries env io src dst names (b \<and> r1) fs1 = (True, fs')" by (simp add: sync_entries_Cons)
    with sync_entries_False [of env io src dst names fs1 True fs'] have r1: "r1" by (cases r1) auto
    show ?thesis
    proof (cases "name_ok n")
      case False
      with ok have "n = ''.'' \<or> n = ''..''" by auto
      moreover from this e have "fs1 = fs" using entry_step_skip by (metis prod.inject)
      moreover have "synced (set names - {''.'', ''..''}) (resolve src) (resolve dst) fs1 fs'"
        using Cons(2) nd d ok w s1 calculation(2) by auto
      ultimately show ?thesis by (auto simp: synced_def)
    next
      case True
      have keep: "keeps_tree (resolve dst @ [n]) fs fs1"
        by (rule entry_step_keeps [OF e True nd]) (use sync_keeps_tree(1) nd True no_dotdot_child in blast)
      have rest: "synced (set names - {''.'', ''..''}) (resolve src) (resolve dst) fs1 fs'"
        using Cons(2) nd d ok keep w s1 by (auto simp: keeps_tree_def)
      have this_one: "synced {n} (resolve src) (resolve dst) fs fs1"
        by (rule entry_step_synced [OF _ True w])
          (use e r1 Cons(1) nd True no_dotdot_child in \<open>auto simp: resolve_child\<close>)
      have ext: "keeps_files fs fs1" using keeps_files_sync(2) [of env io src dst "[n]"] e
        by (auto simp: sync_entries_Cons)
      have ext1: "keeps_files fs1 fs'" using keeps_files_sync(2) s1 by blast
      have same: "lookup fs1 (resolve dst @ n' # rel) = lookup fs (resolve dst @ n' # rel)"
        if "n' \<in> set names - {''.'', ''..''}" for n' rel
      proof -
        have "\<not> prefix (resolve dst @ n' # rel) (resolve dst @ [n])" "\<not> prefix (resolve dst @ [n]) (resolve dst @ n' # rel)"
          using that d by auto
        with keep w show ?thesis unfolding keeps_tree_def confined_def by blast
      qed
      have "synced (insert n (set names - {''.'', ''..''})) (resolve src) (resolve dst) fs fs'"
        by (rule synced_insert [OF rest this_one ext ext1 same])
      then show ?thesis by (auto simp: synced_def)
    qed
  qed
  show ?case by (intro impI allI) (rule step)
qed (simp add: synced_def)

lemma sync_copies_missing_files:
  assumes "fs_wf fs" and "no_dotdot dst" and "wp_sync_dir_tree env io src dst fs = (True, fs')"
    and "lookup fs (resolve src @ rel) = Some (File_Node content mode)" and "''config.json'' \<notin> set rel"
  shows "lookup fs' (resolve dst @ rel) =
     Some (case lookup fs (resolve dst @ rel) of None \<Rightarrow> File_Node content (mode AND 0x1FF) | Some k \<Rightarrow> k)"
proof (cases rel)
  case Nil
  with assms(3,4) show ?thesis by (cases rule: sync_tree_cases) simp_all
next
  case (Cons n r)
  with sync_synced(1) assms show ?thesis by (fastforce simp: synced_def placed_def)
qed

text \<open>
  C21. When copying a tree reports success, every regular file of the source, at any depth and except for
  files and directories called \<^verbatim>\<open>config.json\<close>, is in the target: the same bytes and the permission
  bits of the source if nothing was in its place, and otherwise what was there.
\<close>

theorem sync_copies_missing:
  assumes "fs_wf fs" and "no_dotdot dst" and "wp_sync_dir_tree env io src dst fs = (True, fs')"
    and "lookup fs (resolve src @ rel) = Some (File_Node content mode)" and "''config.json'' \<notin> set rel"
  shows "lookup fs' (resolve dst @ rel) =
     Some (case lookup fs (resolve dst @ rel) of None \<Rightarrow> File_Node content (mode AND 0x1FF) | Some k \<Rightarrow> k)"
  using assms by (rule sync_copies_missing_files)

section \<open>An interrupted copy\<close>

text \<open>
  A copy that breaks off leaves a file with the first bytes. The next run finds a file in its place, skips it
  and reports success.
\<close>

definition demo_tree :: file_system where
  "demo_tree = [([''d''], Dir_Node), ([''d'', ''x''], Dir_Node), ([''d'', ''x'', ''f''], File_Node ''abcdef'' 0x1ED), ([''t''], Dir_Node)]"

definition demo_fs_env :: fs_env where
  "demo_fs_env = \<lparr>fe_writable = (\<lambda>_. True), fe_readable = (\<lambda>_. True), fe_umask = 0x12\<rparr>"

lemmas demo_fs_defs = demo_tree_def demo_fs_env_def wp_sync_dir_tree.simps sync_entries.simps lookup_def resolve_def walk_def
  wp_mkdir_p_def mkdir_def dir_names_def copy_file_with_mode_def open_write_def store_def chmod_def stat_ok_def
  copy_loop.simps write_all.simps read_amount_def Let_def

text \<open>
  The bytes that an interrupted copy has written stay: when writing the file \<^verbatim>\<open>f\<close> of the example
  fails after three bytes, the copy reports the failure, the next one reports success, and the target still
  has the three bytes.
\<close>

theorem interrupted_copy_stays:
  "case wp_sync_dir_tree demo_fs_env (\<lambda>_. ([], [Some 3, None])) ''/d'' ''/t'' demo_tree of
     (ok1, fs1) \<Rightarrow>
       (case wp_sync_dir_tree demo_fs_env (\<lambda>_. ([], [])) ''/d'' ''/t'' fs1 of
          (ok2, fs2) \<Rightarrow> \<not> ok1 \<and> ok2 \<and> lookup fs2 [''t'', ''x'', ''f''] = Some (File_Node ''abc'' 0x1ED))"
  by (simp add: demo_fs_defs)

definition demo_synced :: "bool \<times> file_system" where
  "demo_synced = wp_sync_dir_tree demo_fs_env (\<lambda>_. ([Some 4], [Some 1])) ''/d'' ''/t'' demo_tree"

lemma demo_tree_wf: "fs_wf demo_tree"
  unfolding fs_wf_def by (auto simp: demo_tree_def lookup_def name_ok_def split: if_splits)

lemma sync_copies_missing_witness:
  "lookup (snd demo_synced) (resolve ''/t'' @ [''x'', ''f'']) =
     Some (case lookup demo_tree (resolve ''/t'' @ [''x'', ''f'']) of
             None \<Rightarrow> File_Node ''abcdef'' (0x1ED AND 0x1FF) | Some k \<Rightarrow> k)"
proof (rule sync_copies_missing [OF demo_tree_wf])
  have "fst demo_synced" unfolding demo_synced_def by (simp add: demo_fs_defs)
  then show "wp_sync_dir_tree demo_fs_env (\<lambda>_. ([Some 4], [Some 1])) ''/d'' ''/t'' demo_tree = (True, snd demo_synced)"
    by (simp add: demo_synced_def prod_eq_iff)
  show "no_dotdot ''/t''" by code_simp
  show "lookup demo_tree (resolve ''/d'' @ [''x'', ''f'']) = Some (File_Node ''abcdef'' 0x1ED)" by code_simp
qed simp

section \<open>Wallpaper Engine's distribution\<close>

text \<open>
  Before Wallpaper Engine starts, its \<^verbatim>\<open>distribution\<close> directory is copied into its own directory:
  when this reports success and the directory is there, every file of it that was missing is in place.
\<close>

theorem distribution_installed:
  assumes "wp_steam_root vars fv 768 err_len = Inr steam_root"
    and "install_dir = steam_root @ ''/steamapps/common/wallpaper_engine''" and "length install_dir < 900"
    and "is_dir fv (install_dir @ ''/distribution'')" and "fs_wf fs" and "no_dotdot install_dir"
    and "wp_we_sync_distribution vars fv env io err_len fs = (Inr (), fs')"
    and "lookup fs (resolve install_dir @ ''distribution'' # rel) = Some (File_Node content mode)"
    and "''config.json'' \<notin> set rel"
  shows "lookup fs' (resolve install_dir @ rel) =
     Some (case lookup fs (resolve install_dir @ rel) of None \<Rightarrow> File_Node content (mode AND 0x1FF) | Some k \<Rightarrow> k)"
proof -
  let ?dist = "install_dir @ ''/distribution''"
  have "resolve (child install_dir ''distribution'') = resolve install_dir @ [''distribution'']"
    by (rule resolve_child) (simp add: name_ok_def)
  then have r: "resolve ?dist = resolve install_dir @ [''distribution'']" by simp
  have "fmt_ok 900 install_dir = Some install_dir" "fmt_ok 950 ?dist = Some ?dist"
    using assms(2,3) by (simp_all add: fmt_ok_def snprintf_def)
  with assms have "wp_sync_dir_tree env io ?dist install_dir fs = (True, fs')"
    by (auto simp: wp_we_sync_distribution_def split: prod.splits bool.splits)
  from sync_copies_missing_files [OF assms(5,6) this] r assms(8,9) show ?thesis by simp
qed

definition demo_install :: file_system where
  "demo_install =
     [([''s''], Dir_Node), ([''s'', ''steamapps''], Dir_Node), ([''s'', ''steamapps'', ''common''], Dir_Node),
      ([''s'', ''steamapps'', ''common'', ''wallpaper_engine''], Dir_Node),
      ([''s'', ''steamapps'', ''common'', ''wallpaper_engine'', ''distribution''], Dir_Node),
      ([''s'', ''steamapps'', ''common'', ''wallpaper_engine'', ''distribution'', ''a.dll''], File_Node ''MZ'' 0x1A4)]"

lemma demo_install_wf: "fs_wf demo_install"
  unfolding fs_wf_def by (auto simp: demo_install_def Let_def lookup_def name_ok_def split: if_splits)

definition demo_installed :: "unit path_result \<times> file_system" where
  "demo_installed = wp_we_sync_distribution (\<lambda>_. Some ''/s'')
     \<lparr>fv_stat = (\<lambda>_. Some Directory), fv_entries = (\<lambda>_. None), fv_realpath = Some, fv_self_exe = None\<rparr>
     demo_fs_env (\<lambda>_. ([], [])) 256 demo_install"

lemma distribution_installed_witness:
  "lookup (snd demo_installed) (resolve ''/s/steamapps/common/wallpaper_engine'' @ [''a.dll'']) =
     Some (case lookup demo_install (resolve ''/s/steamapps/common/wallpaper_engine'' @ [''a.dll'']) of
             None \<Rightarrow> File_Node ''MZ'' (0x1A4 AND 0x1FF) | Some k \<Rightarrow> k)"
proof (rule distribution_installed [where steam_root = "''/s''" and fs = demo_install, OF _ _ _ _ demo_install_wf])
  have "fst demo_installed = Inr ()"
    unfolding demo_installed_def wp_we_sync_distribution_def
    by (simp add: demo_install_def demo_fs_defs wp_steam_root_def env_path_def fmt_ok_def snprintf_def formatted_def is_dir_def)
  then show "wp_we_sync_distribution (\<lambda>_. Some ''/s'')
     \<lparr>fv_stat = (\<lambda>_. Some Directory), fv_entries = (\<lambda>_. None), fv_realpath = Some, fv_self_exe = None\<rparr>
     demo_fs_env (\<lambda>_. ([], [])) 256 demo_install = (Inr (), snd demo_installed)"
    by (simp add: demo_installed_def prod_eq_iff)
  show "no_dotdot ''/s/steamapps/common/wallpaper_engine''" by code_simp
  show "lookup demo_install (resolve ''/s/steamapps/common/wallpaper_engine'' @ ''distribution'' # [''a.dll'']) =
     Some (File_Node ''MZ'' 0x1A4)" by (simp add: demo_install_def demo_fs_defs)
qed (simp_all add: wp_steam_root_def env_path_def fmt_ok_def snprintf_def formatted_def is_dir_def)

end
