(* ===== verification/WP_Renderer.thy ===== *)
theory WP_Renderer
  imports WP_Process WP_Fonts WP_Fsutil_Props
begin

text \<open>
  Starting Wallpaper Engine (\<^verbatim>\<open>programs/wallpiperd/renderer.c\<close>, \<^verbatim>\<open>dwmapi_shim.c\<close>, \<^verbatim>\<open>vk_layer.c\<close>, the rest of
  \<^verbatim>\<open>config.c\<close>, \<^verbatim>\<open>signals.c\<close>) and the thread in the started process that ends it with the daemon
  (\<^verbatim>\<open>loader/elf/guardian.c\<close>). The pid files are in the file system of the file helpers; \<^verbatim>\<open>/proc\<close>
  is the system of the process control. Reading a link or a special file yields nothing here. The
  daemon and the process it forks are two definitions: the request records what the fork hands on.
\<close>

section \<open>Paths (config.c)\<close>

definition wp_preload_path :: "file_view \<Rightarrow> nat \<Rightarrow> string option" where
  "wp_preload_path fv out_len =
     (case wp_install_dir fv 1024 of
        None \<Rightarrow> None | Some install_dir \<Rightarrow> fmt_ok out_len (install_dir @ ''/libwallpiper-preload.so''))"

definition wp_dwmapi_shim_path :: "file_view \<Rightarrow> nat \<Rightarrow> string option" where
  "wp_dwmapi_shim_path fv out_len =
     (case wp_install_dir fv 1024 of
        None \<Rightarrow> None | Some install_dir \<Rightarrow> fmt_ok out_len (install_dir @ ''/dwmapi.dll''))"

definition wp_wine_builtin_dwmapi_path :: "environ \<Rightarrow> file_view \<Rightarrow> nat \<Rightarrow> string option" where
  "wp_wine_builtin_dwmapi_path vars fv out_len =
     (case wp_proton_bin vars fv 1024 256 of
        Inl _ \<Rightarrow> None
      | Inr proton \<Rightarrow>
          (case before_last CHR ''/'' proton of
             None \<Rightarrow> None
           | Some dir \<Rightarrow>
               (case fmt_ok 1024 (dir @ ''/files/lib/wine/x86_64-windows/dwmapi.dll'') of
                  None \<Rightarrow> None
                | Some candidate \<Rightarrow> if \<not> is_regular_file fv candidate then None else fmt_ok out_len candidate)))"

section \<open>Reading and writing small files\<close>

text \<open>\<open>fopen\<close> for reading followed by reads, and for writing followed by \<open>fprintf\<close> and \<open>fclose\<close>.\<close>

definition read_file :: "fs_env \<Rightarrow> string \<Rightarrow> file_system \<Rightarrow> string option" where
  "read_file env path fs =
     (case lookup fs (resolve path) of
        Some (File_Node content mode) \<Rightarrow> if fe_readable env (resolve path) then Some content else None
      | _ \<Rightarrow> None)"

definition write_file :: "fs_env \<Rightarrow> string \<Rightarrow> string \<Rightarrow> file_system \<Rightarrow> file_system" where
  "write_file env path content fs =
     (case open_write env (resolve path) 0x1B6 fs of None \<Rightarrow> fs | Some fs1 \<Rightarrow> store (resolve path) content fs1)"

definition unlink :: "fs_env \<Rightarrow> string \<Rightarrow> file_system \<Rightarrow> file_system" where
  "unlink env path fs =
     (let p = resolve path
      in if lookup fs p = None \<or> lookup fs p = Some Dir_Node \<or> \<not> fe_writable env p then fs else AList.delete p fs)"

section \<open>The Vulkan layer manifest (vk_layer.c)\<close>

definition WP_VK_CAPTURE_LAYER_NAME :: string where
  "WP_VK_CAPTURE_LAYER_NAME = ''VK_LAYER_wallpiper_capture''"

definition quoted :: "string \<Rightarrow> string" where "quoted s = DQ # s @ [DQ]"

definition manifest_text :: "string \<Rightarrow> string" where
  "manifest_text install_dir = concat (map (\<lambda>l. l @ [LF])
     [''{'',
      ''    '' @ quoted ''file_format_version'' @ '' : '' @ quoted ''1.0.0'' @ '','',
      ''    '' @ quoted ''layer'' @ '' : {'',
      ''        '' @ quoted ''name'' @ '': '' @ quoted WP_VK_CAPTURE_LAYER_NAME @ '','',
      ''        '' @ quoted ''type'' @ '': '' @ quoted ''GLOBAL'' @ '','',
      ''        '' @ quoted ''library_path'' @ '': '' @ quoted (install_dir @ ''/libVkLayer_wallpiper_capture.so'') @ '','',
      ''        '' @ quoted ''api_version'' @ '': '' @ quoted ''1.1.0'' @ '','',
      ''        '' @ quoted ''implementation_version'' @ '': '' @ quoted ''1'' @ '','',
      ''        '' @ quoted ''description'' @ '': '' @ quoted ''Wallpiper frame capture layer'',
      ''    }'',
      ''}''])"

definition wp_write_vk_layer_manifest :: "environ \<Rightarrow> file_view \<Rightarrow> fs_env \<Rightarrow> file_system \<Rightarrow> file_system" where
  "wp_write_vk_layer_manifest vars fv env fs =
     (case wp_temp_dir vars 512 of
        None \<Rightarrow> fs
      | Some temp_dir \<Rightarrow>
          let fs1 = snd (wp_mkdir_p env temp_dir fs)
          in case wp_install_dir fv 1024 of
               None \<Rightarrow> fs1
             | Some install_dir \<Rightarrow>
                 (case fits 600 (temp_dir @ CHR ''/'' # WP_VK_CAPTURE_LAYER_NAME @ ''.json'') of
                    None \<Rightarrow> fs1
                  | Some path \<Rightarrow> write_file env path (manifest_text install_dir) fs1))"

section \<open>The dwmapi shim (dwmapi_shim.c)\<close>

definition remove_stale_prefix_override :: "environ \<Rightarrow> file_view \<Rightarrow> fs_env \<Rightarrow> file_system \<Rightarrow> file_system" where
  "remove_stale_prefix_override vars fv env fs =
     (case wp_compatdata_dir vars fv 768 256 of
        Inl _ \<Rightarrow> fs
      | Inr compatdata \<Rightarrow>
          let stale = fst (snprintf 1024 (compatdata @ ''/pfx/drive_c/windows/system32/dwmapi.dll''))
          in case lookup fs (resolve stale) of
               None \<Rightarrow> fs
             | Some (Link_Node b) \<Rightarrow> fs
             | Some _ \<Rightarrow> unlink env stale fs)"

definition copy_file :: "fs_env \<Rightarrow> copy_io \<Rightarrow> string \<Rightarrow> string \<Rightarrow> file_system \<Rightarrow> bool \<times> file_system" where
  "copy_file env io src dst fs =
     (let s = resolve src; d = resolve dst
      in if \<not> fe_readable env s \<or> lookup fs s = None then (False, fs)
         else case open_write env d 0x1ED fs of
                None \<Rightarrow> (False, fs)
              | Some fs1 \<Rightarrow>
                  (case lookup fs1 s of
                     Some (File_Node content m) \<Rightarrow>
                       (case copy_loop (fst (io s)) (snd (io s)) content of (out, ok) \<Rightarrow> (ok, store d out fs1))
                   | _ \<Rightarrow> (False, fs1)))"

definition install_shim :: "fs_env \<Rightarrow> copy_io \<Rightarrow> string \<Rightarrow> string \<Rightarrow> file_system \<Rightarrow> bool \<times> file_system" where
  "install_shim env io src dst fs =
     (let fs1 = snd (wp_mkdir_p_parent env dst fs);
          fs2 = (if lookup fs1 (resolve dst) \<noteq> None then unlink env dst fs1 else fs1)
      in copy_file env io src dst fs2)"

definition wp_dwmapi_shim_wire_up ::
  "file_view \<Rightarrow> fs_env \<Rightarrow> copy_io \<Rightarrow> environ \<times> file_system \<Rightarrow> environ \<times> file_system" where
  "wp_dwmapi_shim_wire_up fv env io s =
     (case s of (vars, fs) \<Rightarrow>
      let fs1 = remove_stale_prefix_override vars fv env fs
      in case wp_dwmapi_shim_path fv 1024 of
           None \<Rightarrow> (vars, fs1)
         | Some shim \<Rightarrow>
             if \<not> is_regular_file fv shim then (vars, fs1)
             else case wp_wine_builtin_dwmapi_path vars fv 1024 of
                    None \<Rightarrow> (vars, fs1)
                  | Some orig \<Rightarrow>
                      (case wp_we_exe vars fv 1024 256 of
                         Inl _ \<Rightarrow> (vars, fs1)
                       | Inr we_exe \<Rightarrow>
                           (case before_last CHR ''/'' we_exe of
                              None \<Rightarrow> (vars, fs1)
                            | Some dir \<Rightarrow>
                                (case install_shim env io shim (fst (snprintf 1200 (dir @ ''/dwmapi.dll''))) fs1 of
                                   (False, fs2) \<Rightarrow> (vars, fs2)
                                 | (True, fs2) \<Rightarrow>
                                     (case wp_to_windows_path orig 1030 of
                                        None \<Rightarrow> (vars, fs2)
                                      | Some orig_windows \<Rightarrow>
                                          (vars(''WINEDLLOVERRIDES'' \<mapsto> ''dwmapi=n,b'',
                                                ''WALLPIPER_DWMAPI_ORIG'' \<mapsto> orig_windows), fs2))))))"

section \<open>The pid files\<close>

definition line_pid :: "string \<Rightarrow> int option" where
  "line_pid line =
     (case strtol 10 (cstr line) of
        None \<Rightarrow> None | Some (pid, rest) \<Rightarrow> if 0 < pid then Some (to_i32 pid) else None)"

definition read_tracked_wrapper_pid :: "environ \<Rightarrow> fs_env \<Rightarrow> file_system \<Rightarrow> int option" where
  "read_tracked_wrapper_pid vars env fs =
     (case wp_wrapper_pid_path vars 1024 of
        None \<Rightarrow> None
      | Some path \<Rightarrow>
          (case read_file env path fs of
             None \<Rightarrow> None
           | Some content \<Rightarrow> if content = [] then None else line_pid (read_line_loop 63 content)))"

definition write_tracked_wrapper_pid :: "environ \<Rightarrow> fs_env \<Rightarrow> int \<Rightarrow> file_system \<Rightarrow> file_system" where
  "write_tracked_wrapper_pid vars env pid fs =
     (case wp_wrapper_pid_path vars 1024 of None \<Rightarrow> fs | Some path \<Rightarrow> write_file env path (show_int pid) fs)"

text \<open>The lines of the file, 63 bytes of each at a time, until there are 256 numbers.\<close>

function read_pid_lines :: "string \<Rightarrow> int list \<Rightarrow> int list" where
  "read_pid_lines input pids =
     (if input = [] \<or> MAX_PIDS \<le> length pids then pids
      else let line = read_line_loop 63 input
           in read_pid_lines (drop (length line) input)
                (case line_pid line of None \<Rightarrow> pids | Some pid \<Rightarrow> pids @ [pid]))"
  by pat_completeness auto
termination
  by (relation "measure (\<lambda>(input, pids). length input)") (auto simp: read_line_loop_ne)

declare read_pid_lines.simps [simp del]

definition read_tracked_renderer_pids :: "environ \<Rightarrow> fs_env \<Rightarrow> file_system \<Rightarrow> int list" where
  "read_tracked_renderer_pids vars env fs =
     (case wp_renderer_pid_path vars 1024 of
        None \<Rightarrow> []
      | Some path \<Rightarrow> (case read_file env path fs of None \<Rightarrow> [] | Some content \<Rightarrow> read_pid_lines content []))"

fun pid_lines :: "bool \<Rightarrow> int list \<Rightarrow> string" where
  "pid_lines first [] = []"
| "pid_lines first (pid # pids) = (if first then [] else [LF]) @ show_int pid @ pid_lines False pids"

definition write_tracked_renderer_pids :: "environ \<Rightarrow> fs_env \<Rightarrow> int list \<Rightarrow> file_system \<Rightarrow> file_system" where
  "write_tracked_renderer_pids vars env pids fs =
     (case wp_renderer_pid_path vars 1024 of None \<Rightarrow> fs | Some path \<Rightarrow> write_file env path (pid_lines True pids) fs)"

section \<open>Looking after the processes\<close>

definition renderer_pid_still_valid :: "world \<Rightarrow> int \<Rightarrow> proc_state \<Rightarrow> bool \<times> proc_state" where
  "renderer_pid_still_valid w pid st = (comm_is ''wallpaper64.exe'' (w (ps_clock st)) pid, tick st)"

definition wrapper_pid_still_valid :: "world \<Rightarrow> int \<Rightarrow> proc_state \<Rightarrow> bool \<times> proc_state" where
  "wrapper_pid_still_valid w pid st = (comm_is ''python3'' (w (ps_clock st)) pid, tick st)"

fun keep_valid :: "world \<Rightarrow> int list \<Rightarrow> proc_state \<Rightarrow> int list \<times> proc_state" where
  "keep_valid w [] st = ([], st)"
| "keep_valid w (pid # pids) st =
     (case renderer_pid_still_valid w pid st of
        (ok, st1) \<Rightarrow> (case keep_valid w pids st1 of (kept, st2) \<Rightarrow> (if ok then pid # kept else kept, st2)))"

fun discover_new_renderer_pid :: "world \<Rightarrow> nat \<Rightarrow> int list \<Rightarrow> proc_state \<Rightarrow> int option \<times> proc_state" where
  "discover_new_renderer_pid w 0 pre_spawn st = (None, st)"
| "discover_new_renderer_pid w (Suc attempts) pre_spawn st =
     (case wp_find_renderer_pids w st of
        (current, st1) \<Rightarrow>
          (case find (\<lambda>pid. pid \<notin> set pre_spawn) current of
             Some pid \<Rightarrow> (Some pid, st1)
           | None \<Rightarrow> discover_new_renderer_pid w attempts pre_spawn (tick st1)))"

section \<open>Starting the renderer: the daemon\<close>

record spawn_request =
  sr_compatdata :: string
  sr_proton :: string
  sr_we_exe :: string

record spawn_io =
  si_log_opened :: bool
  si_fork :: "int option"
  si_copy :: copy_io

record renderer_state =
  rs_proc :: proc_state
  rs_files :: file_system
  rs_spawned :: "spawn_request list"

definition ensure_compatdata_dir ::
  "environ \<Rightarrow> file_view \<Rightarrow> fs_env \<Rightarrow> nat \<Rightarrow> file_system \<Rightarrow> string option \<times> file_system" where
  "ensure_compatdata_dir vars fv env out_len fs =
     (case wp_compatdata_dir vars fv out_len 256 of
        Inl _ \<Rightarrow> (None, fs) | Inr dir \<Rightarrow> (Some dir, snd (wp_mkdir_p env dir fs)))"

text \<open>What is done up to the \<open>fork\<close>: the request, if all that is needed is found.\<close>

definition prepare_spawn ::
  "environ \<Rightarrow> file_view \<Rightarrow> fs_env \<Rightarrow> spawn_io \<Rightarrow> file_system \<Rightarrow> spawn_request option \<times> file_system" where
  "prepare_spawn vars fv env io fs =
     (if \<not> si_log_opened io then (None, fs)
      else case wp_proton_bin vars fv 1024 256 of
             Inl _ \<Rightarrow> (None, fs)
           | Inr proton \<Rightarrow>
               let fs1 = snd (wp_we_sync_distribution vars fv env (si_copy io) 256 fs);
                   fs2 = snd (wp_we_ensure_default_config vars fv env 256 fs1)
               in case wp_we_exe vars fv 1024 256 of
                    Inl _ \<Rightarrow> (None, fs2)
                  | Inr we_exe \<Rightarrow>
                      (case ensure_compatdata_dir vars fv env 768 fs2 of
                         (None, fs3) \<Rightarrow> (None, fs3)
                       | (Some compatdata, fs3) \<Rightarrow>
                           (Some \<lparr>sr_compatdata = compatdata, sr_proton = proton, sr_we_exe = we_exe\<rparr>, fs3)))"

text \<open>The renderers of earlier starts: ended unless a picker is open.\<close>

definition clean_pending :: "world \<Rightarrow> int list \<Rightarrow> proc_state \<Rightarrow> int list \<times> proc_state" where
  "clean_pending w pending st =
     (if pending = [] then ([], st)
      else case wp_find_picker_pids w st of
             (pickers, st1) \<Rightarrow>
               if pickers = [] then ([], wp_kill_pids_gracefully w pending st1) else (pending, st1))"

definition track_new :: "int option \<Rightarrow> int list \<Rightarrow> int list" where
  "track_new new_pid pending =
     (case new_pid of None \<Rightarrow> pending | Some pid \<Rightarrow> if length pending < MAX_PIDS then pending @ [pid] else pending)"

definition wp_renderer_spawn ::
  "environ \<Rightarrow> file_view \<Rightarrow> fs_env \<Rightarrow> world \<Rightarrow> spawn_io \<Rightarrow> renderer_state \<Rightarrow> renderer_state" where
  "wp_renderer_spawn vars fv env w io st =
     (let (old_wrapper, ps1) =
            (case read_tracked_wrapper_pid vars env (rs_files st) of
               None \<Rightarrow> (None, rs_proc st)
             | Some pid \<Rightarrow> (case wrapper_pid_still_valid w pid (rs_proc st) of
                             (valid, ps) \<Rightarrow> (if valid then Some pid else None, ps)));
          pending = read_tracked_renderer_pids vars env (rs_files st);
          (pre_spawn, ps2) = wp_find_renderer_pids w ps1
      in case prepare_spawn vars fv env io (rs_files st) of
           (None, fs1) \<Rightarrow> st\<lparr>rs_proc := ps2, rs_files := fs1\<rparr>
         | (Some request, fs1) \<Rightarrow>
             (case si_fork io of
                None \<Rightarrow> st\<lparr>rs_proc := ps2, rs_files := fs1\<rparr>
              | Some pid \<Rightarrow>
                  let fs2 = write_tracked_wrapper_pid vars env pid fs1;
                      ps3 = (case old_wrapper of None \<Rightarrow> ps2 | Some old \<Rightarrow> wp_kill_pids_gracefully w [old] ps2);
                      (valid, ps4) = keep_valid w pending ps3;
                      (kept, ps5) = clean_pending w valid ps4;
                      (new_pid, ps6) = discover_new_renderer_pid w 20 pre_spawn ps5
                  in \<lparr>rs_proc = ps6,
                      rs_files = write_tracked_renderer_pids vars env (track_new new_pid kept) fs2,
                      rs_spawned = rs_spawned st @ [request]\<rparr>))"

definition wp_renderer_swap ::
  "environ \<Rightarrow> file_view \<Rightarrow> fs_env \<Rightarrow> world \<Rightarrow> spawn_io \<Rightarrow> renderer_state \<Rightarrow> renderer_state" where
  "wp_renderer_swap vars fv env w io st =
     (case wp_find_renderer_pids w (rs_proc st) of
        (existing, ps) \<Rightarrow>
          (let st1 = st\<lparr>rs_proc := ps\<rparr>
           in if existing = [] then wp_renderer_spawn vars fv env w io st1 else st1))"

section \<open>Starting the renderer: the process that was forked\<close>

definition set_proton_env :: "file_view \<Rightarrow> string \<Rightarrow> environ \<Rightarrow> environ" where
  "set_proton_env fv compatdata vars =
     (case wp_steam_root vars fv 768 256 of
        Inl _ \<Rightarrow> vars | Inr steam_root \<Rightarrow> vars(''STEAM_COMPAT_CLIENT_INSTALL_PATH'' \<mapsto> steam_root))
      (''STEAM_COMPAT_DATA_PATH'' \<mapsto> compatdata,
       ''SteamAppId'' \<mapsto> WALLPAPER_ENGINE_APP_ID,
       ''SteamGameId'' \<mapsto> WALLPAPER_ENGINE_APP_ID)"

definition set_if :: "string \<Rightarrow> string option \<Rightarrow> environ \<Rightarrow> environ" where
  "set_if name value vars = (case value of None \<Rightarrow> vars | Some v \<Rightarrow> vars(name \<mapsto> v))"

definition windows_file :: "(environ \<Rightarrow> nat \<Rightarrow> string option) \<Rightarrow> environ \<Rightarrow> string option" where
  "windows_file path vars =
     (case path vars 1024 of None \<Rightarrow> None | Some unix_path \<Rightarrow> wp_to_windows_path unix_path 1030)"

text \<open>The variables after the fonts: \<open>daemon_pid\<close> is the parent.\<close>

definition set_link_env :: "int \<Rightarrow> environ \<Rightarrow> environ" where
  "set_link_env daemon_pid vars0 =
     (let vars1 = vars0(''WALLPIPER_GUARDIAN_PID'' \<mapsto> fst (snprintf 16 (show_int daemon_pid)));
          vars2 = (set_if ''VK_ADD_LAYER_PATH'' (wp_vk_layer_path vars1 512) vars1)
                    (''VK_INSTANCE_LAYERS'' \<mapsto> WP_VK_CAPTURE_LAYER_NAME);
          vars3 = set_if ''WALLPIPER_PORTAL_CTL_SOCKET''
                    (case wp_portal_name vars2 64 256 of
                       Inl _ \<Rightarrow> None | Inr name \<Rightarrow> wp_ctl_socket_path (Some name) 256) vars2;
          vars4 = set_if ''WALLPIPER_CURSOR_POS_FILE'' (wp_cursor_pos_path vars3 1024) vars3;
          vars5 = set_if ''WALLPIPER_TRAY_ICON_FILE'' (windows_file wp_tray_icon_path vars4) vars4;
          vars6 = set_if ''WALLPIPER_TRAY_CLICK_FILE'' (windows_file wp_tray_click_path vars5) vars5;
          vars7 = set_if ''WALLPIPER_MENU_FILE'' (windows_file wp_menu_file_path vars6) vars6
      in set_if ''WALLPIPER_MENU_COMMAND_FILE'' (windows_file wp_menu_command_path vars7) vars7)"

text \<open>The program that is executed, its arguments and environment; \<^term>\<open>None\<close> where the font writer overruns.\<close>

definition renderer_child ::
  "file_view \<Rightarrow> fs_env \<Rightarrow> copy_io \<Rightarrow> (string \<Rightarrow> bool \<times> string) \<Rightarrow> (string \<Rightarrow> bool) \<Rightarrow> int \<Rightarrow> spawn_request \<Rightarrow>
   environ \<Rightarrow> file_system \<times> font_files \<Rightarrow> (string list \<times> environ \<times> file_system \<times> font_files) option" where
  "renderer_child fv env io fc writable daemon_pid request vars s =
     (case s of (fs, fonts) \<Rightarrow>
      case wp_dwmapi_shim_wire_up fv env io (set_proton_env fv (sr_compatdata request) vars, fs) of
        (vars1, fs1) \<Rightarrow>
          let vars2 = set_if ''LD_PRELOAD'' (wp_preload_path fv 1024) vars1
          in case wp_fonts_env_value vars2 fv fc writable 16384 fonts of
               None \<Rightarrow> None
             | Some (redirects, fonts1) \<Rightarrow>
                 Some ([sr_proton request, sr_proton request, ''run'', sr_we_exe request],
                   set_link_env daemon_pid (set_if ''WALLPIPER_FONT_REDIRECTS'' redirects vars2), fs1, fonts1))"

section \<open>The guardian (loader/elf/guardian.c)\<close>

datatype guardian = Not_Guarded | Bad_Guardian | Guardian_Gone | No_Guardian_Thread | Guarded_By int

text \<open>
  \<open>open_pid\<close> answers \<open>pidfd_open\<close>. Where the guardian is gone already the process kills itself.
\<close>

definition wp_register_guardian :: "environ \<Rightarrow> (int \<Rightarrow> bool) \<Rightarrow> bool \<Rightarrow> guardian" where
  "wp_register_guardian vars open_pid thread_ok =
     (case vars ''WALLPIPER_GUARDIAN_PID'' of
        None \<Rightarrow> Not_Guarded
      | Some guardian_str \<Rightarrow>
          if guardian_str = [] then Not_Guarded
          else let guardian_pid = to_i32 (atol guardian_str)
               in if guardian_pid \<le> 0 then Bad_Guardian
                  else if \<not> open_pid guardian_pid then Guardian_Gone
                  else if \<not> thread_ok then No_Guardian_Thread
                  else Guarded_By guardian_pid)"

datatype poll_result = Poll_Ready | Poll_Interrupted | Poll_Failed

text \<open>Whether the thread kills its process after the calls of \<open>poll\<close> that have returned.\<close>

fun wp_guardian_watch :: "poll_result list \<Rightarrow> bool" where
  "wp_guardian_watch [] = False"
| "wp_guardian_watch (Poll_Interrupted # results) = wp_guardian_watch results"
| "wp_guardian_watch (_ # results) = True"

section \<open>Signals (signals.c)\<close>

text \<open>What a thread blocks and its process ignores; \<^term>\<open>None\<close> where the daemon ends at once.\<close>

record signal_state =
  sg_blocked :: "signal list"
  sg_ignored :: "signal list"

definition wp_ignore_sigpipe :: "signal_state \<Rightarrow> signal_state" where
  "wp_ignore_sigpipe s = s\<lparr>sg_ignored := sg_ignored s @ [SIGPIPE]\<rparr>"

definition wp_reap_children_forever :: "bool \<Rightarrow> signal_state \<Rightarrow> signal_state option" where
  "wp_reap_children_forever thread_ok s =
     (let s1 = s\<lparr>sg_blocked := sg_blocked s @ [SIGCHLD]\<rparr> in if thread_ok then Some s1 else None)"

definition wp_install_shutdown_handler :: "bool \<Rightarrow> signal_state \<Rightarrow> signal_state option" where
  "wp_install_shutdown_handler thread_ok s =
     (let s1 = s\<lparr>sg_blocked := sg_blocked s @ [SIGINT, SIGTERM]\<rparr> in if thread_ok then Some s1 else None)"

text \<open>One wake-up of the thread that reaps: what \<open>waitpid\<close> answers, up to the first answer that is no process.\<close>

fun sigchld_reap :: "int list \<Rightarrow> int list" where
  "sigchld_reap [] = []"
| "sigchld_reap (pid # answers) = (if pid \<le> 0 then [] else pid # sigchld_reap answers)"

definition daemon_signals :: "bool \<Rightarrow> bool \<Rightarrow> signal_state \<Rightarrow> signal_state option" where
  "daemon_signals reap_ok shutdown_ok s =
     Option.bind (wp_reap_children_forever reap_ok (wp_ignore_sigpipe s)) (wp_install_shutdown_handler shutdown_ok)"

text \<open>\<open>fork\<close> and \<open>execl\<close> keep both lists. A blocked signal is not delivered, except for the one that cannot be blocked.\<close>

definition delivered :: "signal_state \<Rightarrow> signal \<Rightarrow> bool" where
  "delivered s sig \<longleftrightarrow> sig = SIGKILL \<or> sig \<notin> set (sg_blocked s)"

end
