(* ===== verification/WP_Renderer_Props.thy ===== *)
theory WP_Renderer_Props
  imports WP_Renderer
begin

text \<open>
  Facts on the renderer process: the pid files are read as they were written, a start of the
  renderer keeps account of the earlier ones, the started process finds what belongs to the
  daemon, and the shim library is replaced by a copy.
\<close>

section \<open>Files\<close>

definition is_file :: "file_system \<Rightarrow> name_path \<Rightarrow> bool" where
  "is_file fs p \<longleftrightarrow> (\<exists>c m. lookup fs p = Some (File_Node c m))"

definition creatable :: "file_system \<Rightarrow> name_path \<Rightarrow> bool" where
  "creatable fs p \<longleftrightarrow> is_file fs p \<or> lookup fs p = None \<and> lookup fs (butlast p) = Some Dir_Node"

lemma lookup_store: "lookup (store p c fs) q = (if q = p \<and> is_file fs p then map_option (\<lambda>n. case n of File_Node _ m \<Rightarrow> File_Node c m | _ \<Rightarrow> n) (lookup fs p) else lookup fs q)"
  by (auto simp: store_def is_file_def lookup_update lookup_File_ne split: option.splits node.splits)

lemma lookup_open_write:
  assumes "open_write env p mode fs = Some fs1"
  shows "q \<noteq> p \<Longrightarrow> lookup fs1 q = lookup fs q"
    and "lookup fs p = None \<Longrightarrow> lookup fs1 p = Some (File_Node [] (mode AND NOT (fe_umask env)))"
    and "lookup fs p = Some (File_Node c m) \<Longrightarrow> lookup fs1 p = Some (File_Node [] m)"
  using assms by (auto simp: open_write_def lookup_update lookup_File_ne lookup_None_ne split: option.splits node.splits if_splits)

lemma open_write_writable: "open_write env p mode fs = Some fs1 \<Longrightarrow> fe_writable env p"
  by (simp add: open_write_def split: if_splits)

lemma open_write_ok: "fe_writable env p \<Longrightarrow> creatable fs p \<Longrightarrow> \<exists>fs1. open_write env p mode fs = Some fs1 \<and> is_file fs1 p"
  by (auto simp: creatable_def is_file_def open_write_def lookup_update lookup_File_ne lookup_None_ne)

lemma write_file_read:
  assumes "fe_writable env (resolve path)" and "fe_readable env (resolve path)" and "creatable fs (resolve path)"
  shows "read_file env path (write_file env path content fs) = Some content"
proof -
  obtain fs1 where o: "open_write env (resolve path) 0x1B6 fs = Some fs1" "is_file fs1 (resolve path)"
    using open_write_ok [OF assms(1,3)] by blast
  then show ?thesis using assms(2) by (auto simp: read_file_def write_file_def lookup_store is_file_def)
qed

lemma is_file_open: "open_write env p mode fs = Some fs1 \<Longrightarrow> is_file fs q \<Longrightarrow> is_file fs1 q"
  by (auto simp: open_write_def is_file_def lookup_update lookup_File_ne lookup_None_ne split: option.splits node.splits if_splits)

lemma is_file_store: "is_file fs q \<Longrightarrow> is_file (store p c fs) q"
  by (auto simp: is_file_def lookup_store)

lemma is_file_write_file: "is_file fs q \<Longrightarrow> is_file (write_file env path c fs) q"
  by (auto simp: write_file_def intro: is_file_store is_file_open split: option.splits)

lemma is_file_keeps: "keeps_files fs fs' \<Longrightarrow> is_file fs q \<Longrightarrow> is_file fs' q"
  by (auto simp: is_file_def dest: keeps_files_lookup)

section \<open>The pid files\<close>

definition pid_ok :: "int \<Rightarrow> bool" where "pid_ok pid \<longleftrightarrow> 0 < pid \<and> pid < 2 ^ 31"

lemma length_show_pid: "pid_ok pid \<Longrightarrow> length (show_int pid) \<le> 10"
  by (auto simp: pid_ok_def show_int_def intro!: length_show_nat)

lemma line_pid_show: "pid_ok pid \<Longrightarrow> line_pid (show_int pid @ tail) = Some pid" if "tail = [] \<or> tail = [LF]"
proof -
  assume p: "pid_ok pid"
  then have "strtol 10 (show_int pid @ tail) = Some (pid, tail)"
    using that by (intro strtol_show_int) (auto simp: pid_ok_def)
  moreover have "to_i32 pid = pid" using p by (simp add: pid_ok_def to_i32_def sint_sbintrunc' signed_take_bit_int_eq_self)
  moreover have "cstr (show_int pid @ tail) = show_int pid @ tail" using that by (intro cstr_id) auto
  ultimately show ?thesis using p by (simp add: line_pid_def pid_ok_def)
qed

lemma pid_lines_False: "pid_lines False (pid # pids) = LF # pid_lines True (pid # pids)"
  by simp

lemma read_line_show:
  assumes "pid_ok pid"
  shows "read_line_loop 63 (show_int pid) = show_int pid"
    and "read_line_loop 63 (show_int pid @ LF # rest) = show_int pid @ [LF]"
proof -
  have "read_line_loop room s = s" if "LF \<notin> set s" "length s \<le> room" for room s
    using that by (induction room s rule: read_line_loop.induct) auto
  then show "read_line_loop 63 (show_int pid) = show_int pid" using length_show_pid [OF assms] by simp
  show "read_line_loop 63 (show_int pid @ LF # rest) = show_int pid @ [LF]"
    using length_show_pid [OF assms] by (intro read_line_loop_line) simp_all
qed

lemma read_pid_lines_text:
  "list_all pid_ok pids \<Longrightarrow> length acc + length pids \<le> MAX_PIDS \<Longrightarrow>
   read_pid_lines (pid_lines True pids) acc = acc @ pids"
proof (induction pids arbitrary: acc)
  case Nil
  show ?case by (simp add: read_pid_lines.simps)
next
  case (Cons pid pids)
  have p: "pid_ok pid" using Cons.prems by simp
  show ?case
  proof (cases pids)
    case Nil
    with p Cons.prems show ?thesis
      by (subst read_pid_lines.simps) (simp add: read_line_show(1) line_pid_show [of "[]", simplified] read_pid_lines.simps [of "[]"])
  next
    case (Cons q qs)
    have t: "pid_lines True (pid # pids) = show_int pid @ LF # pid_lines True pids"
      using Cons pid_lines_False [of q qs] by simp
    have "read_pid_lines (pid_lines True (pid # pids)) acc = read_pid_lines (pid_lines True pids) (acc @ [pid])"
      unfolding t using Cons.prems p
      by (subst read_pid_lines.simps) (simp add: read_line_show(2) line_pid_show)
    with Cons.IH [of "acc @ [pid]"] Cons.prems show ?thesis by simp
  qed
qed

lemma length_read_pid_lines: "length pids \<le> MAX_PIDS \<Longrightarrow> length (read_pid_lines input pids) \<le> MAX_PIDS"
  by (induction input pids rule: read_pid_lines.induct)
    (subst read_pid_lines.simps, auto simp: Let_def split: option.splits)

lemma length_tracked: "length (read_tracked_renderer_pids vars env fs) \<le> MAX_PIDS"
  by (auto simp: read_tracked_renderer_pids_def length_read_pid_lines split: option.splits)

lemma tracked_pids_kept:
  assumes "wp_renderer_pid_path vars 1024 = Some path" and "fe_writable env (resolve path)"
    and "fe_readable env (resolve path)" and "creatable fs (resolve path)"
    and "list_all pid_ok pids" and "length pids \<le> MAX_PIDS"
  shows "read_tracked_renderer_pids vars env (write_tracked_renderer_pids vars env pids fs) = pids"
  using assms read_pid_lines_text [of pids "[]"]
  by (simp add: read_tracked_renderer_pids_def write_tracked_renderer_pids_def write_file_read)

text \<open>
  The list of renderers is read back from its file: whatever was there, if the file can be written
  and read, at most 256 process numbers come back in their order.
\<close>

theorem pid_file_roundtrip:
  assumes "wp_renderer_pid_path vars 1024 = Some path" and "fe_writable env (resolve path)"
    and "fe_readable env (resolve path)" and "creatable fs (resolve path)"
    and "list_all pid_ok pids" and "length pids \<le> MAX_PIDS"
  shows "read_tracked_renderer_pids vars env (write_tracked_renderer_pids vars env pids fs) = pids"
  using assms by (rule tracked_pids_kept)

section \<open>A start of the renderer\<close>

lemma find_renderer_keeps: "wp_find_renderer_pids w st = (pids, st') \<Longrightarrow> ps_sent st' = ps_sent st"
  by (auto simp: wp_find_renderer_pids_def dest: find_keeps)

lemma find_picker_keeps: "wp_find_picker_pids w st = (pids, st') \<Longrightarrow> ps_sent st' = ps_sent st"
  by (auto simp: wp_find_picker_pids_def dest: find_keeps)

lemma scan_matches:
  assumes "scan_entries_of w matches names pids st = (pids', st')"
  shows "set pids' \<subseteq> set pids \<union> {pid. \<exists>t. matches (w t) pid}"
  using assms
proof (induction names arbitrary: pids st)
  case (Cons name names)
  show ?case
  proof (cases "entry_pid name")
    case (Some pid)
    with Cons.prems Cons.IH show ?thesis by (fastforce split: if_splits)
  qed (use Cons in auto)
qed simp

lemma found_renderers: "wp_find_renderer_pids w st = (pids, st') \<Longrightarrow> set pids \<subseteq> {pid. \<exists>t. comm_is ''wallpaper64.exe'' (w t) pid}"
  using scan_matches [where matches = "comm_is ''wallpaper64.exe''"]
  by (fastforce simp: wp_find_renderer_pids_def scan_proc_pids_def split: option.splits)

lemma keep_valid_result:
  "keep_valid w pids st = (kept, st') \<Longrightarrow>
   ps_sent st' = ps_sent st \<and> set kept \<subseteq> {pid \<in> set pids. \<exists>t. comm_is ''wallpaper64.exe'' (w t) pid} \<and> length kept \<le> length pids \<and>
   (\<forall>pid \<in> set pids. (\<forall>t. comm_is ''wallpaper64.exe'' (w t) pid) \<longrightarrow> pid \<in> set kept)"
proof (induction pids arbitrary: st kept st')
  case (Cons pid pids)
  obtain k st1 where k: "keep_valid w pids (tick st) = (k, st1)" by (rule prod.exhaust)
  with Cons.prems have "kept = (if comm_is ''wallpaper64.exe'' (w (ps_clock st)) pid then pid # k else k)" "st' = st1"
    by (auto simp: renderer_pid_still_valid_def)
  with Cons.IH [OF k] show ?case by auto
qed simp

lemma discover_result:
  "discover_new_renderer_pid w attempts pre st = (new_pid, st') \<Longrightarrow>
   ps_sent st' = ps_sent st \<and> (\<forall>pid. new_pid = Some pid \<longrightarrow> pid \<notin> set pre \<and> (\<exists>t. comm_is ''wallpaper64.exe'' (w t) pid))"
proof (induction attempts arbitrary: st)
  case (Suc attempts)
  obtain current st1 where f: "wp_find_renderer_pids w st = (current, st1)" by (rule prod.exhaust)
  show ?case
  proof (cases "find (\<lambda>pid. pid \<notin> set pre) current")
    case None
    with Suc.prems f have "discover_new_renderer_pid w attempts pre (tick st1) = (new_pid, st')" by simp
    from Suc.IH [OF this] find_renderer_keeps [OF f] show ?thesis by simp
  next
    case (Some pid)
    with Suc.prems f have "new_pid = Some pid" "st' = st1" by simp_all
    moreover have "pid \<in> set current" "pid \<notin> set pre" using Some by (auto simp: find_Some_iff)
    ultimately show ?thesis using find_renderer_keeps [OF f] found_renderers [OF f] by auto
  qed
qed simp

lemma clean_pending_result:
  assumes "clean_pending w pending st = (kept, st')"
  shows "set kept \<subseteq> set pending" and "length kept \<le> length pending" and "prefix (ps_sent st) (ps_sent st')"
    and "\<forall>p \<in> set pending. p \<in> set kept \<or>
      (p, SIGTERM) \<in> set (ps_sent st') \<and> ((p, SIGKILL) \<in> set (ps_sent st') \<or> (\<exists>t. \<not> pv_exists (w t) p))"
proof -
  obtain pickers st1 where f: "wp_find_picker_pids w st = (pickers, st1)" by (rule prod.exhaust)
  note s = find_picker_keeps [OF f]
  from graceful_kill_result [of pending w st1] obtain ks where
    k: "ps_sent (wp_kill_pids_gracefully w pending st1) =
      ps_sent st1 @ map (\<lambda>p. (p, SIGTERM)) pending @ map (\<lambda>p. (p, SIGKILL)) ks"
      "\<forall>p \<in> set pending. p \<in> set ks \<or> seen_gone w (ps_clock st1) (ps_clock (wp_kill_pids_gracefully w pending st1)) p"
    by blast
  consider "kept = pending" "st' = st \<or> st' = st1" | "kept = []" "st' = wp_kill_pids_gracefully w pending st1"
    using assms f by (auto simp: clean_pending_def split: if_splits)
  note c = this
  show "set kept \<subseteq> set pending" "length kept \<le> length pending" using c by (cases; simp)+
  show "prefix (ps_sent st) (ps_sent st')" using c by cases (auto simp: s k(1))
  show "\<forall>p \<in> set pending. p \<in> set kept \<or>
      (p, SIGTERM) \<in> set (ps_sent st') \<and> ((p, SIGKILL) \<in> set (ps_sent st') \<or> (\<exists>t. \<not> pv_exists (w t) p))"
    using c by cases (use k in \<open>auto simp: seen_gone_def\<close>)
qed

lemma track_new_result:
  "set (track_new new_pid pending) \<subseteq> set pending \<union> set_option new_pid" "set pending \<subseteq> set (track_new new_pid pending)"
  "length pending \<le> MAX_PIDS \<Longrightarrow> length (track_new new_pid pending) \<le> MAX_PIDS"
  by (auto simp: track_new_def split: option.splits)

lemma is_file_config: "is_file fs q \<Longrightarrow> is_file (snd (wp_we_ensure_default_config vars fv env n fs)) q"
  by (auto simp: wp_we_ensure_default_config_def intro: is_file_store is_file_open split: option.splits sum.splits)

lemma keeps_files_distribution: "keeps_files fs (snd (wp_we_sync_distribution vars fv env io n fs))"
  using keeps_files_sync(1) by (fastforce simp: wp_we_sync_distribution_def split: option.splits sum.splits prod.splits bool.splits)

lemma keeps_files_compatdata: "keeps_files fs (snd (ensure_compatdata_dir vars fv env n fs))"
  by (auto simp: ensure_compatdata_dir_def intro: keeps_files_mkdir_p [OF prod.collapse [symmetric]] split: sum.splits)

lemma prepare_keeps_file: "prepare_spawn vars fv env io fs = (r, fs') \<Longrightarrow> is_file fs q \<Longrightarrow> is_file fs' q"
proof -
  let ?fs1 = "snd (wp_we_sync_distribution vars fv env (si_copy io) 256 fs)"
  let ?fs2 = "snd (wp_we_ensure_default_config vars fv env 256 ?fs1)"
  assume p: "prepare_spawn vars fv env io fs = (r, fs')" and f: "is_file fs q"
  have 2: "is_file ?fs2 q" using f keeps_files_distribution is_file_keeps is_file_config by blast
  then have 3: "is_file (snd (ensure_compatdata_dir vars fv env 768 ?fs2)) q"
    using keeps_files_compatdata is_file_keeps by blast
  have "fs' = fs \<or> fs' = ?fs2 \<or> fs' = snd (ensure_compatdata_dir vars fv env 768 ?fs2)"
    using p by (auto simp: prepare_spawn_def Let_def split: if_splits sum.splits prod.splits option.splits)
  with f 2 3 show "is_file fs' q" by blast
qed

lemma spawn_cases [consumes 1, case_names failed started]:
  assumes "wp_renderer_spawn vars fv env w io st = st'"
  obtains (failed) ps fs' where "st' = st\<lparr>rs_proc := ps, rs_files := fs'\<rparr>" "ps_sent ps = ps_sent (rs_proc st)"
  | (started) request fs1 pid pre ps3 valid ps4 kept ps5 new_pid ps6 where
      "prepare_spawn vars fv env io (rs_files st) = (Some request, fs1)"
      "prefix (ps_sent (rs_proc st)) (ps_sent ps3)"
      "keep_valid w (read_tracked_renderer_pids vars env (rs_files st)) ps3 = (valid, ps4)"
      "clean_pending w valid ps4 = (kept, ps5)"
      "discover_new_renderer_pid w 20 pre ps5 = (new_pid, ps6)"
      "st' = \<lparr>rs_proc = ps6,
         rs_files = write_tracked_renderer_pids vars env (track_new new_pid kept) (write_tracked_wrapper_pid vars env pid fs1),
         rs_spawned = rs_spawned st @ [request]\<rparr>"
proof -
  define look where "look = (case read_tracked_wrapper_pid vars env (rs_files st) of
      None \<Rightarrow> (None, rs_proc st)
    | Some pid \<Rightarrow> (case wrapper_pid_still_valid w pid (rs_proc st) of (valid, ps) \<Rightarrow> (if valid then Some pid else None, ps)))"
  obtain old ps1 where l: "look = (old, ps1)" by (rule prod.exhaust)
  have s1: "ps_sent ps1 = ps_sent (rs_proc st)"
    using l by (auto simp: look_def wrapper_pid_still_valid_def split: option.splits)
  obtain pre ps2 where f: "wp_find_renderer_pids w ps1 = (pre, ps2)" by (rule prod.exhaust)
  have s2: "ps_sent ps2 = ps_sent (rs_proc st)" using find_renderer_keeps [OF f] s1 by simp
  obtain r fs1 where p: "prepare_spawn vars fv env io (rs_files st) = (r, fs1)" by (rule prod.exhaust)
  define ps3 where "ps3 = (case old of None \<Rightarrow> ps2 | Some pid \<Rightarrow> wp_kill_pids_gracefully w [pid] ps2)"
  have s3: "prefix (ps_sent (rs_proc st)) (ps_sent ps3)"
    using graceful_kill_result [of "[pid]" w ps2 for pid] s2 by (force simp: ps3_def prefix_def split: option.splits)
  obtain valid ps4 where v: "keep_valid w (read_tracked_renderer_pids vars env (rs_files st)) ps3 = (valid, ps4)"
    by (rule prod.exhaust)
  obtain kept ps5 where c: "clean_pending w valid ps4 = (kept, ps5)" by (rule prod.exhaust)
  obtain new_pid ps6 where d: "discover_new_renderer_pid w 20 pre ps5 = (new_pid, ps6)" by (rule prod.exhaust)
  note e = assms [unfolded wp_renderer_spawn_def look_def [symmetric] l, simplified Let_def prod.case f p ps3_def [symmetric] v c d]
  show thesis
  proof (cases "r = None \<or> si_fork io = None")
    case True
    with e have "st' = st\<lparr>rs_proc := ps2, rs_files := fs1\<rparr>" by (auto split: option.splits)
    then show ?thesis using s2 by (rule failed)
  next
    case False
    then obtain request pid where "r = Some request" "si_fork io = Some pid" by auto
    with e p s3 v c d show ?thesis by (intro started [where pid = pid]) (simp_all add: eq_commute [of st'])
  qed
qed

text \<open>
  C23. No renderer is forgotten: when another one is started, a process called \<^verbatim>\<open>wallpaper64.exe\<close> that
  was tracked is tracked afterwards, or it was sent \<open>SIGTERM\<close> and, if it is still there, \<open>SIGKILL\<close>.
\<close>

theorem spawn_keeps_account:
  assumes "wp_renderer_spawn vars fv env w io st = st'" and "rs_spawned st' \<noteq> rs_spawned st"
    and "wp_renderer_pid_path vars 1024 = Some path" and "fe_writable env (resolve path)"
    and "\<forall>t pid. comm_is ''wallpaper64.exe'' (w t) pid \<longrightarrow> pid_ok pid"
    and "pid \<in> set (read_tracked_renderer_pids vars env (rs_files st))"
    and "\<forall>t. comm_is ''wallpaper64.exe'' (w t) pid \<and> pv_exists (w t) pid"
  shows "pid \<in> set (read_tracked_renderer_pids vars env (rs_files st')) \<or>
     (pid, SIGTERM) \<in> set (ps_sent (rs_proc st')) \<and> (pid, SIGKILL) \<in> set (ps_sent (rs_proc st'))"
  using assms(1)
proof (cases rule: spawn_cases)
  case (failed ps fs')
  with assms(2) show ?thesis by simp
next
  case (started request fs1 wrapper pre ps3 valid ps4 kept ps5 new_pid ps6)
  let ?fs2 = "write_tracked_wrapper_pid vars env wrapper fs1"
  note v = keep_valid_result [OF started(3)] and c = clean_pending_result [OF started(4)] and d = discover_result [OF started(5)]
  have tracked: "is_file (rs_files st) (resolve path)" "fe_readable env (resolve path)"
    using assms(3,6) by (auto simp: read_tracked_renderer_pids_def read_file_def is_file_def
        split: option.splits node.splits if_splits)
  then have "creatable ?fs2 (resolve path)"
    using prepare_keeps_file [OF started(1)]
    by (auto simp: creatable_def write_tracked_wrapper_pid_def is_file_write_file split: option.splits)
  moreover have "set (track_new new_pid kept) \<subseteq> Collect pid_ok"
  proof
    fix p assume "p \<in> set (track_new new_pid kept)"
    then have "p \<in> set kept \<or> new_pid = Some p" using track_new_result(1) [of new_pid kept] by (auto simp: elem_set)
    then have "\<exists>t. comm_is ''wallpaper64.exe'' (w t) p" using c(1) v d by blast
    then show "p \<in> Collect pid_ok" using assms(5) by blast
  qed
  then have "list_all pid_ok (track_new new_pid kept)" by (auto simp: list_all_iff)
  moreover have "length (track_new new_pid kept) \<le> MAX_PIDS"
    using v c(2) length_tracked [of vars env "rs_files st"] by (intro track_new_result(3)) linarith
  ultimately have "read_tracked_renderer_pids vars env (rs_files st') = track_new new_pid kept"
    using tracked_pids_kept [OF assms(3,4) tracked(2), of ?fs2] started(6) by simp
  moreover have "pid \<in> set valid" using v assms(6,7) by blast
  ultimately show ?thesis using c(4) d track_new_result(2) [of kept new_pid] assms(7) started(6) by fastforce
qed

text \<open>
  A start that fails ends nothing: as long as no process was started, no signal was sent, and with a
  renderer running the daemon does not start another.
\<close>

theorem failed_spawn_harmless:
  "(case wp_find_renderer_pids w (rs_proc st) of
      (existing, ps) \<Rightarrow> existing \<noteq> [] \<longrightarrow> wp_renderer_swap vars fv env w io st = st\<lparr>rs_proc := ps\<rparr>) \<and>
   (rs_spawned (wp_renderer_swap vars fv env w io st) = rs_spawned st \<longrightarrow>
      ps_sent (rs_proc (wp_renderer_swap vars fv env w io st)) = ps_sent (rs_proc st))"
proof -
  obtain existing ps where f: "wp_find_renderer_pids w (rs_proc st) = (existing, ps)" by (rule prod.exhaust)
  note s = find_renderer_keeps [OF f]
  let ?st = "st\<lparr>rs_proc := ps\<rparr>"
  have "ps_sent (rs_proc (wp_renderer_spawn vars fv env w io ?st)) = ps_sent ps"
    if r: "rs_spawned (wp_renderer_spawn vars fv env w io ?st) = rs_spawned st"
    using refl [of "wp_renderer_spawn vars fv env w io ?st"]
  proof (cases rule: spawn_cases)
    case (failed ps' fs')
    show ?thesis unfolding failed(1) using failed(2) by simp
  qed (use r in simp)
  then show ?thesis using f s by (simp add: wp_renderer_swap_def Let_def)
qed

section \<open>The shim library\<close>

lemma keeps_files_parent: "keeps_files fs (snd (wp_mkdir_p_parent env path fs))"
  by (auto simp: wp_mkdir_p_parent_def intro: keeps_files_mkdir_p [OF prod.collapse [symmetric]] split: option.splits)

lemma made_dirs:
  "mkdir_each env ds fs = (r, fs') \<Longrightarrow> lookup fs' q = Some (File_Node c m) \<Longrightarrow> lookup fs q = Some (File_Node c m)"
proof (induction ds arbitrary: fs)
  case (Cons d ds)
  obtain r1 fs1 where m: "mkdir env d fs = (r1, fs1)" by (rule prod.exhaust)
  with Cons have "lookup fs1 q = Some (File_Node c m)" by (cases r1) auto
  with m show ?case by (auto simp: mkdir_def Let_def lookup_update lookup_None_ne split: if_splits)
qed simp

lemma made_dirs_parent:
  "lookup (snd (wp_mkdir_p_parent env path fs)) q = Some (File_Node c m) \<Longrightarrow> lookup fs q = Some (File_Node c m)"
  by (auto simp: wp_mkdir_p_parent_def wp_mkdir_p_def split: option.splits if_splits
      intro: made_dirs [OF prod.collapse [symmetric]])

lemma lookup_unlink: "q \<noteq> resolve path \<Longrightarrow> lookup (unlink env path fs) q = lookup fs q"
  by (auto simp: unlink_def Let_def lookup_def delete_conv)

lemma unlink_result:
  "fe_writable env (resolve path) \<Longrightarrow> lookup (unlink env path fs) (resolve path) \<in> {None, Some Dir_Node}"
  by (auto simp: unlink_def Let_def lookup_def delete_conv)

lemma copy_file_result:
  assumes "copy_file env io src dst fs = (True, fs')" and "lookup fs (resolve dst) \<in> {None, Some Dir_Node}"
  shows "\<exists>c m. lookup fs (resolve src) = Some (File_Node c m) \<and>
      lookup fs' (resolve dst) = Some (File_Node c (0x1ED AND NOT (fe_umask env))) \<and> lookup fs (resolve dst) = None"
    and "q \<noteq> resolve dst \<Longrightarrow> lookup fs' q = lookup fs q"
proof -
  let ?s = "resolve src" and ?d = "resolve dst"
  obtain fs1 c m out where o: "lookup fs ?s \<noteq> None" "open_write env ?d 0x1ED fs = Some fs1" "lookup fs1 ?s = Some (File_Node c m)"
    "copy_loop (fst (io ?s)) (snd (io ?s)) c = (out, True)" "fs' = store ?d out fs1"
    using assms(1) by (auto simp: copy_file_def Let_def split: if_splits option.splits node.splits prod.splits)
  have d: "lookup fs ?d = None" using assms(2) o(2) by (auto simp: open_write_def split: if_splits)
  have sd: "?s \<noteq> ?d" using o(1) d by auto
  have new: "lookup fs1 ?d = Some (File_Node [] (0x1ED AND NOT (fe_umask env)))" by (rule lookup_open_write(2) [OF o(2) d])
  have c: "out = c" using copy_loop_out [OF o(4)] by simp
  show "\<exists>c m. lookup fs ?s = Some (File_Node c m) \<and>
      lookup fs' ?d = Some (File_Node c (0x1ED AND NOT (fe_umask env))) \<and> lookup fs ?d = None"
    using lookup_open_write(1) [OF o(2) sd] o(3,5) d new c
    by (intro exI [of _ c] exI [of _ m]) (auto simp: lookup_store is_file_def)
  show "lookup fs' q = lookup fs q" if "q \<noteq> ?d"
    using that lookup_open_write(1) [OF o(2) that] o(5) by (simp add: lookup_store)
qed

text \<open>
  When the shim is installed, the library beside the program is a file of its own with the bytes of
  the shim, whatever was there before (a file, or a link that would have been written through), and every
  other file is as it was.
\<close>

theorem shim_installed:
  assumes "install_shim env io src dst fs = (True, fs')"
  shows "\<exists>c. (\<exists>m. lookup fs (resolve src) = Some (File_Node c m)) \<and>
      lookup fs' (resolve dst) = Some (File_Node c (0x1ED AND NOT (fe_umask env))) \<and>
      lookup fs |` (- {resolve dst}) \<subseteq>\<^sub>m lookup fs'"
proof -
  let ?fs1 = "snd (wp_mkdir_p_parent env dst fs)"
  let ?fs2 = "if lookup ?fs1 (resolve dst) \<noteq> None then unlink env dst ?fs1 else ?fs1"
  have c: "copy_file env io src dst ?fs2 = (True, fs')" using assms by (simp add: install_shim_def Let_def)
  have k: "keeps_files fs ?fs1" by (rule keeps_files_parent)
  have w: "fe_writable env (resolve dst)"
    using c by (auto simp: copy_file_def Let_def split: if_splits option.splits dest: open_write_writable)
  have d: "lookup ?fs2 (resolve dst) \<in> {None, Some Dir_Node}" using unlink_result [OF w] by auto
  obtain c m where r: "lookup ?fs2 (resolve src) = Some (File_Node c m)"
    "lookup fs' (resolve dst) = Some (File_Node c (0x1ED AND NOT (fe_umask env)))" "lookup ?fs2 (resolve dst) = None"
    using copy_file_result(1) [OF c d] by blast
  have other: "lookup fs' q = lookup ?fs1 q" if "q \<noteq> resolve dst" for q
    using copy_file_result(2) [OF c d that] lookup_unlink [OF that] by simp
  have "resolve src \<noteq> resolve dst" using r(1,3) by auto
  then have "lookup ?fs1 (resolve src) = Some (File_Node c m)" using r(1) lookup_unlink by (simp split: if_splits)
  moreover have "lookup fs (resolve src) = Some (File_Node c m)"
    using made_dirs_parent [of env dst fs] calculation by blast
  moreover have "lookup fs |` (- {resolve dst}) \<subseteq>\<^sub>m lookup fs'"
    using k other by (auto simp: map_le_def restrict_map_def keeps_files_lookup split: if_splits)
  ultimately show ?thesis using r(2) by blast
qed

section \<open>The environment of the renderer\<close>

text \<open>The daemon's paths depend on the temporary directory and the name of the portal only.\<close>

lemma set_if_apply: "set_if n v vars x = (if x = n then (case v of None \<Rightarrow> vars x | Some s \<Rightarrow> Some s) else vars x)"
  by (simp add: set_if_def split: option.splits)

lemma env_of_temp_dir:
  assumes "vars ''WALLPIPER_TEMP_DIR'' = vars' ''WALLPIPER_TEMP_DIR''"
  shows "wp_temp_dir vars = wp_temp_dir vars'" "wp_vk_layer_path vars = wp_vk_layer_path vars'"
    "wp_cursor_pos_path vars = wp_cursor_pos_path vars'"
    "windows_file wp_tray_icon_path vars = windows_file wp_tray_icon_path vars'"
    "windows_file wp_tray_click_path vars = windows_file wp_tray_click_path vars'"
    "windows_file wp_menu_file_path vars = windows_file wp_menu_file_path vars'"
    "windows_file wp_menu_command_path vars = windows_file wp_menu_command_path vars'"
proof -
  show t: "wp_temp_dir vars = wp_temp_dir vars'" using assms by (simp add: fun_eq_iff wp_temp_dir_def env_path_def)
  show "wp_vk_layer_path vars = wp_vk_layer_path vars'" "wp_cursor_pos_path vars = wp_cursor_pos_path vars'"
    "windows_file wp_tray_icon_path vars = windows_file wp_tray_icon_path vars'"
    "windows_file wp_tray_click_path vars = windows_file wp_tray_click_path vars'"
    "windows_file wp_menu_file_path vars = windows_file wp_menu_file_path vars'"
    "windows_file wp_menu_command_path vars = windows_file wp_menu_command_path vars'"
    by (simp_all add: fun_eq_iff temp_path_defs windows_file_def wp_vk_layer_path_def t)
qed

lemma env_of_portal: "vars ''WALLPIPER_PORTAL'' = vars' ''WALLPIPER_PORTAL'' \<Longrightarrow> wp_portal_name vars = wp_portal_name vars'"
  by (simp add: fun_eq_iff wp_portal_name_def)

lemma wire_up_other:
  "wp_dwmapi_shim_wire_up fv env io (vars, fs) = (vars', fs') \<Longrightarrow> n \<notin> {''WINEDLLOVERRIDES'', ''WALLPIPER_DWMAPI_ORIG''} \<Longrightarrow>
   vars' n = vars n"
  by (auto simp: wp_dwmapi_shim_wire_up_def Let_def split: option.splits sum.splits prod.splits bool.splits if_splits)

lemma proton_env_other:
  "n \<notin> {''STEAM_COMPAT_CLIENT_INSTALL_PATH'', ''STEAM_COMPAT_DATA_PATH'', ''SteamAppId'', ''SteamGameId''} \<Longrightarrow>
   set_proton_env fv compatdata vars n = vars n"
  by (auto simp: set_proton_env_def split: sum.splits)

definition ctl_path_of :: "environ \<Rightarrow> string option" where
  "ctl_path_of vars = (case wp_portal_name vars 64 256 of Inl _ \<Rightarrow> None | Inr name \<Rightarrow> wp_ctl_socket_path (Some name) 256)"

lemma ctl_path_cong: "vars ''WALLPIPER_PORTAL'' = vars' ''WALLPIPER_PORTAL'' \<Longrightarrow> ctl_path_of vars = ctl_path_of vars'"
  by (drule env_of_portal [where vars = vars and vars' = vars']) (simp add: ctl_path_of_def)

lemma set_if_irrelevant:
  "n \<noteq> ''WALLPIPER_TEMP_DIR'' \<Longrightarrow> vars' = set_if n v vars \<or> vars' = vars(n := v) \<Longrightarrow>
     wp_vk_layer_path vars' = wp_vk_layer_path vars \<and> wp_cursor_pos_path vars' = wp_cursor_pos_path vars \<and>
     windows_file wp_tray_icon_path vars' = windows_file wp_tray_icon_path vars \<and>
     windows_file wp_tray_click_path vars' = windows_file wp_tray_click_path vars \<and>
     windows_file wp_menu_file_path vars' = windows_file wp_menu_file_path vars \<and>
     windows_file wp_menu_command_path vars' = windows_file wp_menu_command_path vars"
  "n \<noteq> ''WALLPIPER_PORTAL'' \<Longrightarrow> vars' = set_if n v vars \<or> vars' = vars(n := v) \<Longrightarrow> ctl_path_of vars' = ctl_path_of vars"
proof -
  assume a: "vars' = set_if n v vars \<or> vars' = vars(n := v)"
  then have e: "n \<noteq> x \<Longrightarrow> vars' x = vars x" for x by (auto simp: set_if_apply)
  show "n \<noteq> ''WALLPIPER_PORTAL'' \<Longrightarrow> ctl_path_of vars' = ctl_path_of vars"
    by (rule ctl_path_cong [where vars = vars' and vars' = vars]) (rule e)
  assume "n \<noteq> ''WALLPIPER_TEMP_DIR''"
  note env_of_temp_dir [where vars = vars' and vars' = vars, OF e [OF this]]
  then show "wp_vk_layer_path vars' = wp_vk_layer_path vars \<and> wp_cursor_pos_path vars' = wp_cursor_pos_path vars \<and>
     windows_file wp_tray_icon_path vars' = windows_file wp_tray_icon_path vars \<and>
     windows_file wp_tray_click_path vars' = windows_file wp_tray_click_path vars \<and>
     windows_file wp_menu_file_path vars' = windows_file wp_menu_file_path vars \<and>
     windows_file wp_menu_command_path vars' = windows_file wp_menu_command_path vars" by simp
qed

lemma set_link_env_eq:
  "set_link_env pid vars =
     set_if ''WALLPIPER_MENU_COMMAND_FILE'' (windows_file wp_menu_command_path vars)
      (set_if ''WALLPIPER_MENU_FILE'' (windows_file wp_menu_file_path vars)
       (set_if ''WALLPIPER_TRAY_CLICK_FILE'' (windows_file wp_tray_click_path vars)
        (set_if ''WALLPIPER_TRAY_ICON_FILE'' (windows_file wp_tray_icon_path vars)
         (set_if ''WALLPIPER_CURSOR_POS_FILE'' (wp_cursor_pos_path vars 1024)
          (set_if ''WALLPIPER_PORTAL_CTL_SOCKET'' (ctl_path_of vars)
           ((set_if ''VK_ADD_LAYER_PATH'' (wp_vk_layer_path vars 512)
             (vars(''WALLPIPER_GUARDIAN_PID'' \<mapsto> fst (snprintf 16 (show_int pid)))))
             (''VK_INSTANCE_LAYERS'' \<mapsto> WP_VK_CAPTURE_LAYER_NAME)))))))"
  by (simp add: set_link_env_def Let_def ctl_path_of_def [symmetric] set_if_irrelevant [OF _ disjI1 [OF refl]]
      set_if_irrelevant [OF _ disjI2 [OF refl]])

lemma set_link_env_apply:
  assumes "base ''WALLPIPER_TEMP_DIR'' = vars ''WALLPIPER_TEMP_DIR''" and "base ''WALLPIPER_PORTAL'' = vars ''WALLPIPER_PORTAL''"
    and "set_link_env pid base = vars'"
  shows "vars' ''WALLPIPER_GUARDIAN_PID'' = Some (fst (snprintf 16 (show_int pid)))"
    and "wp_vk_layer_path vars 512 = Some d \<Longrightarrow> vars' ''VK_ADD_LAYER_PATH'' = Some d"
    and "vars' ''VK_INSTANCE_LAYERS'' = Some WP_VK_CAPTURE_LAYER_NAME"
    and "ctl_path_of vars = Some p \<Longrightarrow> vars' ''WALLPIPER_PORTAL_CTL_SOCKET'' = Some p"
    and "wp_cursor_pos_path vars 1024 = Some p \<Longrightarrow> vars' ''WALLPIPER_CURSOR_POS_FILE'' = Some p"
    and "windows_file wp_tray_icon_path vars = Some p \<Longrightarrow> vars' ''WALLPIPER_TRAY_ICON_FILE'' = Some p"
    and "windows_file wp_tray_click_path vars = Some p \<Longrightarrow> vars' ''WALLPIPER_TRAY_CLICK_FILE'' = Some p"
    and "windows_file wp_menu_file_path vars = Some p \<Longrightarrow> vars' ''WALLPIPER_MENU_FILE'' = Some p"
    and "windows_file wp_menu_command_path vars = Some p \<Longrightarrow> vars' ''WALLPIPER_MENU_COMMAND_FILE'' = Some p"
proof -
  note e = set_link_env_eq [of pid base] env_of_temp_dir [where vars = base and vars' = vars, OF assms(1)]
    ctl_path_cong [where vars = base and vars' = vars, OF assms(2)] set_if_apply
  show "vars' ''WALLPIPER_GUARDIAN_PID'' = Some (fst (snprintf 16 (show_int pid)))"
    "vars' ''VK_INSTANCE_LAYERS'' = Some WP_VK_CAPTURE_LAYER_NAME" by (simp_all add: assms(3) [symmetric] e)
  show "wp_vk_layer_path vars 512 = Some d \<Longrightarrow> vars' ''VK_ADD_LAYER_PATH'' = Some d"
    "ctl_path_of vars = Some p \<Longrightarrow> vars' ''WALLPIPER_PORTAL_CTL_SOCKET'' = Some p"
    "wp_cursor_pos_path vars 1024 = Some p \<Longrightarrow> vars' ''WALLPIPER_CURSOR_POS_FILE'' = Some p"
    "windows_file wp_tray_icon_path vars = Some p \<Longrightarrow> vars' ''WALLPIPER_TRAY_ICON_FILE'' = Some p"
    "windows_file wp_tray_click_path vars = Some p \<Longrightarrow> vars' ''WALLPIPER_TRAY_CLICK_FILE'' = Some p"
    "windows_file wp_menu_file_path vars = Some p \<Longrightarrow> vars' ''WALLPIPER_MENU_FILE'' = Some p"
    "windows_file wp_menu_command_path vars = Some p \<Longrightarrow> vars' ''WALLPIPER_MENU_COMMAND_FILE'' = Some p"
    by (simp_all add: assms(3) [symmetric] e)
qed

lemma guardian_registered:
  assumes "pid_ok pid" and "vars ''WALLPIPER_GUARDIAN_PID'' = Some (fst (snprintf 16 (show_int pid)))" and "alive pid"
  shows "wp_register_guardian vars alive True = Guarded_By pid"
proof -
  have t: "fst (snprintf 16 (show_int pid)) = show_int pid"
    using length_show_pid [OF assms(1)] by (simp add: snprintf_def)
  have "strtol 10 (show_int pid @ []) = Some (pid, [])"
    using assms(1) by (intro strtol_show_int) (auto simp: pid_ok_def)
  then have "atol (show_int pid) = pid" by (simp add: atol_def)
  moreover have "to_i32 pid = pid"
    using assms(1) by (simp add: pid_ok_def to_i32_def sint_sbintrunc' signed_take_bit_int_eq_self)
  ultimately show ?thesis using assms t by (simp add: wp_register_guardian_def Let_def pid_ok_def)
qed

lemma windows_temp_file:
  assumes "wp_temp_dir vars 512 = Some d" and "CHR 0x5C \<notin> set d" and "CHR 0x5C \<notin> set n" and "length n \<le> 100"
    and "path vars 1024 = fmt_ok 1024 (d @ n)"
  shows "\<exists>w. windows_file path vars = Some w \<and> wp_from_windows_path w 1024 = path vars 1024"
proof -
  have l: "length (d @ n) < 1024" "d \<noteq> []" using temp_dir_text [OF assms(1)] assms(4) by auto
  then have p: "path vars 1024 = Some (d @ n)" using assms(5) by (simp add: fmt_ok_fits fits_eq)
  obtain w where w: "wp_to_windows_path (d @ n) 1030 = Some w" using l by (simp add: wp_to_windows_path_def)
  have "wp_from_windows_path w 1024 = Some (d @ n)" by (rule wp_from_to_windows [OF _ w l(1)]) (use assms(2,3) in auto)
  with w p show ?thesis by (simp add: windows_file_def)
qed

text \<open>
  C22. The renderer finds the daemon that started it: its guardian is the daemon, its layer path is the
  directory of the daemon's manifest, it asks the control socket of the daemon's portal for the
  cursor and writes the daemon's cursor file, and the four files of the tray that it is given as
  Windows paths are those the daemon reads and writes.
\<close>

theorem renderer_finds_daemon:
  assumes "renderer_child fv env io fc writable daemon_pid request vars s = Some (argv, vars', s')"
    and "pid_ok daemon_pid" and "alive daemon_pid"
    and "wp_temp_dir vars 512 = Some dir" and "CHR 0x5C \<notin> set dir"
    and "wp_portal_name vars 64 256 = Inr name" and "name \<noteq> []"
  shows "argv = [sr_proton request, sr_proton request, ''run'', sr_we_exe request] \<and>
    wp_register_guardian vars' alive True = Guarded_By daemon_pid \<and>
    vars' ''VK_ADD_LAYER_PATH'' = Some dir \<and> vars' ''VK_INSTANCE_LAYERS'' = Some WP_VK_CAPTURE_LAYER_NAME \<and>
    ctl_socket_path vars' 256 = wp_ctl_socket_path (Some name) 256 \<and>
    vars' ''WALLPIPER_CURSOR_POS_FILE'' = wp_cursor_pos_path vars 1024 \<and>
    (\<exists>w. vars' ''WALLPIPER_TRAY_ICON_FILE'' = Some w \<and> wp_from_windows_path w 1024 = wp_tray_icon_path vars 1024) \<and>
    (\<exists>w. vars' ''WALLPIPER_TRAY_CLICK_FILE'' = Some w \<and> wp_from_windows_path w 1024 = wp_tray_click_path vars 1024) \<and>
    (\<exists>w. vars' ''WALLPIPER_MENU_FILE'' = Some w \<and> wp_from_windows_path w 1024 = wp_menu_file_path vars 1024) \<and>
    (\<exists>w. vars' ''WALLPIPER_MENU_COMMAND_FILE'' = Some w \<and> wp_from_windows_path w 1024 = wp_menu_command_path vars 1024)"
proof -
  obtain fs fonts where s: "s = (fs, fonts)" by (rule prod.exhaust)
  obtain vars1 fs1 where w: "wp_dwmapi_shim_wire_up fv env io (set_proton_env fv (sr_compatdata request) vars, fs) = (vars1, fs1)"
    by (rule prod.exhaust)
  let ?vars2 = "set_if ''LD_PRELOAD'' (wp_preload_path fv 1024) vars1"
  obtain redirects fonts1 where f: "wp_fonts_env_value ?vars2 fv fc writable 16384 fonts = Some (redirects, fonts1)"
    using assms(1) w s by (auto simp: renderer_child_def Let_def split: option.splits)
  let ?vars3 = "set_if ''WALLPIPER_FONT_REDIRECTS'' redirects ?vars2"
  have r: "argv = [sr_proton request, sr_proton request, ''run'', sr_we_exe request]" "set_link_env daemon_pid ?vars3 = vars'"
    using assms(1) w f s by (auto simp: renderer_child_def Let_def)
  have e: "?vars3 ''WALLPIPER_TEMP_DIR'' = vars ''WALLPIPER_TEMP_DIR''" "?vars3 ''WALLPIPER_PORTAL'' = vars ''WALLPIPER_PORTAL''"
    by (simp_all add: set_if_apply wire_up_other [OF w] proton_env_other)
  note a = set_link_env_apply [where base = ?vars3 and vars = vars, OF e r(2)]
  have len: "length name < 64" using assms(6)
    by (auto simp: wp_portal_name_def formatted_def fmt_ok_fits split: option.splits dest!: fits_SomeD)
  then obtain p where p: "wp_ctl_socket_path (Some name) 256 = Some p"
    using assms(7) ctl_socket_path_eq [of name 256] by auto
  have ctl: "vars' ''WALLPIPER_PORTAL_CTL_SOCKET'' = Some p" by (rule a(4)) (simp add: ctl_path_of_def assms(6) p)
  have c: "ctl_socket_path vars' 256 = wp_ctl_socket_path (Some name) 256"
    using ctl p ctl_socket_path_eq [of name 256 p] by (auto simp: ctl_socket_path_def fits_eq)
  have cur: "vars' ''WALLPIPER_CURSOR_POS_FILE'' = wp_cursor_pos_path vars 1024"
    using a(5) temp_dir_text [OF assms(4)] by (simp add: wp_cursor_pos_path_def assms(4) fmt_ok_fits fits_eq)
  have vk: "vars' ''VK_ADD_LAYER_PATH'' = Some dir" by (rule a(2)) (simp add: wp_vk_layer_path_def assms(4))
  have tray: "\<exists>w. windows_file wp_tray_icon_path vars = Some w \<and> wp_from_windows_path w 1024 = wp_tray_icon_path vars 1024"
    "\<exists>w. windows_file wp_tray_click_path vars = Some w \<and> wp_from_windows_path w 1024 = wp_tray_click_path vars 1024"
    "\<exists>w. windows_file wp_menu_file_path vars = Some w \<and> wp_from_windows_path w 1024 = wp_menu_file_path vars 1024"
    "\<exists>w. windows_file wp_menu_command_path vars = Some w \<and> wp_from_windows_path w 1024 = wp_menu_command_path vars 1024"
    by (rule windows_temp_file [OF assms(4,5)]; simp add: temp_path_defs assms(4))+
  show ?thesis
    using r(1) guardian_registered [where vars = vars' and alive = alive, OF assms(2) a(1) assms(3)] vk a(3) c cur tray a(6-9) by blast
qed

section \<open>The layer manifest, the guardian and signals\<close>

lemma manifest_written:
  assumes "wp_temp_dir vars 512 = Some dir" and "wp_install_dir fv 1024 = Some install_dir"
    and "path = dir @ CHR ''/'' # WP_VK_CAPTURE_LAYER_NAME @ ''.json''"
    and "fe_writable env (resolve path)" and "fe_readable env (resolve path)"
    and "creatable (snd (wp_mkdir_p env dir fs)) (resolve path)"
  shows "read_file env path (wp_write_vk_layer_manifest vars fv env fs) = Some (manifest_text install_dir)"
proof -
  have "fits 600 path = Some path"
    using temp_dir_text [OF assms(1)] assms(3) by (simp add: fits_eq WP_VK_CAPTURE_LAYER_NAME_def)
  then show ?thesis using write_file_read [OF assms(4-6)] assms(1-3) by (simp add: wp_write_vk_layer_manifest_def)
qed

lemma guardian_kills_iff: "wp_guardian_watch results \<longleftrightarrow> (\<exists>r \<in> set results. r \<noteq> Poll_Interrupted)"
  by (induction results rule: wp_guardian_watch.induct) auto

text \<open>
  The processes the daemon starts inherit its blocked signals: the portal and the renderer are not
  delivered the \<open>SIGTERM\<close> of the graceful end, only \<open>SIGKILL\<close>.
\<close>

lemma children_block_sigterm:
  "daemon_signals reap_ok shutdown_ok s = Some s' \<Longrightarrow> \<not> delivered s' SIGTERM \<and> \<not> delivered s' SIGINT \<and> delivered s' SIGKILL"
  by (auto simp: daemon_signals_def wp_reap_children_forever_def wp_install_shutdown_handler_def delivered_def
      Let_def split: if_splits)

section \<open>Examples\<close>

definition demo_renderer_vars :: environ where
  "demo_renderer_vars = [''WALLPIPER_TEMP_DIR'' \<mapsto> ''/t'', ''WALLPIPER_PORTAL'' \<mapsto> ''sway'', ''WALLPIPER_STEAM_ROOT'' \<mapsto> ''/s'',
     ''WALLPIPER_PROTON_BIN'' \<mapsto> ''/p/proton'', ''WALLPIPER_WE_EXE'' \<mapsto> ''/w/wallpaper64.exe'']"

definition demo_view :: file_view where
  "demo_view = \<lparr>fv_stat = (\<lambda>_. Some Regular_file), fv_entries = (\<lambda>_. None), fv_realpath = (\<lambda>_. None), fv_self_exe = None\<rparr>"

definition demo_pid_file :: file_system where
  "demo_pid_file = [([''t''], Dir_Node), ([''t'', ''wallpiper-renderer-pid''], File_Node (pid_lines True [7]) 0x1A4)]"

lemmas demo_renderer_defs = demo_renderer_vars_def demo_view_def env_path_def fmt_ok_def snprintf_def formatted_def
  and_then_def wp_temp_dir_def wp_steam_root_def wp_proton_bin_def wp_we_exe_def wp_compatdata_dir_def WALLPAPER_ENGINE_APP_ID_def

lemma demo_pid_path: "wp_renderer_pid_path demo_renderer_vars 1024 = Some ''/t/wallpiper-renderer-pid''"
  by (simp add: wp_renderer_pid_path_def demo_renderer_defs)

lemma demo_pid_resolve: "resolve ''/t/wallpiper-renderer-pid'' = [''t'', ''wallpiper-renderer-pid'']"
  by code_simp

lemma pid_file_roundtrip_witness:
  "read_tracked_renderer_pids demo_renderer_vars demo_fs_env
     (write_tracked_renderer_pids demo_renderer_vars demo_fs_env [8, 1000] demo_pid_file) = [8, 1000]"
  by (rule pid_file_roundtrip [OF demo_pid_path])
    (simp_all add: demo_pid_resolve demo_fs_env_def creatable_def is_file_def demo_pid_file_def lookup_def pid_ok_def MAX_PIDS_def)

definition demo_one_renderer :: world where
  "demo_one_renderer t = \<lparr>pv_names = Some [''self'', ''7''], pv_exists = (\<lambda>pid. pid = 7),
     pv_comm = (\<lambda>pid. if pid = 7 then Some (''wallpaper64.exe'' @ [LF]) else None), pv_cmdline = (\<lambda>_. None)\<rparr>"

lemma demo_one_comm: "comm_is ''wallpaper64.exe'' (demo_one_renderer t) pid \<longleftrightarrow> pid = 7"
  by (simp add: comm_is_def demo_one_renderer_def read_comm_def rtrim_def cstr_def)

definition demo_spawn_io :: spawn_io where
  "demo_spawn_io = \<lparr>si_log_opened = True, si_fork = Some 9, si_copy = (\<lambda>_. ([], []))\<rparr>"

definition demo_renderer_state :: renderer_state where
  "demo_renderer_state = \<lparr>rs_proc = \<lparr>ps_clock = 0, ps_sent = []\<rparr>, rs_files = demo_pid_file, rs_spawned = []\<rparr>"

definition demo_request :: spawn_request where
  "demo_request = \<lparr>sr_compatdata = ''/s/steamapps/compatdata/431960'', sr_proton = ''/p/proton'', sr_we_exe = ''/w/wallpaper64.exe''\<rparr>"

lemma demo_prepare: "\<exists>fs'. prepare_spawn demo_renderer_vars demo_view demo_fs_env demo_spawn_io fs = (Some demo_request, fs')"
  by (simp add: prepare_spawn_def demo_spawn_io_def ensure_compatdata_dir_def demo_request_def demo_renderer_defs Let_def)

lemma demo_tracked: "read_tracked_renderer_pids demo_renderer_vars demo_fs_env demo_pid_file = [7]"
  using read_pid_lines_text [of "[7]" "[]"]
  by (simp add: read_tracked_renderer_pids_def demo_pid_path read_file_def demo_pid_resolve demo_pid_file_def lookup_def
      demo_fs_env_def pid_ok_def MAX_PIDS_def)

lemma spawn_keeps_account_witness:
  "\<exists>st'. wp_renderer_spawn demo_renderer_vars demo_view demo_fs_env demo_one_renderer demo_spawn_io demo_renderer_state = st' \<and>
     (7 \<in> set (read_tracked_renderer_pids demo_renderer_vars demo_fs_env (rs_files st')) \<or>
      (7, SIGTERM) \<in> set (ps_sent (rs_proc st')) \<and> (7, SIGKILL) \<in> set (ps_sent (rs_proc st')))"
proof -
  let ?st = "wp_renderer_spawn demo_renderer_vars demo_view demo_fs_env demo_one_renderer demo_spawn_io demo_renderer_state"
  obtain fs' where "prepare_spawn demo_renderer_vars demo_view demo_fs_env demo_spawn_io (rs_files demo_renderer_state) = (Some demo_request, fs')"
    using demo_prepare by blast
  then have "rs_spawned ?st = [demo_request]"
    by (simp add: wp_renderer_spawn_def Let_def demo_spawn_io_def demo_renderer_state_def split: prod.splits)
  then have "rs_spawned ?st \<noteq> rs_spawned demo_renderer_state" by (simp add: demo_renderer_state_def)
  from spawn_keeps_account [OF refl this demo_pid_path, where pid = 7] show ?thesis
    by (simp add: demo_one_comm demo_fs_env_def pid_ok_def demo_tracked [unfolded demo_fs_env_def] demo_renderer_state_def)
      (simp add: demo_one_renderer_def)
qed

lemma demo_one_found:
  "wp_find_renderer_pids demo_one_renderer \<lparr>ps_clock = 0, ps_sent = []\<rparr> = ([7], \<lparr>ps_clock = 2, ps_sent = []\<rparr>)"
proof -
  have "entry_pid ''7'' = Some 7" "entry_pid ''self'' = None" by code_simp+
  moreover have "pv_names (demo_one_renderer 0) = Some [''self'', ''7'']" by (simp add: demo_one_renderer_def)
  ultimately show ?thesis
    by (simp add: wp_find_renderer_pids_def scan_proc_pids_def demo_one_comm MAX_PIDS_def tick_def)
qed

lemma failed_spawn_harmless_witness:
  "wp_renderer_swap demo_renderer_vars demo_view demo_fs_env demo_one_renderer demo_spawn_io demo_renderer_state =
     demo_renderer_state\<lparr>rs_proc := \<lparr>ps_clock = 2, ps_sent = []\<rparr>\<rparr> \<and>
   ps_sent (rs_proc (wp_renderer_swap demo_renderer_vars demo_view demo_fs_env demo_one_renderer demo_spawn_io demo_renderer_state)) = []"
  using failed_spawn_harmless [where w = demo_one_renderer and st = demo_renderer_state and vars = demo_renderer_vars
    and fv = demo_view and env = demo_fs_env and io = demo_spawn_io]
  by (simp add: demo_one_found demo_renderer_state_def)

definition demo_shim_files :: file_system where
  "demo_shim_files = [([''i''], Dir_Node), ([''i'', ''dwmapi.dll''], File_Node ''MZ'' 0x1A4),
     ([''w''], Dir_Node), ([''w'', ''dwmapi.dll''], Link_Node True)]"

lemma shim_installed_witness:
  "\<exists>fs'. install_shim demo_fs_env (\<lambda>_. ([], [Some 1])) ''/i/dwmapi.dll'' ''/w/dwmapi.dll'' demo_shim_files = (True, fs') \<and>
     (\<exists>c. (\<exists>m. lookup demo_shim_files (resolve ''/i/dwmapi.dll'') = Some (File_Node c m)) \<and>
      lookup fs' (resolve ''/w/dwmapi.dll'') = Some (File_Node c (0x1ED AND NOT (fe_umask demo_fs_env))) \<and>
      lookup demo_shim_files |` (- {resolve ''/w/dwmapi.dll''}) \<subseteq>\<^sub>m lookup fs')"
proof -
  let ?r = "install_shim demo_fs_env (\<lambda>_. ([], [Some 1])) ''/i/dwmapi.dll'' ''/w/dwmapi.dll'' demo_shim_files"
  have "fst ?r"
    by (simp add: install_shim_def wp_mkdir_p_parent_def before_last_def copy_file_def unlink_def demo_shim_files_def demo_fs_defs)
  then have "?r = (True, snd ?r)" by (simp add: prod_eq_iff)
  from this shim_installed [OF this] show ?thesis by blast
qed

lemma renderer_finds_daemon_witness:
  "\<exists>argv vars' s'. renderer_child demo_view demo_fs_env (\<lambda>_. ([], [])) (\<lambda>_. (False, [])) (\<lambda>_. False) 42 demo_request
       demo_renderer_vars (demo_pid_file, Map.empty) = Some (argv, vars', s') \<and>
     wp_register_guardian vars' (\<lambda>pid. pid = 42) True = Guarded_By 42 \<and>
     ctl_socket_path vars' 256 = Some ''/tmp/wallpiper-portal-sway-ctl.sock''"
proof -
  have t: "detect_targets (\<lambda>_. (False, [])) =
      \<lparr>ft_sans_regular = None, ft_sans_bold = None, ft_serif_regular = None, ft_mono_regular = None, ft_mono_bold = None\<rparr>"
    by (simp add: detect_targets_def fc_match_def)
  have f: "\<exists>r. wp_fonts_env_value vars fv (\<lambda>_. (False, [])) (\<lambda>_. False) 16384 files = Some (r, files)" for vars fv files
    by (simp add: wp_fonts_env_value_def REDIRECTS_def redirect_def add_redirect_def t targets_get_def split: option.splits)
  obtain argv vars' s' where c: "renderer_child demo_view demo_fs_env (\<lambda>_. ([], [])) (\<lambda>_. (False, [])) (\<lambda>_. False) 42 demo_request
       demo_renderer_vars (demo_pid_file, Map.empty) = Some (argv, vars', s')"
  proof -
    obtain vars1 fs1 where w: "wp_dwmapi_shim_wire_up demo_view demo_fs_env (\<lambda>_. ([], []))
        (set_proton_env demo_view (sr_compatdata demo_request) demo_renderer_vars, demo_pid_file) = (vars1, fs1)" by (rule prod.exhaust)
    obtain r where "wp_fonts_env_value (set_if ''LD_PRELOAD'' (wp_preload_path demo_view 1024) vars1) demo_view
        (\<lambda>_. (False, [])) (\<lambda>_. False) 16384 Map.empty = Some (r, Map.empty)" using f by blast
    with w show thesis by (intro that) (simp add: renderer_child_def Let_def)
  qed
  have "wp_temp_dir demo_renderer_vars 512 = Some ''/t''" "wp_portal_name demo_renderer_vars 64 256 = Inr ''sway''"
    by (simp_all add: demo_renderer_defs wp_portal_name_def)
  from renderer_finds_daemon [where alive = "\<lambda>pid. pid = 42", OF c _ _ this(1) _ this(2)]
  have "wp_register_guardian vars' (\<lambda>pid. pid = 42) True = Guarded_By 42"
    "ctl_socket_path vars' 256 = wp_ctl_socket_path (Some ''sway'') 256"
    by (simp_all add: pid_ok_def)
  with c show ?thesis by (simp add: wp_ctl_socket_path_def fmt_ok_def snprintf_def)
qed

end
