(* ===== verification/WP_Waitobj.thy ===== *)
theory WP_Waitobj
  imports WP_Prelude
begin

text \<open>
  Registered waits in the Windows process (\<^verbatim>\<open>loader/coff/waitobj.c\<close>). Every registered wait has a thread that
  owns its object and frees it at its end. The threads and the callers of the hooks interleave:
  an event is one turn of a thread between two waits, the return of a callback or a call of a hook. The
  heap maps the address of an object to the object; an access to a freed object is counted.
\<close>

unbundle bit_operations_syntax

section \<open>State\<close>

definition INFINITE :: u32 where "INFINITE = 0xFFFFFFFF"
definition WT_EXECUTEONLYONCE :: u32 where "WT_EXECUTEONLYONCE = 8"

record wait_object =
  wo_target :: nat
  wo_callback :: nat
  wo_context :: nat
  wo_timeout_ms :: u32
  wo_flags :: u32
  wo_cancelled :: bool

text \<open>A thread at the head of its loop, in a wait of some milliseconds, or in the callback.\<close>

datatype wait_pc = Loop_Head | Waiting u32 | In_Callback bool

record wait_thread =
  wt_elapsed :: u32
  wt_pc :: wait_pc

record wait_call =
  wc_handle :: nat
  wc_callback :: nat
  wc_context :: nat
  wc_timed_out :: bool

record wait_state =
  ws_heap :: "nat \<Rightarrow> wait_object option"
  ws_threads :: "nat \<Rightarrow> wait_thread option"
  ws_calls :: "wait_call list"
  ws_faults :: nat

definition wait_init :: wait_state where
  "wait_init = \<lparr>ws_heap = Map.empty, ws_threads = Map.empty, ws_calls = [], ws_faults = 0\<rparr>"

section \<open>The thread\<close>

definition wait_slice :: "wait_object \<Rightarrow> u32 \<Rightarrow> u32" where
  "wait_slice w elapsed =
     (if wo_timeout_ms w \<noteq> INFINITE
      then let left = (if elapsed < wo_timeout_ms w then wo_timeout_ms w - elapsed else 0)
           in if left < 200 then left else 200
      else 200)"

definition touch :: "nat \<Rightarrow> wait_state \<Rightarrow> wait_state" where
  "touch h st = (if ws_heap st h = None then st\<lparr>ws_faults := ws_faults st + 1\<rparr> else st)"

text \<open>The thread leaves its loop: the object is freed.\<close>

definition end_thread :: "nat \<Rightarrow> wait_state \<Rightarrow> wait_state" where
  "end_thread h st = (touch h st)\<lparr>ws_heap := (ws_heap st)(h := None), ws_threads := (ws_threads st)(h := None)\<rparr>"

definition go_to :: "nat \<Rightarrow> u32 \<Rightarrow> wait_pc \<Rightarrow> wait_state \<Rightarrow> wait_state" where
  "go_to h elapsed pc st = st\<lparr>ws_threads := (ws_threads st)(h \<mapsto> \<lparr>wt_elapsed = elapsed, wt_pc = pc\<rparr>)\<rparr>"

definition call_back :: "nat \<Rightarrow> wait_object \<Rightarrow> bool \<Rightarrow> wait_state \<Rightarrow> wait_state" where
  "call_back h w timed_out st =
     st\<lparr>ws_calls := ws_calls st @ [\<lparr>wc_handle = h, wc_callback = wo_callback w, wc_context = wo_context w, wc_timed_out = timed_out\<rparr>]\<rparr>"

definition loop_head :: "nat \<Rightarrow> wait_thread \<Rightarrow> wait_state \<Rightarrow> wait_state" where
  "loop_head h t st =
     (case ws_heap st h of
        None \<Rightarrow> touch h st
      | Some w \<Rightarrow>
          if wo_cancelled w then end_thread h st
          else go_to h (wt_elapsed t) (Waiting (wait_slice w (wt_elapsed t))) st)"

definition after_wait :: "nat \<Rightarrow> wait_thread \<Rightarrow> u32 \<Rightarrow> bool \<Rightarrow> wait_state \<Rightarrow> wait_state" where
  "after_wait h t waited signaled st =
     (case ws_heap st h of
        None \<Rightarrow> touch h st
      | Some w \<Rightarrow>
          let elapsed = wt_elapsed t + waited
          in if signaled then go_to h elapsed (In_Callback False) (call_back h w False st)
             else if wo_timeout_ms w \<noteq> INFINITE \<and> wo_timeout_ms w \<le> elapsed
             then go_to h elapsed (In_Callback True) (call_back h w True st)
             else go_to h elapsed Loop_Head st)"

definition after_callback :: "nat \<Rightarrow> bool \<Rightarrow> wait_state \<Rightarrow> wait_state" where
  "after_callback h timed_out st =
     (if \<not> timed_out then end_thread h st
      else case ws_heap st h of
             None \<Rightarrow> touch h st
           | Some w \<Rightarrow> if wo_flags w AND WT_EXECUTEONLYONCE \<noteq> 0 then end_thread h st else go_to h 0 Loop_Head st)"

section \<open>The hooks\<close>

text \<open>\<open>out_given\<close>: the caller passes a place for the handle; \<open>alloc\<close>: what \<open>malloc\<close> returns. The result is the handle.\<close>

definition fake_RegisterWaitForSingleObject ::
  "bool \<Rightarrow> nat \<Rightarrow> nat option \<Rightarrow> nat \<Rightarrow> u32 \<Rightarrow> u32 \<Rightarrow> nat option \<Rightarrow> bool \<Rightarrow> wait_state \<Rightarrow> nat option \<times> wait_state" where
  "fake_RegisterWaitForSingleObject out_given object callback context milliseconds flags alloc thread_ok st =
     (case callback of
        None \<Rightarrow> (None, st)
      | Some cb \<Rightarrow>
          if \<not> out_given then (None, st)
          else case alloc of
                 None \<Rightarrow> (None, st)
               | Some h \<Rightarrow>
                   let w = \<lparr>wo_target = object, wo_callback = cb, wo_context = context, wo_timeout_ms = milliseconds,
                            wo_flags = flags, wo_cancelled = False\<rparr>
                   in if \<not> thread_ok then (None, st\<lparr>ws_heap := (ws_heap st)(h := None)\<rparr>)
                      else (Some h, st\<lparr>ws_heap := (ws_heap st)(h \<mapsto> w),
                                      ws_threads := (ws_threads st)(h \<mapsto> \<lparr>wt_elapsed = 0, wt_pc = Loop_Head\<rparr>)\<rparr>))"

text \<open>
  A handle that is on no live object is counted as an access to freed memory: the handles a caller has are
  those it was given. What the allocator puts at the address afterwards is not modelled.
\<close>

definition fake_UnregisterWait :: "nat option \<Rightarrow> wait_state \<Rightarrow> bool \<times> wait_state" where
  "fake_UnregisterWait handle st =
     (case handle of
        None \<Rightarrow> (False, st)
      | Some h \<Rightarrow>
          (True, case ws_heap st h of
                   None \<Rightarrow> touch h st
                 | Some w \<Rightarrow> st\<lparr>ws_heap := (ws_heap st)(h \<mapsto> w\<lparr>wo_cancelled := True\<rparr>)\<rparr>))"

text \<open>The event to signal is not looked at.\<close>

definition fake_UnregisterWaitEx :: "nat option \<Rightarrow> nat \<Rightarrow> wait_state \<Rightarrow> bool \<times> wait_state" where
  "fake_UnregisterWaitEx handle completion_event st = fake_UnregisterWait handle st"

section \<open>Events\<close>

datatype wait_event =
    Register bool nat "nat option" nat u32 u32 "nat option" bool
  | Unregister "nat option"
  | Unregister_Ex "nat option" nat
  | Turn nat
  | Wait_Over nat bool
  | Callback_Returns nat

text \<open>\<^term>\<open>None\<close> where the event cannot happen; \<open>malloc\<close> returns an address that is free.\<close>

fun wait_exec :: "wait_event \<Rightarrow> wait_state \<Rightarrow> wait_state option" where
  "wait_exec (Register out object callback context ms flags alloc thread_ok) st =
     (if (case alloc of None \<Rightarrow> False | Some h \<Rightarrow> ws_heap st h \<noteq> None) then None
      else Some (snd (fake_RegisterWaitForSingleObject out object callback context ms flags alloc thread_ok st)))"
| "wait_exec (Unregister handle) st = Some (snd (fake_UnregisterWait handle st))"
| "wait_exec (Unregister_Ex handle event) st = Some (snd (fake_UnregisterWaitEx handle event st))"
| "wait_exec (Turn h) st =
     (case ws_threads st h of
        Some t \<Rightarrow> if wt_pc t = Loop_Head then Some (loop_head h t st) else None | None \<Rightarrow> None)"
| "wait_exec (Wait_Over h signaled) st =
     (case ws_threads st h of
        Some t \<Rightarrow> (case wt_pc t of Waiting waited \<Rightarrow> Some (after_wait h t waited signaled st) | _ \<Rightarrow> None) | None \<Rightarrow> None)"
| "wait_exec (Callback_Returns h) st =
     (case ws_threads st h of
        Some t \<Rightarrow> (case wt_pc t of In_Callback timed_out \<Rightarrow> Some (after_callback h timed_out st) | _ \<Rightarrow> None) | None \<Rightarrow> None)"

fun wait_run :: "wait_event list \<Rightarrow> wait_state \<Rightarrow> wait_state option" where
  "wait_run [] st = Some st"
| "wait_run (ev # evs) st = (case wait_exec ev st of None \<Rightarrow> None | Some st' \<Rightarrow> wait_run evs st')"

inductive wait_reachable :: "wait_state \<Rightarrow> bool" where
  init: "wait_reachable wait_init"
| step: "wait_reachable st \<Longrightarrow> wait_exec ev st = Some st' \<Longrightarrow> wait_reachable st'"

section \<open>Ownership\<close>

text \<open>Every object is owned by exactly one thread; the time that has passed never exceeds a finite timeout.\<close>

definition timing_ok :: "wait_object \<Rightarrow> wait_thread \<Rightarrow> bool" where
  "timing_ok w t \<longleftrightarrow>
     (wo_timeout_ms w \<noteq> INFINITE \<longrightarrow> wt_elapsed t \<le> wo_timeout_ms w) \<and>
     (case wt_pc t of
        Loop_Head \<Rightarrow> True
      | Waiting waited \<Rightarrow> waited = wait_slice w (wt_elapsed t)
      | In_Callback timed_out \<Rightarrow> timed_out \<longrightarrow> wo_timeout_ms w \<noteq> INFINITE \<and> wt_elapsed t = wo_timeout_ms w)"

definition wait_inv :: "wait_state \<Rightarrow> bool" where
  "wait_inv st \<longleftrightarrow> (\<forall>h. case (ws_heap st h, ws_threads st h) of
       (None, None) \<Rightarrow> True | (Some w, Some t) \<Rightarrow> timing_ok w t | _ \<Rightarrow> False)"

lemma wait_invD:
  assumes "wait_inv st"
  shows "ws_threads st h = Some t \<Longrightarrow> \<exists>w. ws_heap st h = Some w \<and> timing_ok w t"
    and "ws_heap st h = Some w \<Longrightarrow> \<exists>t. ws_threads st h = Some t \<and> timing_ok w t"
    and "ws_heap st h = None \<longleftrightarrow> ws_threads st h = None"
  using assms [unfolded wait_inv_def, rule_format, of h] by (auto split: option.splits)

text \<open>Changes at one address keep the invariant elsewhere.\<close>

lemma wait_inv_update:
  assumes "wait_inv st" and "\<And>k. k \<noteq> h \<Longrightarrow> ws_heap st' k = ws_heap st k \<and> ws_threads st' k = ws_threads st k"
    and "case (ws_heap st' h, ws_threads st' h) of (None, None) \<Rightarrow> True | (Some w, Some t) \<Rightarrow> timing_ok w t | _ \<Rightarrow> False"
  shows "wait_inv st'"
  unfolding wait_inv_def
proof
  fix k
  show "case (ws_heap st' k, ws_threads st' k) of (None, None) \<Rightarrow> True | (Some w, Some t) \<Rightarrow> timing_ok w t | _ \<Rightarrow> False"
    using assms(1) [unfolded wait_inv_def, rule_format, of k] assms(2) [of k] assms(3) by (cases "k = h") auto
qed

lemma le_sub_add: "e + s \<le> t" if "s \<le> t - e" and "e \<le> t" for s t e :: u32
  using that by uint_arith

lemma wait_slice_fits:
  "wo_timeout_ms w \<noteq> INFINITE \<Longrightarrow> elapsed \<le> wo_timeout_ms w \<Longrightarrow> elapsed + wait_slice w elapsed \<le> wo_timeout_ms w"
  by (rule le_sub_add) (auto simp: wait_slice_def Let_def not_less)

lemmas thread_defs = loop_head_def after_wait_def after_callback_def end_thread_def go_to_def call_back_def touch_def

lemma after_wait_timing:
  assumes "timing_ok w t" and "wt_pc t = Waiting waited"
  shows "wo_timeout_ms w \<noteq> INFINITE \<Longrightarrow> wt_elapsed t + waited \<le> wo_timeout_ms w"
  using assms wait_slice_fits by (auto simp: timing_ok_def)

lemma exec_keeps_inv:
  assumes "wait_inv st" and "wait_exec ev st = Some st'"
  shows "wait_inv st'"
proof (cases ev)
  case (Register out object callback ctx ms flags alloc thread_ok)
  show ?thesis
  proof (cases alloc)
    case None
    with Register assms show ?thesis by (auto simp: fake_RegisterWaitForSingleObject_def split: option.splits)
  next
    case (Some h)
    with Register assms(2) have free: "ws_heap st h = None" by (auto split: if_splits)
    show ?thesis
      by (rule wait_inv_update [OF assms(1), of h])
        (use Register Some assms free wait_invD(3) [OF assms(1), of h] in
          \<open>auto simp: fake_RegisterWaitForSingleObject_def timing_ok_def Let_def split: option.splits if_splits\<close>)
  qed
next
  case (Unregister handle)
  show ?thesis
  proof (cases handle)
    case (Some h)
    show ?thesis
      by (rule wait_inv_update [OF assms(1), of h])
        (use Unregister Some assms wait_invD [OF assms(1), of h] in
          \<open>auto simp: fake_UnregisterWait_def touch_def timing_ok_def wait_slice_def split: option.splits wait_pc.splits\<close>)
  qed (use Unregister assms in \<open>auto simp: fake_UnregisterWait_def\<close>)
next
  case (Unregister_Ex handle event)
  show ?thesis
  proof (cases handle)
    case (Some h)
    show ?thesis
      by (rule wait_inv_update [OF assms(1), of h])
        (use Unregister_Ex Some assms wait_invD [OF assms(1), of h] in
          \<open>auto simp: fake_UnregisterWaitEx_def fake_UnregisterWait_def touch_def timing_ok_def wait_slice_def split: option.splits wait_pc.splits\<close>)
  qed (use Unregister_Ex assms in \<open>auto simp: fake_UnregisterWaitEx_def fake_UnregisterWait_def\<close>)
next
  case (Turn h)
  show ?thesis
    by (rule wait_inv_update [OF assms(1), of h])
      (use Turn assms(2) wait_invD(1) [OF assms(1), of h] in
        \<open>auto simp: thread_defs timing_ok_def split: option.splits if_splits\<close>)
next
  case (Wait_Over h signaled)
  then obtain t waited where t: "ws_threads st h = Some t" "wt_pc t = Waiting waited" "st' = after_wait h t waited signaled st"
    using assms(2) by (auto split: option.splits wait_pc.splits)
  obtain w where w: "ws_heap st h = Some w" "timing_ok w t" using wait_invD(1) [OF assms(1) t(1)] by blast
  show ?thesis
    by (rule wait_inv_update [OF assms(1), of h])
      (use t(3) w after_wait_timing [OF w(2) t(2)] in \<open>auto simp: thread_defs timing_ok_def Let_def split: if_splits\<close>)
next
  case (Callback_Returns h)
  show ?thesis
    by (rule wait_inv_update [OF assms(1), of h])
      (use Callback_Returns assms(2) wait_invD(1) [OF assms(1), of h] in
        \<open>auto simp: thread_defs timing_ok_def split: option.splits wait_pc.splits if_splits\<close>)
qed

lemma reachable_inv: "wait_reachable st \<Longrightarrow> wait_inv st"
  by (induction rule: wait_reachable.induct) (simp add: wait_init_def wait_inv_def, rule exec_keeps_inv)

text \<open>
  C25. In every reachable state the objects and the threads of waits correspond one to one, so none is
  leaked or used by a thread after it was freed; a callback reports a timeout after exactly the
  registered time, and the count of elapsed milliseconds does not wrap around before.
\<close>

theorem wait_objects_owned:
  assumes "wait_reachable st"
  shows "dom (ws_heap st) = dom (ws_threads st) \<and>
    (\<forall>h w t. ws_heap st h = Some w \<and> ws_threads st h = Some t \<longrightarrow>
       (wo_timeout_ms w \<noteq> INFINITE \<longrightarrow> wt_elapsed t \<le> wo_timeout_ms w) \<and>
       (wt_pc t = In_Callback True \<longrightarrow> wo_timeout_ms w \<noteq> INFINITE \<and> wt_elapsed t = wo_timeout_ms w))"
proof -
  note inv = reachable_inv [OF assms]
  have "dom (ws_heap st) = dom (ws_threads st)" using wait_invD(3) [OF inv] by (simp add: dom_def)
  moreover have "timing_ok w t" if "ws_heap st h = Some w" "ws_threads st h = Some t" for h w t
    using wait_invD(1) [OF inv that(2)] that(1) by simp
  ultimately show ?thesis by (fastforce simp: timing_ok_def)
qed

section \<open>How often the callback is called\<close>

definition calls_of :: "nat \<Rightarrow> wait_state \<Rightarrow> nat" where
  "calls_of h st = length (filter (\<lambda>c. wc_handle c = h) (ws_calls st))"

definition registers :: "nat \<Rightarrow> wait_event \<Rightarrow> bool" where
  "registers h ev = (case ev of Register _ _ _ _ _ _ alloc _ \<Rightarrow> alloc = Some h | _ \<Rightarrow> False)"

definition pc_of :: "nat \<Rightarrow> wait_state \<Rightarrow> wait_pc option" where
  "pc_of h st = map_option wt_pc (ws_threads st h)"

text \<open>
  A property of one wait, kept as long as its address is not given to another, that allows for a bounded
  number of further calls.
\<close>

locale call_budget =
  fixes h :: nat and holds :: "wait_state \<Rightarrow> bool" and room :: "wait_state \<Rightarrow> nat"
  assumes spends: "wait_inv st \<Longrightarrow> holds st \<Longrightarrow> \<not> registers h ev \<Longrightarrow> wait_exec ev st = Some st' \<Longrightarrow>
    holds st' \<and> calls_of h st' + room st' \<le> calls_of h st + room st"
begin

lemma run_spends:
  "wait_inv st \<Longrightarrow> holds st \<Longrightarrow> list_all (\<lambda>ev. \<not> registers h ev) evs \<Longrightarrow> wait_run evs st = Some st' \<Longrightarrow>
   holds st' \<and> calls_of h st' + room st' \<le> calls_of h st + room st"
proof (induction evs arbitrary: st)
  case (Cons ev evs)
  obtain st1 where s: "wait_exec ev st = Some st1" "wait_run evs st1 = Some st'"
    using Cons.prems(4) by (auto split: option.splits)
  have "\<not> registers h ev" using Cons.prems(3) by simp
  from spends [OF Cons.prems(1,2) this s(1)] Cons.IH [OF exec_keeps_inv [OF Cons.prems(1) s(1)] _ _ s(2)] Cons.prems(3)
  show ?case by auto
qed simp

end

text \<open>The object is cancelled or freed: a wait that was entered before may still end in a call.\<close>

definition cancelled :: "nat \<Rightarrow> wait_state \<Rightarrow> bool" where
  "cancelled h st = (case ws_heap st h of None \<Rightarrow> True | Some w \<Rightarrow> wo_cancelled w)"

definition cancel_room :: "nat \<Rightarrow> wait_state \<Rightarrow> nat" where
  "cancel_room h st = (case pc_of h st of Some (Waiting _) \<Rightarrow> 1 | _ \<Rightarrow> 0)"

definition only_once :: "nat \<Rightarrow> wait_state \<Rightarrow> bool" where
  "only_once h st = (case ws_heap st h of None \<Rightarrow> True | Some w \<Rightarrow> wo_flags w AND WT_EXECUTEONLYONCE \<noteq> 0)"

definition once_room :: "nat \<Rightarrow> wait_state \<Rightarrow> nat" where
  "once_room h st = (case pc_of h st of None \<Rightarrow> 0 | Some (In_Callback _) \<Rightarrow> 0 | _ \<Rightarrow> 1)"

lemmas budget_defs = cancelled_def cancel_room_def only_once_def once_room_def pc_of_def calls_of_def thread_defs

text \<open>The steps of a thread, in a state with the invariant.\<close>

lemma thread_step_cases [consumes 2, case_names hook ends waits calls loops again]:
  assumes "wait_inv st" and "wait_exec ev st = Some st'"
  obtains (hook) "case ev of Turn _ \<Rightarrow> False | Wait_Over _ _ \<Rightarrow> False | Callback_Returns _ \<Rightarrow> False | _ \<Rightarrow> True"
  | (ends) k where "st' = end_thread k st"
  | (waits) k t w e s where "ws_threads st k = Some t" "ws_heap st k = Some w" "wt_pc t = Loop_Head" "\<not> wo_cancelled w"
      "st' = go_to k e (Waiting s) st"
  | (calls) k t w s e b where "ws_threads st k = Some t" "ws_heap st k = Some w" "wt_pc t = Waiting s"
      "st' = go_to k e (In_Callback b) (call_back k w b st)"
  | (loops) k t w s e where "ws_threads st k = Some t" "ws_heap st k = Some w" "wt_pc t = Waiting s"
      "st' = go_to k e Loop_Head st"
  | (again) k t w where "ws_threads st k = Some t" "ws_heap st k = Some w" "wo_flags w AND WT_EXECUTEONLYONCE = 0"
      "st' = go_to k 0 Loop_Head st"
proof (cases ev)
  case (Turn k)
  then obtain t where t: "ws_threads st k = Some t" "wt_pc t = Loop_Head" "st' = loop_head k t st"
    using assms(2) by (auto split: option.splits if_splits)
  obtain w where w: "ws_heap st k = Some w" using wait_invD(1) [OF assms(1) t(1)] by blast
  show thesis
  proof (cases "wo_cancelled w")
    case True
    with t w have "st' = end_thread k st" by (simp add: loop_head_def)
    then show thesis by (rule ends)
  next
    case False
    with t w have "st' = go_to k (wt_elapsed t) (Waiting (wait_slice w (wt_elapsed t))) st" by (simp add: loop_head_def)
    with False t w show thesis by (intro waits)
  qed
next
  case (Wait_Over k signaled)
  then obtain t s where t: "ws_threads st k = Some t" "wt_pc t = Waiting s" "st' = after_wait k t s signaled st"
    using assms(2) by (auto split: option.splits wait_pc.splits)
  obtain w where w: "ws_heap st k = Some w" using wait_invD(1) [OF assms(1) t(1)] by blast
  have "(\<exists>b. st' = go_to k (wt_elapsed t + s) (In_Callback b) (call_back k w b st)) \<or>
      st' = go_to k (wt_elapsed t + s) Loop_Head st"
    using t(3) w by (auto simp: after_wait_def Let_def)
  then show thesis using calls [OF t(1) w t(2)] loops [OF t(1) w t(2)] by blast
next
  case (Callback_Returns k)
  then obtain t b where t: "ws_threads st k = Some t" "st' = after_callback k b st"
    using assms(2) by (auto split: option.splits wait_pc.splits)
  obtain w where w: "ws_heap st k = Some w" using wait_invD(1) [OF assms(1) t(1)] by blast
  have "st' = end_thread k st \<or> wo_flags w AND WT_EXECUTEONLYONCE = 0 \<and> st' = go_to k 0 Loop_Head st"
    using t(2) w by (auto simp: after_callback_def)
  then show thesis using ends again [OF t(1) w] by blast
qed (simp_all add: hook)

lemma hook_calls: "calls_of h (snd (fake_UnregisterWait handle st)) = calls_of h st"
  "ws_threads (snd (fake_UnregisterWait handle st)) = ws_threads st"
  by (auto simp: fake_UnregisterWait_def calls_of_def touch_def split: option.splits)

lemma register_other:
  assumes "alloc \<noteq> Some h" and "st' = snd (fake_RegisterWaitForSingleObject out object callback ctx ms flags alloc thread_ok st)"
  shows "ws_heap st' h = ws_heap st h" "ws_threads st' h = ws_threads st h" "ws_calls st' = ws_calls st"
  using assms by (auto simp: fake_RegisterWaitForSingleObject_def Let_def split: option.splits)

lemma unregister_cancelled:
  "cancelled h st \<Longrightarrow> cancelled h (snd (fake_UnregisterWait handle st))"
  "only_once h st \<Longrightarrow> only_once h (snd (fake_UnregisterWait handle st))"
  by (auto simp: fake_UnregisterWait_def cancelled_def only_once_def touch_def split: option.splits)

interpretation cancelled_wait: call_budget h "cancelled h" "cancel_room h"
proof
  fix st ev st'
  assume a: "wait_inv st" "cancelled h st" "\<not> registers h ev" "wait_exec ev st = Some st'"
  show "cancelled h st' \<and> calls_of h st' + cancel_room h st' \<le> calls_of h st + cancel_room h st"
    using a(1,4)
  proof (cases rule: thread_step_cases)
    case hook
    then show ?thesis
    proof (cases ev)
    case (Register out object callback ctx ms flags alloc thread_ok)
    then have "alloc \<noteq> Some h" using a(3) by (simp add: registers_def)
    moreover have "st' = snd (fake_RegisterWaitForSingleObject out object callback ctx ms flags alloc thread_ok st)"
      using Register a(4) by (simp split: if_splits)
    ultimately have "ws_heap st' h = ws_heap st h" "ws_threads st' h = ws_threads st h" "ws_calls st' = ws_calls st"
      by (rule register_other)+
    with a(2) show ?thesis by (simp add: cancelled_def cancel_room_def pc_of_def calls_of_def)
  next
    case (Unregister handle)
    with a(4) have "st' = snd (fake_UnregisterWait handle st)" by simp
    with a(2) show ?thesis by (simp add: unregister_cancelled hook_calls cancel_room_def pc_of_def)
  next
    case (Unregister_Ex handle event)
    with a(4) have "st' = snd (fake_UnregisterWait handle st)" by (simp add: fake_UnregisterWaitEx_def)
    with a(2) show ?thesis by (simp add: unregister_cancelled hook_calls cancel_room_def pc_of_def)
    qed auto
  qed (use a(2) in \<open>auto simp: budget_defs split: if_splits\<close>)
qed

interpretation once_wait: call_budget h "only_once h" "once_room h"
proof
  fix st ev st'
  assume a: "wait_inv st" "only_once h st" "\<not> registers h ev" "wait_exec ev st = Some st'"
  show "only_once h st' \<and> calls_of h st' + once_room h st' \<le> calls_of h st + once_room h st"
    using a(1,4)
  proof (cases rule: thread_step_cases)
    case hook
    then show ?thesis
    proof (cases ev)
    case (Register out object callback ctx ms flags alloc thread_ok)
    then have "alloc \<noteq> Some h" using a(3) by (simp add: registers_def)
    moreover have "st' = snd (fake_RegisterWaitForSingleObject out object callback ctx ms flags alloc thread_ok st)"
      using Register a(4) by (simp split: if_splits)
    ultimately have "ws_heap st' h = ws_heap st h" "ws_threads st' h = ws_threads st h" "ws_calls st' = ws_calls st"
      by (rule register_other)+
    with a(2) show ?thesis by (simp add: only_once_def once_room_def pc_of_def calls_of_def)
  next
    case (Unregister handle)
    with a(4) have "st' = snd (fake_UnregisterWait handle st)" by simp
    with a(2) show ?thesis by (simp add: unregister_cancelled hook_calls once_room_def pc_of_def)
  next
    case (Unregister_Ex handle event)
    with a(4) have "st' = snd (fake_UnregisterWait handle st)" by (simp add: fake_UnregisterWaitEx_def)
    with a(2) show ?thesis by (simp add: unregister_cancelled hook_calls once_room_def pc_of_def)
    qed auto
  qed (use a(2) in \<open>auto simp: budget_defs split: if_splits\<close>)
qed

lemma run_inv: "wait_inv st \<Longrightarrow> wait_run evs st = Some st' \<Longrightarrow> wait_inv st'"
  by (induction evs arbitrary: st) (auto intro: exec_keeps_inv split: option.splits)

text \<open>
  C26. After a wait was unregistered its callback is called at most once more, and not at all when the
  thread was not waiting then, however the threads and further calls interleave, as long as the address
  is not given to another wait.
\<close>

theorem unregistered_wait_quiet:
  assumes "wait_reachable st" and "ws_heap st h \<noteq> None" and "fake_UnregisterWait (Some h) st = (ok, st1)"
    and "wait_run evs st1 = Some st2" and "list_all (\<lambda>ev. \<not> registers h ev) evs"
  shows "calls_of h st2 \<le> calls_of h st + (case pc_of h st of Some (Waiting _) \<Rightarrow> 1 | _ \<Rightarrow> 0)"
proof -
  have st1: "st1 = snd (fake_UnregisterWait (Some h) st)" using assms(3) by simp
  have inv: "wait_inv st1"
    using exec_keeps_inv [OF reachable_inv [OF assms(1)], of "Unregister (Some h)"] st1 by simp
  have "cancelled h st1" using assms(2) st1 by (auto simp: fake_UnregisterWait_def cancelled_def)
  from cancelled_wait.run_spends [OF inv this assms(5,4)]
  have "calls_of h st2 \<le> calls_of h st1 + cancel_room h st1" by simp
  then show ?thesis unfolding st1 by (simp add: hook_calls cancel_room_def pc_of_def)
qed

text \<open>
  A wait registered to be executed only once calls its callback at most once.
\<close>

theorem once_means_once:
  assumes "wait_reachable st" and "ws_heap st h = None"
    and "fake_RegisterWaitForSingleObject True object (Some cb) ctx ms flags (Some h) True st = (Some h, st1)"
    and "flags AND WT_EXECUTEONLYONCE \<noteq> 0"
    and "wait_run evs st1 = Some st2" and "list_all (\<lambda>ev. \<not> registers h ev) evs"
  shows "calls_of h st2 \<le> calls_of h st + 1"
proof -
  have "wait_exec (Register True object (Some cb) ctx ms flags (Some h) True) st = Some st1" using assms(2,3) by simp
  then have inv: "wait_inv st1" by (rule exec_keeps_inv [OF reachable_inv [OF assms(1)]])
  have "only_once h st1" "calls_of h st1 = calls_of h st"
    using assms(3,4) by (auto simp: fake_RegisterWaitForSingleObject_def only_once_def calls_of_def Let_def)
  with once_wait.run_spends [OF inv _ assms(6,5)]
  have "calls_of h st2 \<le> calls_of h st + once_room h st1" by simp
  moreover have "once_room h st1 \<le> 1" by (simp add: once_room_def split: option.splits wait_pc.splits)
  ultimately show ?thesis by linarith
qed

section \<open>Use after free\<close>

lemma thread_touch: "wait_inv st \<Longrightarrow> ws_threads st k \<noteq> None \<Longrightarrow> touch k st = st"
  using wait_invD(3) by (auto simp: touch_def)

text \<open>
  C27. Memory is accessed after it was freed exactly when a handle is unregistered whose thread has
  ended; this is the case for a handle whose callback has returned after the wait was over, where the
  documentation of the function asks for the call.
\<close>

theorem unregister_after_end_faults:
  assumes "wait_reachable st" and "wait_exec ev st = Some st'"
  shows "ws_faults st' \<noteq> ws_faults st \<longleftrightarrow>
    (\<exists>h. ws_threads st h = None \<and> (ev = Unregister (Some h) \<or> (\<exists>event. ev = Unregister_Ex (Some h) event)))"
proof -
  note inv = reachable_inv [OF assms(1)]
  have un: "ws_faults (snd (fake_UnregisterWait handle st)) \<noteq> ws_faults st \<longleftrightarrow> (\<exists>h. handle = Some h \<and> ws_threads st h = None)" for handle
    by (auto simp: fake_UnregisterWait_def touch_def wait_invD(3) [OF inv, symmetric] split: option.splits)
  show ?thesis
  proof (cases ev)
    case (Register out object callback ctx ms flags alloc thread_ok)
    with assms(2) show ?thesis
      by (auto simp: fake_RegisterWaitForSingleObject_def Let_def split: option.splits if_splits)
  next
    case (Unregister handle)
    with assms(2) un [of handle] show ?thesis by auto
  next
    case (Unregister_Ex handle event)
    with assms(2) un [of handle] show ?thesis by (auto simp: fake_UnregisterWaitEx_def)
  next
    case (Turn k)
    with assms(2) thread_touch [OF inv, of k] show ?thesis
      by (auto simp: loop_head_def end_thread_def go_to_def split: option.splits if_splits)
  next
    case (Wait_Over k signaled)
    with assms(2) thread_touch [OF inv, of k] show ?thesis
      by (auto simp: after_wait_def call_back_def go_to_def Let_def split: option.splits wait_pc.splits if_splits)
  next
    case (Callback_Returns k)
    with assms(2) thread_touch [OF inv, of k] show ?thesis
      by (auto simp: after_callback_def end_thread_def go_to_def split: option.splits wait_pc.splits if_splits)
  qed
qed

section \<open>Examples\<close>

text \<open>A wait of 100 milliseconds that is executed once, and the state in which its thread waits.\<close>

definition demo_register :: wait_event where
  "demo_register = Register True 1 (Some 2) 3 100 WT_EXECUTEONLYONCE (Some 5) True"

definition demo_waiting :: wait_state where
  "demo_waiting = \<lparr>ws_heap = [5 \<mapsto> \<lparr>wo_target = 1, wo_callback = 2, wo_context = 3, wo_timeout_ms = 100,
       wo_flags = WT_EXECUTEONLYONCE, wo_cancelled = False\<rparr>],
     ws_threads = [5 \<mapsto> \<lparr>wt_elapsed = 0, wt_pc = Waiting 100\<rparr>], ws_calls = [], ws_faults = 0\<rparr>"

lemmas demo_wait_defs = wait_init_def demo_register_def demo_waiting_def fake_RegisterWaitForSingleObject_def
  fake_UnregisterWait_def thread_defs wait_slice_def INFINITE_def WT_EXECUTEONLYONCE_def Let_def

lemma demo_wait_run: "wait_run [demo_register, Turn 5] wait_init = Some demo_waiting"
  by (simp add: demo_wait_defs fun_eq_iff)

lemma run_reachable: "wait_reachable st \<Longrightarrow> wait_run evs st = Some st' \<Longrightarrow> wait_reachable st'"
  by (induction evs arbitrary: st) (auto intro: wait_reachable.step split: option.splits)

lemma demo_waiting_reachable: "wait_reachable demo_waiting"
  using demo_wait_run by (rule run_reachable [OF wait_reachable.init])

lemma wait_objects_owned_witness: "dom (ws_heap demo_waiting) = dom (ws_threads demo_waiting)"
  using wait_objects_owned [OF demo_waiting_reachable] by blast

text \<open>
  The callback is called although the wait was unregistered, and the object is used after it was freed
  when it is unregistered again.
\<close>

definition demo_cancelled :: wait_state where
  "demo_cancelled = snd (fake_UnregisterWait (Some 5) demo_waiting)"

lemma demo_late_call:
  "\<exists>st. wait_run [Wait_Over 5 False, Callback_Returns 5, Unregister_Ex (Some 5) 0] demo_cancelled = Some st \<and>
     calls_of 5 st = 1 \<and> ws_faults st = 1"
  by (simp add: demo_cancelled_def demo_wait_defs calls_of_def fake_UnregisterWaitEx_def)

lemma unregistered_wait_quiet_witness:
  "\<exists>st. wait_run [Wait_Over 5 False, Callback_Returns 5, Unregister_Ex (Some 5) 0] demo_cancelled = Some st \<and>
     calls_of 5 st = 1 \<and> calls_of 5 st \<le> calls_of 5 demo_waiting + 1"
proof -
  obtain st where r: "wait_run [Wait_Over 5 False, Callback_Returns 5, Unregister_Ex (Some 5) 0] demo_cancelled = Some st"
    "calls_of 5 st = 1" using demo_late_call by blast
  have u: "fake_UnregisterWait (Some 5) demo_waiting = (True, demo_cancelled)"
    by (simp add: demo_cancelled_def fake_UnregisterWait_def)
  have "ws_heap demo_waiting 5 \<noteq> None" by (simp add: demo_waiting_def)
  from unregistered_wait_quiet [OF demo_waiting_reachable this u r(1)] r show ?thesis
    by (simp add: registers_def pc_of_def demo_waiting_def)
qed

lemma once_means_once_witness:
  "\<exists>st. wait_run [demo_register, Turn 5, Wait_Over 5 False, Callback_Returns 5] wait_init = Some st \<and>
     calls_of 5 st = 1 \<and> calls_of 5 st \<le> calls_of 5 wait_init + 1"
proof -
  obtain st1 where f: "fake_RegisterWaitForSingleObject True 1 (Some 2) 3 100 WT_EXECUTEONLYONCE (Some 5) True wait_init = (Some 5, st1)"
    "wait_exec demo_register wait_init = Some st1"
    by (simp add: fake_RegisterWaitForSingleObject_def demo_register_def wait_init_def Let_def)
  have "\<exists>st. wait_run [demo_register, Turn 5, Wait_Over 5 False, Callback_Returns 5] wait_init = Some st \<and> calls_of 5 st = 1"
    by (simp add: demo_wait_defs calls_of_def)
  then obtain st where r: "wait_run [demo_register, Turn 5, Wait_Over 5 False, Callback_Returns 5] wait_init = Some st" "calls_of 5 st = 1"
    by blast
  then have "wait_run [Turn 5, Wait_Over 5 False, Callback_Returns 5] st1 = Some st" using f(2) by simp
  from once_means_once [OF wait_reachable.init _ f(1) _ this] r show ?thesis
    by (simp add: registers_def wait_init_def WT_EXECUTEONLYONCE_def)
qed

lemma unregister_after_end_faults_witness:
  "ws_faults (snd (fake_UnregisterWait (Some 9) demo_waiting)) \<noteq> ws_faults demo_waiting"
  using unregister_after_end_faults [OF demo_waiting_reachable, of "Unregister (Some 9)"] by (simp add: demo_waiting_def)

end
