(* ===== verification/WP_Pe.thy ===== *)
theory WP_Pe
  imports WP_Prelude
begin

text \<open>
  Program images in memory: replacing an entry of the import table (\<^verbatim>\<open>loader/coff/pe_iat.c\<close>) and finding an
  exported function (\<^verbatim>\<open>loader/coff/bootstrap.c\<close>). An image is the list of its bytes; an access outside of it is
  \<^term>\<open>None\<close>. The comparison of library names (\<open>lstrcmpiA\<close>) and the answer of \<open>VirtualProtect\<close> are arguments.
\<close>

section \<open>Reading and writing\<close>

type_synonym pe_bytes = "u8 list"

fun le_nat :: "u8 list \<Rightarrow> nat" where
  "le_nat [] = 0"
| "le_nat (b # bs) = unat b + 256 * le_nat bs"

fun le_bytes :: "nat \<Rightarrow> nat \<Rightarrow> u8 list" where
  "le_bytes 0 v = []"
| "le_bytes (Suc n) v = of_nat (v mod 256) # le_bytes n (v div 256)"

definition read_le :: "nat \<Rightarrow> pe_bytes \<Rightarrow> nat \<Rightarrow> nat option" where
  "read_le n img off = (if off + n \<le> length img then Some (le_nat (take n (drop off img))) else None)"

definition write_le :: "nat \<Rightarrow> pe_bytes \<Rightarrow> nat \<Rightarrow> nat \<Rightarrow> pe_bytes" where
  "write_le n img off v = take off img @ le_bytes n v @ drop (off + n) img"

definition bytes_at :: "pe_bytes \<Rightarrow> nat \<Rightarrow> u8 list option" where
  "bytes_at img off = (if 0 \<in> set (drop off img) then Some (takeWhile (\<lambda>b. b \<noteq> 0) (drop off img)) else None)"

text \<open>\<open>names_equal\<close> of \<^verbatim>\<open>util.c\<close>, and the loop in \<^verbatim>\<open>bootstrap.c\<close>: the text in the image and a name.\<close>

fun names_equal_at :: "u8 list \<Rightarrow> u8 list \<Rightarrow> bool option" where
  "names_equal_at [] bs = None"
| "names_equal_at (a # as) bs =
     (let b = (case bs of [] \<Rightarrow> 0 | b # _ \<Rightarrow> b)
      in if a \<noteq> 0 \<and> a = b then names_equal_at as (tl bs) else Some (a = b))"

text \<open>The directories of the header: exports at 0, imports at 1.\<close>

definition e_lfanew :: "pe_bytes \<Rightarrow> nat option" where
  "e_lfanew img = (case read_le 4 img 0x3C of Some v \<Rightarrow> if v < 2 ^ 31 then Some v else None | None \<Rightarrow> None)"

definition data_directory :: "pe_bytes \<Rightarrow> nat \<Rightarrow> nat option" where
  "data_directory img index =
     (case e_lfanew img of None \<Rightarrow> None | Some nt \<Rightarrow> read_le 4 img (nt + 4 + 20 + 112 + 8 * index))"

section \<open>Imports\<close>

lemma read_le_bound: "read_le n img off = Some v \<Longrightarrow> off + n \<le> length img"
  by (simp add: read_le_def split: if_splits)

text \<open>The place of an import among the thunks of a library, if there is one.\<close>

function find_thunk :: "pe_bytes \<Rightarrow> u8 list \<Rightarrow> nat \<Rightarrow> nat \<Rightarrow> nat option option" where
  "find_thunk img func_name orig_thunk iat_thunk =
     (case read_le 8 img orig_thunk of
        None \<Rightarrow> None
      | Some entry \<Rightarrow>
          if entry = 0 then Some None
          else if 2 ^ 63 \<le> entry then find_thunk img func_name (orig_thunk + 8) (iat_thunk + 8)
          else case names_equal_at (drop (entry + 2) img) func_name of
                 None \<Rightarrow> None
               | Some True \<Rightarrow> Some (Some iat_thunk)
               | Some False \<Rightarrow> find_thunk img func_name (orig_thunk + 8) (iat_thunk + 8))"
  by pat_completeness auto
termination
  by (relation "measure (\<lambda>(img, f, orig, iat). length img - orig)") (auto dest!: read_le_bound)

declare find_thunk.simps [simp del]

function find_import :: "(u8 list \<Rightarrow> u8 list \<Rightarrow> bool) \<Rightarrow> pe_bytes \<Rightarrow> u8 list \<Rightarrow> u8 list \<Rightarrow> nat \<Rightarrow> nat option option" where
  "find_import same img dll_name func_name desc =
     (case read_le 4 img (desc + 12) of
        None \<Rightarrow> None
      | Some name \<Rightarrow>
          if name = 0 then Some None
          else case bytes_at img name of
                 None \<Rightarrow> None
               | Some s \<Rightarrow>
                   if \<not> same s dll_name then find_import same img dll_name func_name (desc + 20)
                   else case read_le 4 img desc of
                          None \<Rightarrow> None
                        | Some orig_thunk \<Rightarrow>
                            (case read_le 4 img (desc + 16) of
                               None \<Rightarrow> None | Some iat_thunk \<Rightarrow> find_thunk img func_name orig_thunk iat_thunk))"
  by pat_completeness auto
termination
  by (relation "measure (\<lambda>(same, img, d, f, desc). length img - desc)") (auto dest!: read_le_bound)

declare find_import.simps [simp del]

definition find_slot :: "(u8 list \<Rightarrow> u8 list \<Rightarrow> bool) \<Rightarrow> pe_bytes \<Rightarrow> u8 list \<Rightarrow> u8 list \<Rightarrow> nat option option" where
  "find_slot same img dll_name func_name =
     (case data_directory img 1 of
        None \<Rightarrow> None | Some va \<Rightarrow> if va = 0 then Some None else find_import same img dll_name func_name va)"

text \<open>The function that was called so far (0 for \<open>NULL\<close>) and the image.\<close>

definition patch_iat ::
  "(u8 list \<Rightarrow> u8 list \<Rightarrow> bool) \<Rightarrow> bool \<Rightarrow> u8 list \<Rightarrow> u8 list \<Rightarrow> nat \<Rightarrow> pe_bytes \<Rightarrow> (nat \<times> pe_bytes) option" where
  "patch_iat same protect_ok dll_name func_name replacement img =
     (case find_slot same img dll_name func_name of
        None \<Rightarrow> None
      | Some None \<Rightarrow> Some (0, img)
      | Some (Some slot) \<Rightarrow>
          (case read_le 8 img slot of
             None \<Rightarrow> None
           | Some original \<Rightarrow> Some (original, if protect_ok then write_le 8 img slot replacement else img)))"

text \<open>All modules: how many were patched, the first function replaced, the images.\<close>

fun patch_modules ::
  "(u8 list \<Rightarrow> u8 list \<Rightarrow> bool) \<Rightarrow> bool \<Rightarrow> u8 list \<Rightarrow> u8 list \<Rightarrow> nat \<Rightarrow> pe_bytes list \<Rightarrow> nat \<Rightarrow> nat option \<Rightarrow>
   (nat \<times> nat option \<times> pe_bytes list) option" where
  "patch_modules same ok dll func repl [] patched original_out = Some (patched, original_out, [])"
| "patch_modules same ok dll func repl (img # imgs) patched original_out =
     (case patch_iat same ok dll func repl img of
        None \<Rightarrow> None
      | Some (original, img') \<Rightarrow>
          map_option (\<lambda>(n, out, imgs'). (n, out, img' # imgs'))
            (patch_modules same ok dll func repl imgs (if original \<noteq> 0 then patched + 1 else patched)
              (if original \<noteq> 0 \<and> original_out = Some 0 then Some original else original_out)))"

definition patch_iat_all_modules ::
  "(u8 list \<Rightarrow> u8 list \<Rightarrow> bool) \<Rightarrow> bool \<Rightarrow> u8 list \<Rightarrow> u8 list \<Rightarrow> nat \<Rightarrow> pe_bytes list option \<Rightarrow> nat option \<Rightarrow>
   (nat \<times> nat option \<times> pe_bytes list) option" where
  "patch_iat_all_modules same ok dll func repl snapshot original_out =
     (case snapshot of
        None \<Rightarrow> Some (0, original_out, []) | Some imgs \<Rightarrow> patch_modules same ok dll func repl imgs 0 original_out)"

section \<open>Exports\<close>

fun find_export_loop :: "pe_bytes \<Rightarrow> u8 list \<Rightarrow> nat \<Rightarrow> nat \<Rightarrow> nat \<Rightarrow> nat \<Rightarrow> nat \<Rightarrow> nat option option" where
  "find_export_loop img name names ordinals functions i 0 = Some None"
| "find_export_loop img name names ordinals functions i (Suc rest) =
     (case read_le 4 img (names + 4 * i) of
        None \<Rightarrow> None
      | Some rva \<Rightarrow>
          (case names_equal_at (drop rva img) name of
             None \<Rightarrow> None
           | Some True \<Rightarrow>
               (case read_le 2 img (ordinals + 2 * i) of
                  None \<Rightarrow> None | Some ord \<Rightarrow> map_option Some (read_le 4 img (functions + 4 * ord)))
           | Some False \<Rightarrow> find_export_loop img name names ordinals functions (i + 1) rest))"

text \<open>The offset of the function in the module; a module that is not there has no exports.\<close>

definition win32_bootstrap_find_export :: "pe_bytes option \<Rightarrow> u8 list \<Rightarrow> nat option option" where
  "win32_bootstrap_find_export module name =
     (case module of
        None \<Rightarrow> Some None
      | Some img \<Rightarrow>
          (case data_directory img 0 of
             None \<Rightarrow> None
           | Some va \<Rightarrow>
               if va = 0 then Some None
               else case read_le 4 img (va + 24) of
                      None \<Rightarrow> None
                    | Some n \<Rightarrow>
                        (case (read_le 4 img (va + 32), read_le 4 img (va + 36), read_le 4 img (va + 28)) of
                           (Some names, Some ordinals, Some functions) \<Rightarrow> find_export_loop img name names ordinals functions 0 n
                         | _ \<Rightarrow> None)))"

text \<open>The name of a loaded module, in UTF-16, against a name in capital letters.\<close>

fun ieq_loop :: "u16 list \<Rightarrow> u16 list \<Rightarrow> bool" where
  "ieq_loop w [] = (w = [])"
| "ieq_loop [] (a # as) = False"
| "ieq_loop (c # w) (a # as) =
     (let c' = (if 97 \<le> c \<and> c \<le> 122 then c - 32 else c) in if c' \<noteq> a then False else ieq_loop w as)"

definition wide_name_ieq_ascii :: "u16 list \<Rightarrow> nat \<Rightarrow> u8 list \<Rightarrow> bool" where
  "wide_name_ieq_ascii w len_bytes ascii_upper = ieq_loop (take (len_bytes div 2) w) (map ucast ascii_upper)"

text \<open>The modules in the order they were loaded: their names, if they have one, and where they are.\<close>

definition win32_bootstrap_find_kernel32 :: "((u16 list \<times> nat) option \<times> nat) list \<Rightarrow> nat option" where
  "win32_bootstrap_find_kernel32 modules =
     map_option snd (find (\<lambda>(name, base). case name of
         None \<Rightarrow> False
       | Some (w, len_bytes) \<Rightarrow> wide_name_ieq_ascii w len_bytes (map of_char ''KERNEL32.DLL'')) modules)"

end
