(* ===== verification/WP_Pe_Props.thy ===== *)
theory WP_Pe_Props
  imports WP_Pe "HOL-Library.Sublist"
begin

text \<open>
  The searches of \<^verbatim>\<open>pe_iat.c\<close> and \<^verbatim>\<open>bootstrap.c\<close> against the tables of the image: the import table and the
  export table are read in full as lists, and the searches find what these lists say.
\<close>

section \<open>Bytes\<close>

lemma le_bytes_nat [simp]: "length (le_bytes n v) = n" "v < 256 ^ n \<Longrightarrow> le_nat (le_bytes n v) = v"
proof -
  show "length (le_bytes n v) = n" by (induction n arbitrary: v) simp_all
  show "v < 256 ^ n \<Longrightarrow> le_nat (le_bytes n v) = v"
  proof (induction n arbitrary: v)
    case (Suc n)
    have "v div 256 < 256 ^ n" using Suc.prems by (simp add: less_mult_imp_div_less mult.commute)
    with Suc.IH show ?case by (simp add: unat_of_nat)
  qed simp
qed

lemma le_nat_zeros: "le_nat (replicate n 0) = 0"
  by (induction n) simp_all

lemma le_bytes_of_nat: "length bs = n \<Longrightarrow> le_bytes n (le_nat bs) = bs"
proof (induction bs arbitrary: n)
  case (Cons b bs)
  have "unat b < 256" using unsigned_less [of b, where ?'a = nat] by simp
  then have "(unat b + 256 * le_nat bs) mod 256 = unat b" "(unat b + 256 * le_nat bs) div 256 = le_nat bs" by simp_all
  with Cons show ?case by (cases n) simp_all
qed simp

lemma read_write_same: "off + n \<le> length img \<Longrightarrow> v < 256 ^ n \<Longrightarrow> read_le n (write_le n img off v) off = Some v"
  by (simp add: read_le_def write_le_def)

lemma write_le_length [simp]: "off + n \<le> length img \<Longrightarrow> length (write_le n img off v) = length img"
  by (simp add: write_le_def)

lemma write_le_other:
  assumes "off + n \<le> length img" and "i < off \<or> off + n \<le> i" and "i < length img"
  shows "write_le n img off v ! i = img ! i"
  using assms by (auto simp: write_le_def nth_append)

lemma read_write_other:
  assumes "off + n \<le> length img" and "at + k \<le> off \<or> off + n \<le> at"
  shows "read_le k (write_le n img off v) at = read_le k img at"
proof (cases "at + k \<le> length img")
  case True
  have "take k (drop at (write_le n img off v)) = take k (drop at img)"
    using assms True by (intro nth_equalityI) (auto simp: write_le_other)
  with assms(1) show ?thesis by (simp add: read_le_def)
qed (use assms in \<open>simp add: read_le_def\<close>)

text \<open>Comparing with a text that ends in the image.\<close>

lemma names_equal_text:
  "0 \<notin> set t \<Longrightarrow> 0 \<notin> set name \<Longrightarrow> names_equal_at (t @ 0 # rest) name = Some (t = name)"
proof (induction t arbitrary: name)
  case Nil
  then show ?case by (cases name) auto
next
  case (Cons a t)
  then show ?case by (cases name) auto
qed

lemma names_equal_bytes_at:
  assumes "bytes_at img off = Some t" and "0 \<notin> set name"
  shows "names_equal_at (drop off img) name = Some (t = name)"
proof -
  have z: "0 \<in> set (drop off img)" and t: "t = takeWhile (\<lambda>b. b \<noteq> 0) (drop off img)"
    using assms(1) by (auto simp: bytes_at_def split: if_splits)
  obtain xs ys where s: "drop off img = xs @ 0 # ys" "0 \<notin> set xs" using split_list_first [OF z] by blast
  then have "t = xs" unfolding t by (subst s(1)) (auto simp: takeWhile_append)
  with s names_equal_text [OF s(2) assms(2)] show ?thesis by simp
qed

section \<open>The import table\<close>

text \<open>The names of the imports (none for those by number) with their slots.\<close>

function thunk_table :: "pe_bytes \<Rightarrow> nat \<Rightarrow> nat \<Rightarrow> (u8 list option \<times> nat) list option" where
  "thunk_table img orig iat =
     (case read_le 8 img orig of
        None \<Rightarrow> None
      | Some entry \<Rightarrow>
          if entry = 0 then Some []
          else if 2 ^ 63 \<le> entry then map_option (Cons (None, iat)) (thunk_table img (orig + 8) (iat + 8))
          else case bytes_at img (entry + 2) of
                 None \<Rightarrow> None
               | Some name \<Rightarrow> map_option (Cons (Some name, iat)) (thunk_table img (orig + 8) (iat + 8)))"
  by pat_completeness auto
termination
  by (relation "measure (\<lambda>(img, orig, iat). length img - orig)") (auto dest!: read_le_bound)

declare thunk_table.simps [simp del]

function import_table :: "pe_bytes \<Rightarrow> nat \<Rightarrow> (u8 list \<times> (u8 list option \<times> nat) list) list option" where
  "import_table img desc =
     (case read_le 4 img (desc + 12) of
        None \<Rightarrow> None
      | Some name \<Rightarrow>
          if name = 0 then Some []
          else case (bytes_at img name, read_le 4 img desc, read_le 4 img (desc + 16)) of
                 (Some s, Some orig, Some iat) \<Rightarrow>
                   (case thunk_table img orig iat of
                      None \<Rightarrow> None | Some ts \<Rightarrow> map_option (Cons (s, ts)) (import_table img (desc + 20)))
               | _ \<Rightarrow> None)"
  by pat_completeness auto
termination
  by (relation "measure (\<lambda>(img, desc). length img - desc)") (auto dest!: read_le_bound)

declare import_table.simps [simp del]

definition imports_of :: "pe_bytes \<Rightarrow> (u8 list \<times> (u8 list option \<times> nat) list) list option" where
  "imports_of img =
     (case data_directory img 1 of None \<Rightarrow> None | Some va \<Rightarrow> if va = 0 then Some [] else import_table img va)"

definition import_slot :: "(u8 list \<Rightarrow> u8 list \<Rightarrow> bool) \<Rightarrow> (u8 list \<times> (u8 list option \<times> nat) list) list \<Rightarrow> u8 list \<Rightarrow> u8 list \<Rightarrow> nat option" where
  "import_slot same table dll func =
     (case find (\<lambda>(d, ts). same d dll) table of
        None \<Rightarrow> None | Some (d, ts) \<Rightarrow> map_option snd (find (\<lambda>(n, slot). n = Some func) ts))"

lemma find_thunk_table:
  "thunk_table img orig iat = Some ts \<Longrightarrow> 0 \<notin> set func \<Longrightarrow>
   find_thunk img func orig iat = Some (map_option snd (find (\<lambda>(n, slot). n = Some func) ts))"
proof (induction img orig iat arbitrary: ts rule: thunk_table.induct)
  case (1 img orig iat)
  obtain entry where r: "read_le 8 img orig = Some entry"
    using "1.prems"(1) by (simp add: thunk_table.simps [of img orig] split: option.splits)
  note t = thunk_table.simps [of img orig iat] and f = find_thunk.simps [of img func orig iat]
  consider "entry = 0" | "entry \<noteq> 0" "2 ^ 63 \<le> entry" | "entry \<noteq> 0" "\<not> 2 ^ 63 \<le> entry" by blast
  then show ?case
  proof cases
    case 1
    with r "1.prems" show ?thesis by (simp add: t f)
  next
    case 2
    with r "1.prems" obtain ts' where ts: "thunk_table img (orig + 8) (iat + 8) = Some ts'" "ts = (None, iat) # ts'"
      by (auto simp: t)
    from "1.IH"(1) [OF r 2 ts(1) "1.prems"(2)] r 2 ts(2) show ?thesis by (simp add: f)
  next
    case 3
    with r "1.prems" obtain name ts' where ts: "bytes_at img (entry + 2) = Some name"
      "thunk_table img (orig + 8) (iat + 8) = Some ts'" "ts = (Some name, iat) # ts'"
      by (auto simp: t split: option.splits)
    from "1.IH"(2) [OF r 3 ts(1,2) "1.prems"(2)] r 3 ts(3) names_equal_bytes_at [OF ts(1) "1.prems"(2)]
    show ?thesis by (cases "name = func") (simp_all add: f)
  qed
qed

lemma find_import_table:
  "import_table img desc = Some table \<Longrightarrow> 0 \<notin> set func \<Longrightarrow>
   find_import same img dll func desc = Some (import_slot same table dll func)"
proof (induction img desc arbitrary: table rule: import_table.induct)
  case (1 img desc)
  note t = import_table.simps [of img desc] and f = find_import.simps [of same img dll func desc]
  obtain name where r: "read_le 4 img (desc + 12) = Some name"
    using "1.prems"(1) by (simp add: t split: option.splits)
  show ?case
  proof (cases "name = 0")
    case True
    with r "1.prems" show ?thesis by (simp add: t f import_slot_def)
  next
    case False
    with r "1.prems" obtain s orig iat ts table' where s: "bytes_at img name = Some s" "read_le 4 img desc = Some orig"
      "read_le 4 img (desc + 16) = Some iat" "thunk_table img orig iat = Some ts"
      "import_table img (desc + 20) = Some table'" "table = (s, ts) # table'"
      by (auto simp: t split: option.splits prod.splits)
    have IH: "find_import same img dll func (desc + 20) = Some (import_slot same table' dll func)"
      using "1.IH" [OF r False _ _ _ _ _ s(4,5) "1.prems"(2)] s by simp
    show ?thesis using r False s IH find_thunk_table [OF s(4) "1.prems"(2)]
      by (cases "same s dll") (simp_all add: f import_slot_def)
  qed
qed

lemma find_slot_table:
  "imports_of img = Some table \<Longrightarrow> 0 \<notin> set func \<Longrightarrow> find_slot same img dll func = Some (import_slot same table dll func)"
  by (auto simp: imports_of_def find_slot_def find_import_table import_slot_def split: option.splits if_splits)

section \<open>Replacing an import\<close>

lemma patch_at_slot:
  assumes "find_slot same img dll func = Some (Some slot)" and "slot + 8 \<le> length img"
  shows "patch_iat same True dll func replacement img =
    Some (le_nat (take 8 (drop slot img)), write_le 8 img slot replacement)"
  using assms by (simp add: patch_iat_def read_le_def)

text \<open>
  C28. Patching redirects one import and nothing else: for an image whose import table names the function,
  with its slot apart from the table, the result is what the slot held, the slot holds the replacement,
  every other byte is as it was, the import is found again, and patching once more gives the replacement
  back.
\<close>

theorem patch_redirects:
  assumes "imports_of img = Some table" and "0 \<notin> set func" and "import_slot same table dll func = Some slot"
    and "slot + 8 \<le> length img" and "replacement < 2 ^ 64" and "imports_of (write_le 8 img slot replacement) = Some table"
  shows "\<exists>original img'. patch_iat same True dll func replacement img = Some (original, img') \<and>
    read_le 8 img slot = Some original \<and> read_le 8 img' slot = Some replacement \<and> length img' = length img \<and>
    (\<forall>i < length img. i < slot \<or> slot + 8 \<le> i \<longrightarrow> img' ! i = img ! i) \<and>
    patch_iat same True dll func original img' = Some (replacement, img)"
proof -
  let ?img = "write_le 8 img slot replacement" and ?orig = "le_nat (take 8 (drop slot img))"
  have "patch_iat same True dll func replacement img = Some (?orig, ?img)"
    by (rule patch_at_slot) (simp_all add: find_slot_table [OF assms(1,2)] assms(3,4))
  moreover have r: "read_le 8 ?img slot = Some replacement"
    by (rule read_write_same) (use assms(4,5) in simp_all)
  moreover have "patch_iat same True dll func ?orig ?img = Some (replacement, write_le 8 ?img slot ?orig)"
    using patch_at_slot [of same ?img dll func slot ?orig] find_slot_table [OF assms(6,2)] assms(3,4) r
    by (simp add: read_le_def)
  moreover have "take slot img @ take 8 (drop slot img) @ drop (slot + 8) img = img"
    by (metis append_take_drop_id drop_drop add.commute)
  then have "write_le 8 ?img slot ?orig = img"
    using assms(4) by (simp add: write_le_def le_bytes_of_nat)
  ultimately show ?thesis using assms(4) write_le_other [OF assms(4)] by (simp add: read_le_def)
qed

section \<open>The export table\<close>

text \<open>The exported names with the offsets of their functions, as far as these can be read.\<close>

fun export_table :: "pe_bytes \<Rightarrow> nat \<Rightarrow> nat \<Rightarrow> nat \<Rightarrow> nat \<Rightarrow> nat \<Rightarrow> (u8 list \<times> nat) list option" where
  "export_table img names ordinals functions i 0 = Some []"
| "export_table img names ordinals functions i (Suc rest) =
     (case Option.bind (read_le 4 img (names + 4 * i)) (bytes_at img) of
        None \<Rightarrow> None
      | Some s \<Rightarrow>
          (case Option.bind (read_le 2 img (ordinals + 2 * i)) (\<lambda>ord. read_le 4 img (functions + 4 * ord)) of
             None \<Rightarrow> None
           | Some f \<Rightarrow> map_option (Cons (s, f)) (export_table img names ordinals functions (i + 1) rest)))"

lemma find_export_table:
  "export_table img names ordinals functions i rest = Some table \<Longrightarrow> 0 \<notin> set name \<Longrightarrow>
   find_export_loop img name names ordinals functions i rest = Some (map_of table name)"
proof (induction rest arbitrary: i table)
  case (Suc rest)
  then obtain rva s ord f table' where
    r: "read_le 4 img (names + 4 * i) = Some rva" "bytes_at img rva = Some s"
      "read_le 2 img (ordinals + 2 * i) = Some ord" "read_le 4 img (functions + 4 * ord) = Some f"
      "export_table img names ordinals functions (i + 1) rest = Some table'" "table = (s, f) # table'"
    by (auto split: option.splits simp: bind_eq_Some_conv)
  from Suc.IH [OF r(5) Suc.prems(2)] r names_equal_bytes_at [OF r(2) Suc.prems(2)] show ?case
    by (cases "s = name") simp_all
qed simp

lemma ieq_loop_upper:
  "list_all (\<lambda>a. \<not> (97 \<le> a \<and> a \<le> 122)) as \<Longrightarrow>
   ieq_loop w as \<longleftrightarrow> map (\<lambda>c. if 97 \<le> c \<and> c \<le> 122 then c - 32 else c) w = as"
  by (induction w as rule: ieq_loop.induct) (auto simp: Let_def)

section \<open>Examples\<close>

text \<open>An image that imports the function \<^verbatim>\<open>F\<close> of the library \<^verbatim>\<open>K32\<close>; the slot is at 296.\<close>

definition demo_image :: "nat \<Rightarrow> pe_bytes" where
  "demo_image v = replicate 60 0 @ le_bytes 4 64 @ replicate 144 0 @ le_bytes 4 220 @ replicate 8 0 @
     le_bytes 4 280 @ replicate 8 0 @ le_bytes 4 260 @ le_bytes 4 296 @ replicate 20 0 @
     [75, 51, 50, 0] @ [0, 0, 70, 0] @ replicate 12 0 @ le_bytes 8 264 @ le_bytes 8 0 @ le_bytes 8 v @ le_bytes 8 0"

lemma demo_image_reads:
  "read_le 4 (demo_image v) 60 = Some 64" "read_le 4 (demo_image v) 208 = Some 220"
  "read_le 4 (demo_image v) 232 = Some 260" "read_le 4 (demo_image v) 252 = Some 0"
  "read_le 4 (demo_image v) 220 = Some 280" "read_le 4 (demo_image v) 236 = Some 296"
  "read_le 8 (demo_image v) 280 = Some 264" "read_le 8 (demo_image v) 288 = Some 0"
  "bytes_at (demo_image v) 260 = Some [75, 51, 50]" "bytes_at (demo_image v) 266 = Some [70]"
  by (simp_all add: demo_image_def read_le_def bytes_at_def le_nat_zeros)

lemma demo_imports: "imports_of (demo_image v) = Some [([75, 51, 50], [(Some [70], 296)])]"
proof -
  have "thunk_table (demo_image v) 288 304 = Some []" by (subst thunk_table.simps) (simp add: demo_image_reads)
  then have "thunk_table (demo_image v) 280 296 = Some [(Some [70], 296)]"
    by (subst thunk_table.simps) (simp add: demo_image_reads)
  moreover have "import_table (demo_image v) 240 = Some []" by (subst import_table.simps) (simp add: demo_image_reads)
  ultimately have "import_table (demo_image v) 220 = Some [([75, 51, 50], [(Some [70], 296)])]"
    by (subst import_table.simps) (simp add: demo_image_reads)
  then show ?thesis by (simp add: imports_of_def data_directory_def e_lfanew_def demo_image_reads)
qed

lemma demo_image_write: "write_le 8 (demo_image v) 296 r = demo_image r"
  by (simp add: demo_image_def write_le_def)

lemma patch_redirects_witness:
  "\<exists>original img'. patch_iat (=) True [75, 51, 50] [70] 7 (demo_image 5) = Some (original, img') \<and>
    read_le 8 (demo_image 5) 296 = Some original \<and> read_le 8 img' 296 = Some 7 \<and> length img' = length (demo_image 5) \<and>
    (\<forall>i < length (demo_image 5). i < 296 \<or> 296 + 8 \<le> i \<longrightarrow> img' ! i = demo_image 5 ! i) \<and>
    patch_iat (=) True [75, 51, 50] [70] original img' = Some (7, demo_image 5)"
  by (rule patch_redirects [OF demo_imports])
    (simp_all add: demo_image_write demo_imports import_slot_def, simp add: demo_image_def)

end
