(* ===== verification/WP_Shim.thy ===== *)
theory WP_Shim
  imports WP_Pe_Props
begin

text \<open>
  The Windows shim, the rest: text search (\<^verbatim>\<open>loader/coff/util.c\<close>), started processes (\<^verbatim>\<open>spawn.c\<close>), the windows of
  the desktop (\<^verbatim>\<open>progman.c\<close>), the exports of the replaced library (\<^verbatim>\<open>dwm_exports.c\<close>) and the table of imported
  functions (\<^verbatim>\<open>imports.c\<close>). The functions of Windows that are called are arguments, among them \<open>wsprintf\<close>,
  which is documented to write texts of fewer than 1024 characters as they are.
\<close>

section \<open>Text (util.c)\<close>

text \<open>The letters of both kinds of text; the loops are the same for both.\<close>

definition ansi_upper :: "char \<Rightarrow> char" where
  "ansi_upper c = (let n = of_char c :: nat in if 97 \<le> n \<and> n \<le> 122 then char_of (n - 32) else c)"

definition wide_upper :: "u16 \<Rightarrow> u16" where
  "wide_upper c = (if 97 \<le> c \<and> c \<le> 122 then c - 32 else c)"

fun match_ci :: "('a \<Rightarrow> 'a) \<Rightarrow> 'a list \<Rightarrow> 'a list \<Rightarrow> bool" where
  "match_ci up hay [] = True"
| "match_ci up [] (b # needle) = False"
| "match_ci up (a # hay) (b # needle) = (if up a \<noteq> up b then False else match_ci up hay needle)"

fun search_ci :: "('a \<Rightarrow> 'a) \<Rightarrow> 'a list \<Rightarrow> 'a list \<Rightarrow> bool" where
  "search_ci up needle [] = False"
| "search_ci up needle (a # hay) =
     (if length (a # hay) < length needle then False
      else if match_ci up (a # hay) needle then True else search_ci up needle hay)"

definition contains_ci :: "('a \<Rightarrow> 'a) \<Rightarrow> 'a list \<Rightarrow> 'a list \<Rightarrow> bool" where
  "contains_ci up haystack needle =
     (if needle = [] \<or> length haystack < length needle then False else search_ci up needle haystack)"

definition ansi_contains_ci :: "string \<Rightarrow> string \<Rightarrow> bool" where
  "ansi_contains_ci = contains_ci ansi_upper"

definition wide_contains_ci_len :: "u16 list \<Rightarrow> nat \<Rightarrow> u16 list \<Rightarrow> bool" where
  "wide_contains_ci_len haystack hlen needle = contains_ci wide_upper (take hlen haystack) needle"

definition wide_contains_ci :: "u16 list \<Rightarrow> u16 list \<Rightarrow> bool" where
  "wide_contains_ci haystack needle = wide_contains_ci_len haystack (length haystack) needle"

fun starts_with_ci :: "('a \<Rightarrow> 'a) \<Rightarrow> 'a list \<Rightarrow> 'a list \<Rightarrow> bool" where
  "starts_with_ci up s [] = True"
| "starts_with_ci up [] (b # p) = False"
| "starts_with_ci up (a # s) (b # p) = (if up a \<noteq> up b then False else starts_with_ci up s p)"

definition ansi_starts_with_ci :: "string \<Rightarrow> string \<Rightarrow> bool" where
  "ansi_starts_with_ci = starts_with_ci ansi_upper"

definition wide_starts_with_ci :: "u16 list \<Rightarrow> u16 list \<Rightarrow> bool" where
  "wide_starts_with_ci = starts_with_ci wide_upper"

text \<open>The text from the last separator on, if there is one.\<close>

fun last_separator :: "u16 list \<Rightarrow> u16 list option \<Rightarrow> u16 list option" where
  "last_separator [] sep = sep"
| "last_separator (c # p) sep = last_separator p (if c = 0x5C \<or> c = 0x2F then Some (c # p) else sep)"

definition basename_w :: "u16 list \<Rightarrow> u16 list" where
  "basename_w path = (case last_separator path None of None \<Rightarrow> path | Some s \<Rightarrow> tl s)"

text \<open>\<open>GetEnvironmentVariable\<close> returns the length of a value that fits and the size it needs otherwise.\<close>

definition env_length :: "'a list option \<Rightarrow> nat \<Rightarrow> nat" where
  "env_length value cap = (case value of None \<Rightarrow> 0 | Some v \<Rightarrow> if length v < cap then length v else length v + 1)"

definition get_env_path :: "u16 list option \<Rightarrow> nat \<Rightarrow> u16 list option" where
  "get_env_path value out_len =
     (let len = env_length value out_len in if 0 < len \<and> len < out_len then value else None)"

definition is_cef_subprocess :: "string option \<Rightarrow> bool" where
  "is_cef_subprocess cmdline = (case cmdline of None \<Rightarrow> False | Some c \<Rightarrow> ansi_contains_ci c ''--type='')"

definition wide :: "string \<Rightarrow> u16 list" where "wide s = map of_char s"

text \<open>The path of the program; \<open>GetModuleFileNameW\<close> returns 260 when it does not fit.\<close>

definition running_as_wallpaper64 :: "u16 list \<Rightarrow> bool" where
  "running_as_wallpaper64 path =
     (let len = min (length path) 260
      in if len = 0 \<or> 260 \<le> len then False else wide_contains_ci path (wide ''wallpaper64.exe''))"

section \<open>Started processes (spawn.c)\<close>

record 'a create_process =
  cp_app :: "'a list option"
  cp_cmdline :: "'a list option"
  cp_cwd :: "'a list option"

definition scale_flag :: string where "scale_flag = '' --force-device-scale-factor=''"

text \<open>
  The functions for the two kinds of text differ in the letters (\<open>up\<close>) and in how the constants and the
  variable are written (\<open>conv\<close>).
\<close>

definition is_wallpaperui :: "('a \<Rightarrow> 'a) \<Rightarrow> (string \<Rightarrow> 'a list) \<Rightarrow> 'a create_process \<Rightarrow> bool" where
  "is_wallpaperui up conv c \<longleftrightarrow>
     (case cp_app c of None \<Rightarrow> False | Some a \<Rightarrow> contains_ci up a (conv ''wallpaperui.exe'')) \<or>
     (case cp_cmdline c of None \<Rightarrow> False | Some l \<Rightarrow> contains_ci up l (conv ''wallpaperui.exe''))"

text \<open>\<^term>\<open>None\<close> where a text is longer than the buffer it is written to.\<close>

definition into_buffer :: "nat \<Rightarrow> 'a list \<Rightarrow> 'a list option" where
  "into_buffer cap content = (if length content < cap then Some content else None)"

definition patch_cmdline ::
  "('a \<Rightarrow> 'a) \<Rightarrow> (string \<Rightarrow> 'a list) \<Rightarrow> ('a list \<Rightarrow> 'a list) \<Rightarrow> string option \<Rightarrow> 'a create_process \<Rightarrow> 'a create_process option" where
  "patch_cmdline up conv wsprintf scale c =
     (case cp_cmdline c of
        None \<Rightarrow> Some c
      | Some l \<Rightarrow>
          let scale_len = env_length scale 32
          in if is_wallpaperui up conv c \<and> 0 < scale_len \<and> scale_len < 32
             then map_option (\<lambda>l'. c\<lparr>cp_cmdline := Some l'\<rparr>) (into_buffer 1024 (wsprintf (l @ conv scale_flag @ conv (the scale))))
             else Some c)"

definition spawn_log :: "string \<Rightarrow> string \<Rightarrow> string \<Rightarrow> string \<Rightarrow> bool \<Rightarrow> u32 \<Rightarrow> u32 \<Rightarrow> string" where
  "spawn_log fn app cmdline cwd ok err pid =
     fn @ '': app='' @ app @ '' cmdline='' @ cmdline @ '' cwd='' @ cwd @
     '' -> ok='' @ (if ok then ''1'' else ''0'') @ '' err='' @ show_u32 (if ok then 0 else err) @
     '' pid='' @ show_u32 (if ok then pid else 0)"

definition or_null :: "string option \<Rightarrow> string" where
  "or_null s = (case s of None \<Rightarrow> ''(null)'' | Some t \<Rightarrow> t)"

text \<open>
  What the real function is called with and its answer (success, error, process number). The log line goes
  into a buffer of 768 bytes.
\<close>

definition fake_CreateProcessA ::
  "(string \<Rightarrow> string) \<Rightarrow> string option \<Rightarrow> (char create_process \<Rightarrow> bool \<times> u32 \<times> u32) option \<Rightarrow> char create_process \<Rightarrow>
   (bool \<times> char create_process \<times> string) option" where
  "fake_CreateProcessA wsprintf scale real_fn c =
     (case patch_cmdline ansi_upper id wsprintf scale c of
        None \<Rightarrow> None
      | Some c' \<Rightarrow>
          (case (case real_fn of None \<Rightarrow> (False, 0, 0) | Some f \<Rightarrow> f c') of
             (ok, err, pid) \<Rightarrow>
               map_option (\<lambda>line. (ok, c', line))
                 (into_buffer 768 (wsprintf (spawn_log ''fake_CreateProcessA'' (or_null (cp_app c')) (or_null (cp_cmdline c'))
                    (or_null (cp_cwd c')) ok err pid)))))"

text \<open>\<open>narrow\<close> is what a buffer of some size holds after \<open>WideCharToMultiByte\<close>; an empty one is logged as missing.\<close>

definition narrow_or_null :: "(u16 list \<Rightarrow> nat \<Rightarrow> string) \<Rightarrow> nat \<Rightarrow> u16 list option \<Rightarrow> string" where
  "narrow_or_null narrow cap s =
     (let buf = (case s of None \<Rightarrow> [] | Some t \<Rightarrow> narrow t cap) in if buf = [] then ''(null)'' else buf)"

definition fake_CreateProcessW ::
  "(u16 list \<Rightarrow> u16 list) \<Rightarrow> (string \<Rightarrow> string) \<Rightarrow> (u16 list \<Rightarrow> nat \<Rightarrow> string) \<Rightarrow> string option \<Rightarrow>
   (u16 create_process \<Rightarrow> bool \<times> u32 \<times> u32) option \<Rightarrow> u16 create_process \<Rightarrow> (bool \<times> u16 create_process \<times> string) option" where
  "fake_CreateProcessW wsprintfW wsprintf narrow scale real_fn c =
     (case patch_cmdline wide_upper wide wsprintfW scale c of
        None \<Rightarrow> None
      | Some c' \<Rightarrow>
          (case (case real_fn of None \<Rightarrow> (False, 0, 0) | Some f \<Rightarrow> f c') of
             (ok, err, pid) \<Rightarrow>
               map_option (\<lambda>line. (ok, c', line))
                 (into_buffer 768 (wsprintf (spawn_log ''fake_CreateProcessW'' (narrow_or_null narrow 260 (cp_app c'))
                    (narrow_or_null narrow 512 (cp_cmdline c')) (narrow_or_null narrow 260 (cp_cwd c')) ok err pid)))))"

section \<open>The windows of the desktop (progman.c)\<close>

record window =
  wn_class :: string
  wn_title :: string
  wn_child :: bool
  wn_rect :: "int \<times> int \<times> int \<times> int"
  wn_parent :: nat

record progman =
  pg_progman :: nat
  pg_icon_workerw :: nat
  pg_defview :: nat
  pg_empty_workerw :: nat
  pg_created :: "window list"
  pg_raised :: "(nat \<times> nat) list"

text \<open>Making a window: \<open>create\<close> answers with its handle, 0 where it fails.\<close>

definition make_window :: "(window list \<Rightarrow> window \<Rightarrow> nat) \<Rightarrow> window \<Rightarrow> progman \<Rightarrow> nat \<times> progman" where
  "make_window create win st = (create (pg_created st) win, st\<lparr>pg_created := pg_created st @ [win]\<rparr>)"

definition ensure_fake_progman_family ::
  "(window list \<Rightarrow> window \<Rightarrow> nat) \<Rightarrow> (nat \<Rightarrow> bool) \<Rightarrow> int \<times> int \<times> int \<times> int \<Rightarrow> progman \<Rightarrow> progman" where
  "ensure_fake_progman_family create is_window metrics st =
     (if pg_progman st \<noteq> 0 \<and> is_window (pg_progman st) \<and> pg_empty_workerw st \<noteq> 0 \<and> is_window (pg_empty_workerw st) then st
      else
        let (progman, st1) = make_window create
              \<lparr>wn_class = ''Progman'', wn_title = ''Program Manager'', wn_child = False, wn_rect = (0, 0, 0, 0), wn_parent = 0\<rparr> st;
            (icon, st2) = make_window create
              \<lparr>wn_class = ''WorkerW'', wn_title = '''', wn_child = False, wn_rect = (0, 0, 0, 0), wn_parent = 0\<rparr> st1;
            (defview, st3) = make_window create
              \<lparr>wn_class = ''SHELLDLL_DefView'', wn_title = '''', wn_child = True, wn_rect = (0, 0, 0, 0), wn_parent = icon\<rparr> st2;
            (vx, vy, sw, sh) = metrics;
            (empty, st4) = make_window create
              \<lparr>wn_class = ''WorkerW'', wn_title = '''', wn_child = False,
               wn_rect = (vx, vy, if sw \<le> 0 then 1920 else sw, if sh \<le> 0 then 1080 else sh), wn_parent = 0\<rparr> st3
        in st4\<lparr>pg_progman := progman, pg_icon_workerw := icon, pg_defview := defview, pg_empty_workerw := empty\<rparr>)"

definition reassert_workerw_zorder :: "progman \<Rightarrow> progman" where
  "reassert_workerw_zorder st =
     (if pg_empty_workerw st \<noteq> 0 \<and> pg_icon_workerw st \<noteq> 0
      then st\<lparr>pg_raised := pg_raised st @ [(pg_empty_workerw st, pg_icon_workerw st)]\<rparr> else st)"

text \<open>A class that is a number, not a text, is \<^term>\<open>None\<close> here, as is one that is not given.\<close>

definition fake_FindWindowW ::
  "(window list \<Rightarrow> window \<Rightarrow> nat) \<Rightarrow> (nat \<Rightarrow> bool) \<Rightarrow> int \<times> int \<times> int \<times> int \<Rightarrow> (string option \<Rightarrow> string option \<Rightarrow> nat) option \<Rightarrow>
   string option \<Rightarrow> string option \<Rightarrow> progman \<Rightarrow> nat \<times> progman" where
  "fake_FindWindowW create is_window metrics real_fn class_name window_name st =
     (if class_name = Some ''Progman'' \<and> window_name = None
      then let st1 = reassert_workerw_zorder (ensure_fake_progman_family create is_window metrics st) in (pg_progman st1, st1)
      else (case real_fn of None \<Rightarrow> 0 | Some f \<Rightarrow> f class_name window_name, st))"

section \<open>The exports of the replaced library (dwm_exports.c)\<close>

definition S_OK :: u32 where "S_OK = 0"
definition E_NOTIMPL :: u32 where "E_NOTIMPL = 0x80004001"

text \<open>The real functions, where they were found; the arguments are passed on.\<close>

record 'a dwm_functions =
  dwm_enabled :: "(bool option \<Rightarrow> u32 \<times> bool option) option"
  dwm_get :: "('a \<Rightarrow> u32) option"
  dwm_set :: "('a \<Rightarrow> u32) option"
  dwm_proc :: "('a \<Rightarrow> u32) option"

definition no_dwm :: "'a dwm_functions" where
  "no_dwm = \<lparr>dwm_enabled = None, dwm_get = None, dwm_set = None, dwm_proc = None\<rparr>"

definition load_real_dwmapi :: "u16 list option \<Rightarrow> (u16 list \<Rightarrow> 'a dwm_functions option) \<Rightarrow> 'a dwm_functions" where
  "load_real_dwmapi orig load =
     (let len = env_length orig 260
      in if len = 0 \<or> 260 \<le> len then no_dwm else case load (the orig) of None \<Rightarrow> no_dwm | Some fns \<Rightarrow> fns)"

definition DwmIsCompositionEnabled :: "'a dwm_functions \<Rightarrow> bool option \<Rightarrow> u32 \<times> bool option" where
  "DwmIsCompositionEnabled fns enabled =
     (case dwm_enabled fns of Some f \<Rightarrow> f enabled | None \<Rightarrow> (S_OK, map_option (\<lambda>_. True) enabled))"

definition DwmGetWindowAttribute :: "'a dwm_functions \<Rightarrow> 'a \<Rightarrow> u32" where
  "DwmGetWindowAttribute fns args = (case dwm_get fns of Some f \<Rightarrow> f args | None \<Rightarrow> E_NOTIMPL)"

definition DwmSetWindowAttribute :: "'a dwm_functions \<Rightarrow> 'a \<Rightarrow> u32" where
  "DwmSetWindowAttribute fns args = (case dwm_set fns of Some f \<Rightarrow> f args | None \<Rightarrow> E_NOTIMPL)"

definition DwmDefWindowProc :: "'a dwm_functions \<Rightarrow> 'a \<Rightarrow> u32" where
  "DwmDefWindowProc fns args = (case dwm_proc fns of Some f \<Rightarrow> f args | None \<Rightarrow> 0)"

section \<open>The table of imported functions (imports.c)\<close>

record resolve_state =
  rv_slots :: "(string \<times> nat) list"
  rv_failures :: nat
  rv_failed :: "(string \<times> string) list"

text \<open>\<^term>\<open>None\<close> where the array of 16 failures would be overrun.\<close>

definition note_failure :: "string \<times> string \<Rightarrow> resolve_state \<Rightarrow> resolve_state option" where
  "note_failure entry st =
     (if rv_failures st < 16
      then if length (rv_failed st) < 16
           then Some (st\<lparr>rv_failed := rv_failed st @ [entry], rv_failures := rv_failures st + 1\<rparr>) else None
      else Some (st\<lparr>rv_failures := rv_failures st + 1\<rparr>))"

definition resolve_entry ::
  "(string \<Rightarrow> nat option) \<Rightarrow> (nat \<Rightarrow> string \<Rightarrow> nat option) \<Rightarrow> resolve_state \<Rightarrow> string \<times> string \<Rightarrow> resolve_state option" where
  "resolve_entry load_library get_proc st entry =
     (case load_library (fst entry) of
        None \<Rightarrow> note_failure entry st
      | Some module \<Rightarrow>
          (case get_proc module (snd entry) of
             None \<Rightarrow> note_failure entry st
           | Some addr \<Rightarrow> Some (st\<lparr>rv_slots := rv_slots st @ [(snd entry, addr)]\<rparr>)))"

definition win32_resolve_all ::
  "pe_bytes option \<Rightarrow> (nat \<Rightarrow> string \<Rightarrow> nat option) \<Rightarrow> (nat \<Rightarrow> nat \<Rightarrow> string \<Rightarrow> nat option) \<Rightarrow> (string \<times> string) list \<Rightarrow>
   resolve_state option" where
  "win32_resolve_all kernel32 call_load call_get table =
     (case (win32_bootstrap_find_export kernel32 (map of_char ''GetProcAddress''),
            win32_bootstrap_find_export kernel32 (map of_char ''LoadLibraryA'')) of
        (Some (Some gpa), Some (Some lla)) \<Rightarrow>
          foldM (resolve_entry (call_load lla) (call_get gpa)) \<lparr>rv_slots = [], rv_failures = 0, rv_failed = []\<rparr> table
      | (Some _, Some _) \<Rightarrow> Some \<lparr>rv_slots = [], rv_failures = 0, rv_failed = []\<rparr>
      | _ \<Rightarrow> None)"

section \<open>Facts on text\<close>

lemma match_ci_prefix: "match_ci up hay needle \<longleftrightarrow> prefix (map up needle) (map up hay)"
  by (induction up hay needle rule: match_ci.induct) auto

lemma search_ci_sublist: "needle \<noteq> [] \<Longrightarrow> search_ci up needle hay \<longleftrightarrow> sublist (map up needle) (map up hay)"
proof (induction up needle hay rule: search_ci.induct)
  case (2 up needle a hay)
  have "\<not> sublist (map up needle) (map up (a # hay))" if "length (a # hay) < length needle"
    using that sublist_length_le [of "map up needle" "map up (a # hay)"] by auto
  moreover have "sublist (map up needle) (map up (a # hay)) \<longleftrightarrow>
      prefix (map up needle) (map up (a # hay)) \<or> sublist (map up needle) (map up hay)"
    by (simp add: sublist_Cons_right)
  ultimately show ?case using 2 by (auto simp: match_ci_prefix simp del: list.map)
qed simp

text \<open>
  The searches find exactly the texts that contain the other one when letters are compared without
  their case, at any place; an empty text is found nowhere.
\<close>

theorem contains_ci_iff:
  "contains_ci up haystack needle \<longleftrightarrow> needle \<noteq> [] \<and> sublist (map up needle) (map up haystack)"
proof -
  have "\<not> sublist (map up needle) (map up haystack)" if "length haystack < length needle"
    using that sublist_length_le [of "map up needle" "map up haystack"] by auto
  then show ?thesis by (auto simp: contains_ci_def search_ci_sublist)
qed

lemma starts_with_ci_iff: "starts_with_ci up s p \<longleftrightarrow> prefix (map up p) (map up s)"
  by (induction up s p rule: starts_with_ci.induct) auto

lemma last_separator_split:
  assumes "last_separator p sep = r"
  shows "(r = sep \<and> 0x5C \<notin> set p \<and> 0x2F \<notin> set p) \<or>
    (\<exists>dir c name. p = dir @ c # name \<and> (c = 0x5C \<or> c = 0x2F) \<and> 0x5C \<notin> set name \<and> 0x2F \<notin> set name \<and> r = Some (c # name))"
  using assms
proof (induction p arbitrary: sep)
  case (Cons a p)
  show ?case
  proof (cases "\<exists>dir c name. p = dir @ c # name \<and> (c = 0x5C \<or> c = 0x2F) \<and> 0x5C \<notin> set name \<and> 0x2F \<notin> set name \<and> r = Some (c # name)")
    case True
    then show ?thesis by (metis append_Cons)
  next
    case False
    have "last_separator p (if a = 0x5C \<or> a = 0x2F then Some (a # p) else sep) = r" using Cons.prems by simp
    from Cons.IH [OF this] False have n: "r = (if a = 0x5C \<or> a = 0x2F then Some (a # p) else sep)" "0x5C \<notin> set p" "0x2F \<notin> set p"
      by blast+
    show ?thesis
    proof (cases "a = 0x5C \<or> a = 0x2F")
      case True
      with n show ?thesis by (intro disjI2 exI [of _ "[]"]) auto
    qed (use n in auto)
  qed
qed simp

lemma basename_split:
  "\<exists>dir. path = dir @ basename_w path \<and> 0x5C \<notin> set (basename_w path) \<and> 0x2F \<notin> set (basename_w path) \<and>
     (dir = [] \<or> last dir = 0x5C \<or> last dir = 0x2F)"
proof -
  consider (none) "last_separator path None = None" "0x5C \<notin> set path" "0x2F \<notin> set path"
    | (sep) dir and c :: u16 and name where "path = dir @ c # name" "c = 0x5C \<or> c = 0x2F" "0x5C \<notin> set name" "0x2F \<notin> set name"
      "last_separator path None = Some (c # name)"
    using last_separator_split [of path None, OF refl] by fast
  then show ?thesis
  proof cases
    case (sep dir c name)
    then show ?thesis by (intro exI [of _ "dir @ [c]"]) (auto simp: basename_w_def)
  qed (simp add: basename_w_def)
qed

section \<open>Facts on started processes\<close>

lemma env_length_fits: "scale = Some v \<Longrightarrow> (0 < env_length scale 32 \<and> env_length scale 32 < 32) \<longleftrightarrow> v \<noteq> [] \<and> length v < 32"
  by (auto simp: env_length_def)

text \<open>
  The scale factor is added to the command line of the user interface and to no other: the program
  is started with its command line followed by the factor that is set, if both fit the buffer of 1024
  characters; every other process is started as it was asked for.
\<close>

theorem scale_added:
  assumes "\<And>s. length s < 1024 \<Longrightarrow> wsprintf s = s"
    and "cp_cmdline c = Some l" and "length l + length (conv scale_flag) + length (conv v) < 1024"
  shows "patch_cmdline up conv wsprintf (Some v) c =
    Some (if is_wallpaperui up conv c \<and> v \<noteq> [] \<and> length v < 32
          then c\<lparr>cp_cmdline := Some (l @ conv scale_flag @ conv v)\<rparr> else c)"
  using assms env_length_fits [of "Some v" v]
  by (auto simp: patch_cmdline_def Let_def into_buffer_def)

text \<open>
  The log line of a started process overruns its buffer of 768 bytes when it is that long, which
  \<open>wsprintf\<close> allows: up to 1023 characters are written.
\<close>

theorem spawn_log_overruns:
  assumes "\<And>s. length s < 1024 \<Longrightarrow> wsprintf s = s"
    and "patch_cmdline ansi_upper id wsprintf scale c = Some c'"
    and "(case real_fn of None \<Rightarrow> (False, 0, 0) | Some f \<Rightarrow> f c') = (ok, err, pid)"
    and "line = spawn_log ''fake_CreateProcessA'' (or_null (cp_app c')) (or_null (cp_cmdline c')) (or_null (cp_cwd c')) ok err pid"
    and "length line < 1024"
  shows "fake_CreateProcessA wsprintf scale real_fn c = None \<longleftrightarrow> 768 \<le> length line"
  using assms by (auto simp: fake_CreateProcessA_def into_buffer_def)

section \<open>Facts on the desktop windows\<close>

lemma family_alive:
  "pg_progman st \<noteq> 0 \<Longrightarrow> is_window (pg_progman st) \<Longrightarrow> pg_empty_workerw st \<noteq> 0 \<Longrightarrow> is_window (pg_empty_workerw st) \<Longrightarrow>
   ensure_fake_progman_family create is_window metrics st = st"
  by (simp add: ensure_fake_progman_family_def)

text \<open>
  The desktop window stays the same: once the window was found, and as long as it and the worker window exist,
  asking again returns the same window and makes no other.
\<close>

theorem progman_found_again:
  assumes "fake_FindWindowW create is_window metrics real_fn (Some ''Progman'') None st = (hwnd, st1)"
    and "hwnd \<noteq> 0" and "is_window2 hwnd" and "pg_empty_workerw st1 \<noteq> 0" and "is_window2 (pg_empty_workerw st1)"
  shows "\<exists>st2. fake_FindWindowW create2 is_window2 metrics2 real_fn (Some ''Progman'') None st1 = (hwnd, st2) \<and>
    pg_created st2 = pg_created st1"
proof -
  have "pg_progman st1 = hwnd" using assms(1) by (auto simp: fake_FindWindowW_def Let_def)
  with assms(2-5) have "ensure_fake_progman_family create2 is_window2 metrics2 st1 = st1" by (simp add: family_alive)
  with \<open>pg_progman st1 = hwnd\<close> show ?thesis by (simp add: fake_FindWindowW_def reassert_workerw_zorder_def Let_def)
qed

section \<open>Facts on the imported functions\<close>

definition resolves :: "(string \<Rightarrow> nat option) \<Rightarrow> (nat \<Rightarrow> string \<Rightarrow> nat option) \<Rightarrow> string \<times> string \<Rightarrow> nat option" where
  "resolves load_library get_proc entry = Option.bind (load_library (fst entry)) (\<lambda>module. get_proc module (snd entry))"

lemma resolve_entry_eq:
  "resolve_entry load_library get_proc st entry =
     (case resolves load_library get_proc entry of
        None \<Rightarrow> note_failure entry st | Some addr \<Rightarrow> Some (st\<lparr>rv_slots := rv_slots st @ [(snd entry, addr)]\<rparr>))"
  by (simp add: resolve_entry_def resolves_def split: option.splits)

text \<open>
  Resolving the table fills exactly the slots whose library and function are found, in the order of
  the table, counts the others, and keeps the first 16 of them: the array of failures is never overrun.
\<close>

theorem resolve_all_exact:
  assumes "length (rv_failed st) = min 16 (rv_failures st)"
  shows "\<exists>st'. foldM (resolve_entry load_library get_proc) st table = Some st' \<and>
    rv_slots st' = rv_slots st @ List.map_filter (\<lambda>e. map_option (Pair (snd e)) (resolves load_library get_proc e)) table \<and>
    rv_failures st' = rv_failures st + length (filter (\<lambda>e. resolves load_library get_proc e = None) table) \<and>
    rv_failed st' = take 16 (rv_failed st @ filter (\<lambda>e. resolves load_library get_proc e = None) table)"
  using assms
proof (induction table arbitrary: st)
  case Nil
  then show ?case by (simp add: map_filter_simps)
next
  case (Cons e table)
  show ?case
  proof (cases "resolves load_library get_proc e")
    case (Some addr)
    with Cons.IH [of "st\<lparr>rv_slots := rv_slots st @ [(snd e, addr)]\<rparr>"] Cons.prems show ?thesis
      by (simp add: resolve_entry_eq map_filter_simps)
  next
    case None
    let ?st = "if rv_failures st < 16 then st\<lparr>rv_failed := rv_failed st @ [e], rv_failures := rv_failures st + 1\<rparr>
      else st\<lparr>rv_failures := rv_failures st + 1\<rparr>"
    have n: "note_failure e st = Some ?st" using Cons.prems by (simp add: note_failure_def)
    have "length (rv_failed ?st) = min 16 (rv_failures ?st)" using Cons.prems by (simp add: min_def split: if_splits)
    from Cons.IH [OF this] obtain st' where r: "foldM (resolve_entry load_library get_proc) ?st table = Some st'"
      "rv_slots st' = rv_slots ?st @ List.map_filter (\<lambda>e. map_option (Pair (snd e)) (resolves load_library get_proc e)) table"
      "rv_failures st' = rv_failures ?st + length (filter (\<lambda>e. resolves load_library get_proc e = None) table)"
      "rv_failed st' = take 16 (rv_failed ?st @ filter (\<lambda>e. resolves load_library get_proc e = None) table)" by blast
    have "take 16 (rv_failed ?st @ xs) = take 16 (rv_failed st @ e # xs)" for xs
      using Cons.prems by (cases "rv_failures st < 16") simp_all
    moreover have "resolve_entry load_library get_proc st e = Some ?st" using None n by (simp add: resolve_entry_eq)
    moreover have "rv_slots ?st = rv_slots st" "rv_failures ?st = rv_failures st + 1" by simp_all
    ultimately show ?thesis using r None by (intro exI [of _ st']) (simp add: map_filter_simps)
  qed
qed

section \<open>Examples\<close>

definition demo_ui :: "char create_process" where
  "demo_ui = \<lparr>cp_app = None, cp_cmdline = Some ''C:/WallpaperUI.exe -x'', cp_cwd = None\<rparr>"

lemma demo_is_ui: "is_wallpaperui ansi_upper id demo_ui"
  by code_simp

lemma scale_added_witness:
  "patch_cmdline ansi_upper id (take 1023) (Some ''1.5'') demo_ui =
     Some (demo_ui\<lparr>cp_cmdline := Some ''C:/WallpaperUI.exe -x --force-device-scale-factor=1.5''\<rparr>)"
  using scale_added [where wsprintf = "take 1023" and c = demo_ui and v = "''1.5''" and up = ansi_upper and conv = id]
  by (simp add: demo_is_ui) (simp add: demo_ui_def scale_flag_def)

text \<open>A program whose path has 700 characters.\<close>

definition demo_long :: "char create_process" where
  "demo_long = \<lparr>cp_app = Some (replicate 700 CHR ''a''), cp_cmdline = None, cp_cwd = None\<rparr>"

lemma demo_zero: "show_nat 0 = ''0''"
  by code_simp

lemma spawn_log_overruns_witness: "fake_CreateProcessA (take 1023) None None demo_long = None"
proof -
  let ?line = "spawn_log ''fake_CreateProcessA'' (or_null (cp_app demo_long)) (or_null (cp_cmdline demo_long))
    (or_null (cp_cwd demo_long)) False 0 0"
  have "patch_cmdline ansi_upper id (take 1023) None demo_long = Some demo_long" by (simp add: patch_cmdline_def demo_long_def)
  moreover have "length ?line = 771" by (simp add: spawn_log_def or_null_def demo_long_def demo_zero)
  ultimately show ?thesis
    using spawn_log_overruns [where wsprintf = "take 1023" and scale = None and c = demo_long and c' = demo_long
        and real_fn = None and ok = False and err = 0 and pid = 0 and line = ?line] by simp
qed

lemma progman_found_again_witness:
  "\<exists>st1 st2. fake_FindWindowW (\<lambda>made win. length made + 1) (\<lambda>_. True) (0, 0, 0, 0) None (Some ''Progman'') None
       \<lparr>pg_progman = 0, pg_icon_workerw = 0, pg_defview = 0, pg_empty_workerw = 0, pg_created = [], pg_raised = []\<rparr> = (1, st1) \<and>
     fake_FindWindowW (\<lambda>_ _. 9) (\<lambda>_. True) (0, 0, 0, 0) None (Some ''Progman'') None st1 = (1, st2) \<and> pg_created st2 = pg_created st1"
proof -
  let ?st = "\<lparr>pg_progman = 0, pg_icon_workerw = 0, pg_defview = 0, pg_empty_workerw = 0, pg_created = [], pg_raised = []\<rparr>"
  obtain st1 where f: "fake_FindWindowW (\<lambda>made win. length made + 1) (\<lambda>_. True) (0, 0, 0, 0) None (Some ''Progman'') None ?st = (1, st1)"
    "pg_empty_workerw st1 \<noteq> 0"
    by (simp add: fake_FindWindowW_def ensure_fake_progman_family_def reassert_workerw_zorder_def make_window_def Let_def)
  from progman_found_again [where ?is_window2.0 = "\<lambda>_. True" and ?create2.0 = "\<lambda>_ _. 9" and ?metrics2.0 = "(0, 0, 0, 0)", OF f(1) _ _ f(2)] f(1)
  show ?thesis by blast
qed

lemma resolve_all_exact_witness:
  "\<exists>st'. foldM (resolve_entry (\<lambda>d. if d = ''a.dll'' then Some 1 else None) (\<lambda>m n. Some 2)) \<lparr>rv_slots = [], rv_failures = 0, rv_failed = []\<rparr>
       [(''a.dll'', ''f''), (''b.dll'', ''g'')] = Some st' \<and> rv_slots st' = [(''f'', 2)] \<and> rv_failures st' = 1 \<and> rv_failed st' = [(''b.dll'', ''g'')]"
  using resolve_all_exact [of "\<lparr>rv_slots = [], rv_failures = 0, rv_failed = []\<rparr>" "\<lambda>d. if d = ''a.dll'' then Some 1 else None" "\<lambda>m n. Some 2"
      "[(''a.dll'', ''f''), (''b.dll'', ''g'')]"]
  by (simp add: resolves_def map_filter_simps)

end
