(* ===== verification/WP_Gnome.thy ===== *)
theory WP_Gnome
  imports WP_Capture_Socket WP_Ctl_Protocol
begin

text \<open>
  The GNOME portal (\<^verbatim>\<open>programs/wallpiper-portal-gnome/native/src\<close>), which runs inside the
  Shell: the monitors (\<^verbatim>\<open>monitor_geometry.c\<close>), the import of a buffer
  (\<^verbatim>\<open>egl_import.c\<close>), the capture listener (\<^verbatim>\<open>capture_listener.c\<close>), the control listener
  (\<^verbatim>\<open>ctl_listener.c\<close>), the stacking of the actors (\<^verbatim>\<open>actor_stacking.c\<close>) and the start and
  stop of the portal (\<^verbatim>\<open>wallpiper_portal.c\<close>).

  The libraries the portal calls are arguments: \<open>glib\<close> holds the string functions, \<open>clutter\<close> what
  the calls on the parent do to its list of children (bottom first), \<open>egl\<close> what EGL and Cogl
  answer, \<open>backend\<close> the monitors of the compositor and \<open>xrandr\<close> the outputs of the X server.
  Actors and textures of the portal are numbered in the order in which they are created. What the
  portal does to the outside is recorded in \<open>gn_world\<close>: the descriptors it closes, those it gives to
  EGL, the textures whose reference it drops, the actors it destroys, the calls on actors, the
  signals and sources that are connected. A call through a function pointer that EGL did not provide
  is \<^term>\<open>None\<close>.
\<close>

section \<open>Constants\<close>

definition GN_CAPTURE_SLOT_COUNT :: nat where [simp]: "GN_CAPTURE_SLOT_COUNT = 3"
definition GN_MAX_CAPTURE_CHANNELS :: nat where [simp]: "GN_MAX_CAPTURE_CHANNELS = 4"
definition MAX_CAPTURE_SLOTS :: nat where
  [simp]: "MAX_CAPTURE_SLOTS = GN_MAX_CAPTURE_CHANNELS * GN_CAPTURE_SLOT_COUNT"
definition MAX_RECV_FDS :: nat where [simp]: "MAX_RECV_FDS = 2"

section \<open>The libraries\<close>

record glib =
  gl_strstrip :: "string \<Rightarrow> string"
  gl_strsplit :: "string \<Rightarrow> string list"
  gl_strtoull :: "string \<Rightarrow> u64"
  gl_strtoll :: "string \<Rightarrow> int"

datatype actor = Shell_actor nat | Own_actor nat

type_synonym child = "actor \<times> string"

record clutter =
  cl_insert_child_above :: "child list \<Rightarrow> child \<Rightarrow> actor \<Rightarrow> child list"
  cl_add_child :: "child list \<Rightarrow> child \<Rightarrow> child list"
  cl_set_child_above_sibling :: "child list \<Rightarrow> actor \<Rightarrow> actor \<Rightarrow> child list"
  cl_destroy :: "child list \<Rightarrow> actor \<Rightarrow> child list"

record egl =
  eg_create_image :: bool
  eg_destroy_image :: bool
  eg_create_sync :: bool
  eg_client_wait_sync :: bool
  eg_sync_of :: "fd \<Rightarrow> bool"
  eg_image_of :: "(string \<times> int) list \<Rightarrow> bool"
  eg_texture_of :: "u32 \<Rightarrow> u32 \<Rightarrow> bool"

record meta_monitor =
  mm_connector :: "string option"
  mm_mode :: "(int \<times> int) option"

record logical_monitor =
  lm_x :: i32
  lm_y :: i32
  lm_width :: i32
  lm_height :: i32
  lm_scale :: real64
  lm_monitors :: "meta_monitor list"

record monitor_manager =
  mgr_primary :: "logical_monitor option"
  mgr_logical_monitors :: "logical_monitor list"

type_synonym backend = "monitor_manager option"

record xrr_crtc =
  xc_x :: i32
  xc_y :: i32
  xc_width :: u32
  xc_height :: u32
  xc_rotation :: u16

record xrr_output =
  xo_name :: string
  xo_connected :: bool
  xo_has_crtc :: bool
  xo_crtc_info :: "xrr_crtc option"

text \<open>The screen resources: none at all, or the outputs, each with its information where there is one.\<close>

record xrandr =
  xr_open_display :: bool
  xr_resources :: "xrr_output option list option"

section \<open>Monitors\<close>

definition le_zero :: "real64 \<Rightarrow> bool" where
  "le_zero v = (case v of Fin x \<Rightarrow> x \<le> 0 | Inf neg \<Rightarrow> neg | Nan \<Rightarrow> False)"

definition geometry_from_logical_monitor :: "logical_monitor \<Rightarrow> wp_monitor_geometry" where
  "geometry_from_logical_monitor lm =
     (let scale = (if le_zero (lm_scale lm) then Fin 1 else lm_scale lm);
          geometry = \<lparr>mg_x = lm_x lm, mg_y = lm_y lm, mg_width = lm_width lm, mg_height = lm_height lm,
                      mg_logical_width = lm_width lm, mg_logical_height = lm_height lm, mg_scale = scale\<rparr>
      in case lm_monitors lm of
           [] \<Rightarrow> geometry
         | monitor # _ \<Rightarrow>
             (case mm_mode monitor of
                None \<Rightarrow> geometry
              | Some (width, height) \<Rightarrow>
                  if 0 < width \<and> 0 < height
                  then geometry\<lparr>mg_width := word_of_int width, mg_height := word_of_int height\<rparr>
                  else geometry))"

definition gnome_fallback :: wp_monitor_geometry where
  "gnome_fallback = \<lparr>mg_x = 0, mg_y = 0, mg_width = 1920, mg_height = 1080, mg_logical_width = 1920,
                     mg_logical_height = 1080, mg_scale = Fin 1\<rparr>"

definition wallpiper_monitor_detect_primary :: "backend \<Rightarrow> wp_monitor_geometry" where
  "wallpiper_monitor_detect_primary backend =
     (case backend of
        None \<Rightarrow> gnome_fallback
      | Some manager \<Rightarrow>
          (case mgr_primary manager of
             Some lm \<Rightarrow> geometry_from_logical_monitor lm
           | None \<Rightarrow>
               (case mgr_logical_monitors manager of
                  [] \<Rightarrow> gnome_fallback
                | lm # _ \<Rightarrow> geometry_from_logical_monitor lm)))"

fun detect_loop :: "nat \<Rightarrow> logical_monitor list \<Rightarrow> wp_monitor_geometry list" where
  "detect_loop 0 ls = []"
| "detect_loop (Suc n) [] = []"
| "detect_loop (Suc n) (l # ls) = geometry_from_logical_monitor l # detect_loop n ls"

definition wallpiper_monitor_detect_all :: "backend \<Rightarrow> nat \<Rightarrow> wp_monitor_geometry list" where
  "wallpiper_monitor_detect_all backend max_count =
     (case backend of None \<Rightarrow> [] | Some manager \<Rightarrow> detect_loop max_count (mgr_logical_monitors manager))"

definition g_strlcpy :: "nat \<Rightarrow> string \<Rightarrow> string" where
  "g_strlcpy dest_size src = take (dest_size - 1) src"

definition connector_name :: "nat \<Rightarrow> logical_monitor \<Rightarrow> string" where
  "connector_name connector_name_len lm =
     (case lm_monitors lm of
        [] \<Rightarrow> []
      | monitor # _ \<Rightarrow>
          (case mm_connector monitor of None \<Rightarrow> [] | Some c \<Rightarrow> g_strlcpy connector_name_len c))"

fun detect_named_loop :: "nat \<Rightarrow> nat \<Rightarrow> logical_monitor list \<Rightarrow> (wp_monitor_geometry \<times> string) list" where
  "detect_named_loop len 0 ls = []"
| "detect_named_loop len (Suc n) [] = []"
| "detect_named_loop len (Suc n) (l # ls) =
     (geometry_from_logical_monitor l, connector_name len l) # detect_named_loop len n ls"

definition wallpiper_monitor_detect_all_named ::
  "backend \<Rightarrow> nat \<Rightarrow> nat \<Rightarrow> (wp_monitor_geometry \<times> string) list" where
  "wallpiper_monitor_detect_all_named backend connector_name_len max_count =
     (case backend of
        None \<Rightarrow> []
      | Some manager \<Rightarrow> detect_named_loop connector_name_len max_count (mgr_logical_monitors manager))"

text \<open>The display is opened once; \<open>Some\<close> is the outcome of that attempt.\<close>

definition get_x11_display :: "xrandr \<Rightarrow> bool option \<Rightarrow> bool \<times> bool option" where
  "get_x11_display xr tried =
     (case tried of Some dpy \<Rightarrow> (dpy, tried) | None \<Rightarrow> (xr_open_display xr, Some (xr_open_display xr)))"

definition RR_Rotate_90 :: u16 where "RR_Rotate_90 = 2"
definition RR_Rotate_270 :: u16 where "RR_Rotate_270 = 8"

fun output_loop :: "(xrr_crtc \<Rightarrow> bool) \<Rightarrow> nat \<Rightarrow> xrr_output option list \<Rightarrow> string option" where
  "output_loop p len [] = None"
| "output_loop p len (None # os) = output_loop p len os"
| "output_loop p len (Some out # os) =
     (if xo_connected out \<and> xo_has_crtc out
      then (case xo_crtc_info out of
              None \<Rightarrow> output_loop p len os
            | Some crtc \<Rightarrow> if p crtc then Some (g_strlcpy len (xo_name out)) else output_loop p len os)
      else output_loop p len os)"

definition output_with :: "(xrr_crtc \<Rightarrow> bool) \<Rightarrow> nat \<Rightarrow> xrandr \<Rightarrow> bool option \<Rightarrow> string option \<times> bool option" where
  "output_with p len xr tried =
     (case get_x11_display xr tried of (dpy, tried') \<Rightarrow>
        if \<not> dpy then (None, tried')
        else (case xr_resources xr of
                None \<Rightarrow> (None, tried')
              | Some outputs \<Rightarrow> (output_loop p len outputs, tried')))"

definition crtc_has_size :: "u32 \<Rightarrow> u32 \<Rightarrow> xrr_crtc \<Rightarrow> bool" where
  "crtc_has_size width height crtc \<longleftrightarrow>
     (xc_width crtc = width \<and> xc_height crtc = height) \<or>
     (xc_width crtc = height \<and> xc_height crtc = width \<and>
      and (xc_rotation crtc) (or RR_Rotate_90 RR_Rotate_270) \<noteq> 0)"

definition wallpiper_x11_output_for_size ::
  "u32 \<Rightarrow> u32 \<Rightarrow> nat \<Rightarrow> xrandr \<Rightarrow> bool option \<Rightarrow> string option \<times> bool option" where
  "wallpiper_x11_output_for_size width height name_out_len =
     output_with (crtc_has_size width height) name_out_len"

definition wallpiper_x11_output_for_position ::
  "i32 \<Rightarrow> i32 \<Rightarrow> nat \<Rightarrow> xrandr \<Rightarrow> bool option \<Rightarrow> string option \<times> bool option" where
  "wallpiper_x11_output_for_position x y name_out_len =
     output_with (\<lambda>crtc. xc_x crtc = x \<and> xc_y crtc = y) name_out_len"

definition wallpiper_monitor_geometry_to_json :: "wp_monitor_geometry \<Rightarrow> string" where
  "wallpiper_monitor_geometry_to_json g =
     ''{'' @ DQ # ''x'' @ DQ # '':'' @ show_i32 (mg_x g) @ '','' @ DQ # ''y'' @ DQ # '':'' @ show_i32 (mg_y g) @
     '','' @ DQ # ''width'' @ DQ # '':'' @ show_u32 (mg_width g) @
     '','' @ DQ # ''height'' @ DQ # '':'' @ show_u32 (mg_height g) @
     '','' @ DQ # ''logical_width'' @ DQ # '':'' @ show_u32 (mg_logical_width g) @
     '','' @ DQ # ''logical_height'' @ DQ # '':'' @ show_u32 (mg_logical_height g) @
     '','' @ DQ # ''scale'' @ DQ # '':'' @ fmt_g (mg_scale g) @ ''}''"

section \<open>State\<close>

record WallpiperCaptureSlot =
  gs_used :: bool
  gs_width :: u32
  gs_height :: u32
  gs_texture :: "nat option"

record WallpiperCaptureChannel =
  gc_active :: bool
  gc_display_actor :: "nat option"
  gc_slots :: "WallpiperCaptureSlot list"
  gc_monitor :: wp_monitor_geometry

record WallpiperPortalState =
  ps_channels :: "WallpiperCaptureChannel list"
  ps_debug_enabled :: bool
  ps_capture_socket_fd :: fd
  ps_ctl_socket_fd :: fd
  ps_meta_display :: bool
  ps_monitors_changed_handler :: bool

datatype actor_call =
    Set_position nat i32 i32
  | Set_size nat u32 u32
  | Show nat
  | Set_content nat nat

datatype hook = Monitors_changed | Restacked | Window_created | Capture_source | Ctl_source

record gn_world =
  gw_children :: "child list"
  gw_x11 :: "bool option"
  gw_next_actor :: nat
  gw_next_texture :: nat
  gw_closed :: "fd list"
  gw_waited :: "fd list"
  gw_unref :: "nat list"
  gw_destroyed :: "nat list"
  gw_calls :: "actor_call list"
  gw_content_refs :: nat
  gw_hooks :: "hook list"
  gw_unlinked :: "string list"

definition zero_geometry :: wp_monitor_geometry where
  "zero_geometry = \<lparr>mg_x = 0, mg_y = 0, mg_width = 0, mg_height = 0, mg_logical_width = 0,
                    mg_logical_height = 0, mg_scale = Fin 0\<rparr>"

definition gn_zero_slot :: WallpiperCaptureSlot where
  "gn_zero_slot = \<lparr>gs_used = False, gs_width = 0, gs_height = 0, gs_texture = None\<rparr>"

definition zero_channel :: WallpiperCaptureChannel where
  "zero_channel = \<lparr>gc_active = False, gc_display_actor = None,
                   gc_slots = replicate GN_CAPTURE_SLOT_COUNT gn_zero_slot, gc_monitor = zero_geometry\<rparr>"

definition zero_portal :: WallpiperPortalState where
  "zero_portal = \<lparr>ps_channels = replicate GN_MAX_CAPTURE_CHANNELS zero_channel, ps_debug_enabled = False,
                  ps_capture_socket_fd = 0, ps_ctl_socket_fd = 0, ps_meta_display = False,
                  ps_monitors_changed_handler = False\<rparr>"

definition gn_close :: "fd \<Rightarrow> gn_world \<Rightarrow> gn_world" where
  "gn_close d w = w\<lparr>gw_closed := gw_closed w @ [d]\<rparr>"

definition gn_close_all :: "fd list \<Rightarrow> gn_world \<Rightarrow> gn_world" where
  "gn_close_all ds w = fold gn_close ds w"

definition gn_call :: "actor_call \<Rightarrow> gn_world \<Rightarrow> gn_world" where
  "gn_call c w = w\<lparr>gw_calls := gw_calls w @ [c]\<rparr>"

definition g_object_unref :: "nat \<Rightarrow> gn_world \<Rightarrow> gn_world" where
  "g_object_unref t w = w\<lparr>gw_unref := gw_unref w @ [t]\<rparr>"

section \<open>Import of a buffer\<close>

definition wallpiper_egl_wait_sync_fd :: "egl \<Rightarrow> fd \<Rightarrow> gn_world \<Rightarrow> gn_world" where
  "wallpiper_egl_wait_sync_fd eg sync_fd w =
     (if sync_fd < 0 then w
      else if \<not> eg_create_sync eg \<or> \<not> eg_client_wait_sync eg then gn_close sync_fd w
      else if \<not> eg_sync_of eg sync_fd then gn_close sync_fd w
      else w\<lparr>gw_waited := gw_waited w @ [sync_fd]\<rparr>)"

definition DRM_FORMAT_MOD_INVALID :: u64 where "DRM_FORMAT_MOD_INVALID = 0x00ffffffffffffff"
definition DRM_FORMAT_XRGB8888 :: int where "DRM_FORMAT_XRGB8888 = 0x34325258"

definition import_attribs :: "fd \<Rightarrow> u32 \<Rightarrow> u32 \<Rightarrow> u32 \<Rightarrow> u32 \<Rightarrow> u64 \<Rightarrow> (string \<times> int) list" where
  "import_attribs dmabuf_fd width height stride offset modifier =
     [(''EGL_WIDTH'', sint width), (''EGL_HEIGHT'', sint height),
      (''EGL_LINUX_DRM_FOURCC_EXT'', DRM_FORMAT_XRGB8888), (''EGL_DMA_BUF_PLANE0_FD_EXT'', dmabuf_fd),
      (''EGL_DMA_BUF_PLANE0_OFFSET_EXT'', sint offset), (''EGL_DMA_BUF_PLANE0_PITCH_EXT'', sint stride)] @
     (if modifier \<noteq> DRM_FORMAT_MOD_INVALID
      then [(''EGL_DMA_BUF_PLANE0_MODIFIER_LO_EXT'', sint (ucast modifier :: 32 word)),
            (''EGL_DMA_BUF_PLANE0_MODIFIER_HI_EXT'', sint (ucast (drop_bit 32 modifier) :: 32 word))]
      else [])"

text \<open>The outer option is a call through a missing function, the inner one the texture.\<close>

definition wallpiper_egl_import_dmabuf ::
  "egl \<Rightarrow> fd \<Rightarrow> u32 \<Rightarrow> u32 \<Rightarrow> u32 \<Rightarrow> u32 \<Rightarrow> u64 \<Rightarrow> gn_world \<Rightarrow> (nat option \<times> gn_world) option" where
  "wallpiper_egl_import_dmabuf eg dmabuf_fd width height stride offset modifier w =
     (if \<not> eg_create_image eg then None
      else if \<not> eg_image_of eg (import_attribs dmabuf_fd width height stride offset modifier) then Some (None, w)
      else if \<not> eg_destroy_image eg then None
      else if \<not> eg_texture_of eg width height then Some (None, w)
      else Some (Some (gw_next_texture w), w\<lparr>gw_next_texture := Suc (gw_next_texture w)\<rparr>))"

section \<open>Channels\<close>

definition clear_slot :: "WallpiperCaptureSlot \<Rightarrow> gn_world \<Rightarrow> WallpiperCaptureSlot \<times> gn_world" where
  "clear_slot slot w =
     (case gs_texture slot of
        Some t \<Rightarrow> (slot\<lparr>gs_texture := None, gs_used := False\<rparr>, g_object_unref t w)
      | None \<Rightarrow> (slot\<lparr>gs_used := False\<rparr>, w))"

fun clear_slots :: "WallpiperCaptureSlot list \<Rightarrow> gn_world \<Rightarrow> WallpiperCaptureSlot list \<times> gn_world" where
  "clear_slots [] w = ([], w)"
| "clear_slots (slot # slots) w =
     (case clear_slot slot w of (slot', w1) \<Rightarrow>
        case clear_slots slots w1 of (slots', w2) \<Rightarrow> (slot' # slots', w2))"

definition clutter_actor_destroy :: "clutter \<Rightarrow> nat \<Rightarrow> gn_world \<Rightarrow> gn_world" where
  "clutter_actor_destroy cl a w =
     w\<lparr>gw_destroyed := gw_destroyed w @ [a], gw_children := cl_destroy cl (gw_children w) (Own_actor a)\<rparr>"

definition channel_clear ::
  "clutter \<Rightarrow> WallpiperCaptureChannel \<Rightarrow> gn_world \<Rightarrow> WallpiperCaptureChannel \<times> gn_world" where
  "channel_clear cl ch w =
     (case clear_slots (gc_slots ch) w of (slots, w1) \<Rightarrow>
        case gc_display_actor ch of
          Some a \<Rightarrow> (ch\<lparr>gc_slots := slots, gc_display_actor := None, gc_active := False\<rparr>,
                     clutter_actor_destroy cl a w1)
        | None \<Rightarrow> (ch\<lparr>gc_slots := slots, gc_active := False\<rparr>, w1))"

fun clear_channels ::
  "clutter \<Rightarrow> WallpiperCaptureChannel list \<Rightarrow> gn_world \<Rightarrow> WallpiperCaptureChannel list \<times> gn_world" where
  "clear_channels cl [] w = ([], w)"
| "clear_channels cl (ch # chs) w =
     (case channel_clear cl ch w of (ch', w1) \<Rightarrow>
        case clear_channels cl chs w1 of (chs', w2) \<Rightarrow> (ch' # chs', w2))"

definition wallpiper_capture_listener_detach ::
  "clutter \<Rightarrow> WallpiperPortalState \<Rightarrow> gn_world \<Rightarrow> WallpiperPortalState \<times> gn_world" where
  "wallpiper_capture_listener_detach cl state w =
     (case clear_channels cl (ps_channels state) w of (chs, w1) \<Rightarrow> (state\<lparr>ps_channels := chs\<rparr>, w1))"

section \<open>The monitor of a channel\<close>

definition claimed :: "WallpiperCaptureChannel list \<Rightarrow> wp_monitor_geometry \<Rightarrow> bool" where
  "claimed chs m \<longleftrightarrow>
     (\<exists>ch \<in> set chs. gc_active ch \<and> mg_x (gc_monitor ch) = mg_x m \<and> mg_y (gc_monitor ch) = mg_y m)"

fun find_named ::
  "WallpiperCaptureChannel list \<Rightarrow> string \<Rightarrow> (wp_monitor_geometry \<times> string) list \<Rightarrow> wp_monitor_geometry option" where
  "find_named chs x11_name [] = None"
| "find_named chs x11_name ((m, name) # ms) =
     (if name \<noteq> x11_name then find_named chs x11_name ms
      else if claimed chs m then None else Some m)"

definition find_monitor_for_size ::
  "backend \<Rightarrow> xrandr \<Rightarrow> WallpiperPortalState \<Rightarrow> u32 \<Rightarrow> u32 \<Rightarrow> gn_world \<Rightarrow> wp_monitor_geometry option \<times> gn_world" where
  "find_monitor_for_size backend xr state width height w =
     (case wallpiper_x11_output_for_size width height 64 xr (gw_x11 w) of (found, tried) \<Rightarrow>
        (case found of
           None \<Rightarrow> None
         | Some x11_name \<Rightarrow>
             find_named (ps_channels state) x11_name
               (wallpiper_monitor_detect_all_named backend 64 GN_MAX_CAPTURE_CHANNELS),
         w\<lparr>gw_x11 := tried\<rparr>))"

definition find_monitor_for_position ::
  "backend \<Rightarrow> xrandr \<Rightarrow> WallpiperPortalState \<Rightarrow> i32 \<Rightarrow> i32 \<Rightarrow> gn_world \<Rightarrow> wp_monitor_geometry option \<times> gn_world" where
  "find_monitor_for_position backend xr state x y w =
     (case wallpiper_x11_output_for_position x y 64 xr (gw_x11 w) of (found, tried) \<Rightarrow>
        (case found of
           None \<Rightarrow> None
         | Some x11_name \<Rightarrow>
             find_named (ps_channels state) x11_name
               (wallpiper_monitor_detect_all_named backend 64 GN_MAX_CAPTURE_CHANNELS),
         w\<lparr>gw_x11 := tried\<rparr>))"

section \<open>Actors\<close>

fun dump_loop :: "actor option \<Rightarrow> child list \<Rightarrow> actor option" where
  "dump_loop background_actor [] = background_actor"
| "dump_loop background_actor ((child, type_name) # cs) =
     dump_loop (if background_actor = None \<and> type_name = ''MetaBackgroundGroup'' then Some child
                else background_actor) cs"

definition wallpiper_actor_stacking_dump_children :: "child list \<Rightarrow> actor option" where
  "wallpiper_actor_stacking_dump_children children = dump_loop None children"

definition first_child :: "child list \<Rightarrow> actor option" where
  "first_child children = (case children of [] \<Rightarrow> None | (c, _) # _ \<Rightarrow> Some c)"

definition create_channel_actor :: "clutter \<Rightarrow> wp_monitor_geometry \<Rightarrow> gn_world \<Rightarrow> nat \<times> gn_world" where
  "create_channel_actor cl m w =
     (let actor = gw_next_actor w;
          child = (Own_actor actor, ''ClutterActor'');
          w1 = gn_call (Show actor)
                 (gn_call (Set_size actor (mg_logical_width m) (mg_logical_height m))
                   (gn_call (Set_position actor (mg_x m) (mg_y m)) (w\<lparr>gw_next_actor := Suc actor\<rparr>)));
          children = gw_children w1;
          children' =
            (case wallpiper_actor_stacking_dump_children children of
               Some background_actor \<Rightarrow> cl_insert_child_above cl children child background_actor
             | None \<Rightarrow>
                 (case first_child children of
                    Some current_bottom \<Rightarrow> cl_insert_child_above cl children child current_bottom
                  | None \<Rightarrow> cl_add_child cl children child))
      in (actor, w1\<lparr>gw_children := children'\<rparr>))"

text \<open>Neither is missing where it is called: the actor of an active channel, the texture of a used slot.\<close>

definition display_slot :: "WallpiperCaptureChannel \<Rightarrow> WallpiperCaptureSlot \<Rightarrow> gn_world \<Rightarrow> gn_world option" where
  "display_slot ch slot w =
     (case (gc_display_actor ch, gs_texture slot) of
        (Some a, Some t) \<Rightarrow> Some (gn_call (Set_content a t) (w\<lparr>gw_content_refs := Suc (gw_content_refs w)\<rparr>))
      | _ \<Rightarrow> None)"

section \<open>The capture listener\<close>

record gn_env =
  ge_glib :: glib
  ge_clutter :: clutter
  ge_egl :: egl
  ge_backend :: backend
  ge_xrandr :: xrandr

text \<open>The result of a handler: the portal and the world, unless a missing function is called.\<close>

type_synonym gn_result = "(WallpiperPortalState \<times> gn_world) option"

definition recv_capture_message :: "datagram option \<Rightarrow> nat \<Rightarrow> (string \<times> fd list) option" where
  "recv_capture_message incoming header_buf_size =
     (case incoming of
        None \<Rightarrow> None
      | Some dg \<Rightarrow> Some (take header_buf_size (dg_bytes dg), take MAX_RECV_FDS (installed_fds dg)))"

record buf_fields =
  bf_wire_slot :: u32
  bf_width :: u32
  bf_height :: u32
  bf_stride :: u32
  bf_modifier :: u64
  bf_geometry :: "(i32 \<times> i32) option"

definition read_buf_fields :: "glib \<Rightarrow> string list \<Rightarrow> buf_fields" where
  "read_buf_fields gl parts =
     \<lparr>bf_wire_slot = ucast (gl_strtoull gl (parts ! 1)),
      bf_width = ucast (gl_strtoull gl (parts ! 2)),
      bf_height = ucast (gl_strtoull gl (parts ! 3)),
      bf_stride = ucast (gl_strtoull gl (parts ! 5)),
      bf_modifier = gl_strtoull gl (parts ! 6),
      bf_geometry =
        (if 9 \<le> length parts
         then Some (word_of_int (gl_strtoll gl (parts ! 7)), word_of_int (gl_strtoll gl (parts ! 8)))
         else None)\<rparr>"

definition match_monitor ::
  "gn_env \<Rightarrow> WallpiperPortalState \<Rightarrow> buf_fields \<Rightarrow> gn_world \<Rightarrow> wp_monitor_geometry option \<times> gn_world" where
  "match_monitor env state bf w =
     (let (matched, w1) =
        (case bf_geometry bf of
           Some (x, y) \<Rightarrow> find_monitor_for_position (ge_backend env) (ge_xrandr env) state x y w
         | None \<Rightarrow> (None, w))
      in case matched of
           Some m \<Rightarrow> (Some m, w1)
         | None \<Rightarrow> find_monitor_for_size (ge_backend env) (ge_xrandr env) state (bf_width bf) (bf_height bf) w1)"

definition bind_gn_channel ::
  "gn_env \<Rightarrow> WallpiperPortalState \<Rightarrow> buf_fields \<Rightarrow> nat \<Rightarrow> gn_world \<Rightarrow> WallpiperCaptureChannel option \<times> gn_world" where
  "bind_gn_channel env state bf channel_idx w =
     (let ch = ps_channels state ! channel_idx
      in if gc_active ch then (Some ch, w)
         else case match_monitor env state bf w of (matched, w1) \<Rightarrow>
           (case matched of
              None \<Rightarrow> (None, w1)
            | Some monitor \<Rightarrow>
                (case create_channel_actor (ge_clutter env) monitor w1 of (actor, w2) \<Rightarrow>
                   (Some (ch\<lparr>gc_monitor := monitor, gc_display_actor := Some actor, gc_active := True\<rparr>), w2))))"

definition put_channel :: "nat \<Rightarrow> WallpiperCaptureChannel \<Rightarrow> WallpiperPortalState \<Rightarrow> WallpiperPortalState" where
  "put_channel i ch state = state\<lparr>ps_channels := (ps_channels state)[i := ch]\<rparr>"

definition fill_slot :: "nat \<Rightarrow> buf_fields \<Rightarrow> nat \<Rightarrow> WallpiperCaptureChannel \<Rightarrow> gn_world
    \<Rightarrow> (WallpiperCaptureChannel \<times> gn_world) option" where
  "fill_slot local_idx bf texture ch w =
     (let slot = gc_slots ch ! local_idx;
          w1 = (case gs_texture slot of Some t \<Rightarrow> g_object_unref t w | None \<Rightarrow> w);
          slot' = \<lparr>gs_used = True, gs_width = bf_width bf, gs_height = bf_height bf, gs_texture = Some texture\<rparr>;
          ch' = ch\<lparr>gc_slots := (gc_slots ch)[local_idx := slot']\<rparr>
      in map_option (\<lambda>w2. (ch', w2)) (display_slot ch' slot' w1))"

definition accept_buf ::
  "gn_env \<Rightarrow> WallpiperPortalState \<Rightarrow> buf_fields \<Rightarrow> fd \<Rightarrow> gn_world \<Rightarrow> gn_result" where
  "accept_buf env state bf dmabuf_fd w =
     (let channel_idx = unat (bf_wire_slot bf) div GN_CAPTURE_SLOT_COUNT;
          local_idx = unat (bf_wire_slot bf) mod GN_CAPTURE_SLOT_COUNT
      in case bind_gn_channel env state bf channel_idx w of
           (None, w1) \<Rightarrow> Some (state, gn_close dmabuf_fd w1)
         | (Some ch, w1) \<Rightarrow>
             (case wallpiper_egl_import_dmabuf (ge_egl env) dmabuf_fd (bf_width bf) (bf_height bf)
                     (bf_stride bf) 0 (bf_modifier bf) w1 of
                None \<Rightarrow> None
              | Some (None, w2) \<Rightarrow> Some (put_channel channel_idx ch state, gn_close dmabuf_fd w2)
              | Some (Some texture, w2) \<Rightarrow>
                  map_option (\<lambda>(ch', w3). (put_channel channel_idx ch' state, w3))
                    (fill_slot local_idx bf texture ch (gn_close dmabuf_fd w2))))"

definition handle_buf_message ::
  "gn_env \<Rightarrow> WallpiperPortalState \<Rightarrow> string list \<Rightarrow> fd list \<Rightarrow> gn_world \<Rightarrow> gn_result" where
  "handle_buf_message env state parts fds w =
     (if length parts < 7 then Some (state, gn_close_all fds w)
      else
        let bf = read_buf_fields (ge_glib env) parts;
            dmabuf_fd = (if 0 < length fds then fds ! 0 else - 1);
            sync_fd = (if 1 < length fds then fds ! 1 else - 1);
            w1 = wallpiper_egl_wait_sync_fd (ge_egl env) sync_fd w
        in if dmabuf_fd < 0 \<or> MAX_CAPTURE_SLOTS \<le> unat (bf_wire_slot bf)
           then Some (state, if 0 \<le> dmabuf_fd then gn_close dmabuf_fd w1 else w1)
           else accept_buf env state bf dmabuf_fd w1)"

definition handle_frame_message ::
  "gn_env \<Rightarrow> WallpiperPortalState \<Rightarrow> string list \<Rightarrow> fd list \<Rightarrow> gn_world \<Rightarrow> gn_result" where
  "handle_frame_message env state parts fds w =
     (let sync_fd = (if 0 < length fds then fds ! 0 else - 1);
          w1 = wallpiper_egl_wait_sync_fd (ge_egl env) sync_fd w
      in if length parts < 2 then Some (state, w1)
         else
           let wire_slot = unat (ucast (gl_strtoull (ge_glib env) (parts ! 1)) :: u32);
               ch = ps_channels state ! (wire_slot div GN_CAPTURE_SLOT_COUNT);
               slot = gc_slots ch ! (wire_slot mod GN_CAPTURE_SLOT_COUNT)
           in if MAX_CAPTURE_SLOTS \<le> wire_slot then Some (state, w1)
              else if \<not> gc_active ch \<or> \<not> gs_used slot then Some (state, w1)
              else map_option (\<lambda>w2. (state, w2)) (display_slot ch slot w1))"

text \<open>The boolean is whether the source stays installed.\<close>

definition on_capture_socket_readable ::
  "gn_env \<Rightarrow> bool \<Rightarrow> datagram option \<Rightarrow> WallpiperPortalState \<Rightarrow> gn_world \<Rightarrow> (bool \<times> WallpiperPortalState \<times> gn_world) option"
where
  "on_capture_socket_readable env err_or_hup incoming state w =
     (if err_or_hup then Some (False, state, w\<lparr>gw_hooks := remove1 Capture_source (gw_hooks w)\<rparr>)
      else case recv_capture_message incoming 255 of
        None \<Rightarrow> Some (True, state, w)
      | Some (header_buf, fds) \<Rightarrow>
          (let parts = gl_strsplit (ge_glib env) (gl_strstrip (ge_glib env) (cstr header_buf))
           in map_option (\<lambda>(state', w'). (True, state', w'))
                (if 1 \<le> length parts \<and> parts ! 0 = ''BUF'' then handle_buf_message env state parts fds w
                 else if 1 \<le> length parts \<and> parts ! 0 = ''FRAME'' then handle_frame_message env state parts fds w
                 else Some (state, gn_close_all fds w))))"

section \<open>Stacking\<close>

fun background_loop :: "child list \<Rightarrow> actor option" where
  "background_loop [] = None"
| "background_loop ((child, type_name) # cs) =
     (if type_name = ''MetaBackgroundGroup'' then Some child else background_loop cs)"

fun previous_sibling :: "child list \<Rightarrow> actor \<Rightarrow> actor option" where
  "previous_sibling [] a = None"
| "previous_sibling [x] a = None"
| "previous_sibling (x # y # cs) a = (if fst y = a then Some (fst x) else previous_sibling (y # cs) a)"

definition reassert_actor :: "clutter \<Rightarrow> actor \<Rightarrow> child list \<Rightarrow> nat option \<Rightarrow> child list" where
  "reassert_actor cl reference children display_actor =
     (case display_actor of
        None \<Rightarrow> children
      | Some a \<Rightarrow>
          if Own_actor a = reference then children
          else if previous_sibling children (Own_actor a) = Some reference then children
          else cl_set_child_above_sibling cl children (Own_actor a) reference)"

definition stacking_reference :: "child list \<Rightarrow> actor option" where
  "stacking_reference children =
     (case background_loop children of Some a \<Rightarrow> Some a | None \<Rightarrow> first_child children)"

definition wallpiper_actor_stacking_reassert :: "clutter \<Rightarrow> WallpiperPortalState \<Rightarrow> gn_world \<Rightarrow> gn_world" where
  "wallpiper_actor_stacking_reassert cl state w =
     (case stacking_reference (gw_children w) of
        None \<Rightarrow> w
      | Some reference \<Rightarrow>
          w\<lparr>gw_children := foldl (reassert_actor cl reference) (gw_children w)
                             (map gc_display_actor (ps_channels state))\<rparr>)"

definition on_display_restacked :: "clutter \<Rightarrow> WallpiperPortalState \<Rightarrow> gn_world \<Rightarrow> gn_world" where
  "on_display_restacked cl state w = wallpiper_actor_stacking_reassert cl state w"

definition on_window_created :: "clutter \<Rightarrow> WallpiperPortalState \<Rightarrow> gn_world \<Rightarrow> gn_world" where
  "on_window_created cl state w = wallpiper_actor_stacking_reassert cl state w"

definition wallpiper_actor_stacking_connect :: "WallpiperPortalState \<Rightarrow> gn_world \<Rightarrow> gn_world" where
  "wallpiper_actor_stacking_connect state w =
     (if \<not> ps_meta_display state then w
      else w\<lparr>gw_hooks := Window_created # Restacked # gw_hooks w\<rparr>)"

definition wallpiper_actor_stacking_disconnect :: "WallpiperPortalState \<Rightarrow> gn_world \<Rightarrow> gn_world" where
  "wallpiper_actor_stacking_disconnect state w =
     (if \<not> ps_meta_display state then w
      else w\<lparr>gw_hooks := remove1 Window_created (remove1 Restacked (gw_hooks w))\<rparr>)"

section \<open>The control listener\<close>

text \<open>
  One connection: what \<open>accept\<close> and \<open>recv\<close> give, and the position of the pointer. The conversion of
  a coordinate out of the range of an int is undefined (\<^term>\<open>None\<close>).
\<close>

definition cursor_response :: "real64 \<times> real64 \<Rightarrow> string option" where
  "cursor_response pt =
     (case (to_int32 (fst pt), to_int32 (snd pt)) of
        (Some x, Some y) \<Rightarrow> Some (''CURSOR_POS '' @ show_i32 x @ SP # show_i32 y @ [LF])
      | _ \<Rightarrow> None)"

definition answer_ctl ::
  "gn_env \<Rightarrow> (real64 \<times> real64) option \<Rightarrow> string \<Rightarrow> WallpiperPortalState \<Rightarrow> gn_world
   \<Rightarrow> (string \<times> WallpiperPortalState \<times> gn_world) option" where
  "answer_ctl env pointer line state w =
     (if line = ''GEOMETRY'' then Some (''ERR geometry detection disabled'' @ [LF], state, w)
      else if line = ''DETACH''
      then (case wallpiper_capture_listener_detach (ge_clutter env) state w of (state', w') \<Rightarrow>
              Some (''OK'' @ [LF], state', w'))
      else if line = ''DEBUG_ON'' then Some (''OK'' @ [LF], state\<lparr>ps_debug_enabled := True\<rparr>, w)
      else if line = ''DEBUG_OFF'' then Some (''OK'' @ [LF], state\<lparr>ps_debug_enabled := False\<rparr>, w)
      else if line = ''CURSOR_POS''
      then map_option (\<lambda>r. (r, state, w))
             (cursor_response (case pointer of Some pt \<Rightarrow> pt | None \<Rightarrow> (Fin 0, Fin 0)))
      else if line = ''PING'' then Some (''OK'' @ [LF], state, w)
      else Some (''ERR unrecognized command'' @ [LF], state, w))"

datatype ctl_connection = No_client | Client fd "string option"

text \<open>Whether the source stays, what is sent to the client, and the new state.\<close>

definition on_ctl_socket_connectable ::
  "gn_env \<Rightarrow> (real64 \<times> real64) option \<Rightarrow> bool \<Rightarrow> ctl_connection \<Rightarrow> WallpiperPortalState \<Rightarrow> gn_world
   \<Rightarrow> (bool \<times> string option \<times> WallpiperPortalState \<times> gn_world) option" where
  "on_ctl_socket_connectable env pointer err_or_hup connection state w =
     (if err_or_hup then Some (False, None, state, w\<lparr>gw_hooks := remove1 Ctl_source (gw_hooks w)\<rparr>)
      else case connection of
        No_client \<Rightarrow> Some (True, None, state, w)
      | Client client_fd received \<Rightarrow>
          (case received of
             None \<Rightarrow> Some (True, None, state, gn_close client_fd w)
           | Some bytes \<Rightarrow>
               if bytes = [] then Some (True, None, state, gn_close client_fd w)
               else map_option (\<lambda>(response, state', w'). (True, Some response, state', gn_close client_fd w'))
                      (answer_ctl env pointer (gl_strstrip (ge_glib env) (cstr (take 255 bytes))) state w)))"

section \<open>The portal\<close>

fun matching_monitor :: "wp_monitor_geometry list \<Rightarrow> wp_monitor_geometry \<Rightarrow> wp_monitor_geometry option" where
  "matching_monitor [] m = None"
| "matching_monitor (n # ns) m =
     (if mg_x n = mg_x m \<and> mg_y n = mg_y m then Some n else matching_monitor ns m)"

definition refresh_channel ::
  "wp_monitor_geometry list \<Rightarrow> WallpiperCaptureChannel \<Rightarrow> gn_world \<Rightarrow> (WallpiperCaptureChannel \<times> gn_world) option" where
  "refresh_channel monitors ch w =
     (if \<not> gc_active ch then Some (ch, w)
      else case matching_monitor monitors (gc_monitor ch) of
        None \<Rightarrow> Some (ch, w)
      | Some m \<Rightarrow>
          (case gc_display_actor ch of
             None \<Rightarrow> None
           | Some a \<Rightarrow>
               Some (ch\<lparr>gc_monitor := m\<rparr>,
                     gn_call (Set_size a (mg_logical_width m) (mg_logical_height m))
                       (gn_call (Set_position a (mg_x m) (mg_y m)) w))))"

fun refresh_channels ::
  "wp_monitor_geometry list \<Rightarrow> WallpiperCaptureChannel list \<Rightarrow> gn_world
   \<Rightarrow> (WallpiperCaptureChannel list \<times> gn_world) option" where
  "refresh_channels monitors [] w = Some ([], w)"
| "refresh_channels monitors (ch # chs) w =
     (case refresh_channel monitors ch w of
        None \<Rightarrow> None
      | Some (ch', w1) \<Rightarrow> map_option (\<lambda>(chs', w2). (ch' # chs', w2)) (refresh_channels monitors chs w1))"

definition on_monitors_changed :: "gn_env \<Rightarrow> WallpiperPortalState \<Rightarrow> gn_world \<Rightarrow> gn_result" where
  "on_monitors_changed env state w =
     map_option (\<lambda>(chs, w'). (state\<lparr>ps_channels := chs\<rparr>, w'))
       (refresh_channels (wallpiper_monitor_detect_all (ge_backend env) GN_MAX_CAPTURE_CHANNELS)
          (ps_channels state) w)"

definition GN_CAPTURE_SOCKET_PATH :: string where "GN_CAPTURE_SOCKET_PATH = ''/tmp/wallpiper-capture.sock''"
definition GN_CTL_SOCKET_PATH :: string where "GN_CTL_SOCKET_PATH = ''/tmp/wallpiper-portal-gnome-ctl.sock''"

definition gn_unlink :: "string \<Rightarrow> gn_world \<Rightarrow> gn_world" where
  "gn_unlink path w = w\<lparr>gw_unlinked := gw_unlinked w @ [path]\<rparr>"

text \<open>What \<open>socket\<close> and \<open>bind\<close> (for the control socket also \<open>listen\<close>) return.\<close>

definition wallpiper_capture_listener_start ::
  "fd \<Rightarrow> bool \<Rightarrow> WallpiperPortalState \<Rightarrow> gn_world \<Rightarrow> bool \<times> WallpiperPortalState \<times> gn_world" where
  "wallpiper_capture_listener_start capture_fd bound state w =
     (if capture_fd < 0 then (False, state, w)
      else let w1 = gn_unlink GN_CAPTURE_SOCKET_PATH w
           in if \<not> bound then (False, state, gn_close capture_fd w1)
              else (True, state\<lparr>ps_capture_socket_fd := capture_fd\<rparr>,
                    w1\<lparr>gw_hooks := Capture_source # gw_hooks w1\<rparr>))"

definition wallpiper_ctl_listener_start ::
  "fd \<Rightarrow> bool \<Rightarrow> WallpiperPortalState \<Rightarrow> gn_world \<Rightarrow> bool \<times> WallpiperPortalState \<times> gn_world" where
  "wallpiper_ctl_listener_start ctl_fd bound state w =
     (if ctl_fd < 0 then (False, state, w)
      else let w1 = gn_unlink GN_CTL_SOCKET_PATH w
           in if \<not> bound then (False, state, gn_close ctl_fd w1)
              else (True, state\<lparr>ps_ctl_socket_fd := ctl_fd\<rparr>, w1\<lparr>gw_hooks := Ctl_source # gw_hooks w1\<rparr>))"

definition wallpiper_capture_listener_stop ::
  "clutter \<Rightarrow> WallpiperPortalState \<Rightarrow> gn_world \<Rightarrow> WallpiperPortalState \<times> gn_world" where
  "wallpiper_capture_listener_stop cl state w =
     (let w1 = w\<lparr>gw_hooks := remove1 Capture_source (gw_hooks w)\<rparr>;
          w2 = gn_unlink GN_CAPTURE_SOCKET_PATH (gn_close (ps_capture_socket_fd state) w1)
      in case clear_channels cl (ps_channels state) w2 of (chs, w3) \<Rightarrow> (state\<lparr>ps_channels := chs\<rparr>, w3))"

definition wallpiper_ctl_listener_stop :: "WallpiperPortalState \<Rightarrow> gn_world \<Rightarrow> gn_world" where
  "wallpiper_ctl_listener_stop state w =
     gn_unlink GN_CTL_SOCKET_PATH
       (gn_close (ps_ctl_socket_fd state) (w\<lparr>gw_hooks := remove1 Ctl_source (gw_hooks w)\<rparr>))"

record start_env =
  se_is_backend :: bool
  se_is_actor :: bool
  se_egl_display :: bool
  se_meta_display :: bool
  se_capture_fd :: fd
  se_capture_bound :: bool
  se_ctl_fd :: fd
  se_ctl_bound :: bool

definition wallpiper_portal_start ::
  "gn_env \<Rightarrow> start_env \<Rightarrow> WallpiperPortalState option \<Rightarrow> gn_world \<Rightarrow> bool \<times> WallpiperPortalState option \<times> gn_world" where
  "wallpiper_portal_start env se portal_state w =
     (if portal_state \<noteq> None then (False, portal_state, w)
      else if \<not> se_is_backend se \<or> \<not> se_is_actor se \<or> \<not> se_egl_display se then (False, None, w)
      else
        let w1 = (if ge_backend env \<noteq> None then w\<lparr>gw_hooks := Monitors_changed # gw_hooks w\<rparr> else w);
            state = zero_portal\<lparr>ps_monitors_changed_handler := ge_backend env \<noteq> None,
                                ps_meta_display := se_meta_display se\<rparr>;
            w2 = wallpiper_actor_stacking_connect state w1
        in case wallpiper_capture_listener_start (se_capture_fd se) (se_capture_bound se) state w2 of (ok, state1, w3) \<Rightarrow>
             if \<not> ok then (False, None, wallpiper_actor_stacking_disconnect state1 w3)
             else case wallpiper_ctl_listener_start (se_ctl_fd se) (se_ctl_bound se) state1 w3 of (ok2, state2, w4) \<Rightarrow>
               if \<not> ok2
               then (case wallpiper_capture_listener_stop (ge_clutter env) state2 w4 of (state3, w5) \<Rightarrow>
                       (False, None, wallpiper_actor_stacking_disconnect state3 w5))
               else (True, Some state2, w4))"

definition wallpiper_portal_stop ::
  "gn_env \<Rightarrow> WallpiperPortalState option \<Rightarrow> gn_world \<Rightarrow> WallpiperPortalState option \<times> gn_world" where
  "wallpiper_portal_stop env portal_state w =
     (case portal_state of
        None \<Rightarrow> (None, w)
      | Some state \<Rightarrow>
          (let w1 = (if ge_backend env \<noteq> None \<and> ps_monitors_changed_handler state
                     then w\<lparr>gw_hooks := remove1 Monitors_changed (gw_hooks w)\<rparr> else w);
               w2 = wallpiper_ctl_listener_stop state w1
           in case wallpiper_capture_listener_stop (ge_clutter env) state w2 of (state1, w3) \<Rightarrow>
                (None, wallpiper_actor_stacking_disconnect state1 w3)))"

end
