(* ===== verification/WP_Resources.thy ===== *)
theory WP_Resources
  imports WP_Prelude "HOL-Library.Multiset"
begin

text \<open>
  Resources as multisets: a component holds resources in a list of parts, of which one operation
  replaces one. What it creates and what it releases are lists in the order in which that happened, so
  that no resource is lost or released twice exactly when what was created is, as a multiset, what is
  held together with what was released.
\<close>

lemma mset_concat_update:
  "i < length xs \<Longrightarrow> mset (concat (map f (xs[i := x]))) + mset (f (xs ! i)) = mset (concat (map f xs)) + mset (f x)"
proof (induction xs arbitrary: i)
  case (Cons y ys)
  show ?case
  proof (cases i)
    case 0
    then show ?thesis by (simp add: union_ac)
  next
    case (Suc j)
    then show ?thesis using Cons by (simp add: union_assoc)
  qed
qed simp

lemma map_filter_concat: "List.map_filter f xs = concat (map (\<lambda>x. case f x of None \<Rightarrow> [] | Some y \<Rightarrow> [y]) xs)"
  by (induction xs) (auto split: option.splits)

lemmas mset_map_filter_update =
  mset_concat_update [where f = "\<lambda>x. case f x of None \<Rightarrow> [] | Some y \<Rightarrow> [y]" for f, folded map_filter_concat]

lemma mset_swap: "X + c = Y + d \<Longrightarrow> d + e = c + n \<Longrightarrow> X + e = Y + n" for X :: "'a multiset"
proof -
  assume a: "X + c = Y + d" and b: "d + e = c + n"
  have "(X + e) + c = (X + c) + e" by (simp add: union_ac)
  also have "\<dots> = Y + (d + e)" by (simp add: a union_assoc)
  also have "\<dots> = (Y + n) + c" by (simp add: b union_ac)
  finally show ?thesis by simp
qed

lemma distinct_mset: "mset xs = mset ys \<Longrightarrow> distinct xs = distinct ys"
  by (metis distinct_count_atmost_1 set_mset_mset)

lemma list_all_update: "list_all P xs \<Longrightarrow> P x \<Longrightarrow> list_all P (xs[i := x])"
  by (auto simp: list_all_iff dest!: set_update_subset_insert [THEN subsetD])

lemma distinct_split: "mset xs = mset ys + mset zs \<Longrightarrow> distinct xs \<Longrightarrow> distinct ys \<and> distinct zs \<and> set ys \<inter> set zs = {}"
  by (metis distinct_append distinct_mset mset_append)

end
