(* ===== verification/WP_Gnome_Props.thy ===== *)
theory WP_Gnome_Props
  imports WP_Gnome WP_Resources
begin

text \<open>
  What the GNOME portal keeps: the reachable states of a started portal (\<open>gn_reach\<close>), their invariant
  \<open>gn_inv\<close> (a channel is active exactly when it has an actor, a slot is used exactly when it has a
  texture, no two channels show on one monitor, every texture and actor the portal created is live in
  one place or was released once), and the properties of the listeners that rest on it.
\<close>

section \<open>The invariant\<close>

definition slot_wf :: "WallpiperCaptureSlot \<Rightarrow> bool" where
  "slot_wf slot \<longleftrightarrow> (gs_used slot \<longleftrightarrow> gs_texture slot \<noteq> None)"

definition channel_wf :: "WallpiperCaptureChannel \<Rightarrow> bool" where
  "channel_wf ch \<longleftrightarrow>
     length (gc_slots ch) = GN_CAPTURE_SLOT_COUNT \<and> (gc_active ch \<longleftrightarrow> gc_display_actor ch \<noteq> None) \<and>
     list_all slot_wf (gc_slots ch) \<and>
     (\<not> gc_active ch \<longrightarrow> list_all (\<lambda>slot. \<not> gs_used slot) (gc_slots ch))"

definition channel_textures :: "WallpiperCaptureChannel \<Rightarrow> nat list" where
  "channel_textures ch = List.map_filter gs_texture (gc_slots ch)"

definition live_textures :: "WallpiperPortalState \<Rightarrow> nat list" where
  "live_textures state = concat (map channel_textures (ps_channels state))"

definition live_actors :: "WallpiperPortalState \<Rightarrow> nat list" where
  "live_actors state = List.map_filter gc_display_actor (ps_channels state)"

definition monitor_pos :: "WallpiperCaptureChannel \<Rightarrow> i32 \<times> i32" where
  "monitor_pos ch = (mg_x (gc_monitor ch), mg_y (gc_monitor ch))"

definition positions :: "WallpiperCaptureChannel list \<Rightarrow> (i32 \<times> i32) list" where
  "positions chs = map monitor_pos (filter gc_active chs)"

definition channels_wf :: "WallpiperPortalState \<Rightarrow> bool" where
  "channels_wf state \<longleftrightarrow>
     length (ps_channels state) = GN_MAX_CAPTURE_CHANNELS \<and> list_all channel_wf (ps_channels state) \<and>
     distinct (positions (ps_channels state))"

definition resources_wf :: "WallpiperPortalState \<Rightarrow> gn_world \<Rightarrow> bool" where
  "resources_wf state w \<longleftrightarrow>
     mset [0..<gw_next_texture w] = mset (live_textures state) + mset (gw_unref w) \<and>
     mset [0..<gw_next_actor w] = mset (live_actors state) + mset (gw_destroyed w)"

definition gn_inv :: "WallpiperPortalState \<Rightarrow> gn_world \<Rightarrow> bool" where
  "gn_inv state w \<longleftrightarrow> channels_wf state \<and> resources_wf state w"

section \<open>Reachable states\<close>

definition fresh_world :: "child list \<Rightarrow> gn_world" where
  "fresh_world children =
     \<lparr>gw_children = children, gw_x11 = None, gw_next_actor = 0, gw_next_texture = 0, gw_closed = [],
      gw_waited = [], gw_unref = [], gw_destroyed = [], gw_calls = [], gw_content_refs = 0, gw_hooks = [],
      gw_unlinked = []\<rparr>"

text \<open>
  The Shell changes the children of the parent between the events of the portal. A descriptor that the
  kernel installs is not negative.
\<close>

inductive gn_reach :: "WallpiperPortalState \<Rightarrow> gn_world \<Rightarrow> bool" where
  started: "wallpiper_portal_start env se None (fresh_world children) = (True, Some state, w) \<Longrightarrow> gn_reach state w"
| capture: "gn_reach state w \<Longrightarrow> Capture_source \<in> set (gw_hooks w) \<Longrightarrow>
    (\<And>dg d. incoming = Some dg \<Longrightarrow> d \<in> set (dg_fds dg) \<Longrightarrow> 0 \<le> d) \<Longrightarrow>
    on_capture_socket_readable env err_or_hup incoming state w = Some (stays, state', w') \<Longrightarrow> gn_reach state' w'"
| control: "gn_reach state w \<Longrightarrow> Ctl_source \<in> set (gw_hooks w) \<Longrightarrow>
    on_ctl_socket_connectable env pointer err_or_hup connection state w = Some (stays, response, state', w') \<Longrightarrow>
    gn_reach state' w'"
| monitors: "gn_reach state w \<Longrightarrow> Monitors_changed \<in> set (gw_hooks w) \<Longrightarrow>
    on_monitors_changed env state w = Some (state', w') \<Longrightarrow> gn_reach state' w'"
| restacked: "gn_reach state w \<Longrightarrow> Restacked \<in> set (gw_hooks w) \<Longrightarrow> gn_reach state (on_display_restacked cl state w)"
| window: "gn_reach state w \<Longrightarrow> Window_created \<in> set (gw_hooks w) \<Longrightarrow> gn_reach state (on_window_created cl state w)"
| shell: "gn_reach state w \<Longrightarrow> gn_reach state (w\<lparr>gw_children := children\<rparr>)"

section \<open>Releasing\<close>

definition cleared :: "WallpiperCaptureChannel \<Rightarrow> WallpiperCaptureChannel" where
  "cleared ch = ch\<lparr>gc_slots := map (\<lambda>slot. slot\<lparr>gs_texture := None, gs_used := False\<rparr>) (gc_slots ch),
                   gc_display_actor := None, gc_active := False\<rparr>"

lemma clear_slots_eq:
  "clear_slots slots w =
     (map (\<lambda>slot. slot\<lparr>gs_texture := None, gs_used := False\<rparr>) slots,
      w\<lparr>gw_unref := gw_unref w @ List.map_filter gs_texture slots\<rparr>)"
proof (induction slots arbitrary: w)
  case (Cons slot slots)
  then show ?case
    by (cases slot; cases "gs_texture slot") (simp_all add: clear_slot_def g_object_unref_def)
qed (simp add: List.map_filter_def)

lemma channel_clear_eq:
  "\<exists>children. channel_clear cl ch w =
     (cleared ch, w\<lparr>gw_unref := gw_unref w @ channel_textures ch,
                    gw_destroyed := gw_destroyed w @ List.map_filter gc_display_actor [ch], gw_children := children\<rparr>)"
proof (cases "gc_display_actor ch")
  case None
  then show ?thesis
    by (intro exI [of _ "gw_children w"], cases ch)
      (simp add: channel_clear_def clear_slots_eq cleared_def channel_textures_def)
next
  case (Some a)
  then show ?thesis
    by (simp add: channel_clear_def clear_slots_eq cleared_def clutter_actor_destroy_def channel_textures_def)
      (metis gn_world.surjective gn_world.update_convs)
qed

lemma clear_channels_eq:
  "\<exists>children. clear_channels cl chs w =
     (map cleared chs, w\<lparr>gw_unref := gw_unref w @ concat (map channel_textures chs),
                    gw_destroyed := gw_destroyed w @ List.map_filter gc_display_actor chs, gw_children := children\<rparr>)"
proof (induction chs arbitrary: w)
  case Nil
  show ?case by (intro exI [of _ "gw_children w"]) simp
next
  case (Cons ch chs)
  obtain children where c: "channel_clear cl ch w =
     (cleared ch, w\<lparr>gw_unref := gw_unref w @ channel_textures ch,
                    gw_destroyed := gw_destroyed w @ List.map_filter gc_display_actor [ch], gw_children := children\<rparr>)"
    using channel_clear_eq [of cl ch w] by blast
  let ?w = "w\<lparr>gw_unref := gw_unref w @ channel_textures ch,
     gw_destroyed := gw_destroyed w @ List.map_filter gc_display_actor [ch], gw_children := children\<rparr>"
  obtain children' where d: "clear_channels cl chs ?w =
     (map cleared chs, ?w\<lparr>gw_unref := gw_unref ?w @ concat (map channel_textures chs),
                    gw_destroyed := gw_destroyed ?w @ List.map_filter gc_display_actor chs, gw_children := children'\<rparr>)"
    using Cons [of ?w] by blast
  show ?case
    using c d by (intro exI [of _ children']) (auto simp: List.map_filter_simps split: option.splits)
qed

lemma channel_wf_cleared: "channel_wf ch \<Longrightarrow> channel_wf (cleared ch)"
  by (simp add: channel_wf_def cleared_def list_all_iff slot_wf_def)

lemma cleared_holds_nothing [simp]:
  "gc_active (cleared ch) = False" "gc_display_actor (cleared ch) = None" "channel_textures (cleared ch) = []"
proof -
  have "List.map_filter gs_texture (map (\<lambda>slot. slot\<lparr>gs_texture := None, gs_used := False\<rparr>) slots) = []" for slots
    by (induction slots) simp_all
  then show "channel_textures (cleared ch) = []" by (simp add: channel_textures_def cleared_def)
qed (simp_all add: cleared_def)

lemma map_filter_cleared [simp]: "List.map_filter gc_display_actor (map cleared chs) = []"
  by (induction chs) simp_all

lemma textures_cleared [simp]: "concat (map channel_textures (map cleared chs)) = []"
  by (induction chs) simp_all

lemma positions_cleared [simp]: "positions (map cleared chs) = []"
  by (induction chs) (simp_all add: positions_def)

lemma gn_inv_cleared:
  assumes "gn_inv state w" and "ps_channels state' = map cleared (ps_channels state)"
    and "gw_unref w' = gw_unref w @ live_textures state" and "gw_destroyed w' = gw_destroyed w @ live_actors state"
    and "gw_next_texture w' = gw_next_texture w" and "gw_next_actor w' = gw_next_actor w"
  shows "gn_inv state' w' \<and> live_textures state' = [] \<and> live_actors state' = [] \<and>
    mset (gw_unref w') = mset [0..<gw_next_texture w] \<and> mset (gw_destroyed w') = mset [0..<gw_next_actor w]"
  using assms
  by (auto simp: gn_inv_def channels_wf_def resources_wf_def live_textures_def live_actors_def list_all_iff
      channel_wf_cleared simp del: map_map)

lemma detach_inv [wp_inv]:
  assumes "gn_inv state w" and "wallpiper_capture_listener_detach cl state w = (state', w')"
  shows "gn_inv state' w' \<and> live_textures state' = [] \<and> live_actors state' = [] \<and>
    mset (gw_unref w') = mset [0..<gw_next_texture w] \<and> mset (gw_destroyed w') = mset [0..<gw_next_actor w]"
proof -
  from clear_channels_eq [of cl "ps_channels state" w] assms(2)
  show ?thesis
    by (intro gn_inv_cleared [OF assms(1)])
      (auto simp: wallpiper_capture_listener_detach_def live_textures_def live_actors_def)
qed

section \<open>Replacing a channel\<close>

lemma positions_update_same:
  "i < length chs \<Longrightarrow> gc_active ch = gc_active (chs ! i) \<Longrightarrow> (gc_active ch \<longrightarrow> monitor_pos ch = monitor_pos (chs ! i)) \<Longrightarrow>
   positions (chs[i := ch]) = positions chs"
proof (induction chs arbitrary: i)
  case (Cons c cs)
  then show ?case by (cases i) (auto simp: positions_def)
qed simp

lemma positions_update_new:
  "i < length chs \<Longrightarrow> \<not> gc_active (chs ! i) \<Longrightarrow> gc_active ch \<Longrightarrow>
   mset (positions (chs[i := ch])) = add_mset (monitor_pos ch) (mset (positions chs))"
proof (induction chs arbitrary: i)
  case (Cons c cs)
  then show ?case by (cases i) (auto simp: positions_def)
qed simp

lemma claimed_positions: "claimed chs m \<longleftrightarrow> (mg_x m, mg_y m) \<in> set (positions chs)"
  by (force simp: claimed_def positions_def monitor_pos_def)

lemma find_named_free: "find_named chs name ms = Some m \<Longrightarrow> \<not> claimed chs m \<and> m \<in> fst ` set ms"
  by (induction chs name ms rule: find_named.induct) (auto split: if_splits)

lemma find_monitor_free:
  "find_monitor_for_size backend xr state width height w = (Some m, w') \<Longrightarrow> \<not> claimed (ps_channels state) m"
  "find_monitor_for_position backend xr state x y w = (Some m, w') \<Longrightarrow> \<not> claimed (ps_channels state) m"
  by (auto simp: find_monitor_for_size_def find_monitor_for_position_def split: prod.splits option.splits
      dest: find_named_free)

lemma match_monitor_free: "match_monitor env state bf w = (Some m, w') \<Longrightarrow> \<not> claimed (ps_channels state) m"
  by (auto simp: match_monitor_def Let_def split: prod.splits option.splits dest: find_monitor_free)

text \<open>Looking for a monitor only remembers whether the X display was opened.\<close>

lemma match_monitor_world: "match_monitor env state bf w = (found, w') \<Longrightarrow> w' = w\<lparr>gw_x11 := gw_x11 w'\<rparr>"
proof -
  have s: "find_monitor_for_size backend xr state width height v = (r, v') \<Longrightarrow> v' = v\<lparr>gw_x11 := gw_x11 v'\<rparr>"
    for backend xr width height v v' r
    by (auto simp: find_monitor_for_size_def split: prod.splits)
  have p: "find_monitor_for_position backend xr state x y v = (r, v') \<Longrightarrow> v' = v\<lparr>gw_x11 := gw_x11 v'\<rparr>"
    for backend xr x y v v' r
    by (auto simp: find_monitor_for_position_def split: prod.splits)
  assume m: "match_monitor env state bf w = (found, w')"
  obtain first w1 where f: "(case bf_geometry bf of
       Some (x, y) \<Rightarrow> find_monitor_for_position (ge_backend env) (ge_xrandr env) state x y w
     | None \<Rightarrow> (None, w)) = (first, w1)" by force
  then have w1: "w1 = w\<lparr>gw_x11 := gw_x11 w1\<rparr>"
    by (cases "bf_geometry bf") (auto dest: p)
  from m f consider "w' = w1"
    | "find_monitor_for_size (ge_backend env) (ge_xrandr env) state (bf_width bf) (bf_height bf) w1 = (found, w')"
    by (cases first) (auto simp: match_monitor_def)
  then show ?thesis
  proof cases
    case 2
    then have "w' = w1\<lparr>gw_x11 := gw_x11 w'\<rparr>" by (rule s)
    also have "\<dots> = w\<lparr>gw_x11 := gw_x11 w'\<rparr>" by (subst w1) simp
    finally show ?thesis .
  qed (use w1 in simp)
qed

lemmas gn_ops = gn_close_def gn_call_def g_object_unref_def display_slot_def

lemma create_channel_actor_effect:
  assumes "create_channel_actor cl m w = (a, w')"
  shows "a = gw_next_actor w"
    and "\<exists>calls children. w' = w\<lparr>gw_next_actor := Suc (gw_next_actor w), gw_calls := calls, gw_children := children\<rparr>"
proof -
  from assms show "a = gw_next_actor w" by (auto simp: create_channel_actor_def Let_def)
  show "\<exists>calls children. w' = w\<lparr>gw_next_actor := Suc (gw_next_actor w), gw_calls := calls, gw_children := children\<rparr>"
    using assms by (auto simp: create_channel_actor_def Let_def gn_call_def)
qed

lemma put_channel_simps [simp]:
  "ps_channels (put_channel i ch state) = (ps_channels state)[i := ch]"
  "put_channel i ch' (put_channel i ch state) = put_channel i ch' state"
  by (simp_all add: put_channel_def)

lemma gn_inv_nth: "gn_inv state w \<Longrightarrow> i < 4 \<Longrightarrow> channel_wf (ps_channels state ! i)"
  by (simp add: gn_inv_def channels_wf_def list_all_length)

text \<open>A channel that had no actor gets a monitor nobody claimed and a new actor.\<close>

lemma gn_inv_bind:
  assumes inv: "gn_inv state w" and i: "i < 4" and idle: "\<not> gc_active (ps_channels state ! i)"
    and free: "\<not> claimed (ps_channels state) m"
    and ch: "ch = (ps_channels state ! i)\<lparr>gc_monitor := m, gc_display_actor := Some (gw_next_actor w), gc_active := True\<rparr>"
    and w': "gw_next_actor w' = Suc (gw_next_actor w)" "gw_next_texture w' = gw_next_texture w"
      "gw_unref w' = gw_unref w" "gw_destroyed w' = gw_destroyed w"
  shows "gn_inv (put_channel i ch state) w'"
proof -
  let ?chs = "ps_channels state"
  from inv i have len: "i < length ?chs" "length ?chs = 4" by (simp_all add: gn_inv_def channels_wf_def)
  note wf = gn_inv_nth [OF inv i]
  have wf': "channel_wf ch" using wf idle by (simp add: channel_wf_def ch)
  have "mset (positions (?chs[i := ch])) = add_mset (monitor_pos ch) (mset (positions ?chs))"
    by (rule positions_update_new) (simp_all add: len i idle ch)
  moreover have "monitor_pos ch \<notin> set (positions ?chs)"
    using free by (simp add: claimed_positions monitor_pos_def ch)
  moreover have "distinct (positions ?chs)" using inv by (simp add: gn_inv_def channels_wf_def)
  ultimately have dist: "distinct (positions (?chs[i := ch]))"
    using distinct_mset [of "positions (?chs[i := ch])" "monitor_pos ch # positions ?chs"] by simp
  have "gc_display_actor (?chs ! i) = None" using wf idle by (simp add: channel_wf_def)
  then have acts: "mset (List.map_filter gc_display_actor (?chs[i := ch])) =
      add_mset (gw_next_actor w) (mset (List.map_filter gc_display_actor ?chs))"
    using mset_map_filter_update [OF len(1), of gc_display_actor ch] by (simp add: ch)
  have "mset (concat (map channel_textures (?chs[i := ch]))) = mset (concat (map channel_textures ?chs))"
    using mset_concat_update [OF len(1), of channel_textures ch] by (simp add: ch channel_textures_def)
  with acts dist wf' inv w' show ?thesis
    by (simp add: gn_inv_def channels_wf_def resources_wf_def live_textures_def live_actors_def list_all_update)
qed

text \<open>A slot of an active channel gets a new texture and gives up the one it had.\<close>

lemma gn_inv_fill:
  assumes inv: "gn_inv state w" and i: "i < 4" and l: "l < 3" and on: "gc_active (ps_channels state ! i)"
    and ch: "ch = (ps_channels state ! i)\<lparr>gc_slots := (gc_slots (ps_channels state ! i))[l := slot]\<rparr>"
    and slot: "gs_used slot" "gs_texture slot = Some (gw_next_texture w)"
    and w': "gw_next_actor w' = gw_next_actor w" "gw_next_texture w' = Suc (gw_next_texture w)"
      "gw_unref w' = gw_unref w @ (case gs_texture (gc_slots (ps_channels state ! i) ! l) of None \<Rightarrow> [] | Some t \<Rightarrow> [t])"
      "gw_destroyed w' = gw_destroyed w"
  shows "gn_inv (put_channel i ch state) w'"
proof -
  let ?chs = "ps_channels state" and ?c = "ps_channels state ! i"
  from inv i have len: "i < length ?chs" "length ?chs = 4" by (simp_all add: gn_inv_def channels_wf_def)
  note wf = gn_inv_nth [OF inv i]
  then have l3: "l < length (gc_slots ?c)" using l by (simp add: channel_wf_def)
  have wf': "channel_wf ch"
    using wf on slot by (simp add: channel_wf_def ch list_all_update slot_wf_def)
  have pos: "positions (?chs[i := ch]) = positions ?chs"
    by (rule positions_update_same) (simp_all add: len i ch monitor_pos_def)
  have acts: "mset (List.map_filter gc_display_actor (?chs[i := ch])) = mset (List.map_filter gc_display_actor ?chs)"
    using mset_map_filter_update [OF len(1), of gc_display_actor ch] by (simp add: ch)
  let ?old = "case gs_texture (gc_slots ?c ! l) of None \<Rightarrow> [] | Some t \<Rightarrow> [t]"
  have "mset (channel_textures ch) + mset ?old = mset (channel_textures ?c) + {#gw_next_texture w#}"
    using mset_map_filter_update [OF l3, of gs_texture slot] slot by (simp add: channel_textures_def ch)
  then have "mset (concat (map channel_textures (?chs[i := ch]))) + mset ?old =
      mset (concat (map channel_textures ?chs)) + {#gw_next_texture w#}"
    by (rule mset_swap [OF mset_concat_update [OF len(1)]])
  with acts pos wf' inv w' show ?thesis
    by (auto simp: gn_inv_def channels_wf_def resources_wf_def live_textures_def live_actors_def list_all_update)
qed

section \<open>Handling a buffer\<close>

definition same_ledgers :: "gn_world \<Rightarrow> gn_world \<Rightarrow> bool" where
  "same_ledgers w w' \<longleftrightarrow>
     gw_next_actor w' = gw_next_actor w \<and> gw_next_texture w' = gw_next_texture w \<and> gw_unref w' = gw_unref w \<and>
     gw_destroyed w' = gw_destroyed w"

lemma gn_inv_same: "gn_inv state w \<Longrightarrow> same_ledgers w w' \<Longrightarrow> gn_inv state w'"
  by (simp add: gn_inv_def resources_wf_def same_ledgers_def)

definition same_fds :: "gn_world \<Rightarrow> gn_world \<Rightarrow> bool" where
  "same_fds w w' \<longleftrightarrow> gw_closed w' = gw_closed w \<and> gw_waited w' = gw_waited w \<and> gw_hooks w' = gw_hooks w"

lemma put_channel_same: "put_channel i (ps_channels state ! i) state = state"
  by (simp add: put_channel_def)

lemma bind_gn_channel_inv:
  assumes inv: "gn_inv state w" and i: "i < 4" and b: "bind_gn_channel env state bf i w = (r, w')"
  shows "same_fds w w' \<and>
    (case r of None \<Rightarrow> gn_inv state w' \<and> \<not> gc_active (ps_channels state ! i)
     | Some ch \<Rightarrow> gc_active ch \<and> gn_inv (put_channel i ch state) w' \<and> gc_slots ch = gc_slots (ps_channels state ! i))"
proof (cases "gc_active (ps_channels state ! i)")
  case True
  with b inv show ?thesis
    by (auto simp: bind_gn_channel_def Let_def put_channel_same same_fds_def)
next
  case False
  obtain found w1 where m: "match_monitor env state bf w = (found, w1)" by force
  note w1 = match_monitor_world [OF m]
  have inv1: "gn_inv state w1"
    by (rule gn_inv_same [OF inv]) (subst w1, simp add: same_ledgers_def)
  have fds1: "same_fds w w1" by (subst w1) (simp add: same_fds_def)
  show ?thesis
  proof (cases found)
    case None
    with b m False inv1 fds1 show ?thesis by (auto simp: bind_gn_channel_def Let_def)
  next
    case (Some mon)
    obtain a w2 where c: "create_channel_actor (ge_clutter env) mon w1 = (a, w2)" by force
    obtain calls children where w2:
      "w2 = w1\<lparr>gw_next_actor := Suc (gw_next_actor w1), gw_calls := calls, gw_children := children\<rparr>"
      using create_channel_actor_effect [OF c] by blast
    let ?ch = "(ps_channels state ! i)\<lparr>gc_monitor := mon, gc_display_actor := Some a, gc_active := True\<rparr>"
    have r: "r = Some ?ch" "w' = w2" using b m c Some False by (auto simp: bind_gn_channel_def Let_def)
    have "gn_inv (put_channel i ?ch state) w2"
      using Some m create_channel_actor_effect(1) [OF c]
      by (intro gn_inv_bind [OF inv1 i False, where m = mon]) (auto simp: w2 dest: match_monitor_free)
    moreover have "same_fds w w2" using fds1 by (simp add: same_fds_def w2)
    ultimately show ?thesis using r by simp
  qed
qed

lemma import_effect:
  "wallpiper_egl_import_dmabuf eg d width height stride off md w = Some (r, w') \<Longrightarrow>
     (r = None \<and> w' = w) \<or>
     (r = Some (gw_next_texture w) \<and> w' = w\<lparr>gw_next_texture := Suc (gw_next_texture w)\<rparr>)"
  by (auto simp: wallpiper_egl_import_dmabuf_def split: if_splits)

lemma fill_slot_effect:
  assumes "fill_slot l bf t ch w = Some (ch', w')"
  shows "ch' = ch\<lparr>gc_slots := (gc_slots ch)[l := \<lparr>gs_used = True, gs_width = bf_width bf, gs_height = bf_height bf,
      gs_texture = Some t\<rparr>]\<rparr>"
    and "gw_next_actor w' = gw_next_actor w \<and> gw_next_texture w' = gw_next_texture w \<and>
      gw_unref w' = gw_unref w @ (case gs_texture (gc_slots ch ! l) of None \<Rightarrow> [] | Some t \<Rightarrow> [t]) \<and>
      gw_destroyed w' = gw_destroyed w \<and> same_fds w w'"
  using assms by (auto simp: fill_slot_def Let_def gn_ops same_fds_def split: option.splits)

lemma accept_buf_inv:
  assumes inv: "gn_inv state w" and slot: "unat (bf_wire_slot bf) < 12"
    and a: "accept_buf env state bf d w = Some (state', w')"
  shows "gn_inv state' w' \<and> same_fds (gn_close d w) w'"
proof -
  let ?i = "unat (bf_wire_slot bf) div 3" and ?l = "unat (bf_wire_slot bf) mod 3"
  have i: "?i < 4" "?l < 3" using slot by auto
  obtain r w1 where b: "bind_gn_channel env state bf ?i w = (r, w1)" by force
  note B = bind_gn_channel_inv [OF inv i(1) b]
  show ?thesis
  proof (cases r)
    case None
    with a b B show ?thesis
      by (auto simp: accept_buf_def Let_def gn_close_def same_fds_def intro: gn_inv_same simp: same_ledgers_def)
  next
    case (Some ch)
    with B have ch: "gc_active ch" "gn_inv (put_channel ?i ch state) w1" "same_fds w w1" by auto
    from inv i have len: "?i < length (ps_channels state)" by (simp add: gn_inv_def channels_wf_def)
    from a b Some obtain t w2 where t: "wallpiper_egl_import_dmabuf (ge_egl env) d (bf_width bf) (bf_height bf)
        (bf_stride bf) 0 (bf_modifier bf) w1 = Some (t, w2)"
      by (auto simp: accept_buf_def Let_def split: option.splits)
    show ?thesis
    proof (cases t)
      case None
      with a b Some t import_effect [OF t] ch show ?thesis
        by (auto simp: accept_buf_def Let_def gn_close_def same_fds_def intro: gn_inv_same simp: same_ledgers_def)
    next
      case (Some tx)
      from import_effect [OF t] Some have w2: "tx = gw_next_texture w1" "w2 = w1\<lparr>gw_next_texture := Suc (gw_next_texture w1)\<rparr>"
        by auto
      from a b \<open>r = Some ch\<close> t Some obtain ch' where f: "fill_slot ?l bf tx ch (gn_close d w2) = Some (ch', w')"
        and s': "state' = put_channel ?i ch' state"
        by (auto simp: accept_buf_def Let_def)
      note F = fill_slot_effect [OF f]
      have "gn_inv (put_channel ?i ch' (put_channel ?i ch state)) w'"
        by (rule gn_inv_fill [OF ch(2) i, where slot = "\<lparr>gs_used = True, gs_width = bf_width bf,
              gs_height = bf_height bf, gs_texture = Some tx\<rparr>"])
          (use F ch len w2 in \<open>simp_all add: gn_close_def\<close>)
      then show ?thesis using F(2) ch(3) w2 s' by (simp add: same_fds_def gn_close_def)
    qed
  qed
qed

section \<open>Descriptors\<close>

definition settled_fds :: "gn_world \<Rightarrow> fd multiset" where
  "settled_fds w = mset (gw_closed w) + mset (gw_waited w)"

lemma same_fds_settled: "same_fds w w' \<Longrightarrow> settled_fds w' = settled_fds w \<and> gw_hooks w' = gw_hooks w"
  by (simp add: same_fds_def settled_fds_def)

lemma close_all_eq: "gn_close_all ds w = w\<lparr>gw_closed := gw_closed w @ ds\<rparr>"
  by (induction ds arbitrary: w) (simp_all add: gn_close_all_def gn_close_def)

lemma wait_sync_effect:
  "settled_fds (wallpiper_egl_wait_sync_fd eg d w) = settled_fds w + mset (if d < 0 then [] else [d])"
  "same_ledgers w (wallpiper_egl_wait_sync_fd eg d w)"
  "gw_hooks (wallpiper_egl_wait_sync_fd eg d w) = gw_hooks w"
  by (simp_all add: wallpiper_egl_wait_sync_fd_def gn_close_def settled_fds_def same_ledgers_def)

lemma settled_close: "settled_fds (gn_close d w) = add_mset d (settled_fds w)" "gw_hooks (gn_close d w) = gw_hooks w"
  "same_ledgers w (gn_close d w)"
  by (simp_all add: settled_fds_def gn_close_def same_ledgers_def)

lemma handle_buf_effect:
  assumes inv: "gn_inv state w" and fds: "length fds \<le> 2" "\<forall>d \<in> set fds. 0 \<le> d"
    and h: "handle_buf_message env state parts fds w = Some (state', w')"
  shows "gn_inv state' w' \<and> settled_fds w' = settled_fds w + mset fds \<and> gw_hooks w' = gw_hooks w"
proof (cases "length parts < 7")
  case True
  with h inv show ?thesis
    by (auto simp: handle_buf_message_def close_all_eq settled_fds_def same_ledgers_def intro: gn_inv_same)
next
  case False
  let ?bf = "read_buf_fields (ge_glib env) parts"
  let ?sync = "if 1 < length fds then fds ! 1 else - 1"
  let ?w = "wallpiper_egl_wait_sync_fd (ge_egl env) ?sync w"
  have inv1: "gn_inv state ?w" using gn_inv_same [OF inv wait_sync_effect(2)] .
  show ?thesis
  proof (cases fds)
    case Nil
    with False h inv1 wait_sync_effect show ?thesis by (auto simp: handle_buf_message_def Let_def)
  next
    case (Cons d rest)
    have d: "0 \<le> d" using fds Cons by simp
    have sync: "mset fds = add_mset d (mset (if ?sync < 0 then [] else [?sync]))"
      using Cons fds by (cases rest) auto
    have "gn_inv state' w' \<and> same_fds (gn_close d ?w) w'"
    proof (cases "12 \<le> unat (bf_wire_slot ?bf)")
      case True
      then show ?thesis
        using False Cons d h inv1 gn_inv_same [OF inv1 settled_close(3)]
        by (auto simp: handle_buf_message_def Let_def same_fds_def)
    next
      case slot: False
      show ?thesis
        by (rule accept_buf_inv [OF inv1, where bf = ?bf and env = env])
          (use slot False Cons d h in \<open>auto simp: handle_buf_message_def Let_def\<close>)
    qed
    then show ?thesis
      using same_fds_settled [of "gn_close d ?w" w'] wait_sync_effect [where eg = "ge_egl env" and d = ?sync and w = w] sync
      by (simp add: settled_close)
  qed
qed

lemma handle_frame_effect:
  assumes inv: "gn_inv state w" and fds: "\<forall>d \<in> set fds. 0 \<le> d"
    and h: "handle_frame_message env state parts fds w = Some (state', w')"
  shows "gn_inv state' w' \<and> settled_fds w' = settled_fds w + mset (take 1 fds) \<and> gw_hooks w' = gw_hooks w"
proof -
  let ?sync = "if 0 < length fds then fds ! 0 else - 1"
  let ?w = "wallpiper_egl_wait_sync_fd (ge_egl env) ?sync w"
  have inv1: "gn_inv state ?w" using gn_inv_same [OF inv wait_sync_effect(2)] .
  have sync: "mset (take 1 fds) = mset (if ?sync < 0 then [] else [?sync])"
    using fds by (cases fds) auto
  have "state' = state \<and> same_fds ?w w' \<and> same_ledgers ?w w'"
    using h by (auto simp: handle_frame_message_def Let_def gn_ops same_fds_def same_ledgers_def
        split: if_splits option.splits)
  then show ?thesis
    using same_fds_settled [of ?w w'] wait_sync_effect [where eg = "ge_egl env" and d = ?sync and w = w] sync inv1
    by (auto intro: gn_inv_same)
qed

text \<open>The words of a datagram as the listener splits them.\<close>

definition message_parts :: "glib \<Rightarrow> datagram \<Rightarrow> string list" where
  "message_parts gl dg = gl_strsplit gl (gl_strstrip gl (cstr (take 255 (dg_bytes dg))))"

definition is_frame_message :: "glib \<Rightarrow> datagram \<Rightarrow> bool" where
  "is_frame_message gl dg \<longleftrightarrow> (case message_parts gl dg of [] \<Rightarrow> False | p # _ \<Rightarrow> p = ''FRAME'')"

lemma capture_effect:
  assumes inv: "gn_inv state w" and fds: "\<forall>d \<in> set (dg_fds dg). 0 \<le> d"
    and h: "on_capture_socket_readable env False (Some dg) state w = Some (stays, state', w')"
  shows "stays \<and> gn_inv state' w' \<and> gw_hooks w' = gw_hooks w \<and>
    settled_fds w' = settled_fds w + mset (take (if is_frame_message (ge_glib env) dg then 1 else 2) (dg_fds dg))"
proof -
  let ?parts = "message_parts (ge_glib env) dg" and ?fds = "take 2 (dg_fds dg)"
  have two: "take MAX_RECV_FDS (installed_fds dg) = ?fds" by (simp add: installed_fds_def min_def)
  have pos: "\<forall>d \<in> set ?fds. 0 \<le> d" using fds by (auto dest: in_set_takeD)
  have len: "length ?fds \<le> 2" by simp
  consider (buf) r where "?parts = ''BUF'' # r" | (frame) r where "?parts = ''FRAME'' # r"
    | (other) "\<not> (1 \<le> length ?parts \<and> ?parts ! 0 = ''BUF'')" "\<not> (1 \<le> length ?parts \<and> ?parts ! 0 = ''FRAME'')"
    by (cases ?parts) auto
  then show ?thesis
  proof cases
    case buf
    with h have "stays" "handle_buf_message env state ?parts ?fds w = Some (state', w')"
      by (auto simp: on_capture_socket_readable_def recv_capture_message_def two message_parts_def Let_def
          simp del: MAX_RECV_FDS_def)
    with handle_buf_effect [OF inv len pos] buf show ?thesis by (simp add: is_frame_message_def)
  next
    case frame
    with h have "stays" "handle_frame_message env state ?parts ?fds w = Some (state', w')"
      by (auto simp: on_capture_socket_readable_def recv_capture_message_def two message_parts_def Let_def
          simp del: MAX_RECV_FDS_def)
    with handle_frame_effect [OF inv pos] frame show ?thesis by (simp add: is_frame_message_def)
  next
    case other
    with h have "stays" "state' = state" "w' = gn_close_all ?fds w"
      by (auto simp: on_capture_socket_readable_def recv_capture_message_def two message_parts_def [symmetric] Let_def
          simp del: MAX_RECV_FDS_def)
    moreover have "\<not> is_frame_message (ge_glib env) dg"
      using other(2) by (auto simp: is_frame_message_def split: list.splits)
    ultimately show ?thesis
      using inv by (auto simp: close_all_eq settled_fds_def same_ledgers_def intro: gn_inv_same)
  qed
qed

section \<open>The other events\<close>

lemma answer_ctl_inv:
  assumes "gn_inv state w" and "answer_ctl env pointer line state w = Some (response, state', w')"
  shows "gn_inv state' w' \<and> gw_hooks w' = gw_hooks w"
proof -
  have hooks: "wallpiper_capture_listener_detach cl state w = (st, v) \<Longrightarrow> gw_hooks v = gw_hooks w" for cl st v
    using clear_channels_eq [of cl "ps_channels state" w]
    by (auto simp: wallpiper_capture_listener_detach_def)
  have flag: "gn_inv (state\<lparr>ps_debug_enabled := b\<rparr>) w" for b
    using assms(1) by (simp add: gn_inv_def channels_wf_def resources_wf_def live_textures_def live_actors_def)
  show ?thesis
    using assms detach_inv [OF assms(1)] hooks flag
    by (auto simp: answer_ctl_def split: if_splits prod.splits)
qed

lemma gn_ctl_inv [wp_inv]:
  assumes "gn_inv state w" and "on_ctl_socket_connectable env pointer e connection state w = Some (stays, response, state', w')"
  shows "gn_inv state' w' \<and> set (gw_hooks w) \<subseteq> insert Ctl_source (set (gw_hooks w')) \<and> set (gw_hooks w') \<subseteq> set (gw_hooks w)"
proof (cases e)
  case True
  with assms(2) assms(1) show ?thesis
    by (auto simp: on_ctl_socket_connectable_def same_ledgers_def intro: gn_inv_same dest: set_remove1_subset [THEN subsetD])
      (metis in_set_remove1)
next
  case False
  have close: "gn_inv st v \<Longrightarrow> gn_inv st (gn_close d v)" for st v d
    by (rule gn_inv_same [OF _ settled_close(3)])
  show ?thesis
    using False assms answer_ctl_inv [OF assms(1), of env pointer] close
    by (auto simp: on_ctl_socket_connectable_def split: ctl_connection.splits option.splits if_splits
        simp: settled_close)
qed

lemma matching_monitor_pos: "matching_monitor ms m = Some n \<Longrightarrow> mg_x n = mg_x m \<and> mg_y n = mg_y m \<and> n \<in> set ms"
  by (induction ms) (auto split: if_splits)

lemma refresh_channel_effect:
  assumes "refresh_channel ms ch w = Some (ch', w')"
  shows "gc_active ch' = gc_active ch \<and> gc_display_actor ch' = gc_display_actor ch \<and> gc_slots ch' = gc_slots ch \<and>
    monitor_pos ch' = monitor_pos ch" "same_ledgers w w' \<and> same_fds w w'"
  using assms
  by (auto simp: refresh_channel_def monitor_pos_def same_ledgers_def same_fds_def gn_call_def dest: matching_monitor_pos
      split: if_splits option.splits)

lemma refresh_channels_effect:
  "refresh_channels ms chs w = Some (chs', w') \<Longrightarrow>
     map gc_active chs' = map gc_active chs \<and> map gc_display_actor chs' = map gc_display_actor chs \<and>
     map gc_slots chs' = map gc_slots chs \<and> map monitor_pos chs' = map monitor_pos chs \<and>
     same_ledgers w w' \<and> same_fds w w'"
proof (induction chs arbitrary: w chs' w')
  case (Cons ch chs)
  from Cons.prems obtain ch1 w1 chs1 where r: "refresh_channel ms ch w = Some (ch1, w1)"
    "refresh_channels ms chs w1 = Some (chs1, w')" "chs' = ch1 # chs1"
    by (auto split: option.splits)
  with Cons.IH [OF r(2)] refresh_channel_effect [OF r(1)] show ?case
    by (simp add: same_ledgers_def same_fds_def)
qed (simp add: same_ledgers_def same_fds_def)

lemma positions_zip: "positions chs = map snd (filter fst (zip (map gc_active chs) (map monitor_pos chs)))"
  by (induction chs) (simp_all add: positions_def)

lemma wf_zip: "list_all channel_wf chs \<longleftrightarrow>
  list_all (\<lambda>(act, actor, slots). channel_wf \<lparr>gc_active = act, gc_display_actor = actor, gc_slots = slots,
    gc_monitor = zero_geometry\<rparr>)
    (zip (map gc_active chs) (zip (map gc_display_actor chs) (map gc_slots chs)))"
  by (induction chs) (simp_all add: channel_wf_def)

lemma textures_map: "map channel_textures chs = map (List.map_filter gs_texture) (map gc_slots chs)"
  by (induction chs) (simp_all add: channel_textures_def)

lemma actors_map: "List.map_filter gc_display_actor chs = List.map_filter (\<lambda>a. a) (map gc_display_actor chs)"
  by (induction chs) (simp_all add: List.map_filter_simps split: option.splits)

lemma monitors_inv [wp_inv]:
  assumes inv: "gn_inv state w" and m: "on_monitors_changed env state w = Some (state', w')"
  shows "gn_inv state' w' \<and> gw_hooks w' = gw_hooks w"
proof -
  from m obtain chs where r: "refresh_channels (wallpiper_monitor_detect_all (ge_backend env) 4) (ps_channels state) w
      = Some (chs, w')" and s: "state' = state\<lparr>ps_channels := chs\<rparr>"
    by (auto simp: on_monitors_changed_def)
  note R = refresh_channels_effect [OF r]
  have wf: "list_all channel_wf chs"
    if "map gc_active chs = map gc_active ds" "map gc_display_actor chs = map gc_display_actor ds"
      "map gc_slots chs = map gc_slots ds" "list_all channel_wf ds" for chs ds
    using that by (simp only: wf_zip)
  have pos: "positions chs = positions ds"
    if "map gc_active chs = map gc_active ds" "map monitor_pos chs = map monitor_pos ds" for chs ds
    using that by (simp only: positions_zip)
  have tx: "map channel_textures chs = map channel_textures ds" if "map gc_slots chs = map gc_slots ds" for chs ds
    using that by (simp only: textures_map)
  have ac: "List.map_filter gc_display_actor chs = List.map_filter gc_display_actor ds"
    if "map gc_display_actor chs = map gc_display_actor ds" for chs ds
    using that by (simp only: actors_map)
  have len: "length chs = length (ps_channels state)" using R by (metis length_map)
  have c: "channels_wf state'"
    using R inv wf [of chs "ps_channels state"] pos [of chs "ps_channels state"] len
    by (simp add: s gn_inv_def channels_wf_def)
  have "live_textures state' = live_textures state" "live_actors state' = live_actors state"
    using tx [of chs "ps_channels state"] ac [of chs "ps_channels state"] R
    by (auto simp: s live_textures_def live_actors_def)
  then have "resources_wf state' w'"
    using R inv by (simp add: gn_inv_def resources_wf_def same_ledgers_def)
  with c R show ?thesis by (simp add: gn_inv_def same_fds_def)
qed

lemma reassert_inv [wp_inv]:
  "gn_inv state w \<Longrightarrow> gn_inv state (wallpiper_actor_stacking_reassert cl state w) \<and>
     gw_hooks (wallpiper_actor_stacking_reassert cl state w) = gw_hooks w"
  by (auto simp: wallpiper_actor_stacking_reassert_def same_ledgers_def split: option.splits intro: gn_inv_same)

lemma zero_portal_inv:
  assumes "ps_channels state = ps_channels zero_portal" and "gw_next_actor w = 0" and "gw_next_texture w = 0"
    and "gw_unref w = []" and "gw_destroyed w = []"
  shows "gn_inv state w"
  using assms
  by (simp add: gn_inv_def channels_wf_def resources_wf_def zero_portal_def zero_channel_def gn_zero_slot_def
      channel_wf_def slot_wf_def positions_def live_textures_def live_actors_def channel_textures_def numeral_eq_Suc)

lemmas start_defs = wallpiper_portal_start_def wallpiper_capture_listener_start_def wallpiper_ctl_listener_start_def
  wallpiper_actor_stacking_connect_def gn_unlink_def gn_close_def

lemma start_inv:
  assumes "wallpiper_portal_start env se None (fresh_world children) = (True, Some state, w)"
  shows "gn_inv state w \<and> set (gw_hooks w) =
     {Capture_source, Ctl_source} \<union> (if ge_backend env = None then {} else {Monitors_changed}) \<union>
     (if se_meta_display se then {Restacked, Window_created} else {})"
proof -
  from assms have "ps_channels state = ps_channels zero_portal" "gw_next_actor w = 0" "gw_next_texture w = 0"
    "gw_unref w = []" "gw_destroyed w = []"
    by (auto simp: start_defs fresh_world_def Let_def split: if_splits prod.splits)
  then have "gn_inv state w" by (rule zero_portal_inv)
  moreover from assms have "set (gw_hooks w) =
     {Capture_source, Ctl_source} \<union> (if ge_backend env = None then {} else {Monitors_changed}) \<union>
     (if se_meta_display se then {Restacked, Window_created} else {})"
    by (auto simp: start_defs fresh_world_def Let_def split: if_splits prod.splits)
  ultimately show ?thesis ..
qed

lemma reach_inv: "gn_reach state w \<Longrightarrow> gn_inv state w"
proof (induction rule: gn_reach.induct)
  case (started env se children state w)
  then show ?case using start_inv by blast
next
  case (capture state w incoming env err_or_hup stays state' w')
  show ?case
  proof (cases "err_or_hup \<or> incoming = None")
    case True
    with capture show ?thesis
      by (auto simp: on_capture_socket_readable_def recv_capture_message_def same_ledgers_def intro: gn_inv_same
          split: if_splits)
  next
    case False
    then obtain dg where dg: "incoming = Some dg" "\<not> err_or_hup" by auto
    show ?thesis
      by (rule capture_effect [THEN conjunct2, THEN conjunct1, of state w dg env stays])
        (use capture dg in auto)
  qed
next
  case (control state w env pointer err_or_hup connection stays response state' w')
  then show ?case using gn_ctl_inv by blast
next
  case (monitors state w env state' w')
  then show ?case using monitors_inv by blast
next
  case (restacked state w cl)
  then show ?case using reassert_inv by (simp add: on_display_restacked_def)
next
  case (window state w cl)
  then show ?case using reassert_inv by (simp add: on_window_created_def)
next
  case (shell state w children)
  then show ?case by (auto intro: gn_inv_same simp: same_ledgers_def)
qed

section \<open>Handlers\<close>

definition hooks_wf :: "WallpiperPortalState \<Rightarrow> gn_world \<Rightarrow> bool" where
  "hooks_wf state w \<longleftrightarrow>
     distinct (gw_hooks w) \<and> (Monitors_changed \<in> set (gw_hooks w) \<longrightarrow> ps_monitors_changed_handler state) \<and>
     (Restacked \<in> set (gw_hooks w) \<or> Window_created \<in> set (gw_hooks w) \<longrightarrow> ps_meta_display state)"

text \<open>The fields that are set at the start.\<close>

definition start_fields :: "WallpiperPortalState \<Rightarrow> fd \<times> fd \<times> bool \<times> bool" where
  "start_fields state = (ps_capture_socket_fd state, ps_ctl_socket_fd state, ps_meta_display state,
     ps_monitors_changed_handler state)"

lemma hooks_wf_same: "hooks_wf state w \<Longrightarrow> start_fields state' = start_fields state \<Longrightarrow> gw_hooks w' = gw_hooks w \<Longrightarrow> hooks_wf state' w'"
  by (simp add: hooks_wf_def start_fields_def)

lemma hooks_wf_remove: "hooks_wf state w \<Longrightarrow> gw_hooks w' = remove1 h (gw_hooks w) \<Longrightarrow> hooks_wf state w'"
  by (auto simp: hooks_wf_def dest: set_remove1_subset [THEN subsetD])

lemma put_channel_fields [simp]: "start_fields (put_channel i ch state) = start_fields state"
  by (simp add: start_fields_def put_channel_def)

lemma capture_fields:
  "on_capture_socket_readable env e incoming state w = Some (stays, state', w') \<Longrightarrow> start_fields state' = start_fields state"
  by (auto simp: on_capture_socket_readable_def handle_buf_message_def handle_frame_message_def accept_buf_def Let_def
      split: if_splits option.splits prod.splits)

lemma ctl_fields:
  "on_ctl_socket_connectable env pointer e connection state w = Some (stays, response, state', w') \<Longrightarrow>
     start_fields state' = start_fields state"
  by (auto simp: on_ctl_socket_connectable_def answer_ctl_def wallpiper_capture_listener_detach_def start_fields_def
      split: if_splits option.splits prod.splits ctl_connection.splits)

lemma monitors_fields: "on_monitors_changed env state w = Some (state', w') \<Longrightarrow> start_fields state' = start_fields state"
  by (auto simp: on_monitors_changed_def start_fields_def)

lemma capture_hooks:
  assumes "gn_inv state w" and "\<And>dg d. incoming = Some dg \<Longrightarrow> d \<in> set (dg_fds dg) \<Longrightarrow> 0 \<le> d"
    and "on_capture_socket_readable env e incoming state w = Some (stays, state', w')"
  shows "gw_hooks w' = gw_hooks w \<or> gw_hooks w' = remove1 Capture_source (gw_hooks w)"
proof (cases "e \<or> incoming = None")
  case True
  with assms(3) show ?thesis
    by (auto simp: on_capture_socket_readable_def recv_capture_message_def split: if_splits)
next
  case False
  then obtain dg where dg: "incoming = Some dg" "\<not> e" by auto
  then show ?thesis using capture_effect [of state w dg env stays state' w'] assms by simp
qed

lemma ctl_hooks:
  assumes "gn_inv state w"
    and "on_ctl_socket_connectable env pointer e connection state w = Some (stays, response, state', w')"
  shows "gw_hooks w' = gw_hooks w \<or> gw_hooks w' = remove1 Ctl_source (gw_hooks w)"
  using assms answer_ctl_inv [OF assms(1), of env pointer]
  by (auto simp: on_ctl_socket_connectable_def settled_close split: ctl_connection.splits option.splits if_splits)

lemma reach_hooks: "gn_reach state w \<Longrightarrow> hooks_wf state w"
proof (induction rule: gn_reach.induct)
  case (started env se children state w)
  then show ?case
    by (auto simp: hooks_wf_def start_defs fresh_world_def Let_def split: if_splits prod.splits)
next
  case (capture state w incoming env err_or_hup stays state' w')
  have "gw_hooks w' = gw_hooks w \<or> gw_hooks w' = remove1 Capture_source (gw_hooks w)"
    by (rule capture_hooks [OF reach_inv [OF capture(1)] _ capture(4)]) (fact capture(3))
  then have "hooks_wf state w'"
    using hooks_wf_same [OF capture(5)] hooks_wf_remove [OF capture(5)] by blast
  then show ?case by (rule hooks_wf_same) (simp_all add: capture_fields [OF capture(4)])
next
  case (control state w env pointer err_or_hup connection stays response state' w')
  have "hooks_wf state w'"
    using ctl_hooks [OF reach_inv [OF control(1)] control(3)] hooks_wf_same [OF control(4)]
      hooks_wf_remove [OF control(4)] by blast
  then show ?case by (rule hooks_wf_same) (simp_all add: ctl_fields [OF control(3)])
next
  case (monitors state w env state' w')
  then show ?case
    using hooks_wf_same [OF monitors(4) monitors_fields [OF monitors(3)]] monitors_inv [OF reach_inv] by blast
next
  case (restacked state w cl)
  then show ?case using reassert_inv [OF reach_inv] hooks_wf_same by (metis on_display_restacked_def)
next
  case (window state w cl)
  then show ?case using reassert_inv [OF reach_inv] hooks_wf_same by (metis on_window_created_def)
next
  case (shell state w children)
  then show ?case by (simp add: hooks_wf_def)
qed

section \<open>Properties of the portal\<close>

text \<open>
  C7. In every state the GNOME portal can reach, whatever datagrams, control requests, monitor changes
  and restackings arrive: there are four channels of three slots, a channel is active exactly when it
  has an actor, a slot is used exactly when it holds a texture, an idle channel holds none, no two
  active channels are placed on the same monitor, and every texture and every actor that was ever
  created is either held in exactly one place or was released exactly once.
\<close>

theorem gnome_portal_invariant: "gn_reach state w \<Longrightarrow> gn_inv state w"
  by (rule reach_inv)

definition plain_env :: gn_env where
  "plain_env =
     \<lparr>ge_glib = \<lparr>gl_strstrip = \<lambda>s. s, gl_strsplit = tokens (\<lambda>c. c = SP), gl_strtoull = \<lambda>s. of_nat (digits_val 10 s),
        gl_strtoll = \<lambda>s. case strip_sign s of (neg, ds) \<Rightarrow> if neg then - int (digits_val 10 ds) else int (digits_val 10 ds)\<rparr>,
      ge_clutter = \<lparr>cl_insert_child_above = \<lambda>cs c s. cs @ [c], cl_add_child = \<lambda>cs c. cs @ [c],
                    cl_set_child_above_sibling = \<lambda>cs c s. cs,
                    cl_destroy = \<lambda>cs a. filter (\<lambda>c. fst c \<noteq> a) cs\<rparr>,
      ge_egl = \<lparr>eg_create_image = True, eg_destroy_image = True, eg_create_sync = True, eg_client_wait_sync = True,
                eg_sync_of = \<lambda>d. True, eg_image_of = \<lambda>attribs. True, eg_texture_of = \<lambda>width height. True\<rparr>,
      ge_backend = Some \<lparr>mgr_primary = None,
        mgr_logical_monitors = [\<lparr>lm_x = 0, lm_y = 0, lm_width = 64, lm_height = 32, lm_scale = Fin 1,
          lm_monitors = [\<lparr>mm_connector = Some ''DP-1'', mm_mode = Some (64, 32)\<rparr>]\<rparr>]\<rparr>,
      ge_xrandr = \<lparr>xr_open_display = True,
        xr_resources = Some [Some \<lparr>xo_name = ''DP-1'', xo_connected = True, xo_has_crtc = True,
          xo_crtc_info = Some \<lparr>xc_x = 0, xc_y = 0, xc_width = 64, xc_height = 32, xc_rotation = 1\<rparr>\<rparr>]\<rparr>\<rparr>"

definition plain_start :: start_env where
  "plain_start = \<lparr>se_is_backend = True, se_is_actor = True, se_egl_display = True, se_meta_display = True,
     se_capture_fd = 7, se_capture_bound = True, se_ctl_fd = 8, se_ctl_bound = True\<rparr>"

definition plain_buf :: datagram where
  "plain_buf = \<lparr>dg_bytes = ''BUF 1 64 32 0 256 0 0 0'', dg_fds = [20, 21]\<rparr>"

definition plain_run :: "(WallpiperPortalState \<times> gn_world) option" where
  "plain_run =
     (case wallpiper_portal_start plain_env plain_start None (fresh_world [(Shell_actor 0, ''MetaBackgroundGroup'')]) of
        (ok, Some state, w) \<Rightarrow>
          if ok then map_option snd (on_capture_socket_readable plain_env False (Some plain_buf) state w) else None
      | _ \<Rightarrow> None)"

definition plain_state :: WallpiperPortalState where "plain_state = fst (the plain_run)"
definition plain_world :: gn_world where "plain_world = snd (the plain_run)"

lemma plain_run_value:
  "plain_run \<noteq> None" "live_textures plain_state = [0]" "live_actors plain_state = [0]"
  "gw_closed plain_world = [20]" "gw_waited plain_world = [21]" "gc_active (ps_channels plain_state ! 0)"
  "gw_unref plain_world = []"
  by code_simp+

lemma plain_reach: "gn_reach plain_state plain_world"
proof -
  let ?start = "wallpiper_portal_start plain_env plain_start None (fresh_world [(Shell_actor 0, ''MetaBackgroundGroup'')])"
  obtain state w where s: "?start = (True, Some state, w)"
    and c: "map_option snd (on_capture_socket_readable plain_env False (Some plain_buf) state w) = Some (plain_state, plain_world)"
    using plain_run_value(1)
    by (auto simp: plain_state_def plain_world_def plain_run_def split: prod.splits option.splits if_splits)
  from s have r: "gn_reach state w" by (rule gn_reach.started)
  from c obtain stays where h: "on_capture_socket_readable plain_env False (Some plain_buf) state w
      = Some (stays, plain_state, plain_world)" by auto
  show ?thesis
    by (rule gn_reach.capture [OF r _ _ h]) (use start_inv [OF s] in \<open>auto simp: plain_buf_def\<close>)
qed

theorem gnome_portal_invariant_witness:
  "gn_reach plain_state plain_world \<and> gn_inv plain_state plain_world \<and> live_textures plain_state = [0]"
  using plain_reach gnome_portal_invariant [OF plain_reach] plain_run_value by simp

text \<open>
  C11. Stopping the GNOME portal gives everything back: from every reachable state, afterwards each
  texture that was ever imported has had its reference dropped exactly once, each actor has been
  destroyed exactly once, both listening sockets have been closed and removed from the file system, and no
  signal handler or source that uses the freed state is left connected.
\<close>

theorem gnome_stop_releases_everything:
  assumes "gn_reach state w" and "wallpiper_portal_stop env (Some state) w = (portal, w')" and "ge_backend env \<noteq> None"
  shows "portal = None \<and> mset (gw_unref w') = mset [0..<gw_next_texture w] \<and>
    mset (gw_destroyed w') = mset [0..<gw_next_actor w] \<and> gw_hooks w' = [] \<and>
    gw_closed w' = gw_closed w @ [ps_ctl_socket_fd state, ps_capture_socket_fd state] \<and>
    gw_unlinked w' = gw_unlinked w @ [GN_CTL_SOCKET_PATH, GN_CAPTURE_SOCKET_PATH]"
proof -
  note inv = reach_inv [OF assms(1)] and hooks = reach_hooks [OF assms(1)]
  let ?h = "if ps_monitors_changed_handler state then remove1 Monitors_changed (gw_hooks w) else gw_hooks w"
  let ?h2 = "remove1 Capture_source (remove1 Ctl_source ?h)"
  let ?h3 = "if ps_meta_display state then remove1 Window_created (remove1 Restacked ?h2) else ?h2"
  define v where "v = w\<lparr>gw_hooks := ?h2,
      gw_closed := gw_closed w @ [ps_ctl_socket_fd state, ps_capture_socket_fd state],
      gw_unlinked := gw_unlinked w @ [GN_CTL_SOCKET_PATH, GN_CAPTURE_SOCKET_PATH]\<rparr>"
  obtain chs u where u: "clear_channels (ge_clutter env) (ps_channels state) v = (chs, u)" by force
  have stop: "portal = None" "w' = wallpiper_actor_stacking_disconnect state u"
    using assms(2,3) u
    by (auto simp: v_def wallpiper_portal_stop_def wallpiper_ctl_listener_stop_def wallpiper_capture_listener_stop_def
        gn_unlink_def gn_close_def wallpiper_actor_stacking_disconnect_def Let_def split: if_splits)
  obtain children where c: "clear_channels (ge_clutter env) (ps_channels state) v = (map cleared (ps_channels state),
      v\<lparr>gw_unref := gw_unref v @ live_textures state, gw_destroyed := gw_destroyed v @ live_actors state,
        gw_children := children\<rparr>)"
    using clear_channels_eq [of "ge_clutter env" "ps_channels state" v] by (auto simp: live_textures_def live_actors_def)
  have "set ?h3 = {}"
  proof (rule equals0I)
    fix x assume "x \<in> set ?h3"
    with hooks show False by (cases x) (auto simp: hooks_wf_def split: if_splits)
  qed
  then have h3: "?h3 = []" by simp
  have w': "gw_hooks w' = ?h3" "gw_unref w' = gw_unref w @ live_textures state"
    "gw_destroyed w' = gw_destroyed w @ live_actors state" "gw_closed w' = gw_closed v" "gw_unlinked w' = gw_unlinked v"
    using stop(2) c u by (auto simp: wallpiper_actor_stacking_disconnect_def v_def)
  then show ?thesis
    using inv stop(1) v_def h3 by (simp add: gn_inv_def resources_wf_def union_commute)
qed

theorem gnome_stop_releases_everything_witness:
  "\<exists>portal w'. wallpiper_portal_stop plain_env (Some plain_state) plain_world = (portal, w') \<and> portal = None \<and>
     mset (gw_unref w') = mset [0..<gw_next_texture plain_world] \<and> gw_hooks w' = []"
proof -
  obtain portal w' where s: "wallpiper_portal_stop plain_env (Some plain_state) plain_world = (portal, w')" by force
  have "ge_backend plain_env \<noteq> None" by (simp add: plain_env_def)
  from gnome_stop_releases_everything [OF plain_reach s this] s show ?thesis by blast
qed

text \<open>
  C9. The GNOME portal settles every descriptor of a message: of the (at most two) descriptors it takes
  from a datagram, each is closed or handed to EGL exactly once, whatever the message says and on
  every path (malformed, bad slot, no monitor, failed import, displayed). A FRAME message settles its
  first descriptor only: a second one is neither closed nor handed on.
\<close>

theorem gnome_settles_descriptors:
  assumes "gn_reach state w" and "\<forall>d \<in> set (dg_fds dg). 0 \<le> d"
    and "on_capture_socket_readable env False (Some dg) state w = Some (stays, state', w')"
  shows "mset (gw_closed w') + mset (gw_waited w') = mset (gw_closed w) + mset (gw_waited w) +
    mset (take (if is_frame_message (ge_glib env) dg then 1 else 2) (dg_fds dg))"
  using capture_effect [OF reach_inv [OF assms(1)] assms(2,3)] by (simp add: settled_fds_def)

theorem gnome_settles_descriptors_witness:
  "\<exists>state' w'. on_capture_socket_readable plain_env False (Some \<lparr>dg_bytes = ''FRAME 1'', dg_fds = [30, 31]\<rparr>)
       plain_state plain_world = Some (True, state', w') \<and>
     mset (gw_closed w') + mset (gw_waited w') = mset (gw_closed plain_world) + mset (gw_waited plain_world) + {#30#}"
proof -
  let ?dg = "\<lparr>dg_bytes = ''FRAME 1'', dg_fds = [30, 31]\<rparr>"
  have "on_capture_socket_readable plain_env False (Some ?dg) plain_state plain_world \<noteq> None \<and>
      fst (the (on_capture_socket_readable plain_env False (Some ?dg) plain_state plain_world)) \<and>
      is_frame_message (ge_glib plain_env) ?dg" by code_simp
  then obtain state' w' where h: "on_capture_socket_readable plain_env False (Some ?dg) plain_state plain_world
      = Some (True, state', w')" and f: "is_frame_message (ge_glib plain_env) ?dg" by auto
  have "\<forall>d \<in> set (dg_fds ?dg). 0 \<le> d" by simp
  from gnome_settles_descriptors [OF plain_reach this h] f h show ?thesis by simp
qed

lemma fill_slot_defined: "gc_display_actor ch \<noteq> None \<Longrightarrow> fill_slot l bf t ch w \<noteq> None"
  by (auto simp: fill_slot_def Let_def display_slot_def)

lemma accept_buf_defined:
  assumes inv: "gn_inv state w" and slot: "unat (bf_wire_slot bf) < 12"
    and "eg_create_image (ge_egl env)" and "eg_destroy_image (ge_egl env)"
  shows "accept_buf env state bf d w \<noteq> None"
proof -
  let ?i = "unat (bf_wire_slot bf) div 3"
  have i: "?i < 4" using slot by auto
  obtain r w1 where b: "bind_gn_channel env state bf ?i w = (r, w1)" by force
  note B = bind_gn_channel_inv [OF inv i b]
  show ?thesis
  proof (cases r)
    case None
    with b show ?thesis by (auto simp: accept_buf_def Let_def)
  next
    case (Some ch)
    have "channel_wf ch"
      using B Some gn_inv_nth [of "put_channel ?i ch state" w1 ?i] i inv
      by (auto simp: gn_inv_def channels_wf_def)
    then have "gc_display_actor ch \<noteq> None" using B Some by (simp add: channel_wf_def)
    then have "\<exists>w' ch'. fill_slot l bf t ch v = Some (ch', w')" for l t v
      using fill_slot_defined [of ch l bf t v] by auto
    with b Some assms(3,4) show ?thesis
      by (simp add: accept_buf_def Let_def wallpiper_egl_import_dmabuf_def)
  qed
qed

lemma handle_frame_defined:
  fixes state w env parts fds
  assumes inv: "gn_inv state w"
  shows "handle_frame_message env state parts fds w \<noteq> None"
proof -
  have "channel_wf (ps_channels state ! (n div 3))" if "n < 12" for n
    by (rule gn_inv_nth [OF inv]) (use that in simp)
  then have "gc_display_actor (ps_channels state ! (n div 3)) \<noteq> None \<and>
      gs_texture (gc_slots (ps_channels state ! (n div 3)) ! (n mod 3)) \<noteq> None"
    if "n < 12" "gc_active (ps_channels state ! (n div 3))" "gs_used (gc_slots (ps_channels state ! (n div 3)) ! (n mod 3))" for n
    using that by (auto simp: channel_wf_def list_all_length slot_wf_def)
  from this [of "unat (ucast (gl_strtoull (ge_glib env) (parts ! 1)) :: u32)"] show ?thesis
    by (auto simp: handle_frame_message_def Let_def display_slot_def not_le split: option.splits)
qed

lemma refresh_channels_defined: "list_all channel_wf chs \<Longrightarrow> refresh_channels ms chs w \<noteq> None"
proof (induction chs arbitrary: w)
  case (Cons ch chs)
  then have "refresh_channel ms ch w \<noteq> None"
    by (auto simp: refresh_channel_def channel_wf_def split: option.splits)
  then obtain ch1 w1 where "refresh_channel ms ch w = Some (ch1, w1)" by auto
  with Cons.IH [of w1] Cons.prems show ?case by auto
qed simp

text \<open>
  The handlers of the GNOME portal never call a library on a missing object: in every reachable
  state, with the two image functions that EGL provides, the capture handler and the monitor handler
  run to their end on every datagram and every set of monitors.
\<close>

theorem gnome_handlers_defined:
  assumes "gn_reach state w" and "eg_create_image (ge_egl env)" and "eg_destroy_image (ge_egl env)"
  shows "(\<exists>stays state' w'. on_capture_socket_readable env err_or_hup incoming state w = Some (stays, state', w')) \<and>
    (\<exists>state' w'. on_monitors_changed env state w = Some (state', w'))"
proof
  note inv = reach_inv [OF assms(1)]
  have "gn_inv state (wallpiper_egl_wait_sync_fd (ge_egl env) d w)" for d
    by (rule gn_inv_same [OF inv wait_sync_effect(2)])
  from accept_buf_defined [OF this _ assms(2,3)]
  have buf: "handle_buf_message env state parts fds w \<noteq> None" for parts fds
    by (simp add: handle_buf_message_def Let_def not_le)
  show "\<exists>stays state' w'. on_capture_socket_readable env err_or_hup incoming state w = Some (stays, state', w')"
    using buf handle_frame_defined [OF inv]
    by (auto simp: on_capture_socket_readable_def Let_def split: option.splits)
  show "\<exists>state' w'. on_monitors_changed env state w = Some (state', w')"
    using refresh_channels_defined [of "ps_channels state" "wallpiper_monitor_detect_all (ge_backend env) 4" w] inv
    by (auto simp: on_monitors_changed_def gn_inv_def channels_wf_def)
qed

theorem gnome_handlers_defined_witness:
  "\<exists>stays state' w'. on_capture_socket_readable plain_env False (Some plain_buf) plain_state plain_world
     = Some (stays, state', w')"
  using gnome_handlers_defined [OF plain_reach, of plain_env False "Some plain_buf"] by (simp add: plain_env_def)

end
