(* ===== verification/WP_Gnome_Show.thy ===== *)
theory WP_Gnome_Show
  imports WP_Gnome_Props
begin

text \<open>
  What the GNOME portal shows and answers: a buffer as the Vulkan layer sends it ends up on the monitor
  at its position, the actors are kept above the background, and every request of the control
  protocol gets an answer that the protocol's client reads. The documented behaviour of the string
  functions (\<open>glib_documented\<close>) and of the list of children (\<open>clutter_documented\<close>) are hypotheses.
\<close>

section \<open>Documented behaviour\<close>

fun join_words :: "string list \<Rightarrow> string" where
  "join_words [] = []"
| "join_words [w] = w"
| "join_words (w # ws) = w @ SP # join_words ws"

text \<open>
  \<open>g_strstrip\<close> removes white space from both ends, \<open>g_strsplit\<close> with a blank as delimiter splits at
  every blank, and the two conversions read a decimal number that is in their range.
\<close>

definition is_strip_space :: "char \<Rightarrow> bool" where
  "is_strip_space c \<longleftrightarrow> c = SP \<or> c = TAB \<or> c = LF \<or> c = CR"

definition glib_documented :: "glib \<Rightarrow> bool" where
  "glib_documented gl \<longleftrightarrow>
     (\<forall>s t. s \<noteq> [] \<and> \<not> is_space (hd s) \<and> \<not> is_space (last s) \<and> (\<forall>c \<in> set t. is_strip_space c) \<longrightarrow>
        gl_strstrip gl (s @ t) = s) \<and>
     (\<forall>ws. (\<forall>w \<in> set ws. w \<noteq> [] \<and> SP \<notin> set w) \<longrightarrow> gl_strsplit gl (join_words ws) = ws) \<and>
     (\<forall>n < 2 ^ 64. gl_strtoull gl (show_nat n) = of_nat n) \<and>
     (\<forall>i. - (2 ^ 63) \<le> i \<and> i < 2 ^ 63 \<longrightarrow> gl_strtoll gl (show_int i) = i)"

lemma glib_documentedD:
  assumes "glib_documented gl"
  shows "s \<noteq> [] \<Longrightarrow> \<not> is_space (hd s) \<Longrightarrow> \<not> is_space (last s) \<Longrightarrow> gl_strstrip gl (s @ [LF]) = s"
    and "\<forall>w \<in> set ws. w \<noteq> [] \<and> SP \<notin> set w \<Longrightarrow> gl_strsplit gl (join_words ws) = ws"
    and "n < 2 ^ 64 \<Longrightarrow> gl_strtoull gl (show_nat n) = of_nat n"
    and "- (2 ^ 63) \<le> i \<Longrightarrow> i < 2 ^ 63 \<Longrightarrow> gl_strtoll gl (show_int i) = i"
  using assms by (simp_all add: glib_documented_def is_strip_space_def)

lemma glib_numbers:
  assumes "glib_documented gl"
  shows "ucast (gl_strtoull gl (show_u32 v)) = v" and "gl_strtoull gl (show_u64 u) = u"
    and "word_of_int (gl_strtoll gl (show_i32 s)) = s"
proof -
  have "unat v < 2 ^ 64" using unsigned_less [of v, where ?'a = nat] by simp
  then have "(ucast (gl_strtoull gl (show_u32 v)) :: u32) = ucast (of_nat (unat v) :: u64)"
    using glib_documentedD(3) [OF assms] by simp
  also have "\<dots> = v" using \<open>unat v < 2 ^ 64\<close> by (simp add: ucast_up_ucast_id is_up)
  finally show "ucast (gl_strtoull gl (show_u32 v)) = v" .
  have "unat u < 2 ^ 64" using unsigned_less [of u, where ?'a = nat] by simp
  then show "gl_strtoull gl (show_u64 u) = u" using glib_documentedD(3) [OF assms] by simp
  have "- (2 ^ 63) \<le> sint s" "sint s < 2 ^ 63"
    using sint_greater_eq [of s] sint_less [of s] by simp_all
  then show "word_of_int (gl_strtoll gl (show_i32 s)) = s" using glib_documentedD(4) [OF assms] by simp
qed

text \<open>Functions that behave as documented, for the witnesses.\<close>

fun split_blank :: "string \<Rightarrow> string list" where
  "split_blank [] = [[]]"
| "split_blank (c # cs) =
     (if c = SP then [] # split_blank cs
      else case split_blank cs of [] \<Rightarrow> [[c]] | w # ws \<Rightarrow> (c # w) # ws)"

definition read_int :: "string \<Rightarrow> int" where
  "read_int s = (case strip_sign s of (neg, ds) \<Rightarrow> if neg then - int (digits_val 10 ds) else int (digits_val 10 ds))"

definition ref_glib :: glib where
  "ref_glib = \<lparr>gl_strstrip = \<lambda>s. rtrim is_space (dropWhile is_space s),
     gl_strsplit = \<lambda>s. if s = [] then [] else split_blank s,
     gl_strtoull = \<lambda>s. of_nat (digits_val 10 s), gl_strtoll = read_int\<rparr>"

lemma split_blank_word: "SP \<notin> set w \<Longrightarrow> split_blank w = [w]"
  by (induction w) auto

lemma split_blank_cons: "SP \<notin> set w \<Longrightarrow> split_blank (w @ SP # r) = w # split_blank r"
  by (induction w) auto

lemma split_join: "ws \<noteq> [] \<Longrightarrow> \<forall>w \<in> set ws. SP \<notin> set w \<Longrightarrow> split_blank (join_words ws) = ws"
  by (induction ws rule: join_words.induct) (simp_all add: split_blank_word split_blank_cons)

lemma join_words_Nil: "\<forall>w \<in> set ws. w \<noteq> [] \<Longrightarrow> join_words ws = [] \<longleftrightarrow> ws = []"
  by (induction ws rule: join_words.induct) auto

lemma strip_space: "is_strip_space c \<Longrightarrow> is_space c"
  unfolding is_strip_space_def by (elim disjE) (simp_all add: is_space_def)

lemma ref_glib_documented: "glib_documented ref_glib"
proof -
  have strip: "rtrim is_space (dropWhile is_space (s @ t)) = s"
    if "s \<noteq> []" "\<not> is_space (hd s)" "\<not> is_space (last s)" "\<forall>c \<in> set t. is_strip_space c" for s t
  proof -
    have "dropWhile is_space (s @ t) = s @ t" by (rule dropWhile_hd) (fact that(1,2))+
    moreover have "\<forall>c \<in> set t. is_space c" using that(4) strip_space by simp
    ultimately show ?thesis using that(3) by (simp only: rtrim_append rtrim_id simp_thms)
  qed
  have split: "(if join_words ws = [] then [] else split_blank (join_words ws)) = ws"
    if "\<forall>w \<in> set ws. w \<noteq> [] \<and> SP \<notin> set w" for ws
  proof (cases "ws = []")
    case False
    have ne: "\<forall>w \<in> set ws. w \<noteq> []" and sp: "\<forall>w \<in> set ws. SP \<notin> set w" using that by blast+
    show ?thesis using False by (simp only: join_words_Nil [OF ne] split_join [OF False sp] if_False)
  qed simp
  have int: "read_int (show_int i) = i" for i
  proof (cases "i < 0")
    case True
    then show ?thesis by (simp add: read_int_def show_int_def strip_sign_def)
  next
    case False
    then show ?thesis using strip_sign_show_nat [of "nat i" "[]"] by (simp add: read_int_def show_int_def)
  qed
  have ref: "gl_strstrip ref_glib s = rtrim is_space (dropWhile is_space s)"
    "gl_strsplit ref_glib s = (if s = [] then [] else split_blank s)"
    "gl_strtoull ref_glib s = of_nat (digits_val 10 s)" "gl_strtoll ref_glib s = read_int s" for s
    by (simp_all add: ref_glib_def)
  show ?thesis
    unfolding glib_documented_def ref
    by (intro conjI allI impI) (rule strip split int | simp)+
qed

lemma buf_text_words:
  "buf_text a b c d e m g x y = join_words ([''BUF'', show_u32 a, show_u32 b, show_u32 c, show_u32 d, show_u32 e,
     show_u64 m] @ (if g then [show_i32 x, show_i32 y] else []))"
  by (simp add: buf_text_def)

lemma word_starts: "\<not> is_space CHR ''B''" "\<not> is_space CHR ''F''"
  by (simp_all add: is_space_def)

lemma number_ends:
  "\<not> is_space (last (show_nat n))" "\<not> is_space (last (show_int i))" "SP \<notin> set (show_nat n)" "SP \<notin> set (show_int i)"
proof -
  show "\<not> is_space (last (show_nat n))" for n
    using show_nat_digits [of n] last_in_set [OF show_nat_nonempty [of n]] is_digit_not_special(10) by blast
  then show "\<not> is_space (last (show_int i))" by (simp add: show_int_def)
qed simp_all

text \<open>The words of a buffer message, and of a frame message, as the layer sends them.\<close>

lemma buf_parts:
  assumes gl: "glib_documented gl" and dg: "dg_bytes dg = buf_header a b c d e m g x y"
  shows "message_parts gl dg = [''BUF'', show_u32 a, show_u32 b, show_u32 c, show_u32 d, show_u32 e, show_u64 m] @
     (if g then [show_i32 x, show_i32 y] else [])"
proof -
  let ?t = "buf_text a b c d e m g x y"
  have l: "length (buf_header a b c d e m g x y) \<le> 104" by (rule length_buf_header)
  have "cstr (take 255 (dg_bytes dg)) = ?t @ [LF]"
    using l buf_text_plain(2) [of a b c d e m g x y] by (simp add: dg buf_header_text cstr_id)
  moreover have "gl_strstrip gl (?t @ [LF]) = ?t"
    by (rule glib_documentedD(1) [OF gl]) (simp_all add: buf_text_def number_ends word_starts)
  moreover have "gl_strsplit gl ?t = [''BUF'', show_u32 a, show_u32 b, show_u32 c, show_u32 d, show_u32 e, show_u64 m] @
     (if g then [show_i32 x, show_i32 y] else [])"
    unfolding buf_text_words by (rule glib_documentedD(2) [OF gl]) (auto simp: number_ends)
  ultimately show ?thesis by (simp add: message_parts_def)
qed

lemma frame_parts:
  assumes gl: "glib_documented gl" and dg: "dg_bytes dg = frame_header a"
  shows "message_parts gl dg = [''FRAME'', show_u32 a]"
proof -
  let ?t = "''FRAME'' @ SP # show_u32 a"
  have "cstr (take 255 (dg_bytes dg)) = ?t @ [LF]"
    using length_frame_header [of a] by (simp add: dg frame_header_def cstr_id)
  moreover have "gl_strstrip gl (?t @ [LF]) = ?t"
    by (rule glib_documentedD(1) [OF gl]) (simp_all add: number_ends word_starts)
  moreover have "gl_strsplit gl (join_words [''FRAME'', show_u32 a]) = [''FRAME'', show_u32 a]"
    by (rule glib_documentedD(2) [OF gl]) (auto simp: number_ends)
  ultimately show ?thesis by (simp add: message_parts_def)
qed

section \<open>Showing a buffer\<close>

lemma read_layer_fields:
  assumes "glib_documented gl"
  shows "read_buf_fields gl ([''BUF'', show_u32 a, show_u32 b, show_u32 c, show_u32 d, show_u32 e, show_u64 m,
      show_i32 x, show_i32 y]) =
    \<lparr>bf_wire_slot = a, bf_width = b, bf_height = c, bf_stride = e, bf_modifier = m, bf_geometry = Some (x, y)\<rparr>"
  by (simp add: read_buf_fields_def glib_numbers [OF assms])

lemma find_position_x11:
  "find_monitor_for_position backend xr state x y w = (r, w1) \<Longrightarrow> gw_x11 v = gw_x11 w \<Longrightarrow>
   find_monitor_for_position backend xr state x y v = (r, v\<lparr>gw_x11 := gw_x11 w1\<rparr>)"
  by (auto simp: find_monitor_for_position_def split: prod.splits)

lemma wait_sync_x11 [simp]:
  "gw_x11 (wallpiper_egl_wait_sync_fd eg d w) = gw_x11 w"
  "gw_next_actor (wallpiper_egl_wait_sync_fd eg d w) = gw_next_actor w"
  "gw_next_texture (wallpiper_egl_wait_sync_fd eg d w) = gw_next_texture w"
  "gw_calls (wallpiper_egl_wait_sync_fd eg d w) = gw_calls w"
  by (simp_all add: wallpiper_egl_wait_sync_fd_def gn_close_def)

lemma create_channel_actor_calls:
  "create_channel_actor cl m w = (a, w') \<Longrightarrow>
     a = gw_next_actor w \<and> gw_next_texture w' = gw_next_texture w \<and>
     gw_calls w' = gw_calls w @ [Set_position a (mg_x m) (mg_y m),
       Set_size a (mg_logical_width m) (mg_logical_height m), Show a]"
  by (auto simp: create_channel_actor_def Let_def gn_call_def)

definition imports_fine :: "egl \<Rightarrow> (string \<times> int) list \<Rightarrow> u32 \<Rightarrow> u32 \<Rightarrow> bool" where
  "imports_fine eg attribs width height \<longleftrightarrow>
     eg_create_image eg \<and> eg_destroy_image eg \<and> eg_image_of eg attribs \<and> eg_texture_of eg width height"

lemma accept_buf_shows:
  assumes "\<not> gc_active (ps_channels state ! i)" and "i < length (ps_channels state)"
    and i: "i = unat (bf_wire_slot bf) div 3" and l: "l = unat (bf_wire_slot bf) mod 3"
    and len: "length (gc_slots (ps_channels state ! i)) = 3"
    and geom: "bf_geometry bf = Some (x, y)"
    and m: "find_monitor_for_position (ge_backend env) (ge_xrandr env) state x y w = (Some m, w1)"
    and imp: "imports_fine (ge_egl env) (import_attribs d (bf_width bf) (bf_height bf) (bf_stride bf) 0 (bf_modifier bf))
      (bf_width bf) (bf_height bf)"
  shows "\<exists>state' w'. accept_buf env state bf d w = Some (state', w') \<and>
    (\<forall>j. j \<noteq> i \<longrightarrow> ps_channels state' ! j = ps_channels state ! j) \<and>
    gc_active (ps_channels state' ! i) \<and> gc_monitor (ps_channels state' ! i) = m \<and>
    gc_display_actor (ps_channels state' ! i) = Some (gw_next_actor w) \<and>
    gc_slots (ps_channels state' ! i) ! l = \<lparr>gs_used = True, gs_width = bf_width bf, gs_height = bf_height bf,
      gs_texture = Some (gw_next_texture w)\<rparr> \<and>
    gw_calls w' = gw_calls w @ [Set_position (gw_next_actor w) (mg_x m) (mg_y m),
       Set_size (gw_next_actor w) (mg_logical_width m) (mg_logical_height m), Show (gw_next_actor w),
       Set_content (gw_next_actor w) (gw_next_texture w)]"
proof -
  have w1: "w1 = w\<lparr>gw_x11 := gw_x11 w1\<rparr>"
    using m by (auto simp: find_monitor_for_position_def split: prod.splits)
  obtain a w2 where c: "create_channel_actor (ge_clutter env) m w1 = (a, w2)" by force
  note C = create_channel_actor_calls [OF c]
  have mm: "match_monitor env state bf w = (Some m, w1)" by (simp add: match_monitor_def geom m)
  let ?ch = "(ps_channels state ! i)\<lparr>gc_monitor := m, gc_display_actor := Some a, gc_active := True\<rparr>"
  have b: "bind_gn_channel env state bf i w = (Some ?ch, w2)"
    using assms(1) by (simp add: bind_gn_channel_def Let_def mm c)
  have t: "wallpiper_egl_import_dmabuf (ge_egl env) d (bf_width bf) (bf_height bf) (bf_stride bf) 0 (bf_modifier bf) w2
      = Some (Some (gw_next_texture w2), w2\<lparr>gw_next_texture := Suc (gw_next_texture w2)\<rparr>)"
    using imp by (simp add: imports_fine_def wallpiper_egl_import_dmabuf_def)
  have n: "gw_next_actor w1 = gw_next_actor w" "gw_next_texture w1 = gw_next_texture w" "gw_calls w1 = gw_calls w"
    by (subst w1, simp)+
  have "l < 3" by (simp add: l)
  then show ?thesis
    using b t C n assms(2) len
    by (auto simp: accept_buf_def i [symmetric] l [symmetric] Let_def fill_slot_def display_slot_def gn_ops
        split: option.splits)
qed

text \<open>
  C8. What the Vulkan layer sends is what the GNOME portal shows: the BUF datagram of a slot whose channel
  is idle, with the position of a monitor nobody claimed, binds the channel to that monitor, places a
  new actor at the monitor's position with its logical size, stores the imported texture with the
  sent size in the sent slot and gives it to the actor, and leaves the other channels alone. This holds
  for every slot, size, stride, modifier and position, from every reachable state.
\<close>

theorem gnome_shows_layer_buffer:
  assumes "gn_reach state w" and "glib_documented (ge_glib env)" and "unat slot < 12"
    and "\<not> gc_active (ps_channels state ! (unat slot div 3))"
    and "find_monitor_for_position (ge_backend env) (ge_xrandr env) state x y w = (Some m, w1)"
    and "imports_fine (ge_egl env) (import_attribs image_fd width height stride 0 modifier) width height"
    and "0 \<le> image_fd"
    and "dg = \<lparr>dg_bytes = buf_header slot width height fmt stride modifier True x y, dg_fds = image_fd # opt_fd sync_fd\<rparr>"
  shows "\<exists>state' w'. on_capture_socket_readable env False (Some dg) state w = Some (True, state', w') \<and>
    (\<forall>j. j \<noteq> unat slot div 3 \<longrightarrow> ps_channels state' ! j = ps_channels state ! j) \<and>
    gc_active (ps_channels state' ! (unat slot div 3)) \<and> gc_monitor (ps_channels state' ! (unat slot div 3)) = m \<and>
    gc_display_actor (ps_channels state' ! (unat slot div 3)) = Some (gw_next_actor w) \<and>
    gc_slots (ps_channels state' ! (unat slot div 3)) ! (unat slot mod 3) =
      \<lparr>gs_used = True, gs_width = width, gs_height = height, gs_texture = Some (gw_next_texture w)\<rparr> \<and>
    gw_calls w' = gw_calls w @ [Set_position (gw_next_actor w) (mg_x m) (mg_y m),
       Set_size (gw_next_actor w) (mg_logical_width m) (mg_logical_height m), Show (gw_next_actor w),
       Set_content (gw_next_actor w) (gw_next_texture w)]"
proof -
  note inv = reach_inv [OF assms(1)]
  let ?parts = "[''BUF'', show_u32 slot, show_u32 width, show_u32 height, show_u32 fmt, show_u32 stride,
      show_u64 modifier, show_i32 x, show_i32 y]"
  let ?bf = "\<lparr>bf_wire_slot = slot, bf_width = width, bf_height = height, bf_stride = stride, bf_modifier = modifier,
      bf_geometry = Some (x, y)\<rparr>"
  let ?fds = "image_fd # opt_fd sync_fd"
  let ?sync = "if 1 < length ?fds then ?fds ! 1 else - 1"
  let ?w = "wallpiper_egl_wait_sync_fd (ge_egl env) ?sync w"
  have p: "message_parts (ge_glib env) dg = ?parts"
    using buf_parts [OF assms(2), of dg slot width height fmt stride modifier True x y] assms(8) by simp
  have fds: "take MAX_RECV_FDS (installed_fds dg) = ?fds"
    using assms(8) by (simp add: installed_fds_def opt_fd_def)
  have "handle_buf_message env state ?parts ?fds w = accept_buf env state ?bf image_fd ?w"
    using assms(3,7) by (simp add: handle_buf_message_def Let_def read_layer_fields [OF assms(2)])
  then have h: "on_capture_socket_readable env False (Some dg) state w =
      map_option (\<lambda>(state', w'). (True, state', w')) (accept_buf env state ?bf image_fd ?w)"
    using p by (simp add: on_capture_socket_readable_def recv_capture_message_def fds message_parts_def Let_def
        del: MAX_RECV_FDS_def)
  have ch: "channel_wf (ps_channels state ! (unat slot div 3))" by (rule gn_inv_nth [OF inv]) (use assms(3) in simp)
  have f: "find_monitor_for_position (ge_backend env) (ge_xrandr env) state x y ?w = (Some m, ?w\<lparr>gw_x11 := gw_x11 w1\<rparr>)"
    by (rule find_position_x11 [OF assms(5)]) simp
  have "\<exists>state' w'. accept_buf env state ?bf image_fd ?w = Some (state', w') \<and>
    (\<forall>j. j \<noteq> unat slot div 3 \<longrightarrow> ps_channels state' ! j = ps_channels state ! j) \<and>
    gc_active (ps_channels state' ! (unat slot div 3)) \<and> gc_monitor (ps_channels state' ! (unat slot div 3)) = m \<and>
    gc_display_actor (ps_channels state' ! (unat slot div 3)) = Some (gw_next_actor ?w) \<and>
    gc_slots (ps_channels state' ! (unat slot div 3)) ! (unat slot mod 3) =
      \<lparr>gs_used = True, gs_width = bf_width ?bf, gs_height = bf_height ?bf, gs_texture = Some (gw_next_texture ?w)\<rparr> \<and>
    gw_calls w' = gw_calls ?w @ [Set_position (gw_next_actor ?w) (mg_x m) (mg_y m),
       Set_size (gw_next_actor ?w) (mg_logical_width m) (mg_logical_height m), Show (gw_next_actor ?w),
       Set_content (gw_next_actor ?w) (gw_next_texture ?w)]"
    by (rule accept_buf_shows [OF assms(4) _ _ _ _ _ f])
      (use inv assms(3,6) ch in \<open>simp_all add: gn_inv_def channels_wf_def channel_wf_def\<close>)
  with h show ?thesis by auto
qed

definition glib_env :: gn_env where
  "glib_env = plain_env\<lparr>ge_glib := ref_glib\<rparr>"

definition started_run :: "bool \<times> WallpiperPortalState option \<times> gn_world" where
  "started_run = wallpiper_portal_start glib_env plain_start None (fresh_world [(Shell_actor 0, ''MetaBackgroundGroup'')])"

definition started_state :: WallpiperPortalState where "started_state = the (fst (snd started_run))"
definition started_world :: gn_world where "started_world = snd (snd started_run)"

lemma started_reach: "gn_reach started_state started_world"
proof -
  have "fst started_run \<and> fst (snd started_run) \<noteq> None" by code_simp
  then have "started_run = (True, Some started_state, started_world)"
    by (auto simp: started_state_def started_world_def prod_eq_iff)
  then show ?thesis unfolding started_run_def by (rule gn_reach.started)
qed

lemma started_position:
  "\<exists>m w1. find_monitor_for_position (ge_backend glib_env) (ge_xrandr glib_env) started_state 0 0 started_world = (Some m, w1)"
proof -
  have "fst (find_monitor_for_position (ge_backend glib_env) (ge_xrandr glib_env) started_state 0 0 started_world) \<noteq> None"
    by code_simp
  then show ?thesis
    by (cases "find_monitor_for_position (ge_backend glib_env) (ge_xrandr glib_env) started_state 0 0 started_world") auto
qed

theorem gnome_shows_layer_buffer_witness:
  "\<exists>state' w'. on_capture_socket_readable glib_env False
       (Some \<lparr>dg_bytes = buf_header 4 64 32 0 256 0 True 0 0, dg_fds = [20, 21]\<rparr>) started_state started_world
     = Some (True, state', w') \<and>
     gc_slots (ps_channels state' ! 1) ! 1 =
       \<lparr>gs_used = True, gs_width = 64, gs_height = 32, gs_texture = Some (gw_next_texture started_world)\<rparr>"
proof -
  let ?dg = "\<lparr>dg_bytes = buf_header 4 64 32 0 256 0 True 0 0, dg_fds = [20, 21]\<rparr>"
  obtain m w1 where f: "find_monitor_for_position (ge_backend glib_env) (ge_xrandr glib_env) started_state 0 0 started_world
      = (Some m, w1)" using started_position by blast
  have 1: "glib_documented (ge_glib glib_env)" by (simp add: glib_env_def ref_glib_documented)
  have 2: "unat (4 :: u32) < 12" by simp
  have 3: "\<not> gc_active (ps_channels started_state ! (unat (4 :: u32) div 3))" by code_simp
  have 4: "imports_fine (ge_egl glib_env) (import_attribs 20 64 32 256 0 0) 64 32"
    by (simp add: imports_fine_def glib_env_def plain_env_def)
  have 5: "0 \<le> (20 :: fd)" by simp
  have 6: "?dg = \<lparr>dg_bytes = buf_header 4 64 32 0 256 0 True 0 0, dg_fds = 20 # opt_fd 21\<rparr>" by (simp add: opt_fd_def)
  from gnome_shows_layer_buffer [OF started_reach 1 2 3 f 4 5 6] show ?thesis by auto
qed

section \<open>Stacking\<close>

text \<open>
  What moving a child next to a sibling does to the list of children: the child is taken out and put
  back directly above the sibling.
\<close>

definition clutter_documented :: "clutter \<Rightarrow> bool" where
  "clutter_documented cl \<longleftrightarrow>
     (\<forall>pre ref post c. distinct (map fst (pre @ ref # post)) \<and> c \<in> set (pre @ post) \<longrightarrow>
        cl_set_child_above_sibling cl (pre @ ref # post) (fst c) (fst ref) =
          filter (\<lambda>d. fst d \<noteq> fst c) pre @ ref # c # filter (\<lambda>d. fst d \<noteq> fst c) post)"

lemma dump_background: "dump_loop acc cs = (case acc of Some a \<Rightarrow> Some a | None \<Rightarrow> background_loop cs)"
  by (induction acc cs rule: dump_loop.induct) (auto split: option.splits)

lemma previous_sibling_mid:
  "distinct (map fst (pre @ x # y # post)) \<Longrightarrow> previous_sibling (pre @ x # y # post) (fst y) = Some (fst x)"
proof (induction pre)
  case (Cons p pre)
  then show ?case by (cases pre) auto
qed simp

lemma previous_sibling_Some:
  "previous_sibling cs a = Some r \<Longrightarrow> \<exists>pre x y post. cs = pre @ x # y # post \<and> fst y = a \<and> fst x = r"
proof (induction cs a rule: previous_sibling.induct)
  case (3 x y cs a)
  show ?case
  proof (cases "fst y = a")
    case True
    with 3 show ?thesis by (intro exI [of _ "[]"]) auto
  next
    case False
    with 3 obtain pre u v post where "y # cs = pre @ u # v # post" "fst v = a" "fst u = r" by auto
    then show ?thesis by (intro exI [of _ "x # pre"]) auto
  qed
qed simp_all

lemma move_above:
  assumes cl: "clutter_documented cl" and cs: "cs = pre @ r # post" and d: "distinct (map fst cs)"
    and a: "a \<in> fst ` set (pre @ post)"
  shows "map fst (cl_set_child_above_sibling cl cs a (fst r)) =
      filter (\<lambda>x. x \<noteq> a) (map fst pre) @ fst r # a # filter (\<lambda>x. x \<noteq> a) (map fst post)"
    and "set (cl_set_child_above_sibling cl cs a (fst r)) = set cs"
proof -
  obtain c where c: "c \<in> set (pre @ post)" "fst c = a" using a by blast
  have eq: "cl_set_child_above_sibling cl cs a (fst r) =
      filter (\<lambda>d. fst d \<noteq> fst c) pre @ r # c # filter (\<lambda>d. fst d \<noteq> fst c) post"
    using cl c d unfolding clutter_documented_def cs by blast
  then show "map fst (cl_set_child_above_sibling cl cs a (fst r)) =
      filter (\<lambda>x. x \<noteq> a) (map fst pre) @ fst r # a # filter (\<lambda>x. x \<noteq> a) (map fst post)"
    using c by (simp add: filter_map o_def)
  have inj: "inj_on fst (set cs)" using d by (simp add: distinct_map)
  have uniq: "x = c" if "x \<in> set pre \<union> set post" "fst x = fst c" for x
    by (rule inj_onD [OF inj that(2)]) (use that(1) c(1) in \<open>auto simp: cs\<close>)
  then show "set (cl_set_child_above_sibling cl cs a (fst r)) = set cs"
  proof -
    have "x \<in> set cs" if "x \<in> set (filter (\<lambda>d. fst d \<noteq> fst c) pre @ r # c # filter (\<lambda>d. fst d \<noteq> fst c) post)" for x
      using that c(1) by (auto simp: cs)
    moreover have "x \<in> set (filter (\<lambda>d. fst d \<noteq> fst c) pre @ r # c # filter (\<lambda>d. fst d \<noteq> fst c) post)"
      if "x \<in> set cs" for x
      using that uniq [of x] by (cases "fst x = fst c") (auto simp: cs)
    ultimately show ?thesis unfolding eq by blast
  qed
qed

text \<open>The order after the actors in \<open>moved\<close> have been put directly above \<open>ref\<close>, one after the other.\<close>

definition stacked :: "actor list \<Rightarrow> actor \<Rightarrow> actor list \<Rightarrow> actor list \<Rightarrow> actor list" where
  "stacked P ref Q moved = filter (\<lambda>x. x \<notin> set moved) P @ ref # rev moved @ filter (\<lambda>x. x \<notin> set moved) Q"

lemma distinct_stacked: "distinct (P @ ref # Q) \<Longrightarrow> distinct moved \<Longrightarrow> ref \<notin> set moved \<Longrightarrow> distinct (stacked P ref Q moved)"
  by (auto simp: stacked_def)

lemma reassert_step:
  assumes cl: "clutter_documented cl" and ids: "map fst cs = stacked P ref Q moved"
    and d: "distinct (P @ ref # Q)" "distinct (moved @ [Own_actor n])"
    and sub: "ref \<notin> set (moved @ [Own_actor n])" "Own_actor n \<in> set (P @ Q)"
  shows "map fst (reassert_actor cl ref cs (Some n)) = stacked P ref Q (moved @ [Own_actor n])"
    and "set (reassert_actor cl ref cs (Some n)) = set cs"
proof -
  let ?a = "Own_actor n"
  have dcs: "distinct (map fst cs)" using distinct_stacked [OF d(1)] d(2) sub(1) ids by simp
  have ne: "?a \<noteq> ref" using sub(1) by auto
  have "map fst (reassert_actor cl ref cs (Some n)) = stacked P ref Q (moved @ [?a]) \<and>
      set (reassert_actor cl ref cs (Some n)) = set cs"
  proof (cases "previous_sibling cs ?a = Some ref")
    case True
    then obtain pre x y post where cs: "cs = pre @ x # y # post" "fst y = ?a" "fst x = ref"
      using previous_sibling_Some [OF True] by blast
    let ?P = "filter (\<lambda>x. x \<notin> set moved) P" and ?R = "rev moved @ filter (\<lambda>x. x \<notin> set moved) Q"
    have "map fst pre @ ref # ?a # map fst post = ?P @ ref # ?R"
      using ids cs by (simp add: stacked_def)
    moreover have "ref \<notin> set (map fst pre)" "ref \<notin> set (?a # map fst post)"
      using dcs cs ne by auto
    ultimately have R: "?R = ?a # map fst post" "?P = map fst pre"
      using append_Cons_eq_iff [of ref "map fst pre" "?a # map fst post" ?P ?R] by simp_all
    have "moved = []"
    proof (rule ccontr)
      assume "moved \<noteq> []"
      then obtain z zs where "moved = zs @ [z]" by (metis rev_exhaust)
      with R(1) d(2) show False by simp
    qed
    with R have Q: "Q = ?a # map fst post" by simp
    have "?a \<notin> set P" "?a \<notin> set (map fst post)" using d(1) Q by simp_all
    then have "filter (\<lambda>x. x \<noteq> ?a) P = P" "filter (\<lambda>x. x \<noteq> ?a) (map fst post) = map fst post"
      by (metis (mono_tags, lifting) filter_True)+
    with Q \<open>moved = []\<close> ids True ne show ?thesis by (auto simp: reassert_actor_def stacked_def)
  next
    case False
    then have r: "reassert_actor cl ref cs (Some n) = cl_set_child_above_sibling cl cs ?a ref"
      using ne by (simp add: reassert_actor_def)
    obtain pre rest where p: "cs = pre @ rest" "map fst pre = filter (\<lambda>x. x \<notin> set moved) P"
      "map fst rest = ref # rev moved @ filter (\<lambda>x. x \<notin> set moved) Q"
      using ids unfolding stacked_def map_eq_append_conv by metis
    obtain r' post where q: "rest = r' # post" "fst r' = ref" "map fst post = rev moved @ filter (\<lambda>x. x \<notin> set moved) Q"
      using p(3) unfolding map_eq_Cons_conv by metis
    have cs: "cs = pre @ r' # post" "fst r' = ref" "map fst pre = filter (\<lambda>x. x \<notin> set moved) P"
      "map fst post = rev moved @ filter (\<lambda>x. x \<notin> set moved) Q"
      using p q by simp_all
    have "?a \<in> fst ` set (pre @ post)"
    proof -
      have "?a \<in> set (map fst pre @ map fst post)" using sub(2) d(2) cs by auto
      then show ?thesis by auto
    qed
    note M = move_above [OF cl cs(1) dcs this, unfolded cs(2-4)]
    have f: "filter (\<lambda>x. x \<noteq> ?a) (filter (\<lambda>x. x \<notin> set moved) L) = filter (\<lambda>x. x \<notin> set (moved @ [?a])) L" for L
      unfolding filter_filter by (rule filter_cong) auto
    have "filter (\<lambda>x. x \<noteq> ?a) (rev moved) = rev moved" using d(2) by (auto simp: filter_id_conv)
    then have "map fst (cl_set_child_above_sibling cl cs ?a ref) = stacked P ref Q (moved @ [?a])"
      unfolding M(1) stacked_def filter_append f by simp
    with M(2) show ?thesis by (simp add: r)
  qed
  then show "map fst (reassert_actor cl ref cs (Some n)) = stacked P ref Q (moved @ [?a])"
    and "set (reassert_actor cl ref cs (Some n)) = set cs" by simp_all
qed

definition to_move :: "actor \<Rightarrow> nat option list \<Rightarrow> actor list" where
  "to_move ref ds = filter (\<lambda>a. a \<noteq> ref) (map Own_actor (List.map_filter (\<lambda>d. d) ds))"

lemma to_move_simps [simp]:
  "to_move ref [] = []" "to_move ref (None # ds) = to_move ref ds"
  "to_move ref (Some n # ds) = (if Own_actor n = ref then to_move ref ds else Own_actor n # to_move ref ds)"
  by (simp_all add: to_move_def List.map_filter_simps)

lemma reassert_loop:
  assumes cl: "clutter_documented cl" and d: "distinct (P @ ref # Q)"
  shows "map fst cs = stacked P ref Q moved \<Longrightarrow> ref \<notin> set moved \<Longrightarrow> distinct (moved @ to_move ref ds) \<Longrightarrow>
     set (to_move ref ds) \<subseteq> set (P @ Q) \<Longrightarrow>
     map fst (foldl (reassert_actor cl ref) cs ds) = stacked P ref Q (moved @ to_move ref ds) \<and>
     set (foldl (reassert_actor cl ref) cs ds) = set cs"
proof (induction ds arbitrary: cs moved)
  case (Cons x ds)
  show ?case
  proof (cases "\<exists>n. x = Some n \<and> Own_actor n \<noteq> ref")
    case True
    then obtain n where n: "x = Some n" "Own_actor n \<noteq> ref" by blast
    have s: "distinct (moved @ [Own_actor n])" "ref \<notin> set (moved @ [Own_actor n])" "Own_actor n \<in> set (P @ Q)"
      using Cons.prems n by auto
    note R = reassert_step [OF cl Cons.prems(1) d s]
    have "distinct ((moved @ [Own_actor n]) @ to_move ref ds)" using Cons.prems(3) n by simp
    from Cons.IH [OF R(1) s(2) this] Cons.prems(4) n R(2) show ?thesis by simp
  next
    case False
    then have "reassert_actor cl ref cs x = cs" "to_move ref (x # ds) = to_move ref ds"
      by (cases x; simp add: reassert_actor_def)+
    then show ?thesis using Cons by simp
  qed
qed (simp add: stacked_def)

text \<open>
  C10. After every restacking and every new window the portal's actors are directly above the background:
  with the Shell's children below and above the background in the order they had, and the actors of
  the channels in between, the one of the last channel lowest; no child is lost and none is added.
  The background is the first child of type MetaBackgroundGroup, or the bottom child without one.
\<close>

theorem gnome_actors_above_background:
  assumes "clutter_documented cl" and "stacking_reference (gw_children w) = Some ref"
    and "map fst (gw_children w) = P @ ref # Q" and "distinct (map fst (gw_children w))"
    and "gn_reach state w" and "\<forall>a \<in> set (live_actors state). Own_actor a \<in> set (map fst (gw_children w))"
  shows "map fst (gw_children (on_display_restacked cl state w)) =
      filter (\<lambda>x. x \<notin> Own_actor ` set (live_actors state)) P @ ref #
      rev (filter (\<lambda>a. a \<noteq> ref) (map Own_actor (live_actors state))) @
      filter (\<lambda>x. x \<notin> Own_actor ` set (live_actors state)) Q
    \<and> set (gw_children (on_display_restacked cl state w)) = set (gw_children w)"
proof -
  let ?ds = "map gc_display_actor (ps_channels state)"
  have live: "to_move ref ?ds = filter (\<lambda>a. a \<noteq> ref) (map Own_actor (live_actors state))"
    by (simp add: to_move_def live_actors_def actors_map)
  have "distinct (live_actors state)"
  proof -
    have "mset [0..<gw_next_actor w] = mset (live_actors state @ gw_destroyed w)"
      using reach_inv [OF assms(5)] by (simp add: gn_inv_def resources_wf_def)
    then have "distinct (live_actors state @ gw_destroyed w)" using distinct_mset by (metis distinct_upt)
    then show ?thesis by simp
  qed
  then have dist: "distinct ([] @ to_move ref ?ds)" by (simp add: live distinct_map inj_on_def)
  have sub: "set (to_move ref ?ds) \<subseteq> set (P @ Q)" using assms(3,6) by (auto simp: live)
  have d: "distinct (P @ ref # Q)" using assms(3,4) by simp
  have "map fst (gw_children w) = stacked P ref Q []" by (simp add: stacked_def assms(3))
  from reassert_loop [OF assms(1) d this _ dist sub]
  have r: "map fst (foldl (reassert_actor cl ref) (gw_children w) ?ds) = stacked P ref Q (to_move ref ?ds)"
    "set (foldl (reassert_actor cl ref) (gw_children w) ?ds) = set (gw_children w)" by simp_all
  have "filter (\<lambda>x. x \<notin> set (to_move ref ?ds)) L = filter (\<lambda>x. x \<notin> Own_actor ` set (live_actors state)) L"
    if "ref \<notin> set L" for L
    by (rule filter_cong) (use that in \<open>auto simp: live\<close>)
  then have "stacked P ref Q (to_move ref ?ds) = filter (\<lambda>x. x \<notin> Own_actor ` set (live_actors state)) P @ ref #
      rev (filter (\<lambda>a. a \<noteq> ref) (map Own_actor (live_actors state))) @
      filter (\<lambda>x. x \<notin> Own_actor ` set (live_actors state)) Q"
    using d by (simp add: stacked_def live)
  with r show ?thesis
    by (simp add: on_display_restacked_def wallpiper_actor_stacking_reassert_def assms(2))
qed

text \<open>A list of children that behaves as documented.\<close>

definition ref_clutter :: clutter where
  "ref_clutter =
     \<lparr>cl_insert_child_above = \<lambda>cs c s. takeWhile (\<lambda>d. fst d \<noteq> s) cs @ (case dropWhile (\<lambda>d. fst d \<noteq> s) cs of
        [] \<Rightarrow> [c] | r # rest \<Rightarrow> r # c # rest),
      cl_add_child = \<lambda>cs c. cs @ [c],
      cl_set_child_above_sibling = \<lambda>cs a s.
        (let moved = filter (\<lambda>d. fst d = a) cs; others = filter (\<lambda>d. fst d \<noteq> a) cs
         in takeWhile (\<lambda>d. fst d \<noteq> s) others @ (case dropWhile (\<lambda>d. fst d \<noteq> s) others of
              [] \<Rightarrow> moved | r # rest \<Rightarrow> r # moved @ rest)),
      cl_destroy = \<lambda>cs a. filter (\<lambda>d. fst d \<noteq> a) cs\<rparr>"

lemma filter_single: "distinct (map fst cs) \<Longrightarrow> c \<in> set cs \<Longrightarrow> filter (\<lambda>d. fst d = fst c) cs = [c]"
proof (induction cs)
  case (Cons x cs)
  show ?case
  proof (cases "x = c")
    case True
    then have "\<forall>d \<in> set cs. fst d \<noteq> fst c" using Cons.prems(1) by (auto intro: rev_image_eqI)
    then show ?thesis using True by simp
  next
    case False
    then have "fst x \<noteq> fst c" using Cons.prems by force
    then show ?thesis using Cons False by simp
  qed
qed simp

lemma ref_clutter_documented: "clutter_documented ref_clutter"
  unfolding clutter_documented_def
proof (intro allI impI)
  fix pre :: "child list" and ref post and c :: child
  assume a: "distinct (map fst (pre @ ref # post)) \<and> c \<in> set (pre @ post)"
  then have ne: "fst ref \<noteq> fst c" by (auto simp: image_iff)
  have one: "filter (\<lambda>d. fst d = fst c) (pre @ ref # post) = [c]"
    by (rule filter_single) (use a in auto)
  have pre: "\<forall>d \<in> set (filter (\<lambda>d. fst d \<noteq> fst c) pre). fst d \<noteq> fst ref"
  proof
    fix d assume "d \<in> set (filter (\<lambda>d. fst d \<noteq> fst c) pre)"
    then have "fst d \<in> fst ` set pre" by simp
    moreover have "fst ref \<notin> fst ` set pre" using a by simp
    ultimately show "fst d \<noteq> fst ref" by metis
  qed
  have others: "filter (\<lambda>d. fst d \<noteq> fst c) (pre @ ref # post) =
      filter (\<lambda>d. fst d \<noteq> fst c) pre @ ref # filter (\<lambda>d. fst d \<noteq> fst c) post"
    using ne by simp
  have "takeWhile (\<lambda>d. fst d \<noteq> fst ref) (filter (\<lambda>d. fst d \<noteq> fst c) pre @ ref # filter (\<lambda>d. fst d \<noteq> fst c) post) =
      filter (\<lambda>d. fst d \<noteq> fst c) pre"
    "dropWhile (\<lambda>d. fst d \<noteq> fst ref) (filter (\<lambda>d. fst d \<noteq> fst c) pre @ ref # filter (\<lambda>d. fst d \<noteq> fst c) post) =
      ref # filter (\<lambda>d. fst d \<noteq> fst c) post"
    using pre by (simp_all add: takeWhile_append dropWhile_append)
  then show "cl_set_child_above_sibling ref_clutter (pre @ ref # post) (fst c) (fst ref) =
      filter (\<lambda>d. fst d \<noteq> fst c) pre @ ref # c # filter (\<lambda>d. fst d \<noteq> fst c) post"
    unfolding ref_clutter_def clutter.simps Let_def one others by simp
qed

definition three_children :: "child list" where
  "three_children = [(Shell_actor 0, ''MetaBackgroundGroup''), (Shell_actor 1, ''MetaWindowActorWayland''),
     (Own_actor 0, ''ClutterActor'')]"

theorem gnome_actors_above_background_witness:
  "map fst (gw_children (on_display_restacked ref_clutter plain_state (plain_world\<lparr>gw_children := three_children\<rparr>)))
     = [Shell_actor 0, Own_actor 0, Shell_actor 1]"
proof -
  let ?w = "plain_world\<lparr>gw_children := three_children\<rparr>"
  have r: "gn_reach plain_state ?w" by (rule gn_reach.shell [OF plain_reach])
  have 1: "stacking_reference (gw_children ?w) = Some (Shell_actor 0)"
    by (simp add: stacking_reference_def three_children_def)
  have 2: "map fst (gw_children ?w) = [] @ Shell_actor 0 # [Shell_actor 1, Own_actor 0]"
    by (simp add: three_children_def)
  have 3: "distinct (map fst (gw_children ?w))" by (simp add: three_children_def)
  have 4: "\<forall>a \<in> set (live_actors plain_state). Own_actor a \<in> set (map fst (gw_children ?w))"
    by (simp add: plain_run_value three_children_def)
  from gnome_actors_above_background [OF ref_clutter_documented 1 2 3 r 4]
  show ?thesis by (simp add: plain_run_value)
qed

section \<open>The control protocol\<close>

definition expected_answer :: "(i32 \<times> i32) \<Rightarrow> wp_ctl_request \<Rightarrow> wp_ctl_response" where
  "expected_answer pos request =
     (case request of
        WP_CTL_REQUEST_GEOMETRY \<Rightarrow> WP_CTL_RESPONSE_ERR ''geometry detection disabled''
      | WP_CTL_REQUEST_CURSOR_POS \<Rightarrow> WP_CTL_RESPONSE_CURSOR_POS (fst pos) (snd pos)
      | _ \<Rightarrow> WP_CTL_RESPONSE_OK)"

lemma ok_answer: "wp_ctl_response_parse (''OK'' @ [LF]) = Some (Some WP_CTL_RESPONSE_OK)"
  by code_simp

lemma geometry_answer: "wp_ctl_response_parse (''ERR geometry detection disabled'' @ [LF]) =
    Some (Some (WP_CTL_RESPONSE_ERR ''geometry detection disabled''))"
  by code_simp

lemma cursor_answer: "wp_ctl_response_parse (''CURSOR_POS '' @ show_i32 x @ SP # show_i32 y @ [LF]) =
    Some (Some (WP_CTL_RESPONSE_CURSOR_POS x y))"
proof (rule parse_cursor [of 512])
  show "fits 512 (''CURSOR_POS '' @ show_i32 x @ SP # show_i32 y @ [LF]) =
      Some (''CURSOR_POS '' @ show_i32 x @ SP # show_i32 y @ [LF])"
    using length_show_i32 [of x] length_show_i32 [of y] by (intro fits_SomeI) simp_all
qed simp

lemma request_stripped:
  "glib_documented gl \<Longrightarrow> gl_strstrip gl (cstr (take 255 (request_word r @ [LF]))) = request_word r"
proof -
  assume gl: "glib_documented gl"
  have "take 255 (request_word r @ [LF]) = request_word r @ [LF]"
    by (rule take_all) (use request_word_plain [of r] in simp)
  then have "cstr (take 255 (request_word r @ [LF])) = request_word r @ [LF]"
    using request_word_plain [of r] by (simp only:) (simp add: cstr_id)
  moreover have "gl_strstrip gl (request_word r @ [LF]) = request_word r"
    by (rule glib_documentedD(1) [OF gl]) (cases r; simp add: is_space_def)+
  ultimately show ?thesis by simp
qed

text \<open>
  C12. The GNOME portal speaks the control protocol: each request, as the client of the protocol
  encodes it, is recognised, and the answer reads back through the protocol's parser as OK (detach,
  debug on and off, ping), as the pointer's position, or as the error that the geometry is disabled; no
  request goes unrecognised. The client is closed after the answer.
\<close>

theorem gnome_answers_protocol:
  assumes "glib_documented (ge_glib env)" and "wp_ctl_request_encode request 32 = Some line"
    and "to_int32 px = Some x" and "to_int32 py = Some y"
  shows "\<exists>answer state' w'.
    on_ctl_socket_connectable env (Some (px, py)) False (Client client_fd (Some line)) state w =
      Some (True, Some answer, state', w') \<and>
    wp_ctl_response_parse answer = Some (Some (expected_answer (x, y) request)) \<and>
    client_fd \<in> set (gw_closed w')"
proof -
  have line: "line = request_word request @ [LF]"
    using assms(2) by (auto simp: wp_ctl_request_encode_def dest: fits_SomeD)
  have strip: "gl_strstrip (ge_glib env) (cstr (take 255 line)) = request_word request"
    unfolding line by (rule request_stripped [OF assms(1)])
  have "\<exists>answer state' v. answer_ctl env (Some (px, py)) (request_word request) state w = Some (answer, state', v) \<and>
      wp_ctl_response_parse answer = Some (Some (expected_answer (x, y) request))"
    using ok_answer geometry_answer cursor_answer [of x y] assms(3,4)
    by (cases request; cases "wallpiper_capture_listener_detach (ge_clutter env) state w")
      (simp_all add: answer_ctl_def cursor_response_def expected_answer_def)
  then obtain answer state' v where "answer_ctl env (Some (px, py)) (request_word request) state w = Some (answer, state', v)"
      "wp_ctl_response_parse answer = Some (Some (expected_answer (x, y) request))" by blast
  moreover have "line \<noteq> []" by (simp add: line)
  ultimately show ?thesis
    by (simp add: on_ctl_socket_connectable_def strip gn_close_def)
qed

theorem gnome_answers_protocol_witness:
  "\<exists>answer state' w'.
    on_ctl_socket_connectable glib_env (Some (Fin (3 / 2), Fin (- 7))) False (Client 9 (Some (''CURSOR_POS'' @ [LF])))
      started_state started_world = Some (True, Some answer, state', w') \<and>
    wp_ctl_response_parse answer = Some (Some (WP_CTL_RESPONSE_CURSOR_POS 1 (- 7)))"
proof -
  have 1: "glib_documented (ge_glib glib_env)" by (simp add: glib_env_def ref_glib_documented)
  have 2: "wp_ctl_request_encode WP_CTL_REQUEST_CURSOR_POS 32 = Some (''CURSOR_POS'' @ [LF])"
    by (simp add: wp_ctl_request_encode_def fits_eq)
  have half: "\<lfloor>3 / 2 :: rat\<rfloor> = 1" by (simp add: floor_eq_iff)
  have 3: "to_int32 (Fin (3 / 2)) = Some 1" "to_int32 (Fin (- 7)) = Some (- 7)"
    using half by (simp_all add: to_int32_def in_range_def Let_def)
  from gnome_answers_protocol [OF 1 2 3, of 9 started_state started_world] show ?thesis
    by (auto simp: expected_answer_def)
qed

section \<open>A start that fails\<close>

text \<open>
  C16. A start of the GNOME portal that fails on one of its sockets frees the state of the portal, and takes
  back all it had connected but one handler: the callback for changed monitors stays connected to
  the freed state. Each socket that was opened has been closed.
\<close>

theorem gnome_failed_start:
  assumes "wallpiper_portal_start env se None w = (False, portal, w')"
    and "se_is_backend se" and "se_is_actor se" and "se_egl_display se" and "ge_backend env \<noteq> None"
  shows "portal = None \<and> gw_hooks w' = Monitors_changed # gw_hooks w \<and>
    set (gw_closed w') = set (gw_closed w) \<union>
      (if 0 \<le> se_capture_fd se then {se_capture_fd se} else {}) \<union>
      (if 0 \<le> se_capture_fd se \<and> se_capture_bound se \<and> 0 \<le> se_ctl_fd se then {se_ctl_fd se} else {})"
proof -
  have clear: "clear_channels cl (ps_channels state) v = (chs, v') \<Longrightarrow> gw_hooks v' = gw_hooks v \<and> gw_closed v' = gw_closed v"
    for cl state v chs v'
    using clear_channels_eq [of cl "ps_channels state" v] by auto
  show ?thesis
    using assms
    by (auto simp: start_defs wallpiper_actor_stacking_disconnect_def wallpiper_capture_listener_stop_def Let_def
        split: if_splits prod.splits dest!: clear)
qed

theorem gnome_failed_start_witness:
  "\<exists>portal w'. wallpiper_portal_start plain_env (plain_start\<lparr>se_ctl_bound := False\<rparr>) None (fresh_world []) = (False, portal, w') \<and>
     gw_hooks w' = [Monitors_changed]"
proof -
  let ?s = "wallpiper_portal_start plain_env (plain_start\<lparr>se_ctl_bound := False\<rparr>) None (fresh_world [])"
  have "\<not> fst ?s" by code_simp
  then obtain portal w' where s: "?s = (False, portal, w')" by (cases ?s) auto
  have "ge_backend plain_env \<noteq> None" by (simp add: plain_env_def)
  from gnome_failed_start [OF s _ _ _ this] have "gw_hooks w' = Monitors_changed # gw_hooks (fresh_world [])"
    by (simp add: plain_start_def)
  with s show ?thesis by (simp add: fresh_world_def)
qed

end
