(* ===== verification/WP_I3.thy ===== *)
theory WP_I3
  imports WP_Wl_State WP_Ctl_Protocol
begin

text \<open>
  The portal for i3 (\<^verbatim>\<open>programs/wallpiper-portal-i3/main.c\<close>): one override-redirect window per output,
  a pixmap per capture slot, and a copy of the pixmap into the window for every frame. There is no
  frame loop: a frame is copied when it is announced.

  The X server is an argument: \<open>i3_env\<close> holds what it answers to the checked requests and the clock.
  The requests are recorded in order in \<open>is_reqs\<close>; identifiers are numbered from \<open>is_next_id\<close>. The
  pixmaps and segments that were created, those that were given back, the descriptors that were
  closed and those handed to the X library, which closes them itself, are recorded as well. The used
  part of the array of outputs is the list \<open>is_outputs\<close>. cJSON and \<open>i3-msg\<close> are an argument too: the
  members of each object of the answer, as far as they have the type that is asked for.
\<close>

section \<open>State\<close>

definition WP_I3_CAPTURE_SLOT_COUNT :: u32 where "WP_I3_CAPTURE_SLOT_COUNT = 3"
definition WP_I3_MAX_CAPTURE_CHANNELS :: u32 where "WP_I3_MAX_CAPTURE_CHANNELS = 4"
definition WP_I3_MAX_OUTPUTS :: nat where "WP_I3_MAX_OUTPUTS = 4"

record wp_i3_slot =
  is_in_use :: bool
  is_slot :: u32
  is_pixmap :: nat
  is_width :: u32
  is_height :: u32

record wp_i3_shm_pixmap =
  im_valid :: bool
  im_pixmap :: nat
  im_seg :: nat
  im_width :: u32
  im_height :: u32

datatype wp_i3_source_kind = WP_I3_SOURCE_NONE | WP_I3_SOURCE_SLOT | WP_I3_SOURCE_SHM

record wp_i3_output =
  io_known :: bool
  io_name :: string
  io_x :: i32
  io_y :: i32
  io_width :: u32
  io_height :: u32
  io_window :: nat
  io_gc :: nat
  io_has_bound_channel :: bool
  io_bound_channel :: u32
  io_slots :: "wp_i3_slot list"
  io_shm :: wp_i3_shm_pixmap
  io_kind :: wp_i3_source_kind
  io_source_slot :: u32

datatype x_request =
    Create_window nat u16 u16 u16 u16
  | Map_window nat
  | Lower_window nat
  | Create_gc nat nat
  | Pixmap_from_buffers nat nat u16 u16 u32 u64 fd
  | X_shm_attach nat fd
  | X_shm_create_pixmap nat nat u16 u16 nat
  | X_shm_detach nat
  | Free_pixmap nat
  | Copy_area nat nat u16 u16
  | Put_overlay nat int
  | Clear_window nat

record wp_i3_state =
  is_outputs :: "wp_i3_output list"
  is_debug_enabled :: bool
  is_debug_throttle :: wp_debug_throttle
  is_stats :: wp_frame_stats
  is_next_id :: nat
  is_reqs :: "x_request list"
  is_closed :: "fd list"
  is_given :: "fd list"
  is_pixmaps :: "nat list"
  is_freed :: "nat list"
  is_segs :: "nat list"
  is_detached :: "nat list"

record i3_env =
  xe_now :: real
  xe_import :: bool
  xe_attach :: bool
  xe_shm_pixmap :: bool

definition i3_zero_slot :: wp_i3_slot where
  "i3_zero_slot = \<lparr>is_in_use = False, is_slot = 0, is_pixmap = 0, is_width = 0, is_height = 0\<rparr>"

definition i3_zero_output :: wp_i3_output where
  "i3_zero_output =
     \<lparr>io_known = False, io_name = [], io_x = 0, io_y = 0, io_width = 0, io_height = 0, io_window = 0, io_gc = 0,
      io_has_bound_channel = False, io_bound_channel = 0, io_slots = replicate 3 i3_zero_slot,
      io_shm = \<lparr>im_valid = False, im_pixmap = 0, im_seg = 0, im_width = 0, im_height = 0\<rparr>,
      io_kind = WP_I3_SOURCE_NONE, io_source_slot = 0\<rparr>"

definition i3_zero_state :: wp_i3_state where
  "i3_zero_state =
     \<lparr>is_outputs = [], is_debug_enabled = False, is_debug_throttle = wp_debug_throttle_init,
      is_stats = wp_frame_stats_create, is_next_id = 0, is_reqs = [], is_closed = [], is_given = [],
      is_pixmaps = [], is_freed = [], is_segs = [], is_detached = []\<rparr>"

definition x_req :: "x_request \<Rightarrow> wp_i3_state \<Rightarrow> wp_i3_state" where
  "x_req r st = st\<lparr>is_reqs := is_reqs st @ [r]\<rparr>"

definition xcb_generate_id :: "wp_i3_state \<Rightarrow> nat \<times> wp_i3_state" where
  "xcb_generate_id st = (is_next_id st, st\<lparr>is_next_id := Suc (is_next_id st)\<rparr>)"

definition xcb_free_pixmap :: "nat \<Rightarrow> wp_i3_state \<Rightarrow> wp_i3_state" where
  "xcb_free_pixmap p st = x_req (Free_pixmap p) (st\<lparr>is_freed := is_freed st @ [p]\<rparr>)"

definition xcb_shm_detach :: "nat \<Rightarrow> wp_i3_state \<Rightarrow> wp_i3_state" where
  "xcb_shm_detach s st = x_req (X_shm_detach s) (st\<lparr>is_detached := is_detached st @ [s]\<rparr>)"

definition i3_close :: "fd \<Rightarrow> wp_i3_state \<Rightarrow> wp_i3_state" where
  "i3_close d st = st\<lparr>is_closed := is_closed st @ [d]\<rparr>"

definition upd_i3 :: "nat \<Rightarrow> (wp_i3_output \<Rightarrow> wp_i3_output) \<Rightarrow> wp_i3_state \<Rightarrow> wp_i3_state" where
  "upd_i3 i f st = st\<lparr>is_outputs := (is_outputs st)[i := f (is_outputs st ! i)]\<rparr>"

section \<open>Detecting the outputs\<close>

record i3_item =
  it_active :: "bool option"
  it_name :: "string option"
  it_x :: "real64 option"
  it_y :: "real64 option"
  it_width :: "real64 option"
  it_height :: "real64 option"

text \<open>
  What \<open>i3-msg\<close> answers: nothing, something that is not an array, or an array of objects. A conversion
  of a number that is out of range is undefined (\<^term>\<open>None\<close>).
\<close>

datatype i3_answer = No_answer | Not_array | Items "i3_item list"

definition i3_output_of :: "i3_item \<Rightarrow> wp_i3_output option option" where
  "i3_output_of item =
     (if it_active item \<noteq> Some True then Some None
      else case (it_name item, it_x item, it_y item, it_width item, it_height item) of
        (Some name, Some x, Some y, Some width, Some height) \<Rightarrow>
          (case (to_int32 x, to_int32 y, to_uint32 width, to_uint32 height) of
             (Some ix, Some iy, Some iw, Some ih) \<Rightarrow>
               Some (Some (i3_zero_output\<lparr>io_name := fst (snprintf 64 name), io_x := ix, io_y := iy,
                 io_width := iw, io_height := ih, io_known := True\<rparr>))
           | _ \<Rightarrow> None)
      | _ \<Rightarrow> Some None)"

fun i3_detect_loop :: "nat \<Rightarrow> i3_item list \<Rightarrow> wp_i3_output list option" where
  "i3_detect_loop 0 items = Some []"
| "i3_detect_loop (Suc room) [] = Some []"
| "i3_detect_loop (Suc room) (item # items) =
     (case i3_output_of item of
        None \<Rightarrow> None
      | Some None \<Rightarrow> i3_detect_loop (Suc room) items
      | Some (Some out) \<Rightarrow> map_option (\<lambda>outs. out # outs) (i3_detect_loop room items))"

text \<open>The inner option is the success of the attempt.\<close>

definition try_detect_outputs :: "i3_answer \<Rightarrow> wp_i3_output list option option" where
  "try_detect_outputs answer =
     (case answer of
        Items items \<Rightarrow>
          map_option (\<lambda>outs. if outs = [] then None else Some outs) (i3_detect_loop WP_I3_MAX_OUTPUTS items)
      | _ \<Rightarrow> Some None)"

definition i3_fallback_output :: wp_i3_output where
  "i3_fallback_output = i3_zero_output\<lparr>io_name := ''fallback'', io_width := 1920, io_height := 1080, io_known := True\<rparr>"

fun detect_attempts :: "i3_answer list \<Rightarrow> wp_i3_output list option" where
  "detect_attempts [] = Some [i3_fallback_output]"
| "detect_attempts (answer # answers) =
     (case try_detect_outputs answer of
        None \<Rightarrow> None
      | Some (Some outs) \<Rightarrow> Some outs
      | Some None \<Rightarrow> detect_attempts answers)"

definition detect_outputs :: "(nat \<Rightarrow> i3_answer) \<Rightarrow> wp_i3_output list option" where
  "detect_outputs answers = detect_attempts (map answers [1..<4])"

section \<open>Painting\<close>

definition overlay_row :: "u32 \<Rightarrow> int" where
  "overlay_row height =
     (let d = sint height - WP_DEBUG_OVERLAY_HEIGHT;
          overlay_y = (if d < 0 then - ((- d) div 2) else d div 2)
      in if overlay_y < 0 then 0 else overlay_y)"

definition put_overlay :: "wp_i3_output \<Rightarrow> wp_i3_state \<Rightarrow> wp_i3_state" where
  "put_overlay out st = x_req (Put_overlay (io_window out) (sint (word_of_int (overlay_row (io_height out)) :: 16 word))) st"

text \<open>What is shown on an output: the pixmap and its size.\<close>

definition i3_slot_of :: "wp_i3_output \<Rightarrow> u32 \<Rightarrow> wp_i3_slot" where
  "i3_slot_of out s = io_slots out ! unat (s mod WP_I3_CAPTURE_SLOT_COUNT)"

definition i3_shown :: "wp_i3_output \<Rightarrow> (nat \<times> u32 \<times> u32) option" where
  "i3_shown out =
     (case io_kind out of
        WP_I3_SOURCE_SLOT \<Rightarrow>
          (let slot = i3_slot_of out (io_source_slot out)
           in if \<not> is_in_use slot \<or> is_slot slot \<noteq> io_source_slot out then None
              else Some (is_pixmap slot, is_width slot, is_height slot))
      | WP_I3_SOURCE_SHM \<Rightarrow>
          (if \<not> im_valid (io_shm out) then None
           else Some (im_pixmap (io_shm out), im_width (io_shm out), im_height (io_shm out)))
      | WP_I3_SOURCE_NONE \<Rightarrow> None)"

definition refresh_buffer :: "i3_env \<Rightarrow> nat \<Rightarrow> wp_i3_state \<Rightarrow> wp_i3_state" where
  "refresh_buffer env i st =
     (let out = is_outputs st ! i
      in case i3_shown out of
           None \<Rightarrow> st
         | Some (pixmap, width, height) \<Rightarrow>
             (let st1 = x_req (Copy_area pixmap (io_window out) (ucast width) (ucast height)) st;
                  st2 = st1\<lparr>is_stats := wp_frame_stats_record_display (xe_now env) (is_stats st1)\<rparr>
              in if is_debug_enabled st2 \<and> i = 0 then put_overlay out st2 else st2))"

definition set_current_source :: "i3_env \<Rightarrow> nat \<Rightarrow> wp_i3_source_kind \<Rightarrow> u32 \<Rightarrow> wp_i3_state \<Rightarrow> wp_i3_state" where
  "set_current_source env i kind slot st =
     refresh_buffer env i (upd_i3 i (\<lambda>out. out\<lparr>io_kind := kind, io_source_slot := slot\<rparr>) st)"

text \<open>The first entry of the array is there even when no output is in use.\<close>

definition draw_debug_overlay :: "wp_i3_state \<Rightarrow> wp_i3_state" where
  "draw_debug_overlay st =
     put_overlay (case is_outputs st of [] \<Rightarrow> i3_zero_output | out # _ \<Rightarrow> out) st"

definition set_debug_enabled :: "i3_env \<Rightarrow> bool \<Rightarrow> wp_i3_state \<Rightarrow> wp_i3_state" where
  "set_debug_enabled env enabled st0 =
     (let st = st0\<lparr>is_debug_enabled := enabled, is_debug_throttle := wp_debug_throttle_reset (is_debug_throttle st0)\<rparr>
      in if enabled then draw_debug_overlay st
         else if is_outputs st = [] then st else refresh_buffer env 0 st)"

definition maybe_redraw_debug :: "i3_env \<Rightarrow> wp_i3_state \<Rightarrow> wp_i3_state" where
  "maybe_redraw_debug env st =
     (case wp_debug_throttle_should_redraw (xe_now env) (is_debug_throttle st) of (b, th) \<Rightarrow>
        let st1 = st\<lparr>is_debug_throttle := th\<rparr> in if b then draw_debug_overlay st1 else st1)"

section \<open>Channels\<close>

definition i3_find_output_for_channel :: "wp_i3_state \<Rightarrow> u32 \<Rightarrow> nat option" where
  "i3_find_output_for_channel st channel =
     find_index (\<lambda>out. io_has_bound_channel out \<and> io_bound_channel out = channel) (is_outputs st)"

definition i3_bind :: "u32 \<Rightarrow> wp_i3_output \<Rightarrow> wp_i3_output" where
  "i3_bind channel out = out\<lparr>io_has_bound_channel := True, io_bound_channel := channel\<rparr>"

definition i3_leftmost :: "wp_i3_output list \<Rightarrow> nat option" where
  "i3_leftmost outs =
     foldl (\<lambda>best i.
        if \<not> io_known (outs ! i) \<or> io_has_bound_channel (outs ! i) then best
        else case best of None \<Rightarrow> Some i
             | Some b \<Rightarrow> if sint (io_x (outs ! i)) < sint (io_x (outs ! b)) then Some i else Some b)
       None [0..<length outs]"

definition i3_claim_output_for_size :: "u32 \<Rightarrow> u32 \<Rightarrow> u32 \<Rightarrow> wp_i3_state \<Rightarrow> nat option \<times> wp_i3_state" where
  "i3_claim_output_for_size channel width height st =
     (case find_index (\<lambda>out. io_known out \<and> \<not> io_has_bound_channel out \<and> io_width out = width
                             \<and> io_height out = height) (is_outputs st) of
        Some i \<Rightarrow> (Some i, upd_i3 i (i3_bind channel) st)
      | None \<Rightarrow>
         (case i3_leftmost (is_outputs st) of
            Some i \<Rightarrow> (Some i, upd_i3 i (i3_bind channel) st)
          | None \<Rightarrow> (None, st)))"

definition i3_upd_slot :: "u32 \<Rightarrow> (wp_i3_slot \<Rightarrow> wp_i3_slot) \<Rightarrow> wp_i3_output \<Rightarrow> wp_i3_output" where
  "i3_upd_slot s f out =
     (let k = unat (s mod WP_I3_CAPTURE_SLOT_COUNT)
      in out\<lparr>io_slots := (io_slots out)[k := f (io_slots out ! k)]\<rparr>)"

definition i3_release_slot :: "nat \<Rightarrow> u32 \<Rightarrow> wp_i3_state \<Rightarrow> wp_i3_state" where
  "i3_release_slot i s st =
     (let slot = i3_slot_of (is_outputs st ! i) s
      in if is_in_use slot
         then upd_i3 i (i3_upd_slot s (\<lambda>sl. sl\<lparr>is_in_use := False\<rparr>)) (xcb_free_pixmap (is_pixmap slot) st)
         else st)"

definition i3_output_for_buf :: "u32 \<Rightarrow> u32 \<Rightarrow> u32 \<Rightarrow> wp_i3_state \<Rightarrow> nat option \<times> wp_i3_state" where
  "i3_output_for_buf channel width height st =
     (case i3_find_output_for_channel st channel of
        Some i \<Rightarrow> (Some i, st)
      | None \<Rightarrow> i3_claim_output_for_size channel width height st)"

definition i3_handle_buf :: "i3_env \<Rightarrow> u32 \<Rightarrow> u32 \<Rightarrow> u32 \<Rightarrow> u32 \<Rightarrow> u64 \<Rightarrow> fd \<Rightarrow> wp_i3_state \<Rightarrow> wp_i3_state" where
  "i3_handle_buf env wire_slot width height stride modifier d st =
     (let channel = wire_slot div WP_I3_CAPTURE_SLOT_COUNT
      in if WP_I3_MAX_CAPTURE_CHANNELS \<le> channel then i3_close d st
         else case i3_output_for_buf channel width height st of
           (None, st1) \<Rightarrow> i3_close d st1
         | (Some i, st1) \<Rightarrow>
             (case xcb_generate_id (i3_release_slot i wire_slot st1) of (pixmap, st2) \<Rightarrow>
                let st3 = x_req (Pixmap_from_buffers pixmap (io_window (is_outputs st2 ! i)) (ucast width) (ucast height)
                                   stride modifier d) (st2\<lparr>is_given := is_given st2 @ [d]\<rparr>)
                in if \<not> xe_import env then st3
                   else set_current_source env i WP_I3_SOURCE_SLOT wire_slot
                          (upd_i3 i (i3_upd_slot wire_slot (\<lambda>_. \<lparr>is_in_use = True, is_slot = wire_slot,
                               is_pixmap = pixmap, is_width = width, is_height = height\<rparr>))
                            (st3\<lparr>is_pixmaps := is_pixmaps st3 @ [pixmap]\<rparr>))))"

definition i3_drop_shm :: "nat \<Rightarrow> wp_i3_state \<Rightarrow> wp_i3_state" where
  "i3_drop_shm i st =
     (let shm = io_shm (is_outputs st ! i)
      in if im_valid shm then xcb_shm_detach (im_seg shm) (xcb_free_pixmap (im_pixmap shm) st) else st)"

definition handle_shm :: "i3_env \<Rightarrow> u32 \<Rightarrow> u32 \<Rightarrow> u32 \<Rightarrow> fd \<Rightarrow> wp_i3_state \<Rightarrow> wp_i3_state" where
  "handle_shm env width height stride d st =
     (if is_outputs st = [] then i3_close d st
      else if stride \<noteq> width * 4 then i3_close d st
      else case xcb_generate_id st of (seg, st1) \<Rightarrow>
        let st2 = x_req (X_shm_attach seg d) (st1\<lparr>is_given := is_given st1 @ [d]\<rparr>)
        in if \<not> xe_attach env then st2
           else case xcb_generate_id (st2\<lparr>is_segs := is_segs st2 @ [seg]\<rparr>) of (pixmap, st3) \<Rightarrow>
             let st4 = x_req (X_shm_create_pixmap pixmap (io_window (is_outputs st3 ! 0)) (ucast width) (ucast height) seg) st3
             in if \<not> xe_shm_pixmap env then xcb_shm_detach seg st4
                else set_current_source env 0 WP_I3_SOURCE_SHM 0
                       (upd_i3 0 (\<lambda>out. out\<lparr>io_shm := \<lparr>im_valid = True, im_pixmap = pixmap, im_seg = seg,
                           im_width = width, im_height = height\<rparr>\<rparr>)
                         (i3_drop_shm 0 (st4\<lparr>is_pixmaps := is_pixmaps st4 @ [pixmap]\<rparr>))))"

definition handle_capture_event :: "i3_env \<Rightarrow> wp_capture_event \<Rightarrow> wp_i3_state \<Rightarrow> wp_i3_state" where
  "handle_capture_event env ev st0 =
     (let st = st0\<lparr>is_stats := wp_frame_stats_record_capture (xe_now env) (is_stats st0)\<rparr>
      in case ev_tag ev of
        WP_CAPTURE_EVENT_BUF \<Rightarrow>
          i3_handle_buf env (ev_slot ev) (ev_width ev) (ev_height ev) (ev_stride ev) (ev_modifier ev) (ev_fds ev ! 0)
            (if 1 < length (ev_fds ev) then i3_close (ev_fds ev ! 1) st else st)
      | WP_CAPTURE_EVENT_FRAME \<Rightarrow>
          (let st1 = (if 0 < length (ev_fds ev) then i3_close (ev_fds ev ! 0) st else st)
           in case i3_find_output_for_channel st1 (ev_slot ev div WP_I3_CAPTURE_SLOT_COUNT) of
                None \<Rightarrow> st1
              | Some i \<Rightarrow>
                  if is_in_use (i3_slot_of (is_outputs st1 ! i) (ev_slot ev))
                  then set_current_source env i WP_I3_SOURCE_SLOT (ev_slot ev) st1 else st1)
      | WP_CAPTURE_EVENT_SHM \<Rightarrow>
          handle_shm env (ev_width ev) (ev_height ev) (ev_stride ev) (ev_fds ev ! 0) st)"

section \<open>Detaching, X events, requests\<close>

definition i3_release_slots :: "nat \<Rightarrow> wp_i3_state \<Rightarrow> wp_i3_state" where
  "i3_release_slots i st = i3_release_slot i 2 (i3_release_slot i 1 (i3_release_slot i 0 st))"

definition i3_detach_output :: "nat \<Rightarrow> wp_i3_state \<Rightarrow> wp_i3_state" where
  "i3_detach_output i st =
     (let st1 = i3_drop_shm i (i3_release_slots i st);
          st2 = upd_i3 i (\<lambda>out. out\<lparr>io_shm := (io_shm out)\<lparr>im_valid := False\<rparr>, io_kind := WP_I3_SOURCE_NONE,
                                   io_has_bound_channel := False\<rparr>) st1
      in x_req (Clear_window (io_window (is_outputs st2 ! i))) st2)"

definition detach :: "wp_i3_state \<Rightarrow> wp_i3_state" where
  "detach st = foldl (\<lambda>s i. i3_detach_output i s) st [0..<length (is_outputs st)]"

datatype x_event = X_expose nat u16 | X_destroy_notify nat | X_error | X_other

text \<open>\<^term>\<open>None\<close> is the end of the process.\<close>

definition handle_x_event :: "i3_env \<Rightarrow> x_event \<Rightarrow> wp_i3_state \<Rightarrow> wp_i3_state option" where
  "handle_x_event env event st =
     (case event of
        X_expose window remaining \<Rightarrow>
          (if remaining = 0
           then (case find_index (\<lambda>out. io_window out = window) (is_outputs st) of
                   None \<Rightarrow> Some st | Some i \<Rightarrow> Some (refresh_buffer env i st))
           else Some st)
      | X_destroy_notify window \<Rightarrow>
          (if find_index (\<lambda>out. io_window out = window) (is_outputs st) = None then Some st else None)
      | _ \<Rightarrow> Some st)"

definition i3_handle_ctl_request :: "i3_env \<Rightarrow> wp_ctl_request \<Rightarrow> wp_i3_state \<Rightarrow> wp_ctl_response \<times> wp_i3_state" where
  "i3_handle_ctl_request env request st =
     (case request of
        WP_CTL_REQUEST_GEOMETRY \<Rightarrow> (WP_CTL_RESPONSE_ERR ''geometry detection disabled'', st)
      | WP_CTL_REQUEST_DETACH \<Rightarrow> (WP_CTL_RESPONSE_OK, detach st)
      | WP_CTL_REQUEST_DEBUG_ON \<Rightarrow> (WP_CTL_RESPONSE_OK, set_debug_enabled env True st)
      | WP_CTL_REQUEST_DEBUG_OFF \<Rightarrow> (WP_CTL_RESPONSE_OK, set_debug_enabled env False st)
      | WP_CTL_REQUEST_CURSOR_POS \<Rightarrow> (WP_CTL_RESPONSE_ERR ''handled by ctl listener'', st)
      | WP_CTL_REQUEST_PING \<Rightarrow> (WP_CTL_RESPONSE_OK, st))"

text \<open>The pointer as the X server reports it, where it can be asked.\<close>

definition i3_cursor_pos_fn :: "(16 word \<times> 16 word) option \<Rightarrow> wp_ctl_response" where
  "i3_cursor_pos_fn reply =
     (case reply of
        Some (root_x, root_y) \<Rightarrow> WP_CTL_RESPONSE_CURSOR_POS (scast root_x) (scast root_y)
      | None \<Rightarrow> WP_CTL_RESPONSE_ERR ''cursor position unavailable'')"

section \<open>Start and main loop\<close>

definition i3_create_window :: "nat \<Rightarrow> wp_i3_state \<Rightarrow> wp_i3_state" where
  "i3_create_window i st =
     (case xcb_generate_id st of (window, st1) \<Rightarrow>
        let out = is_outputs st1 ! i;
            st2 = x_req (Create_window window (ucast (io_x out)) (ucast (io_y out)) (ucast (io_width out))
                           (ucast (io_height out))) (upd_i3 i (\<lambda>out. out\<lparr>io_window := window\<rparr>) st1);
            st3 = x_req (Lower_window window) (x_req (Map_window window) st2)
        in case xcb_generate_id st3 of (gc, st4) \<Rightarrow>
             x_req (Create_gc gc window) (upd_i3 i (\<lambda>out. out\<lparr>io_gc := gc\<rparr>) st4))"

text \<open>
  The state the loop starts from, when the connection, the extensions and the windows are all there;
  otherwise the process ends.
\<close>

definition i3_start :: "(nat \<Rightarrow> i3_answer) \<Rightarrow> wp_i3_state option" where
  "i3_start answers =
     map_option (\<lambda>outs. foldl (\<lambda>s i. i3_create_window i s) (i3_zero_state\<lparr>is_outputs := outs\<rparr>) [0..<length outs])
       (detect_outputs answers)"

text \<open>
  One iteration: the X events and the received messages that are there, each with what the server and the clock
  answer while it is handled, and a control request if one is pending. \<^term>\<open>None\<close> is the end of the process.
\<close>

fun i3_x_events :: "(i3_env \<times> x_event) list \<Rightarrow> wp_i3_state \<Rightarrow> wp_i3_state option" where
  "i3_x_events [] st = Some st"
| "i3_x_events ((env, e) # es) st =
     (case handle_x_event env e st of None \<Rightarrow> None | Some st1 \<Rightarrow> i3_x_events es st1)"

fun i3_captures :: "(i3_env \<times> wp_capture_event) list \<Rightarrow> wp_i3_state \<Rightarrow> wp_i3_state" where
  "i3_captures [] st = st"
| "i3_captures ((env, ev) # evs) st = i3_captures evs (handle_capture_event env ev st)"

definition i3_iteration ::
  "(i3_env \<times> x_event) list \<Rightarrow> (i3_env \<times> wp_capture_event) list \<Rightarrow> (i3_env \<times> wp_ctl_request) option \<Rightarrow> i3_env
   \<Rightarrow> wp_i3_state \<Rightarrow> (wp_ctl_response option \<times> wp_i3_state) option" where
  "i3_iteration events captures request env st =
     (case i3_x_events events st of
        None \<Rightarrow> None
      | Some st1 \<Rightarrow>
          (let st2 = i3_captures captures st1;
               (response, st3) =
                 (case request of
                    None \<Rightarrow> (None, st2)
                  | Some (env1, q) \<Rightarrow> (case i3_handle_ctl_request env1 q st2 of (r, s) \<Rightarrow> (Some r, s)))
           in Some (response, if is_debug_enabled st3 then maybe_redraw_debug env st3 else st3)))"

end
