(* ===== verification/WP_I3_Props.thy ===== *)
theory WP_I3_Props
  imports WP_I3 WP_Resources
begin

text \<open>
  What the i3 portal keeps. The interface \<open>output_binding\<close> is what the portals' ways of binding capture
  channels to outputs have in common; it is interpreted on the outputs of the i3 portal and on those of
  the wlroots portals, whose choice of an output is shown to be the same. \<open>i3_reach\<close> are the states the
  main loop can reach and \<open>i3_inv\<close> their invariant.
\<close>

section \<open>Binding channels to outputs\<close>

definition one_output :: "('o \<Rightarrow> bool) \<Rightarrow> ('o \<Rightarrow> u32) \<Rightarrow> 'o list \<Rightarrow> bool" where
  "one_output bound channel_of outs \<longleftrightarrow>
     (\<forall>i < length outs. \<forall>j < length outs. bound (outs ! i) \<and> bound (outs ! j) \<and>
        channel_of (outs ! i) = channel_of (outs ! j) \<longrightarrow> i = j)"

locale output_binding =
  fixes bound :: "'o \<Rightarrow> bool" and channel_of :: "'o \<Rightarrow> u32" and bind_to :: "u32 \<Rightarrow> 'o \<Rightarrow> 'o"
  assumes bound_bind: "bound (bind_to c out)" and channel_bind: "channel_of (bind_to c out) = c"
begin

lemma claim_keeps:
  assumes "one_output bound channel_of outs" and "find_index (\<lambda>out. bound out \<and> channel_of out = c) outs = None"
  shows "one_output bound channel_of (outs[i := bind_to c (outs ! i)])"
proof -
  have "\<not> (bound (outs ! j) \<and> channel_of (outs ! j) = c)" if "j < length outs" for j
    using assms(2) that by (simp add: find_index_None)
  then show ?thesis
    using assms(1) bound_bind channel_bind by (auto simp: one_output_def nth_upd split: if_splits)
qed

lemma update_keeps:
  assumes "one_output bound channel_of outs" and "bound out \<longrightarrow> bound (outs ! i) \<and> channel_of out = channel_of (outs ! i)"
  shows "one_output bound channel_of (outs[i := out])"
  using assms by (auto simp: one_output_def nth_upd split: if_splits)

lemma found_unique:
  assumes "one_output bound channel_of outs" and "i < length outs" and "bound (outs ! i)" and "channel_of (outs ! i) = c"
  shows "find_index (\<lambda>out. bound out \<and> channel_of out = c) outs = Some i"
proof -
  obtain j where j: "find_index (\<lambda>out. bound out \<and> channel_of out = c) outs = Some j"
    using find_index_exists [of "outs ! i" outs] assms(2-4) by force
  then have "j < length outs" "bound (outs ! j)" "channel_of (outs ! j) = c" by (auto dest!: find_index_Some)
  with assms have "j = i" by (auto simp: one_output_def)
  with j show ?thesis by simp
qed

end

interpretation i3_binding: output_binding io_has_bound_channel io_bound_channel i3_bind
  by unfold_locales (simp_all add: i3_bind_def)

interpretation wl_binding: output_binding o_has_bound_channel o_bound_channel bind_channel
  by unfold_locales (simp_all add: bind_channel_def)

section \<open>The invariant\<close>

definition i3_out_ok :: "wp_i3_output \<Rightarrow> bool" where
  "i3_out_ok out \<longleftrightarrow> length (io_slots out) = 3 \<and>
     (\<forall>j < 3. is_in_use (io_slots out ! j) \<longrightarrow> io_has_bound_channel out \<and>
        unat (is_slot (io_slots out ! j)) = 3 * unat (io_bound_channel out) + j)"

definition i3_out_pixmaps :: "wp_i3_output \<Rightarrow> nat list" where
  "i3_out_pixmaps out = map is_pixmap (filter is_in_use (io_slots out)) @
     (if im_valid (io_shm out) then [im_pixmap (io_shm out)] else [])"

definition i3_out_segs :: "wp_i3_output \<Rightarrow> nat list" where
  "i3_out_segs out = (if im_valid (io_shm out) then [im_seg (io_shm out)] else [])"

definition i3_live_pixmaps :: "wp_i3_state \<Rightarrow> nat list" where
  "i3_live_pixmaps st = concat (map i3_out_pixmaps (is_outputs st))"

definition i3_live_segs :: "wp_i3_state \<Rightarrow> nat list" where
  "i3_live_segs st = concat (map i3_out_segs (is_outputs st))"

definition i3_ids_ok :: "wp_i3_state \<Rightarrow> bool" where
  "i3_ids_ok st \<longleftrightarrow> distinct (is_pixmaps st) \<and> distinct (is_segs st) \<and>
     (\<forall>p \<in> set (is_pixmaps st) \<union> set (is_segs st). p < is_next_id st)"

definition i3_inv :: "wp_i3_state \<Rightarrow> bool" where
  "i3_inv st \<longleftrightarrow>
     list_all i3_out_ok (is_outputs st) \<and> one_output io_has_bound_channel io_bound_channel (is_outputs st) \<and>
     i3_ids_ok st \<and>
     mset (is_pixmaps st) = mset (i3_live_pixmaps st) + mset (is_freed st) \<and>
     mset (is_segs st) = mset (i3_live_segs st) + mset (is_detached st)"

text \<open>What one operation changes: the output \<open>i\<close>, and the ends of the ledgers.\<close>

lemma i3_inv_update:
  assumes inv: "i3_inv st" and i: "i < length (is_outputs st)"
    and outs: "is_outputs st' = (is_outputs st)[i := out]" and ok: "i3_out_ok out"
    and one: "one_output io_has_bound_channel io_bound_channel (is_outputs st')"
    and ids: "i3_ids_ok st'"
    and px: "is_pixmaps st' = is_pixmaps st @ new" "is_freed st' = is_freed st @ freed"
      "mset (i3_out_pixmaps (is_outputs st ! i)) + mset new = mset (i3_out_pixmaps out) + mset freed"
    and sg: "is_segs st' = is_segs st @ news" "is_detached st' = is_detached st @ gone"
      "mset (i3_out_segs (is_outputs st ! i)) + mset news = mset (i3_out_segs out) + mset gone"
  shows "i3_inv st'"
proof -
  have "mset (i3_live_pixmaps st) + mset new = mset (i3_live_pixmaps st') + mset freed"
    unfolding i3_live_pixmaps_def outs
    by (rule mset_swap [OF mset_concat_update [OF i, of i3_out_pixmaps out, symmetric] px(3)])
  moreover have "mset (i3_live_segs st) + mset news = mset (i3_live_segs st') + mset gone"
    unfolding i3_live_segs_def outs
    by (rule mset_swap [OF mset_concat_update [OF i, of i3_out_segs out, symmetric] sg(3)])
  moreover have "list_all i3_out_ok (is_outputs st')"
    using inv ok by (simp add: i3_inv_def outs list_all_update)
  ultimately show ?thesis
    using inv one ids px(1,2) sg(1,2) by (simp add: i3_inv_def union_ac)
qed

definition same_core :: "wp_i3_state \<Rightarrow> wp_i3_state \<Rightarrow> bool" where
  "same_core st st' \<longleftrightarrow>
     is_outputs st' = is_outputs st \<and> is_next_id st' = is_next_id st \<and> is_pixmaps st' = is_pixmaps st \<and>
     is_freed st' = is_freed st \<and> is_segs st' = is_segs st \<and> is_detached st' = is_detached st \<and>
     is_closed st' = is_closed st \<and> is_given st' = is_given st"

lemma same_core_simps [simp]:
  "same_core st st" "same_core st (x_req r st') = same_core st st'" "same_core st (st'\<lparr>is_stats := x\<rparr>) = same_core st st'"
  "same_core st (st'\<lparr>is_debug_enabled := b\<rparr>) = same_core st st'"
  "same_core st (st'\<lparr>is_debug_throttle := th\<rparr>) = same_core st st'"
  by (simp_all add: same_core_def x_req_def)

lemma same_core_trans: "same_core a b \<Longrightarrow> same_core b c \<Longrightarrow> same_core a c"
  by (simp add: same_core_def)

lemma i3_inv_core: "i3_inv st \<Longrightarrow> same_core st st' \<Longrightarrow> i3_inv st'"
  by (simp add: i3_inv_def same_core_def i3_ids_ok_def i3_live_pixmaps_def i3_live_segs_def)

lemma put_overlay_core [simp]: "same_core st (put_overlay out st') = same_core st st'"
  by (simp add: put_overlay_def)

lemma refresh_core [simp]: "same_core st (refresh_buffer env i st') = same_core st st'"
  by (auto simp: refresh_buffer_def Let_def split: option.splits)

lemma draw_core [simp]: "same_core st (draw_debug_overlay st') = same_core st st'"
  by (simp add: draw_debug_overlay_def)

lemma debug_core: "same_core st (set_debug_enabled env b st)" "same_core st (maybe_redraw_debug env st)"
  by (auto simp: set_debug_enabled_def maybe_redraw_debug_def Let_def split: prod.splits)

lemma slot_index: "unat (s mod WP_I3_CAPTURE_SLOT_COUNT) = unat s mod 3" "unat s mod 3 < 3"
  "unat (s div WP_I3_CAPTURE_SLOT_COUNT) = unat s div 3"
  by (simp_all add: WP_I3_CAPTURE_SLOT_COUNT_def unat_mod unat_div)

lemma i3_inv_out: "i3_inv st \<Longrightarrow> i < length (is_outputs st) \<Longrightarrow> i3_out_ok (is_outputs st ! i)"
  by (simp add: i3_inv_def list_all_length)

lemma i3_inv_one: "i3_inv st \<Longrightarrow> one_output io_has_bound_channel io_bound_channel (is_outputs st)"
  by (simp add: i3_inv_def)

section \<open>Binding\<close>

lemma foldl_leftmost:
  "n \<le> length outs \<Longrightarrow>
   foldl (\<lambda>best i.
        if \<not> io_known (outs ! i) \<or> io_has_bound_channel (outs ! i) then best
        else case best of None \<Rightarrow> Some i
             | Some b \<Rightarrow> if sint (io_x (outs ! i)) < sint (io_x (outs ! b)) then Some i else Some b) None [0..<n] = Some b
   \<Longrightarrow> b < n \<and> \<not> io_has_bound_channel (outs ! b)"
proof (induction n arbitrary: b)
  case (Suc n)
  then show ?case by (auto split: if_splits option.splits intro: less_SucI)
qed simp

lemma leftmost_free_out: "i3_leftmost outs = Some b \<Longrightarrow> b < length outs \<and> \<not> io_has_bound_channel (outs ! b)"
  unfolding i3_leftmost_def by (rule foldl_leftmost) simp_all

lemma claim_inv:
  assumes inv: "i3_inv st" and c: "i3_output_for_buf channel width height st = (r, st')"
  shows "i3_inv st' \<and> (\<forall>i. r = Some i \<longrightarrow> i < length (is_outputs st') \<and> io_has_bound_channel (is_outputs st' ! i) \<and>
      io_bound_channel (is_outputs st' ! i) = channel) \<and>
    is_closed st' = is_closed st \<and> is_given st' = is_given st \<and> length (is_outputs st') = length (is_outputs st)"
proof (cases "i3_find_output_for_channel st channel")
  case (Some i)
  with c inv show ?thesis
    by (auto simp: i3_output_for_buf_def i3_find_output_for_channel_def dest!: find_index_Some)
next
  case None
  have upd: "i3_inv (upd_i3 i (i3_bind channel) st)" if i: "i < length (is_outputs st)" "\<not> io_has_bound_channel (is_outputs st ! i)" for i
  proof (rule i3_inv_update [OF inv i(1), where out = "i3_bind channel (is_outputs st ! i)" and new = "[]" and freed = "[]"
        and news = "[]" and gone = "[]"])
    show "i3_out_ok (i3_bind channel (is_outputs st ! i))"
      using i3_inv_out [OF inv i(1)] i(2) by (simp add: i3_out_ok_def i3_bind_def)
    show "one_output io_has_bound_channel io_bound_channel (is_outputs (upd_i3 i (i3_bind channel) st))"
      using i3_binding.claim_keeps [OF i3_inv_one [OF inv], of channel i] None
      by (simp add: upd_i3_def i3_find_output_for_channel_def)
    show "i3_ids_ok (upd_i3 i (i3_bind channel) st)"
      using inv by (simp add: i3_inv_def i3_ids_ok_def upd_i3_def)
  qed (simp_all add: upd_i3_def i3_bind_def i3_out_pixmaps_def i3_out_segs_def)
  from None c have "(r = None \<and> st' = st) \<or> (\<exists>i < length (is_outputs st). \<not> io_has_bound_channel (is_outputs st ! i) \<and>
      r = Some i \<and> st' = upd_i3 i (i3_bind channel) st)"
  proof (cases "find_index (\<lambda>out. io_known out \<and> \<not> io_has_bound_channel out \<and> io_width out = width
          \<and> io_height out = height) (is_outputs st)")
    case (Some i)
    with None c find_index_Some [OF Some] show ?thesis
      by (auto simp: i3_output_for_buf_def i3_claim_output_for_size_def)
  next
    case free: None
    show ?thesis
    proof (cases "i3_leftmost (is_outputs st)")
      case (Some i)
      with None free c leftmost_free_out [OF Some] show ?thesis
        by (auto simp: i3_output_for_buf_def i3_claim_output_for_size_def)
    qed (use None free c in \<open>auto simp: i3_output_for_buf_def i3_claim_output_for_size_def\<close>)
  qed
  then show ?thesis
  proof (elim disjE exE conjE)
    fix i assume i: "i < length (is_outputs st)" "\<not> io_has_bound_channel (is_outputs st ! i)" "r = Some i"
      "st' = upd_i3 i (i3_bind channel) st"
    with upd [OF i(1,2)] show ?thesis by (simp add: upd_i3_def i3_bind_def)
  qed (use inv in simp)
qed

section \<open>Slots\<close>

lemma map_filter_if: "map f (filter P xs) = concat (map (\<lambda>x. if P x then [f x] else []) xs)"
  by (induction xs) simp_all

definition used_pixmap :: "wp_i3_slot \<Rightarrow> nat list" where
  "used_pixmap slot = (if is_in_use slot then [is_pixmap slot] else [])"

lemma pixmaps_upd_slot:
  assumes "length (io_slots out) = 3"
  shows "mset (i3_out_pixmaps (i3_upd_slot s f out)) + mset (used_pixmap (i3_slot_of out s)) =
    mset (i3_out_pixmaps out) + mset (used_pixmap (f (i3_slot_of out s)))"
proof -
  have k: "unat s mod 3 < length (io_slots out)" using assms by simp
  have px: "i3_out_pixmaps o' = concat (map used_pixmap (io_slots o')) @ (if im_valid (io_shm o') then [im_pixmap (io_shm o')] else [])"
    for o'
    unfolding i3_out_pixmaps_def map_filter_if used_pixmap_def by simp
  have sl: "io_slots (i3_upd_slot s f out) = (io_slots out)[unat s mod 3 := f (i3_slot_of out s)]"
    "io_shm (i3_upd_slot s f out) = io_shm out"
    by (simp_all add: i3_upd_slot_def i3_slot_of_def slot_index Let_def)
  have so: "i3_slot_of out s = io_slots out ! (unat s mod 3)" by (simp add: i3_slot_of_def slot_index)
  show ?thesis
    using mset_concat_update [OF k, of used_pixmap "f (i3_slot_of out s)"]
    unfolding px sl so mset_append by (simp only: union_ac)
qed

lemma upd_slot_simps [simp]:
  "i3_out_segs (i3_upd_slot s f out) = i3_out_segs out"
  "io_has_bound_channel (i3_upd_slot s f out) = io_has_bound_channel out"
  "io_bound_channel (i3_upd_slot s f out) = io_bound_channel out" "io_shm (i3_upd_slot s f out) = io_shm out"
  "io_window (i3_upd_slot s f out) = io_window out"
  by (simp_all add: i3_out_segs_def i3_upd_slot_def Let_def)

lemma upd_i3_simps [simp]:
  "is_outputs (upd_i3 i f st) = (is_outputs st)[i := f (is_outputs st ! i)]"
  "is_pixmaps (upd_i3 i f st) = is_pixmaps st" "is_freed (upd_i3 i f st) = is_freed st"
  "is_segs (upd_i3 i f st) = is_segs st" "is_detached (upd_i3 i f st) = is_detached st"
  "is_next_id (upd_i3 i f st) = is_next_id st" "is_closed (upd_i3 i f st) = is_closed st"
  "is_given (upd_i3 i f st) = is_given st" "is_reqs (upd_i3 i f st) = is_reqs st"
  by (simp_all add: upd_i3_def)

lemma free_simps [simp]:
  "is_outputs (xcb_free_pixmap p st) = is_outputs st" "is_pixmaps (xcb_free_pixmap p st) = is_pixmaps st"
  "is_freed (xcb_free_pixmap p st) = is_freed st @ [p]" "is_segs (xcb_free_pixmap p st) = is_segs st"
  "is_detached (xcb_free_pixmap p st) = is_detached st" "is_next_id (xcb_free_pixmap p st) = is_next_id st"
  "is_closed (xcb_free_pixmap p st) = is_closed st" "is_given (xcb_free_pixmap p st) = is_given st"
  by (simp_all add: xcb_free_pixmap_def x_req_def)

lemma shm_detach_simps [simp]:
  "is_outputs (xcb_shm_detach p st) = is_outputs st" "is_pixmaps (xcb_shm_detach p st) = is_pixmaps st"
  "is_freed (xcb_shm_detach p st) = is_freed st" "is_segs (xcb_shm_detach p st) = is_segs st"
  "is_detached (xcb_shm_detach p st) = is_detached st @ [p]" "is_next_id (xcb_shm_detach p st) = is_next_id st"
  "is_closed (xcb_shm_detach p st) = is_closed st" "is_given (xcb_shm_detach p st) = is_given st"
  by (simp_all add: xcb_shm_detach_def x_req_def)

lemma x_req_simps [simp]:
  "is_outputs (x_req r st) = is_outputs st" "is_pixmaps (x_req r st) = is_pixmaps st" "is_freed (x_req r st) = is_freed st"
  "is_segs (x_req r st) = is_segs st" "is_detached (x_req r st) = is_detached st" "is_next_id (x_req r st) = is_next_id st"
  "is_closed (x_req r st) = is_closed st" "is_given (x_req r st) = is_given st" "is_reqs (x_req r st) = is_reqs st @ [r]"
  by (simp_all add: x_req_def)

lemma out_ok_clear_slot: "i3_out_ok out \<Longrightarrow> i3_out_ok (i3_upd_slot s (\<lambda>sl. sl\<lparr>is_in_use := False\<rparr>) out)"
  by (auto simp: i3_out_ok_def i3_upd_slot_def Let_def nth_upd)

lemma i3_release_inv:
  assumes inv: "i3_inv st" and i: "i < length (is_outputs st)"
  shows "i3_inv (i3_release_slot i s st) \<and>
    \<not> is_in_use (i3_slot_of (is_outputs (i3_release_slot i s st) ! i) s) \<and>
    length (is_outputs (i3_release_slot i s st)) = length (is_outputs st) \<and>
    io_has_bound_channel (is_outputs (i3_release_slot i s st) ! i) = io_has_bound_channel (is_outputs st ! i) \<and>
    io_bound_channel (is_outputs (i3_release_slot i s st) ! i) = io_bound_channel (is_outputs st ! i) \<and>
    io_shm (is_outputs (i3_release_slot i s st) ! i) = io_shm (is_outputs st ! i) \<and>
    is_closed (i3_release_slot i s st) = is_closed st \<and> is_given (i3_release_slot i s st) = is_given st"
proof (cases "is_in_use (i3_slot_of (is_outputs st ! i) s)")
  case True
  let ?out = "is_outputs st ! i" and ?f = "\<lambda>sl. sl\<lparr>is_in_use := False\<rparr> :: wp_i3_slot"
  note ok = i3_inv_out [OF inv i]
  then have len: "length (io_slots ?out) = 3" by (simp add: i3_out_ok_def)
  have r: "i3_release_slot i s st = upd_i3 i (i3_upd_slot s ?f) (xcb_free_pixmap (is_pixmap (i3_slot_of ?out s)) st)"
    using True by (simp add: i3_release_slot_def)
  have "i3_inv (i3_release_slot i s st)"
    unfolding r
  proof (rule i3_inv_update [OF inv i, where out = "i3_upd_slot s ?f ?out" and new = "[]" and news = "[]" and gone = "[]"
        and freed = "[is_pixmap (i3_slot_of ?out s)]"])
    show "one_output io_has_bound_channel io_bound_channel
      (is_outputs (upd_i3 i (i3_upd_slot s ?f) (xcb_free_pixmap (is_pixmap (i3_slot_of ?out s)) st)))"
      using i3_binding.update_keeps [OF i3_inv_one [OF inv], of "i3_upd_slot s ?f ?out" i] by simp
    show "i3_ids_ok (upd_i3 i (i3_upd_slot s ?f) (xcb_free_pixmap (is_pixmap (i3_slot_of ?out s)) st))"
      using inv by (simp add: i3_inv_def i3_ids_ok_def)
    show "mset (i3_out_pixmaps ?out) + mset [] =
        mset (i3_out_pixmaps (i3_upd_slot s ?f ?out)) + mset [is_pixmap (i3_slot_of ?out s)]"
      using pixmaps_upd_slot [OF len, of s ?f] True by (simp add: used_pixmap_def)
  qed (use ok in \<open>simp_all add: out_ok_clear_slot\<close>)
  then show ?thesis
    using i len slot_index(2) [of s] by (simp add: r i3_slot_of_def i3_upd_slot_def slot_index Let_def)
next
  case False
  with inv show ?thesis by (simp add: i3_release_slot_def)
qed

section \<open>Messages\<close>

definition i3_settled :: "wp_i3_state \<Rightarrow> fd multiset" where
  "i3_settled st = mset (is_closed st) + mset (is_given st)"

lemma settled_core: "same_core st st' \<Longrightarrow> i3_settled st' = i3_settled st"
  by (simp add: same_core_def i3_settled_def)

lemma close_core:
  "i3_inv st \<Longrightarrow> i3_inv (i3_close d st)" "i3_settled (i3_close d st) = add_mset d (i3_settled st)"
  "is_outputs (i3_close d st) = is_outputs st"
  by (simp_all add: i3_close_def i3_inv_def i3_ids_ok_def i3_live_pixmaps_def i3_live_segs_def i3_settled_def)

text \<open>An identifier that is generated and not used leaves everything as it was.\<close>

lemma unused_id_inv:
  "i3_inv st \<Longrightarrow> i3_inv (x_req r (st\<lparr>is_next_id := Suc (is_next_id st), is_given := g\<rparr>))"
  by (auto simp: i3_inv_def i3_ids_ok_def i3_live_pixmaps_def i3_live_segs_def intro: less_SucI)

lemma set_source_inv:
  assumes inv: "i3_inv st" and i: "i < length (is_outputs st)"
  shows "i3_inv (set_current_source env i k slot st) \<and> i3_settled (set_current_source env i k slot st) = i3_settled st \<and>
    length (is_outputs (set_current_source env i k slot st)) = length (is_outputs st)"
proof -
  let ?f = "\<lambda>out. out\<lparr>io_kind := k, io_source_slot := slot\<rparr> :: wp_i3_output"
  have u: "i3_inv (upd_i3 i ?f st)"
    by (rule i3_inv_update [OF inv i, where out = "?f (is_outputs st ! i)" and new = "[]" and freed = "[]" and news = "[]"
          and gone = "[]"])
      (use i3_inv_out [OF inv i] i3_binding.update_keeps [OF i3_inv_one [OF inv], of "?f (is_outputs st ! i)" i] inv
        in \<open>simp_all add: i3_out_ok_def i3_out_pixmaps_def i3_out_segs_def i3_inv_def i3_ids_ok_def\<close>)
  have c: "same_core (upd_i3 i ?f st) (set_current_source env i k slot st)" by (simp add: set_current_source_def)
  show ?thesis
    using i3_inv_core [OF u c] settled_core [OF c] c by (simp add: i3_settled_def same_core_def)
qed

lemma fill_inv:
  assumes inv: "i3_inv st" and i: "i < length (is_outputs st)" and free: "\<not> is_in_use (i3_slot_of (is_outputs st ! i) s)"
    and bound: "io_has_bound_channel (is_outputs st ! i)" "io_bound_channel (is_outputs st ! i) = s div WP_I3_CAPTURE_SLOT_COUNT"
    and slot: "is_in_use slot" "is_slot slot = s" "is_pixmap slot = is_next_id st"
  shows "i3_inv (upd_i3 i (i3_upd_slot s (\<lambda>_. slot))
     (st\<lparr>is_next_id := Suc (is_next_id st), is_given := g, is_reqs := rs,
       is_pixmaps := is_pixmaps st @ [is_next_id st]\<rparr>))"
    (is "i3_inv ?st")
proof (rule i3_inv_update [OF inv i, where out = "i3_upd_slot s (\<lambda>_. slot) (is_outputs st ! i)" and new = "[is_next_id st]"
      and freed = "[]" and news = "[]" and gone = "[]"])
  let ?out = "is_outputs st ! i"
  note ok = i3_inv_out [OF inv i]
  then have len: "length (io_slots ?out) = 3" by (simp add: i3_out_ok_def)
  have "unat s = 3 * (unat s div 3) + unat s mod 3" by simp
  then show "i3_out_ok (i3_upd_slot s (\<lambda>_. slot) ?out)"
    using ok bound slot by (auto simp: i3_out_ok_def i3_upd_slot_def Let_def nth_upd slot_index)
  show "one_output io_has_bound_channel io_bound_channel (is_outputs ?st)"
    using i3_binding.update_keeps [OF i3_inv_one [OF inv], of "i3_upd_slot s (\<lambda>_. slot) ?out" i] by simp
  show "i3_ids_ok ?st" using inv by (auto simp: i3_inv_def i3_ids_ok_def intro: less_SucI)
  show "mset (i3_out_pixmaps ?out) + mset [is_next_id st] = mset (i3_out_pixmaps (i3_upd_slot s (\<lambda>_. slot) ?out)) + mset []"
    using pixmaps_upd_slot [OF len, of s "\<lambda>_. slot"] free slot by (simp add: used_pixmap_def)
qed simp_all

lemma i3_handle_buf_inv:
  assumes inv: "i3_inv st"
  shows "i3_inv (i3_handle_buf env s width height stride modifier d st) \<and>
    i3_settled (i3_handle_buf env s width height stride modifier d st) = add_mset d (i3_settled st)"
proof (cases "WP_I3_MAX_CAPTURE_CHANNELS \<le> s div WP_I3_CAPTURE_SLOT_COUNT")
  case True
  then show ?thesis using close_core inv by (simp add: i3_handle_buf_def)
next
  case False
  let ?c = "s div WP_I3_CAPTURE_SLOT_COUNT"
  obtain r st1 where c: "i3_output_for_buf ?c width height st = (r, st1)" by force
  note C = claim_inv [OF inv c]
  show ?thesis
  proof (cases r)
    case None
    with False c C close_core show ?thesis by (simp add: i3_handle_buf_def i3_settled_def)
  next
    case (Some i)
    with C have i: "i < length (is_outputs st1)" "io_has_bound_channel (is_outputs st1 ! i)"
      "io_bound_channel (is_outputs st1 ! i) = ?c" and inv1: "i3_inv st1" by auto
    define v where "v = i3_release_slot i s st1"
    note R = i3_release_inv [OF inv1 i(1), of s, folded v_def]
    have set0: "mset (is_closed v) + mset (is_given v) = i3_settled st" using C R by (simp add: i3_settled_def)
    let ?slot = "\<lparr>is_in_use = True, is_slot = s, is_pixmap = is_next_id v, is_width = width, is_height = height\<rparr>"
    let ?rq = "Pixmap_from_buffers (is_next_id v) (io_window (is_outputs v ! i)) (ucast width) (ucast height) stride modifier d"
    show ?thesis
    proof (cases "xe_import env")
      case False
      with \<open>\<not> _ \<le> ?c\<close> c Some have "i3_handle_buf env s width height stride modifier d st =
          x_req ?rq (v\<lparr>is_next_id := Suc (is_next_id v), is_given := is_given v @ [d]\<rparr>)"
        by (simp add: i3_handle_buf_def xcb_generate_id_def v_def Let_def)
      with unused_id_inv R set0 show ?thesis by (simp add: i3_settled_def)
    next
      case True
      let ?w = "upd_i3 i (i3_upd_slot s (\<lambda>_. ?slot)) (v\<lparr>is_next_id := Suc (is_next_id v),
        is_given := is_given v @ [d], is_reqs := is_reqs v @ [?rq], is_pixmaps := is_pixmaps v @ [is_next_id v]\<rparr>)"
      have eq: "i3_handle_buf env s width height stride modifier d st = set_current_source env i WP_I3_SOURCE_SLOT s ?w"
        using False c Some True
        by (simp add: i3_handle_buf_def xcb_generate_id_def v_def [symmetric] Let_def x_req_def)
      have "i3_inv ?w" by (rule fill_inv) (use R i in \<open>simp_all\<close>)
      from set_source_inv [OF this, of i] R i set0 show ?thesis
        by (simp add: eq) (simp add: i3_settled_def)
    qed
  qed
qed

lemma handle_shm_inv:
  assumes inv: "i3_inv st"
  shows "i3_inv (handle_shm env width height stride d st) \<and>
    i3_settled (handle_shm env width height stride d st) = add_mset d (i3_settled st)"
proof (cases "is_outputs st = [] \<or> stride \<noteq> width * 4")
  case True
  then show ?thesis using close_core inv by (auto simp: handle_shm_def)
next
  case False
  then have i: "0 < length (is_outputs st)" by simp
  let ?seg = "is_next_id st" and ?px = "Suc (is_next_id st)" and ?out = "is_outputs st ! 0"
  show ?thesis
  proof (cases "xe_attach env")
    case no: False
    then have "handle_shm env width height stride d st =
        x_req (X_shm_attach ?seg d) (st\<lparr>is_next_id := Suc (is_next_id st), is_given := is_given st @ [d]\<rparr>)"
      using False by (simp add: handle_shm_def xcb_generate_id_def)
    with unused_id_inv [OF inv] show ?thesis by (simp add: i3_settled_def)
  next
    case att: True
    define v where "v = x_req (X_shm_create_pixmap ?px (io_window ?out) (ucast width) (ucast height) ?seg)
      ((x_req (X_shm_attach ?seg d) (st\<lparr>is_next_id := Suc (is_next_id st), is_given := is_given st @ [d]\<rparr>))
        \<lparr>is_segs := is_segs st @ [?seg], is_next_id := Suc ?px\<rparr>)"
    have v: "is_outputs v = is_outputs st" "is_pixmaps v = is_pixmaps st" "is_freed v = is_freed st"
      "is_segs v = is_segs st @ [?seg]" "is_detached v = is_detached st" "is_next_id v = Suc ?px"
      "is_closed v = is_closed st" "is_given v = is_given st @ [d]"
      by (simp_all add: v_def)
    show ?thesis
    proof (cases "xe_shm_pixmap env")
      case False
      have eq: "handle_shm env width height stride d st = xcb_shm_detach ?seg v"
        using att False \<open>\<not> (is_outputs st = [] \<or> _)\<close>
        by (simp add: handle_shm_def xcb_generate_id_def v_def x_req_def Let_def)
      have "i3_inv (xcb_shm_detach ?seg v)"
        using inv v by (auto simp: i3_inv_def i3_ids_ok_def i3_live_pixmaps_def i3_live_segs_def intro: less_SucI)
      then show ?thesis using v by (simp add: eq i3_settled_def)
    next
      case True
      let ?shm = "\<lparr>im_valid = True, im_pixmap = ?px, im_seg = ?seg, im_width = width, im_height = height\<rparr>"
      let ?f = "\<lambda>out. out\<lparr>io_shm := ?shm\<rparr> :: wp_i3_output"
      let ?w = "upd_i3 0 ?f (i3_drop_shm 0 (v\<lparr>is_pixmaps := is_pixmaps v @ [?px]\<rparr>))"
      have eq: "handle_shm env width height stride d st = set_current_source env 0 WP_I3_SOURCE_SHM 0 ?w"
        using att True \<open>\<not> (is_outputs st = [] \<or> _)\<close>
        by (simp add: handle_shm_def xcb_generate_id_def v_def x_req_def Let_def)
      have "i3_inv ?w"
      proof (rule i3_inv_update [OF inv i, where out = "?f ?out" and new = "[?px]" and news = "[?seg]"
            and freed = "if im_valid (io_shm ?out) then [im_pixmap (io_shm ?out)] else []"
            and gone = "if im_valid (io_shm ?out) then [im_seg (io_shm ?out)] else []"])
        show "i3_out_ok (?f ?out)" using i3_inv_out [OF inv i] by (simp add: i3_out_ok_def)
        show "one_output io_has_bound_channel io_bound_channel (is_outputs ?w)"
          using i3_binding.update_keeps [OF i3_inv_one [OF inv], of "?f ?out" 0] v
          by (simp add: i3_drop_shm_def Let_def)
        have lt: "p < is_next_id st" if "p \<in> set (is_pixmaps st) \<union> set (is_segs st)" for p
          using inv that by (simp add: i3_inv_def i3_ids_ok_def)
        have "?px \<notin> set (is_pixmaps st)" using lt [of ?px] by auto
        then show "i3_ids_ok ?w"
          using inv v by (auto simp: i3_inv_def i3_ids_ok_def i3_drop_shm_def Let_def intro: less_SucI)
      qed (use v in \<open>simp_all add: i3_drop_shm_def Let_def i3_out_pixmaps_def i3_out_segs_def\<close>)
      moreover have "i3_settled ?w = add_mset d (i3_settled st)"
        using v by (simp add: i3_settled_def i3_drop_shm_def Let_def)
      ultimately show ?thesis
        using set_source_inv [of ?w 0] i v by (simp add: eq i3_drop_shm_def Let_def)
    qed
  qed
qed

lemma handle_frame_core:
  assumes inv: "i3_inv st"
  shows "i3_inv (case i3_find_output_for_channel st c of None \<Rightarrow> st
      | Some i \<Rightarrow> if b i then set_current_source env i WP_I3_SOURCE_SLOT s st else st) \<and>
    i3_settled (case i3_find_output_for_channel st c of None \<Rightarrow> st
      | Some i \<Rightarrow> if b i then set_current_source env i WP_I3_SOURCE_SLOT s st else st) = i3_settled st"
proof (cases "i3_find_output_for_channel st c")
  case (Some i)
  then have "i < length (is_outputs st)" by (auto simp: i3_find_output_for_channel_def dest!: find_index_Some)
  with set_source_inv [OF inv this] Some inv show ?thesis by simp
qed (use inv in simp)

lemma capture_event_inv:
  assumes inv: "i3_inv st" and ok: "event_ok ev"
  shows "i3_inv (handle_capture_event env ev st) \<and>
    i3_settled (handle_capture_event env ev st) = i3_settled st + mset (ev_fds ev)"
proof -
  let ?st = "st\<lparr>is_stats := wp_frame_stats_record_capture (xe_now env) (is_stats st)\<rparr>"
  have c: "same_core st ?st" by simp
  have inv0: "i3_inv ?st" by (rule i3_inv_core [OF inv c])
  have s0: "i3_settled ?st = i3_settled st" by (rule settled_core [OF c])
  show ?thesis
  proof (cases "ev_tag ev")
    case WP_CAPTURE_EVENT_BUF
    with ok obtain d rest where fds: "ev_fds ev = d # rest" "length rest \<le> 1"
      by (cases "ev_fds ev") (auto simp: event_ok_def)
    let ?w = "if 1 < length (ev_fds ev) then i3_close (ev_fds ev ! 1) ?st else ?st"
    have "i3_inv ?w" "i3_settled ?w = i3_settled st + mset rest"
      using inv0 s0 close_core fds by (cases rest; simp)+
    with i3_handle_buf_inv [of ?w] WP_CAPTURE_EVENT_BUF fds show ?thesis
      by (simp add: handle_capture_event_def Let_def)
  next
    case WP_CAPTURE_EVENT_FRAME
    let ?w = "if 0 < length (ev_fds ev) then i3_close (ev_fds ev ! 0) ?st else ?st"
    have "i3_inv ?w" "i3_settled ?w = i3_settled st + mset (ev_fds ev)"
      using inv0 s0 close_core ok WP_CAPTURE_EVENT_FRAME by (cases "ev_fds ev"; simp add: event_ok_def)+
    with handle_frame_core [of ?w] WP_CAPTURE_EVENT_FRAME show ?thesis
      by (simp only: handle_capture_event_def Let_def wp_capture_event_tag.case)
  next
    case WP_CAPTURE_EVENT_SHM
    with ok obtain d where "ev_fds ev = [d]" by (cases "ev_fds ev") (auto simp: event_ok_def)
    with handle_shm_inv [OF inv0] s0 WP_CAPTURE_EVENT_SHM show ?thesis
      by (simp add: handle_capture_event_def Let_def)
  qed
qed

section \<open>Detaching\<close>

abbreviation clear_i3_slot :: "u32 \<Rightarrow> wp_i3_output \<Rightarrow> wp_i3_output" where
  "clear_i3_slot s \<equiv> i3_upd_slot s (\<lambda>sl. sl\<lparr>is_in_use := False\<rparr>)"

lemma release_outputs:
  assumes "i < length (is_outputs st)" and "length (io_slots (is_outputs st ! i)) = 3"
  shows "is_outputs (i3_release_slot i s st) = (is_outputs st)[i := clear_i3_slot s (is_outputs st ! i)]"
proof (cases "is_in_use (i3_slot_of (is_outputs st ! i) s)")
  case False
  let ?out = "is_outputs st ! i" and ?k = "unat s mod 3"
  have "(io_slots ?out ! ?k)\<lparr>is_in_use := False\<rparr> = io_slots ?out ! ?k"
    using False by (simp add: i3_slot_of_def slot_index)
  then have "clear_i3_slot s ?out = ?out" by (simp add: i3_upd_slot_def slot_index Let_def)
  then show ?thesis using False by (simp add: i3_release_slot_def)
qed (simp add: i3_release_slot_def Let_def)

definition idle_output :: "wp_i3_output \<Rightarrow> bool" where
  "idle_output out \<longleftrightarrow> i3_out_pixmaps out = [] \<and> i3_out_segs out = [] \<and> \<not> io_has_bound_channel out \<and>
     io_kind out = WP_I3_SOURCE_NONE"

lemma clear_slot_at:
  "io_slots (clear_i3_slot 0 out) = (io_slots out)[0 := (io_slots out ! 0)\<lparr>is_in_use := False\<rparr>]"
  "io_slots (clear_i3_slot 1 out) = (io_slots out)[1 := (io_slots out ! 1)\<lparr>is_in_use := False\<rparr>]"
  "io_slots (clear_i3_slot 2 out) = (io_slots out)[2 := (io_slots out ! 2)\<lparr>is_in_use := False\<rparr>]"
  by (simp_all add: i3_upd_slot_def WP_I3_CAPTURE_SLOT_COUNT_def Let_def)

lemma cleared_slots:
  assumes "length (io_slots out) = 3"
  shows "filter is_in_use (io_slots (clear_i3_slot 2 (clear_i3_slot 1 (clear_i3_slot 0 out)))) = []"
proof -
  obtain a b c where abc: "io_slots out = [a, b, c]" using assms by (auto simp: numeral_3_eq_3 length_Suc_conv)
  show ?thesis by (simp only: clear_slot_at abc) simp
qed

lemma detach_output_inv:
  assumes inv: "i3_inv st" and i: "i < length (is_outputs st)"
  shows "i3_inv (i3_detach_output i st) \<and> idle_output (is_outputs (i3_detach_output i st) ! i) \<and>
    (\<forall>j. j \<noteq> i \<longrightarrow> is_outputs (i3_detach_output i st) ! j = is_outputs st ! j) \<and>
    length (is_outputs (i3_detach_output i st)) = length (is_outputs st) \<and>
    i3_settled (i3_detach_output i st) = i3_settled st"
proof -
  let ?out = "is_outputs st ! i"
  have len: "length (io_slots ?out) = 3" using i3_inv_out [OF inv i] by (simp add: i3_out_ok_def)
  define a where "a = i3_release_slot i 0 st"
  define b where "b = i3_release_slot i 1 a"
  define c where "c = i3_release_slot i 2 b"
  note A = i3_release_inv [OF inv i, of 0, folded a_def]
  have ia: "i < length (is_outputs a)" using A i by simp
  note B = i3_release_inv [OF conjunct1 [OF A] ia, of 1, folded b_def]
  have ib: "i < length (is_outputs b)" using B ia by simp
  note C = i3_release_inv [OF conjunct1 [OF B] ib, of 2, folded c_def]
  have ic: "i < length (is_outputs c)" using C ib by simp
  have oa: "is_outputs a = (is_outputs st)[i := clear_i3_slot 0 ?out]"
    unfolding a_def by (rule release_outputs [OF i len])
  have la: "length (io_slots (is_outputs a ! i)) = 3" using oa i len by (simp add: i3_upd_slot_def Let_def)
  have ob: "is_outputs b = (is_outputs st)[i := clear_i3_slot 1 (clear_i3_slot 0 ?out)]"
    unfolding b_def by (subst release_outputs [OF ia la]) (use oa i in simp)
  have lb: "length (io_slots (is_outputs b ! i)) = 3" using ob i len by (simp add: i3_upd_slot_def Let_def)
  have oc: "is_outputs c = (is_outputs st)[i := clear_i3_slot 2 (clear_i3_slot 1 (clear_i3_slot 0 ?out))]"
    unfolding c_def by (subst release_outputs [OF ib lb]) (use ob i in simp)
  have ci: "is_outputs c ! i = clear_i3_slot 2 (clear_i3_slot 1 (clear_i3_slot 0 ?out))" using oc i by simp
  have empty: "filter is_in_use (io_slots (is_outputs c ! i)) = []" unfolding ci by (rule cleared_slots [OF len])
  let ?shm = "io_shm (is_outputs c ! i)"
  let ?f = "\<lambda>out. out\<lparr>io_shm := (io_shm out)\<lparr>im_valid := False\<rparr>, io_kind := WP_I3_SOURCE_NONE, io_has_bound_channel := False\<rparr>
     :: wp_i3_output"
  let ?d = "i3_drop_shm i c"
  have d: "is_outputs ?d = is_outputs c" "is_pixmaps ?d = is_pixmaps c" "is_segs ?d = is_segs c"
    "is_freed ?d = is_freed c @ (if im_valid ?shm then [im_pixmap ?shm] else [])"
    "is_detached ?d = is_detached c @ (if im_valid ?shm then [im_seg ?shm] else [])"
    "is_next_id ?d = is_next_id c" "is_closed ?d = is_closed c" "is_given ?d = is_given c"
    by (simp_all add: i3_drop_shm_def Let_def)
  have det: "i3_detach_output i st = x_req (Clear_window (io_window (is_outputs (upd_i3 i ?f ?d) ! i))) (upd_i3 i ?f ?d)"
    by (simp add: i3_detach_output_def i3_release_slots_def a_def b_def c_def Let_def)
  have idle: "idle_output (?f (is_outputs c ! i))"
    using empty by (simp add: idle_output_def i3_out_pixmaps_def i3_out_segs_def)
  have unused: "\<not> is_in_use (io_slots (is_outputs c ! i) ! j)" if "j < 3" for j
  proof -
    have "io_slots (is_outputs c ! i) ! j \<in> set (io_slots (is_outputs c ! i))"
      using that ci len by (simp add: i3_upd_slot_def Let_def)
    then show ?thesis using empty by (auto simp: filter_empty_conv)
  qed
  have "i3_inv (upd_i3 i ?f ?d)"
  proof (rule i3_inv_update [OF conjunct1 [OF C] ic, where out = "?f (is_outputs c ! i)" and new = "[]" and news = "[]"
        and freed = "if im_valid ?shm then [im_pixmap ?shm] else []"
        and gone = "if im_valid ?shm then [im_seg ?shm] else []"])
    show "i3_out_ok (?f (is_outputs c ! i))" using unused ci len by (simp add: i3_out_ok_def i3_upd_slot_def Let_def)
    show "one_output io_has_bound_channel io_bound_channel (is_outputs (upd_i3 i ?f ?d))"
      using i3_binding.update_keeps [OF i3_inv_one [OF conjunct1 [OF C]], of "?f (is_outputs c ! i)" i] d by simp
    show "i3_ids_ok (upd_i3 i ?f ?d)" using C d by (simp add: i3_inv_def i3_ids_ok_def)
    show "mset (i3_out_pixmaps (is_outputs c ! i)) + mset [] = mset (i3_out_pixmaps (?f (is_outputs c ! i))) +
        mset (if im_valid ?shm then [im_pixmap ?shm] else [])"
      using empty by (simp add: i3_out_pixmaps_def)
  qed (simp_all add: d i3_out_segs_def)
  then have "i3_inv (i3_detach_output i st)" unfolding det by (rule i3_inv_core) simp
  moreover have "i3_settled (i3_detach_output i st) = i3_settled st"
    using A B C d by (simp add: det i3_settled_def)
  ultimately show ?thesis using idle oc i d ic by (simp add: det)
qed

lemma detach_loop:
  assumes "i3_inv st"
  shows "n \<le> length (is_outputs st) \<Longrightarrow>
    i3_inv (foldl (\<lambda>s i. i3_detach_output i s) st [0..<n]) \<and>
    (\<forall>j < n. idle_output (is_outputs (foldl (\<lambda>s i. i3_detach_output i s) st [0..<n]) ! j)) \<and>
    length (is_outputs (foldl (\<lambda>s i. i3_detach_output i s) st [0..<n])) = length (is_outputs st) \<and>
    i3_settled (foldl (\<lambda>s i. i3_detach_output i s) st [0..<n]) = i3_settled st"
proof (induction n)
  case (Suc n)
  let ?s = "foldl (\<lambda>s i. i3_detach_output i s) st [0..<n]"
  from Suc have IH: "i3_inv ?s" "\<forall>j < n. idle_output (is_outputs ?s ! j)" "length (is_outputs ?s) = length (is_outputs st)"
    "i3_settled ?s = i3_settled st" by auto
  with Suc.prems have "n < length (is_outputs ?s)" by simp
  from detach_output_inv [OF IH(1) this] IH show ?case
    by (auto simp: less_Suc_eq)
qed (use assms in simp)

lemma i3_detach_inv:
  assumes "i3_inv st"
  shows "i3_inv (detach st) \<and> list_all idle_output (is_outputs (detach st)) \<and> i3_settled (detach st) = i3_settled st \<and>
    length (is_outputs (detach st)) = length (is_outputs st)"
  using detach_loop [OF assms, of "length (is_outputs st)"] by (simp add: detach_def list_all_length)

lemma i3_ctl_inv:
  assumes "i3_inv st" and "i3_handle_ctl_request env request st = (response, st')"
  shows "i3_inv st' \<and> i3_settled st' = i3_settled st"
proof (cases request)
  case WP_CTL_REQUEST_DETACH
  with assms i3_detach_inv show ?thesis by (auto simp: i3_handle_ctl_request_def)
next
  case WP_CTL_REQUEST_DEBUG_ON
  with assms i3_inv_core [OF assms(1) debug_core(1)] settled_core [OF debug_core(1)] show ?thesis
    by (auto simp: i3_handle_ctl_request_def)
next
  case WP_CTL_REQUEST_DEBUG_OFF
  with assms i3_inv_core [OF assms(1) debug_core(1)] settled_core [OF debug_core(1)] show ?thesis
    by (auto simp: i3_handle_ctl_request_def)
qed (use assms in \<open>auto simp: i3_handle_ctl_request_def\<close>)

lemma x_event_core: "handle_x_event env e st = Some st' \<Longrightarrow> same_core st st'"
  by (auto simp: handle_x_event_def split: x_event.splits if_splits option.splits)

end
