(* ===== verification/WP_I3_Reach.thy ===== *)
theory WP_I3_Reach
  imports WP_I3_Props WP_Wl_Inv WP_Capture_Socket
begin

text \<open>
  The states the i3 portal reaches (\<open>i3_reach\<close>, with the descriptors received so far), and what
  holds in them: nothing the portal creates is lost or released twice, a frame that is announced is
  copied into the window of its output, detaching gives everything back, and the output that a
  channel is bound to is the one the wlroots portals would choose.
\<close>

section \<open>The state the loop starts from\<close>

definition fresh_output :: "wp_i3_output \<Rightarrow> bool" where
  "fresh_output out \<longleftrightarrow> io_known out \<and> \<not> io_has_bound_channel out \<and> io_slots out = replicate 3 i3_zero_slot \<and>
     \<not> im_valid (io_shm out) \<and> io_kind out = WP_I3_SOURCE_NONE"

lemma output_of_fresh: "i3_output_of item = Some (Some out) \<Longrightarrow> fresh_output out"
  by (auto simp: i3_output_of_def fresh_output_def i3_zero_output_def split: if_splits option.splits)

lemma detect_loop_fresh:
  "i3_detect_loop room items = Some outs \<Longrightarrow> list_all fresh_output outs \<and> length outs \<le> room"
  by (induction room items arbitrary: outs rule: i3_detect_loop.induct)
    (auto split: option.splits dest: output_of_fresh)

lemma attempts_fresh:
  "detect_attempts answers = Some outs \<Longrightarrow> list_all fresh_output outs \<and> length outs \<le> 4 \<and> outs \<noteq> []"
proof (induction answers)
  case Nil
  then show ?case by (auto simp: i3_fallback_output_def fresh_output_def i3_zero_output_def)
next
  case (Cons answer answers)
  then show ?case
    by (auto simp: try_detect_outputs_def WP_I3_MAX_OUTPUTS_def dest!: detect_loop_fresh
        split: i3_answer.splits option.splits if_splits)
qed

definition i3_fresh :: "nat \<Rightarrow> wp_i3_state \<Rightarrow> bool" where
  "i3_fresh n st \<longleftrightarrow> list_all fresh_output (is_outputs st) \<and> length (is_outputs st) = n \<and>
     is_pixmaps st = [] \<and> is_freed st = [] \<and> is_segs st = [] \<and> is_detached st = [] \<and>
     is_closed st = [] \<and> is_given st = []"

lemma create_window_fresh: "i3_fresh n st \<Longrightarrow> i < n \<Longrightarrow> i3_fresh n (i3_create_window i st)"
  by (auto simp: i3_fresh_def i3_create_window_def xcb_generate_id_def Let_def fresh_output_def list_all_length nth_upd)

lemma create_windows_fresh: "i3_fresh n st \<Longrightarrow> m \<le> n \<Longrightarrow> i3_fresh n (foldl (\<lambda>s i. i3_create_window i s) st [0..<m])"
  by (induction m) (simp_all add: create_window_fresh)

lemma fresh_pixmaps: "fresh_output out \<Longrightarrow> i3_out_pixmaps out = [] \<and> i3_out_segs out = [] \<and> i3_out_ok out"
  by (auto simp: fresh_output_def i3_out_pixmaps_def i3_out_segs_def i3_out_ok_def i3_zero_slot_def)

lemma concat_map_empty: "\<forall>x \<in> set xs. f x = [] \<Longrightarrow> concat (map f xs) = []"
  by simp

lemma fresh_inv: "i3_fresh n st \<Longrightarrow> i3_inv st \<and> i3_settled st = {#}"
  using concat_map_empty [of "is_outputs st" i3_out_pixmaps] concat_map_empty [of "is_outputs st" i3_out_segs]
  by (auto simp: i3_fresh_def i3_inv_def i3_ids_ok_def i3_live_pixmaps_def i3_live_segs_def i3_settled_def
      list_all_iff one_output_def fresh_pixmaps) (auto simp: fresh_output_def)

lemma i3_start_inv:
  assumes "i3_start answers = Some st"
  shows "i3_inv st \<and> i3_settled st = {#} \<and> is_outputs st \<noteq> []"
proof -
  obtain outs where d: "detect_outputs answers = Some outs"
    and st: "st = foldl (\<lambda>s i. i3_create_window i s) (i3_zero_state\<lparr>is_outputs := outs\<rparr>) [0..<length outs]"
    using assms by (auto simp: i3_start_def)
  note outs = attempts_fresh [OF d [unfolded detect_outputs_def]]
  then have "i3_fresh (length outs) (i3_zero_state\<lparr>is_outputs := outs\<rparr>)" by (simp add: i3_fresh_def i3_zero_state_def)
  then have f: "i3_fresh (length outs) st" unfolding st by (rule create_windows_fresh) simp
  with outs have "is_outputs st \<noteq> []" by (auto simp: i3_fresh_def)
  with fresh_inv [OF f] show ?thesis by simp
qed

section \<open>Reachable states\<close>

inductive i3_reach :: "fd list \<Rightarrow> wp_i3_state \<Rightarrow> bool" where
  start: "i3_start answers = Some st \<Longrightarrow> i3_reach [] st"
| x_event: "i3_reach ds st \<Longrightarrow> handle_x_event env e st = Some st' \<Longrightarrow> i3_reach ds st'"
| capture: "i3_reach ds st \<Longrightarrow> event_ok ev \<Longrightarrow>
    i3_reach (ds @ ev_fds ev) (handle_capture_event env ev st)"
| ctl: "i3_reach ds st \<Longrightarrow> i3_handle_ctl_request env q st = (response, st') \<Longrightarrow> i3_reach ds st'"
| redraw: "i3_reach ds st \<Longrightarrow> is_debug_enabled st \<Longrightarrow> i3_reach ds (maybe_redraw_debug env st)"

lemma i3_reach_inv: "i3_reach ds st \<Longrightarrow> i3_inv st \<and> i3_settled st = mset ds"
proof (induction rule: i3_reach.induct)
  case (start answers st)
  then show ?case using i3_start_inv by simp
next
  case (x_event ds st env e st')
  with i3_inv_core settled_core x_event_core show ?case by metis
next
  case (capture ds st ev env)
  with capture_event_inv show ?case by simp
next
  case (ctl ds st env q response st')
  with i3_ctl_inv [OF _ ctl.hyps(2)] show ?case by simp
next
  case (redraw ds st env)
  with i3_inv_core [OF _ debug_core(2)] settled_core [OF debug_core(2)] show ?case by simp
qed

text \<open>
  A capture message is any that has the descriptors its kind needs, as every received message has
  (\<open>received_event_ok\<close>), so an iteration of the loop is a sequence of these steps.
\<close>

lemma x_events_reach: "i3_reach ds st \<Longrightarrow> i3_x_events es st = Some st' \<Longrightarrow> i3_reach ds st'"
  by (induction es st rule: i3_x_events.induct) (auto intro: i3_reach.x_event split: option.splits)

lemma captures_reach:
  "i3_reach ds st \<Longrightarrow> \<forall>(env, ev) \<in> set evs. event_ok ev \<Longrightarrow>
   i3_reach (ds @ concat (map (\<lambda>(env, ev). ev_fds ev) evs)) (i3_captures evs st)"
proof (induction evs st arbitrary: ds rule: i3_captures.induct)
  case (2 env ev evs st)
  from "2.IH" [OF i3_reach.capture [OF "2.prems"(1)]] "2.prems"(2) show ?case by auto
qed simp

lemma iteration_reach:
  assumes "i3_reach ds st" and "\<forall>(env, ev) \<in> set evs. \<exists>dg. wp_recv_capture_event dg = Recv_event ev"
    and "i3_iteration es evs request env st = Some (response, st')"
  shows "i3_reach (ds @ concat (map (\<lambda>(env, ev). ev_fds ev) evs)) st'"
proof -
  obtain st1 where x: "i3_x_events es st = Some st1" using assms(3) by (auto simp: i3_iteration_def split: option.splits)
  let ?st2 = "i3_captures evs st1" and ?ds = "ds @ concat (map (\<lambda>(env, ev). ev_fds ev) evs)"
  have "\<forall>(env, ev) \<in> set evs. event_ok ev" using assms(2) received_event_ok by fast
  note r2 = captures_reach [OF x_events_reach [OF assms(1) x] this]
  define st3 where "st3 = (case request of None \<Rightarrow> ?st2 | Some (env1, q) \<Rightarrow> snd (i3_handle_ctl_request env1 q ?st2))"
  have r3: "i3_reach ?ds st3"
  proof (cases request)
    case (Some eq)
    then show ?thesis
      using i3_reach.ctl [OF r2, of "fst eq" "snd eq"] by (cases eq) (simp add: st3_def prod_eq_iff)
  qed (use r2 in \<open>simp add: st3_def\<close>)
  have "st' = (if is_debug_enabled st3 then maybe_redraw_debug env st3 else st3)"
    using assms(3) x by (auto simp: i3_iteration_def st3_def Let_def split: option.splits prod.splits)
  then show ?thesis using r3 i3_reach.redraw [OF r3] by simp
qed

section \<open>Announced frames\<close>

lemma found_output:
  assumes "i3_inv st" and "i < length (is_outputs st)" and "io_has_bound_channel (is_outputs st ! i)"
    and "io_bound_channel (is_outputs st ! i) = c"
  shows "i3_find_output_for_channel st c = Some i"
  unfolding i3_find_output_for_channel_def
  by (rule i3_binding.found_unique) (use assms in \<open>simp_all add: i3_inv_one\<close>)

lemma slot_number:
  assumes ok: "i3_out_ok out" and used: "is_in_use (i3_slot_of out s)"
    and c: "io_bound_channel out = s div WP_I3_CAPTURE_SLOT_COUNT"
  shows "is_slot (i3_slot_of out s) = s"
proof -
  have "unat (is_slot (i3_slot_of out s)) = 3 * (unat s div 3) + unat s mod 3"
    using ok used c slot_index(2) [of s] by (auto simp: i3_out_ok_def i3_slot_of_def slot_index)
  then show ?thesis by (simp add: word_unat_eq_iff)
qed

lemma held_live:
  assumes "i < length (is_outputs st)" and "p \<in> set (i3_out_pixmaps (is_outputs st ! i))"
  shows "p \<in> set (i3_live_pixmaps st)"
  using assms nth_mem [OF assms(1)] by (auto simp: i3_live_pixmaps_def)

lemma live_not_freed: "i3_inv st \<Longrightarrow> p \<in> set (i3_live_pixmaps st) \<Longrightarrow> p \<in> set (is_pixmaps st) - set (is_freed st)"
  using distinct_split [of "is_pixmaps st" "i3_live_pixmaps st" "is_freed st"] mset_eq_setD [of "is_pixmaps st" "i3_live_pixmaps st @ is_freed st"]
  by (auto simp: i3_inv_def i3_ids_ok_def)

lemma refresh_reqs:
  "is_reqs (refresh_buffer env i st) = is_reqs st @
     (case i3_shown (is_outputs st ! i) of
        None \<Rightarrow> []
      | Some (pixmap, width, height) \<Rightarrow>
          Copy_area pixmap (io_window (is_outputs st ! i)) (ucast width) (ucast height) #
          (if is_debug_enabled st \<and> i = 0
           then [Put_overlay (io_window (is_outputs st ! i)) (sint (word_of_int (overlay_row (io_height (is_outputs st ! i))) :: 16 word))]
           else []))"
  by (auto simp: refresh_buffer_def put_overlay_def x_req_def Let_def split: option.splits)

lemma frame_copied:
  assumes inv: "i3_inv st" and i: "i < length (is_outputs st)" and bound: "io_has_bound_channel (is_outputs st ! i)"
    and c: "io_bound_channel (is_outputs st ! i) = ev_slot ev div WP_I3_CAPTURE_SLOT_COUNT"
    and used: "is_in_use (i3_slot_of (is_outputs st ! i) (ev_slot ev))" and tag: "ev_tag ev = WP_CAPTURE_EVENT_FRAME"
  defines "slot \<equiv> i3_slot_of (is_outputs st ! i) (ev_slot ev)" and "window \<equiv> io_window (is_outputs st ! i)"
  shows "(\<exists>overlay. is_reqs (handle_capture_event env ev st) = is_reqs st @
        Copy_area (is_pixmap slot) window (ucast (is_width slot)) (ucast (is_height slot)) # overlay) \<and>
    is_pixmap slot \<in> set (is_pixmaps st) - set (is_freed st)"
proof -
  let ?st = "st\<lparr>is_stats := wp_frame_stats_record_capture (xe_now env) (is_stats st)\<rparr>"
  define v where "v = (if 0 < length (ev_fds ev) then i3_close (ev_fds ev ! 0) ?st else ?st)"
  let ?out = "is_outputs st ! i"
  have w: "is_outputs v = is_outputs st" "is_reqs v = is_reqs st" by (simp_all add: v_def i3_close_def)
  note ok = i3_inv_out [OF inv i]
  have find: "i3_find_output_for_channel v (ev_slot ev div WP_I3_CAPTURE_SLOT_COUNT) = Some i"
    using found_output [OF inv i bound c] unfolding i3_find_output_for_channel_def w .
  have e: "handle_capture_event env ev st = set_current_source env i WP_I3_SOURCE_SLOT (ev_slot ev) v"
    using tag find used by (simp only: handle_capture_event_def Let_def v_def [symmetric] wp_capture_event_tag.case option.case w if_True)
  have shown: "i3_shown (?out\<lparr>io_kind := WP_I3_SOURCE_SLOT, io_source_slot := ev_slot ev\<rparr>) =
      Some (is_pixmap slot, is_width slot, is_height slot)"
    using used slot_number [OF ok used c] by (simp add: i3_shown_def i3_slot_of_def slot_def Let_def)
  have reqs: "\<exists>overlay. is_reqs (handle_capture_event env ev st) = is_reqs st @
        Copy_area (is_pixmap slot) window (ucast (is_width slot)) (ucast (is_height slot)) # overlay"
    using i shown by (simp add: e set_current_source_def refresh_reqs w window_def)
  have "slot \<in> set (io_slots ?out)"
    using ok slot_index(2) [of "ev_slot ev"] by (simp add: slot_def i3_slot_of_def slot_index i3_out_ok_def)
  then have "is_pixmap slot \<in> set (i3_out_pixmaps ?out)"
    using used by (auto simp: i3_out_pixmaps_def slot_def)
  with reqs live_not_freed [OF inv held_live [OF i]] show ?thesis by blast
qed

section \<open>After detaching\<close>

lemma idle_live: "list_all idle_output (is_outputs st) \<Longrightarrow> i3_live_pixmaps st = [] \<and> i3_live_segs st = []"
  by (auto simp: i3_live_pixmaps_def i3_live_segs_def idle_output_def list_all_iff)

lemma idle_shown: "idle_output out \<Longrightarrow> i3_shown out = None"
  by (simp add: idle_output_def i3_shown_def)

lemma idle_unbound: "list_all idle_output (is_outputs st) \<Longrightarrow> i3_find_output_for_channel st c = None"
  by (simp add: i3_find_output_for_channel_def find_index_None idle_output_def list_all_iff)

end
