(* ===== verification/WP_I3_Show.thy ===== *)
theory WP_I3_Show
  imports WP_I3_Reach
begin

text \<open>
  The properties of the i3 portal, and what it has in common with the wlroots portals: \<open>out_view\<close> is
  what both know of an output when a channel is to be bound, \<open>route\<close> the choice over these views.
\<close>

section \<open>The choice of an output\<close>

record out_view =
  ov_known :: bool
  ov_x :: i32
  ov_width :: u32
  ov_height :: u32
  ov_channel :: "u32 option"

definition i3_view :: "wp_i3_output \<Rightarrow> out_view" where
  "i3_view out = \<lparr>ov_known = io_known out, ov_x = io_x out, ov_width = io_width out, ov_height = io_height out,
     ov_channel = (if io_has_bound_channel out then Some (io_bound_channel out) else None)\<rparr>"

definition wl_view :: "wp_wl_output \<Rightarrow> out_view" where
  "wl_view out = \<lparr>ov_known = o_known out, ov_x = o_x out, ov_width = o_width out, ov_height = o_height out,
     ov_channel = (if o_has_bound_channel out then Some (o_bound_channel out) else None)\<rparr>"

definition view_leftmost :: "out_view list \<Rightarrow> nat option" where
  "view_leftmost vs =
     foldl (\<lambda>best i.
        if \<not> ov_known (vs ! i) \<or> ov_channel (vs ! i) \<noteq> None then best
        else case best of None \<Rightarrow> Some i
             | Some b \<Rightarrow> if sint (ov_x (vs ! i)) < sint (ov_x (vs ! b)) then Some i else Some b)
       None [0..<length vs]"

definition view_bind :: "u32 \<Rightarrow> nat \<Rightarrow> out_view list \<Rightarrow> out_view list" where
  "view_bind channel i vs = vs[i := (vs ! i)\<lparr>ov_channel := Some channel\<rparr>]"

definition route :: "u32 \<Rightarrow> u32 \<Rightarrow> u32 \<Rightarrow> out_view list \<Rightarrow> nat option \<times> out_view list" where
  "route channel width height vs =
     (case find_index (\<lambda>v. ov_channel v = Some channel) vs of
        Some i \<Rightarrow> (Some i, vs)
      | None \<Rightarrow>
         (case find_index (\<lambda>v. ov_known v \<and> ov_channel v = None \<and> ov_width v = width \<and> ov_height v = height) vs of
            Some i \<Rightarrow> (Some i, view_bind channel i vs)
          | None \<Rightarrow>
             (case view_leftmost vs of
                Some i \<Rightarrow> (Some i, view_bind channel i vs)
              | None \<Rightarrow> (None, vs))))"

lemma find_index_map: "find_index p (map f xs) = find_index (\<lambda>x. p (f x)) xs"
  by (induction xs) simp_all

lemma foldl_best_view:
  assumes v: "\<And>out. ov_known (view out) = known out \<and> ov_x (view out) = xpos out \<and> (ov_channel (view out) \<noteq> None) = bound out"
  shows "n \<le> length outs \<Longrightarrow>
    foldl (\<lambda>best i. if \<not> ov_known (map view outs ! i) \<or> ov_channel (map view outs ! i) \<noteq> None then best
        else case best of None \<Rightarrow> Some i
             | Some b \<Rightarrow> if sint (ov_x (map view outs ! i)) < sint (ov_x (map view outs ! b)) then Some i else Some b)
       None [0..<n] =
    foldl (\<lambda>best i. if \<not> known (outs ! i) \<or> bound (outs ! i) then best
        else case best of None \<Rightarrow> Some i
             | Some b \<Rightarrow> if sint (xpos (outs ! i)) < sint (xpos (outs ! b)) then Some i else Some b)
       None [0..<n] \<and>
    (case foldl (\<lambda>best i. if \<not> known (outs ! i) \<or> bound (outs ! i) then best
        else case best of None \<Rightarrow> Some i
             | Some b \<Rightarrow> if sint (xpos (outs ! i)) < sint (xpos (outs ! b)) then Some i else Some b)
       None [0..<n] of None \<Rightarrow> True | Some b \<Rightarrow> b < n)"
proof (induction n)
  case (Suc n)
  then show ?case
    using v [of "outs ! n"] v by (auto split: option.splits)
qed simp

lemma view_simps [simp]:
  "ov_known (i3_view out) = io_known out" "ov_x (i3_view out) = io_x out"
  "ov_width (i3_view out) = io_width out" "ov_height (i3_view out) = io_height out"
  "(ov_channel (i3_view out) = None) = (\<not> io_has_bound_channel out)"
  "(ov_channel (i3_view out) = Some c) = (io_has_bound_channel out \<and> io_bound_channel out = c)"
  "ov_known (wl_view w) = o_known w" "ov_x (wl_view w) = o_x w"
  "ov_width (wl_view w) = o_width w" "ov_height (wl_view w) = o_height w"
  "(ov_channel (wl_view w) = None) = (\<not> o_has_bound_channel w)"
  "(ov_channel (wl_view w) = Some c) = (o_has_bound_channel w \<and> o_bound_channel w = c)"
  by (simp_all add: i3_view_def wl_view_def)

lemma i3_leftmost_view: "view_leftmost (map i3_view outs) = i3_leftmost outs"
  using foldl_best_view [of i3_view io_known io_x io_has_bound_channel "length outs" outs]
  by (simp add: view_leftmost_def i3_leftmost_def)

lemma wl_leftmost_view: "view_leftmost (map wl_view outs) = leftmost_free outs"
  using foldl_best_view [of wl_view o_known o_x o_has_bound_channel "length outs" outs]
  by (simp add: view_leftmost_def leftmost_free_def)

lemma i3_bind_view:
  "i < length outs \<Longrightarrow> map i3_view (outs[i := i3_bind c (outs ! i)]) = view_bind c i (map i3_view outs)"
  by (simp add: view_bind_def map_update i3_view_def i3_bind_def)

lemma wl_bind_view:
  "i < length outs \<Longrightarrow> map wl_view (outs[i := bind_channel c (outs ! i)]) = view_bind c i (map wl_view outs)"
  by (simp add: view_bind_def map_update wl_view_def bind_channel_def)

lemma i3_routes:
  "route c w h (map i3_view (is_outputs st)) =
     (fst (i3_output_for_buf c w h st), map i3_view (is_outputs (snd (i3_output_for_buf c w h st))))"
  by (auto simp: route_def i3_output_for_buf_def i3_find_output_for_channel_def i3_claim_output_for_size_def
      find_index_map i3_leftmost_view i3_bind_view leftmost_free_out dest: find_index_Some split: option.splits)

lemma wl_routes:
  "route c w h (map wl_view (ws_outputs st)) =
     (fst (output_for_buf c w h False x y st), map wl_view (ws_outputs (snd (output_for_buf c w h False x y st))))"
  by (auto simp: route_def output_for_buf_def find_output_for_channel_def claim_output_for_size_def upd_out_def
      find_index_map wl_leftmost_view wl_bind_view dest: find_index_Some leftmost_free_Some split: option.splits)


definition two_i3 :: wp_i3_state where
  "two_i3 = i3_zero_state\<lparr>is_outputs :=
     [i3_fallback_output\<lparr>io_x := 1920\<rparr>, i3_fallback_output\<lparr>io_width := 2560, io_height := 1440\<rparr>]\<rparr>"

definition two_wl :: wp_wl_state where
  "two_wl = initial_state\<lparr>ws_outputs :=
     [zero_output\<lparr>o_known := True, o_x := 1920, o_width := 1920, o_height := 1080\<rparr>,
      zero_output\<lparr>o_known := True, o_width := 2560, o_height := 1440\<rparr>]\<rparr>"


section \<open>Resources\<close>

text \<open>
  C13. In every state the i3 portal reaches, each pixmap it created is either held by exactly one
  capture slot or shared-memory buffer of one output or has been freed exactly once, each attached
  segment is either held or was detached exactly once, and every descriptor received so far was
  either closed by the portal or handed to the X library, once.
\<close>

theorem i3_resources:
  assumes "i3_reach ds st"
  shows "mset (is_pixmaps st) = mset (i3_live_pixmaps st @ is_freed st) \<and> distinct (i3_live_pixmaps st @ is_freed st) \<and>
    mset (is_segs st) = mset (i3_live_segs st @ is_detached st) \<and> distinct (i3_live_segs st @ is_detached st) \<and>
    mset ds = mset (is_closed st @ is_given st)"
proof -
  from i3_reach_inv [OF assms]
  have "mset (is_pixmaps st) = mset (i3_live_pixmaps st @ is_freed st)" "distinct (is_pixmaps st)"
    "mset (is_segs st) = mset (i3_live_segs st @ is_detached st)" "distinct (is_segs st)"
    "mset ds = mset (is_closed st @ is_given st)"
    by (auto simp: i3_inv_def i3_ids_ok_def i3_settled_def)
  then show ?thesis using distinct_mset by metis
qed

definition demo_i3_env :: i3_env where
  "demo_i3_env = \<lparr>xe_now = 0, xe_import = True, xe_attach = True, xe_shm_pixmap = True\<rparr>"

definition demo_i3_started :: wp_i3_state where
  "demo_i3_started = the (i3_start (\<lambda>_. No_answer))"

definition demo_i3_buf :: wp_capture_event where
  "demo_i3_buf = zero_event\<lparr>ev_tag := WP_CAPTURE_EVENT_BUF, ev_slot := 4, ev_width := 1920, ev_height := 1080,
     ev_stride := 7680, ev_fds := [7, 8]\<rparr>"

definition demo_i3_shown :: wp_i3_state where
  "demo_i3_shown = handle_capture_event demo_i3_env demo_i3_buf demo_i3_started"

lemma demo_i3_reach: "i3_reach [7, 8] demo_i3_shown"
proof -
  have "i3_start (\<lambda>_. No_answer) = Some demo_i3_started"
    by (simp add: demo_i3_started_def i3_start_def detect_outputs_def try_detect_outputs_def upt_rec)
  from i3_reach.capture [OF i3_reach.start [OF this], of demo_i3_buf demo_i3_env]
  show ?thesis by (simp add: demo_i3_shown_def demo_i3_buf_def zero_event_def event_ok_def)
qed

lemma demo_i3_started_eval:
  "demo_i3_started = i3_zero_state\<lparr>is_outputs := [i3_fallback_output\<lparr>io_window := 0, io_gc := 1\<rparr>], is_next_id := 2,
     is_reqs := [Create_window 0 0 0 1920 1080, Map_window 0, Lower_window 0, Create_gc 1 0]\<rparr>"
  by (simp add: demo_i3_started_def i3_start_def detect_outputs_def try_detect_outputs_def upt_rec i3_create_window_def
      xcb_generate_id_def upd_i3_def x_req_def i3_fallback_output_def i3_zero_output_def i3_zero_state_def Let_def)

lemma demo_i3_shown_eval:
  "\<exists>stats reqs. demo_i3_shown = i3_zero_state\<lparr>is_outputs :=
     [i3_fallback_output\<lparr>io_window := 0, io_gc := 1, io_has_bound_channel := True, io_bound_channel := 1,
        io_slots := [i3_zero_slot, \<lparr>is_in_use = True, is_slot = 4, is_pixmap = 2, is_width = 1920, is_height = 1080\<rparr>,
          i3_zero_slot], io_kind := WP_I3_SOURCE_SLOT, io_source_slot := 4\<rparr>],
     is_stats := stats, is_next_id := 3, is_reqs := reqs, is_closed := [8], is_given := [7], is_pixmaps := [2]\<rparr>"
  by (simp add: demo_i3_shown_def demo_i3_started_eval handle_capture_event_def i3_handle_buf_def i3_output_for_buf_def
      i3_find_output_for_channel_def i3_claim_output_for_size_def i3_release_slot_def i3_slot_of_def i3_upd_slot_def
      i3_close_def xcb_generate_id_def upd_i3_def x_req_def set_current_source_def refresh_buffer_def i3_shown_def i3_bind_def
      i3_fallback_output_def i3_zero_output_def i3_zero_state_def i3_zero_slot_def demo_i3_buf_def zero_event_def demo_i3_env_def
      WP_I3_CAPTURE_SLOT_COUNT_def WP_I3_MAX_CAPTURE_CHANNELS_def Let_def numeral_3_eq_3 word_le_nat_alt cong: if_cong)

lemma demo_i3_values:
  "is_pixmaps demo_i3_shown = [2]" "is_freed demo_i3_shown = []"
  "length (is_outputs demo_i3_shown) = 1" "io_has_bound_channel (is_outputs demo_i3_shown ! 0)"
  "io_bound_channel (is_outputs demo_i3_shown ! 0) = 1" "io_window (is_outputs demo_i3_shown ! 0) = 0"
  "i3_slot_of (is_outputs demo_i3_shown ! 0) 4 =
     \<lparr>is_in_use = True, is_slot = 4, is_pixmap = 2, is_width = 1920, is_height = 1080\<rparr>"
proof -
  obtain stats reqs where e: "demo_i3_shown = i3_zero_state\<lparr>is_outputs :=
     [i3_fallback_output\<lparr>io_window := 0, io_gc := 1, io_has_bound_channel := True, io_bound_channel := 1,
        io_slots := [i3_zero_slot, \<lparr>is_in_use = True, is_slot = 4, is_pixmap = 2, is_width = 1920, is_height = 1080\<rparr>,
          i3_zero_slot], io_kind := WP_I3_SOURCE_SLOT, io_source_slot := 4\<rparr>],
     is_stats := stats, is_next_id := 3, is_reqs := reqs, is_closed := [8], is_given := [7], is_pixmaps := [2]\<rparr>"
    using demo_i3_shown_eval by blast
  show "is_pixmaps demo_i3_shown = [2]" "is_freed demo_i3_shown = []"
    "length (is_outputs demo_i3_shown) = 1" "io_has_bound_channel (is_outputs demo_i3_shown ! 0)"
    "io_bound_channel (is_outputs demo_i3_shown ! 0) = 1" "io_window (is_outputs demo_i3_shown ! 0) = 0"
    "i3_slot_of (is_outputs demo_i3_shown ! 0) 4 =
       \<lparr>is_in_use = True, is_slot = 4, is_pixmap = 2, is_width = 1920, is_height = 1080\<rparr>"
    by (simp_all add: e i3_zero_state_def i3_slot_of_def WP_I3_CAPTURE_SLOT_COUNT_def)
qed

theorem i3_resources_witness: "mset [2] = mset (i3_live_pixmaps demo_i3_shown)"
  using i3_resources [OF demo_i3_reach] by (simp add: demo_i3_values)

section \<open>Frames\<close>

text \<open>
  C14. In every state the i3 portal reaches, a FRAME message for a slot that is in use, of a channel
  that an output is bound to, is shown at once: the next request copies the pixmap that was imported
  for this slot, in its size, into the window of that output, and this pixmap has not been freed.
\<close>

theorem i3_frame_copied:
  assumes "i3_reach ds st" and "ev_tag ev = WP_CAPTURE_EVENT_FRAME" and "i < length (is_outputs st)"
    and "io_has_bound_channel (is_outputs st ! i)"
    and "io_bound_channel (is_outputs st ! i) = ev_slot ev div WP_I3_CAPTURE_SLOT_COUNT"
    and "is_in_use (i3_slot_of (is_outputs st ! i) (ev_slot ev))"
  shows "let slot = i3_slot_of (is_outputs st ! i) (ev_slot ev) in
    is_pixmap slot \<in> set (is_pixmaps st) - set (is_freed st) \<and>
    (\<exists>overlay. is_reqs (handle_capture_event env ev st) = is_reqs st @
       Copy_area (is_pixmap slot) (io_window (is_outputs st ! i)) (ucast (is_width slot)) (ucast (is_height slot)) # overlay)"
  unfolding Let_def
  using frame_copied [OF conjunct1 [OF i3_reach_inv [OF assms(1)]] assms(3-6) assms(2)] by blast

definition demo_i3_frame :: wp_capture_event where
  "demo_i3_frame = zero_event\<lparr>ev_tag := WP_CAPTURE_EVENT_FRAME, ev_slot := 4\<rparr>"

theorem i3_frame_copied_witness:
  "\<exists>overlay. is_reqs (handle_capture_event demo_i3_env demo_i3_frame demo_i3_shown) =
     is_reqs demo_i3_shown @ Copy_area 2 0 1920 1080 # overlay"
  using i3_frame_copied [OF demo_i3_reach, of demo_i3_frame 0 demo_i3_env]
  by (simp add: demo_i3_values demo_i3_frame_def zero_event_def WP_I3_CAPTURE_SLOT_COUNT_def)

section \<open>Detaching\<close>

text \<open>
  Detaching the i3 portal gives everything back: in every state it reaches, a DETACH request is
  answered with OK, afterwards every pixmap that was ever created has been freed exactly once and every
  segment detached exactly once, no output shows anything or is bound to a channel, and a FRAME message
  that is still under way causes no request.
\<close>

theorem i3_detach_releases_all:
  assumes "i3_reach ds st" and "i3_handle_ctl_request env WP_CTL_REQUEST_DETACH st = (response, st')"
  shows "response = WP_CTL_RESPONSE_OK \<and>
    mset (is_pixmaps st') = mset (is_freed st') \<and> distinct (is_freed st') \<and>
    mset (is_segs st') = mset (is_detached st') \<and> distinct (is_detached st') \<and>
    list_all (\<lambda>out. i3_shown out = None \<and> \<not> io_has_bound_channel out) (is_outputs st') \<and>
    (ev_tag ev = WP_CAPTURE_EVENT_FRAME \<longrightarrow> is_reqs (handle_capture_event env ev st') = is_reqs st')"
proof -
  have r: "response = WP_CTL_RESPONSE_OK" and st': "st' = detach st" using assms(2) by (simp_all add: i3_handle_ctl_request_def)
  have inv: "i3_inv st'" and idle: "list_all idle_output (is_outputs st')"
    using i3_detach_inv [OF conjunct1 [OF i3_reach_inv [OF assms(1)]]] by (simp_all add: st')
  from inv idle_live [OF idle] have m: "mset (is_pixmaps st') = mset (is_freed st')" "distinct (is_pixmaps st')"
    "mset (is_segs st') = mset (is_detached st')" "distinct (is_segs st')"
    by (simp_all add: i3_inv_def i3_ids_ok_def)
  moreover have "list_all (\<lambda>out. i3_shown out = None \<and> \<not> io_has_bound_channel out) (is_outputs st')"
    using idle idle_shown by (auto simp: list_all_iff idle_output_def)
  moreover have "is_reqs (handle_capture_event env ev st') = is_reqs st'" if "ev_tag ev = WP_CAPTURE_EVENT_FRAME"
    using that idle_unbound [OF idle]
    by (simp add: handle_capture_event_def Let_def i3_find_output_for_channel_def i3_close_def)
  ultimately show ?thesis using r m(1,3) distinct_mset [OF m(1)] distinct_mset [OF m(3)] by simp
qed

lemma detach_pixmaps: "is_pixmaps (detach st) = is_pixmaps st"
proof -
  have r: "is_pixmaps (i3_release_slot i s v) = is_pixmaps v" for i s v
    by (simp add: i3_release_slot_def Let_def)
  have "is_pixmaps (i3_detach_output i v) = is_pixmaps v" for i v
    by (simp add: i3_detach_output_def i3_release_slots_def i3_drop_shm_def r Let_def)
  then have "is_pixmaps (foldl (\<lambda>s i. i3_detach_output i s) st is) = is_pixmaps st" for "is"
    by (induction "is" arbitrary: st) simp_all
  then show ?thesis by (simp add: detach_def)
qed

theorem i3_detach_releases_all_witness: "mset (is_freed (detach demo_i3_shown)) = {#2#}"
  using i3_detach_releases_all [OF demo_i3_reach, of demo_i3_env "WP_CTL_RESPONSE_OK" "detach demo_i3_shown" demo_i3_frame]
  by (simp add: i3_handle_ctl_request_def detach_pixmaps demo_i3_values)

end
