(* ===== verification/Spec2Isabelle.thy ===== *)
theory Spec2Isabelle
  imports WP_Wl_Run WP_Vk_Props WP_Wallpiperctl WP_Fonts WP_Tray_Props WP_Cursor WP_Libc_Props WP_Renderer_Props WP_Waitobj
    WP_Shim WP_Gnome_Show WP_I3_Show
begin

text \<open>
  Wallpiper shows the Windows program Wallpaper Engine as a Linux desktop background. A daemon
  (\<^verbatim>\<open>programs/wallpiperd\<close>) starts a portal for the desktop in use and runs Wallpaper Engine under
  Proton; a Vulkan layer loaded into that process (\<^verbatim>\<open>loader/vk-layer-hook\<close>) copies each presented
  image into a dma-buf and announces it over a datagram socket; the portal
  (\<^verbatim>\<open>programs/wallpiper-portal-wl-common\<close> for the wlroots compositors) puts the buffers on the
  background surfaces; \<^verbatim>\<open>programs/wallpiperctl\<close> controls the daemon and Wallpaper Engine. The parts
  share \<^verbatim>\<open>protocol/\<close>.

  \<^bold>\<open>Parts and theories.\<close>
  \<^item> \<^verbatim>\<open>WP_Prelude\<close>: machine integers, C strings, \<open>snprintf\<close>, \<open>strtol\<close>, \<open>strtok_r\<close>, linear searches.
  \<^item> \<^verbatim>\<open>WP_Paths\<close>: \<^verbatim>\<open>protocol/paths.c\<close> and the paths of \<^verbatim>\<open>wallpiperd/config.c\<close>.
  \<^item> \<^verbatim>\<open>WP_Steam_Paths\<close>: \<^verbatim>\<open>protocol/steam_paths.c\<close>; finding Steam, Proton and Wine, and the natural
    order of version names as a comparison of keys (locale \<open>comparison\<close>, what \<open>qsort\<close> requires).
  \<^item> \<^verbatim>\<open>WP_Capture_Socket\<close>: \<^verbatim>\<open>protocol/capture_socket.c\<close>; BUF, FRAME and SHM messages with their
    descriptors, and the sending link.
  \<^item> \<^verbatim>\<open>WP_Debug_Overlay\<close>: \<^verbatim>\<open>protocol/debug_overlay.c\<close>; the rings of timestamps, the throttle and the
    panel renderer with every array access checked.
  \<^item> \<^verbatim>\<open>WP_Geometry\<close>: \<^verbatim>\<open>protocol/monitor_geometry.c\<close>, on rationals rounded to doubles.
  \<^item> \<^verbatim>\<open>WP_Ctl_Protocol\<close>, \<^verbatim>\<open>WP_Ctl_Listener\<close>: \<^verbatim>\<open>protocol/ctl_protocol.c\<close>; the lines of the control
    protocol (locale \<open>line_codec\<close>), one exchange, and the listener thread, which answers some lines
    itself, and the main loop sharing one record, interleaved.
  \<^item> \<^verbatim>\<open>WP_Daemon_Ctl\<close>: \<^verbatim>\<open>protocol/daemon_ctl_protocol.c\<close>, the daemon's side of a connection, its
    commands and \<^verbatim>\<open>wallpiperd/portal.c\<close>.
  \<^item> \<^verbatim>\<open>WP_Wallpiperctl\<close>: \<^verbatim>\<open>wallpiperctl/main.c\<close> and \<^verbatim>\<open>we_control.c\<close>.
  \<^item> \<^verbatim>\<open>WP_Wl_State\<close>: the wlroots portal (\<^verbatim>\<open>state_internal.h, registry.c, layer_surface.c,
    buffers.c, state.c\<close>). Requests to the compositor and closed descriptors are recorded in the
    state. \<^verbatim>\<open>WP_Wl_Inv\<close>, \<^verbatim>\<open>WP_Wl_Steps\<close>: its invariant and the step relation \<open>wl_step\<close> with the
    reachable states. \<^verbatim>\<open>WP_Wl_Ledger\<close>: descriptors, channels and what a frame shows.
    \<^verbatim>\<open>WP_Wl_Loop\<close>: the frame loop as a refinement of a two-counter machine, and where a
    buffer goes. \<^verbatim>\<open>WP_Wl_Run\<close>: the main loop (\<^verbatim>\<open>run.c\<close>), what one iteration receives and answers.
  \<^item> \<^verbatim>\<open>WP_Vk_Device\<close>, \<^verbatim>\<open>WP_Vk_Capture\<close>: the Vulkan layer (\<^verbatim>\<open>device.c, instance.c, capture.c\<close>), with
    what Vulkan answers as an argument; \<^verbatim>\<open>WP_Vk_Inv\<close>, \<^verbatim>\<open>WP_Vk_Props\<close>: the step relation \<open>vk_step\<close>,
    wire channels, Vulkan objects, messages and barriers.
  \<^item> \<^verbatim>\<open>WP_Font_Rename\<close>: \<^verbatim>\<open>programs/wallpiperd/font_rename.c\<close>, giving a font another name. The written file
    has the checksum of its format and reads back, with the reader of the code, as its tables and
    the new name table, whose records point at the encoded names. The order of the tables is
    \<open>compare_tags\<close>, an interpretation of the interface of \<open>qsort\<close>.
  \<^item> \<^verbatim>\<open>WP_Fonts\<close>: \<^verbatim>\<open>wallpiperd/fonts.c\<close> and \<^verbatim>\<open>loader/elf/fonts.c\<close>: the daemon writes renamed
    fonts and the list of redirections, the preload library reads the list and answers the opens.
  \<^item> \<^verbatim>\<open>WP_Tray_Files\<close>, \<^verbatim>\<open>WP_Tray_Text\<close>: the files the daemon and the process of Wallpaper Engine share
    for the tray (\<^verbatim>\<open>tray_files.c, ipc_triggers.c, loader/coff/menu.c, tray.c\<close>): the icon, the menu
    dump, the triggers. \<^verbatim>\<open>WP_Tray_Menu\<close>, \<^verbatim>\<open>WP_Tray_Props\<close>: \<^verbatim>\<open>tray_dbus.c\<close>, the tree of menu items, the
    ids sent to the desktop, layouts, refresh and clicks, with the step relation \<open>tray_step\<close>.
  \<^item> \<^verbatim>\<open>WP_Cursor\<close>: \<^verbatim>\<open>loader/elf/cursor_forward.c\<close> and \<^verbatim>\<open>loader/coff/cursor.c\<close>, from the position the
    portal reports to the position the program is given.
  \<^item> \<^verbatim>\<open>WP_Fsutil\<close>, \<^verbatim>\<open>WP_Fsutil_Props\<close>: \<^verbatim>\<open>protocol/fsutil.c\<close> on a file system with partial reads and
    writes: making directories, copying files and trees.
  \<^item> \<^verbatim>\<open>WP_Libc\<close>, \<^verbatim>\<open>WP_Libc_Props\<close>: \<^verbatim>\<open>loader/coff/libc.c\<close>, the C library of the code in the Windows
    process, on memory with checked accesses; its formatted output has a type discipline.
  \<^item> \<^verbatim>\<open>WP_Process\<close>: \<^verbatim>\<open>wallpiperd/process.c\<close>, \<^verbatim>\<open>cleanup.c\<close> and \<^verbatim>\<open>vk-layer-hook/process.c\<close>: finding and
    ending processes, in a system that shows itself as a function of time.
  \<^item> \<^verbatim>\<open>WP_Renderer\<close>, \<^verbatim>\<open>WP_Renderer_Props\<close>: \<^verbatim>\<open>wallpiperd/renderer.c\<close>, \<^verbatim>\<open>dwmapi_shim.c\<close>, \<^verbatim>\<open>vk_layer.c\<close>,
    \<^verbatim>\<open>signals.c\<close> and \<^verbatim>\<open>loader/elf/guardian.c\<close>: the pid files, the start of Wallpaper Engine, the environment
    it is given and what the libraries loaded into it make of that environment.
  \<^item> \<^verbatim>\<open>WP_Waitobj\<close>: \<^verbatim>\<open>loader/coff/waitobj.c\<close>, registered waits: threads and callers interleaved over a heap of
    wait objects (locale \<open>call_budget\<close>, how often a callback may still be called).
  \<^item> \<^verbatim>\<open>WP_Pe\<close>, \<^verbatim>\<open>WP_Pe_Props\<close>: \<^verbatim>\<open>pe_iat.c\<close> and \<^verbatim>\<open>bootstrap.c\<close>, the import and export tables of program images.
  \<^item> \<^verbatim>\<open>WP_Shim\<close>: \<^verbatim>\<open>util.c\<close>, \<^verbatim>\<open>spawn.c\<close>, \<^verbatim>\<open>progman.c\<close>, \<^verbatim>\<open>dwm_exports.c\<close> and \<^verbatim>\<open>imports.c\<close>, the other hooks of the
    library in the Windows process.
  \<^item> \<^verbatim>\<open>WP_Gnome\<close>, \<^verbatim>\<open>WP_Gnome_Props\<close>, \<^verbatim>\<open>WP_Gnome_Show\<close>: the GNOME portal
    (\<^verbatim>\<open>wallpiper-portal-gnome/native\<close>), with GLib, Clutter, EGL, Mutter and the X server as arguments; its
    reachable states \<open>gn_reach\<close>, what it shows of what the layer sends, the stacking of its actors and its answers.
  \<^item> \<^verbatim>\<open>WP_Resources\<close>: resources that are created, held and released, as multisets; for the GNOME and i3 portals.
  \<^item> \<^verbatim>\<open>WP_I3\<close>, \<^verbatim>\<open>WP_I3_Props\<close>, \<^verbatim>\<open>WP_I3_Reach\<close>, \<^verbatim>\<open>WP_I3_Show\<close>: the i3 portal
    (\<^verbatim>\<open>wallpiper-portal-i3/main.c\<close>), with the answers of the X server and of \<open>i3-msg\<close> as arguments; binding channels to
    outputs (locale \<open>output_binding\<close>, also of the wlroots portals), the invariant of the states \<open>i3_reach\<close>, and what a frame shows.

  \<^bold>\<open>What is shown.\<close> Invariants by rule induction over the step relations (wire channels, channel
  binding, Vulkan objects, descriptors); the messages of each protocol are read as they were sent,
  and an exchange returns the peer's answer; the frame loop, the main loop and the listener refine
  their abstract machines; the renderer stays in its buffer; the searches choose what they should;
  the fonts and the menu of the Windows process reach the other side as they were, a click resolves
  to the item it was made on, and the failures found are stated as theorems. This theory joins the processes: what the
  layer sends is handled by the portal, and a client command takes effect in the portal.

  \<^bold>\<open>Conventions.\<close> Functions with out parameters return options; errors are sums. A fixed buffer is
  the length argument of \<open>snprintf\<close>, and a write outside a buffer is a result of its own. Calls to
  the system, Vulkan, Wayland and cJSON are arguments. Loops are structural recursions or have a
  measure; the readiness watcher, which may wait forever, is a partial function. No fuel is used. Where several
  messages are handled in one go, each comes with the answers of the system at that time. The identifiers
  of the tray menu are 32 bits wide; what rests on them being distinct assumes that so many were not used yet.
  Allocation in the C library is assumed to succeed except where the code tests for it and
  an argument says so.

  \<^bold>\<open>Not modelled.\<close> The code in \<^verbatim>\<open>libs/\<close> and \<^verbatim>\<open>x86_64-pc-windows-tcc/\<close> is third-party. Binding sockets,
  starting threads and processes, log lines and help texts are input and output only. Presents of
  one swapchain on several queues at once are not interleaved. The KDE portal is C++ and QML. The programs
  of the other desktops are queries to their compositor (sockets, commands, JSON by cJSON) around the code of
  \<^verbatim>\<open>WP_Wl_Run\<close>; the entry points of the Vulkan layer and of the two preloaded libraries only look up and
  install the functions that are modelled, and the test programs of the GNOME portal draw a pattern.
\<close>

section \<open>From the Vulkan layer to the portal\<close>

lemma good_msg_handled:
  assumes "good_msg before dg" and "wl_reachable pt"
  obtains ev where "wp_recv_capture_event (Some dg) = Recv_event ev" and "has_fd ev"
    and "wl_reachable (wp_wl_handle_capture_event env ev pt)"
    and "ledger (wp_wl_handle_capture_event env ev pt) = mset (dg_fds dg) + ledger pt"
proof -
  from assms(1) obtain ev where ev: "wp_recv_capture_event (Some dg) = Recv_event ev"
    by (auto simp: good_msg_def split: recv_result.splits)
  with assms(1) have g: "ev_fds ev = dg_fds dg" "has_fd ev" "ev_tag ev \<noteq> WP_CAPTURE_EVENT_SHM"
      "length (ev_fds ev) \<le> (if ev_tag ev = WP_CAPTURE_EVENT_BUF then 2 else 1)"
    by (auto simp: good_msg_def has_fd_def split: wp_capture_event_tag.splits)
  show ?thesis
    using that [OF ev g(2)] handled_event_ledger [OF assms(2) g(2-4)] g(1)
      wl_reachable_step [OF assms(2) wl_step.capture [OF g(2)]] by simp
qed

text \<open>Datagrams in the socket, with what the system answers while each of them is handled.\<close>

fun queued :: "(nat \<Rightarrow> wl_env) \<Rightarrow> nat \<Rightarrow> datagram list \<Rightarrow> incoming" where
  "queued env n [] = []"
| "queued env n (dg # dgs) = (env n, Some dg) # queued env (Suc n) dgs"

lemma stream_handled:
  assumes "msgs_ok (before @ L)" and "wl_reachable pt"
  shows "length (received (queued env n L)) = length L
    \<and> wl_reachable (handle_events (queued env n L) pt)
    \<and> ledger (handle_events (queued env n L) pt) = mset (concat (map dg_fds L)) + ledger pt"
  using assms
proof (induction L arbitrary: before pt n)
  case (Cons dg L)
  have "good_msg before dg"
    using Cons.prems(1) unfolding msgs_ok_def by (auto dest: spec [of _ "length before"])
  then obtain ev where ev: "wp_recv_capture_event (Some dg) = Recv_event ev"
    and pt': "wl_reachable (wp_wl_handle_capture_event (env n) ev pt)"
    and led: "ledger (wp_wl_handle_capture_event (env n) ev pt) = mset (dg_fds dg) + ledger pt"
    using Cons.prems(2) by (rule good_msg_handled)
  from Cons.prems(1) have "msgs_ok ((before @ [dg]) @ L)" by simp
  from Cons.IH [OF this pt'] ev led show ?case by (simp add: ac_simps)
qed simp

text \<open>
  C1. The two processes agree on the wire: whatever the layer has sent in a reachable state of its
  own, a portal in a reachable state that drains the socket accepts every message, stays in a
  reachable state, and ends up responsible for exactly the descriptors that were sent, each of
  them closed or held in a slot.
\<close>

theorem layer_messages_handled:
  assumes "vk_reachable st" and "wl_reachable pt"
  shows "length (received (queued env 0 (sent st))) = length (sent st)
    \<and> wl_reachable (handle_events (queued env 0 (sent st)) pt)
    \<and> ledger (handle_events (queued env 0 (sent st)) pt) =
        mset (concat (map dg_fds (sent st))) + ledger pt"
  using stream_handled [of "[]" "sent st" pt env 0] wire_reachable [OF assms(1)] assms(2)
  by (simp add: wire_inv_def)

theorem layer_messages_handled_witness:
  "length (received (queued (\<lambda>_. demo_env) 0 (sent demo_vk_frame))) = length (sent demo_vk_frame)
   \<and> wl_reachable (handle_events (queued (\<lambda>_. demo_env) 0 (sent demo_vk_frame)) demo_known)"
  using layer_messages_handled [OF reachable_demo_vk_frame reachable_demo_known, of "\<lambda>_. demo_env"] by simp

section \<open>From the command line to the portal\<close>

text \<open>
  What a portal does with one connection to its control socket: the response of
  \<open>serve_connection\<close> and the state of its main loop afterwards.
\<close>

definition portal_after :: "string \<Rightarrow> wp_wl_state \<Rightarrow> wp_wl_state" where
  "portal_after input st =
     (case read_line input 512 of
        None \<Rightarrow> st
      | Some line \<Rightarrow>
         (case wp_ctl_request_parse line of None \<Rightarrow> st | Some request \<Rightarrow> snd (handle_ctl_request request st)))"

definition portal_send ::
  "ctl_env \<Rightarrow> string \<Rightarrow> wp_ctl_request \<Rightarrow> wp_wl_state \<Rightarrow> wp_ctl_response option \<times> wp_wl_state" where
  "portal_send env name request st =
     (case wp_send_ctl_request env (Some name) (serve_connection (\<lambda>q. fst (handle_ctl_request q st))) request of
        None \<Rightarrow> None | Some r \<Rightarrow> r,
      if ce_connect env \<and> ce_timeouts env \<and> ce_write env \<and>
         (case wp_ctl_socket_path (Some name) 256 of None \<Rightarrow> False | Some path \<Rightarrow> length path < 108)
      then (case wp_ctl_request_encode request 32 of None \<Rightarrow> st | Some line \<Rightarrow> portal_after line st)
      else st)"

text \<open>The daemon as \<^verbatim>\<open>wallpiperctl\<close> sees it, and the client run against it.\<close>

definition daemon_handler :: "environ \<Rightarrow> ctl_env \<Rightarrow> string list \<Rightarrow> wp_wl_state \<Rightarrow> (string + unit) \<times> wp_wl_state" where
  "daemon_handler vars env = wp_commands_dispatch (wp_portal_set_debug_overlay vars (portal_send env)) 400"

definition run_client ::
  "environ \<Rightarrow> file_view \<Rightarrow> exec_env \<Rightarrow> daemon_env \<Rightarrow> ctl_env \<Rightarrow> string list \<Rightarrow> wp_wl_state \<times> we_world \<Rightarrow>
   (nat \<times> string option) \<times> wp_wl_state \<times> we_world" where
  "run_client vars fv xenv denv cenv =
     wallpiperctl_main
       (\<lambda>cmd argv (st, w). case run_we_command vars fv xenv cmd argv 512 w of (r, w') \<Rightarrow> (r, (st, w')))
       (\<lambda>args (st, w).
          (wp_send_daemon_command vars denv (\<lambda>line. fst (daemon_connection (daemon_handler vars cenv) line st)) args 512,
           (case build_request [] True args of
              None \<Rightarrow> st
            | Some line \<Rightarrow>
                if de_socket denv \<and> de_connect denv \<and> de_write denv \<and>
                   (case wp_daemon_ctl_socket_path vars 512 of None \<Rightarrow> False | Some path \<Rightarrow> length path < 108)
                then snd (daemon_connection (daemon_handler vars cenv) line st) else st, w)))"

lemma portal_after_request: "portal_after (request_word q @ [LF]) st = snd (handle_ctl_request q st)"
proof -
  have "read_line (request_word q @ [LF]) 512 = Some (request_word q @ [LF])"
    using requests.read_message [OF _ request_encode, of q 512 "[]"] request_word_plain [of q] by simp
  then show ?thesis by (simp add: portal_after_def request_parse_word)
qed

lemma overlay_request:
  assumes "wp_portal_name vars 64 256 = Inr name" and "ce_connect cenv" and "ce_timeouts cenv" and "ce_write cenv"
    and "wp_ctl_socket_path (Some name) 256 = Some ppath" and "length ppath < 108"
  shows "wp_portal_set_debug_overlay vars (portal_send cenv) on st = wp_wl_set_debug_enabled on st"
  using assms portal_after_request [of WP_CTL_REQUEST_DEBUG_ON st] portal_after_request [of WP_CTL_REQUEST_DEBUG_OFF st]
  by (cases on) (simp_all add: wp_portal_set_debug_overlay_def portal_send_def request_encode handle_ctl_request_def)

text \<open>
  C6. The debug commands work end to end: with the daemon and the portal reachable,
  \<^verbatim>\<open>wallpiperctl debug-on\<close> exits with status 0 and prints no error, and the portal, which was in a
  reachable state, is in a reachable state in which the overlay is enabled, having executed
  exactly that request; nothing is run under Wine.
\<close>

theorem debug_on_end_to_end:
  assumes "wp_daemon_ctl_socket_path vars 512 = Some dpath" and "length dpath < 108"
    and "de_socket denv" and "de_connect denv" and "de_write denv"
    and "wp_portal_name vars 64 256 = Inr name" and "wp_ctl_socket_path (Some name) 256 = Some ppath"
    and "length ppath < 108" and "ce_connect cenv" and "ce_timeouts cenv" and "ce_write cenv"
    and "wl_reachable st"
  shows "\<exists>st'. run_client vars fv xenv denv cenv [prog, ''debug-on''] (st, w) = ((0, Some []), (st', w)) \<and>
    st' = snd (handle_ctl_request WP_CTL_REQUEST_DEBUG_ON st) \<and> ws_debug_enabled st' \<and> wl_reachable st'"
proof -
  let ?h = "daemon_handler vars cenv"
  have h: "?h [''debug-on''] st = (Inr (), wp_wl_set_debug_enabled True st)"
    using overlay_request [OF assms(6,9-11,7,8)] by (simp add: daemon_handler_def wp_commands_dispatch_def)
  have req: "build_request [] True [''debug-on''] = Some (''debug-on'' @ [LF])" by simp
  have conn: "daemon_connection ?h (''debug-on'' @ [LF]) st = (''OK'' @ [LF], wp_wl_set_debug_enabled True st)"
    and sent: "wp_send_daemon_command vars denv (\<lambda>r. fst (daemon_connection ?h r st)) [''debug-on''] 512 = Inr ()"
    using daemon_exchange [OF assms(1-5) _ _ _ req, of ?h st 512]
    by (simp_all add: h is_word_def is_daemon_sep_def daemon_carriable_def daemon_norm_def)
  have reach: "wl_reachable (wp_wl_set_debug_enabled True st)"
    using wl_reachable_step [OF assms(12) wl_step.set_debug] by blast
  have "run_client vars fv xenv denv cenv [prog, ''debug-on''] (st, w) =
      ((0, Some []), (wp_wl_set_debug_enabled True st, w))"
    using sent conn assms(1-5)
    by (simp add: run_client_def wallpiperctl_main_def is_we_command_def is_daemon_command_def WE_VERBS_def
        DAEMON_COMMANDS_def ctl_exit_def req Let_def)
  with reach show ?thesis
    by (auto simp: handle_ctl_request_def wp_wl_set_debug_enabled_def wp_wl_ensure_debug_surface_def req_def Let_def)
qed

theorem debug_on_end_to_end_witness:
  "\<exists>st'. run_client demo_ctl_vars demo_ctl_files demo_exec \<lparr>de_socket = True, de_connect = True, de_write = True\<rparr>
      \<lparr>ce_connect = True, ce_timeouts = True, ce_write = True\<rparr> [''wallpiperctl'', ''debug-on'']
      (demo_bound, \<lparr>ww_execs = [], ww_out = []\<rparr>) = ((0, Some []), (st', \<lparr>ww_execs = [], ww_out = []\<rparr>)) \<and>
    ws_debug_enabled st'"
  using debug_on_end_to_end [of demo_ctl_vars "''/tmp/wallpiper/wallpiperd-ctl.sock''"
      "\<lparr>de_socket = True, de_connect = True, de_write = True\<rparr>" "''sway''" "''/tmp/wallpiper-portal-sway-ctl.sock''"
      "\<lparr>ce_connect = True, ce_timeouts = True, ce_write = True\<rparr>" demo_bound demo_ctl_files demo_exec
      "''wallpiperctl''" "\<lparr>ww_execs = [], ww_out = []\<rparr>"] reachable_demo_bound
  by (auto simp: wp_daemon_ctl_socket_path_def wp_temp_dir_def wp_portal_name_def wp_ctl_socket_path_def
      demo_ctl_vars_def path_defs)

end
